(* ===== verification/Prelude.thy ===== *)
theory Prelude
  imports Main "HOL-Library.Finite_Map" "HOL-Library.Product_Lexorder"
begin

text \<open>
  Shared vocabulary of the development: instants and durations, results of fallible code,
  JSON values, and keyed row tables (the relational tables of the application are lists of
  records in insertion order, addressed by a key column).  The lemmas about rows are declared
  for the simplifier, so that the component theories only reason about the row they change.
\<close>

named_theorems row_simps \<open>reading a table after one row was written\<close>
named_theorems queue_defs \<open>the definitions of the queue operations\<close>
named_theorems inv_defs \<open>the conjuncts of the database invariant\<close>
named_theorems frame_simps \<open>tables an operation leaves alone\<close>

subsection \<open>Time\<close>

text \<open>
  A \<open>datetime\<close> column holds an instant; the model counts microseconds since the epoch, the
  resolution of Python's \<open>datetime\<close>.  A \<open>timedelta\<close> is a difference of instants.
\<close>

type_synonym instant = int
type_synonym duration = int

abbreviation seconds :: "int \<Rightarrow> duration" where "seconds n \<equiv> n * 1000000"
abbreviation minutes :: "int \<Rightarrow> duration" where "minutes n \<equiv> seconds (60 * n)"
abbreviation hours :: "int \<Rightarrow> duration" where "hours n \<equiv> seconds (3600 * n)"
abbreviation days :: "int \<Rightarrow> duration" where "days n \<equiv> seconds (86400 * n)"

subsection \<open>Errors as values\<close>

text \<open>The exceptions the modelled code raises; the text is the message of the source.\<close>

datatype py_error =
    ValueError string
  | ValidationError
  | IntegrityError
  | RuntimeError string
  | KeyError string
  | TypeError string
  | HTTPException int string
  | DataError

type_synonym 'a result = "py_error + 'a"

definition bind_result :: "'a result \<Rightarrow> ('a \<Rightarrow> 'b result) \<Rightarrow> 'b result" where
  "bind_result r f = (case r of Inl e \<Rightarrow> Inl e | Inr x \<Rightarrow> f x)"

lemma bind_result_simps [simp]:
  "bind_result (Inl e) f = Inl e"
  "bind_result (Inr x) f = f x"
  by (simp_all add: bind_result_def)

lemma bind_result_eq_Inr:
  "bind_result r f = Inr y \<longleftrightarrow> (\<exists>x. r = Inr x \<and> f x = Inr y)"
  by (cases r) auto

definition result_of_option :: "py_error \<Rightarrow> 'a option \<Rightarrow> 'a result" where
  "result_of_option e r = (case r of None \<Rightarrow> Inl e | Some x \<Rightarrow> Inr x)"

lemma result_of_option_simps [simp]:
  "result_of_option e None = Inl e"
  "result_of_option e (Some x) = Inr x"
  by (simp_all add: result_of_option_def)

subsection \<open>JSON\<close>

text \<open>
  JSON columns.  Objects are finite maps, so that two dictionaries are equal exactly when they
  have the same keys and values, whatever the order of insertion.  \<open>JTime\<close> is the text that
  \<open>isoformat\<close> writes for an instant; it occurs in event details only, which no code reads
  back.  Numbers with a fraction are exact rationals.
\<close>

datatype json =
    JNull
  | JBool bool
  | JInt int
  | JFloat rat
  | JStr string
  | JTime instant
  | JList "json list"
  | JObj "(string, json) fmap"

type_synonym jdict = "(string, json) fmap"

definition truthy :: "json \<Rightarrow> bool" where
  "truthy v = (case v of
     JNull \<Rightarrow> False
   | JBool b \<Rightarrow> b
   | JInt n \<Rightarrow> n \<noteq> 0
   | JFloat x \<Rightarrow> x \<noteq> 0
   | JStr s \<Rightarrow> s \<noteq> []
   | JTime _ \<Rightarrow> True
   | JList xs \<Rightarrow> xs \<noteq> []
   | JObj d \<Rightarrow> d \<noteq> fmempty)"

definition dict_get :: "jdict \<Rightarrow> string \<Rightarrow> json" where
  "dict_get d k = (case fmlookup d k of None \<Rightarrow> JNull | Some v \<Rightarrow> v)"

definition dict_str :: "jdict \<Rightarrow> string \<Rightarrow> string" where
  "dict_str d k = (case fmlookup d k of Some (JStr s) \<Rightarrow> s | _ \<Rightarrow> [])"

definition dict_ints :: "jdict \<Rightarrow> string \<Rightarrow> int list" where
  "dict_ints d k = (case fmlookup d k of
     Some (JList vs) \<Rightarrow> List.map_filter (\<lambda>v. case v of JInt n \<Rightarrow> Some n | _ \<Rightarrow> None) vs
   | _ \<Rightarrow> [])"

lemma dict_get_fmupd [simp]:
  "dict_get (fmupd k v d) k' = (if k' = k then v else dict_get d k')"
  by (simp add: dict_get_def)

lemma dict_get_empty [simp]: "dict_get fmempty k = JNull"
  by (simp add: dict_get_def)

subsection \<open>Row tables\<close>

definition get_row :: "('r \<Rightarrow> 'k) \<Rightarrow> 'k \<Rightarrow> 'r list \<Rightarrow> 'r option" where
  "get_row key k rs = find (\<lambda>r. key r = k) rs"

definition put_row :: "('r \<Rightarrow> 'k) \<Rightarrow> 'r \<Rightarrow> 'r list \<Rightarrow> 'r list" where
  "put_row key r rs = map (\<lambda>s. if key s = key r then r else s) rs"

lemma get_row_SomeD: "get_row key k rs = Some r \<Longrightarrow> r \<in> set rs \<and> key r = k"
  by (auto simp: get_row_def find_Some_iff)

lemma get_row_None_iff: "get_row key k rs = None \<longleftrightarrow> (\<forall>r \<in> set rs. key r \<noteq> k)"
  by (auto simp: get_row_def find_None_iff)

lemma get_row_append:
  "get_row key k (rs @ ss) = (case get_row key k rs of None \<Rightarrow> get_row key k ss | Some r \<Rightarrow> Some r)"
  unfolding get_row_def by (induction rs) auto

lemma get_row_Cons:
  "get_row key k (r # rs) = (if key r = k then Some r else get_row key k rs)"
  by (simp add: get_row_def)

lemma get_row_Nil [simp]: "get_row key k [] = None"
  by (simp add: get_row_def)

lemma get_row_distinct:
  "distinct (map key rs) \<Longrightarrow> r \<in> set rs \<Longrightarrow> get_row key (key r) rs = Some r"
proof (induction rs)
  case Nil
  then show ?case by simp
next
  case (Cons s rs)
  show ?case
  proof (cases "r = s")
    case True
    then show ?thesis by (simp add: get_row_Cons)
  next
    case False
    with Cons.prems have "r \<in> set rs" and "key s \<noteq> key r" by auto
    with Cons show ?thesis by (simp add: get_row_Cons)
  qed
qed

lemma keys_put_row [row_simps, simp]: "map key (put_row key r rs) = map key rs"
  by (induction rs) (simp_all add: put_row_def)

lemma length_put_row [row_simps, simp]: "length (put_row key r rs) = length rs"
  by (simp add: put_row_def)

lemma set_put_row:
  "set (put_row key r rs) =
     {s \<in> set rs. key s \<noteq> key r} \<union> (if key r \<in> key ` set rs then {r} else {})"
  by (auto simp: put_row_def rev_image_eqI)

lemma in_put_rowD:
  "s \<in> set (put_row key r rs) \<Longrightarrow> s = r \<or> s \<in> set rs \<and> key s \<noteq> key r"
  by (auto simp: set_put_row split: if_splits)

lemma in_put_rowI:
  "s \<in> set rs \<Longrightarrow> key s = key r \<Longrightarrow> r \<in> set (put_row key r rs)"
  by (auto simp: put_row_def)

lemma in_put_row_other:
  "s \<in> set rs \<Longrightarrow> key s \<noteq> key r \<Longrightarrow> s \<in> set (put_row key r rs)"
  by (auto simp: put_row_def)

lemma get_put_row_same:
  "k = key r \<Longrightarrow> get_row key k rs = Some s \<Longrightarrow> get_row key k (put_row key r rs) = Some r"
  by (induction rs) (auto simp: put_row_def get_row_def split: if_splits)

lemma get_put_row_other:
  "k \<noteq> key r \<Longrightarrow> get_row key k (put_row key r rs) = get_row key k rs"
  by (induction rs) (auto simp: put_row_def get_row_def)

lemma put_row_absent: "\<forall>s \<in> set rs. key s \<noteq> key r \<Longrightarrow> put_row key r rs = rs"
  by (induction rs) (auto simp: put_row_def)

lemma put_row_put_row [row_simps, simp]:
  "key r = key s \<Longrightarrow> put_row key r (put_row key s rs) = put_row key r rs"
  by (auto simp: put_row_def)

lemma sum_put_row:
  fixes f :: "'r \<Rightarrow> int"
  assumes "distinct (map key rs)" and "get_row key (key r) rs = Some s"
  shows "sum_list (map f (put_row key r rs)) = sum_list (map f rs) - f s + f r"
  using assms
proof (induction rs)
  case Nil
  then show ?case by simp
next
  case (Cons t rs)
  show ?case
  proof (cases "key t = key r")
    case True
    with Cons.prems have "\<forall>u \<in> set rs. key u \<noteq> key r" and "t = s"
      by (auto simp: get_row_Cons rev_image_eqI)
    with True show ?thesis
      using put_row_absent [of rs key r] by (simp add: put_row_def)
  next
    case False
    with Cons show ?thesis by (simp add: put_row_def get_row_Cons)
  qed
qed

lemma sum_put_row_absent:
  "\<forall>s \<in> set rs. key s \<noteq> key r \<Longrightarrow> sum_list (map f (put_row key r rs)) = sum_list (map f rs)"
  by (simp add: put_row_absent)

text \<open>Writing several rows of a table, one after the other.\<close>

lemma fold_put_row:
  assumes "distinct (map key rs)" and "set xs \<subseteq> set rs" and "\<And>x. key (g x) = key x"
  shows "fold (\<lambda>x. put_row key (g x)) xs rs = map (\<lambda>r. if r \<in> set xs then g r else r) rs"
  using assms(2)
proof (induction xs rule: rev_induct)
  case Nil
  then show ?case by simp
next
  case (snoc x xs)
  have eq: "r = x" if "r \<in> set rs" "key r = key x" for r
    using that snoc.prems assms(1) by (metis get_row_distinct in_set_conv_decomp option.inject subsetD)
  have "fold (\<lambda>x. put_row key (g x)) (xs @ [x]) rs =
      put_row key (g x) (map (\<lambda>r. if r \<in> set xs then g r else r) rs)"
    using snoc by simp
  also have "\<dots> = map (\<lambda>r. if r \<in> set (xs @ [x]) then g r else r) rs"
    unfolding put_row_def using eq by (auto simp: assms(3))
  finally show ?case .
qed

lemma length_filter_put_row_le:
  assumes "\<And>s. s \<in> set rs \<Longrightarrow> key s = key r \<Longrightarrow> P r \<Longrightarrow> P s"
  shows "length (filter P (put_row key r rs)) \<le> length (filter P rs)"
  using assms
proof (induction rs)
  case Nil
  then show ?case by (simp add: put_row_def)
next
  case (Cons t rs)
  then have "length (filter P (put_row key r rs)) \<le> length (filter P rs)" by auto
  with Cons.prems show ?case by (auto simp: put_row_def)
qed

subsection \<open>Lists and dictionaries of the standard library\<close>

text \<open>\<open>list(dict.fromkeys(xs))\<close>: the first occurrence of every element, in order.\<close>

definition fromkeys :: "'a list \<Rightarrow> 'a list" where
  "fromkeys xs = rev (remdups (rev xs))"

lemma set_fromkeys [simp]: "set (fromkeys xs) = set xs"
  by (simp add: fromkeys_def)

lemma distinct_fromkeys [simp]: "distinct (fromkeys xs)"
  by (simp add: fromkeys_def)

lemma fromkeys_snoc [simp]:
  "fromkeys (xs @ [x]) = (if x \<in> set xs then fromkeys xs else fromkeys xs @ [x])"
  by (simp add: fromkeys_def)

lemma fromkeys_Nil [simp]: "fromkeys [] = []"
  by (simp add: fromkeys_def)

lemma fromkeys_append_prefix: "\<exists>zs. fromkeys (xs @ ys) = fromkeys xs @ zs"
proof (induction ys rule: rev_induct)
  case Nil
  then show ?case by simp
next
  case (snoc y ys)
  then obtain zs where "fromkeys (xs @ ys) = fromkeys xs @ zs" by blast
  then have "fromkeys ((xs @ ys) @ [y]) = fromkeys xs @ (if y \<in> set (xs @ ys) then zs else zs @ [y])"
    unfolding fromkeys_snoc by simp
  then show ?case by (metis append_assoc)
qed

lemma fromkeys_distinct [simp]: "distinct xs \<Longrightarrow> fromkeys xs = xs"
  by (simp add: fromkeys_def distinct_remdups_id)

lemma length_fromkeys_le: "length (fromkeys xs) \<le> length xs"
  by (metis fromkeys_def length_remdups_leq length_rev)

lemma hd_sort_key_min:
  assumes "sort_key f xs = y # ys"
  shows "y \<in> set xs \<and> (\<forall>x \<in> set xs. f y \<le> f x)"
proof -
  have set_eq: "set (y # ys) = set xs" using assms by (metis set_sort)
  have "sorted (map f (y # ys))" using assms by (metis sorted_sort_key)
  then have "\<forall>x \<in> set (y # ys). f y \<le> f x" by auto
  with set_eq show ?thesis by auto
qed

lemma sort_key_eq_Nil [simp]: "sort_key f xs = [] \<longleftrightarrow> xs = []"
  by (metis length_0_conv length_sort)

lemma list_all2_in1: "list_all2 R xs ys \<Longrightarrow> x \<in> set xs \<Longrightarrow> \<exists>y \<in> set ys. R x y"
  by (induction rule: list_all2_induct) auto

lemma list_all2_in2: "list_all2 R xs ys \<Longrightarrow> y \<in> set ys \<Longrightarrow> \<exists>x \<in> set xs. R x y"
  by (induction rule: list_all2_induct) auto

end
