(* ===== verification/Py_Text.thy ===== *)
theory Py_Text
  imports Prelude
begin

text \<open>
  The string operations of the Python standard library that the modelled code calls.  A
  \<open>string\<close> is a list of code points below 256; the operations follow Python on that range.
  Decimal literals are parsed with the grammar of \<open>decimal.Decimal\<close>.
\<close>

subsection \<open>Whitespace, case, prefixes\<close>

definition is_space :: "char \<Rightarrow> bool" where
  "is_space c = (let n = (of_char c :: nat) in
     9 \<le> n \<and> n \<le> 13 \<or> 28 \<le> n \<and> n \<le> 32 \<or> n = 133 \<or> n = 160)"

definition py_lstrip :: "string \<Rightarrow> string" where
  "py_lstrip s = dropWhile is_space s"

definition py_strip :: "string \<Rightarrow> string" where
  "py_strip s = rev (dropWhile is_space (rev (dropWhile is_space s)))"

definition py_startswith :: "string \<Rightarrow> string \<Rightarrow> bool" where
  "py_startswith s p = (take (length p) s = p)"

definition py_removeprefix :: "string \<Rightarrow> string \<Rightarrow> string" where
  "py_removeprefix s p = (if py_startswith s p then drop (length p) s else s)"

definition lower_char :: "char \<Rightarrow> char" where
  "lower_char c = (let n = (of_char c :: nat) in
     if 65 \<le> n \<and> n \<le> 90 \<or> 192 \<le> n \<and> n \<le> 222 \<and> n \<noteq> 215 then char_of (n + 32) else c)"

definition py_lower :: "string \<Rightarrow> string" where
  "py_lower s = map lower_char s"

lemma py_strip_Nil [simp]: "py_strip [] = []"
  by (simp add: py_strip_def)

lemma py_startswith_append [simp]: "py_startswith (p @ s) p"
  by (simp add: py_startswith_def)

lemma py_removeprefix_append [simp]: "py_removeprefix (p @ s) p = s"
  by (simp add: py_removeprefix_def)

lemma dropWhile_id: "(xs = [] \<or> \<not> P (hd xs)) \<Longrightarrow> dropWhile P xs = xs"
  by (cases xs) auto

lemma py_strip_ends:
  assumes "py_strip s \<noteq> []"
  shows "\<not> is_space (hd (py_strip s))" and "\<not> is_space (last (py_strip s))"
proof -
  let ?l = "dropWhile is_space s"
  let ?t = "dropWhile is_space (rev ?l)"
  have ne: "?t \<noteq> []" using assms by (simp add: py_strip_def)
  then have "\<not> is_space (hd ?t)" by (rule hd_dropWhile)
  then show "\<not> is_space (last (py_strip s))"
    using ne by (simp add: py_strip_def last_rev)
  obtain pre where pre: "rev ?l = pre @ ?t"
    by (metis takeWhile_dropWhile_id)
  then have l: "?l = rev ?t @ rev pre" by (metis rev_append rev_rev_ident)
  have ne': "rev ?t \<noteq> []" using ne by (metis rev_is_Nil_conv)
  then have hds: "hd ?l = hd (rev ?t)" by (metis l hd_append2)
  have "?l \<noteq> []" using ne' by (metis l append_is_Nil_conv)
  then have "\<not> is_space (hd ?l)" by (rule hd_dropWhile)
  then show "\<not> is_space (hd (py_strip s))" unfolding py_strip_def hds .
qed

lemma py_strip_idem [simp]: "py_strip (py_strip s) = py_strip s"
proof (cases "py_strip s = []")
  case True
  then show ?thesis by simp
next
  case False
  from py_strip_ends [OF False] have
    "dropWhile is_space (py_strip s) = py_strip s"
    "dropWhile is_space (rev (py_strip s)) = rev (py_strip s)"
    using False by (auto intro!: dropWhile_id simp: hd_rev)
  then show ?thesis by (simp add: py_strip_def [of "py_strip s"])
qed

subsection \<open>Decimal rendering of integers\<close>

definition digit_char :: "nat \<Rightarrow> char" where
  "digit_char d = char_of (48 + d)"

fun str_of_nat :: "nat \<Rightarrow> string" where
  "str_of_nat n = (if n < 10 then [digit_char n] else str_of_nat (n div 10) @ [digit_char (n mod 10)])"

declare str_of_nat.simps [simp del]

definition str_of_int :: "int \<Rightarrow> string" where
  "str_of_int i = (if i < 0 then CHR ''-'' # str_of_nat (nat (- i)) else str_of_nat (nat i))"

definition is_digit :: "char \<Rightarrow> bool" where
  "is_digit c = (let n = (of_char c :: nat) in 48 \<le> n \<and> n \<le> 57)"

definition digit_val :: "char \<Rightarrow> nat" where
  "digit_val c = of_char c - 48"

definition nat_of_digits :: "string \<Rightarrow> nat" where
  "nat_of_digits s = foldl (\<lambda>acc c. 10 * acc + digit_val c) 0 s"

lemma digit_val_digit_char [simp]: "d < 10 \<Longrightarrow> digit_val (digit_char d) = d"
  by (simp add: digit_val_def digit_char_def)

lemma is_digit_digit_char [simp]: "d < 10 \<Longrightarrow> is_digit (digit_char d)"
  by (simp add: is_digit_def digit_char_def Let_def)

lemma nat_of_digits_snoc [simp]: "nat_of_digits (s @ [c]) = 10 * nat_of_digits s + digit_val c"
  by (simp add: nat_of_digits_def)

lemma nat_of_digits_str_of_nat [simp]: "nat_of_digits (str_of_nat n) = n"
proof (induction n rule: str_of_nat.induct)
  case (1 n)
  show ?case
  proof (cases "n < 10")
    case True
    then show ?thesis by (simp add: str_of_nat.simps [of n] nat_of_digits_def)
  next
    case False
    with 1 show ?thesis by (simp add: str_of_nat.simps [of n])
  qed
qed

lemma str_of_nat_digits: "list_all is_digit (str_of_nat n)"
proof (induction n rule: str_of_nat.induct)
  case (1 n)
  then show ?case
    by (cases "n < 10") (simp_all add: str_of_nat.simps [of n])
qed

lemma str_of_nat_inj [simp]: "str_of_nat m = str_of_nat n \<longleftrightarrow> m = n"
  by (metis nat_of_digits_str_of_nat)

lemma str_of_nat_not_minus: "str_of_nat n \<noteq> CHR ''-'' # s"
proof
  assume "str_of_nat n = CHR ''-'' # s"
  with str_of_nat_digits [of n] have "is_digit (CHR ''-'')" by simp
  then show False by (simp add: is_digit_def)
qed

lemma str_of_int_inj [simp]: "str_of_int i = str_of_int j \<longleftrightarrow> i = j"
  using str_of_nat_not_minus str_of_nat_not_minus [symmetric]
  by (auto simp: str_of_int_def)

subsection \<open>Decimal literals\<close>

text \<open>
  \<open>Decimal(text)\<close>: an optional sign, digits with an optional fraction and exponent, an
  infinity or a NaN; surrounding white space and underscores are dropped.  \<open>None\<close> is the
  \<open>InvalidOperation\<close> of a literal that does not parse.
\<close>

datatype decimal = DFinite rat | DInf bool | DNaN

fun split_sign :: "string \<Rightarrow> bool \<times> string" where
  "split_sign (c # s) = (if c = CHR ''-'' then (True, s) else if c = CHR ''+'' then (False, s)
     else (False, c # s))"
| "split_sign [] = (False, [])"

definition parse_exponent :: "string \<Rightarrow> int option" where
  "parse_exponent s = (case s of [] \<Rightarrow> Some 0 | c # r \<Rightarrow>
     if lower_char c = CHR ''e'' then
       (let (neg, ds) = split_sign r in
        if ds \<noteq> [] \<and> list_all is_digit ds
        then Some ((if neg then -1 else 1) * int (nat_of_digits ds)) else None)
     else None)"

definition parse_number :: "string \<Rightarrow> (rat \<times> int) option" where
  "parse_number s =
     (let ip = takeWhile is_digit s; r1 = dropWhile is_digit s;
          dot = (r1 \<noteq> [] \<and> hd r1 = CHR ''.'');
          fp = (if dot then takeWhile is_digit (tl r1) else []);
          r2 = (if dot then dropWhile is_digit (tl r1) else r1)
      in if ip = [] \<and> fp = [] then None
         else (case parse_exponent r2 of None \<Rightarrow> None
               | Some e \<Rightarrow> Some (of_nat (nat_of_digits (ip @ fp)), e - int (length fp))))"

definition scale10 :: "rat \<Rightarrow> int \<Rightarrow> rat" where
  "scale10 m e = (if 0 \<le> e then m * 10 ^ nat e else m / 10 ^ nat (- e))"

definition parse_decimal :: "string \<Rightarrow> decimal option" where
  "parse_decimal text =
     (let (neg, body) = split_sign (filter (\<lambda>c. c \<noteq> CHR ''_'') (py_strip text));
          low = py_lower body
      in if low = ''inf'' \<or> low = ''infinity'' then Some (DInf neg)
         else if (take 3 low = ''nan'' \<and> list_all is_digit (drop 3 low)) \<or>
                 (take 4 low = ''snan'' \<and> list_all is_digit (drop 4 low)) then Some DNaN
         else map_option (\<lambda>(m, e). DFinite (if neg then - scale10 m e else scale10 m e))
                (parse_number body))"

text \<open>\<open>a > b\<close>; ordering a NaN raises \<open>InvalidOperation\<close> (\<open>None\<close>).\<close>

fun decimal_gt :: "decimal \<Rightarrow> decimal \<Rightarrow> bool option" where
  "decimal_gt DNaN _ = None"
| "decimal_gt _ DNaN = None"
| "decimal_gt (DFinite a) (DFinite b) = Some (b < a)"
| "decimal_gt (DFinite a) (DInf neg) = Some neg"
| "decimal_gt (DInf neg) (DFinite b) = Some (\<not> neg)"
| "decimal_gt (DInf n1) (DInf n2) = Some (\<not> n1 \<and> n2)"

lemma decimal_gt_irrefl: "decimal_gt a a \<noteq> Some True"
  by (cases a) auto

lemma decimal_gt_asym: "decimal_gt a b = Some True \<Longrightarrow> decimal_gt b a = Some False"
  by (cases a; cases b) auto

lemma decimal_gt_trans:
  "decimal_gt a b = Some True \<Longrightarrow> decimal_gt b c = Some True \<Longrightarrow> decimal_gt a c = Some True"
  by (cases a; cases b; cases c) auto

subsection \<open>Conversion to integers\<close>

text \<open>\<open>int(text)\<close>: an optional sign, digits with single underscores between them, white space
  around.\<close>

fun digit_groups :: "string \<Rightarrow> bool" where
  "digit_groups [] = False"
| "digit_groups [c] = is_digit c"
| "digit_groups (c # e # s) = (is_digit c \<and> (if e = CHR ''_'' then digit_groups s else digit_groups (e # s)))"

definition int_of_text :: "string \<Rightarrow> int result" where
  "int_of_text s =
     (let (neg, body) = split_sign (py_strip s); ds = filter (\<lambda>c. c \<noteq> CHR ''_'') body in
      if digit_groups body then Inr ((if neg then -1 else 1) * int (nat_of_digits ds))
      else Inl (ValueError ''invalid literal for int()''))"

text \<open>\<open>int(value or 0)\<close>.\<close>

fun int_or_zero :: "json \<Rightarrow> int result" where
  "int_or_zero JNull = Inr 0"
| "int_or_zero (JBool b) = Inr (if b then 1 else 0)"
| "int_or_zero (JInt n) = Inr n"
| "int_or_zero (JFloat x) = Inr (if 0 \<le> x then \<lfloor>x\<rfloor> else \<lceil>x\<rceil>)"
| "int_or_zero (JStr s) = (if s = [] then Inr 0 else int_of_text s)"
| "int_or_zero (JTime _) = Inl (ValueError ''invalid literal for int()'')"
| "int_or_zero (JList xs) = (if xs = [] then Inr 0 else Inl (TypeError ''int() argument''))"
| "int_or_zero (JObj m) = (if m = fmempty then Inr 0 else Inl (TypeError ''int() argument''))"

end
