(* ===== verification/Job_Domain.thy ===== *)
theory Job_Domain
  imports Py_Text
begin

text \<open>
  \<^verbatim>\<open>manga_manager/domain/jobs.py\<close>: job kinds and states, the payload classes with
  their declared field constraints, and \<open>parse_job_payload\<close>.  The payload classes are records;
  \<open>model_dump\<close> is their JSON image.  The validation engine of pydantic is not part of the
  repository: \<open>parse_job_payload\<close> takes it as the parameter \<open>model_validate\<close>, and the locale
  \<open>payload_codec\<close> states what the application relies on.
\<close>

subsection \<open>Kinds and states\<close>

datatype job_kind =
    SOURCE_PULL | SOURCE_REFRESH | CHAPTER_DOWNLOAD | KAVITA_SYNC | LIBRARY_REPAIR
  | COVER_BACKFILL | MAINTENANCE | NOTIFICATION | MATCH_OPERATION

fun kind_value :: "job_kind \<Rightarrow> string" where
  "kind_value SOURCE_PULL = ''source_pull''"
| "kind_value SOURCE_REFRESH = ''source_refresh''"
| "kind_value CHAPTER_DOWNLOAD = ''chapter_download''"
| "kind_value KAVITA_SYNC = ''kavita_sync''"
| "kind_value LIBRARY_REPAIR = ''library_repair''"
| "kind_value COVER_BACKFILL = ''cover_backfill''"
| "kind_value MAINTENANCE = ''maintenance''"
| "kind_value NOTIFICATION = ''notification''"
| "kind_value MATCH_OPERATION = ''match_operation''"

datatype job_state = QUEUED | LEASED | RETRY_WAIT | SUCCEEDED | FAILED | CANCELLED

definition ACTIVE_JOB_STATES :: "job_state list" where
  "ACTIVE_JOB_STATES = [QUEUED, LEASED, RETRY_WAIT]"

definition TERMINAL_JOB_STATES :: "job_state list" where
  "TERMINAL_JOB_STATES = [SUCCEEDED, FAILED, CANCELLED]"

lemma active_states_iff [simp]:
  "s \<in> set ACTIVE_JOB_STATES \<longleftrightarrow> s = QUEUED \<or> s = LEASED \<or> s = RETRY_WAIT"
  by (auto simp: ACTIVE_JOB_STATES_def)

lemma terminal_states_iff [simp]:
  "s \<in> set TERMINAL_JOB_STATES \<longleftrightarrow> s = SUCCEEDED \<or> s = FAILED \<or> s = CANCELLED"
  by (auto simp: TERMINAL_JOB_STATES_def)

lemma kind_value_inj [simp]: "kind_value a = kind_value b \<longleftrightarrow> a = b"
  by (cases a; cases b) simp_all

subsection \<open>Payload classes\<close>

record source_pull_payload =
  sp_version :: int
  sp_source :: string
  sp_workflow_key :: string

record source_refresh_payload =
  sr_version :: int
  sr_source :: string
  sr_source_id :: string
  sr_title :: string
  sr_url :: string
  sr_aliases :: "string list"
  sr_description :: string
  sr_cover_url :: string
  sr_genres :: "string list"
  sr_popularity :: rat
  sr_external_ids :: "(string, string) fmap"
  sr_metadata :: jdict
  sr_workflow_key :: string
  sr_observation_version :: string
  sr_acquisition_critical :: bool

record chapter_download_payload =
  cd_version :: int
  cd_chapter_release_id :: int
  cd_attempted_sources :: "string list"
  cd_preferred_only :: bool

record cover_backfill_payload =
  cb_version :: int
  cb_source_series_id :: int

datatype reading_status = NoStatus | Read | Unread

fun reading_status_value :: "reading_status \<Rightarrow> string" where
  "reading_status_value NoStatus = ''''"
| "reading_status_value Read = ''read''"
| "reading_status_value Unread = ''unread''"

record kavita_sync_payload =
  ks_version :: int
  ks_series_id :: int
  ks_series_ids :: "int list"
  ks_folder_path :: string
  ks_reading_status :: reading_status

record library_repair_payload =
  lr_version :: int
  lr_series_id :: int
  lr_reason :: string
  lr_obsolete_storage_keys :: "string list"

record maintenance_payload =
  mt_version :: int
  mt_action :: string
  mt_series_id :: int

record notification_payload =
  nt_version :: int
  nt_activity_event_id :: int

record match_operation_payload =
  mo_version :: int
  mo_operation_id :: int

datatype job_payload =
    SourcePullPayload source_pull_payload
  | SourceRefreshPayload source_refresh_payload
  | ChapterDownloadPayload chapter_download_payload
  | CoverBackfillPayload cover_backfill_payload
  | KavitaSyncPayload kavita_sync_payload
  | LibraryRepairPayload library_repair_payload
  | MaintenancePayload maintenance_payload
  | NotificationPayload notification_payload
  | MatchOperationPayload match_operation_payload

text \<open>\<open>JOB_PAYLOAD_TYPES\<close>, read from the class to the kind.\<close>

fun payload_kind :: "job_payload \<Rightarrow> job_kind" where
  "payload_kind (SourcePullPayload _) = SOURCE_PULL"
| "payload_kind (SourceRefreshPayload _) = SOURCE_REFRESH"
| "payload_kind (ChapterDownloadPayload _) = CHAPTER_DOWNLOAD"
| "payload_kind (KavitaSyncPayload _) = KAVITA_SYNC"
| "payload_kind (LibraryRepairPayload _) = LIBRARY_REPAIR"
| "payload_kind (CoverBackfillPayload _) = COVER_BACKFILL"
| "payload_kind (MaintenancePayload _) = MAINTENANCE"
| "payload_kind (NotificationPayload _) = NOTIFICATION"
| "payload_kind (MatchOperationPayload _) = MATCH_OPERATION"

subsection \<open>Declared field constraints\<close>

definition len_between :: "nat \<Rightarrow> nat \<Rightarrow> 'a list \<Rightarrow> bool" where
  "len_between lo hi s = (lo \<le> length s \<and> length s \<le> hi)"

definition slug_char :: "char \<Rightarrow> bool" where
  "slug_char c = (let n = (of_char c :: nat) in
     97 \<le> n \<and> n \<le> 122 \<or> 48 \<le> n \<and> n \<le> 57 \<or> n = 95 \<or> n = 45)"

definition slug :: "string \<Rightarrow> bool" where
  "slug s = (s \<noteq> [] \<and> list_all slug_char s)"

definition source_pull_ok :: "source_pull_payload \<Rightarrow> bool" where
  "source_pull_ok p = (1 \<le> sp_version p \<and> len_between 1 50 (sp_source p) \<and> slug (sp_source p) \<and>
     len_between 0 100 (sp_workflow_key p))"

definition source_refresh_ok :: "source_refresh_payload \<Rightarrow> bool" where
  "source_refresh_ok p = (1 \<le> sr_version p \<and> len_between 1 50 (sr_source p) \<and> slug (sr_source p) \<and>
     len_between 1 500 (sr_source_id p) \<and> len_between 1 500 (sr_title p) \<and>
     len_between 1 4096 (sr_url p) \<and> len_between 0 100 (sr_workflow_key p) \<and>
     len_between 0 100 (sr_observation_version p))"

definition chapter_download_ok :: "chapter_download_payload \<Rightarrow> bool" where
  "chapter_download_ok p = (1 \<le> cd_version p \<and> 0 < cd_chapter_release_id p)"

definition cover_backfill_ok :: "cover_backfill_payload \<Rightarrow> bool" where
  "cover_backfill_ok p = (1 \<le> cb_version p \<and> 0 < cb_source_series_id p)"

text \<open>\<open>KavitaSyncPayload.validate_targets\<close>: one target at least, batch ids positive, and no
  outbound mutation in a batch.\<close>

definition validate_targets :: "kavita_sync_payload \<Rightarrow> kavita_sync_payload result" where
  "validate_targets p =
     (if ks_series_id p \<le> 0 \<and> ks_series_ids p = []
      then Inl (ValueError ''Kavita sync requires at least one series'')
      else if list_ex (\<lambda>i. i \<le> 0) (ks_series_ids p)
      then Inl (ValueError ''Kavita batch series IDs must be positive'')
      else if ks_series_ids p \<noteq> [] \<and> (ks_folder_path p \<noteq> [] \<or> ks_reading_status p \<noteq> NoStatus)
      then Inl (ValueError ''Kavita batch sync cannot contain an outbound series mutation'')
      else Inr p)"

definition kavita_sync_ok :: "kavita_sync_payload \<Rightarrow> bool" where
  "kavita_sync_ok p = (1 \<le> ks_version p \<and> 0 \<le> ks_series_id p \<and> len_between 0 100 (ks_series_ids p) \<and>
     len_between 0 4096 (ks_folder_path p) \<and> validate_targets p = Inr p)"

definition library_repair_ok :: "library_repair_payload \<Rightarrow> bool" where
  "library_repair_ok p = (1 \<le> lr_version p \<and> 0 < lr_series_id p \<and> len_between 1 100 (lr_reason p))"

definition maintenance_ok :: "maintenance_payload \<Rightarrow> bool" where
  "maintenance_ok p = (1 \<le> mt_version p \<and> len_between 1 100 (mt_action p) \<and> slug (mt_action p) \<and>
     0 \<le> mt_series_id p)"

definition notification_ok :: "notification_payload \<Rightarrow> bool" where
  "notification_ok p = (1 \<le> nt_version p \<and> 0 < nt_activity_event_id p)"

definition match_operation_ok :: "match_operation_payload \<Rightarrow> bool" where
  "match_operation_ok p = (1 \<le> mo_version p \<and> 0 < mo_operation_id p)"

fun payload_ok :: "job_payload \<Rightarrow> bool" where
  "payload_ok (SourcePullPayload p) = source_pull_ok p"
| "payload_ok (SourceRefreshPayload p) = source_refresh_ok p"
| "payload_ok (ChapterDownloadPayload p) = chapter_download_ok p"
| "payload_ok (KavitaSyncPayload p) = kavita_sync_ok p"
| "payload_ok (LibraryRepairPayload p) = library_repair_ok p"
| "payload_ok (CoverBackfillPayload p) = cover_backfill_ok p"
| "payload_ok (MaintenancePayload p) = maintenance_ok p"
| "payload_ok (NotificationPayload p) = notification_ok p"
| "payload_ok (MatchOperationPayload p) = match_operation_ok p"

subsection \<open>JSON images\<close>

definition jstrs :: "string list \<Rightarrow> json" where
  "jstrs xs = JList (map JStr xs)"

fun model_dump :: "job_payload \<Rightarrow> jdict" where
  "model_dump (SourcePullPayload p) = fmap_of_list
     [(''version'', JInt (sp_version p)), (''source'', JStr (sp_source p)),
      (''workflow_key'', JStr (sp_workflow_key p))]"
| "model_dump (SourceRefreshPayload p) = fmap_of_list
     [(''version'', JInt (sr_version p)), (''source'', JStr (sr_source p)),
      (''source_id'', JStr (sr_source_id p)), (''title'', JStr (sr_title p)),
      (''url'', JStr (sr_url p)), (''aliases'', jstrs (sr_aliases p)),
      (''description'', JStr (sr_description p)), (''cover_url'', JStr (sr_cover_url p)),
      (''genres'', jstrs (sr_genres p)), (''popularity'', JFloat (sr_popularity p)),
      (''external_ids'', JObj (fmmap JStr (sr_external_ids p))),
      (''metadata'', JObj (sr_metadata p)), (''workflow_key'', JStr (sr_workflow_key p)),
      (''observation_version'', JStr (sr_observation_version p)),
      (''acquisition_critical'', JBool (sr_acquisition_critical p))]"
| "model_dump (ChapterDownloadPayload p) = fmap_of_list
     [(''version'', JInt (cd_version p)), (''chapter_release_id'', JInt (cd_chapter_release_id p)),
      (''attempted_sources'', jstrs (cd_attempted_sources p)),
      (''preferred_only'', JBool (cd_preferred_only p))]"
| "model_dump (CoverBackfillPayload p) = fmap_of_list
     [(''version'', JInt (cb_version p)), (''source_series_id'', JInt (cb_source_series_id p))]"
| "model_dump (KavitaSyncPayload p) = fmap_of_list
     [(''version'', JInt (ks_version p)), (''series_id'', JInt (ks_series_id p)),
      (''series_ids'', JList (map JInt (ks_series_ids p))),
      (''folder_path'', JStr (ks_folder_path p)),
      (''reading_status'', JStr (reading_status_value (ks_reading_status p)))]"
| "model_dump (LibraryRepairPayload p) = fmap_of_list
     [(''version'', JInt (lr_version p)), (''series_id'', JInt (lr_series_id p)),
      (''reason'', JStr (lr_reason p)),
      (''obsolete_storage_keys'', jstrs (lr_obsolete_storage_keys p))]"
| "model_dump (MaintenancePayload p) = fmap_of_list
     [(''version'', JInt (mt_version p)), (''action'', JStr (mt_action p)),
      (''series_id'', JInt (mt_series_id p))]"
| "model_dump (NotificationPayload p) = fmap_of_list
     [(''version'', JInt (nt_version p)), (''activity_event_id'', JInt (nt_activity_event_id p))]"
| "model_dump (MatchOperationPayload p) = fmap_of_list
     [(''version'', JInt (mo_version p)), (''operation_id'', JInt (mo_operation_id p))]"

subsection \<open>Parsing\<close>

text \<open>A caller passes a model instance or a raw dictionary.\<close>

datatype payload_arg = Model job_payload | Raw jdict

type_synonym validator = "job_kind \<Rightarrow> jdict \<Rightarrow> job_payload option"

definition parse_job_payload :: "validator \<Rightarrow> job_kind \<Rightarrow> payload_arg \<Rightarrow> job_payload result" where
  "parse_job_payload model_validate kind payload =
     (case payload of
        Model p \<Rightarrow> (if payload_kind p = kind then Inr p
                   else result_of_option ValidationError (model_validate kind (model_dump p)))
      | Raw d \<Rightarrow> result_of_option ValidationError (model_validate kind d))"

text \<open>The attributes \<open>source\<close> and \<open>workflow_key\<close> of a payload; \<open>getattr\<close> gives the empty
  string for the classes that have none.\<close>

fun payload_source :: "job_payload \<Rightarrow> string" where
  "payload_source (SourcePullPayload p) = sp_source p"
| "payload_source (SourceRefreshPayload p) = sr_source p"
| "payload_source _ = []"

fun payload_workflow_key :: "job_payload \<Rightarrow> string" where
  "payload_workflow_key (SourcePullPayload p) = sp_workflow_key p"
| "payload_workflow_key (SourceRefreshPayload p) = sr_workflow_key p"
| "payload_workflow_key _ = []"

record job_lease =
  lease_id :: int
  lease_kind :: job_kind
  lease_dedupe_key :: string
  lease_payload :: job_payload
  lease_priority :: int
  lease_attempt :: int
  lease_max_attempts :: int
  lease_owner :: string
  lease_expires_at :: instant
  lease_source :: string
  lease_series_key :: string
  lease_pool :: string

end
