(* ===== verification/Db_Model.thy ===== *)
theory Db_Model
  imports Job_Domain
begin

text \<open>
  \<^verbatim>\<open>manga_manager/infrastructure/db_models.py\<close>: the tables as records, one field per
  column, and the database as a record of tables.  Rows are kept in insertion order; identifiers
  come from sequences (\<open>job_seq\<close> and the like) that never go back.  A status column with a CHECK
  constraint over a fixed set of words is a datatype.  Column lengths are not modelled.
\<close>

subsection \<open>Queue tables\<close>

record work_job =
  job_id :: int
  job_kind_of :: job_kind
  job_dedupe_key :: string
  job_payload :: jdict
  job_source :: string
  job_series_key :: string
  job_pool :: string
  job_cycle_id :: "int option"
  job_workflow_key :: string
  job_group_key :: string
  job_logical_units :: int
  job_pending_payload :: jdict
  job_status :: job_state
  job_priority :: int
  job_attempts :: int
  job_max_attempts :: int
  job_available_at :: instant
  job_lease_owner :: string
  job_lease_expires_at :: "instant option"
  job_heartbeat_at :: "instant option"
  job_error_code :: string
  job_error_message :: string
  job_created_at :: instant
  job_updated_at :: instant
  job_completed_at :: "instant option"
  job_progress_phase :: string
  job_progress_current :: int
  job_progress_total :: int
  job_progress_unit :: string
  job_progress_bytes :: int
  job_progress_message :: string
  job_progress_updated_at :: "instant option"

datatype cycle_status = CycleActive | CycleSettled

record workload_cycle =
  cyc_id :: int
  cyc_status :: cycle_status
  cyc_total_units :: int
  cyc_successful_units :: int
  cyc_failed_units :: int
  cyc_cancelled_units :: int
  cyc_added_units :: int
  cyc_started_at :: instant
  cyc_updated_at :: instant
  cyc_settled_at :: "instant option"

record job_daily_aggregate =
  agg_day :: instant
  agg_kind :: job_kind
  agg_source :: string
  agg_status :: job_state
  agg_error_code :: string
  agg_job_count :: int
  agg_attempt_count :: int
  agg_duration_seconds :: int
  agg_updated_at :: instant

record job_permit =
  prm_job_id :: int
  prm_pool :: string
  prm_owner :: string
  prm_lease_expires_at :: instant

record storage_state =
  st_paused :: bool
  st_free_bytes :: int
  st_min_free_bytes :: int
  st_reserved_bytes :: int
  st_reason :: string
  st_updated_at :: instant

record storage_reservation =
  res_job_id :: int
  res_owner :: string
  res_reserved_bytes :: int
  res_lease_expires_at :: instant

datatype event_type =
    EvEnqueued | EvLeased | EvProgress | EvRetryScheduled | EvSucceeded
  | EvFailed | EvCancelled | EvReleased | EvLeaseExpired | EvRerouted

record job_event =
  ev_job_id :: int
  ev_type :: event_type
  ev_status :: job_state
  ev_owner :: string
  ev_message :: string
  ev_details :: jdict

datatype worker_status = WStarting | WRunning | WDraining | WStopped

record worker_heartbeat =
  wh_worker_id :: string
  wh_status :: worker_status
  wh_active_job_id :: "int option"
  wh_started_at :: instant
  wh_heartbeat_at :: instant
  wh_stopped_at :: "instant option"
  wh_metadata :: jdict

subsection \<open>Provider tables\<close>

datatype health_status = Healthy | Degraded | Cooldown

record catalog_source_state =
  sst_source :: string
  sst_manual_enabled :: bool
  sst_health_status :: health_status
  sst_consecutive_failures :: int
  sst_last_error :: string
  sst_cooldown_until :: "instant option"
  sst_next_request_at :: "instant option"
  sst_last_poll_at :: "instant option"
  sst_updated_at :: instant

text \<open>
  The keys the code reads and writes in \<open>ProviderPolicy.metadata_json\<close>; \<open>IsoText\<close> is a
  timestamp text that \<open>fromisoformat\<close> accepts, \<open>BadText\<close> one that it refuses with a
  \<open>ValueError\<close>.
\<close>

datatype iso_value = IsoText instant | BadText string

record policy_metadata =
  pm_base_poll_seconds :: "int option"
  pm_adaptive_poll_seconds :: "int option"
  pm_unchanged_poll_streak :: "int option"
  pm_exploration_tier :: "int option"
  pm_exploration_until :: "iso_value option"
  pm_benchmark_run_id :: "int option"
  pm_next_recovery_probe :: "iso_value option"
  pm_recovery_probe_step :: "int option"
  pm_recovery_probe_successes :: "int option"
  pm_recovery_started_at :: "iso_value option"
  pm_last_poll_had_changes :: "bool option"

record provider_policy =
  pol_source :: string
  pol_learned_job_limit :: int
  pol_learned_page_limit :: int
  pol_request_interval_seconds :: rat
  pol_cooldown_seconds :: int
  pol_clean_since :: "instant option"
  pol_last_limited_at :: "instant option"
  pol_next_exploration_at :: "instant option"
  pol_expires_at :: "instant option"
  pol_successful_tier_runs :: int
  pol_metadata :: policy_metadata
  pol_updated_at :: instant

record provider_endpoint_state =
  ep_source :: string
  ep_traffic_class :: string
  ep_request_interval_seconds :: rat
  ep_next_request_at :: "instant option"
  ep_cooldown_until :: "instant option"
  ep_consecutive_failures :: int
  ep_last_error :: string
  ep_updated_at :: instant

datatype run_state = RunRunning | RunLimited | RunSucceeded | RunInconclusive

record provider_benchmark_run =
  run_id :: int
  run_source :: string
  run_state_of :: run_state
  run_requested_tier :: int
  run_stable_tier :: int
  run_request_count :: int
  run_success_count :: int
  run_failure_count :: int
  run_limiting_signal :: string
  run_started_at :: instant
  run_completed_at :: "instant option"
  run_report :: jdict

record provider_request_sample =
  smp_run_id :: "int option"
  smp_source :: string
  smp_host :: string
  smp_status_code :: int
  smp_latency_ms :: int
  smp_byte_count :: int
  smp_error_code :: string
  smp_retry_after_seconds :: "int option"
  smp_traffic_class :: string
  smp_created_at :: instant

subsection \<open>Catalogue and download-plan tables\<close>

datatype series_status = Untracked | Interested | Reading | CaughtUp | Paused

datatype integrity_state = IntegrityUnknown | IntegrityHealthy | IntegrityAttention | IntegrityQuarantined

record catalog_series =
  ser_id :: int
  ser_storage_key :: string
  ser_title :: string
  ser_description :: string
  ser_cover_url :: string
  ser_status :: series_status
  ser_integrity_state :: integrity_state
  ser_latest_release_at :: "instant option"
  ser_latest_release_number :: string
  ser_latest_release_source :: string
  ser_kavita_series_id :: "int option"
  ser_kavita_library_id :: "int option"
  ser_kavita_synced_at :: "instant option"
  ser_kavita_cover_checksum :: string
  ser_normalized_title :: string
  ser_cover_checksum :: string
  ser_cover_relative_path :: string
  ser_updated_at :: instant

record catalog_source_series =
  srs_id :: int
  srs_series_id :: int
  srs_source :: string
  srs_source_id :: string
  srs_title :: string
  srs_url :: string
  srs_description :: string
  srs_cover_url :: string
  srs_popularity :: rat
  srs_metadata :: jdict
  srs_observation_version :: string
  srs_normalized_source_id :: string
  srs_last_checked_at :: instant
  srs_normalized_title :: string
  srs_revision_override :: string
  srs_detail_fetched_at :: "instant option"
  srs_observation_seen_at :: "instant option"

record catalog_chapter =
  ch_id :: int
  ch_series_id :: int
  ch_canonical_number :: string
  ch_display_number :: string
  ch_title :: string
  ch_sort_number :: "rat option"
  ch_created_at :: instant
  ch_updated_at :: instant

datatype plan_status = PlanActive | PlanComplete | PlanCancelled

datatype plan_phase = PhasePriority | PhaseBackfill | PhaseComplete | PhaseCancelled

record series_download_plan =
  plan_series_id :: int
  plan_status_of :: plan_status
  plan_phase_of :: plan_phase
  plan_total_chapters :: int
  plan_satisfied_chapters :: int
  plan_attention_chapters :: int
  plan_created_at :: instant
  plan_updated_at :: instant

datatype intent_tier = TierCurrent | TierPriority | TierBackfill

datatype intent_state =
  IntentBlocked | IntentPending | IntentQueued | IntentSatisfied | IntentAttention | IntentCancelled

record chapter_download_intent =
  int_id :: int
  int_series_id :: int
  int_chapter_id :: int
  int_tier :: intent_tier
  int_state :: intent_state
  int_job_id :: "int option"
  int_created_at :: instant
  int_updated_at :: instant

record catalog_chapter_release =
  rel_id :: int
  rel_chapter_id :: int
  rel_source_series_id :: int
  rel_source :: string
  rel_source_release_id :: string
  rel_published_at :: "instant option"
  rel_first_seen_at :: instant
  rel_downloadable_after :: "instant option"
  rel_quality_rank :: int
  rel_title :: string
  rel_url :: string

datatype attempt_outcome =
  OutFailed | OutFallbackQueued | OutFallbackSucceeded | OutSucceeded | OutUpgraded

record chapter_release_attempt =
  att_chapter_id :: int
  att_chapter_release_id :: int
  att_job_id :: "int option"
  att_source :: string
  att_outcome :: attempt_outcome
  att_error_code :: string
  att_error_message :: string
  att_retry_after :: "instant option"
  att_details :: jdict

datatype artifact_state = ArtActive | ArtInactive | ArtQuarantined

record chapter_artifact =
  art_id :: int
  art_chapter_id :: int
  art_chapter_release_id :: "int option"
  art_blob_checksum :: string
  art_state :: artifact_state
  art_provenance :: string
  art_source :: string
  art_quality_rank :: int
  art_image_count :: int
  art_deactivated_at :: "instant option"

subsection \<open>Observations and match review\<close>

datatype observation_state = ObsObserved | ObsAccepted | ObsQuarantined | ObsRejected

record catalog_observation =
  obs_id :: int
  obs_source :: string
  obs_type :: string
  obs_source_key :: string
  obs_state :: observation_state
  obs_reason :: string
  obs_resolved_at :: "instant option"

datatype match_decision = DecPending | DecAccepted | DecRejected

record catalog_match_decision =
  dec_id :: int
  dec_left :: int
  dec_right :: int
  dec_decision :: match_decision
  dec_confidence :: rat
  dec_evidence :: jdict
  dec_scorer_version :: string
  dec_features :: jdict
  dec_decided_by :: string
  dec_decided_at :: "instant option"

datatype match_action = ActAccepted | ActRejected

datatype operation_status = OpQueued | OpRunning | OpSucceeded | OpFailed

record match_operation =
  op_id :: int
  op_action :: match_action
  op_status :: operation_status
  op_representative_id :: int
  op_decision_ids :: "int list"
  op_series_ids :: "int list"
  op_proposal_ids :: "int list"
  op_job_id :: "int option"
  op_error_code :: string
  op_error_message :: string
  op_created_at :: instant
  op_updated_at :: instant
  op_completed_at :: "instant option"

record match_operation_series =
  mos_operation_id :: int
  mos_series_id :: int

record match_training_label =
  lab_decision_id :: "int option"
  lab_label :: int
  lab_origin :: string
  lab_scorer_version :: string
  lab_features :: jdict
  lab_evidence :: jdict
  lab_left :: jdict
  lab_right :: jdict

subsection \<open>Tables of the library\<close>

record library_projection =
  lp_chapter_id :: int
  lp_artifact_id :: int
  lp_relative_path :: string

record kavita_projection =
  kp_chapter_id :: int
  kp_artifact_id :: int
  kp_relative_path :: string

datatype chapter_reading_status = ChapterUnread | ChapterReading | ChapterRead

record chapter_reading_state =
  crs_chapter_id :: int
  crs_status :: chapter_reading_status
  crs_read_at :: "instant option"

record series_alias =
  ali_id :: int
  ali_series_id :: int
  ali_source_series_id :: "int option"
  ali_display_value :: string
  ali_normalized_value :: string

record external_identifier =
  ext_id :: int
  ext_series_id :: int
  ext_source_series_id :: int
  ext_provider :: string
  ext_value :: string

record alternate_listing =
  alt_id :: int
  alt_primary_source_series_id :: int
  alt_source :: string
  alt_source_id :: string
  alt_title :: string
  alt_url :: string
  alt_evidence :: jdict

record cover_fingerprint =
  cfp_id :: int
  cfp_source_series_id :: int
  cfp_algorithm :: string

record cover_asset =
  cas_source_series_id :: int
  cas_content_checksum :: string
  cas_relative_path :: string
  cas_source_url :: string
  cas_width :: int
  cas_height :: int

record cover_signature =
  csg_source_series_id :: int
  csg_algorithm_version :: string
  csg_hash_band_0 :: string

record artifact_blob =
  blb_checksum :: string
  blb_relative_path :: string
  blb_byte_count :: int

text \<open>The tables that describe the library on disk, the covers and the names of a series, and the
  sequences of the catalogue tables.\<close>

record library_tables =
  library_projections :: "library_projection list"
  kavita_projections :: "kavita_projection list"
  reading_states :: "chapter_reading_state list"
  series_aliases :: "series_alias list"
  external_identifiers :: "external_identifier list"
  alternates :: "alternate_listing list"
  alternate_seq :: int
  cover_fingerprints :: "cover_fingerprint list"
  cover_assets :: "cover_asset list"
  cover_signatures :: "cover_signature list"
  artifact_blobs :: "artifact_blob list"
  artifact_seq :: int
  series_seq :: int
  source_series_seq :: int
  chapter_seq :: int
  release_seq :: int
  alias_seq :: int
  external_seq :: int
  decision_seq :: int
  observation_seq :: int

definition empty_library :: library_tables where
  "empty_library = \<lparr>library_projections = [], kavita_projections = [], reading_states = [], series_aliases = [],
     external_identifiers = [], alternates = [], alternate_seq = 1, cover_fingerprints = [], cover_assets = [],
     cover_signatures = [], artifact_blobs = [], artifact_seq = 1, series_seq = 1, source_series_seq = 1,
     chapter_seq = 1, release_seq = 1, alias_seq = 1, external_seq = 1, decision_seq = 1, observation_seq = 1\<rparr>"

subsection \<open>The database\<close>

record db =
  postgresql :: bool
  jobs :: "work_job list"
  job_seq :: int
  cycles :: "workload_cycle list"
  cycle_seq :: int
  aggregates :: "job_daily_aggregate list"
  permits :: "job_permit list"
  storage :: "storage_state option"
  reservations :: "storage_reservation list"
  events :: "job_event list"
  notified :: "string list"
  workers :: "worker_heartbeat list"
  source_states :: "catalog_source_state list"
  policies :: "provider_policy list"
  endpoints :: "provider_endpoint_state list"
  runs :: "provider_benchmark_run list"
  run_seq :: int
  samples :: "provider_request_sample list"
  series_rows :: "catalog_series list"
  source_series :: "catalog_source_series list"
  chapters :: "catalog_chapter list"
  plans :: "series_download_plan list"
  intents :: "chapter_download_intent list"
  intent_seq :: int
  releases :: "catalog_chapter_release list"
  attempts_log :: "chapter_release_attempt list"
  artifacts :: "chapter_artifact list"
  observations :: "catalog_observation list"
  decisions :: "catalog_match_decision list"
  operations :: "match_operation list"
  operation_seq :: int
  operation_series :: "match_operation_series list"
  labels :: "match_training_label list"
  library :: library_tables

definition empty_db :: db where
  "empty_db = \<lparr>postgresql = True, jobs = [], job_seq = 1, cycles = [], cycle_seq = 1,
     aggregates = [], permits = [], storage = None, reservations = [], events = [], notified = [],
     workers = [], source_states = [], policies = [], endpoints = [], runs = [], run_seq = 1,
     samples = [], series_rows = [], source_series = [], chapters = [], plans = [], intents = [],
     intent_seq = 1, releases = [], attempts_log = [], artifacts = [],
     observations = [], decisions = [], operations = [], operation_seq = 1, operation_series = [],
     labels = [], library = empty_library\<rparr>"

subsection \<open>Column defaults\<close>

definition new_work_job :: "instant \<Rightarrow> job_kind \<Rightarrow> string \<Rightarrow> jdict \<Rightarrow> work_job" where
  "new_work_job now kind key payload =
     \<lparr>job_id = 0, job_kind_of = kind, job_dedupe_key = key, job_payload = payload,
      job_source = [], job_series_key = [], job_pool = ''maintenance'', job_cycle_id = None,
      job_workflow_key = [], job_group_key = [], job_logical_units = 1,
      job_pending_payload = fmempty, job_status = QUEUED, job_priority = 100, job_attempts = 0,
      job_max_attempts = 3, job_available_at = now, job_lease_owner = [],
      job_lease_expires_at = None, job_heartbeat_at = None, job_error_code = [],
      job_error_message = [], job_created_at = now, job_updated_at = now, job_completed_at = None,
      job_progress_phase = [], job_progress_current = 0, job_progress_total = 0,
      job_progress_unit = [], job_progress_bytes = 0, job_progress_message = [],
      job_progress_updated_at = None\<rparr>"

definition new_workload_cycle :: "instant \<Rightarrow> int \<Rightarrow> workload_cycle" where
  "new_workload_cycle now i =
     \<lparr>cyc_id = i, cyc_status = CycleActive, cyc_total_units = 0, cyc_successful_units = 0,
      cyc_failed_units = 0, cyc_cancelled_units = 0, cyc_added_units = 0, cyc_started_at = now,
      cyc_updated_at = now, cyc_settled_at = None\<rparr>"

definition new_catalog_series :: "int \<Rightarrow> string \<Rightarrow> string \<Rightarrow> catalog_series" where
  "new_catalog_series i key name =
     \<lparr>ser_id = i, ser_storage_key = key, ser_title = name, ser_description = [], ser_cover_url = [],
      ser_status = Untracked, ser_integrity_state = IntegrityUnknown, ser_latest_release_at = None,
      ser_latest_release_number = [], ser_latest_release_source = [], ser_kavita_series_id = None,
      ser_kavita_library_id = None, ser_kavita_synced_at = None, ser_kavita_cover_checksum = [],
      ser_normalized_title = [], ser_cover_checksum = [], ser_cover_relative_path = [], ser_updated_at = 0\<rparr>"

definition new_source_state :: "instant \<Rightarrow> string \<Rightarrow> catalog_source_state" where
  "new_source_state now src =
     \<lparr>sst_source = src, sst_manual_enabled = True, sst_health_status = Healthy,
      sst_consecutive_failures = 0, sst_last_error = [], sst_cooldown_until = None,
      sst_next_request_at = None, sst_last_poll_at = None, sst_updated_at = now\<rparr>"

definition empty_metadata :: policy_metadata where
  "empty_metadata =
     \<lparr>pm_base_poll_seconds = None, pm_adaptive_poll_seconds = None, pm_unchanged_poll_streak = None,
      pm_exploration_tier = None, pm_exploration_until = None, pm_benchmark_run_id = None,
      pm_next_recovery_probe = None, pm_recovery_probe_step = None,
      pm_recovery_probe_successes = None, pm_recovery_started_at = None,
      pm_last_poll_had_changes = None\<rparr>"

definition new_provider_policy :: "instant \<Rightarrow> string \<Rightarrow> provider_policy" where
  "new_provider_policy now src =
     \<lparr>pol_source = src, pol_learned_job_limit = 1, pol_learned_page_limit = 1,
      pol_request_interval_seconds = 0, pol_cooldown_seconds = 300, pol_clean_since = None,
      pol_last_limited_at = None, pol_next_exploration_at = None, pol_expires_at = None,
      pol_successful_tier_runs = 0, pol_metadata = empty_metadata, pol_updated_at = now\<rparr>"

definition new_endpoint_state :: "instant \<Rightarrow> string \<Rightarrow> string \<Rightarrow> provider_endpoint_state" where
  "new_endpoint_state now src cls =
     \<lparr>ep_source = src, ep_traffic_class = cls, ep_request_interval_seconds = 0,
      ep_next_request_at = None, ep_cooldown_until = None, ep_consecutive_failures = 0,
      ep_last_error = [], ep_updated_at = now\<rparr>"

subsection \<open>Rows by primary key\<close>

abbreviation find_job :: "int \<Rightarrow> db \<Rightarrow> work_job option" where
  "find_job i d \<equiv> get_row job_id i (jobs d)"

abbreviation find_cycle :: "int \<Rightarrow> db \<Rightarrow> workload_cycle option" where
  "find_cycle i d \<equiv> get_row cyc_id i (cycles d)"

abbreviation find_policy :: "string \<Rightarrow> db \<Rightarrow> provider_policy option" where
  "find_policy s d \<equiv> get_row pol_source s (policies d)"

abbreviation find_source_state :: "string \<Rightarrow> db \<Rightarrow> catalog_source_state option" where
  "find_source_state s d \<equiv> get_row sst_source s (source_states d)"

definition put_job :: "work_job \<Rightarrow> db \<Rightarrow> db" where
  "put_job j d = d\<lparr>jobs := put_row job_id j (jobs d)\<rparr>"

definition put_cycle :: "workload_cycle \<Rightarrow> db \<Rightarrow> db" where
  "put_cycle c d = d\<lparr>cycles := put_row cyc_id c (cycles d)\<rparr>"

subsection \<open>Table constraints\<close>

definition is_active :: "work_job \<Rightarrow> bool" where
  "is_active j = (job_status j \<in> set ACTIVE_JOB_STATES)"

lemma is_active_iff [simp]:
  "is_active j \<longleftrightarrow> job_status j = QUEUED \<or> job_status j = LEASED \<or> job_status j = RETRY_WAIT"
  by (simp add: is_active_def)

text \<open>The CHECK constraints of \<open>WorkJob\<close> on one row.\<close>

definition job_checks :: "work_job \<Rightarrow> bool" where
  "job_checks j = (job_dedupe_key j \<noteq> [] \<and> 0 \<le> job_attempts j \<and> 1 \<le> job_max_attempts j \<and>
     (job_status j \<noteq> LEASED \<or> job_lease_owner j \<noteq> [] \<and> job_lease_expires_at j \<noteq> None))"

text \<open>The partial unique indexes \<open>uq_job_active_dedupe\<close> and
  \<open>uq_job_leased_library_repair_series\<close>: whether two rows collide.\<close>

definition dedupe_clash :: "work_job \<Rightarrow> work_job \<Rightarrow> bool" where
  "dedupe_clash j k = (is_active j \<and> is_active k \<and> job_kind_of j = job_kind_of k \<and>
     job_dedupe_key j = job_dedupe_key k)"

definition leased_repair :: "work_job \<Rightarrow> bool" where
  "leased_repair j = (job_kind_of j = LIBRARY_REPAIR \<and> job_status j = LEASED \<and> job_series_key j \<noteq> [])"

definition repair_clash :: "work_job \<Rightarrow> work_job \<Rightarrow> bool" where
  "repair_clash j k = (leased_repair j \<and> leased_repair k \<and> job_series_key j = job_series_key k)"

text \<open>Flushing one row: an \<open>IntegrityError\<close> when a constraint is violated.\<close>

definition flush_ok :: "work_job \<Rightarrow> work_job list \<Rightarrow> bool" where
  "flush_ok j rows = (job_checks j \<and>
     list_all (\<lambda>k. job_id k = job_id j \<or> \<not> dedupe_clash j k \<and> \<not> repair_clash j k) rows)"

definition insert_job :: "work_job \<Rightarrow> db \<Rightarrow> (work_job \<times> db) result" where
  "insert_job j d =
     (let row = j\<lparr>job_id := job_seq d\<rparr> in
      if flush_ok row (jobs d)
      then Inr (row, d\<lparr>jobs := jobs d @ [row], job_seq := job_seq d + 1\<rparr>)
      else Inl IntegrityError)"

definition flush_job :: "work_job \<Rightarrow> db \<Rightarrow> db result" where
  "flush_job j d = (if flush_ok j (jobs d) then Inr (put_job j d) else Inl IntegrityError)"

lemma put_job_frame [frame_simps, simp]:
  "postgresql (put_job j d) = postgresql d" "job_seq (put_job j d) = job_seq d"
  "cycles (put_job j d) = cycles d" "cycle_seq (put_job j d) = cycle_seq d"
  "permits (put_job j d) = permits d" "storage (put_job j d) = storage d"
  "reservations (put_job j d) = reservations d" "events (put_job j d) = events d"
  "notified (put_job j d) = notified d" "source_states (put_job j d) = source_states d"
  "policies (put_job j d) = policies d" "jobs (put_job j d) = put_row job_id j (jobs d)"
  by (simp_all add: put_job_def)

lemma put_cycle_frame [frame_simps, simp]:
  "postgresql (put_cycle c d) = postgresql d" "job_seq (put_cycle c d) = job_seq d"
  "jobs (put_cycle c d) = jobs d" "cycle_seq (put_cycle c d) = cycle_seq d"
  "permits (put_cycle c d) = permits d" "storage (put_cycle c d) = storage d"
  "reservations (put_cycle c d) = reservations d" "events (put_cycle c d) = events d"
  "notified (put_cycle c d) = notified d" "source_states (put_cycle c d) = source_states d"
  "policies (put_cycle c d) = policies d" "cycles (put_cycle c d) = put_row cyc_id c (cycles d)"
  by (simp_all add: put_cycle_def)

end
