(* ===== verification/Payload_Codec.thy ===== *)
theory Payload_Codec
  imports Job_Domain
begin

text \<open>
  What the application relies on in the validation of job payloads, and a validator that
  provides it: a decoder that reads every declared field with its declared type and default,
  refuses undeclared keys (\<open>extra="forbid"\<close>) and checks the declared constraints.
\<close>

locale payload_codec =
  fixes model_validate :: validator
  assumes validated: "model_validate k d = Some p \<Longrightarrow> payload_kind p = k \<and> payload_ok p"
    and revalidates: "payload_ok p \<Longrightarrow> model_validate (payload_kind p) (model_dump p) = Some p"
begin

lemma parse_kind:
  "parse_job_payload model_validate k a = Inr p \<Longrightarrow> payload_kind p = k"
  by (auto simp: parse_job_payload_def result_of_option_def validated
      split: payload_arg.splits if_splits option.splits)

lemma parse_raw_ok:
  "parse_job_payload model_validate k (Raw d) = Inr p \<Longrightarrow> payload_kind p = k \<and> payload_ok p"
  by (auto simp: parse_job_payload_def result_of_option_def validated split: option.splits)

lemma parse_dump:
  "payload_ok p \<Longrightarrow> parse_job_payload model_validate (payload_kind p) (Raw (model_dump p)) = Inr p"
  by (simp add: parse_job_payload_def revalidates)

lemma dump_inj:
  assumes "payload_ok p" "payload_ok q" "payload_kind p = payload_kind q" "model_dump p = model_dump q"
  shows "p = q"
  using assms revalidates by (metis option.inject)

end

subsection \<open>Field readers\<close>

definition int_field :: "jdict \<Rightarrow> string \<Rightarrow> int option \<Rightarrow> int option" where
  "int_field d k dflt = (case fmlookup d k of None \<Rightarrow> dflt | Some (JInt n) \<Rightarrow> Some n | Some _ \<Rightarrow> None)"

definition str_field :: "jdict \<Rightarrow> string \<Rightarrow> string option \<Rightarrow> string option" where
  "str_field d k dflt = (case fmlookup d k of None \<Rightarrow> dflt | Some (JStr s) \<Rightarrow> Some s | Some _ \<Rightarrow> None)"

definition bool_field :: "jdict \<Rightarrow> string \<Rightarrow> bool option \<Rightarrow> bool option" where
  "bool_field d k dflt = (case fmlookup d k of None \<Rightarrow> dflt | Some (JBool b) \<Rightarrow> Some b | Some _ \<Rightarrow> None)"

definition float_field :: "jdict \<Rightarrow> string \<Rightarrow> rat option \<Rightarrow> rat option" where
  "float_field d k dflt = (case fmlookup d k of None \<Rightarrow> dflt
     | Some (JFloat x) \<Rightarrow> Some x | Some (JInt n) \<Rightarrow> Some (of_int n) | Some _ \<Rightarrow> None)"

definition dict_field :: "jdict \<Rightarrow> string \<Rightarrow> jdict option" where
  "dict_field d k = (case fmlookup d k of None \<Rightarrow> Some fmempty | Some (JObj m) \<Rightarrow> Some m | Some _ \<Rightarrow> None)"

fun json_str :: "json \<Rightarrow> string option" where
  "json_str (JStr s) = Some s"
| "json_str _ = None"

fun json_int :: "json \<Rightarrow> int option" where
  "json_int (JInt n) = Some n"
| "json_int _ = None"

fun traverse :: "('a \<Rightarrow> 'b option) \<Rightarrow> 'a list \<Rightarrow> 'b list option" where
  "traverse f [] = Some []"
| "traverse f (x # xs) = (case f x of None \<Rightarrow> None
     | Some y \<Rightarrow> map_option (\<lambda>ys. y # ys) (traverse f xs))"

definition strs_field :: "jdict \<Rightarrow> string \<Rightarrow> string list option" where
  "strs_field d k = (case fmlookup d k of None \<Rightarrow> Some []
     | Some (JList vs) \<Rightarrow> traverse json_str vs | Some _ \<Rightarrow> None)"

definition ints_field :: "jdict \<Rightarrow> string \<Rightarrow> int list option" where
  "ints_field d k = (case fmlookup d k of None \<Rightarrow> Some []
     | Some (JList vs) \<Rightarrow> traverse json_int vs | Some _ \<Rightarrow> None)"

definition str_map_field :: "jdict \<Rightarrow> string \<Rightarrow> (string, string) fmap option" where
  "str_map_field d k = (case fmlookup d k of None \<Rightarrow> Some fmempty
     | Some (JObj m) \<Rightarrow> (if fmpred (\<lambda>_ v. json_str v \<noteq> None) m
                        then Some (fmmap (\<lambda>v. the (json_str v)) m) else None)
     | Some _ \<Rightarrow> None)"

definition status_field :: "jdict \<Rightarrow> string \<Rightarrow> reading_status option" where
  "status_field d k = (case str_field d k (Some []) of None \<Rightarrow> None
     | Some s \<Rightarrow> if s = [] then Some NoStatus else if s = ''read'' then Some Read
               else if s = ''unread'' then Some Unread else None)"

definition only_keys :: "string list \<Rightarrow> jdict \<Rightarrow> bool" where
  "only_keys ks d = (fmdom d |\<subseteq>| fset_of_list ks)"

lemma traverse_map_JStr [simp]: "traverse json_str (map JStr xs) = Some xs"
  by (induction xs) simp_all

lemma traverse_map_JInt [simp]: "traverse json_int (map JInt xs) = Some xs"
  by (induction xs) simp_all

subsection \<open>The decoder\<close>

definition decode_source_pull :: "jdict \<Rightarrow> job_payload option" where
  "decode_source_pull d = (if only_keys [''version'', ''source'', ''workflow_key''] d
     then Option.bind (int_field d ''version'' (Some 1)) (\<lambda>v.
          Option.bind (str_field d ''source'' None) (\<lambda>s.
          Option.bind (str_field d ''workflow_key'' (Some [])) (\<lambda>w.
            Some (SourcePullPayload \<lparr>sp_version = v, sp_source = s, sp_workflow_key = w\<rparr>))))
     else None)"

definition decode_source_refresh :: "jdict \<Rightarrow> job_payload option" where
  "decode_source_refresh d = (if only_keys [''version'', ''source'', ''source_id'', ''title'', ''url'',
        ''aliases'', ''description'', ''cover_url'', ''genres'', ''popularity'', ''external_ids'',
        ''metadata'', ''workflow_key'', ''observation_version'', ''acquisition_critical''] d
     then Option.bind (int_field d ''version'' (Some 3)) (\<lambda>v.
          Option.bind (str_field d ''source'' None) (\<lambda>src.
          Option.bind (str_field d ''source_id'' None) (\<lambda>sid.
          Option.bind (str_field d ''title'' None) (\<lambda>ti.
          Option.bind (str_field d ''url'' None) (\<lambda>u.
          Option.bind (strs_field d ''aliases'') (\<lambda>al.
          Option.bind (str_field d ''description'' (Some [])) (\<lambda>de.
          Option.bind (str_field d ''cover_url'' (Some [])) (\<lambda>cu.
          Option.bind (strs_field d ''genres'') (\<lambda>ge.
          Option.bind (float_field d ''popularity'' (Some 0)) (\<lambda>po.
          Option.bind (str_map_field d ''external_ids'') (\<lambda>ex.
          Option.bind (dict_field d ''metadata'') (\<lambda>me.
          Option.bind (str_field d ''workflow_key'' (Some [])) (\<lambda>w.
          Option.bind (str_field d ''observation_version'' (Some [])) (\<lambda>ov.
          Option.bind (bool_field d ''acquisition_critical'' (Some False)) (\<lambda>ac.
            Some (SourceRefreshPayload
              \<lparr>sr_version = v, sr_source = src, sr_source_id = sid, sr_title = ti, sr_url = u,
               sr_aliases = al, sr_description = de, sr_cover_url = cu, sr_genres = ge,
               sr_popularity = po, sr_external_ids = ex, sr_metadata = me, sr_workflow_key = w,
               sr_observation_version = ov, sr_acquisition_critical = ac\<rparr>))))))))))))))))
     else None)"

definition decode_chapter_download :: "jdict \<Rightarrow> job_payload option" where
  "decode_chapter_download d = (if only_keys [''version'', ''chapter_release_id'', ''attempted_sources'',
        ''preferred_only''] d
     then Option.bind (int_field d ''version'' (Some 1)) (\<lambda>v.
          Option.bind (int_field d ''chapter_release_id'' None) (\<lambda>r.
          Option.bind (strs_field d ''attempted_sources'') (\<lambda>a.
          Option.bind (bool_field d ''preferred_only'' (Some False)) (\<lambda>b.
            Some (ChapterDownloadPayload \<lparr>cd_version = v, cd_chapter_release_id = r,
              cd_attempted_sources = a, cd_preferred_only = b\<rparr>)))))
     else None)"

definition decode_kavita_sync :: "jdict \<Rightarrow> job_payload option" where
  "decode_kavita_sync d = (if only_keys [''version'', ''series_id'', ''series_ids'', ''folder_path'',
        ''reading_status''] d
     then Option.bind (int_field d ''version'' (Some 1)) (\<lambda>v.
          Option.bind (int_field d ''series_id'' (Some 0)) (\<lambda>i.
          Option.bind (ints_field d ''series_ids'') (\<lambda>is.
          Option.bind (str_field d ''folder_path'' (Some [])) (\<lambda>f.
          Option.bind (status_field d ''reading_status'') (\<lambda>r.
            Some (KavitaSyncPayload \<lparr>ks_version = v, ks_series_id = i, ks_series_ids = is,
              ks_folder_path = f, ks_reading_status = r\<rparr>))))))
     else None)"

definition decode_library_repair :: "jdict \<Rightarrow> job_payload option" where
  "decode_library_repair d = (if only_keys [''version'', ''series_id'', ''reason'', ''obsolete_storage_keys''] d
     then Option.bind (int_field d ''version'' (Some 1)) (\<lambda>v.
          Option.bind (int_field d ''series_id'' None) (\<lambda>i.
          Option.bind (str_field d ''reason'' (Some ''metadata'')) (\<lambda>r.
          Option.bind (strs_field d ''obsolete_storage_keys'') (\<lambda>ob.
            Some (LibraryRepairPayload \<lparr>lr_version = v, lr_series_id = i, lr_reason = r,
              lr_obsolete_storage_keys = ob\<rparr>)))))
     else None)"

definition decode_cover_backfill :: "jdict \<Rightarrow> job_payload option" where
  "decode_cover_backfill d = (if only_keys [''version'', ''source_series_id''] d
     then Option.bind (int_field d ''version'' (Some 1)) (\<lambda>v.
          Option.bind (int_field d ''source_series_id'' None) (\<lambda>i.
            Some (CoverBackfillPayload \<lparr>cb_version = v, cb_source_series_id = i\<rparr>)))
     else None)"

definition decode_maintenance :: "jdict \<Rightarrow> job_payload option" where
  "decode_maintenance d = (if only_keys [''version'', ''action'', ''series_id''] d
     then Option.bind (int_field d ''version'' (Some 1)) (\<lambda>v.
          Option.bind (str_field d ''action'' None) (\<lambda>a.
          Option.bind (int_field d ''series_id'' (Some 0)) (\<lambda>i.
            Some (MaintenancePayload \<lparr>mt_version = v, mt_action = a, mt_series_id = i\<rparr>))))
     else None)"

definition decode_notification :: "jdict \<Rightarrow> job_payload option" where
  "decode_notification d = (if only_keys [''version'', ''activity_event_id''] d
     then Option.bind (int_field d ''version'' (Some 1)) (\<lambda>v.
          Option.bind (int_field d ''activity_event_id'' None) (\<lambda>i.
            Some (NotificationPayload \<lparr>nt_version = v, nt_activity_event_id = i\<rparr>)))
     else None)"

definition decode_match_operation :: "jdict \<Rightarrow> job_payload option" where
  "decode_match_operation d = (if only_keys [''version'', ''operation_id''] d
     then Option.bind (int_field d ''version'' (Some 1)) (\<lambda>v.
          Option.bind (int_field d ''operation_id'' None) (\<lambda>i.
            Some (MatchOperationPayload \<lparr>mo_version = v, mo_operation_id = i\<rparr>)))
     else None)"

fun decode_payload :: "job_kind \<Rightarrow> jdict \<Rightarrow> job_payload option" where
  "decode_payload SOURCE_PULL d = decode_source_pull d"
| "decode_payload SOURCE_REFRESH d = decode_source_refresh d"
| "decode_payload CHAPTER_DOWNLOAD d = decode_chapter_download d"
| "decode_payload KAVITA_SYNC d = decode_kavita_sync d"
| "decode_payload LIBRARY_REPAIR d = decode_library_repair d"
| "decode_payload COVER_BACKFILL d = decode_cover_backfill d"
| "decode_payload MAINTENANCE d = decode_maintenance d"
| "decode_payload NOTIFICATION d = decode_notification d"
| "decode_payload MATCH_OPERATION d = decode_match_operation d"

definition strict_validate :: validator where
  "strict_validate k d = (case decode_payload k d of None \<Rightarrow> None
     | Some p \<Rightarrow> if payload_ok p then Some p else None)"

lemmas field_defs = int_field_def str_field_def bool_field_def float_field_def dict_field_def
  strs_field_def ints_field_def str_map_field_def status_field_def

lemmas decode_defs = decode_source_pull_def decode_source_refresh_def decode_chapter_download_def
  decode_kavita_sync_def decode_library_repair_def decode_cover_backfill_def decode_maintenance_def
  decode_notification_def decode_match_operation_def

lemma decode_payload_kind: "decode_payload k d = Some p \<Longrightarrow> payload_kind p = k"
  by (cases k) (auto simp: decode_defs bind_eq_Some_conv split: if_splits)

lemma fmmap_json_str [simp]:
  "fmpred (\<lambda>_ v. json_str v \<noteq> None) (fmmap JStr m)"
  "fmmap (\<lambda>v. the (json_str v)) (fmmap JStr m) = m"
  by (auto simp: fmpred_iff intro!: fmap_ext split: option.splits)
     (simp add: option.map_comp comp_def option.map_ident)

lemma status_roundtrip:
  "fmlookup d k = Some (JStr (reading_status_value r)) \<Longrightarrow> status_field d k = Some r"
  by (cases r) (simp_all add: status_field_def str_field_def)

lemma decode_dump: "decode_payload (payload_kind p) (model_dump p) = Some p"
proof (cases p)
  case (KavitaSyncPayload x)
  then show ?thesis
    by (auto simp: decode_defs only_keys_def int_field_def ints_field_def str_field_def
        fmlookup_of_list status_roundtrip)
qed (auto simp: decode_defs only_keys_def field_defs jstrs_def fmlookup_of_list)

interpretation strict: payload_codec strict_validate
proof unfold_locales
  fix k d p
  assume "strict_validate k d = Some p"
  then show "payload_kind p = k \<and> payload_ok p"
    by (auto simp: strict_validate_def decode_payload_kind split: option.splits if_splits)
next
  fix p
  assume "payload_ok p"
  then show "strict_validate (payload_kind p) (model_dump p) = Some p"
    by (simp add: strict_validate_def decode_dump)
qed

end
