(* ===== verification/Queue_Core.thy ===== *)
theory Queue_Core
  imports Db_Model Payload_Codec
begin

text \<open>
  The helpers of \<^verbatim>\<open>JobQueue\<close> (\<^verbatim>\<open>manga_manager/infrastructure/job_queue.py\<close>):
  routing, events and wake-ups, permits, workload cycles, coalescing and the adaptive provider
  limit.  Every definition takes the instant that \<open>utcnow()\<close> returns in the call as \<open>now\<close>.
\<close>

subsection \<open>Routing\<close>

definition NETWORK_JOB_KINDS :: "job_kind list" where
  "NETWORK_JOB_KINDS = [SOURCE_PULL, SOURCE_REFRESH, CHAPTER_DOWNLOAD]"

definition MUTATING_JOB_KINDS :: "job_kind list" where
  "MUTATING_JOB_KINDS = [CHAPTER_DOWNLOAD, LIBRARY_REPAIR]"

definition PROVIDER_RECOVERY_ERROR_CODES :: "string list" where
  "PROVIDER_RECOVERY_ERROR_CODES =
     [''provider_origin_unavailable'', ''source_http_error'', ''source_network_error'']"

fun default_pool :: "job_kind \<Rightarrow> string \<Rightarrow> string" where
  "default_pool SOURCE_PULL src = (if src \<noteq> [] then ''pull:'' @ src else ''pull:unknown'')"
| "default_pool SOURCE_REFRESH src = (if src \<noteq> [] then ''refresh:'' @ src else ''refresh:unknown'')"
| "default_pool CHAPTER_DOWNLOAD src = (if src \<noteq> [] then ''download:'' @ src else ''download:unknown'')"
| "default_pool KAVITA_SYNC src = ''kavita''"
| "default_pool COVER_BACKFILL src = ''cover_backfill''"
| "default_pool NOTIFICATION src = ''notification''"
| "default_pool MATCH_OPERATION src = ''catalog_mutation''"
| "default_pool MAINTENANCE src = ''maintenance''"
| "default_pool LIBRARY_REPAIR src = ''maintenance''"

definition default_group_key ::
  "job_kind \<Rightarrow> string \<Rightarrow> string \<Rightarrow> string \<Rightarrow> string \<Rightarrow> int \<Rightarrow> string" where
  "default_group_key kind dedupe_key src series_key workflow_key cycle_id =
     (if kind = CHAPTER_DOWNLOAD \<and> series_key \<noteq> []
      then ''cycle:'' @ str_of_int cycle_id @ '':download:'' @ series_key
      else if kind \<in> set [SOURCE_PULL, SOURCE_REFRESH]
      then (if workflow_key \<noteq> [] then workflow_key else ''pull:'' @ src)
      else if kind \<in> set [LIBRARY_REPAIR, KAVITA_SYNC, COVER_BACKFILL, MAINTENANCE]
      then ''cycle:'' @ str_of_int cycle_id @ '':maintenance:'' @ kind_value kind
      else kind_value kind @ '':'' @ dedupe_key)"

definition is_network_job :: "work_job \<Rightarrow> bool" where
  "is_network_job j = (job_kind_of j \<in> set NETWORK_JOB_KINDS \<or> py_startswith (job_pool j) ''pull:'')"

subsection \<open>Events, wake-ups, permits\<close>

definition record_event ::
  "work_job \<Rightarrow> event_type \<Rightarrow> string \<Rightarrow> string \<Rightarrow> jdict \<Rightarrow> db \<Rightarrow> db" where
  "record_event j ty owner message details d =
     d\<lparr>events := events d @ [\<lparr>ev_job_id = job_id j, ev_type = ty, ev_status = job_status j,
        ev_owner = owner, ev_message = take 4000 message, ev_details = details\<rparr>]\<rparr>"

definition notify_workers :: "string \<Rightarrow> db \<Rightarrow> db" where
  "notify_workers pool d =
     (if postgresql d then d\<lparr>notified := notified d @ [take 200 pool]\<rparr> else d)"

definition release_permits :: "int \<Rightarrow> db \<Rightarrow> db" where
  "release_permits i d =
     d\<lparr>permits := filter (\<lambda>p. prm_job_id p \<noteq> i) (permits d),
       reservations := filter (\<lambda>r. res_job_id r \<noteq> i) (reservations d)\<rparr>"

subsection \<open>Workload cycles\<close>

text \<open>\<open>ORDER BY key DESC LIMIT 1\<close>.\<close>

definition newest :: "('r \<Rightarrow> int) \<Rightarrow> 'r list \<Rightarrow> 'r option" where
  "newest key rows = (case sort_key (\<lambda>r. - key r) rows of [] \<Rightarrow> None | r # _ \<Rightarrow> Some r)"

definition active_in_cycle :: "int \<Rightarrow> work_job \<Rightarrow> bool" where
  "active_in_cycle c j = (job_cycle_id j = Some c \<and> is_active j)"

definition active_cycle :: "instant \<Rightarrow> db \<Rightarrow> workload_cycle \<times> db" where
  "active_cycle now d =
     (let found = newest cyc_id (filter (\<lambda>c. cyc_status c = CycleActive) (cycles d));
          (live, d1) = (case found of
             None \<Rightarrow> (None, d)
           | Some c \<Rightarrow>
               if list_ex (active_in_cycle (cyc_id c)) (jobs d) then (Some c, d)
               else (None, put_cycle (c\<lparr>cyc_status := CycleSettled, cyc_settled_at := Some now,
                                       cyc_updated_at := now\<rparr>) d))
      in case live of
           Some c \<Rightarrow> (c, d1)
         | None \<Rightarrow> (let c = new_workload_cycle now (cycle_seq d1) in
                   (c, d1\<lparr>cycles := cycles d1 @ [c], cycle_seq := cycle_seq d1 + 1\<rparr>)))"

definition count_units :: "job_state \<Rightarrow> int \<Rightarrow> workload_cycle \<Rightarrow> workload_cycle" where
  "count_units state units c =
     (if state = SUCCEEDED then c\<lparr>cyc_successful_units := cyc_successful_units c + units\<rparr>
      else if state = FAILED then c\<lparr>cyc_failed_units := cyc_failed_units c + units\<rparr>
      else if state = CANCELLED then c\<lparr>cyc_cancelled_units := cyc_cancelled_units c + units\<rparr>
      else c)"

text \<open>
  Sessions run without autoflush, so the count of remaining jobs sees the rows as they were
  last flushed: \<open>stored\<close>.  Every public operation flushes before it returns; only a batch that
  ends several jobs in one call sees rows that differ from its own changes.  The code takes no lock
  on the cycle here; the steps of the queue run this transaction alone, which is an assumption.
\<close>

definition record_terminal_units_in ::
  "work_job list \<Rightarrow> work_job \<Rightarrow> job_state \<Rightarrow> instant \<Rightarrow> db \<Rightarrow> db" where
  "record_terminal_units_in stored j state now d =
     (case job_cycle_id j of
        None \<Rightarrow> d
      | Some ci \<Rightarrow> (case find_cycle ci d of
          None \<Rightarrow> d
        | Some c \<Rightarrow>
            (let c1 = (count_units state (max (job_logical_units j) 1) c)\<lparr>cyc_updated_at := now\<rparr>;
                 remaining = list_ex (\<lambda>k. active_in_cycle (cyc_id c) k \<and> job_id k \<noteq> job_id j) stored;
                 c2 = (if remaining then c1
                       else c1\<lparr>cyc_status := CycleSettled, cyc_settled_at := Some now\<rparr>)
             in put_cycle c2 d)))"

definition record_terminal_units :: "work_job \<Rightarrow> job_state \<Rightarrow> instant \<Rightarrow> db \<Rightarrow> db" where
  "record_terminal_units j state now d = record_terminal_units_in (jobs d) j state now d"

subsection \<open>Coalescing\<close>

definition should_coalesce :: "job_kind \<Rightarrow> jdict \<Rightarrow> jdict \<Rightarrow> bool" where
  "should_coalesce kind current replacement =
     (if kind \<noteq> SOURCE_REFRESH then current \<noteq> replacement
      else if truthy (dict_get replacement ''acquisition_critical'') \<and>
              \<not> truthy (dict_get current ''acquisition_critical'') then True
      else (let old = py_strip (dict_str current ''observation_version'');
                new = py_strip (dict_str replacement ''observation_version'')
            in if old \<noteq> [] \<and> new \<noteq> []
               then (case (parse_decimal new, parse_decimal old) of
                       (Some n, Some o') \<Rightarrow>
                         (case decimal_gt n o' of
                            Some r \<Rightarrow> r
                          | None \<Rightarrow> new \<noteq> old \<and> current \<noteq> replacement)
                     | _ \<Rightarrow> new \<noteq> old \<and> current \<noteq> replacement)
               else current \<noteq> replacement))"

definition active_job :: "job_kind \<Rightarrow> string \<Rightarrow> db \<Rightarrow> work_job option" where
  "active_job kind key d =
     newest job_id (filter (\<lambda>j. job_kind_of j = kind \<and> job_dedupe_key j = key \<and> is_active j) (jobs d))"

subsection \<open>Provider limits\<close>

text \<open>\<open>int(x)\<close> of a non-negative float.\<close>

definition py_int_rat :: "rat \<Rightarrow> int" where
  "py_int_rat x = (if 0 \<le> x then \<lfloor>x\<rfloor> else \<lceil>x\<rceil>)"

definition min_opt :: "int option \<Rightarrow> int \<Rightarrow> int option" where
  "min_opt limit n = (case limit of None \<Rightarrow> Some n | Some l \<Rightarrow> Some (min l n))"

definition nonzero_or :: "int option \<Rightarrow> int \<Rightarrow> int" where
  "nonzero_or v n = (case v of None \<Rightarrow> n | Some k \<Rightarrow> if k = 0 then n else k)"

definition pacing_limit :: "rat \<Rightarrow> provider_policy \<Rightarrow> int option \<Rightarrow> int option" where
  "pacing_limit window pol limit =
     (if 0 < pol_request_interval_seconds pol
      then min_opt limit (max 1 (py_int_rat (window / pol_request_interval_seconds pol)))
      else limit)"

definition adaptive_limit :: "instant \<Rightarrow> provider_policy \<Rightarrow> int option \<Rightarrow> int option" where
  "adaptive_limit now pol limit =
     (case pol_last_limited_at pol of
        None \<Rightarrow> limit
      | Some limited_at \<Rightarrow>
          (let base = max 1 (pol_learned_job_limit pol);
               extra = (case pol_clean_since pol of
                  None \<Rightarrow> 0
                | Some clean \<Rightarrow>
                    if limited_at < clean
                    then max 0 (now - clean) div seconds (max (pol_cooldown_seconds pol) 300)
                    else 0)
           in min_opt limit (base + extra)))"

definition exploration_limit :: "instant \<Rightarrow> provider_policy \<Rightarrow> int option \<Rightarrow> int option" where
  "exploration_limit now pol limit =
     (case pm_exploration_until (pol_metadata pol) of
        Some (IsoText until) \<Rightarrow>
          if now < until
          then Some (max (nonzero_or limit 1)
                       (nonzero_or (pm_exploration_tier (pol_metadata pol)) (nonzero_or limit 1)))
          else limit
      | _ \<Rightarrow> limit)"

definition effective_provider_limit ::
  "string \<Rightarrow> int option \<Rightarrow> instant \<Rightarrow> rat \<Rightarrow> db \<Rightarrow> int option" where
  "effective_provider_limit src limit now window d =
     (case find_policy src d of
        None \<Rightarrow> limit
      | Some pol \<Rightarrow>
          if (case pol_expires_at pol of None \<Rightarrow> False | Some e \<Rightarrow> e \<le> now) then limit
          else exploration_limit now pol (adaptive_limit now pol (pacing_limit window pol limit)))"

subsection \<open>Frame facts\<close>

lemma record_event_frame [frame_simps, simp]:
  "postgresql (record_event j ty ow m dt d) = postgresql d"
  "jobs (record_event j ty ow m dt d) = jobs d" "job_seq (record_event j ty ow m dt d) = job_seq d"
  "cycles (record_event j ty ow m dt d) = cycles d"
  "cycle_seq (record_event j ty ow m dt d) = cycle_seq d"
  "permits (record_event j ty ow m dt d) = permits d"
  "reservations (record_event j ty ow m dt d) = reservations d"
  "storage (record_event j ty ow m dt d) = storage d"
  "notified (record_event j ty ow m dt d) = notified d"
  "source_states (record_event j ty ow m dt d) = source_states d"
  "policies (record_event j ty ow m dt d) = policies d"
  by (simp_all add: record_event_def)

lemma notify_workers_frame [frame_simps, simp]:
  "postgresql (notify_workers p d) = postgresql d" "jobs (notify_workers p d) = jobs d"
  "job_seq (notify_workers p d) = job_seq d" "cycles (notify_workers p d) = cycles d"
  "cycle_seq (notify_workers p d) = cycle_seq d" "permits (notify_workers p d) = permits d"
  "reservations (notify_workers p d) = reservations d" "storage (notify_workers p d) = storage d"
  "events (notify_workers p d) = events d" "source_states (notify_workers p d) = source_states d"
  "policies (notify_workers p d) = policies d"
  by (simp_all add: notify_workers_def)

lemma release_permits_frame [frame_simps, simp]:
  "postgresql (release_permits i d) = postgresql d" "jobs (release_permits i d) = jobs d"
  "job_seq (release_permits i d) = job_seq d" "cycles (release_permits i d) = cycles d"
  "cycle_seq (release_permits i d) = cycle_seq d" "storage (release_permits i d) = storage d"
  "events (release_permits i d) = events d" "notified (release_permits i d) = notified d"
  "source_states (release_permits i d) = source_states d" "policies (release_permits i d) = policies d"
  "permits (release_permits i d) = filter (\<lambda>p. prm_job_id p \<noteq> i) (permits d)"
  by (simp_all add: release_permits_def)

lemma record_terminal_units_in_frame [frame_simps, simp]:
  "postgresql (record_terminal_units_in r j s t d) = postgresql d"
  "jobs (record_terminal_units_in r j s t d) = jobs d" "job_seq (record_terminal_units_in r j s t d) = job_seq d"
  "cycle_seq (record_terminal_units_in r j s t d) = cycle_seq d"
  "permits (record_terminal_units_in r j s t d) = permits d"
  "reservations (record_terminal_units_in r j s t d) = reservations d"
  "storage (record_terminal_units_in r j s t d) = storage d"
  "events (record_terminal_units_in r j s t d) = events d"
  "notified (record_terminal_units_in r j s t d) = notified d"
  "source_states (record_terminal_units_in r j s t d) = source_states d"
  "policies (record_terminal_units_in r j s t d) = policies d"
  by (simp_all add: record_terminal_units_in_def Let_def split: option.splits)

lemma record_terminal_units_frame [frame_simps, simp]:
  "postgresql (record_terminal_units j s t d) = postgresql d"
  "jobs (record_terminal_units j s t d) = jobs d" "job_seq (record_terminal_units j s t d) = job_seq d"
  "cycle_seq (record_terminal_units j s t d) = cycle_seq d"
  "permits (record_terminal_units j s t d) = permits d"
  "reservations (record_terminal_units j s t d) = reservations d"
  "storage (record_terminal_units j s t d) = storage d"
  "events (record_terminal_units j s t d) = events d"
  "notified (record_terminal_units j s t d) = notified d"
  "source_states (record_terminal_units j s t d) = source_states d"
  "policies (record_terminal_units j s t d) = policies d"
  by (simp_all add: record_terminal_units_def)

lemma active_cycle_frame [frame_simps, simp]:
  "jobs (snd (active_cycle now d)) = jobs d" "job_seq (snd (active_cycle now d)) = job_seq d"
  "permits (snd (active_cycle now d)) = permits d"
  "reservations (snd (active_cycle now d)) = reservations d"
  "events (snd (active_cycle now d)) = events d" "notified (snd (active_cycle now d)) = notified d"
  "storage (snd (active_cycle now d)) = storage d"
  "postgresql (snd (active_cycle now d)) = postgresql d"
  "source_states (snd (active_cycle now d)) = source_states d"
  "policies (snd (active_cycle now d)) = policies d"
  by (simp_all add: active_cycle_def Let_def split: option.splits)

lemma newest_SomeD: "newest key rs = Some r \<Longrightarrow> r \<in> set rs \<and> (\<forall>s \<in> set rs. key s \<le> key r)"
  by (auto simp: newest_def split: list.splits dest!: hd_sort_key_min)

lemma newest_None_iff [simp]: "newest key rs = None \<longleftrightarrow> rs = []"
  by (auto simp: newest_def split: list.splits)

lemma active_job_SomeD:
  "active_job k key d = Some j \<Longrightarrow>
     j \<in> set (jobs d) \<and> job_kind_of j = k \<and> job_dedupe_key j = key \<and> is_active j"
  by (auto simp: active_job_def dest!: newest_SomeD)

lemma active_job_NoneD:
  "active_job k key d = None \<Longrightarrow> j \<in> set (jobs d) \<Longrightarrow> job_kind_of j = k \<Longrightarrow>
     job_dedupe_key j = key \<Longrightarrow> \<not> is_active j"
  by (auto simp: active_job_def filter_empty_conv)

end
