(* ===== verification/Queue_Claim.thy ===== *)
theory Queue_Claim
  imports Queue_Core "HOL-Library.List_Lexorder" "HOL-Library.Char_ord"
begin

text \<open>
  \<open>JobQueue.claim\<close> and what it is made of: the candidate query with its ordering, permit
  acquisition, the bounded scan over candidates, and the failure of exhausted leases.
  \<open>SKIP LOCKED\<close> is modelled by the list \<open>locked\<close> of the job ids that concurrent transactions
  hold: a locked row is never returned, and every result holds for every such list.
\<close>

subsection \<open>The candidate query\<close>

definition expired_lease :: "instant \<Rightarrow> work_job \<Rightarrow> bool" where
  "expired_lease now j = (job_status j = LEASED \<and>
     (case job_lease_expires_at j of None \<Rightarrow> False | Some e \<Rightarrow> e \<le> now))"

definition live_lease :: "instant \<Rightarrow> work_job \<Rightarrow> bool" where
  "live_lease now j = (job_status j = LEASED \<and>
     (case job_lease_expires_at j of None \<Rightarrow> False | Some e \<Rightarrow> now < e))"

definition ready :: "instant \<Rightarrow> work_job \<Rightarrow> bool" where
  "ready now j = ((job_status j = QUEUED \<or> job_status j = RETRY_WAIT) \<and> job_available_at j \<le> now)"

definition scheduling_tier :: "work_job \<Rightarrow> int" where
  "scheduling_tier j =
     (if job_kind_of j = CHAPTER_DOWNLOAD then 0
      else if job_kind_of j = SOURCE_REFRESH \<and>
              fmlookup (job_payload j) ''acquisition_critical'' = Some (JBool True) then 1
      else if job_kind_of j = SOURCE_PULL then 2
      else if job_kind_of j = SOURCE_REFRESH then 3
      else if job_kind_of j = MAINTENANCE \<and> py_startswith (job_pool j) ''pull:'' then 4
      else 5)"

definition fairness_load :: "instant \<Rightarrow> db \<Rightarrow> work_job \<Rightarrow> int" where
  "fairness_load now d j =
     (if job_kind_of j = CHAPTER_DOWNLOAD
      then int (length (filter (\<lambda>k. job_group_key k = job_group_key j \<and> live_lease now k) (jobs d)))
      else 0)"

definition claim_key :: "instant \<Rightarrow> db \<Rightarrow> work_job \<Rightarrow> int \<times> int \<times> int \<times> int \<times> int" where
  "claim_key now d j = (scheduling_tier j, fairness_load now d j, job_priority j,
     job_available_at j, job_id j)"

definition provider_blocked :: "instant \<Rightarrow> db \<Rightarrow> string \<Rightarrow> bool" where
  "provider_blocked now d src =
     list_ex (\<lambda>s. sst_source s = src \<and>
       (\<not> sst_manual_enabled s \<or> (case sst_cooldown_until s of None \<Rightarrow> False | Some t \<Rightarrow> now < t)))
     (source_states d)"

text \<open>Whether another live lease excludes a mutation of the same series.\<close>

definition series_conflict :: "instant \<Rightarrow> db \<Rightarrow> work_job \<Rightarrow> job_kind list \<Rightarrow> bool" where
  "series_conflict now d j kinds =
     list_ex (\<lambda>k. job_id k \<noteq> job_id j \<and> job_kind_of k \<in> set kinds \<and> live_lease now k \<and>
       job_series_key k = job_series_key j) (jobs d)"

definition series_free :: "instant \<Rightarrow> db \<Rightarrow> work_job \<Rightarrow> bool" where
  "series_free now d j =
     (job_kind_of j \<notin> set MUTATING_JOB_KINDS \<or> job_series_key j = [] \<or>
      job_kind_of j = CHAPTER_DOWNLOAD \<and> \<not> series_conflict now d j [LIBRARY_REPAIR] \<or>
      job_kind_of j = LIBRARY_REPAIR \<and> \<not> series_conflict now d j MUTATING_JOB_KINDS)"

definition storage_paused :: "db \<Rightarrow> bool" where
  "storage_paused d = (case storage d of None \<Rightarrow> False | Some s \<Rightarrow> st_paused s)"

definition claimable :: "instant \<Rightarrow> db \<Rightarrow> work_job \<Rightarrow> bool" where
  "claimable now d j =
     ((ready now j \<or> expired_lease now j) \<and> job_attempts j < job_max_attempts j \<and>
      (job_kind_of j \<notin> set NETWORK_JOB_KINDS \<or> \<not> provider_blocked now d (job_source j)) \<and>
      series_free now d j \<and>
      (job_kind_of j \<noteq> CHAPTER_DOWNLOAD \<or> \<not> storage_paused d))"

record claim_filter =
  cf_kinds :: "job_kind list option"
  cf_pools :: "string list option"
  cf_exclude_ids :: "int list"
  cf_exclude_pools :: "string list"
  cf_exclude_sources :: "string list"
  cf_block_network :: bool
  cf_block_chapters :: bool

text \<open>An empty list of kinds or pools selects nothing, a missing one everything.\<close>

definition in_scope :: "claim_filter \<Rightarrow> work_job \<Rightarrow> bool" where
  "in_scope f j =
     ((case cf_kinds f of None \<Rightarrow> True | Some ks \<Rightarrow> job_kind_of j \<in> set ks) \<and>
      (case cf_pools f of None \<Rightarrow> True
       | Some ps \<Rightarrow> job_pool j \<in> set (filter (\<lambda>p. p \<noteq> []) ps)) \<and>
      job_id j \<notin> set (cf_exclude_ids f) \<and> job_pool j \<notin> set (cf_exclude_pools f) \<and>
      job_source j \<notin> set (cf_exclude_sources f) \<and>
      (cf_block_network f \<longrightarrow>
         job_kind_of j \<notin> set NETWORK_JOB_KINDS \<and> \<not> py_startswith (job_pool j) ''pull:'') \<and>
      (cf_block_chapters f \<longrightarrow> job_kind_of j \<noteq> CHAPTER_DOWNLOAD))"

definition claim_query :: "instant \<Rightarrow> claim_filter \<Rightarrow> int list \<Rightarrow> db \<Rightarrow> work_job option" where
  "claim_query now f locked d =
     (case sort_key (claim_key now d)
             (filter (\<lambda>j. claimable now d j \<and> in_scope f j \<and> job_id j \<notin> set locked) (jobs d)) of
        [] \<Rightarrow> None | j # _ \<Rightarrow> Some j)"

subsection \<open>Permits\<close>

type_synonym pool_limits = "(string \<times> int) list"

definition active_permits :: "instant \<Rightarrow> db \<Rightarrow> string \<Rightarrow> int" where
  "active_permits now d pool =
     int (length (filter (\<lambda>p. prm_pool p = pool \<and> now < prm_lease_expires_at p) (permits d)))"

definition permit_pool_full :: "instant \<Rightarrow> db \<Rightarrow> pool_limits \<Rightarrow> string \<Rightarrow> bool" where
  "permit_pool_full now d limits pool =
     (case map_of limits pool of None \<Rightarrow> False | Some l \<Rightarrow> l \<le> active_permits now d pool)"

definition saturated_direct_pools :: "instant \<Rightarrow> db \<Rightarrow> pool_limits \<Rightarrow> string list" where
  "saturated_direct_pools now d limits =
     filter (\<lambda>pool. pool \<notin> set [''network_global'', ''chapter_global''] \<and>
        permit_pool_full now d limits pool) (map fst limits)"

definition saturated_provider_sources ::
  "instant \<Rightarrow> rat \<Rightarrow> db \<Rightarrow> pool_limits \<Rightarrow> string list" where
  "saturated_provider_sources now window d limits =
     map (\<lambda>pool. py_removeprefix pool ''provider:'')
       (filter (\<lambda>pool. py_startswith pool ''provider:'' \<and>
          (case effective_provider_limit (py_removeprefix pool ''provider:'') (map_of limits pool)
                  now window d of
             None \<Rightarrow> False | Some l \<Rightarrow> l \<le> active_permits now d pool)) (map fst limits))"

definition permit_pools :: "work_job \<Rightarrow> string list" where
  "permit_pools j = sort (remdups (filter (\<lambda>p. p \<noteq> [])
     ([job_pool j] @
      (if is_network_job j
       then ''network_global'' # (if job_source j \<noteq> [] then [''provider:'' @ job_source j] else [])
       else []) @
      (if job_kind_of j = CHAPTER_DOWNLOAD then [''chapter_global''] else []))))"

definition adaptive_pool :: "string \<Rightarrow> bool" where
  "adaptive_pool pool = (py_startswith pool ''download:'' \<or> py_startswith pool ''refresh:'' \<or>
     py_startswith pool ''provider:'')"

definition pool_limit ::
  "instant \<Rightarrow> rat \<Rightarrow> db \<Rightarrow> pool_limits \<Rightarrow> work_job \<Rightarrow> string \<Rightarrow> int option" where
  "pool_limit now window d limits j pool =
     (if adaptive_pool pool \<and> job_source j \<noteq> []
      then effective_provider_limit (job_source j) (map_of limits pool) now window d
      else map_of limits pool)"

definition series_locked :: "instant \<Rightarrow> db \<Rightarrow> work_job \<Rightarrow> bool" where
  "series_locked now d j =
     (job_kind_of j \<in> set MUTATING_JOB_KINDS \<and> job_series_key j \<noteq> [] \<and>
      list_ex (\<lambda>k. job_kind_of k \<in> set (if job_kind_of j = CHAPTER_DOWNLOAD then [LIBRARY_REPAIR]
                                          else MUTATING_JOB_KINDS) \<and>
        live_lease now k \<and> job_series_key k = job_series_key j) (jobs d))"

definition acquire_permits ::
  "instant \<Rightarrow> rat \<Rightarrow> pool_limits \<Rightarrow> string \<Rightarrow> instant \<Rightarrow> work_job \<Rightarrow> db \<Rightarrow> db option" where
  "acquire_permits now window limits owner expires j d =
     (if series_locked now d j then None
      else if list_ex (\<lambda>pool. case pool_limit now window d limits j pool of
                 None \<Rightarrow> False | Some l \<Rightarrow> l \<le> active_permits now d pool) (permit_pools j) then None
      else Some (d\<lparr>permits := permits d @
        map (\<lambda>pool. \<lparr>prm_job_id = job_id j, prm_pool = pool, prm_owner = owner,
                     prm_lease_expires_at = expires\<rparr>)
          (filter (\<lambda>pool. map_of limits pool \<noteq> None) (permit_pools j))\<rparr>))"

subsection \<open>Exhausted leases\<close>

definition fail_expired_job :: "work_job list \<Rightarrow> instant \<Rightarrow> work_job \<Rightarrow> db \<Rightarrow> db" where
  "fail_expired_job stored now j d =
     (let msg = ''job lease expired after its final attempt'';
          j1 = j\<lparr>job_status := FAILED, job_lease_owner := [], job_lease_expires_at := None,
                 job_heartbeat_at := None, job_error_code := ''lease_expired'',
                 job_error_message := msg, job_updated_at := now, job_completed_at := Some now\<rparr>
      in record_terminal_units_in stored j1 FAILED now
           (release_permits (job_id j1)
             (record_event j1 EvLeaseExpired (job_lease_owner j) msg fmempty (put_job j1 d))))"

definition exhausted :: "instant \<Rightarrow> work_job \<Rightarrow> bool" where
  "exhausted now j = (expired_lease now j \<and> job_max_attempts j \<le> job_attempts j)"

definition fail_exhausted_leases :: "instant \<Rightarrow> int list \<Rightarrow> db \<Rightarrow> int \<times> db" where
  "fail_exhausted_leases now locked d =
     (let rows = filter (\<lambda>j. exhausted now j \<and> job_id j \<notin> set locked) (jobs d)
      in (int (length rows), fold (fail_expired_job (jobs d) now) rows d))"

definition cleanup_expired_permits :: "instant \<Rightarrow> db \<Rightarrow> int \<times> db" where
  "cleanup_expired_permits now d =
     (int (length (filter (\<lambda>p. prm_lease_expires_at p \<le> now) (permits d))),
      d\<lparr>permits := filter (\<lambda>p. \<not> prm_lease_expires_at p \<le> now) (permits d)\<rparr>)"

subsection \<open>The claim\<close>

record claim_args =
  ca_owner :: string
  ca_lease_for :: duration
  ca_kinds :: "job_kind list option"
  ca_pool_limits :: pool_limits
  ca_window :: rat
  ca_pools :: "string list option"

record claim_scan =
  sc_rejected :: "int list"
  sc_pools :: "string list"
  sc_sources :: "string list"
  sc_network_full :: bool
  sc_chapter_full :: bool

text \<open>The saturation flags before the first candidate, and after a rejected one.\<close>

definition scan_init :: "instant \<Rightarrow> claim_args \<Rightarrow> db \<Rightarrow> claim_scan" where
  "scan_init now a d =
     \<lparr>sc_rejected = [], sc_pools = saturated_direct_pools now d (ca_pool_limits a),
      sc_sources = saturated_provider_sources now (ca_window a) d (ca_pool_limits a),
      sc_network_full = permit_pool_full now d (ca_pool_limits a) ''network_global'',
      sc_chapter_full = permit_pool_full now d (ca_pool_limits a) ''chapter_global''\<rparr>"

definition scan_reject :: "instant \<Rightarrow> claim_args \<Rightarrow> work_job \<Rightarrow> db \<Rightarrow> claim_scan \<Rightarrow> claim_scan" where
  "scan_reject now a j d s =
     \<lparr>sc_rejected = job_id j # sc_rejected s,
      sc_pools = saturated_direct_pools now d (ca_pool_limits a),
      sc_sources = saturated_provider_sources now (ca_window a) d (ca_pool_limits a) @
        (if is_network_job j \<and> job_source j \<noteq> [] then [job_source j] else []) @ sc_sources s,
      sc_network_full = permit_pool_full now d (ca_pool_limits a) ''network_global'',
      sc_chapter_full = permit_pool_full now d (ca_pool_limits a) ''chapter_global''\<rparr>"

definition scan_filter :: "claim_args \<Rightarrow> claim_scan \<Rightarrow> claim_filter" where
  "scan_filter a s =
     \<lparr>cf_kinds = ca_kinds a, cf_pools = ca_pools a, cf_exclude_ids = sc_rejected s,
      cf_exclude_pools = sc_pools s, cf_exclude_sources = sc_sources s,
      cf_block_network = sc_network_full s, cf_block_chapters = sc_chapter_full s\<rparr>"

text \<open>A refresh that still sits in an old pool is moved to the pool of its source.\<close>

definition fix_pool :: "work_job \<Rightarrow> work_job" where
  "fix_pool j =
     (let expected = default_pool (job_kind_of j) (job_source j) in
      if job_kind_of j = SOURCE_REFRESH \<and> job_pool j \<noteq> expected
      then j\<lparr>job_pool := expected\<rparr> else j)"

text \<open>At most fifty candidates are tried; the first whose permits can be acquired is taken.\<close>

fun claim_scan_loop ::
  "nat \<Rightarrow> instant \<Rightarrow> claim_args \<Rightarrow> int list \<Rightarrow> claim_scan \<Rightarrow> db \<Rightarrow> work_job option \<times> db" where
  "claim_scan_loop 0 now a locked s d = (None, d)"
| "claim_scan_loop (Suc n) now a locked s d =
     (case claim_query now (scan_filter a s) locked d of
        None \<Rightarrow> (None, snd (fail_exhausted_leases now locked d))
      | Some c \<Rightarrow>
          (let j = fix_pool c; d1 = put_job j d in
           if expired_lease now j \<and> job_max_attempts j \<le> job_attempts j
           then claim_scan_loop n now a locked (s\<lparr>sc_rejected := job_id j # sc_rejected s\<rparr>)
                  (fail_expired_job (jobs d1) now j d1)
           else
             (let d2 = (if expired_lease now j then release_permits (job_id j) d1 else d1) in
              case acquire_permits now (ca_window a) (ca_pool_limits a) (py_strip (ca_owner a))
                     (now + ca_lease_for a) j d2 of
                Some d3 \<Rightarrow> (Some j, d3)
              | None \<Rightarrow> claim_scan_loop n now a locked (scan_reject now a j d2 s) d2)))"

declare claim_scan_loop.simps [simp del]

definition lease_row :: "instant \<Rightarrow> claim_args \<Rightarrow> work_job \<Rightarrow> work_job" where
  "lease_row now a j =
     j\<lparr>job_status := LEASED, job_attempts := job_attempts j + 1,
       job_lease_owner := py_strip (ca_owner a), job_lease_expires_at := Some (now + ca_lease_for a),
       job_heartbeat_at := Some now, job_error_code := [], job_error_message := [],
       job_updated_at := now\<rparr>"

definition lease_of :: "work_job \<Rightarrow> job_payload \<Rightarrow> instant \<Rightarrow> job_lease" where
  "lease_of j p expires =
     \<lparr>lease_id = job_id j, lease_kind = job_kind_of j, lease_dedupe_key = job_dedupe_key j,
      lease_payload = p, lease_priority = job_priority j, lease_attempt = job_attempts j,
      lease_max_attempts = job_max_attempts j, lease_owner = job_lease_owner j,
      lease_expires_at = expires, lease_source = job_source j, lease_series_key = job_series_key j,
      lease_pool = job_pool j\<rparr>"

definition claim ::
  "validator \<Rightarrow> instant \<Rightarrow> claim_args \<Rightarrow> int list \<Rightarrow> db \<Rightarrow> (job_lease option \<times> db) result" where
  "claim model_validate now a locked d =
     (if py_strip (ca_owner a) = [] then Inl (ValueError ''owner must not be empty'')
      else if ca_lease_for a \<le> 0 then Inl (ValueError ''lease_for must be positive'')
      else case claim_scan_loop 50 now a locked (scan_init now a d) d of
             (None, d1) \<Rightarrow> Inr (None, d1)
           | (Some j, d1) \<Rightarrow>
               bind_result (flush_job (lease_row now a j) d1) (\<lambda>d2.
                 let j2 = lease_row now a j;
                     d3 = record_event j2 EvLeased (py_strip (ca_owner a)) [] fmempty d2
                 in bind_result (parse_job_payload model_validate (job_kind_of j2) (Raw (job_payload j2)))
                      (\<lambda>p. Inr (Some (lease_of j2 p (now + ca_lease_for a)), d3))))"

end
