(* ===== verification/Queue_Enqueue.thy ===== *)
theory Queue_Enqueue
  imports Queue_Core
begin

text \<open>
  \<open>JobQueue.enqueue\<close>: validation, routing, coalescing into the active job with the same
  deduplication key, and insertion.  The result is the job, whether it was created, and the new
  database; a raised exception is an \<open>Inl\<close>, after which the caller's transaction is rolled back.
\<close>

record enqueue_args =
  eq_kind :: job_kind
  eq_dedupe_key :: string
  eq_payload :: payload_arg
  eq_priority :: int
  eq_max_attempts :: int
  eq_available_at :: "instant option"
  eq_source :: string
  eq_series_key :: string
  eq_pool :: string
  eq_workflow_key :: string
  eq_group_key :: string
  eq_logical_units :: int
  eq_coalesce :: bool

text \<open>The keyword arguments' defaults.\<close>

definition enqueue_defaults :: "job_kind \<Rightarrow> string \<Rightarrow> payload_arg \<Rightarrow> enqueue_args" where
  "enqueue_defaults kind key payload =
     \<lparr>eq_kind = kind, eq_dedupe_key = key, eq_payload = payload, eq_priority = 100,
      eq_max_attempts = 3, eq_available_at = None, eq_source = [], eq_series_key = [],
      eq_pool = [], eq_workflow_key = [], eq_group_key = [], eq_logical_units = 1,
      eq_coalesce = False\<rparr>"

definition str_or :: "string \<Rightarrow> string \<Rightarrow> string" where
  "str_or a b = (if a \<noteq> [] then a else b)"

definition routed_source :: "enqueue_args \<Rightarrow> job_payload \<Rightarrow> string" where
  "routed_source a p =
     (if eq_kind a \<in> set [SOURCE_PULL, SOURCE_REFRESH] then payload_source p
      else py_strip (eq_source a))"

definition routed_pool :: "enqueue_args \<Rightarrow> job_payload \<Rightarrow> string" where
  "routed_pool a p = str_or (py_strip (eq_pool a)) (default_pool (eq_kind a) (routed_source a p))"

subsection \<open>Coalescing into an active job\<close>

text \<open>A queued job whose pool has changed is moved to the new pool.\<close>

definition repool :: "instant \<Rightarrow> string \<Rightarrow> work_job \<Rightarrow> db \<Rightarrow> work_job \<times> db" where
  "repool now pool e d =
     (if job_status e \<noteq> LEASED \<and> job_pool e \<noteq> pool
      then (let e1 = e\<lparr>job_pool := pool, job_updated_at := now\<rparr>
            in (e1, notify_workers pool (put_job e1 d)))
      else (e, d))"

definition current_payload :: "work_job \<Rightarrow> jdict" where
  "current_payload e =
     (if job_status e = LEASED \<and> job_pending_payload e \<noteq> fmempty
      then job_pending_payload e else job_payload e)"

text \<open>
  The batch rule of Kavita synchronisation: the series of the replacement are merged with those
  already waiting, without those in flight, one hundred at most.  \<open>None\<close> is the early return
  that leaves the job as it is.
\<close>

definition merge_series :: "work_job \<Rightarrow> jdict \<Rightarrow> (jdict \<times> int) option" where
  "merge_series e replacement =
     (if job_kind_of e = KAVITA_SYNC \<and> truthy (dict_get replacement ''series_ids'') then
        (let incoming = fromkeys (dict_ints replacement ''series_ids'') in
         if job_status e = LEASED then
           (let in_flight = dict_ints (job_payload e) ''series_ids'';
                pending = dict_ints (job_pending_payload e) ''series_ids'';
                merged = take 100 (filter (\<lambda>s. s \<notin> set in_flight) (fromkeys (pending @ incoming)));
                added = int (length merged) - int (length pending)
            in if added \<le> 0 then None
               else Some (fmupd ''series_ids'' (JList (map JInt merged)) replacement, added))
         else
           (let current = dict_ints (current_payload e) ''series_ids'';
                merged = take 100 (fromkeys (current @ incoming))
            in if merged = current then None
               else Some (fmupd ''series_ids'' (JList (map JInt merged)) replacement, 0)))
      else Some (replacement, 0))"

definition acquisition_promotion :: "work_job \<Rightarrow> jdict \<Rightarrow> bool" where
  "acquisition_promotion e replacement =
     (job_kind_of e = SOURCE_REFRESH \<and> truthy (dict_get replacement ''acquisition_critical'') \<and>
      \<not> truthy (dict_get (current_payload e) ''acquisition_critical''))"

definition promote :: "instant \<Rightarrow> enqueue_args \<Rightarrow> work_job \<Rightarrow> work_job" where
  "promote now a e =
     (let e1 = e\<lparr>job_priority := min (job_priority e) (eq_priority a),
                 job_max_attempts := max (job_max_attempts e) (eq_max_attempts a)\<rparr>;
          incoming = (case eq_available_at a of None \<Rightarrow> now | Some t \<Rightarrow> t)
      in if job_status e \<noteq> LEASED \<and> incoming < job_available_at e
         then e1\<lparr>job_available_at := incoming\<rparr> else e1)"

text \<open>The replacement goes to the pending slot of a leased job and to the payload of a waiting
  one; the second component is the number of logical units this adds.\<close>

definition absorb :: "instant \<Rightarrow> enqueue_args \<Rightarrow> jdict \<Rightarrow> int \<Rightarrow> work_job \<Rightarrow> work_job \<times> int" where
  "absorb now a replacement added e =
     (if job_status e = LEASED then
        (let n = (if job_kind_of e \<noteq> KAVITA_SYNC then max (eq_logical_units a) 1 else added)
         in (e\<lparr>job_pending_payload := replacement,
              job_logical_units := job_logical_units e + max n 0\<rparr>, n))
      else
        (let e1 = e\<lparr>job_payload := replacement, job_error_code := [], job_error_message := [],
                    job_updated_at := now\<rparr>
         in if job_kind_of e = KAVITA_SYNC
            then (let u = max (int (length (dict_ints replacement ''series_ids''))) 1
                  in (e1\<lparr>job_logical_units := u\<rparr>, max (u - job_logical_units e) 0))
            else (e1, added)))"

definition add_cycle_units :: "instant \<Rightarrow> int \<Rightarrow> int option \<Rightarrow> db \<Rightarrow> db" where
  "add_cycle_units now n ci d =
     (case ci of None \<Rightarrow> d | Some i \<Rightarrow>
        (case find_cycle i d of None \<Rightarrow> d
         | Some c \<Rightarrow> put_cycle (c\<lparr>cyc_total_units := cyc_total_units c + n,
                                cyc_added_units := cyc_added_units c + n,
                                cyc_updated_at := now\<rparr>) d))"

definition coalesce_job ::
  "instant \<Rightarrow> enqueue_args \<Rightarrow> string \<Rightarrow> jdict \<Rightarrow> work_job \<Rightarrow> db \<Rightarrow> work_job \<times> db" where
  "coalesce_job now a pool dump e d =
     (case merge_series e dump of
        None \<Rightarrow> (e, d)
      | Some (replacement, added) \<Rightarrow>
          if \<not> should_coalesce (job_kind_of e) (current_payload e) replacement then (e, d)
          else
            (let promotion = acquisition_promotion e dump;
                 e1 = (if promotion then promote now a e else e);
                 (e2, n) = absorb now a replacement added e1;
                 d1 = (if promotion then notify_workers pool d else d);
                 d2 = put_job e2 d1;
                 d3 = (if 0 < n then add_cycle_units now n (job_cycle_id e2) d2 else d2)
             in (e2, d3)))"

definition enqueue_existing ::
  "instant \<Rightarrow> enqueue_args \<Rightarrow> job_payload \<Rightarrow> work_job \<Rightarrow> db \<Rightarrow> work_job \<times> db" where
  "enqueue_existing now a p e d =
     (let pool = routed_pool a p; (e1, d1) = repool now pool e d
      in if eq_coalesce a then coalesce_job now a pool (model_dump p) e1 d1 else (e1, d1))"

subsection \<open>Insertion\<close>

definition new_job_row :: "instant \<Rightarrow> enqueue_args \<Rightarrow> string \<Rightarrow> job_payload \<Rightarrow> int \<Rightarrow> work_job" where
  "new_job_row now a key p ci =
     (let workflow = str_or (py_strip (eq_workflow_key a)) (payload_workflow_key p);
          grp = str_or (py_strip (eq_group_key a))
            (default_group_key (eq_kind a) key (routed_source a p) (py_strip (eq_series_key a))
               workflow ci)
      in (new_work_job now (eq_kind a) key (model_dump p))
           \<lparr>job_priority := eq_priority a, job_max_attempts := eq_max_attempts a,
            job_available_at := (case eq_available_at a of None \<Rightarrow> now | Some t \<Rightarrow> t),
            job_source := routed_source a p, job_series_key := py_strip (eq_series_key a),
            job_pool := routed_pool a p, job_cycle_id := Some ci, job_workflow_key := workflow,
            job_group_key := grp, job_logical_units := max (eq_logical_units a) 1\<rparr>)"

text \<open>
  The insertion runs in a savepoint.  A concurrent transaction may have inserted the same active
  key since the lookup: the unique index then raises \<open>IntegrityError\<close>, and the job of the winner
  is returned.
\<close>

definition enqueue_new ::
  "instant \<Rightarrow> enqueue_args \<Rightarrow> string \<Rightarrow> job_payload \<Rightarrow> db \<Rightarrow> (work_job \<times> bool \<times> db) result" where
  "enqueue_new now a key p d =
     (let (c, d1) = active_cycle now d;
          row = new_job_row now a key p (cyc_id c)
      in case insert_job row d1 of
           Inl e \<Rightarrow> (case active_job (eq_kind a) key d1 of
                      None \<Rightarrow> Inl e
                    | Some w \<Rightarrow> Inr (w, False, d1))
         | Inr (j, d2) \<Rightarrow>
             (let d3 = notify_workers (routed_pool a p) (record_event j EvEnqueued [] [] fmempty d2);
                  c1 = c\<lparr>cyc_total_units := cyc_total_units c + job_logical_units j,
                         cyc_added_units := cyc_added_units c + job_logical_units j,
                         cyc_updated_at := now\<rparr>
              in Inr (j, True, put_cycle c1 d3)))"

definition enqueue ::
  "validator \<Rightarrow> instant \<Rightarrow> enqueue_args \<Rightarrow> db \<Rightarrow> (work_job \<times> bool \<times> db) result" where
  "enqueue model_validate now a d =
     (let key = py_strip (eq_dedupe_key a) in
      if key = [] then Inl (ValueError ''dedupe_key must not be empty'')
      else if eq_max_attempts a < 1 then Inl (ValueError ''max_attempts must be at least 1'')
      else bind_result (parse_job_payload model_validate (eq_kind a) (eq_payload a)) (\<lambda>p.
        case active_job (eq_kind a) key d of
          Some e \<Rightarrow> (let (e1, d1) = enqueue_existing now a p e d in Inr (e1, False, d1))
        | None \<Rightarrow> enqueue_new now a key p d))"

lemmas enqueue_defs = enqueue_def enqueue_new_def enqueue_existing_def coalesce_job_def repool_def

end
