(* ===== verification/Queue_Lifecycle.thy ===== *)
theory Queue_Lifecycle
  imports Queue_Claim Queue_Enqueue
begin

text \<open>
  The operations of \<^verbatim>\<open>JobQueue\<close> on existing jobs: heartbeat, the terminal outcomes,
  retries, deferral, release, rerouting, cancellation and progress.  Where the source returns a
  boolean the model returns it with the new database.
\<close>

subsection \<open>Row selection\<close>

text \<open>\<open>WHERE id = \<dots> AND status = 'leased' AND lease_owner = \<dots>\<close>, and the same with
  \<open>lease_expires_at > current\<close>.\<close>

definition owned_job :: "int \<Rightarrow> string \<Rightarrow> db \<Rightarrow> work_job option" where
  "owned_job i owner d = (case find_job i d of None \<Rightarrow> None
     | Some j \<Rightarrow> if job_status j = LEASED \<and> job_lease_owner j = owner then Some j else None)"

definition held_job :: "instant \<Rightarrow> int \<Rightarrow> string \<Rightarrow> db \<Rightarrow> work_job option" where
  "held_job now i owner d = (case owned_job i owner d of None \<Rightarrow> None
     | Some j \<Rightarrow> if live_lease now j then Some j else None)"

text \<open>The lease fields every operation that ends a lease clears.\<close>

definition drop_lease :: "work_job \<Rightarrow> work_job" where
  "drop_lease j = j\<lparr>job_lease_owner := [], job_lease_expires_at := None, job_heartbeat_at := None\<rparr>"

subsection \<open>Heartbeat\<close>

definition heartbeat ::
  "instant \<Rightarrow> int \<Rightarrow> string \<Rightarrow> duration \<Rightarrow> db \<Rightarrow> (bool \<times> db) result" where
  "heartbeat now i owner lease_for d =
     (if lease_for \<le> 0 then Inl (ValueError ''lease_for must be positive'')
      else case held_job now i owner d of
             None \<Rightarrow> Inr (False, d)
           | Some j \<Rightarrow>
               (let until = now + lease_for;
                    j1 = j\<lparr>job_heartbeat_at := Some now, job_lease_expires_at := Some until,
                           job_updated_at := now\<rparr>;
                    d1 = put_job j1 d
                in Inr (True, d1\<lparr>
                     permits := map (\<lambda>p. if prm_job_id p = i \<and> prm_owner p = owner
                                         then p\<lparr>prm_lease_expires_at := until\<rparr> else p) (permits d1),
                     reservations := map (\<lambda>r. if res_job_id r = i \<and> res_owner r = owner
                                              then r\<lparr>res_lease_expires_at := until\<rparr> else r)
                                       (reservations d1)\<rparr>)))"

subsection \<open>Terminal outcomes\<close>

definition requeue_pending :: "instant \<Rightarrow> work_job \<Rightarrow> string \<Rightarrow> db \<Rightarrow> db" where
  "requeue_pending now j owner d =
     (let msg = ''a newer provider observation was coalesced while leased'';
          j1 = (drop_lease j)\<lparr>job_payload := job_pending_payload j, job_pending_payload := fmempty,
                 job_status := QUEUED, job_available_at := now,
                 job_error_code := ''coalesced_observation'', job_error_message := msg,
                 job_updated_at := now\<rparr>
      in record_event j1 EvReleased owner msg (fmap_of_list [(''coalesced'', JBool True)])
           (release_permits (job_id j1) (put_job j1 d)))"

definition finish ::
  "instant \<Rightarrow> int \<Rightarrow> string \<Rightarrow> job_state \<Rightarrow> event_type \<Rightarrow> string \<Rightarrow> string \<Rightarrow> db \<Rightarrow> bool \<times> db" where
  "finish now i owner state ev code msg d =
     (case held_job now i owner d of
        None \<Rightarrow> (False, d)
      | Some j \<Rightarrow>
          if state = SUCCEEDED \<and> job_pending_payload j \<noteq> fmempty
          then (True, requeue_pending now j owner d)
          else
            (let j1 = (drop_lease j)\<lparr>job_status := state, job_error_code := code,
                        job_error_message := msg, job_updated_at := now,
                        job_completed_at := Some now\<rparr>
             in (True, record_terminal_units j1 state now
                   (record_event j1 ev owner msg
                      (if code \<noteq> [] then fmap_of_list [(''error_code'', JStr code)] else fmempty)
                      (release_permits (job_id j1) (put_job j1 d))))))"

definition succeed :: "instant \<Rightarrow> int \<Rightarrow> string \<Rightarrow> db \<Rightarrow> bool \<times> db" where
  "succeed now i owner d = finish now i owner SUCCEEDED EvSucceeded [] [] d"

definition fail :: "instant \<Rightarrow> int \<Rightarrow> string \<Rightarrow> string \<Rightarrow> string \<Rightarrow> db \<Rightarrow> bool \<times> db" where
  "fail now i owner code msg d = finish now i owner FAILED EvFailed code msg d"

definition retry ::
  "instant \<Rightarrow> int \<Rightarrow> string \<Rightarrow> instant \<Rightarrow> string \<Rightarrow> string \<Rightarrow> db \<Rightarrow> job_state option \<times> db" where
  "retry now i owner available_at code msg d =
     (case held_job now i owner d of
        None \<Rightarrow> (None, d)
      | Some j \<Rightarrow>
          (let terminal = (job_max_attempts j \<le> job_attempts j);
               state = (if terminal then FAILED else RETRY_WAIT);
               j1 = (drop_lease j)\<lparr>job_status := state, job_available_at := available_at,
                      job_error_code := code, job_error_message := msg, job_updated_at := now,
                      job_completed_at := (if terminal then Some now else None)\<rparr>;
               d1 = record_event j1 (if terminal then EvFailed else EvRetryScheduled) owner msg
                      (fmap_of_list [(''error_code'', JStr code), (''available_at'', JTime available_at)])
                      (release_permits (job_id j1) (put_job j1 d))
           in (Some state, if terminal then record_terminal_units j1 FAILED now d1 else d1)))"

definition cancel :: "instant \<Rightarrow> int \<Rightarrow> string \<Rightarrow> db \<Rightarrow> bool \<times> db" where
  "cancel now i reason d =
     (case find_job i d of
        None \<Rightarrow> (False, d)
      | Some j \<Rightarrow>
          if \<not> is_active j then (False, d)
          else
            (let j1 = (drop_lease j)\<lparr>job_status := CANCELLED, job_error_code := ''cancelled'',
                        job_error_message := reason, job_updated_at := now,
                        job_completed_at := Some now\<rparr>
             in (True, record_terminal_units j1 CANCELLED now
                   (record_event j1 EvCancelled (job_lease_owner j) reason fmempty
                      (release_permits (job_id j1) (put_job j1 d))))))"

subsection \<open>Giving a lease back\<close>

definition release :: "instant \<Rightarrow> int \<Rightarrow> string \<Rightarrow> string \<Rightarrow> db \<Rightarrow> bool \<times> db" where
  "release now i owner reason d =
     (case owned_job i owner d of
        None \<Rightarrow> (False, d)
      | Some j \<Rightarrow>
          (let j1 = (drop_lease j)\<lparr>job_status := QUEUED, job_attempts := max (job_attempts j - 1) 0,
                      job_available_at := now, job_error_code := ''released'',
                      job_error_message := reason, job_updated_at := now\<rparr>
           in (True, record_event j1 EvReleased owner reason fmempty
                 (release_permits (job_id j1) (put_job j1 d)))))"

definition defer_job ::
  "instant \<Rightarrow> int \<Rightarrow> string \<Rightarrow> instant \<Rightarrow> string \<Rightarrow> string \<Rightarrow> db \<Rightarrow> bool \<times> db" where
  "defer_job now i owner available_at code msg d =
     (case owned_job i owner d of
        None \<Rightarrow> (False, d)
      | Some j \<Rightarrow>
          (let j1 = (drop_lease j)\<lparr>job_status := RETRY_WAIT, job_attempts := max (job_attempts j - 1) 0,
                      job_available_at := available_at, job_error_code := code,
                      job_error_message := msg, job_updated_at := now\<rparr>
           in (True, record_event j1 EvRetryScheduled owner msg
                 (fmap_of_list [(''error_code'', JStr code), (''available_at'', JTime available_at),
                                (''blocked'', JBool True)])
                 (release_permits (job_id j1) (put_job j1 d)))))"

definition reroute ::
  "validator \<Rightarrow> instant \<Rightarrow> int \<Rightarrow> string \<Rightarrow> payload_arg \<Rightarrow> string \<Rightarrow> instant \<Rightarrow> string \<Rightarrow> jdict \<Rightarrow> db
   \<Rightarrow> (bool \<times> db) result" where
  "reroute model_validate now i owner payload source available_at msg details d =
     (case owned_job i owner d of
        None \<Rightarrow> Inr (False, d)
      | Some j \<Rightarrow>
          bind_result (parse_job_payload model_validate (job_kind_of j) payload) (\<lambda>p.
            let src = py_strip source; pool = default_pool (job_kind_of j) src;
                j1 = (drop_lease j)\<lparr>job_payload := model_dump p, job_source := src, job_pool := pool,
                       job_status := RETRY_WAIT, job_available_at := available_at,
                       job_error_code := ''rerouted'', job_error_message := take 4000 msg,
                       job_updated_at := now\<rparr>
            in Inr (True, record_event j1 EvRerouted owner msg details
                     (notify_workers pool (release_permits (job_id j1) (put_job j1 d))))))"

definition reroute_waiting ::
  "validator \<Rightarrow> instant \<Rightarrow> int \<Rightarrow> payload_arg \<Rightarrow> string \<Rightarrow> instant \<Rightarrow> string \<Rightarrow> jdict \<Rightarrow> db
   \<Rightarrow> (bool \<times> db) result" where
  "reroute_waiting model_validate now i payload source available_at msg details d =
     (case find_job i d of
        None \<Rightarrow> Inr (False, d)
      | Some j \<Rightarrow>
          if \<not> (job_status j = QUEUED \<or> job_status j = RETRY_WAIT) then Inr (False, d)
          else bind_result (parse_job_payload model_validate (job_kind_of j) payload) (\<lambda>p.
            let src = py_strip source; pool = default_pool (job_kind_of j) src;
                j1 = j\<lparr>job_payload := model_dump p, job_source := src, job_pool := pool,
                       job_status := RETRY_WAIT, job_available_at := available_at,
                       job_error_code := ''rerouted'', job_error_message := take 4000 msg,
                       job_updated_at := now\<rparr>
            in Inr (True, record_event j1 EvRerouted [] msg details
                     (notify_workers pool (put_job j1 d)))))"

definition retry_now :: "instant \<Rightarrow> int \<Rightarrow> db \<Rightarrow> work_job option \<times> db" where
  "retry_now now i d =
     (case find_job i d of
        None \<Rightarrow> (None, d)
      | Some j \<Rightarrow>
          if job_status j \<noteq> RETRY_WAIT then (None, d)
          else
            (let j1 = j\<lparr>job_status := QUEUED, job_available_at := now, job_updated_at := now,
                        job_completed_at := None\<rparr>
             in (Some j1, notify_workers (job_pool j1)
                   (record_event j1 EvReleased [] ''scheduled retry released now by operator''
                      (fmap_of_list [(''manual'', JBool True), (''attempts_unchanged'', JBool True)])
                      (put_job j1 d)))))"

definition outage_deferred :: "instant \<Rightarrow> string \<Rightarrow> work_job \<Rightarrow> bool" where
  "outage_deferred now src j = (job_source j = src \<and> job_status j = RETRY_WAIT \<and>
     now < job_available_at j \<and> job_error_code j \<in> set PROVIDER_RECOVERY_ERROR_CODES)"

definition resume_job :: "instant \<Rightarrow> string \<Rightarrow> work_job \<Rightarrow> db \<Rightarrow> db" where
  "resume_job now src j d =
     (let j1 = j\<lparr>job_available_at := now, job_error_code := [], job_error_message := [],
                 job_updated_at := now\<rparr>
      in notify_workers (job_pool j1)
           (record_event j1 EvReleased [] (src @ '' recovered; deferred work released'') fmempty
              (put_job j1 d)))"

definition resume_recovered_provider :: "instant \<Rightarrow> string \<Rightarrow> int list \<Rightarrow> db \<Rightarrow> int \<times> db" where
  "resume_recovered_provider now src locked d =
     (let rows = filter (\<lambda>j. outage_deferred now src j \<and> job_id j \<notin> set locked) (jobs d)
      in (int (length rows), fold (resume_job now src) rows d))"

subsection \<open>Progress\<close>

text \<open>The keys of the details dictionary that \<open>progress\<close> reads, and the rest of it.\<close>

record progress_details =
  pd_phase :: "string option"
  pd_processed :: "int option"
  pd_current :: "int option"
  pd_total :: "int option"
  pd_unit :: "string option"
  pd_bytes :: "int option"
  pd_dict :: jdict

definition opt_str_or :: "string option \<Rightarrow> string \<Rightarrow> string" where
  "opt_str_or v s = (case v of None \<Rightarrow> s | Some t \<Rightarrow> if t = [] then s else t)"

text \<open>The twentieth a job has reached; \<open>-1\<close> when the total is unknown.\<close>

definition progress_bucket :: "int \<Rightarrow> int \<Rightarrow> int" where
  "progress_bucket cur tot = (if tot \<noteq> 0 then min 20 (cur * 20 div tot) else - 1)"

definition progress_row :: "instant \<Rightarrow> string \<Rightarrow> progress_details \<Rightarrow> work_job \<Rightarrow> work_job" where
  "progress_row now msg p j =
     j\<lparr>job_progress_phase := take 50 (opt_str_or (pd_phase p) (str_or (job_progress_phase j) ''working'')),
       job_progress_current := max (nonzero_or (pd_processed p) (nonzero_or (pd_current p) 0)) 0,
       job_progress_total := max (nonzero_or (pd_total p) 0) 0,
       job_progress_unit := take 30 (opt_str_or (pd_unit p) (str_or (job_progress_unit j) ''items'')),
       job_progress_bytes := max (nonzero_or (pd_bytes p) (job_progress_bytes j)) 0,
       job_progress_message := take 4000 msg,
       job_progress_updated_at := Some now, job_updated_at := now\<rparr>"

definition progress_milestone :: "work_job \<Rightarrow> work_job \<Rightarrow> bool" where
  "progress_milestone old new =
     (job_progress_phase old \<noteq> job_progress_phase new \<or>
      job_progress_total old \<noteq> job_progress_total new \<or>
      progress_bucket (job_progress_current old) (job_progress_total old) \<noteq>
        progress_bucket (job_progress_current new) (job_progress_total new) \<or>
      job_progress_total new \<noteq> 0 \<and> job_progress_total new \<le> job_progress_current new \<and>
        (job_progress_total old = 0 \<or> job_progress_current old < job_progress_total old))"

definition progress ::
  "instant \<Rightarrow> int \<Rightarrow> string \<Rightarrow> string \<Rightarrow> progress_details \<Rightarrow> db \<Rightarrow> bool \<times> db" where
  "progress now i owner msg p d =
     (case held_job now i owner d of
        None \<Rightarrow> (False, d)
      | Some j \<Rightarrow>
          (let j1 = progress_row now msg p j; d1 = put_job j1 d
           in (True, if progress_milestone j j1
                     then record_event j1 EvProgress owner msg (pd_dict p) d1 else d1)))"

lemmas lifecycle_defs [queue_defs] = heartbeat_def requeue_pending_def finish_def succeed_def fail_def
  retry_def cancel_def release_def defer_job_def reroute_def reroute_waiting_def retry_now_def
  resume_job_def progress_def

end
