(* ===== verification/Queue_Invariants.thy ===== *)
theory Queue_Invariants
  imports Queue_Lifecycle
begin

text \<open>
  The invariant of the queue tables.  Each conjunct is a predicate on the tables it reads, so
  that writing another table leaves it alone.  The second half shows, conjunct by conjunct, what
  replacing one row does.
\<close>

subsection \<open>The invariant\<close>

definition job_ok :: "work_job \<Rightarrow> bool" where
  "job_ok j = (job_checks j \<and> job_attempts j \<le> job_max_attempts j \<and> 1 \<le> job_logical_units j \<and>
     (if job_status j = LEASED then 1 \<le> job_attempts j
      else job_lease_owner j = [] \<and> job_lease_expires_at j = None \<and> job_heartbeat_at j = None))"

definition rows_ok :: "work_job list \<Rightarrow> int \<Rightarrow> bool" where
  "rows_ok rs n = (distinct (map job_id rs) \<and> (\<forall>j \<in> set rs. job_id j < n \<and> job_ok j))"

definition unique_ok :: "work_job list \<Rightarrow> bool" where
  "unique_ok rs = (\<forall>j \<in> set rs. \<forall>k \<in> set rs. job_id j \<noteq> job_id k \<longrightarrow>
     \<not> dedupe_clash j k \<and> \<not> repair_clash j k)"

text \<open>A permit belongs to a leased job and carries the owner and the expiry of its lease.\<close>

definition permit_of :: "job_permit \<Rightarrow> work_job \<Rightarrow> bool" where
  "permit_of p j = (job_id j = prm_job_id p \<and> job_status j = LEASED \<and>
     job_lease_owner j = prm_owner p \<and> job_lease_expires_at j = Some (prm_lease_expires_at p))"

definition permits_ok :: "work_job list \<Rightarrow> job_permit list \<Rightarrow> bool" where
  "permits_ok rs ps = (\<forall>p \<in> set ps. \<exists>j \<in> set rs. permit_of p j)"

text \<open>The units of a cycle that are still in active jobs.\<close>

definition job_weight :: "int \<Rightarrow> work_job \<Rightarrow> int" where
  "job_weight c j = (if active_in_cycle c j then job_logical_units j else 0)"

definition open_units :: "int \<Rightarrow> work_job list \<Rightarrow> int" where
  "open_units c rs = sum_list (map (job_weight c) rs)"

definition cycle_ok :: "work_job list \<Rightarrow> workload_cycle \<Rightarrow> bool" where
  "cycle_ok rs c = (cyc_total_units c = cyc_added_units c \<and>
     0 \<le> cyc_successful_units c \<and> 0 \<le> cyc_failed_units c \<and> 0 \<le> cyc_cancelled_units c \<and>
     cyc_successful_units c + cyc_failed_units c + cyc_cancelled_units c + open_units (cyc_id c) rs
       \<le> cyc_total_units c)"

definition cycles_ok :: "work_job list \<Rightarrow> workload_cycle list \<Rightarrow> int \<Rightarrow> bool" where
  "cycles_ok rs cs n =
     (distinct (map cyc_id cs) \<and> (\<forall>c \<in> set cs. cyc_id c < n \<and> cycle_ok rs c) \<and>
      (\<forall>c \<in> set cs. \<forall>e \<in> set cs. cyc_status c = CycleActive \<and> cyc_status e = CycleActive \<longrightarrow> c = e) \<and>
      (\<forall>c \<in> set cs. cyc_status c = CycleSettled \<longrightarrow> \<not> list_ex (active_in_cycle (cyc_id c)) rs) \<and>
      (\<forall>j \<in> set rs. \<forall>ci. job_cycle_id j = Some ci \<longrightarrow> ci < n))"

definition queue_inv :: "db \<Rightarrow> bool" where
  "queue_inv d = (rows_ok (jobs d) (job_seq d) \<and> unique_ok (jobs d) \<and>
     permits_ok (jobs d) (permits d) \<and> cycles_ok (jobs d) (cycles d) (cycle_seq d))"

lemmas invariant_defs [inv_defs] = rows_ok_def unique_ok_def permits_ok_def cycles_ok_def queue_inv_def

lemma queue_invI:
  "rows_ok (jobs d) (job_seq d) \<Longrightarrow> unique_ok (jobs d) \<Longrightarrow> permits_ok (jobs d) (permits d) \<Longrightarrow>
     cycles_ok (jobs d) (cycles d) (cycle_seq d) \<Longrightarrow> queue_inv d"
  by (simp add: queue_inv_def)

lemma queue_invD:
  assumes "queue_inv d"
  shows "rows_ok (jobs d) (job_seq d)" "unique_ok (jobs d)" "permits_ok (jobs d) (permits d)"
    "cycles_ok (jobs d) (cycles d) (cycle_seq d)"
  using assms by (simp_all add: queue_inv_def)

lemma queue_inv_empty: "queue_inv empty_db"
  by (simp add: inv_defs empty_db_def)

subsection \<open>Rows\<close>

lemma rows_ok_distinct: "rows_ok rs n \<Longrightarrow> distinct (map job_id rs)"
  by (simp add: rows_ok_def)

lemma rows_ok_job: "rows_ok rs n \<Longrightarrow> j \<in> set rs \<Longrightarrow> job_ok j"
  by (simp add: rows_ok_def)

lemma rows_ok_find: "rows_ok rs n \<Longrightarrow> j \<in> set rs \<Longrightarrow> get_row job_id (job_id j) rs = Some j"
  by (simp add: rows_ok_def get_row_distinct)

lemma rows_ok_eq: "rows_ok rs n \<Longrightarrow> j \<in> set rs \<Longrightarrow> k \<in> set rs \<Longrightarrow> job_id j = job_id k \<Longrightarrow> j = k"
  by (metis rows_ok_find option.inject)

lemma find_job_in: "get_row job_id i rs = Some j \<Longrightarrow> j \<in> set rs \<and> job_id j = i"
  by (rule get_row_SomeD)

lemma rows_ok_put: "rows_ok rs n \<Longrightarrow> job_ok j' \<Longrightarrow> rows_ok (put_row job_id j' rs) n"
  by (auto simp: rows_ok_def set_put_row split: if_splits)

lemma rows_ok_snoc:
  "rows_ok rs n \<Longrightarrow> job_ok j \<Longrightarrow> job_id j = n \<Longrightarrow> rows_ok (rs @ [j]) (n + 1)"
  by (fastforce simp: rows_ok_def)

subsection \<open>Unique indexes\<close>

definition same_key :: "work_job \<Rightarrow> work_job \<Rightarrow> bool" where
  "same_key j j' = (job_id j' = job_id j \<and> job_kind_of j' = job_kind_of j \<and>
     job_dedupe_key j' = job_dedupe_key j \<and> job_series_key j' = job_series_key j)"

lemma clash_sym: "dedupe_clash j k = dedupe_clash k j" "repair_clash j k = repair_clash k j"
  by (auto simp: dedupe_clash_def repair_clash_def)

text \<open>One new row that clashes with no other row keeps the indexes unique.\<close>

lemma unique_ok_set:
  assumes u: "unique_ok rs" and sub: "set rs' \<subseteq> insert j' {x \<in> set rs. job_id x \<noteq> job_id j'}"
    and one: "\<And>x. x \<in> set rs \<Longrightarrow> job_id x \<noteq> job_id j' \<Longrightarrow> \<not> dedupe_clash j' x \<and> \<not> repair_clash j' x"
  shows "unique_ok rs'"
proof -
  have two: "\<not> dedupe_clash x j' \<and> \<not> repair_clash x j'"
    if "x \<in> set rs" "job_id x \<noteq> job_id j'" for x
    using one [OF that] clash_sym by metis
  show ?thesis
    unfolding unique_ok_def
  proof (intro ballI impI)
    fix x y
    assume "x \<in> set rs'" "y \<in> set rs'" and ne: "job_id x \<noteq> job_id y"
    with sub have "x = j' \<or> x \<in> set rs \<and> job_id x \<noteq> job_id j'"
      and "y = j' \<or> y \<in> set rs \<and> job_id y \<noteq> job_id j'" by auto
    then show "\<not> dedupe_clash x y \<and> \<not> repair_clash x y"
      using one two u ne unfolding unique_ok_def by blast
  qed
qed

lemma set_put_row_subset: "set (put_row job_id j' rs) \<subseteq> insert j' {x \<in> set rs. job_id x \<noteq> job_id j'}"
  by (auto simp: set_put_row)

lemma unique_ok_put:
  assumes u: "unique_ok rs" and j: "j \<in> set rs" and k: "same_key j j'"
    and act: "is_active j' \<Longrightarrow> is_active j"
    and lea: "leased_repair j' \<Longrightarrow> leased_repair j"
  shows "unique_ok (put_row job_id j' rs)"
proof (rule unique_ok_set [OF u set_put_row_subset])
  fix x
  assume "x \<in> set rs" "job_id x \<noteq> job_id j'"
  then have "\<not> dedupe_clash j x \<and> \<not> repair_clash j x"
    using u j k by (auto simp: unique_ok_def same_key_def)
  then show "\<not> dedupe_clash j' x \<and> \<not> repair_clash j' x"
    using k act lea unfolding dedupe_clash_def repair_clash_def same_key_def by metis
qed

lemma flush_ok_no_clash:
  "flush_ok j' rs \<Longrightarrow> x \<in> set rs \<Longrightarrow> job_id x \<noteq> job_id j' \<Longrightarrow> \<not> dedupe_clash j' x \<and> \<not> repair_clash j' x"
  by (auto simp: flush_ok_def list_all_iff)

lemma unique_ok_flush:
  "unique_ok rs \<Longrightarrow> flush_ok j' rs \<Longrightarrow> unique_ok (put_row job_id j' rs)"
  by (rule unique_ok_set [OF _ set_put_row_subset]) (auto dest: flush_ok_no_clash)

lemma unique_ok_snoc:
  assumes "unique_ok rs" "flush_ok j rs" "\<forall>x \<in> set rs. job_id x \<noteq> job_id j"
  shows "unique_ok (rs @ [j])"
  using assms(1)
  by (rule unique_ok_set [where j' = j]) (use assms in \<open>auto dest: flush_ok_no_clash\<close>)

subsection \<open>Permits\<close>

lemma permits_ok_put_release:
  "permits_ok rs ps \<Longrightarrow> permits_ok (put_row job_id j' rs) (filter (\<lambda>p. prm_job_id p \<noteq> job_id j') ps)"
  by (fastforce simp: permits_ok_def permit_of_def intro: in_put_row_other)

definition same_lease :: "work_job \<Rightarrow> work_job \<Rightarrow> bool" where
  "same_lease j j' = (job_status j = LEASED \<longrightarrow> job_status j' = LEASED \<and>
     job_lease_owner j' = job_lease_owner j \<and> job_lease_expires_at j' = job_lease_expires_at j)"

lemma permits_ok_put_keep:
  assumes ps: "permits_ok rs ps" and r: "rows_ok rs n" and j: "j \<in> set rs"
    and same: "job_id j' = job_id j" "same_lease j j'"
  shows "permits_ok (put_row job_id j' rs) ps"
proof -
  have "\<exists>k \<in> set (put_row job_id j' rs). permit_of p k" if "p \<in> set ps" for p
  proof -
    from ps that obtain k where k: "k \<in> set rs" "permit_of p k"
      by (auto simp: permits_ok_def)
    show ?thesis
    proof (cases "job_id k = job_id j")
      case True
      with r j k(1) have kj: "k = j" by (metis rows_ok_eq)
      then have "permit_of p j'"
        using k(2) same by (simp add: permit_of_def same_lease_def)
      then show ?thesis using j same by (metis in_put_rowI)
    next
      case False
      then show ?thesis using k same by (metis in_put_row_other)
    qed
  qed
  then show ?thesis by (simp add: permits_ok_def)
qed

lemma permits_ok_append_job: "permits_ok rs ps \<Longrightarrow> permits_ok (rs @ [j]) ps"
  by (auto simp: permits_ok_def)

lemma permits_ok_filter: "permits_ok rs ps \<Longrightarrow> permits_ok rs (filter P ps)"
  by (auto simp: permits_ok_def)

subsection \<open>Cycles\<close>

lemma open_units_put:
  assumes "rows_ok rs n" and "get_row job_id (job_id j') rs = Some j"
  shows "open_units c (put_row job_id j' rs) = open_units c rs - job_weight c j + job_weight c j'"
  unfolding open_units_def using assms by (intro sum_put_row) (auto simp: rows_ok_def)

lemma open_units_snoc: "open_units c (rs @ [j]) = open_units c rs + job_weight c j"
  by (simp add: open_units_def)

lemma open_units_none: "\<not> list_ex (active_in_cycle c) rs \<Longrightarrow> open_units c rs = 0"
  by (induction rs) (auto simp: open_units_def job_weight_def)

text \<open>A row change that adds no open unit keeps every cycle as it is.\<close>

definition no_new_units :: "work_job \<Rightarrow> work_job \<Rightarrow> bool" where
  "no_new_units j j' = (job_id j' = job_id j \<and> job_cycle_id j' = job_cycle_id j \<and>
     (is_active j' \<longrightarrow> is_active j \<and> job_logical_units j' \<le> job_logical_units j))"

lemma cycles_ok_mono:
  assumes c: "cycles_ok rs cs m" and le: "\<And>x. open_units x rs' \<le> open_units x rs"
    and ex: "\<And>x. list_ex (active_in_cycle x) rs' \<Longrightarrow> list_ex (active_in_cycle x) rs"
    and ids: "\<forall>k \<in> set rs'. \<forall>ci. job_cycle_id k = Some ci \<longrightarrow> ci < m"
  shows "cycles_ok rs' cs m"
proof -
  have "cycle_ok rs c \<Longrightarrow> cycle_ok rs' c" for c
    using le [of "cyc_id c"] by (simp add: cycle_ok_def)
  then show ?thesis using c ex ids unfolding cycles_ok_def by blast
qed

lemma cycles_ok_put:
  assumes c: "cycles_ok rs cs m" and r: "rows_ok rs n" and j: "j \<in> set rs"
    and nn: "no_new_units j j'"
  shows "cycles_ok (put_row job_id j' rs) cs m"
proof (rule cycles_ok_mono [OF c])
  have "0 \<le> job_logical_units j"
    using r j by (auto simp: rows_ok_def job_ok_def dest!: bspec)
  then have w: "job_weight x j' \<le> job_weight x j" for x
    using nn by (auto simp: job_weight_def active_in_cycle_def no_new_units_def)
  have g: "get_row job_id (job_id j') rs = Some j"
    using r j nn by (simp add: rows_ok_find no_new_units_def)
  show "open_units x (put_row job_id j' rs) \<le> open_units x rs" for x
    using open_units_put [OF r g, of x] w [of x] by simp
  show "list_ex (active_in_cycle x) (put_row job_id j' rs) \<Longrightarrow> list_ex (active_in_cycle x) rs" for x
    using j nn by (fastforce simp: list_ex_iff set_put_row active_in_cycle_def no_new_units_def
        split: if_splits)
  show "\<forall>k \<in> set (put_row job_id j' rs). \<forall>ci. job_cycle_id k = Some ci \<longrightarrow> ci < m"
    using c j nn by (auto simp: cycles_ok_def no_new_units_def dest!: in_put_rowD)
qed

text \<open>Changing rows together with the one cycle \<open>c2\<close> they belong to.\<close>

lemma cycles_ok_update:
  assumes c: "cycles_ok rs cs m"
    and others: "\<And>x. x \<noteq> cyc_id c2 \<Longrightarrow> open_units x rs' \<le> open_units x rs"
    and act: "\<And>x. x \<noteq> cyc_id c2 \<Longrightarrow> list_ex (active_in_cycle x) rs' \<Longrightarrow> list_ex (active_in_cycle x) rs"
    and ids: "\<forall>k \<in> set rs'. \<forall>ci. job_cycle_id k = Some ci \<longrightarrow> ci < m"
    and old: "c1 \<in> set cs" "cyc_id c2 = cyc_id c1"
    and new: "cycle_ok rs' c2" "cyc_status c2 = CycleActive \<Longrightarrow> cyc_status c1 = CycleActive"
      "cyc_status c2 = CycleSettled \<Longrightarrow> \<not> list_ex (active_in_cycle (cyc_id c2)) rs'"
  shows "cycles_ok rs' (put_row cyc_id c2 cs) m"
proof -
  have ok: "cycle_ok rs' x" if "x \<in> set cs" "cyc_id x \<noteq> cyc_id c2" for x
    using c that others [of "cyc_id x"] by (fastforce simp: cycles_ok_def cycle_ok_def)
  have set: "x = c2 \<or> x \<in> set cs \<and> cyc_id x \<noteq> cyc_id c2" if "x \<in> set (put_row cyc_id c2 cs)" for x
    using that by (rule in_put_rowD)
  have uniq: "x = y" if "x \<in> set cs" "y \<in> set cs" "cyc_status x = CycleActive" "cyc_status y = CycleActive" for x y
    using c that by (auto simp: cycles_ok_def)
  have A: "\<forall>x \<in> set (put_row cyc_id c2 cs). cyc_id x < m \<and> cycle_ok rs' x"
  proof
    fix x
    assume "x \<in> set (put_row cyc_id c2 cs)"
    moreover have "cyc_id z < m" if "z \<in> set cs" for z using c that by (simp add: cycles_ok_def)
    ultimately show "cyc_id x < m \<and> cycle_ok rs' x"
      using set [of x] ok [of x] new(1) old by auto
  qed
  have B: "x = y" if "x \<in> set (put_row cyc_id c2 cs)" "y \<in> set (put_row cyc_id c2 cs)"
    "cyc_status x = CycleActive" "cyc_status y = CycleActive" for x y
  proof -
    have same: "c1 = z" if "z \<in> set cs" "cyc_status z = CycleActive" "cyc_status c2 = CycleActive" for z
      using uniq [OF old(1) that(1) new(2) that(2)] that(3) by simp
    from set [OF that(1)] set [OF that(2)] show ?thesis
      using same [of x] same [of y] uniq [of x y] old(2) that(3,4) by auto
  qed
  have C: "\<not> list_ex (active_in_cycle (cyc_id x)) rs'"
    if "x \<in> set (put_row cyc_id c2 cs)" "cyc_status x = CycleSettled" for x
    using set [OF that(1)] act [of "cyc_id x"] new(3) that(2) c by (auto simp: cycles_ok_def)
  have D: "distinct (map cyc_id (put_row cyc_id c2 cs))"
    using c by (simp add: cycles_ok_def)
  show ?thesis unfolding cycles_ok_def using A B C D ids by blast
qed

text \<open>A job ends: its units move from the open ones to the counter of its outcome.\<close>

definition ends_as :: "work_job \<Rightarrow> work_job \<Rightarrow> bool" where
  "ends_as j j' = (is_active j \<and> \<not> is_active j' \<and> job_id j' = job_id j \<and>
     job_cycle_id j' = job_cycle_id j \<and> job_logical_units j' = job_logical_units j)"

lemma cycle_units_count:
  "cyc_id (count_units st u c) = cyc_id c" "cyc_status (count_units st u c) = cyc_status c"
  "cyc_total_units (count_units st u c) = cyc_total_units c"
  "cyc_added_units (count_units st u c) = cyc_added_units c"
  by (simp_all add: count_units_def)

lemma cycle_ok_count:
  assumes "cycle_ok rs c" and "st \<in> {SUCCEEDED, FAILED, CANCELLED}" and "0 \<le> u"
    and "open_units (cyc_id c) rs' + u \<le> open_units (cyc_id c) rs"
  shows "cycle_ok rs' (count_units st u c)"
  using assms by (auto simp: cycle_ok_def count_units_def)

lemma cycle_ok_cong:
  "cyc_id c' = cyc_id c \<Longrightarrow> cyc_total_units c' = cyc_total_units c \<Longrightarrow> cyc_added_units c' = cyc_added_units c \<Longrightarrow>
   cyc_successful_units c' = cyc_successful_units c \<Longrightarrow> cyc_failed_units c' = cyc_failed_units c \<Longrightarrow>
   cyc_cancelled_units c' = cyc_cancelled_units c \<Longrightarrow> cycle_ok rs c' = cycle_ok rs c"
  by (simp add: cycle_ok_def)

lemma cycles_ok_terminal:
  assumes c: "cycles_ok rs cs m" and r: "rows_ok rs n" and j: "j \<in> set rs"
    and e: "ends_as j j'" and st: "st \<in> {SUCCEEDED, FAILED, CANCELLED}"
    and d: "cycles d = cs"
    and seen: "\<And>k ci. k \<in> set rs \<Longrightarrow> job_id k \<noteq> job_id j' \<Longrightarrow> active_in_cycle ci k \<Longrightarrow>
      \<exists>x \<in> set stored. job_id x = job_id k \<and> active_in_cycle ci x"
  shows "cycles_ok (put_row job_id j' rs) (cycles (record_terminal_units_in stored j' st now d)) m"
proof -
  let ?rs = "put_row job_id j' rs"
  have nn: "no_new_units j j'" using e by (simp add: ends_as_def no_new_units_def)
  have base: "cycles_ok ?rs cs m" by (rule cycles_ok_put [OF c r j nn])
  have g: "get_row job_id (job_id j') rs = Some j"
    using r j e by (simp add: rows_ok_find ends_as_def)
  have u1: "1 \<le> job_logical_units j'"
    using r j e by (auto simp: rows_ok_def job_ok_def ends_as_def dest!: bspec)
  show ?thesis
  proof (cases "job_cycle_id j'")
    case None
    then show ?thesis using base d by (simp add: record_terminal_units_in_def)
  next
    case (Some ci)
    show ?thesis
    proof (cases "find_cycle ci d")
      case None
      then show ?thesis using base d Some by (simp add: record_terminal_units_in_def)
    next
      case (Some cy)
      then have cy: "cy \<in> set cs" "cyc_id cy = ci" using d by (auto dest: get_row_SomeD)
      let ?u = "max (job_logical_units j') 1"
      let ?c1 = "(count_units st ?u cy)\<lparr>cyc_updated_at := now\<rparr>"
      let ?rem = "list_ex (\<lambda>k. active_in_cycle (cyc_id cy) k \<and> job_id k \<noteq> job_id j') stored"
      let ?c2 = "if ?rem then ?c1 else ?c1\<lparr>cyc_status := CycleSettled, cyc_settled_at := Some now\<rparr>"
      have eq: "cycles (record_terminal_units_in stored j' st now d) = put_row cyc_id ?c2 cs"
        using Some \<open>job_cycle_id j' = Some ci\<close> d by (simp add: record_terminal_units_in_def Let_def)
      have "open_units ci ?rs = open_units ci rs - job_logical_units j"
        using open_units_put [OF r g, of ci] e \<open>job_cycle_id j' = Some ci\<close>
        by (simp add: job_weight_def active_in_cycle_def ends_as_def del: is_active_iff)
      then have "open_units (cyc_id cy) ?rs + ?u \<le> open_units (cyc_id cy) rs"
        using u1 e cy by (simp add: ends_as_def max_def)
      then have "cycle_ok ?rs (count_units st ?u cy)"
        using c cy st by (intro cycle_ok_count) (auto simp: cycles_ok_def)
      then have ok2: "cycle_ok ?rs ?c2" by (subst cycle_ok_cong [of _ "count_units st ?u cy"]) auto
      have gone: "\<not> active_in_cycle x j'" for x
        using e by (simp add: active_in_cycle_def ends_as_def del: is_active_iff)
      have rem: "?rem" if ex: "list_ex (active_in_cycle ci) ?rs"
      proof -
        obtain k where k: "k \<in> set ?rs" "active_in_cycle ci k" using ex by (auto simp: list_ex_iff)
        then have "k \<in> set rs \<and> job_id k \<noteq> job_id j'" using gone by (auto dest: in_put_rowD)
        then show ?thesis using seen [of k ci] k(2) cy by (fastforce simp: list_ex_iff)
      qed
      show ?thesis
        unfolding eq
      proof (rule cycles_ok_update [OF base _ _ _ cy(1)])
        show "\<forall>k\<in>set ?rs. \<forall>ci. job_cycle_id k = Some ci \<longrightarrow> ci < m"
          using base by (simp add: cycles_ok_def)
        show "cyc_status ?c2 = CycleActive \<Longrightarrow> cyc_status cy = CycleActive"
          by (simp add: cycle_units_count split: if_splits)
        show "cyc_status ?c2 = CycleSettled \<Longrightarrow> \<not> list_ex (active_in_cycle (cyc_id ?c2)) ?rs"
          using base cy rem unfolding cycles_ok_def
          by (auto simp: cycle_units_count split: if_splits)
      qed (use ok2 in \<open>simp_all add: cycle_units_count\<close>)
    qed
  qed
qed

text \<open>A job grows by at most \<open>n\<close> units, which its cycle receives too.\<close>

definition grows_by :: "int \<Rightarrow> work_job \<Rightarrow> work_job \<Rightarrow> bool" where
  "grows_by n j j' = (0 \<le> n \<and> job_id j' = job_id j \<and> job_cycle_id j' = job_cycle_id j \<and>
     is_active j \<and> job_logical_units j' \<le> job_logical_units j + n)"

lemma cycles_ok_grow:
  assumes c: "cycles_ok rs cs m" and r: "rows_ok rs n" and j: "j \<in> set rs"
    and gr: "grows_by u j j'" and d: "jobs d = put_row job_id j' rs" "cycles d = cs"
  shows "cycles_ok (put_row job_id j' rs) (cycles (add_cycle_units now u (job_cycle_id j') d)) m"
proof -
  let ?rs = "put_row job_id j' rs"
  have g: "get_row job_id (job_id j') rs = Some j"
    using r j gr by (simp add: rows_ok_find grows_by_def)
  have pos: "0 \<le> job_logical_units j" using r j by (auto simp: rows_ok_def job_ok_def dest!: bspec)
  have other: "open_units x ?rs \<le> open_units x rs" if "job_cycle_id j' \<noteq> Some x" for x
    using open_units_put [OF r g, of x] gr that
    by (simp add: job_weight_def active_in_cycle_def grows_by_def)
  have act: "list_ex (active_in_cycle x) ?rs \<Longrightarrow> list_ex (active_in_cycle x) rs" for x
    using j gr by (fastforce simp: list_ex_iff set_put_row active_in_cycle_def grows_by_def
        split: if_splits)
  have ids: "\<forall>k\<in>set ?rs. \<forall>ci. job_cycle_id k = Some ci \<longrightarrow> ci < m"
    using c j gr by (auto simp: cycles_ok_def grows_by_def dest!: in_put_rowD)
  show ?thesis
  proof (cases "\<exists>ci cy. job_cycle_id j' = Some ci \<and> find_cycle ci d = Some cy")
    case False
    then have none: "x \<in> set cs \<Longrightarrow> job_cycle_id j' \<noteq> Some (cyc_id x)" for x
      using d by (metis get_row_None_iff not_None_eq)
    have "cycles (add_cycle_units now u (job_cycle_id j') d) = cs"
      using False d by (auto simp: add_cycle_units_def split: option.splits)
    moreover have "cycle_ok ?rs x" if "x \<in> set cs" for x
      using c that other [OF none [OF that]] by (fastforce simp: cycles_ok_def cycle_ok_def)
    ultimately show ?thesis using c act ids by (simp add: cycles_ok_def) blast
  next
    case True
    then obtain ci cy where ci: "job_cycle_id j' = Some ci" and f: "find_cycle ci d = Some cy" by blast
    then have cy: "cy \<in> set cs" "cyc_id cy = ci" using d by (auto dest: get_row_SomeD)
    let ?c2 = "cy\<lparr>cyc_total_units := cyc_total_units cy + u, cyc_added_units := cyc_added_units cy + u,
                 cyc_updated_at := now\<rparr>"
    have eq: "cycles (add_cycle_units now u (job_cycle_id j') d) = put_row cyc_id ?c2 cs"
      using ci f d by (simp add: add_cycle_units_def)
    have "job_weight ci j' \<le> job_weight ci j + u"
      using gr ci pos by (auto simp: job_weight_def active_in_cycle_def grows_by_def)
    then have "open_units ci ?rs \<le> open_units ci rs + u"
      using open_units_put [OF r g, of ci] by simp
    then have ok2: "cycle_ok ?rs ?c2"
      using c cy by (fastforce simp: cycles_ok_def cycle_ok_def)
    show ?thesis
      unfolding eq
    proof (rule cycles_ok_update [OF c _ _ ids cy(1)])
      show "cyc_status ?c2 = CycleSettled \<Longrightarrow> \<not> list_ex (active_in_cycle (cyc_id ?c2)) ?rs"
        using c cy act by (auto simp: cycles_ok_def)
    qed (use ok2 other act ci cy in \<open>simp_all\<close>)
  qed
qed

end
