(* ===== verification/Queue_Preservation.thy ===== *)
theory Queue_Preservation
  imports Queue_Invariants
begin

text \<open>
  Every operation of the queue keeps the invariant.  Three rules cover the row changes: the row
  keeps its lease, it loses its lease (and its permits), or it ends (and its cycle is credited).
\<close>

subsection \<open>Three kinds of row change\<close>

lemma inv_keep_row:
  assumes inv: "queue_inv d" and j: "j \<in> set (jobs d)" and ok: "job_ok j'"
    and key: "same_key j j'" and lease: "same_lease j j'" "leased_repair j' \<Longrightarrow> leased_repair j"
    and units: "no_new_units j j'"
  shows "queue_inv (put_job j' d)"
proof (rule queue_invI)
  note I = queue_invD [OF inv]
  have id: "job_id j' = job_id j" using units by (simp add: no_new_units_def)
  have act: "is_active j' \<Longrightarrow> is_active j" using units by (simp add: no_new_units_def)
  show "rows_ok (jobs (put_job j' d)) (job_seq (put_job j' d))" using I(1) ok by (simp add: rows_ok_put)
  show "unique_ok (jobs (put_job j' d))"
    using unique_ok_put [OF I(2) j key act lease(2)] by simp
  show "permits_ok (jobs (put_job j' d)) (permits (put_job j' d))"
    using permits_ok_put_keep [OF I(3) I(1) j id lease(1)] by simp
  show "cycles_ok (jobs (put_job j' d)) (cycles (put_job j' d)) (cycle_seq (put_job j' d))"
    using cycles_ok_put [OF I(4) I(1) j units] by simp
qed

lemma inv_drop_row:
  assumes inv: "queue_inv d" and j: "j \<in> set (jobs d)" and i: "i = job_id j'" and ok: "job_ok j'"
    and key: "same_key j j'" and lease: "leased_repair j' \<Longrightarrow> leased_repair j"
    and units: "no_new_units j j'"
  shows "queue_inv (release_permits i (put_job j' d))"
proof (rule queue_invI)
  note I = queue_invD [OF inv]
  let ?d = "release_permits i (put_job j' d)"
  have act: "is_active j' \<Longrightarrow> is_active j" using units by (simp add: no_new_units_def)
  show "rows_ok (jobs ?d) (job_seq ?d)" using I(1) ok by (simp add: rows_ok_put)
  show "unique_ok (jobs ?d)" using unique_ok_put [OF I(2) j key act lease] by simp
  show "permits_ok (jobs ?d) (permits ?d)" using permits_ok_put_release [OF I(3)] i by simp
  show "cycles_ok (jobs ?d) (cycles ?d) (cycle_seq ?d)" using cycles_ok_put [OF I(4) I(1) j units] by simp
qed

lemma inv_end_row_in:
  assumes inv: "queue_inv d" and j: "j \<in> set (jobs d)" and ok: "job_ok j'"
    and key: "same_key j j'" and e: "ends_as j j'" and st: "st \<in> {SUCCEEDED, FAILED, CANCELLED}"
    and d1: "jobs d1 = put_row job_id j' (jobs d)" "job_seq d1 = job_seq d"
      "permits d1 = filter (\<lambda>p. prm_job_id p \<noteq> job_id j') (permits d)" "cycles d1 = cycles d"
      "cycle_seq d1 = cycle_seq d"
    and seen: "\<And>k ci. k \<in> set (jobs d) \<Longrightarrow> job_id k \<noteq> job_id j' \<Longrightarrow> active_in_cycle ci k \<Longrightarrow>
      \<exists>x \<in> set stored. job_id x = job_id k \<and> active_in_cycle ci x"
  shows "queue_inv (record_terminal_units_in stored j' st now d1)"
proof (rule queue_invI)
  note I = queue_invD [OF inv]
  have na: "\<not> is_active j'" using e by (simp add: ends_as_def del: is_active_iff)
  show "rows_ok (jobs (record_terminal_units_in stored j' st now d1)) (job_seq (record_terminal_units_in stored j' st now d1))"
    using I(1) ok d1 by (simp add: rows_ok_put)
  show "unique_ok (jobs (record_terminal_units_in stored j' st now d1))"
    using na unique_ok_put [OF I(2) j key] d1 by (simp add: leased_repair_def)
  show "permits_ok (jobs (record_terminal_units_in stored j' st now d1)) (permits (record_terminal_units_in stored j' st now d1))"
    using permits_ok_put_release [OF I(3)] d1 by simp
  show "cycles_ok (jobs (record_terminal_units_in stored j' st now d1)) (cycles (record_terminal_units_in stored j' st now d1))
     (cycle_seq (record_terminal_units_in stored j' st now d1))"
    using cycles_ok_terminal [OF I(4) I(1) j e st d1(4) seen] d1 by simp
qed

lemma inv_end_row:
  assumes inv: "queue_inv d" and j: "j \<in> set (jobs d)" and ok: "job_ok j'"
    and key: "same_key j j'" and e: "ends_as j j'" and st: "st \<in> {SUCCEEDED, FAILED, CANCELLED}"
    and d1: "jobs d1 = put_row job_id j' (jobs d)" "job_seq d1 = job_seq d"
      "permits d1 = filter (\<lambda>p. prm_job_id p \<noteq> job_id j') (permits d)" "cycles d1 = cycles d"
      "cycle_seq d1 = cycle_seq d"
  shows "queue_inv (record_terminal_units j' st now d1)"
  unfolding record_terminal_units_def
  by (rule inv_end_row_in [OF inv j ok key e st d1]) (auto simp: d1(1) intro: in_put_row_other)

lemmas row_change_defs = same_key_def same_lease_def no_new_units_def ends_as_def leased_repair_def
  job_ok_def job_checks_def drop_lease_def

lemma queue_inv_cong:
  "jobs d' = jobs d \<Longrightarrow> job_seq d' = job_seq d \<Longrightarrow> permits d' = permits d \<Longrightarrow> cycles d' = cycles d \<Longrightarrow>
   cycle_seq d' = cycle_seq d \<Longrightarrow> queue_inv d' = queue_inv d"
  by (simp add: queue_inv_def)

lemma queue_inv_notify [simp]: "queue_inv (notify_workers p d) = queue_inv d"
  by (rule queue_inv_cong) simp_all

lemma queue_inv_event [simp]: "queue_inv (record_event j ty ow m dt d) = queue_inv d"
  by (rule queue_inv_cong) simp_all

lemma queue_inv_job_ok: "queue_inv d \<Longrightarrow> j \<in> set (jobs d) \<Longrightarrow> job_ok j"
  by (auto simp: queue_inv_def rows_ok_def)

lemma queue_inv_find: "queue_inv d \<Longrightarrow> j \<in> set (jobs d) \<Longrightarrow> find_job (job_id j) d = Some j"
  by (auto simp: queue_inv_def intro: rows_ok_find)

text \<open>A step applied to several rows, each of which it finds as it was.\<close>

lemma fold_rows_inv:
  assumes "\<And>j d. queue_inv d \<Longrightarrow> j \<in> set (jobs d) \<Longrightarrow> P j \<Longrightarrow> queue_inv (f j d)"
    and other: "\<And>j k d. k \<in> set (jobs d) \<Longrightarrow> job_id k \<noteq> job_id j \<Longrightarrow> k \<in> set (jobs (f j d))"
  shows "queue_inv d \<Longrightarrow> distinct (map job_id rows) \<Longrightarrow> set rows \<subseteq> set (jobs d) \<Longrightarrow>
     \<forall>j \<in> set rows. P j \<Longrightarrow> queue_inv (fold f rows d)"
proof (induction rows arbitrary: d)
  case Nil
  then show ?case by simp
next
  case (Cons j rows)
  have "queue_inv (f j d)" using Cons.prems by (intro assms(1)) simp_all
  moreover have "set rows \<subseteq> set (jobs (f j d))"
  proof
    fix k
    assume k: "k \<in> set rows"
    then have "job_id k \<noteq> job_id j" using Cons.prems(2) by (metis distinct.simps(2) imageI list.set_map list.simps(9))
    moreover have "k \<in> set (jobs d)" using Cons.prems(3) k by auto
    ultimately show "k \<in> set (jobs (f j d))" by (rule other [rotated])
  qed
  moreover have "distinct (map job_id rows)" "\<forall>j \<in> set rows. P j"
    using Cons.prems by simp_all
  ultimately show ?case using Cons.IH by (simp only: fold_Cons o_apply)
qed

lemma queue_inv_filter_distinct: "queue_inv d \<Longrightarrow> distinct (map job_id (filter P (jobs d)))"
  by (simp add: queue_inv_def rows_ok_def distinct_map_filter)

subsection \<open>Lifecycle operations\<close>

lemma owned_jobD:
  "owned_job i ow d = Some j \<Longrightarrow>
     j \<in> set (jobs d) \<and> job_id j = i \<and> job_status j = LEASED \<and> job_lease_owner j = ow"
  by (auto simp: owned_job_def dest: find_job_in split: option.splits if_splits)

lemma held_jobD:
  "held_job now i ow d = Some j \<Longrightarrow>
     j \<in> set (jobs d) \<and> job_id j = i \<and> job_status j = LEASED \<and> job_lease_owner j = ow \<and> live_lease now j"
  by (auto simp: held_job_def dest: owned_jobD split: option.splits if_splits)

lemma release_inv: "queue_inv d \<Longrightarrow> queue_inv (snd (release now i ow r d))"
proof (cases "owned_job i ow d")
  case (Some j)
  assume inv: "queue_inv d"
  from Some have j: "j \<in> set (jobs d)" "job_status j = LEASED" by (auto dest: owned_jobD)
  then have "job_ok j" using inv by (blast intro: queue_inv_job_ok)
  then show ?thesis
    using j by (simp add: release_def Some Let_def)
      (rule inv_drop_row [OF inv j(1)], auto simp: row_change_defs)
qed (simp add: release_def)

lemma defer_inv: "queue_inv d \<Longrightarrow> queue_inv (snd (defer_job now i ow t c m d))"
proof (cases "owned_job i ow d")
  case (Some j)
  assume inv: "queue_inv d"
  from Some have j: "j \<in> set (jobs d)" "job_status j = LEASED" by (auto dest: owned_jobD)
  then have "job_ok j" using inv by (blast intro: queue_inv_job_ok)
  then show ?thesis
    using j by (simp add: defer_job_def Some Let_def)
      (rule inv_drop_row [OF inv j(1)], auto simp: row_change_defs)
qed (simp add: defer_job_def)

lemma requeue_pending_inv:
  assumes inv: "queue_inv d" and j: "j \<in> set (jobs d)" "job_status j = LEASED"
  shows "queue_inv (requeue_pending now j ow d)"
  using j queue_inv_job_ok [OF inv j(1)]
  by (simp add: requeue_pending_def Let_def)
     (rule inv_drop_row [OF inv j(1)], auto simp: row_change_defs)

lemma finish_inv:
  assumes inv: "queue_inv d" and st: "st \<in> {SUCCEEDED, FAILED, CANCELLED}"
  shows "queue_inv (snd (finish now i ow st ev c m d))"
proof (cases "held_job now i ow d")
  case (Some j)
  then have j: "j \<in> set (jobs d)" "job_status j = LEASED" by (auto dest: held_jobD)
  show ?thesis
  proof (cases "st = SUCCEEDED \<and> job_pending_payload j \<noteq> fmempty")
    case True
    then show ?thesis using j Some inv by (simp add: finish_def requeue_pending_inv)
  next
    case False
    let ?j = "(drop_lease j)\<lparr>job_status := st, job_error_code := c, job_error_message := m,
                 job_updated_at := now, job_completed_at := Some now\<rparr>"
    have eq: "snd (finish now i ow st ev c m d) = record_terminal_units ?j st now
       (record_event ?j ev ow m (if c \<noteq> [] then fmap_of_list [(''error_code'', JStr c)] else fmempty)
          (release_permits (job_id ?j) (put_job ?j d)))"
      by (simp only: finish_def Some Let_def option.case if_not_P [OF False] snd_conv)
    have "job_ok j" using inv j by (blast intro: queue_inv_job_ok)
    then show ?thesis
      unfolding eq using j st by (intro inv_end_row [OF inv j(1)]) (auto simp: row_change_defs)
  qed
qed (simp add: finish_def assms)

lemma succeed_inv: "queue_inv d \<Longrightarrow> queue_inv (snd (succeed now i ow d))"
  unfolding succeed_def by (rule finish_inv) simp_all

lemma fail_inv: "queue_inv d \<Longrightarrow> queue_inv (snd (fail now i ow c m d))"
  unfolding fail_def by (rule finish_inv) simp_all

lemma retry_inv: "queue_inv d \<Longrightarrow> queue_inv (snd (retry now i ow t c m d))"
proof (cases "held_job now i ow d")
  case (Some j)
  assume inv: "queue_inv d"
  from Some have j: "j \<in> set (jobs d)" "job_status j = LEASED" by (auto dest: held_jobD)
  have ok: "job_ok j" using inv j by (blast intro: queue_inv_job_ok)
  show ?thesis
  proof (cases "job_max_attempts j \<le> job_attempts j")
    case True
    then show ?thesis
      using j ok by (simp add: retry_def Some Let_def)
        (rule inv_end_row [OF inv j(1)], auto simp: row_change_defs)
  next
    case False
    then show ?thesis
      using j ok by (simp add: retry_def Some Let_def)
        (rule inv_drop_row [OF inv j(1)], auto simp: row_change_defs)
  qed
qed (simp add: retry_def)

lemma cancel_inv: "queue_inv d \<Longrightarrow> queue_inv (snd (cancel now i r d))"
proof (cases "find_job i d")
  case (Some j)
  assume inv: "queue_inv d"
  from Some have j: "j \<in> set (jobs d)" by (auto dest: find_job_in)
  have ok: "job_ok j" using inv j by (blast intro: queue_inv_job_ok)
  show ?thesis
  proof (cases "is_active j")
    case True
    then show ?thesis
      using ok by (simp add: cancel_def Some Let_def del: is_active_iff)
        (rule inv_end_row [OF inv j], auto simp: row_change_defs)
  next
    case False
    then show ?thesis using inv by (simp add: cancel_def Some del: is_active_iff)
  qed
qed (simp add: cancel_def)

lemma reroute_inv:
  assumes inv: "queue_inv d" and res: "reroute mv now i ow p src t m dt d = Inr (b, d')"
  shows "queue_inv d'"
proof (cases "owned_job i ow d")
  case None
  then show ?thesis using res inv by (simp add: reroute_def)
next
  case (Some j)
  then have j: "j \<in> set (jobs d)" "job_status j = LEASED" by (auto dest: owned_jobD)
  have "job_ok j" using inv j by (blast intro: queue_inv_job_ok)
  with res j show ?thesis
    by (auto simp: reroute_def Some Let_def bind_result_eq_Inr)
       (rule inv_drop_row [OF inv j(1)], auto simp: row_change_defs)
qed

lemma reroute_waiting_inv:
  assumes inv: "queue_inv d" and res: "reroute_waiting mv now i p src t m dt d = Inr (b, d')"
  shows "queue_inv d'"
proof (cases "find_job i d")
  case None
  then show ?thesis using res inv by (simp add: reroute_waiting_def)
next
  case (Some j)
  then have j: "j \<in> set (jobs d)" by (auto dest: find_job_in)
  have "job_ok j" using inv j by (blast intro: queue_inv_job_ok)
  with res inv j show ?thesis
    by (auto simp: reroute_waiting_def Some Let_def bind_result_eq_Inr split: if_splits)
       (rule inv_keep_row [OF inv j(1)]; auto simp: row_change_defs)+
qed

lemma retry_now_inv: "queue_inv d \<Longrightarrow> queue_inv (snd (retry_now now i d))"
proof (cases "find_job i d")
  case (Some j)
  assume inv: "queue_inv d"
  from Some have j: "j \<in> set (jobs d)" by (auto dest: find_job_in)
  have "job_ok j" using inv j by (blast intro: queue_inv_job_ok)
  then show ?thesis
    using inv by (auto simp: retry_now_def Some Let_def)
      (rule inv_keep_row [OF inv j], auto simp: row_change_defs)
qed (simp add: retry_now_def)

lemma progress_inv: "queue_inv d \<Longrightarrow> queue_inv (snd (progress now i ow m p d))"
proof (cases "held_job now i ow d")
  case (Some j)
  assume inv: "queue_inv d"
  from Some have j: "j \<in> set (jobs d)" "job_status j = LEASED" by (auto dest: held_jobD)
  have "job_ok j" using inv j by (blast intro: queue_inv_job_ok)
  then have "queue_inv (put_job (progress_row now m p j) d)"
    using j by (intro inv_keep_row [OF inv j(1)]) (auto simp: row_change_defs progress_row_def)
  then show ?thesis by (simp add: progress_def Some Let_def)
qed (simp add: progress_def)

lemma heartbeat_inv:
  assumes inv: "queue_inv d" and res: "heartbeat now i ow lf d = Inr (b, d')"
  shows "queue_inv d'"
proof (cases "0 < lf \<and> held_job now i ow d \<noteq> None")
  case False
  then show ?thesis using res inv by (auto simp: heartbeat_def split: if_splits)
next
  case True
  then obtain j where h: "held_job now i ow d = Some j" by blast
  then have j: "j \<in> set (jobs d)" "job_id j = i" "job_status j = LEASED" "job_lease_owner j = ow"
    by (auto dest: held_jobD)
  note I = queue_invD [OF inv]
  let ?j = "j\<lparr>job_heartbeat_at := Some now, job_lease_expires_at := Some (now + lf), job_updated_at := now\<rparr>"
  let ?f = "\<lambda>p. if prm_job_id p = i \<and> prm_owner p = ow then p\<lparr>prm_lease_expires_at := now + lf\<rparr> else p"
  have d': "jobs d' = put_row job_id ?j (jobs d)" "permits d' = map ?f (permits d)"
    "job_seq d' = job_seq d" "cycles d' = cycles d" "cycle_seq d' = cycle_seq d"
    using res True h by (auto simp: heartbeat_def Let_def put_job_def)
  have ok: "job_ok ?j" using queue_inv_job_ok [OF inv j(1)] j(3) by (simp add: job_ok_def job_checks_def)
  show ?thesis
  proof (rule queue_invI)
    show "rows_ok (jobs d') (job_seq d')" using I(1) ok d' by (simp add: rows_ok_put)
    show "unique_ok (jobs d')"
      unfolding d' using j by (intro unique_ok_put [OF I(2) j(1)]) (auto simp: row_change_defs)
    show "cycles_ok (jobs d') (cycles d') (cycle_seq d')"
      unfolding d' by (rule cycles_ok_put [OF I(4) I(1) j(1)]) (simp add: no_new_units_def)
    show "permits_ok (jobs d') (permits d')"
      unfolding permits_ok_def
    proof
      fix q
      assume "q \<in> set (permits d')"
      then obtain p where p: "p \<in> set (permits d)" "q = ?f p" unfolding d' by auto
      from I(3) p(1) obtain k where k: "k \<in> set (jobs d)" "permit_of p k" by (auto simp: permits_ok_def)
      show "\<exists>k \<in> set (jobs d'). permit_of q k"
      proof (cases "prm_job_id p = i")
        case True
        then have "k = j" using k j I(1) by (metis permit_of_def rows_ok_eq)
        then have "permit_of q ?j" using k p True j by (simp add: permit_of_def)
        moreover have "?j \<in> set (jobs d')" unfolding d' using j(1) by (rule in_put_rowI) simp
        ultimately show ?thesis by blast
      next
        case False
        then have "permit_of q k" "job_id k \<noteq> job_id ?j" using k p j by (auto simp: permit_of_def)
        moreover have "k \<in> set (jobs d')" unfolding d' using k(1) calculation(2) by (rule in_put_row_other)
        ultimately show ?thesis by blast
      qed
    qed
  qed
qed

lemma resume_inv: "queue_inv d \<Longrightarrow> queue_inv (snd (resume_recovered_provider now src locked d))"
  unfolding resume_recovered_provider_def Let_def snd_conv
proof (rule fold_rows_inv [where P = "\<lambda>j. job_status j = RETRY_WAIT"])
  fix j d
  assume inv: "queue_inv d" and j: "j \<in> set (jobs d)" "job_status j = RETRY_WAIT"
  have "job_ok j" using inv j by (blast intro: queue_inv_job_ok)
  then show "queue_inv (resume_job now src j d)"
    using j by (simp add: resume_job_def Let_def)
      (rule inv_keep_row [OF inv j(1)], auto simp: row_change_defs)
qed (auto simp: resume_job_def Let_def outage_deferred_def queue_inv_filter_distinct in_put_row_other)

end
