(* ===== verification/Queue_Enqueue_Facts.thy ===== *)
theory Queue_Enqueue_Facts
  imports Queue_Preservation Queue_Enqueue
begin

text \<open>
  Enqueueing keeps the invariant, on both of its paths: coalescing into the active job of the
  same key, which may grow that job and its cycle by the same number of units, and inserting a
  new job into the active cycle.
\<close>

subsection \<open>Coalescing\<close>

lemma inv_grow_row:
  assumes inv: "queue_inv d" and j: "j \<in> set (jobs d)" and ok: "job_ok j'"
    and key: "same_key j j'" and lease: "same_lease j j'" "leased_repair j' \<Longrightarrow> leased_repair j"
    and gr: "grows_by n j j'"
  shows "queue_inv (add_cycle_units now n (job_cycle_id j') (put_job j' d))"
proof -
  note I = queue_invD [OF inv]
  let ?d = "add_cycle_units now n (job_cycle_id j') (put_job j' d)"
  have id: "job_id j' = job_id j" and act: "is_active j" using gr by (simp_all add: grows_by_def)
  have frame: "jobs ?d = put_row job_id j' (jobs d)" "job_seq ?d = job_seq d" "permits ?d = permits d"
    "cycle_seq ?d = cycle_seq d"
    by (simp_all add: add_cycle_units_def split: option.splits)
  show ?thesis
  proof (rule queue_invI)
    show "rows_ok (jobs ?d) (job_seq ?d)" unfolding frame using I(1) ok by (rule rows_ok_put)
    show "unique_ok (jobs ?d)" unfolding frame using I(2) j key act lease(2) by (intro unique_ok_put)
    show "permits_ok (jobs ?d) (permits ?d)" unfolding frame by (rule permits_ok_put_keep [OF I(3) I(1) j id lease(1)])
    show "cycles_ok (jobs ?d) (cycles ?d) (cycle_seq ?d)"
      unfolding frame by (rule cycles_ok_grow [OF I(4) I(1) j gr]) simp_all
  qed
qed

text \<open>What promotion and absorption leave of the row they change.\<close>

definition row_kept :: "work_job \<Rightarrow> work_job \<Rightarrow> bool" where
  "row_kept j j' = (same_key j j' \<and> job_status j' = job_status j \<and> job_lease_owner j' = job_lease_owner j \<and>
     job_lease_expires_at j' = job_lease_expires_at j \<and> job_cycle_id j' = job_cycle_id j)"

lemma row_kept_refl [simp]: "row_kept j j"
  by (simp add: row_kept_def same_key_def)

lemma row_kept_trans: "row_kept i j \<Longrightarrow> row_kept j k \<Longrightarrow> row_kept i k"
  by (simp add: row_kept_def same_key_def)

lemma row_keptD:
  assumes "row_kept j j'"
  shows "same_key j j'" "same_lease j j'" "leased_repair j' = leased_repair j" "is_active j' = is_active j"
    "job_id j' = job_id j" "job_cycle_id j' = job_cycle_id j"
  using assms by (simp_all add: row_kept_def same_key_def same_lease_def leased_repair_def)

lemma promote_kept:
  "row_kept e (promote now a e)" "job_ok e \<Longrightarrow> job_ok (promote now a e)"
  "job_logical_units (promote now a e) = job_logical_units e"
  "job_status (promote now a e) = job_status e"
  by (auto simp: promote_def Let_def row_kept_def same_key_def job_ok_def job_checks_def)

lemma absorb_kept:
  assumes "absorb now a r n e = (e2, m)"
  shows "row_kept e e2" "job_ok e \<Longrightarrow> job_ok e2"
    "job_logical_units e2 \<le> job_logical_units e + max m 0"
  using assms by (auto simp: absorb_def Let_def row_kept_def same_key_def job_ok_def job_checks_def
      split: if_splits)

lemma grow_or_keep_inv:
  assumes inv: "queue_inv d" and j: "j \<in> set (jobs d)" "is_active j" and ok: "job_ok j'" and k: "row_kept j j'"
    and u: "job_logical_units j' \<le> job_logical_units j + max m 0"
  shows "queue_inv (if 0 < m then add_cycle_units now m (job_cycle_id j') (put_job j' d) else put_job j' d)"
proof (cases "0 < m")
  case True
  then show ?thesis
    using inv_grow_row [OF inv j(1) ok] row_keptD [OF k] u j by (simp add: grows_by_def)
next
  case False
  then show ?thesis
    using inv_keep_row [OF inv j(1) ok] row_keptD [OF k] u j by (simp add: no_new_units_def)
qed

lemma coalesce_inv:
  assumes inv: "queue_inv d" and e: "e \<in> set (jobs d)" "is_active e"
  shows "queue_inv (snd (coalesce_job now a pool dump e d))"
proof (cases "merge_series e dump")
  case None
  then show ?thesis using inv by (simp add: coalesce_job_def)
next
  case (Some rn)
  obtain r n where rn: "rn = (r, n)" by (cases rn)
  define e1 where "e1 = (if acquisition_promotion e dump then promote now a e else e)"
  define d1 where "d1 = (if acquisition_promotion e dump then notify_workers pool d else d)"
  obtain e2 m where e2: "absorb now a r n e1 = (e2, m)" by (cases "absorb now a r n e1")
  have "job_ok e" using inv e by (blast intro: queue_inv_job_ok)
  then have e1: "row_kept e e1" "job_ok e1" "job_logical_units e1 = job_logical_units e"
    by (simp_all add: e1_def promote_kept row_kept_refl)
  have d1: "queue_inv d1" "jobs d1 = jobs d" using inv by (simp_all add: d1_def)
  have "queue_inv (if 0 < m then add_cycle_units now m (job_cycle_id e2) (put_job e2 d1) else put_job e2 d1)"
    using d1 e e1 absorb_kept [OF e2] by (intro grow_or_keep_inv [of d1 e]) (auto intro: row_kept_trans)
  then show ?thesis
    using inv by (cases "0 < m") (simp_all add: coalesce_job_def Some rn Let_def e2 flip: e1_def d1_def)
qed

lemma repool_inv:
  assumes inv: "queue_inv d" and e: "e \<in> set (jobs d)" "is_active e"
  shows "queue_inv (snd (repool now pool e d))"
    "fst (repool now pool e d) \<in> set (jobs (snd (repool now pool e d)))"
    "is_active (fst (repool now pool e d))"
proof -
  let ?e = "e\<lparr>job_pool := pool, job_updated_at := now\<rparr>"
  have "queue_inv (put_job ?e d)"
    using queue_inv_job_ok [OF inv e(1)] e
    by (intro inv_keep_row [OF inv e(1)]) (auto simp: row_change_defs)
  then show "queue_inv (snd (repool now pool e d))" using inv by (simp add: repool_def Let_def)
  have "?e \<in> set (put_row job_id ?e (jobs d))" using e(1) by (rule in_put_rowI) simp
  then show "fst (repool now pool e d) \<in> set (jobs (snd (repool now pool e d)))"
    using e by (simp add: repool_def Let_def)
  show "is_active (fst (repool now pool e d))" using e by (auto simp: repool_def Let_def)
qed

lemma enqueue_existing_inv:
  assumes "queue_inv d" and "e \<in> set (jobs d)" "is_active e"
  shows "queue_inv (snd (enqueue_existing now a p e d))"
  using repool_inv [OF assms, of now "routed_pool a p"] coalesce_inv
  by (auto simp: enqueue_existing_def Let_def split: prod.splits)

subsection \<open>The active cycle\<close>

lemma cycles_ok_settle:
  assumes c: "cycles_ok rs cs m" and x: "x \<in> set cs" and none: "\<not> list_ex (active_in_cycle (cyc_id x)) rs"
  shows "cycles_ok rs (put_row cyc_id (x\<lparr>cyc_status := CycleSettled, cyc_settled_at := t, cyc_updated_at := u\<rparr>) cs) m"
  by (rule cycles_ok_update [OF c _ _ _ x])
     (use c x none in \<open>auto simp: cycles_ok_def cycle_ok_def\<close>)

lemma cycles_ok_new:
  assumes c: "cycles_ok rs cs m" and no: "\<forall>x \<in> set cs. cyc_status x \<noteq> CycleActive"
  shows "cycles_ok rs (cs @ [new_workload_cycle now m]) (m + 1)"
proof -
  let ?x = "new_workload_cycle now m"
  have ids: "\<forall>j \<in> set rs. \<forall>ci. job_cycle_id j = Some ci \<longrightarrow> ci < m" using c by (simp add: cycles_ok_def)
  then have "\<not> list_ex (active_in_cycle m) rs" by (fastforce simp: list_ex_iff active_in_cycle_def)
  then have ok: "cycle_ok rs ?x"
    by (simp add: cycle_ok_def open_units_none new_workload_cycle_def)
  have "cyc_id x < m" if "x \<in> set cs" for x using c that by (simp add: cycles_ok_def)
  then show ?thesis
    using c no ok ids unfolding cycles_ok_def
    by (fastforce simp: new_workload_cycle_def)
qed

lemma active_cycle_inv:
  assumes inv: "queue_inv d" and res: "active_cycle now d = (c, d1)"
  shows "queue_inv d1 \<and> c \<in> set (cycles d1) \<and> cyc_status c = CycleActive"
proof -
  note I = queue_invD [OF inv]
  have frame: "jobs d1 = jobs d" "job_seq d1 = job_seq d" "permits d1 = permits d"
    using active_cycle_frame [of now d] res by simp_all
  have keep: "queue_inv d1" if "cycles_ok (jobs d) (cycles d1) (cycle_seq d1)"
    using I that by (simp add: queue_inv_def frame)
  let ?act = "filter (\<lambda>c. cyc_status c = CycleActive) (cycles d)"
  show ?thesis
  proof (cases "newest cyc_id ?act")
    case None
    then have no: "\<forall>x \<in> set (cycles d). cyc_status x \<noteq> CycleActive" by (simp add: filter_empty_conv)
    have "c = new_workload_cycle now (cycle_seq d)" "cycles d1 = cycles d @ [c]" "cycle_seq d1 = cycle_seq d + 1"
      using res None by (auto simp: active_cycle_def Let_def)
    then show ?thesis using cycles_ok_new [OF I(4) no] keep by (simp add: new_workload_cycle_def)
  next
    case (Some x)
    then have x: "x \<in> set (cycles d)" "cyc_status x = CycleActive" by (auto dest: newest_SomeD)
    show ?thesis
    proof (cases "list_ex (active_in_cycle (cyc_id x)) (jobs d)")
      case True
      then have "c = x" "d1 = d" using res Some by (auto simp: active_cycle_def Let_def True)
      then show ?thesis using x inv by simp
    next
      case False
      let ?x = "x\<lparr>cyc_status := CycleSettled, cyc_settled_at := Some now, cyc_updated_at := now\<rparr>"
      let ?cs = "put_row cyc_id ?x (cycles d)"
      have "c = new_workload_cycle now (cycle_seq d)" "cycles d1 = ?cs @ [c]" "cycle_seq d1 = cycle_seq d + 1"
        using res Some False by (auto simp: active_cycle_def put_cycle_def Let_def)
      moreover have "y = x" if "y \<in> set (cycles d)" "cyc_status y = CycleActive" for y
        using I(4) x that unfolding cycles_ok_def by blast
      then have "\<forall>y \<in> set ?cs. cyc_status y \<noteq> CycleActive" by (auto dest!: in_put_rowD)
      ultimately show ?thesis
        using cycles_ok_new [OF cycles_ok_settle [OF I(4) x(1) False]] keep
        by (simp add: new_workload_cycle_def)
    qed
  qed
qed

subsection \<open>Insertion\<close>

lemma cycles_ok_insert:
  assumes c: "cycles_ok rs cs m" and x: "x \<in> set cs" "cyc_status x = CycleActive"
    and j: "job_cycle_id j = Some (cyc_id x)" "is_active j" "0 \<le> job_logical_units j"
  shows "cycles_ok (rs @ [j]) (put_row cyc_id (x\<lparr>cyc_total_units := cyc_total_units x + job_logical_units j,
     cyc_added_units := cyc_added_units x + job_logical_units j, cyc_updated_at := now\<rparr>) cs) m"
proof (rule cycles_ok_update [OF c _ _ _ x(1)])
  show "\<forall>k \<in> set (rs @ [j]). \<forall>ci. job_cycle_id k = Some ci \<longrightarrow> ci < m"
    using c x j by (auto simp: cycles_ok_def)
qed (use c x j in \<open>auto simp: cycles_ok_def cycle_ok_def open_units_snoc job_weight_def active_in_cycle_def\<close>)

lemma insert_job_InrD:
  assumes "insert_job row d = Inr (j, d2)"
  shows "j = row\<lparr>job_id := job_seq d\<rparr>" "flush_ok j (jobs d)"
    "d2 = d\<lparr>jobs := jobs d @ [j], job_seq := job_seq d + 1\<rparr>"
  using assms by (auto simp: insert_job_def Let_def split: if_splits)

lemma new_job_row_facts:
  "job_cycle_id (new_job_row now a key p ci) = Some ci" "job_status (new_job_row now a key p ci) = QUEUED"
  "job_logical_units (new_job_row now a key p ci) = max (eq_logical_units a) 1"
  "job_attempts (new_job_row now a key p ci) = 0" "job_max_attempts (new_job_row now a key p ci) = eq_max_attempts a"
  "job_lease_owner (new_job_row now a key p ci) = []" "job_lease_expires_at (new_job_row now a key p ci) = None"
  "job_heartbeat_at (new_job_row now a key p ci) = None" "job_kind_of (new_job_row now a key p ci) = eq_kind a"
  "job_dedupe_key (new_job_row now a key p ci) = key" "job_payload (new_job_row now a key p ci) = model_dump p"
  by (simp_all add: new_job_row_def Let_def new_work_job_def)

lemma enqueue_new_inv:
  assumes inv: "queue_inv d" and res: "enqueue_new now a key p d = Inr (j, b, d')"
  shows "queue_inv d'"
proof -
  obtain c d1 where ac: "active_cycle now d = (c, d1)" by (cases "active_cycle now d")
  note C = active_cycle_inv [OF inv ac]
  then have I1: "queue_inv d1" by blast
  note I = queue_invD [OF I1]
  show ?thesis
  proof (cases "insert_job (new_job_row now a key p (cyc_id c)) d1")
    case (Inl e)
    then show ?thesis using res ac C by (auto simp: enqueue_new_def split: option.splits)
  next
    case (Inr jd)
    obtain j2 d2 where jd: "jd = (j2, d2)" by (cases jd)
    note J = insert_job_InrD [OF Inr [unfolded jd]]
    let ?c = "c\<lparr>cyc_total_units := cyc_total_units c + job_logical_units j2,
                cyc_added_units := cyc_added_units c + job_logical_units j2, cyc_updated_at := now\<rparr>"
    have ok: "job_ok j2"
      using J(2) by (simp add: job_ok_def flush_ok_def J(1) new_job_row_facts job_checks_def)
    have d': "jobs d' = jobs d1 @ [j2]" "job_seq d' = job_seq d1 + 1" "permits d' = permits d1"
      "cycle_seq d' = cycle_seq d1" "cycles d' = put_row cyc_id ?c (cycles d1)"
      using res ac Inr jd J(3) by (auto simp: enqueue_new_def Let_def put_cycle_def)
    show ?thesis
    proof (rule queue_invI)
      show "rows_ok (jobs d') (job_seq d')" unfolding d' using I(1) ok by (rule rows_ok_snoc) (simp add: J(1))
      show "unique_ok (jobs d')" unfolding d' using I(1)
        by (intro unique_ok_snoc [OF I(2) J(2)]) (auto simp: J(1) rows_ok_def)
      show "permits_ok (jobs d') (permits d')" unfolding d' using I(3) by (rule permits_ok_append_job)
      show "cycles_ok (jobs d') (cycles d') (cycle_seq d')"
        unfolding d' using C
        by (intro cycles_ok_insert [OF I(4)]) (auto simp: J(1) new_job_row_facts)
    qed
  qed
qed

lemma enqueue_inv:
  assumes inv: "queue_inv d" and res: "enqueue mv now a d = Inr (j, b, d')"
  shows "queue_inv d'"
proof (cases "active_job (eq_kind a) (py_strip (eq_dedupe_key a)) d")
  case None
  then show ?thesis
    using res enqueue_new_inv [OF inv] by (auto simp: enqueue_def Let_def bind_result_eq_Inr split: if_splits)
next
  case (Some e)
  then show ?thesis
    using res enqueue_existing_inv [OF inv] active_job_SomeD [OF Some]
    by (auto simp: enqueue_def Let_def bind_result_eq_Inr split_beta simp del: is_active_iff split: if_splits)
qed

end
