(* ===== verification/Queue_Leases.thy ===== *)
theory Queue_Leases
  imports Queue_Preservation Queue_Enqueue_Facts
begin

text \<open>
  What the queue guarantees about the leases that are live at an instant: a library repair
  excludes every other mutation of its series, and every live lease holds its permits, of which a
  fixed pool never gives out more than its limit.  No operation but \<open>claim\<close> grants a lease;
  \<open>calm\<close> captures that, and the guarantees are shown once for every calm operation.
\<close>

subsection \<open>The guarantees\<close>

definition excludes :: "work_job \<Rightarrow> work_job \<Rightarrow> bool" where
  "excludes j k = (job_kind_of j = LIBRARY_REPAIR \<and> job_kind_of k \<in> set MUTATING_JOB_KINDS \<and>
     job_series_key j \<noteq> [] \<and> job_series_key k = job_series_key j)"

definition series_excl :: "instant \<Rightarrow> work_job list \<Rightarrow> bool" where
  "series_excl t rs = (\<forall>j \<in> set rs. \<forall>k \<in> set rs. job_id j \<noteq> job_id k \<and> live_lease t j \<and> live_lease t k \<longrightarrow>
     \<not> excludes j k)"

definition pool_bound :: "instant \<Rightarrow> pool_limits \<Rightarrow> db \<Rightarrow> bool" where
  "pool_bound t limits d = (\<forall>(pool, l) \<in> set limits. map_of limits pool = Some l \<and> \<not> adaptive_pool pool \<longrightarrow>
     active_permits t d pool \<le> max 0 l)"

definition permit_live :: "instant \<Rightarrow> int \<Rightarrow> string \<Rightarrow> job_permit \<Rightarrow> bool" where
  "permit_live t i pool p = (prm_job_id p = i \<and> prm_pool p = pool \<and> t < prm_lease_expires_at p)"

definition permits_held :: "instant \<Rightarrow> pool_limits \<Rightarrow> work_job list \<Rightarrow> job_permit list \<Rightarrow> bool" where
  "permits_held t limits rs ps = (\<forall>j \<in> set rs. live_lease t j \<longrightarrow>
     (\<forall>pool \<in> set (permit_pools j). map_of limits pool \<noteq> None \<longrightarrow>
        (\<exists>p \<in> set ps. permit_live t (job_id j) pool p)))"

definition lease_inv :: "pool_limits \<Rightarrow> instant \<Rightarrow> db \<Rightarrow> bool" where
  "lease_inv limits t d = (series_excl t (jobs d) \<and> pool_bound t limits d \<and>
     permits_held t limits (jobs d) (permits d))"

subsection \<open>Calm changes\<close>

lemma repair_mutates: "LIBRARY_REPAIR \<in> set MUTATING_JOB_KINDS"
  by (simp add: MUTATING_JOB_KINDS_def)

text \<open>The series matters only for the kinds that mutate the library.\<close>

definition same_work :: "work_job \<Rightarrow> work_job \<Rightarrow> bool" where
  "same_work j j' = (job_id j' = job_id j \<and> job_kind_of j' = job_kind_of j \<and>
     (job_kind_of j \<in> set MUTATING_JOB_KINDS \<longrightarrow> job_series_key j' = job_series_key j) \<and>
     job_pool j' = job_pool j \<and> job_source j' = job_source j)"

definition calm :: "instant \<Rightarrow> db \<Rightarrow> db \<Rightarrow> bool" where
  "calm t d d' = ((\<forall>pool. active_permits t d' pool \<le> active_permits t d pool) \<and>
     (\<forall>j' \<in> set (jobs d'). live_lease t j' \<longrightarrow>
        (\<exists>j \<in> set (jobs d). live_lease t j \<and> same_work j j') \<and>
        (\<forall>pool. (\<exists>p \<in> set (permits d). permit_live t (job_id j') pool p) \<longrightarrow>
                (\<exists>p \<in> set (permits d'). permit_live t (job_id j') pool p))))"

lemma calm_refl [simp]: "calm t d d"
  by (auto simp: calm_def same_work_def)

lemma calm_trans:
  assumes "calm t d e" "calm t e f"
  shows "calm t d f"
  unfolding calm_def
proof (intro conjI allI ballI impI)
  show "active_permits t f pool \<le> active_permits t d pool" for pool
    using assms unfolding calm_def by (meson order_trans)
next
  fix j'
  assume j': "j' \<in> set (jobs f)" "live_lease t j'"
  then obtain j where j: "j \<in> set (jobs e)" "live_lease t j" "same_work j j'"
    using assms(2) unfolding calm_def by blast
  then obtain i where i: "i \<in> set (jobs d)" "live_lease t i" "same_work i j"
    using assms(1) unfolding calm_def by blast
  with j(3) show "\<exists>i \<in> set (jobs d). live_lease t i \<and> same_work i j'"
    by (intro bexI [of _ i]) (simp_all add: same_work_def)
  have id: "job_id j' = job_id j" using j(3) by (simp add: same_work_def)
  show "\<exists>p \<in> set (permits f). permit_live t (job_id j') pool p"
    if "\<exists>p \<in> set (permits d). permit_live t (job_id j') pool p" for pool
    using assms j' j(1,2) that id unfolding calm_def by metis
qed

lemma permit_pools_cong: "same_work j j' \<Longrightarrow> permit_pools j' = permit_pools j"
  unfolding permit_pools_def same_work_def is_network_job_def by (simp only: )

lemma calm_lease_inv:
  assumes inv: "lease_inv limits t d" and c: "calm t d d'"
  shows "lease_inv limits t d'"
proof -
  have live: "\<exists>j \<in> set (jobs d). live_lease t j \<and> same_work j j'" if "j' \<in> set (jobs d')" "live_lease t j'" for j'
    using c that by (simp add: calm_def)
  have "series_excl t (jobs d')"
    unfolding series_excl_def
  proof (intro ballI impI)
    fix j' k'
    assume a: "j' \<in> set (jobs d')" "k' \<in> set (jobs d')"
      "job_id j' \<noteq> job_id k' \<and> live_lease t j' \<and> live_lease t k'"
    obtain j where j: "j \<in> set (jobs d)" "live_lease t j" "same_work j j'" using live [of j'] a by blast
    obtain k where k: "k \<in> set (jobs d)" "live_lease t k" "same_work k k'" using live [of k'] a by blast
    have "job_id j \<noteq> job_id k" using a j k by (simp add: same_work_def)
    then have "\<not> excludes j k" using inv j k unfolding lease_inv_def series_excl_def by blast
    then show "\<not> excludes j' k'" using j k by (auto simp: excludes_def same_work_def repair_mutates)
  qed
  moreover have "pool_bound t limits d'"
    using inv c by (fastforce simp: lease_inv_def pool_bound_def calm_def intro: order_trans)
  moreover have "permits_held t limits (jobs d') (permits d')"
    unfolding permits_held_def
  proof (intro ballI impI)
    fix j' pool
    assume j': "j' \<in> set (jobs d')" "live_lease t j'" "pool \<in> set (permit_pools j')" "map_of limits pool \<noteq> None"
    then obtain j where j: "j \<in> set (jobs d)" "live_lease t j" "same_work j j'" using live by blast
    then have "\<exists>p \<in> set (permits d). permit_live t (job_id j) pool p"
      using inv j' permit_pools_cong [OF j(3)] by (auto simp: lease_inv_def permits_held_def)
    then show "\<exists>p \<in> set (permits d'). permit_live t (job_id j') pool p"
      using c j' j(3) unfolding calm_def same_work_def by metis
  qed
  ultimately show ?thesis by (simp add: lease_inv_def)
qed

lemma live_lease_mono: "t \<le> t' \<Longrightarrow> live_lease t' j \<Longrightarrow> live_lease t j"
  by (auto simp: live_lease_def split: option.splits)

text \<open>Time only ends leases.  A live lease and its permits expire together.\<close>

lemma lease_inv_time:
  assumes q: "queue_inv d" and inv: "lease_inv limits t d" and t: "t \<le> t'"
  shows "lease_inv limits t' d"
proof -
  have "length (filter (\<lambda>p. prm_pool p = pool \<and> t' < prm_lease_expires_at p) ps)
      \<le> length (filter (\<lambda>p. prm_pool p = pool \<and> t < prm_lease_expires_at p) ps)" for pool and ps :: "job_permit list"
    using t by (induction ps) auto
  then have "active_permits t' d pool \<le> active_permits t d pool" for pool
    by (simp add: active_permits_def)
  then have "pool_bound t' limits d"
    using inv unfolding lease_inv_def pool_bound_def by (fast intro: order_trans)
  moreover have "series_excl t' (jobs d)"
    using inv live_lease_mono [OF t] unfolding lease_inv_def series_excl_def by blast
  moreover have "permits_held t' limits (jobs d) (permits d)"
    unfolding permits_held_def
  proof (intro ballI impI)
    fix j pool
    assume j: "j \<in> set (jobs d)" "live_lease t' j" "pool \<in> set (permit_pools j)" "map_of limits pool \<noteq> None"
    then obtain p where p: "p \<in> set (permits d)" "permit_live t (job_id j) pool p"
      using inv live_lease_mono [OF t] unfolding lease_inv_def permits_held_def by metis
    then obtain k where k: "k \<in> set (jobs d)" "permit_of p k"
      using queue_invD(3) [OF q] by (auto simp: permits_ok_def)
    then have "k = j"
      using p j(1) rows_ok_eq [OF queue_invD(1) [OF q]] by (auto simp: permit_of_def permit_live_def)
    then have "permit_live t' (job_id j) pool p"
      using k(2) p(2) j(2) by (simp add: permit_of_def permit_live_def live_lease_def)
    then show "\<exists>p \<in> set (permits d). permit_live t' (job_id j) pool p" using p(1) by blast
  qed
  ultimately show ?thesis by (simp add: lease_inv_def)
qed

subsection \<open>Calm operations\<close>

lemma calm_same: "jobs d' = jobs d \<Longrightarrow> permits d' = permits d \<Longrightarrow> calm t d d'"
  by (auto simp: calm_def active_permits_def same_work_def)

text \<open>A row that stays without a lease, or keeps the one it has.\<close>

definition row_calm :: "instant \<Rightarrow> work_job \<Rightarrow> work_job \<Rightarrow> bool" where
  "row_calm t j j' = (job_id j' = job_id j \<and> (live_lease t j' \<longrightarrow> live_lease t j \<and> same_work j j'))"

lemma calm_put:
  assumes "jobs d' = put_row job_id j' (jobs d)" "permits d' = permits d" "j \<in> set (jobs d)" "row_calm t j j'"
  shows "calm t d d'"
  using assms by (auto simp: calm_def active_permits_def row_calm_def same_work_def dest!: in_put_rowD)

lemma length_filter_conj: "length (filter P (filter Q xs)) \<le> length (filter P xs)"
  by (induction xs) auto

text \<open>Dropping the permits of a row that has no live lease.\<close>

lemma calm_release:
  assumes "jobs d' = put_row job_id j' (jobs d)"
    "permits d' = filter (\<lambda>p. prm_job_id p \<noteq> job_id j') (permits d)" "\<not> live_lease t j'"
  shows "calm t d d'"
  unfolding calm_def
proof (intro conjI allI ballI impI)
  show "active_permits t d' pool \<le> active_permits t d pool" for pool
    using assms(2) by (simp add: active_permits_def length_filter_conj del: filter_filter)
qed (use assms in \<open>auto simp: same_work_def permit_live_def dest!: in_put_rowD\<close>)

lemma calm_drop:
  "jobs d' = put_row job_id j' (jobs d) \<Longrightarrow> job_status j' \<noteq> LEASED \<Longrightarrow>
   permits d' = filter (\<lambda>p. prm_job_id p \<noteq> job_id j') (permits d) \<Longrightarrow> calm t d d'"
  by (erule calm_release) (auto simp: live_lease_def)

lemma calm_snoc:
  "jobs d' = jobs d @ [j] \<Longrightarrow> job_status j \<noteq> LEASED \<Longrightarrow> permits d' = permits d \<Longrightarrow> calm t d d'"
  by (auto simp: calm_def active_permits_def same_work_def live_lease_def)

lemma calm_fold:
  "(\<And>x d. x \<in> set xs \<Longrightarrow> calm t d (f x d)) \<Longrightarrow> calm t d (fold f xs d)"
proof (induction xs arbitrary: d)
  case (Cons x xs)
  have "calm t d (f x d)" by (rule Cons.prems) simp
  moreover have "calm t (f x d) (fold f xs (f x d))" by (rule Cons.IH) (use Cons.prems in auto)
  ultimately show ?case by (auto intro: calm_trans)
qed simp

lemmas calm_defs = row_calm_def same_work_def live_lease_def drop_lease_def

lemma finish_calm: "st \<in> {SUCCEEDED, FAILED, CANCELLED} \<Longrightarrow> calm t d (snd (finish now i ow st ev c m d))"
  by (auto simp: finish_def requeue_pending_def Let_def drop_lease_def split: option.splits intro!: calm_drop)

lemma succeed_calm: "calm t d (snd (succeed now i ow d))" "calm t d (snd (fail now i ow c m d))"
  by (simp_all add: succeed_def fail_def finish_calm)

lemma retry_calm: "calm t d (snd (retry now i ow av c m d))"
  by (auto simp: retry_def Let_def drop_lease_def split: option.splits intro!: calm_drop)

lemma cancel_calm: "calm t d (snd (cancel now i r d))"
  by (auto simp: cancel_def Let_def drop_lease_def split: option.splits intro!: calm_drop)

lemma release_calm: "calm t d (snd (release now i ow r d))" "calm t d (snd (defer_job now i ow av c m d))"
  by (auto simp: release_def defer_job_def Let_def drop_lease_def split: option.splits intro!: calm_drop)

lemma reroute_calm: "reroute mv now i ow p src av m dt d = Inr (b, d') \<Longrightarrow> calm t d d'"
  by (auto simp: reroute_def Let_def drop_lease_def bind_result_eq_Inr split: option.splits intro!: calm_drop)

lemma reroute_waiting_calm:
  assumes "reroute_waiting mv now i p src av m dt d = Inr (b, d')"
  shows "calm t d d'"
  using assms
  by (auto simp: reroute_waiting_def Let_def bind_result_eq_Inr row_calm_def live_lease_def
      dest!: find_job_in split: option.splits if_splits intro!: calm_put)

lemma retry_now_calm: "calm t d (snd (retry_now now i d))"
proof (cases "find_job i d")
  case (Some j)
  then have "j \<in> set (jobs d)" by (auto dest: find_job_in)
  let ?j = "j\<lparr>job_status := QUEUED, job_available_at := now, job_updated_at := now, job_completed_at := None\<rparr>"
  have "calm t d (snd (retry_now now i d))" if "job_status j = RETRY_WAIT"
    using \<open>j \<in> set (jobs d)\<close> that
    by (intro calm_put [where j' = ?j]) (simp_all add: retry_now_def Some Let_def row_calm_def live_lease_def)
  then show ?thesis by (cases "job_status j = RETRY_WAIT") (simp_all add: retry_now_def Some)
qed (simp add: retry_now_def)

lemma progress_calm: "calm t d (snd (progress now i ow m p d))"
proof (cases "held_job now i ow d")
  case (Some j)
  then have "j \<in> set (jobs d)" by (auto dest: held_jobD)
  then show ?thesis
    by (rule calm_put [where j' = "progress_row now m p j", rotated 2])
       (simp_all add: progress_def Some Let_def progress_row_def calm_defs)
qed (simp add: progress_def)

lemma fail_expired_calm: "calm t d (fail_expired_job s now j d)"
  by (rule calm_drop [where j' = "j\<lparr>job_status := FAILED, job_lease_owner := [], job_lease_expires_at := None,
       job_heartbeat_at := None, job_error_code := ''lease_expired'',
       job_error_message := ''job lease expired after its final attempt'', job_updated_at := now,
       job_completed_at := Some now\<rparr>"])
     (simp_all add: fail_expired_job_def Let_def)

lemma fail_exhausted_calm: "calm t d (snd (fail_exhausted_leases now locked d))"
  by (simp add: fail_exhausted_leases_def Let_def calm_fold fail_expired_calm)

lemma cleanup_calm:
  "calm now d (snd (cleanup_expired_permits now d))"
  unfolding calm_def
proof (intro conjI allI ballI impI)
  show "active_permits now (snd (cleanup_expired_permits now d)) pool \<le> active_permits now d pool" for pool
    by (simp add: active_permits_def cleanup_expired_permits_def length_filter_conj del: filter_filter)
qed (auto simp: cleanup_expired_permits_def permit_live_def same_work_def)


lemma resume_calm: "calm t d (snd (resume_recovered_provider now src locked d))"
proof -
  have put: "calm t d (resume_job now src j d)" if "outage_deferred now src j" for j d
  proof (cases "\<exists>k \<in> set (jobs d). job_id k = job_id j")
    case True
    then obtain k where "k \<in> set (jobs d)" "job_id k = job_id j" by blast
    with that show ?thesis
      by (intro calm_put [where j = k and j' = "j\<lparr>job_available_at := now, job_error_code := [],
            job_error_message := [], job_updated_at := now\<rparr>"])
         (simp_all add: resume_job_def Let_def row_calm_def live_lease_def outage_deferred_def)
  next
    case False
    then show ?thesis by (intro calm_same) (simp_all add: resume_job_def Let_def put_row_absent)
  qed
  then show ?thesis
    unfolding resume_recovered_provider_def Let_def snd_conv by (intro calm_fold) simp
qed

lemma add_cycle_units_frame [simp]:
  "jobs (add_cycle_units now n ci d) = jobs d" "permits (add_cycle_units now n ci d) = permits d"
  by (simp_all add: add_cycle_units_def split: option.splits)

lemma repool_calm: "e \<in> set (jobs d) \<Longrightarrow> calm t d (snd (repool now pool e d))"
  by (cases "job_status e = LEASED")
     (auto simp: repool_def Let_def row_calm_def live_lease_def intro!: calm_put [of _ _ _ e])

lemma absorb_promote_work:
  "absorb now a r n e = (e2, m) \<Longrightarrow> row_calm t e e2" "row_calm t e (promote now a e)"
  by (auto simp: absorb_def promote_def Let_def calm_defs split: if_splits)

lemma row_calm_trans: "row_calm t i j \<Longrightarrow> row_calm t j k \<Longrightarrow> row_calm t i k"
  by (auto simp: row_calm_def same_work_def)

lemma coalesce_calm:
  assumes e: "e \<in> set (jobs d)"
  shows "calm t d (snd (coalesce_job now a pool dump e d))"
proof (cases "merge_series e dump")
  case (Some rn)
  obtain r n where rn: "rn = (r, n)" by (cases rn)
  define e1 where "e1 = (if acquisition_promotion e dump then promote now a e else e)"
  obtain e2 m where e2: "absorb now a r n e1 = (e2, m)" by (cases "absorb now a r n e1")
  have "row_calm t e e1" by (simp add: e1_def absorb_promote_work) (simp add: row_calm_def same_work_def)
  then have k: "row_calm t e e2" using absorb_promote_work(1) [OF e2] by (blast intro: row_calm_trans)
  show ?thesis
  proof (cases "should_coalesce (job_kind_of e) (current_payload e) r")
    case True
    then show ?thesis
      using e k by (intro calm_put [where j = e and j' = e2])
        (simp_all add: coalesce_job_def Some rn Let_def e2 flip: e1_def)
  qed (simp add: coalesce_job_def Some rn)
qed (simp add: coalesce_job_def)

lemma enqueue_existing_calm:
  assumes "queue_inv d" "e \<in> set (jobs d)" "is_active e"
  shows "calm t d (snd (enqueue_existing now a p e d))"
  using calm_trans [OF repool_calm [OF assms(2)] coalesce_calm [OF repool_inv(2) [OF assms]]]
    repool_calm [OF assms(2)]
  by (simp add: enqueue_existing_def Let_def split_beta)

lemma enqueue_new_calm:
  assumes "enqueue_new now a key p d = Inr (j, b, d')"
  shows "calm t d d'"
proof -
  obtain c d1 where ac: "active_cycle now d = (c, d1)" by (cases "active_cycle now d")
  then have d1: "jobs d1 = jobs d" "permits d1 = permits d" using active_cycle_frame [of now d] by simp_all
  show ?thesis
  proof (cases "insert_job (new_job_row now a key p (cyc_id c)) d1")
    case (Inl e)
    then show ?thesis using assms ac d1 by (auto simp: enqueue_new_def split: option.splits intro!: calm_same)
  next
    case (Inr jd)
    obtain j2 d2 where jd: "jd = (j2, d2)" by (cases jd)
    note J = insert_job_InrD [OF Inr [unfolded jd]]
    have "job_status j2 \<noteq> LEASED" by (simp add: J(1) new_job_row_facts)
    then show ?thesis
      using assms ac d1 Inr jd J(3)
      by (intro calm_snoc [where j = j2]) (auto simp: enqueue_new_def Let_def put_cycle_def)
  qed
qed

lemma enqueue_calm:
  assumes inv: "queue_inv d" and res: "enqueue mv now a d = Inr (j, b, d')"
  shows "calm t d d'"
proof (cases "active_job (eq_kind a) (py_strip (eq_dedupe_key a)) d")
  case None
  then show ?thesis
    using res enqueue_new_calm by (auto simp: enqueue_def Let_def bind_result_eq_Inr split: if_splits)
next
  case (Some e)
  then show ?thesis
    using res enqueue_existing_calm [OF inv] active_job_SomeD [OF Some]
    by (auto simp: enqueue_def Let_def bind_result_eq_Inr split_beta simp del: is_active_iff split: if_splits)
qed

text \<open>A heartbeat renews a live lease together with its permits, which were live too.\<close>

lemma heartbeat_calm:
  assumes inv: "queue_inv d" and res: "heartbeat now i ow lf d = Inr (b, d')"
  shows "calm now d d'"
proof (cases "0 < lf \<and> held_job now i ow d \<noteq> None")
  case False
  then show ?thesis using res by (auto simp: heartbeat_def split: if_splits)
next
  case True
  then obtain j where h: "held_job now i ow d = Some j" by blast
  then have j: "j \<in> set (jobs d)" "job_id j = i" "job_lease_owner j = ow" "live_lease now j"
    by (auto dest: held_jobD)
  let ?j = "j\<lparr>job_heartbeat_at := Some now, job_lease_expires_at := Some (now + lf), job_updated_at := now\<rparr>"
  let ?f = "\<lambda>p. if prm_job_id p = i \<and> prm_owner p = ow then p\<lparr>prm_lease_expires_at := now + lf\<rparr> else p"
  have d': "jobs d' = put_row job_id ?j (jobs d)" "permits d' = map ?f (permits d)"
    using res True h by (auto simp: heartbeat_def Let_def put_job_def)
  have exp: "now < prm_lease_expires_at p" if "p \<in> set (permits d)" "prm_job_id p = i" for p
  proof -
    obtain k where k: "k \<in> set (jobs d)" "permit_of p k"
      using queue_invD(3) [OF inv] \<open>p \<in> set (permits d)\<close> by (auto simp: permits_ok_def)
    then have "k = j" using j that rows_ok_eq [OF queue_invD(1) [OF inv]] by (auto simp: permit_of_def)
    then show ?thesis using k j(4) by (simp add: permit_of_def live_lease_def)
  qed
  have same: "prm_pool (?f p) = prm_pool p \<and> prm_job_id (?f p) = prm_job_id p \<and>
      (now < prm_lease_expires_at (?f p)) = (now < prm_lease_expires_at p)" if "p \<in> set (permits d)" for p
    using exp [OF that] True by auto
  have "filter (\<lambda>p. prm_pool p = pool \<and> now < prm_lease_expires_at p) (map ?f (permits d))
      = map ?f (filter (\<lambda>p. prm_pool p = pool \<and> now < prm_lease_expires_at p) (permits d))" for pool
    unfolding filter_map o_def by (rule arg_cong [where f = "map ?f"], rule filter_cong) (use same in auto)
  then have cnt: "active_permits now d' pool = active_permits now d pool" for pool
    by (simp add: active_permits_def d')
  show ?thesis
    unfolding calm_def
  proof (intro conjI allI ballI impI)
    show "active_permits now d' pool \<le> active_permits now d pool" for pool using cnt by simp
  next
    fix k
    assume "k \<in> set (jobs d')" "live_lease now k"
    then show "\<exists>x \<in> set (jobs d). live_lease now x \<and> same_work x k"
      using j by (auto simp: d' same_work_def dest!: in_put_rowD)
    show "\<exists>p \<in> set (permits d'). permit_live now (job_id k) pool p"
      if ex: "\<exists>p \<in> set (permits d). permit_live now (job_id k) pool p" for pool
    proof -
      obtain p where p: "p \<in> set (permits d)" "permit_live now (job_id k) pool p" using ex by blast
      then have "permit_live now (job_id k) pool (?f p)" using same [OF p(1)] by (simp add: permit_live_def)
      moreover have "?f p \<in> set (permits d')" unfolding d'(2) set_map using p(1) by (rule imageI)
      ultimately show ?thesis by blast
    qed
  qed
qed

end
