(* ===== verification/Queue_Claim_Facts.thy ===== *)
theory Queue_Claim_Facts
  imports Queue_Leases
begin

text \<open>
  What the bounded scan of \<open>claim\<close> returns, and that claiming keeps the invariant.  The scan
  changes nothing but pools and permits, so the job it finds was claimable in the database the
  claim started from.
\<close>

subsection \<open>The query\<close>

lemma claim_query_SomeD:
  assumes "claim_query now f locked d = Some j"
  shows "j \<in> set (jobs d)" "claimable now d j" "in_scope f j" "job_id j \<notin> set locked"
    and "\<And>k. k \<in> set (jobs d) \<Longrightarrow> claimable now d k \<Longrightarrow> in_scope f k \<Longrightarrow> job_id k \<notin> set locked \<Longrightarrow>
           claim_key now d j \<le> claim_key now d k"
proof -
  obtain ys where ys: "sort_key (claim_key now d)
      (filter (\<lambda>j. claimable now d j \<and> in_scope f j \<and> job_id j \<notin> set locked) (jobs d)) = j # ys"
    using assms by (auto simp: claim_query_def split: list.splits)
  note m = hd_sort_key_min [OF ys]
  then show "j \<in> set (jobs d)" "claimable now d j" "in_scope f j" "job_id j \<notin> set locked" by auto
  show "claim_key now d j \<le> claim_key now d k"
    if "k \<in> set (jobs d)" "claimable now d k" "in_scope f k" "job_id k \<notin> set locked" for k
    using m that by auto
qed

lemma claim_query_None_iff:
  "claim_query now f locked d = None \<longleftrightarrow>
     (\<forall>j \<in> set (jobs d). \<not> (claimable now d j \<and> in_scope f j \<and> job_id j \<notin> set locked))"
  by (auto simp: claim_query_def filter_empty_conv split: list.splits)
     (metis (no_types, lifting) filter_empty_conv sort_key_eq_Nil list.distinct(1))

lemma claimableD:
  "claimable now d j \<Longrightarrow> is_active j \<and> \<not> live_lease now j \<and> job_attempts j < job_max_attempts j"
  by (auto simp: claimable_def ready_def expired_lease_def live_lease_def split: option.splits)

subsection \<open>Exhausted leases\<close>

text \<open>Every active row is active in the flushed rows, too.\<close>

definition seen_by :: "work_job list \<Rightarrow> db \<Rightarrow> bool" where
  "seen_by stored d = (\<forall>k \<in> set (jobs d). \<forall>ci. active_in_cycle ci k \<longrightarrow>
     (\<exists>x \<in> set stored. job_id x = job_id k \<and> active_in_cycle ci x))"

lemma fail_expired_inv:
  assumes inv: "queue_inv d" and j: "j \<in> set (jobs d)" "job_status j = LEASED"
    and seen: "seen_by stored d"
  shows "queue_inv (fail_expired_job stored now j d)"
  using j queue_inv_job_ok [OF inv j(1)] seen
  unfolding fail_expired_job_def Let_def seen_by_def
  by (intro inv_end_row_in [OF inv j(1)]) (auto simp: row_change_defs)

lemma fail_expired_seen: "seen_by stored d \<Longrightarrow> seen_by stored (fail_expired_job s now j d)"
  by (auto simp: seen_by_def fail_expired_job_def Let_def active_in_cycle_def dest!: in_put_rowD)

lemma seen_by_self [simp]: "seen_by (jobs d) d"
  by (auto simp: seen_by_def)

lemma fail_expired_other:
  "k \<in> set (jobs d) \<Longrightarrow> job_id k \<noteq> job_id j \<Longrightarrow> k \<in> set (jobs (fail_expired_job s now j d))"
  by (simp add: fail_expired_job_def Let_def in_put_row_other)

lemma fail_expired_fold:
  "queue_inv d \<Longrightarrow> seen_by stored d \<Longrightarrow> distinct (map job_id rows) \<Longrightarrow> set rows \<subseteq> set (jobs d) \<Longrightarrow>
     \<forall>j \<in> set rows. job_status j = LEASED \<Longrightarrow> queue_inv (fold (fail_expired_job stored now) rows d)"
proof (induction rows arbitrary: d)
  case Nil
  then show ?case by simp
next
  case (Cons j rows)
  let ?d = "fail_expired_job stored now j d"
  have "set rows \<subseteq> set (jobs ?d)"
  proof
    fix k
    assume k: "k \<in> set rows"
    then have "job_id k \<noteq> job_id j" using Cons.prems(3) by (metis distinct.simps(2) imageI list.set_map list.simps(9))
    then show "k \<in> set (jobs ?d)" using Cons.prems(4) k by (intro fail_expired_other) auto
  qed
  moreover have "queue_inv ?d" using Cons.prems by (intro fail_expired_inv) auto
  ultimately show ?case using Cons.prems Cons.IH [of ?d] fail_expired_seen by simp
qed

lemma fail_exhausted_inv: "queue_inv d \<Longrightarrow> queue_inv (snd (fail_exhausted_leases now locked d))"
  unfolding fail_exhausted_leases_def Let_def snd_conv
  by (rule fail_expired_fold)
     (simp_all add: exhausted_def expired_lease_def queue_inv_filter_distinct)

lemma cleanup_permits_inv: "queue_inv d \<Longrightarrow> queue_inv (snd (cleanup_expired_permits now d))"
  by (simp add: cleanup_expired_permits_def queue_inv_def permits_ok_filter)

subsection \<open>The scan\<close>

definition same_but_pool :: "work_job \<Rightarrow> work_job \<Rightarrow> bool" where
  "same_but_pool j k = (j\<lparr>job_pool := job_pool k\<rparr> = k \<and> (is_active j \<or> k = j))"

text \<open>The databases a scan goes through, seen from the one it started in.\<close>

definition scan_rel :: "db \<Rightarrow> db \<Rightarrow> bool" where
  "scan_rel d e = (list_all2 same_but_pool (jobs d) (jobs e) \<and> job_seq e = job_seq d \<and>
     cycles e = cycles d \<and> cycle_seq e = cycle_seq d \<and> storage e = storage d \<and>
     source_states e = source_states d \<and> policies e = policies d \<and> set (permits e) \<subseteq> set (permits d))"

lemma same_but_pool_refl [simp]: "same_but_pool j j"
  by (simp add: same_but_pool_def)

lemma same_but_poolD:
  assumes "same_but_pool j k"
  shows "k = j\<lparr>job_pool := job_pool k\<rparr>" "job_id k = job_id j" "job_kind_of k = job_kind_of j"
    "job_status k = job_status j"
    "job_series_key k = job_series_key j" "job_lease_expires_at k = job_lease_expires_at j"
    "job_attempts k = job_attempts j" "job_max_attempts k = job_max_attempts j"
    "job_source k = job_source j" "job_available_at k = job_available_at j"
    "job_priority k = job_priority j" "job_payload k = job_payload j"
    "job_dedupe_key k = job_dedupe_key j" "job_group_key k = job_group_key j"
    "job_cycle_id k = job_cycle_id j"
proof -
  show k: "k = j\<lparr>job_pool := job_pool k\<rparr>" using assms by (simp add: same_but_pool_def)
  show "job_id k = job_id j" "job_kind_of k = job_kind_of j" "job_status k = job_status j"
    "job_series_key k = job_series_key j" "job_lease_expires_at k = job_lease_expires_at j"
    "job_attempts k = job_attempts j" "job_max_attempts k = job_max_attempts j"
    "job_source k = job_source j" "job_available_at k = job_available_at j"
    "job_priority k = job_priority j" "job_payload k = job_payload j"
    "job_dedupe_key k = job_dedupe_key j" "job_group_key k = job_group_key j"
    "job_cycle_id k = job_cycle_id j"
    by (subst k, simp)+
qed

lemmas same_but_pool_fields = same_but_poolD(2-)

lemma same_but_pool_trans:
  assumes "same_but_pool j k" "same_but_pool k l"
  shows "same_but_pool j l"
proof -
  have "l = j\<lparr>job_pool := job_pool k, job_pool := job_pool l\<rparr>"
    using same_but_poolD(1) [OF assms(1)] same_but_poolD(1) [OF assms(2)] by metis
  then have "j\<lparr>job_pool := job_pool l\<rparr> = l" by simp
  moreover have "is_active j \<or> l = j"
    using assms same_but_pool_fields(3) [OF assms(1)] by (auto simp: same_but_pool_def)
  ultimately show ?thesis by (simp add: same_but_pool_def)
qed

lemma same_but_pool_lease:
  assumes "same_but_pool j k"
  shows "live_lease now k = live_lease now j" "expired_lease now k = expired_lease now j"
    "ready now k = ready now j"
  by (simp_all add: live_lease_def expired_lease_def ready_def same_but_pool_fields [OF assms])

lemma list_ex_list_all2:
  "list_all2 R xs ys \<Longrightarrow> (\<And>x y. R x y \<Longrightarrow> P x = Q y) \<Longrightarrow> list_ex P xs = list_ex Q ys"
  by (induction xs ys rule: list_all2_induct) auto

lemma series_conflict_cong:
  assumes "list_all2 same_but_pool (jobs d) (jobs e)" and "same_but_pool j k"
  shows "series_conflict now e k ks = series_conflict now d j ks"
  unfolding series_conflict_def
  by (rule sym, rule list_ex_list_all2 [OF assms(1)])
     (simp add: same_but_pool_fields [OF assms(2)] same_but_pool_fields same_but_pool_lease)

lemma claimable_cong:
  assumes "scan_rel d e" and "same_but_pool j k"
  shows "claimable now e k = claimable now d j"
proof -
  have "series_conflict now e k ks = series_conflict now d j ks" for ks
    using assms by (intro series_conflict_cong) (simp_all add: scan_rel_def)
  then show ?thesis
    using assms(1)
    by (simp add: claimable_def series_free_def scan_rel_def same_but_pool_fields [OF assms(2)]
        same_but_pool_lease [OF assms(2)] provider_blocked_def storage_paused_def)
qed

lemma scan_rel_refl [simp]: "scan_rel d d"
  by (simp add: scan_rel_def list.rel_refl)

lemma scan_rel_trans: "scan_rel d e \<Longrightarrow> scan_rel e f \<Longrightarrow> scan_rel d f"
  unfolding scan_rel_def using list_all2_trans [of same_but_pool same_but_pool same_but_pool]
  by (auto intro: same_but_pool_trans)

lemma same_but_pool_fix: "is_active j \<Longrightarrow> same_but_pool j (fix_pool j)"
  by (simp add: same_but_pool_def fix_pool_def Let_def del: is_active_iff)

lemma list_all2_put:
  assumes "distinct (map job_id rs)" "j \<in> set rs" "same_but_pool j j'"
  shows "list_all2 same_but_pool rs (put_row job_id j' rs)"
proof -
  have "same_but_pool x (if job_id x = job_id j' then j' else x)" if "x \<in> set rs" for x
  proof (cases "job_id x = job_id j'")
    case True
    then have "x = j" using assms that by (metis get_row_distinct option.inject same_but_pool_fields(1))
    then show ?thesis using True assms by simp
  qed simp
  then show ?thesis by (simp add: put_row_def list_all2_map2 list.rel_refl_strong)
qed

lemma scan_rel_fix:
  assumes "queue_inv d" and "j \<in> set (jobs d)" and "is_active j"
  shows "scan_rel d (put_job (fix_pool j) d)" "scan_rel d (release_permits i (put_job (fix_pool j) d))"
  using assms list_all2_put [OF _ assms(2) same_but_pool_fix [OF assms(3)]]
  by (auto simp: scan_rel_def queue_inv_def rows_ok_def)

lemma fix_pool_eq:
  "fix_pool j = j\<lparr>job_pool := (if job_kind_of j = SOURCE_REFRESH then default_pool SOURCE_REFRESH (job_source j)
     else job_pool j)\<rparr>"
  by (simp add: fix_pool_def Let_def)

lemma fix_pool_inv:
  assumes inv: "queue_inv d" and j: "j \<in> set (jobs d)"
  shows "queue_inv (put_job (fix_pool j) d)"
proof -
  obtain p where p: "fix_pool j = j\<lparr>job_pool := p\<rparr>" using fix_pool_eq by blast
  show ?thesis
    using queue_inv_job_ok [OF inv j] unfolding p
    by (intro inv_keep_row [OF inv j]) (auto simp: row_change_defs)
qed

lemma release_permits_inv:
  "queue_inv d \<Longrightarrow> queue_inv (release_permits i d)"
  by (simp add: queue_inv_def permits_ok_filter)

text \<open>The situation in which the scan hands a job over: its permits are about to be added.\<close>

definition scan_found :: "instant \<Rightarrow> claim_args \<Rightarrow> int list \<Rightarrow> db \<Rightarrow> work_job \<Rightarrow> db \<Rightarrow> db \<Rightarrow> bool" where
  "scan_found now a locked d j e d1 =
     (scan_rel d e \<and> queue_inv e \<and> calm now d e \<and> j \<in> set (jobs e) \<and> claimable now e j \<and> job_id j \<notin> set locked \<and>
      (\<forall>ks. ca_kinds a = Some ks \<longrightarrow> job_kind_of j \<in> set ks) \<and>
      (\<forall>p \<in> set (permits e). prm_job_id p \<noteq> job_id j) \<and>
      acquire_permits now (ca_window a) (ca_pool_limits a) (py_strip (ca_owner a))
        (now + ca_lease_for a) j e = Some d1)"

lemma no_permits_unless_leased:
  assumes "queue_inv d" "j \<in> set (jobs d)" "job_status j \<noteq> LEASED" "p \<in> set (permits d)"
  shows "prm_job_id p \<noteq> job_id j"
proof
  assume "prm_job_id p = job_id j"
  moreover obtain k where "k \<in> set (jobs d)" "permit_of p k"
    using assms by (auto simp: queue_inv_def permits_ok_def)
  ultimately have "k = j" using assms by (metis permit_of_def queue_invD(1) rows_ok_eq)
  then show False using \<open>permit_of p k\<close> assms by (simp add: permit_of_def)
qed

lemma scan_step:
  assumes inv: "queue_inv d" and q: "claim_query now (scan_filter a s) locked d = Some c"
  defines "j \<equiv> fix_pool c" and "d1 \<equiv> put_job (fix_pool c) d"
  defines "d2 \<equiv> if expired_lease now (fix_pool c) then release_permits (job_id (fix_pool c)) d1 else d1"
  shows "queue_inv d2" "scan_rel d d2" "j \<in> set (jobs d2)" "claimable now d2 j" "job_id j \<notin> set locked"
    "\<forall>ks. ca_kinds a = Some ks \<longrightarrow> job_kind_of j \<in> set ks" "\<forall>p \<in> set (permits d2). prm_job_id p \<noteq> job_id j"
    "\<not> (expired_lease now j \<and> job_max_attempts j \<le> job_attempts j)" "calm now d d2"
proof -
  note Q = claim_query_SomeD [OF q]
  have act: "is_active c" using claimableD [OF Q(2)] by simp
  note S = same_but_pool_fields [OF same_but_pool_fix [OF act]]
  note L = same_but_pool_lease [OF same_but_pool_fix [OF act]]
  show "queue_inv d2" using inv Q(1) by (simp add: d2_def d1_def fix_pool_inv release_permits_inv)
  have nl: "\<not> live_lease now c" using claimableD [OF Q(2)] by simp
  show "calm now d d2"
  proof (cases "expired_lease now (fix_pool c)")
    case True
    show ?thesis
      by (rule calm_release [where j' = "fix_pool c"])
         (use True in \<open>simp_all add: d2_def d1_def S nl L\<close>)
  next
    case False
    then show ?thesis using Q(1) nl L
      by (intro calm_put [where j = c and j' = "fix_pool c"])
         (simp_all add: d2_def d1_def row_calm_def S)
  qed
  show rel: "scan_rel d d2" using scan_rel_fix [OF inv Q(1) act] by (simp add: d2_def d1_def)
  have "j \<in> set (jobs d1)" unfolding j_def d1_def put_job_frame using Q(1) S(1) by (metis in_put_rowI)
  then show "j \<in> set (jobs d2)" by (simp add: d2_def)
  show cl: "claimable now d2 j" unfolding j_def using claimable_cong [OF rel same_but_pool_fix [OF act]] Q(2) by simp
  show "job_id j \<notin> set locked" using Q(4) S by (simp add: j_def)
  show "\<forall>ks. ca_kinds a = Some ks \<longrightarrow> job_kind_of j \<in> set ks"
    using Q(3) by (auto simp: j_def S(2) in_scope_def scan_filter_def)
  show "\<not> (expired_lease now j \<and> job_max_attempts j \<le> job_attempts j)"
    using claimableD [OF cl] by simp
  show "\<forall>p \<in> set (permits d2). prm_job_id p \<noteq> job_id j"
  proof (cases "expired_lease now (fix_pool c)")
    case True
    then show ?thesis by (simp add: d2_def j_def)
  next
    case False
    then have "job_status c \<noteq> LEASED"
      using Q(2) L by (auto simp: claimable_def ready_def)
    then show ?thesis
      using no_permits_unless_leased [OF inv Q(1)] False S by (simp add: d2_def d1_def j_def)
  qed
qed

lemma scan_loop_spec:
  assumes "queue_inv d" and "claim_scan_loop n now a locked s d = (r, d1)"
  shows "case r of
      None \<Rightarrow> queue_inv d1 \<and> calm now d d1 \<and>
        (\<exists>e. scan_rel d e \<and> queue_inv e \<and> (d1 = e \<or> d1 = snd (fail_exhausted_leases now locked e)))
    | Some j \<Rightarrow> \<exists>e. scan_found now a locked d j e d1"
  using assms
proof (induction n arbitrary: s d)
  case 0
  then show ?case by (auto simp: claim_scan_loop.simps intro: scan_rel_refl)
next
  case (Suc n)
  show ?case
  proof (cases "claim_query now (scan_filter a s) locked d")
    case None
    then show ?thesis
      using Suc.prems by (auto simp: claim_scan_loop.simps(2) fail_exhausted_inv fail_exhausted_calm intro!: exI [of _ d])
  next
    case (Some c)
    let ?j = "fix_pool c"
    let ?d1 = "put_job ?j d"
    let ?d2 = "if expired_lease now ?j then release_permits (job_id ?j) ?d1 else ?d1"
    note F = scan_step [OF Suc.prems(1) Some]
    let ?acq = "acquire_permits now (ca_window a) (ca_pool_limits a) (py_strip (ca_owner a))
                  (now + ca_lease_for a) ?j ?d2"
    have step: "claim_scan_loop (Suc n) now a locked s d =
      (case ?acq of Some d3 \<Rightarrow> (Some ?j, d3)
       | None \<Rightarrow> claim_scan_loop n now a locked (scan_reject now a ?j ?d2 s) ?d2)"
      by (simp only: claim_scan_loop.simps(2) Some option.case Let_def if_not_P [OF F(8)])
    show ?thesis
    proof (cases ?acq)
      case None
      then have "claim_scan_loop n now a locked (scan_reject now a ?j ?d2 s) ?d2 = (r, d1)"
        using Suc.prems(2) step by (simp only: option.case)
      note ih = Suc.IH [OF F(1) this]
      then show ?thesis
        by (auto simp: scan_found_def split: option.splits
            intro: scan_rel_trans [OF F(2)] calm_trans [OF F(9)])
    next
      case (Some d3)
      then have "r = Some ?j" "d1 = d3" using Suc.prems(2) step by (simp_all only: option.case prod.inject)
      moreover have "scan_found now a locked d ?j ?d2 d3"
        using F Some by (simp only: scan_found_def) blast
      ultimately show ?thesis by (simp only: option.case) blast
    qed
  qed
qed


subsection \<open>The claim\<close>

lemma acquire_permits_SomeD:
  assumes "acquire_permits now w limits ow ex j d = Some d1"
  shows "d1 = d\<lparr>permits := permits d @
      map (\<lambda>pool. \<lparr>prm_job_id = job_id j, prm_pool = pool, prm_owner = ow, prm_lease_expires_at = ex\<rparr>)
        (filter (\<lambda>pool. map_of limits pool \<noteq> None) (permit_pools j))\<rparr>"
    and "\<not> series_locked now d j"
    and "\<forall>pool \<in> set (permit_pools j). \<forall>l. pool_limit now w d limits j pool = Some l \<longrightarrow>
           active_permits now d pool < l"
  using assms by (auto simp: acquire_permits_def list_ex_iff split: if_splits option.splits dest!: bspec)

lemma claim_SomeD:
  assumes inv: "queue_inv d" and res: "claim mv now a locked d = Inr (Some l, d')"
  obtains j e d1 p where "scan_found now a locked d j e d1" "flush_ok (lease_row now a j) (jobs e)"
    "parse_job_payload mv (job_kind_of j) (Raw (job_payload j)) = Inr p"
    "l = lease_of (lease_row now a j) p (now + ca_lease_for a)"
    "d' = record_event (lease_row now a j) EvLeased (py_strip (ca_owner a)) [] fmempty
            (put_job (lease_row now a j) d1)" "jobs d1 = jobs e"
    "0 < ca_lease_for a" "py_strip (ca_owner a) \<noteq> []"
proof -
  obtain r d1 where loop: "claim_scan_loop 50 now a locked (scan_init now a d) d = (r, d1)"
    by (cases "claim_scan_loop 50 now a locked (scan_init now a d) d")
  with res obtain j where r: "r = Some j"
    by (auto simp: claim_def split: if_splits option.splits)
  then obtain e where e: "scan_found now a locked d j e d1"
    using scan_loop_spec [OF inv loop] by auto
  then have "jobs d1 = jobs e" by (auto simp: scan_found_def dest: acquire_permits_SomeD(1))
  with e res loop r show ?thesis
    by (auto simp: claim_def flush_job_def Let_def bind_result_eq_Inr lease_row_def
        split: if_splits intro!: that)
qed

lemma claim_NoneD:
  assumes inv: "queue_inv d" and res: "claim mv now a locked d = Inr (None, d')"
  shows "queue_inv d' \<and> calm now d d' \<and>
    (\<exists>e. scan_rel d e \<and> queue_inv e \<and> (d' = e \<or> d' = snd (fail_exhausted_leases now locked e)))"
proof -
  obtain r d1 where loop: "claim_scan_loop 50 now a locked (scan_init now a d) d = (r, d1)"
    by (cases "claim_scan_loop 50 now a locked (scan_init now a d) d")
  then have "r = None \<and> d1 = d'"
    using res by (auto simp: claim_def bind_result_eq_Inr Let_def split: if_splits option.splits)
  then show ?thesis using scan_loop_spec [OF inv loop] by simp
qed

lemma permits_ok_lease:
  assumes ps: "permits_ok rs ps" and j: "j \<in> set rs" and no: "\<forall>p \<in> set ps. prm_job_id p \<noteq> job_id j"
    and id: "job_id j' = job_id j" and new: "\<forall>p \<in> set qs. permit_of p j'"
  shows "permits_ok (put_row job_id j' rs) (ps @ qs)"
proof -
  have "\<exists>k \<in> set (put_row job_id j' rs). permit_of p k" if "p \<in> set ps" for p
    using ps no that id unfolding permits_ok_def permit_of_def by (metis in_put_row_other)
  moreover have "j' \<in> set (put_row job_id j' rs)" using j id by (metis in_put_rowI)
  ultimately show ?thesis using new by (auto simp: permits_ok_def)
qed

lemma claim_inv:
  assumes inv: "queue_inv d" and res: "claim mv now a locked d = Inr (r, d')"
  shows "queue_inv d'"
proof (cases r)
  case None
  then show ?thesis using claim_NoneD [OF inv] res by simp
next
  case (Some l)
  then obtain j e d1 where sc: "scan_found now a locked d j e d1" and fl: "flush_ok (lease_row now a j) (jobs e)"
    and d': "d' = record_event (lease_row now a j) EvLeased (py_strip (ca_owner a)) [] fmempty
            (put_job (lease_row now a j) d1)"
    using claim_SomeD [OF inv] res by metis
  let ?j = "lease_row now a j"
  have je: "queue_inv e" "j \<in> set (jobs e)" "claimable now e j" "\<forall>p \<in> set (permits e). prm_job_id p \<noteq> job_id j"
    and acq: "acquire_permits now (ca_window a) (ca_pool_limits a) (py_strip (ca_owner a))
        (now + ca_lease_for a) j e = Some d1"
    using sc by (simp_all add: scan_found_def)
  note I = queue_invD [OF je(1)]
  note d1 = acquire_permits_SomeD(1) [OF acq]
  have ok: "job_ok ?j"
    using queue_inv_job_ok [OF je(1,2)] claimableD [OF je(3)] fl
    by (auto simp: job_ok_def job_checks_def lease_row_def flush_ok_def)
  show ?thesis
    unfolding d' queue_inv_event
  proof (rule queue_invI)
    show "rows_ok (jobs (put_job ?j d1)) (job_seq (put_job ?j d1))" using I(1) ok d1 by (simp add: rows_ok_put)
    show "unique_ok (jobs (put_job ?j d1))" using unique_ok_flush [OF I(2) fl] d1 by simp
    have "permits_ok (put_row job_id ?j (jobs e)) (permits d1)"
      unfolding d1 using je(4)
      by (simp, intro permits_ok_lease [OF I(3) je(2)]) (auto simp: lease_row_def permit_of_def)
    then show "permits_ok (jobs (put_job ?j d1)) (permits (put_job ?j d1))" using d1 by simp
    show "cycles_ok (jobs (put_job ?j d1)) (cycles (put_job ?j d1)) (cycle_seq (put_job ?j d1))"
      using cycles_ok_put [OF I(4) I(1) je(2), of ?j] claimableD [OF je(3)] d1
      by (simp add: lease_row_def no_new_units_def)
  qed
qed

end
