(* ===== verification/Machine.thy ===== *)
theory Machine
  imports Main
begin

text \<open>
  State machines as the components use them: an initial predicate, a step relation and an
  invariant that every step keeps.  The locale is interpreted on the step relation of every
  component that has one, and its lemmas give the invariant in all reachable states.
\<close>

locale invariant_machine =
  fixes init :: "'s \<Rightarrow> bool" and step :: "'s \<Rightarrow> 's \<Rightarrow> bool" and inv :: "'s \<Rightarrow> bool"
  assumes init_inv: "init s \<Longrightarrow> inv s"
    and step_inv: "inv s \<Longrightarrow> step s s' \<Longrightarrow> inv s'"
begin

lemma run_inv: "step\<^sup>*\<^sup>* s s' \<Longrightarrow> inv s \<Longrightarrow> inv s'"
  by (induction rule: rtranclp_induct) (auto intro: step_inv)

lemma reachable_inv: "init s \<Longrightarrow> step\<^sup>*\<^sup>* s s' \<Longrightarrow> inv s'"
  using init_inv run_inv by blast

end

text \<open>A machine whose every step also relates the state before to the state after in a way that
  composes: the relation then spans whole runs.\<close>

locale history_machine = invariant_machine +
  fixes hist :: "'s \<Rightarrow> 's \<Rightarrow> bool"
  assumes hist_refl: "hist s s"
    and hist_trans: "hist s s' \<Longrightarrow> hist s' s'' \<Longrightarrow> hist s s''"
    and step_hist: "inv s \<Longrightarrow> step s s' \<Longrightarrow> hist s s'"
begin

lemma run_hist: "step\<^sup>*\<^sup>* s s' \<Longrightarrow> inv s \<Longrightarrow> hist s s'"
proof (induction rule: rtranclp_induct)
  case base
  show ?case by (rule hist_refl)
next
  case (step y z)
  then show ?case using run_inv step_hist hist_trans by blast
qed

end

end
