(* ===== verification/Queue_Machine.thy ===== *)
theory Queue_Machine
  imports Queue_Claim_Facts Machine
begin

text \<open>
  The queue as a state machine: the clock and the database, stepped by every operation of
  \<^verbatim>\<open>JobQueue\<close> (each one a transaction) and by writes of other components to
  other tables.  The step relation yields the invariants of all reachable states and the
  life cycle of a job across whole runs.
\<close>

subsection \<open>A claim grants one lease\<close>

lemma permit_pools_distinct: "distinct (permit_pools j)"
  by (simp add: permit_pools_def)

lemma active_permits_append:
  "active_permits t (d\<lparr>permits := ps @ qs\<rparr>) pool =
     active_permits t (d\<lparr>permits := ps\<rparr>) pool + active_permits t (d\<lparr>permits := qs\<rparr>) pool"
  by (simp add: active_permits_def)

lemma active_permits_new:
  fixes d :: db
  assumes "distinct pools"
  shows "active_permits t (d\<lparr>permits := map (\<lambda>q. \<lparr>prm_job_id = i, prm_pool = q, prm_owner = ow,
           prm_lease_expires_at = ex\<rparr>) pools\<rparr>) pool \<le> (if pool \<in> set pools then 1 else 0)"
  using assms by (induction pools) (auto simp: active_permits_def filter_empty_conv split: if_splits)

lemma pool_bound_claim:
  assumes b: "pool_bound now limits e" and acq: "acquire_permits now w limits ow ex j e = Some d1"
  shows "pool_bound now limits d1"
  unfolding pool_bound_def
proof (clarify)
  fix pool l
  assume l: "(pool, l) \<in> set limits" "map_of limits pool = Some l" "\<not> adaptive_pool pool"
  let ?pools = "filter (\<lambda>pool. map_of limits pool \<noteq> None) (permit_pools j)"
  note A = acquire_permits_SomeD [OF acq]
  have le: "active_permits now d1 pool \<le> active_permits now e pool + (if pool \<in> set ?pools then 1 else 0)"
    unfolding A(1) active_permits_append
    using active_permits_new [where pools = ?pools and t = now and d = e and i = "job_id j" and ow = ow and ex = ex and pool = pool, OF distinct_filter [OF permit_pools_distinct]]
    by (simp add: active_permits_def)
  show "active_permits now d1 pool \<le> max 0 l"
  proof (cases "pool \<in> set ?pools")
    case True
    then have "active_permits now e pool < l" using A(3) l by (simp add: pool_limit_def)
    then show ?thesis using le True by simp
  next
    case False
    then show ?thesis using le b l by (fastforce simp: pool_bound_def)
  qed
qed

lemma series_excl_claim:
  assumes ex: "series_excl now rs" and d: "jobs e = rs" and j: "claimable now e j"
    and same: "job_id j' = job_id j" "job_kind_of j' = job_kind_of j" "job_series_key j' = job_series_key j"
  shows "series_excl now (put_row job_id j' rs)"
  unfolding series_excl_def
proof (intro ballI impI)
  fix x y
  assume a: "x \<in> set (put_row job_id j' rs)" "y \<in> set (put_row job_id j' rs)"
    "job_id x \<noteq> job_id y \<and> live_lease now x \<and> live_lease now y"
  have free: "series_free now e j" using j by (simp add: claimable_def)
  have no: "\<not> excludes x j'" "\<not> excludes j' x"
    if "x \<in> set rs" "job_id x \<noteq> job_id j" "live_lease now x" for x
    using free that d same
    by (auto simp: series_free_def series_conflict_def excludes_def list_ex_iff MUTATING_JOB_KINDS_def)
  from in_put_rowD [OF a(1)] in_put_rowD [OF a(2)] show "\<not> excludes x y"
    using a(3) no [of x] no [of y] same ex unfolding series_excl_def by auto
qed

lemma claim_lease_inv:
  assumes q: "queue_inv d" and inv: "lease_inv (ca_pool_limits a) now d"
    and res: "claim mv now a locked d = Inr (r, d')"
  shows "lease_inv (ca_pool_limits a) now d'"
proof (cases r)
  case None
  then show ?thesis using claim_NoneD [OF q] res inv calm_lease_inv by blast
next
  case (Some l)
  then obtain j e d1 where sc: "scan_found now a locked d j e d1" and pos: "0 < ca_lease_for a"
    and d': "d' = record_event (lease_row now a j) EvLeased (py_strip (ca_owner a)) [] fmempty
            (put_job (lease_row now a j) d1)"
    using claim_SomeD [OF q] res by metis
  let ?j = "lease_row now a j"
  have e: "lease_inv (ca_pool_limits a) now e" "claimable now e j" "calm now d e"
    using sc inv calm_lease_inv by (auto simp: scan_found_def)
  have acq: "acquire_permits now (ca_window a) (ca_pool_limits a) (py_strip (ca_owner a))
      (now + ca_lease_for a) j e = Some d1" using sc by (simp add: scan_found_def)
  note A = acquire_permits_SomeD [OF acq]
  have rows: "jobs d' = put_row job_id ?j (jobs e)" "permits d' = permits d1"
    by (simp_all add: d' A(1))
  have pools: "permit_pools ?j = permit_pools j" by (rule permit_pools_cong) (simp add: same_work_def lease_row_def)
  have "series_excl now (jobs d')"
    unfolding rows using e by (intro series_excl_claim [of _ _ e j]) (simp_all add: lease_inv_def lease_row_def)
  moreover have "pool_bound now (ca_pool_limits a) d'"
    using pool_bound_claim [OF _ acq] e(1) rows by (simp add: lease_inv_def pool_bound_def active_permits_def)
  moreover have "permits_held now (ca_pool_limits a) (jobs d') (permits d')"
    unfolding permits_held_def
  proof (intro ballI impI)
    fix k pool
    assume k: "k \<in> set (jobs d')" "live_lease now k" "pool \<in> set (permit_pools k)" "map_of (ca_pool_limits a) pool \<noteq> None"
    show "\<exists>p \<in> set (permits d'). permit_live now (job_id k) pool p"
    proof (cases "k = ?j")
      case True
      let ?p = "\<lparr>prm_job_id = job_id j, prm_pool = pool, prm_owner = py_strip (ca_owner a),
                 prm_lease_expires_at = now + ca_lease_for a\<rparr>"
      have "?p \<in> set (permits d')"
        unfolding rows A(1) using k(3,4) pools True by (simp add: image_iff)
      moreover have "permit_live now (job_id k) pool ?p"
        using pos True by (simp add: permit_live_def lease_row_def)
      ultimately show ?thesis by blast
    next
      case False
      then have "k \<in> set (jobs e)" using k(1) rows by (auto dest: in_put_rowD)
      then have "\<exists>p \<in> set (permits e). permit_live now (job_id k) pool p"
        using e(1) k unfolding lease_inv_def permits_held_def by blast
      then show ?thesis by (auto simp: rows A(1))
    qed
  qed
  ultimately show ?thesis by (simp add: lease_inv_def)
qed

subsection \<open>The life cycle of a job\<close>

text \<open>The abstract life cycle: which states may follow which in one operation.\<close>

fun job_edge :: "job_state \<Rightarrow> job_state \<Rightarrow> bool" where
  "job_edge QUEUED s = (s \<in> {QUEUED, LEASED, RETRY_WAIT, CANCELLED})"
| "job_edge RETRY_WAIT s = (s \<in> {RETRY_WAIT, QUEUED, LEASED, CANCELLED})"
| "job_edge LEASED s = True"
| "job_edge SUCCEEDED s = (s = SUCCEEDED)"
| "job_edge FAILED s = (s = FAILED)"
| "job_edge CANCELLED s = (s = CANCELLED)"

definition same_job :: "work_job \<Rightarrow> work_job \<Rightarrow> bool" where
  "same_job j j' = (job_id j' = job_id j \<and> job_kind_of j' = job_kind_of j \<and>
     job_dedupe_key j' = job_dedupe_key j \<and> job_series_key j' = job_series_key j \<and>
     job_cycle_id j' = job_cycle_id j)"

definition job_step :: "work_job \<Rightarrow> work_job \<Rightarrow> bool" where
  "job_step j j' = (j' = j \<or> is_active j \<and> same_job j j' \<and> job_edge (job_status j) (job_status j'))"

text \<open>Rows are only added at the end, and every old row makes a step of \<open>R\<close>.\<close>

definition moved :: "(work_job \<Rightarrow> work_job \<Rightarrow> bool) \<Rightarrow> db \<Rightarrow> db \<Rightarrow> bool" where
  "moved R d d' = list_all2 R (jobs d) (take (length (jobs d)) (jobs d'))"

lemma job_step_refl [simp]: "job_step j j"
  by (simp add: job_step_def)

lemma moved_same: "jobs d' = jobs d \<Longrightarrow> moved job_step d d'"
  by (simp add: moved_def list.rel_refl)

lemma moved_snoc: "jobs d' = jobs d @ [j] \<Longrightarrow> moved job_step d d'"
  by (simp add: moved_def list.rel_refl)

lemma moved_rows:
  "jobs d' = map f (jobs d) \<Longrightarrow> (\<And>j. j \<in> set (jobs d) \<Longrightarrow> R j (f j)) \<Longrightarrow> moved R d d'"
  by (simp add: moved_def list_all2_map2 list.rel_refl_strong)

lemma moved_put:
  assumes "jobs d' = put_row job_id j' (jobs d)" "queue_inv d" "j \<in> set (jobs d)" "job_id j' = job_id j" "R j j'"
    and refl: "\<And>k. R k k"
  shows "moved R d d'"
proof (rule moved_rows)
  show "jobs d' = map (\<lambda>k. if job_id k = job_id j' then j' else k) (jobs d)"
    using assms(1) by (simp add: put_row_def)
  show "R k (if job_id k = job_id j' then j' else k)" if "k \<in> set (jobs d)" for k
    using that assms rows_ok_eq [OF queue_invD(1) [OF assms(2)]] by auto
qed

lemma moved_scan: "scan_rel d e \<Longrightarrow> moved same_but_pool d e"
  using list_all2_lengthD [of same_but_pool "jobs d" "jobs e"] by (simp add: scan_rel_def moved_def)

lemma moved_length: "moved R d e \<Longrightarrow> length (jobs d) \<le> length (jobs e)"
  by (auto simp: moved_def dest: list_all2_lengthD)

lemma moved_comp:
  assumes d: "moved R d e" and e: "moved S e f"
    and RS: "\<And>i j k. R i j \<Longrightarrow> S j k \<Longrightarrow> T i k"
  shows "moved T d f"
proof -
  let ?n = "length (jobs d)"
  have "list_all2 S (take ?n (jobs e)) (take ?n (take (length (jobs e)) (jobs f)))"
    using e unfolding moved_def by (rule list_all2_takeI)
  then have "list_all2 S (take ?n (jobs e)) (take ?n (jobs f))"
    using moved_length [OF d] by (simp add: min_absorb1)
  moreover have "list_all2 R (jobs d) (take ?n (jobs e))" using d by (simp add: moved_def)
  ultimately show ?thesis unfolding moved_def using RS by (blast intro: list_all2_trans)
qed

lemma job_step_after_scan: "same_but_pool i j \<Longrightarrow> job_step j k \<Longrightarrow> job_step i k"
  using same_but_pool_fields [of i j]
  by (cases "j = i") (auto simp: job_step_def same_job_def same_but_pool_def)

lemmas step_defs = same_job_def drop_lease_def

lemma moved_refl [simp]: "moved job_step d d"
  by (simp add: moved_same)

lemma moved_step:
  "jobs d' = put_row job_id j' (jobs d) \<Longrightarrow> queue_inv d \<Longrightarrow> j \<in> set (jobs d) \<Longrightarrow> is_active j \<Longrightarrow>
     same_job j j' \<Longrightarrow> job_edge (job_status j) (job_status j') \<Longrightarrow> moved job_step d d'"
  by (rule moved_put, assumption+) (simp_all add: job_step_def same_job_def)

lemma finish_moved:
  "queue_inv d \<Longrightarrow> st \<in> {SUCCEEDED, FAILED, CANCELLED} \<Longrightarrow> moved job_step d (snd (finish now i ow st ev c m d))"
  by (auto simp: finish_def requeue_pending_def Let_def step_defs split: option.splits
      dest!: held_jobD intro!: moved_step)

lemma ends_moved:
  assumes "queue_inv d"
  shows "moved job_step d (snd (succeed now i ow d))" "moved job_step d (snd (fail now i ow c m d))"
    "moved job_step d (snd (retry now i ow av c m d))"
  using finish_moved [OF assms] assms
  by (auto simp: succeed_def fail_def retry_def Let_def step_defs split: option.splits
      dest!: held_jobD intro!: moved_step)

lemma cancel_moved: "queue_inv d \<Longrightarrow> moved job_step d (snd (cancel now i r d))"
  by (auto simp: cancel_def Let_def step_defs split: option.splits
      dest!: find_job_in intro!: moved_step)

lemma gives_back_moved:
  assumes "queue_inv d"
  shows "moved job_step d (snd (release now i ow r d))" "moved job_step d (snd (defer_job now i ow av c m d))"
  using assms
  by (auto simp: release_def defer_job_def Let_def step_defs split: option.splits
      dest!: owned_jobD intro!: moved_step)

lemma reroute_moved:
  "queue_inv d \<Longrightarrow> reroute mv now i ow p src av m dt d = Inr (b, d') \<Longrightarrow> moved job_step d d'"
  by (auto simp: reroute_def Let_def step_defs bind_result_eq_Inr split: option.splits
      dest!: owned_jobD intro!: moved_step)

lemma reroute_waiting_moved:
  "queue_inv d \<Longrightarrow> reroute_waiting mv now i p src av m dt d = Inr (b, d') \<Longrightarrow> moved job_step d d'"
  by (auto simp: reroute_waiting_def Let_def step_defs bind_result_eq_Inr split: option.splits if_splits
      dest!: find_job_in intro!: moved_step)

lemma retry_now_moved: "queue_inv d \<Longrightarrow> moved job_step d (snd (retry_now now i d))"
  by (auto simp: retry_now_def Let_def step_defs split: option.splits
      dest!: find_job_in intro!: moved_step)

lemma progress_moved: "queue_inv d \<Longrightarrow> moved job_step d (snd (progress now i ow m p d))"
  by (auto simp: progress_def progress_row_def Let_def step_defs split: option.splits
      dest!: held_jobD intro!: moved_step)

lemma heartbeat_moved:
  "queue_inv d \<Longrightarrow> heartbeat now i ow lf d = Inr (b, d') \<Longrightarrow> moved job_step d d'"
  by (auto simp: heartbeat_def Let_def step_defs put_job_def split: option.splits if_splits
      dest!: held_jobD intro!: moved_step)

lemma fold_jobs:
  assumes "\<And>j d. jobs (f j d) = put_row job_id (g j) (jobs d)"
  shows "jobs (fold f rows d) = fold (\<lambda>j. put_row job_id (g j)) rows (jobs d)"
  by (induction rows arbitrary: d) (simp_all add: assms)

lemma moved_fold:
  assumes inv: "queue_inv d" and f: "\<And>j d. jobs (f j d) = put_row job_id (g j) (jobs d)"
    and id: "\<And>j. job_id (g j) = job_id j" and sub: "set rows \<subseteq> set (jobs d)"
    and st: "\<And>j. j \<in> set rows \<Longrightarrow> job_step j (g j)"
  shows "moved job_step d (fold f rows d)"
proof (rule moved_rows)
  have "distinct (map job_id (jobs d))" using inv by (simp add: queue_inv_def rows_ok_def)
  then show "jobs (fold f rows d) = map (\<lambda>j. if j \<in> set rows then g j else j) (jobs d)"
    unfolding fold_jobs [of f g, OF f] using sub id by (rule fold_put_row)
qed (use st in auto)

lemma fail_exhausted_moved:
  assumes "queue_inv d"
  shows "moved job_step d (snd (fail_exhausted_leases now locked d))"
  unfolding fail_exhausted_leases_def Let_def snd_conv
  by (rule moved_fold [OF assms, where g = "\<lambda>j. j\<lparr>job_status := FAILED, job_lease_owner := [],
         job_lease_expires_at := None, job_heartbeat_at := None, job_error_code := ''lease_expired'',
         job_error_message := ''job lease expired after its final attempt'', job_updated_at := now,
         job_completed_at := Some now\<rparr>"])
     (auto simp: fail_expired_job_def Let_def job_step_def same_job_def exhausted_def expired_lease_def)

lemma resume_moved:
  assumes "queue_inv d"
  shows "moved job_step d (snd (resume_recovered_provider now src locked d))"
  unfolding resume_recovered_provider_def Let_def snd_conv
  by (rule moved_fold [OF assms, where g = "\<lambda>j. j\<lparr>job_available_at := now, job_error_code := [],
         job_error_message := [], job_updated_at := now\<rparr>"])
     (auto simp: resume_job_def Let_def job_step_def same_job_def outage_deferred_def)

text \<open>An active job changes but keeps its state.\<close>

definition job_stay :: "work_job \<Rightarrow> work_job \<Rightarrow> bool" where
  "job_stay j j' = (j' = j \<or> is_active j \<and> same_job j j' \<and> job_status j' = job_status j)"

lemma job_stay_refl [simp]: "job_stay j j"
  by (simp add: job_stay_def)

lemma job_stay_trans: "job_stay i j \<Longrightarrow> job_stay j k \<Longrightarrow> job_stay i k"
  by (auto simp: job_stay_def same_job_def)

lemma job_stay_step: "job_stay j j' \<Longrightarrow> job_step j j'"
  by (cases "job_status j") (auto simp: job_stay_def job_step_def)

lemma coalesce_stay:
  assumes "queue_inv d" "e \<in> set (jobs d)" "is_active e"
  shows "moved job_stay d (snd (coalesce_job now a pool dump e d))"
proof -
  have refl: "moved job_stay d d" by (simp add: moved_def list.rel_refl)
  show ?thesis
  proof (cases "merge_series e dump")
    case None
    then show ?thesis using refl by (simp add: coalesce_job_def)
  next
    case (Some rn)
    obtain r n where rn: "rn = (r, n)" by (cases rn)
    define e1 where "e1 = (if acquisition_promotion e dump then promote now a e else e)"
    obtain e2 m where e2: "absorb now a r n e1 = (e2, m)" by (cases "absorb now a r n e1")
    have "row_kept e e2"
      using absorb_kept(1) [OF e2] promote_kept(1) [of e now a]
      by (auto simp: e1_def intro: row_kept_trans split: if_splits)
    then have k: "job_stay e e2" "job_id e2 = job_id e"
      using assms(3) by (simp_all add: row_kept_def same_job_def same_key_def job_stay_def)
    have "moved job_stay d d'" if "jobs d' = put_row job_id e2 (jobs d)" for d'
      using that assms(1,2) k(2,1) by (rule moved_put) simp
    then show ?thesis
      using refl by (simp add: coalesce_job_def Some rn Let_def e2 flip: e1_def)
  qed
qed

lemma repool_stay:
  assumes "queue_inv d" "e \<in> set (jobs d)" "is_active e"
  shows "moved job_stay d (snd (repool now pool e d))"
proof (cases "job_status e \<noteq> LEASED \<and> job_pool e \<noteq> pool")
  case True
  let ?e = "e\<lparr>job_pool := pool, job_updated_at := now\<rparr>"
  show ?thesis
    by (rule moved_put [where j' = ?e, OF _ assms(1,2)])
       (use True assms in \<open>simp_all add: repool_def Let_def job_stay_def same_job_def\<close>)
qed (auto simp: repool_def moved_def list.rel_refl)

lemma enqueue_moved:
  assumes inv: "queue_inv d" and res: "enqueue mv now a d = Inr (j, b, d')"
  shows "moved job_step d d'"
proof (cases "active_job (eq_kind a) (py_strip (eq_dedupe_key a)) d")
  case None
  then obtain p where new: "enqueue_new now a (py_strip (eq_dedupe_key a)) p d = Inr (j, b, d')"
    using res by (auto simp: enqueue_def Let_def bind_result_eq_Inr split: if_splits)
  obtain c d1 where ac: "active_cycle now d = (c, d1)" by (cases "active_cycle now d")
  then have "jobs d1 = jobs d" using active_cycle_frame(1) [of now d] by simp
  then have "jobs d' = jobs d \<or> (\<exists>k. jobs d' = jobs d @ [k])"
    using new ac by (auto simp: enqueue_new_def Let_def insert_job_def put_cycle_def split: sum.splits option.splits if_splits)
  then show ?thesis using moved_same moved_snoc by blast
next
  case (Some e)
  note A = active_job_SomeD [OF Some]
  then have e: "e \<in> set (jobs d)" "is_active e" by blast+
  obtain p where d': "d' = snd (enqueue_existing now a p e d)"
    using res Some by (auto simp: enqueue_def Let_def bind_result_eq_Inr split_beta split: if_splits)
  note R = repool_inv [OF inv e, of now "routed_pool a p"]
  have stay: "moved job_stay d (snd (repool now (routed_pool a p) e d))" by (rule repool_stay [OF inv e])
  have "moved job_stay d d'"
    using stay moved_comp [OF stay coalesce_stay [OF R] job_stay_trans]
    by (simp add: d' enqueue_existing_def Let_def split_beta)
  then show ?thesis using job_stay_step unfolding moved_def by (blast intro: list_all2_mono)
qed

lemma claim_moved:
  assumes inv: "queue_inv d" and res: "claim mv now a locked d = Inr (r, d')"
  shows "moved job_step d d'"
proof -
  obtain e where e: "scan_rel d e" "moved job_step e d'"
  proof (cases r)
    case None
    then obtain e where "scan_rel d e" "queue_inv e" "d' = e \<or> d' = snd (fail_exhausted_leases now locked e)"
      using claim_NoneD [OF inv] res by blast
    then show ?thesis using that fail_exhausted_moved by auto
  next
    case (Some l)
    then obtain j e d1 where sc: "scan_found now a locked d j e d1" and d1: "jobs d1 = jobs e"
      and d': "d' = record_event (lease_row now a j) EvLeased (py_strip (ca_owner a)) [] fmempty
            (put_job (lease_row now a j) d1)"
      using claim_SomeD [OF inv] res by metis
    then have j: "queue_inv e" "j \<in> set (jobs e)" "scan_rel d e" "is_active j"
      using claimableD by (auto simp: scan_found_def)
    then have "moved job_step e d'"
      by (intro moved_step [where j = j and j' = "lease_row now a j"])
         (use j d1 in \<open>auto simp: d' lease_row_def same_job_def\<close>)
    then show ?thesis using that j by blast
  qed
  then show ?thesis using moved_comp [OF moved_scan e(2)] job_step_after_scan by blast
qed

subsection \<open>The step relation\<close>

text \<open>
  The clock does not go back between transactions.  \<open>Other\<close> is a transaction of another
  component: it leaves the queue's own tables alone and may write any other.  All workers are
  configured with the same pool limits, as the service reads them from one settings object.
\<close>

inductive queue_step :: "validator \<Rightarrow> pool_limits \<Rightarrow> instant \<times> db \<Rightarrow> instant \<times> db \<Rightarrow> bool"
  for model_validate limits where
  Enqueue: "t \<le> t' \<Longrightarrow> enqueue model_validate t' a d = Inr (j, b, d') \<Longrightarrow> queue_step model_validate limits (t, d) (t', d')"
| Claim: "t \<le> t' \<Longrightarrow> ca_pool_limits a = limits \<Longrightarrow> claim model_validate t' a locked d = Inr (r, d') \<Longrightarrow>
    queue_step model_validate limits (t, d) (t', d')"
| Heartbeat: "t \<le> t' \<Longrightarrow> heartbeat t' i ow lf d = Inr (b, d') \<Longrightarrow> queue_step model_validate limits (t, d) (t', d')"
| Succeed: "t \<le> t' \<Longrightarrow> succeed t' i ow d = (b, d') \<Longrightarrow> queue_step model_validate limits (t, d) (t', d')"
| Fail: "t \<le> t' \<Longrightarrow> fail t' i ow code msg d = (b, d') \<Longrightarrow> queue_step model_validate limits (t, d) (t', d')"
| Retry: "t \<le> t' \<Longrightarrow> retry t' i ow av code msg d = (st, d') \<Longrightarrow> queue_step model_validate limits (t, d) (t', d')"
| Cancel: "t \<le> t' \<Longrightarrow> cancel t' i msg d = (b, d') \<Longrightarrow> queue_step model_validate limits (t, d) (t', d')"
| Release: "t \<le> t' \<Longrightarrow> release t' i ow msg d = (b, d') \<Longrightarrow> queue_step model_validate limits (t, d) (t', d')"
| Defer: "t \<le> t' \<Longrightarrow> defer_job t' i ow av code msg d = (b, d') \<Longrightarrow> queue_step model_validate limits (t, d) (t', d')"
| Reroute: "t \<le> t' \<Longrightarrow> reroute model_validate t' i ow p src av msg details d = Inr (b, d') \<Longrightarrow>
    queue_step model_validate limits (t, d) (t', d')"
| RerouteWaiting: "t \<le> t' \<Longrightarrow> reroute_waiting model_validate t' i p src av msg details d = Inr (b, d') \<Longrightarrow>
    queue_step model_validate limits (t, d) (t', d')"
| RetryNow: "t \<le> t' \<Longrightarrow> retry_now t' i d = (jo, d') \<Longrightarrow> queue_step model_validate limits (t, d) (t', d')"
| Resume: "t \<le> t' \<Longrightarrow> resume_recovered_provider t' src locked d = (n, d') \<Longrightarrow>
    queue_step model_validate limits (t, d) (t', d')"
| Progress: "t \<le> t' \<Longrightarrow> progress t' i ow msg details d = (b, d') \<Longrightarrow> queue_step model_validate limits (t, d) (t', d')"
| FailExhausted: "t \<le> t' \<Longrightarrow> fail_exhausted_leases t' locked d = (n, d') \<Longrightarrow>
    queue_step model_validate limits (t, d) (t', d')"
| Cleanup: "t \<le> t' \<Longrightarrow> cleanup_expired_permits t' d = (n, d') \<Longrightarrow> queue_step model_validate limits (t, d) (t', d')"
| Other: "t \<le> t' \<Longrightarrow> jobs d' = jobs d \<Longrightarrow> job_seq d' = job_seq d \<Longrightarrow> permits d' = permits d \<Longrightarrow>
    cycles d' = cycles d \<Longrightarrow> cycle_seq d' = cycle_seq d \<Longrightarrow> queue_step model_validate limits (t, d) (t', d')"

inductive_cases queue_stepE: "queue_step mv limits s s'"

definition queue_init :: "instant \<times> db \<Rightarrow> bool" where
  "queue_init s = (jobs (snd s) = [] \<and> permits (snd s) = [] \<and> cycles (snd s) = [])"

definition queue_ok :: "pool_limits \<Rightarrow> instant \<times> db \<Rightarrow> bool" where
  "queue_ok limits s = (queue_inv (snd s) \<and> lease_inv limits (fst s) (snd s))"

definition kept_row :: "work_job \<Rightarrow> work_job \<Rightarrow> bool" where
  "kept_row j j' = (same_job j j' \<and> (\<not> is_active j \<longrightarrow> j' = j))"

lemma queue_init_ok: "queue_init s \<Longrightarrow> queue_ok limits s"
  by (auto simp: queue_init_def queue_ok_def inv_defs lease_inv_def series_excl_def pool_bound_def
      permits_held_def active_permits_def)

lemma queue_step_cases:
  assumes "queue_step mv limits (t, d) (t', d')" and q: "queue_inv d"
  shows "t \<le> t' \<and> queue_inv d' \<and> moved job_step d d' \<and>
    (calm t' d d' \<or> (\<exists>a locked r. ca_pool_limits a = limits \<and> claim mv t' a locked d = Inr (r, d')))"
  using assms(1)
proof (cases rule: queue_step.cases)
  case (Enqueue a j b)
  then show ?thesis using q by (auto intro: enqueue_inv enqueue_moved enqueue_calm)
next
  case (Claim a locked r)
  then show ?thesis using q by (auto intro: claim_inv claim_moved)
next
  case (Heartbeat i ow lf b)
  then show ?thesis using q by (auto intro: heartbeat_inv heartbeat_moved heartbeat_calm)
next
  case (Succeed i ow b)
  then show ?thesis using q succeed_inv ends_moved(1) succeed_calm(1) by (metis snd_conv)
next
  case (Fail i ow code msg b)
  then show ?thesis using q fail_inv ends_moved(2) succeed_calm(2) by (metis snd_conv)
next
  case (Retry i ow av code msg st)
  then show ?thesis using q retry_inv ends_moved(3) retry_calm by (metis snd_conv)
next
  case (Cancel i msg b)
  then show ?thesis using q cancel_inv cancel_moved cancel_calm by (metis snd_conv)
next
  case (Release i ow msg b)
  then show ?thesis using q release_inv gives_back_moved(1) release_calm(1) by (metis snd_conv)
next
  case (Defer i ow av code msg b)
  then show ?thesis using q defer_inv gives_back_moved(2) release_calm(2) by (metis snd_conv)
next
  case (Reroute i ow p src av msg details b)
  then show ?thesis using q by (auto intro: reroute_inv reroute_moved reroute_calm)
next
  case (RerouteWaiting i p src av msg details b)
  then show ?thesis using q by (auto intro: reroute_waiting_inv reroute_waiting_moved reroute_waiting_calm)
next
  case (RetryNow i jo)
  then show ?thesis using q retry_now_inv retry_now_moved retry_now_calm by (metis snd_conv)
next
  case (Resume src locked n)
  then show ?thesis using q resume_inv resume_moved resume_calm by (metis snd_conv)
next
  case (Progress i ow msg details b)
  then show ?thesis using q progress_inv progress_moved progress_calm by (metis snd_conv)
next
  case (FailExhausted locked n)
  then show ?thesis using q fail_exhausted_inv fail_exhausted_moved fail_exhausted_calm by (metis snd_conv)
next
  case (Cleanup n)
  then have "d' = snd (cleanup_expired_permits t' d)" by simp
  then show ?thesis
    using Cleanup q cleanup_permits_inv cleanup_calm
    by (auto simp: cleanup_expired_permits_def intro!: moved_same)
next
  case Other
  then show ?thesis using q queue_inv_cong [of d' d] by (simp add: moved_same calm_same)
qed

lemma queue_step_ok:
  assumes "queue_ok limits s" and "queue_step mv limits s s'"
  shows "queue_ok limits s'"
proof -
  obtain t d t' d' where s: "s = (t, d)" "s' = (t', d')" by (cases s, cases s')
  then have q: "queue_inv d" and l: "lease_inv limits t d" using assms(1) by (simp_all add: queue_ok_def)
  note C = queue_step_cases [OF assms(2) [unfolded s] q]
  then have l': "lease_inv limits t' d" using lease_inv_time [OF q l] by blast
  from C have "lease_inv limits t' d'" using calm_lease_inv [OF l'] claim_lease_inv [OF q] l' by blast
  with C show ?thesis by (simp add: queue_ok_def s)
qed

lemma kept_row_refl [simp]: "kept_row j j"
  by (simp add: kept_row_def same_job_def)

lemma kept_row_trans: "kept_row i j \<Longrightarrow> kept_row j k \<Longrightarrow> kept_row i k"
  by (cases "is_active i"; cases "is_active j") (auto simp: kept_row_def same_job_def)

lemma job_step_kept: "job_step j j' \<Longrightarrow> kept_row j j'"
  by (auto simp: job_step_def kept_row_def same_job_def)

interpretation queue: history_machine queue_init "queue_step mv limits" "queue_ok limits"
  "\<lambda>s s'. moved kept_row (snd s) (snd s')" for mv limits
proof unfold_locales
  show "queue_init s \<Longrightarrow> queue_ok limits s" for s by (rule queue_init_ok)
  show "queue_ok limits s \<Longrightarrow> queue_step mv limits s s' \<Longrightarrow> queue_ok limits s'" for s s' by (rule queue_step_ok)
  show "moved kept_row (snd s) (snd s)" for s :: "instant \<times> db"
    by (simp add: moved_def list.rel_refl)
  show "moved kept_row (snd s) (snd s') \<Longrightarrow> moved kept_row (snd s') (snd s'') \<Longrightarrow> moved kept_row (snd s) (snd s'')"
    for s s' s'' :: "instant \<times> db"
    by (rule moved_comp [OF _ _ kept_row_trans])
  show "moved kept_row (snd s) (snd s')" if "queue_ok limits s" "queue_step mv limits s s'" for s s'
  proof -
    obtain t d t' d' where s: "s = (t, d)" "s' = (t', d')" by (cases s, cases s')
    have "moved job_step d d'"
      using queue_step_cases [OF that(2) [unfolded s]] that(1) by (simp add: queue_ok_def s)
    then show ?thesis using job_step_kept unfolding moved_def s snd_conv by (blast intro: list_all2_mono)
  qed
qed

end
