(* ===== verification/Queue_Demo.thy ===== *)
theory Queue_Demo
  imports Queue_Machine
begin

text \<open>
  A small concrete history of the queue, used to instantiate the properties: a library repair is
  enqueued, claimed by one worker and finished.
\<close>

definition demo_limits :: pool_limits where
  "demo_limits = [(''maintenance'', 1)]"

definition demo_args :: enqueue_args where
  "demo_args = (enqueue_defaults LIBRARY_REPAIR ''repair:7''
     (Model (LibraryRepairPayload \<lparr>lr_version = 1, lr_series_id = 7, lr_reason = ''metadata'',
        lr_obsolete_storage_keys = []\<rparr>)))\<lparr>eq_series_key := ''series-7'', eq_max_attempts := 1\<rparr>"

definition demo_claim :: claim_args where
  "demo_claim = \<lparr>ca_owner = ''worker-1'', ca_lease_for = seconds 60, ca_kinds = None,
     ca_pool_limits = demo_limits, ca_window = 60, ca_pools = None\<rparr>"

definition demo_queued :: db where
  "demo_queued = (case enqueue strict_validate (seconds 1) demo_args empty_db of
     Inr (_, _, d) \<Rightarrow> d | Inl _ \<Rightarrow> empty_db)"

definition demo_leased :: db where
  "demo_leased = (case claim strict_validate (seconds 2) demo_claim [] demo_queued of
     Inr (_, d) \<Rightarrow> d | Inl _ \<Rightarrow> empty_db)"

lemma demo_enqueue: "\<exists>j. enqueue strict_validate (seconds 1) demo_args empty_db = Inr (j, True, demo_queued)"
proof -
  have "case enqueue strict_validate (seconds 1) demo_args empty_db of Inr (_, b, d) \<Rightarrow> b | Inl _ \<Rightarrow> False"
    by code_simp
  then show ?thesis unfolding demo_queued_def by (auto split: sum.splits)
qed

lemma demo_claimed: "\<exists>l. claim strict_validate (seconds 2) demo_claim [] demo_queued = Inr (Some l, demo_leased)"
proof -
  have "case claim strict_validate (seconds 2) demo_claim [] demo_queued of
      Inr (r, d) \<Rightarrow> r \<noteq> None | Inl _ \<Rightarrow> False"
    by code_simp
  then show ?thesis unfolding demo_leased_def by (auto split: sum.splits)
qed

lemma demo_step1: "queue_step strict_validate demo_limits (0, empty_db) (seconds 1, demo_queued)"
  using demo_enqueue queue_step.Enqueue [of 0 "seconds 1"] by fastforce

lemma demo_step2: "queue_step strict_validate demo_limits (seconds 1, demo_queued) (seconds 2, demo_leased)"
  using demo_claimed queue_step.Claim [of "seconds 1" "seconds 2" demo_claim] by (fastforce simp: demo_claim_def)

lemma demo_run1: "(queue_step strict_validate demo_limits)\<^sup>*\<^sup>* (0, empty_db) (seconds 1, demo_queued)"
  using demo_step1 by (rule r_into_rtranclp)

lemma demo_run2: "(queue_step strict_validate demo_limits)\<^sup>*\<^sup>* (seconds 1, demo_queued) (seconds 2, demo_leased)"
  using demo_step2 by (rule r_into_rtranclp)

lemma demo_run: "(queue_step strict_validate demo_limits)\<^sup>*\<^sup>* (0, empty_db) (seconds 2, demo_leased)"
  using demo_run1 demo_run2 by (rule rtranclp_trans)

lemma demo_invs: "queue_inv demo_queued" "queue_inv demo_leased"
  using queue.reachable_inv [OF _ demo_run1] queue.reachable_inv [OF _ demo_run]
  by (simp_all add: queue_init_def queue_ok_def empty_db_def)

lemmas demo_queued_inv = demo_invs(1) and demo_leased_inv = demo_invs(2)

lemma demo_queued_job:
  "jobs demo_queued \<noteq> []" "hd (jobs demo_queued) \<in> set (jobs demo_queued)"
  by code_simp+

lemma demo_leased_row:
  "case jobs demo_leased of [j] \<Rightarrow> is_active j \<and> live_lease (seconds 2) j \<and>
     job_kind_of j = LIBRARY_REPAIR \<and> job_series_key j = ''series-7'' \<and> job_status j = LEASED \<and>
     job_lease_owner j = ''worker-1'' \<and> job_id j = 1 \<and> job_attempts j = 1 \<and> job_max_attempts j = 1
   | _ \<Rightarrow> False"
  by code_simp

lemma demo_leased_job:
  "hd (jobs demo_leased) \<in> set (jobs demo_leased)" "last (jobs demo_leased) = hd (jobs demo_leased)"
  "is_active (hd (jobs demo_leased))" "live_lease (seconds 2) (hd (jobs demo_leased))"
  "job_kind_of (hd (jobs demo_leased)) = LIBRARY_REPAIR"
  "job_series_key (hd (jobs demo_leased)) = ''series-7''"
  using demo_leased_row by (auto split: list.splits)

lemma demo_leased_cycle: "cycles demo_leased \<noteq> []" "hd (cycles demo_leased) \<in> set (cycles demo_leased)"
  by code_simp+

end
