(* ===== verification/Queue_Properties.thy ===== *)
theory Queue_Properties
  imports Queue_Demo
begin

text \<open>
  The properties of the job queue: what holds in every reachable state, what each operation does
  on its branches, and the situations in which a job is stranded.  Every property with a
  hypothesis is followed by an instance on the concrete history of \<^verbatim>\<open>Queue_Demo\<close>.
\<close>

subsection \<open>Shared facts\<close>

lemma reachable_ok:
  assumes "queue_init s" and "(queue_step mv limits)\<^sup>*\<^sup>* s (t, d)"
  shows "queue_inv d" "lease_inv limits t d"
  using queue.reachable_inv [OF assms] by (simp_all add: queue_ok_def)

text \<open>The jobs that are running in a pool.\<close>

definition running_in :: "instant \<Rightarrow> string \<Rightarrow> db \<Rightarrow> work_job list" where
  "running_in t pool d = filter (\<lambda>j. live_lease t j \<and> pool \<in> set (permit_pools j)) (jobs d)"

lemma running_le_permits:
  assumes q: "queue_inv d" and h: "permits_held t limits (jobs d) (permits d)" and l: "map_of limits pool \<noteq> None"
  shows "int (length (running_in t pool d)) \<le> active_permits t d pool"
proof -
  let ?ps = "filter (\<lambda>p. prm_pool p = pool \<and> t < prm_lease_expires_at p) (permits d)"
  have "distinct (map job_id (running_in t pool d))"
    unfolding running_in_def using q by (rule queue_inv_filter_distinct)
  then have "length (running_in t pool d) = card (set (map job_id (running_in t pool d)))"
    using distinct_card by fastforce
  also have "\<dots> \<le> card (set (map prm_job_id ?ps))"
  proof (rule card_mono)
    show "set (map job_id (running_in t pool d)) \<subseteq> set (map prm_job_id ?ps)"
    proof
      fix i
      assume "i \<in> set (map job_id (running_in t pool d))"
      then obtain j where j: "j \<in> set (jobs d)" "live_lease t j" "pool \<in> set (permit_pools j)" "i = job_id j"
        by (auto simp: running_in_def)
      then obtain p where "p \<in> set (permits d)" "permit_live t i pool p"
        using h l unfolding permits_held_def by blast
      then show "i \<in> set (map prm_job_id ?ps)" by (auto simp: permit_live_def)
    qed
  qed simp
  also have "\<dots> \<le> length ?ps" using card_length [of "map prm_job_id ?ps"] by (simp only: length_map)
  finally show ?thesis by (simp add: active_permits_def)
qed

lemma moved_in:
  assumes "moved R d d'" "j \<in> set (jobs d)"
  shows "\<exists>j' \<in> set (jobs d'). R j j'"
proof -
  obtain n where n: "n < length (jobs d)" "jobs d ! n = j" using assms(2) by (auto simp: in_set_conv_nth)
  let ?js = "take (length (jobs d)) (jobs d')"
  have all: "list_all2 R (jobs d) ?js" using assms(1) by (simp only: moved_def)
  then have "R j (?js ! n)" using n list_all2_nthD by fastforce
  moreover have "?js ! n \<in> set ?js" using n(1) list_all2_lengthD [OF all] by (metis nth_mem)
  ultimately show ?thesis using in_set_takeD by metis
qed

lemma demo_reachable:
  "queue_init (0, empty_db)" "(queue_step strict_validate demo_limits)\<^sup>*\<^sup>* (0, empty_db) (seconds 2, demo_leased)"
  using demo_run by (simp_all add: queue_init_def empty_db_def)

subsection \<open>Reachable states\<close>

lemma running_bounded:
  assumes "queue_inv d" "lease_inv limits t d" "map_of limits pool = Some l" "\<not> adaptive_pool pool"
  shows "int (length (running_in t pool d)) \<le> max 0 l"
proof -
  have "int (length (running_in t pool d)) \<le> active_permits t d pool"
    using assms by (intro running_le_permits) (auto simp: lease_inv_def)
  also have "\<dots> \<le> max 0 l"
    using assms(2-) map_of_SomeD [OF assms(3)] by (fastforce simp: lease_inv_def pool_bound_def)
  finally show ?thesis .
qed

text \<open>C1. In every state the queue can reach, two active jobs of the same kind and
  deduplication key are one and the same job.\<close>

theorem reachable_unique_active:
  assumes "queue_init s" and "(queue_step mv limits)\<^sup>*\<^sup>* s (t, d)"
    and "j \<in> set (jobs d)" "k \<in> set (jobs d)" "is_active j" "is_active k"
    and "job_kind_of j = job_kind_of k" "job_dedupe_key j = job_dedupe_key k"
  shows "j = k"
  using reachable_ok(1) [OF assms(1,2)] assms(3-)
  by (metis dedupe_clash_def queue_invD(1,2) rows_ok_eq unique_ok_def)

theorem reachable_unique_active_witness:
  "hd (jobs demo_leased) = last (jobs demo_leased) \<and> is_active (hd (jobs demo_leased))"
proof -
  note F = demo_leased_job
  show ?thesis
    using reachable_unique_active [OF demo_reachable, of "hd (jobs demo_leased)" "last (jobs demo_leased)"] F
    by simp
qed

text \<open>C2. Mutual exclusion on a series: in every reachable state, while a library repair holds a
  live lease on a series, no other job that mutates the library holds a live lease on it.\<close>

theorem reachable_series_exclusion:
  assumes "queue_init s" and "(queue_step mv limits)\<^sup>*\<^sup>* s (t, d)"
    and "j \<in> set (jobs d)" "k \<in> set (jobs d)" "live_lease t j" "live_lease t k"
    and "job_kind_of j = LIBRARY_REPAIR" "job_series_key j \<noteq> []"
    and "job_kind_of k \<in> set MUTATING_JOB_KINDS" "job_series_key k = job_series_key j"
  shows "j = k"
proof -
  note R = reachable_ok [OF assms(1,2)]
  have "job_id j = job_id k"
    using R(2) assms(3-) unfolding lease_inv_def series_excl_def excludes_def by blast
  then show ?thesis using rows_ok_eq [OF queue_invD(1) [OF R(1)]] assms(3,4) by blast
qed

theorem reachable_series_exclusion_witness:
  "hd (jobs demo_leased) = last (jobs demo_leased) \<and> live_lease (seconds 2) (hd (jobs demo_leased))"
  using reachable_series_exclusion [OF demo_reachable, of "hd (jobs demo_leased)" "last (jobs demo_leased)"]
    demo_leased_job by (simp add: MUTATING_JOB_KINDS_def)

text \<open>C3. Bounded concurrency: in every reachable state, the jobs that run in a pool of fixed size
  (one that no provider policy adapts) are at most as many as its configured limit.\<close>

theorem reachable_pool_bound:
  assumes "queue_init s" and "(queue_step mv limits)\<^sup>*\<^sup>* s (t, d)"
    and "map_of limits pool = Some l" "\<not> adaptive_pool pool"
  shows "int (length (running_in t pool d)) \<le> max 0 l"
  using reachable_ok [OF assms(1,2)] assms(3,4) by (rule running_bounded)

theorem reachable_pool_bound_witness:
  "int (length (running_in (seconds 2) ''maintenance'' demo_leased)) \<le> 1"
  using reachable_pool_bound [OF demo_reachable, of "''maintenance''" 1]
  by (simp add: demo_limits_def adaptive_pool_def py_startswith_def)

text \<open>C5. Conservation of work when the transactions that touch a workload cycle run one after another, as the
  steps of the queue do (ending a job locks the row of the job and not that of its cycle, so this is an assumption
  about the schedule, not something the code enforces: see \<open>settle_races_enqueue\<close> below): in every reachable
  state the finished units of a workload cycle and the units still in active jobs never exceed the units added to
  it, a settled cycle has no active job left, and there is at most one active cycle.\<close>

theorem reachable_cycle_conservation:
  assumes "queue_init s" and "(queue_step mv limits)\<^sup>*\<^sup>* s (t, d)" and "c \<in> set (cycles d)"
  shows "cyc_total_units c = cyc_added_units c \<and>
    cyc_successful_units c + cyc_failed_units c + cyc_cancelled_units c + open_units (cyc_id c) (jobs d)
      \<le> cyc_total_units c \<and>
    (cyc_status c = CycleSettled \<longrightarrow> \<not> list_ex (active_in_cycle (cyc_id c)) (jobs d)) \<and>
    (\<forall>e \<in> set (cycles d). cyc_status c = CycleActive \<and> cyc_status e = CycleActive \<longrightarrow> e = c)"
  using queue_invD(4) [OF reachable_ok(1) [OF assms(1,2)]] assms(3)
  unfolding cycles_ok_def cycle_ok_def by blast

theorem reachable_cycle_conservation_witness:
  "let c = hd (cycles demo_leased) in
     cyc_successful_units c + cyc_failed_units c + cyc_cancelled_units c + open_units (cyc_id c) (jobs demo_leased)
       \<le> cyc_total_units c \<and> cycles demo_leased \<noteq> []"
  using reachable_cycle_conservation [OF demo_reachable, of "hd (cycles demo_leased)"] demo_leased_cycle
  by (simp add: Let_def)

text \<open>
  Without that assumption a settled cycle can have an active job.  Ending a job counts the jobs that remain in
  its cycle and writes the cycle back later, without a lock on it; an enqueue may commit between the two.
  \<open>succeed_over\<close> is \<open>succeed\<close> (of a job with no pending payload) with the rows it counted, \<open>stored\<close>, apart
  from the database it writes to.
\<close>

definition succeed_over :: "work_job list \<Rightarrow> instant \<Rightarrow> int \<Rightarrow> string \<Rightarrow> db \<Rightarrow> db" where
  "succeed_over stored now i owner d =
     (case held_job now i owner d of
        None \<Rightarrow> d
      | Some j \<Rightarrow>
          (let j1 = (drop_lease j)\<lparr>job_status := SUCCEEDED, job_error_code := [], job_error_message := [],
                      job_updated_at := now, job_completed_at := Some now\<rparr>
           in record_terminal_units_in stored j1 SUCCEEDED now
                (record_event j1 EvSucceeded owner [] fmempty (release_permits (job_id j1) (put_job j1 d)))))"

lemma counted_rows:
  "list_ex (\<lambda>k. active_in_cycle c k \<and> job_id k \<noteq> job_id j) (put_row job_id j rs) =
   list_ex (\<lambda>k. active_in_cycle c k \<and> job_id k \<noteq> job_id j) rs"
  by (induction rs) (auto simp: put_row_def)

lemma succeed_over_serial:
  assumes "held_job now i ow d = Some j" "job_pending_payload j = fmempty"
  shows "succeed_over (jobs d) now i ow d = snd (succeed now i ow d)"
  using assms
  by (simp add: succeed_over_def succeed_def finish_def Let_def record_terminal_units_def record_terminal_units_in_def
      counted_rows cong: option.case_cong)

definition demo_raced :: db where
  "demo_raced = (case enqueue strict_validate (seconds 3) (demo_args\<lparr>eq_dedupe_key := ''repair:8''\<rparr>) demo_leased of
     Inr (_, _, d) \<Rightarrow> d | Inl _ \<Rightarrow> empty_db)"

lemma settle_races_enqueue:
  "let d = succeed_over (jobs demo_leased) (seconds 4) 1 ''worker-1'' demo_raced
   in list_ex (\<lambda>c. cyc_status c = CycleSettled \<and> list_ex (active_in_cycle (cyc_id c)) (jobs d)) (cycles d)"
  by code_simp

text \<open>C6. The life cycle of a job, as a refinement: every operation of the queue moves every job
  along an edge of the abstract life cycle, and a finished job is not changed at all.\<close>

theorem step_follows_lifecycle:
  assumes "queue_init s" and "(queue_step mv limits)\<^sup>*\<^sup>* s (t, d)"
    and "queue_step mv limits (t, d) (t', d')" and "j \<in> set (jobs d)"
  shows "\<exists>j' \<in> set (jobs d'). same_job j j' \<and> job_edge (job_status j) (job_status j') \<and>
    (\<not> is_active j \<longrightarrow> j' = j)"
proof -
  have "moved job_step d d'" using queue_step_cases [OF assms(3)] reachable_ok(1) [OF assms(1,2)] by blast
  then obtain j' where j': "j' \<in> set (jobs d')" "job_step j j'" using moved_in assms(4) by blast
  have "job_edge (job_status j) (job_status j)" by (cases "job_status j") simp_all
  with j' show ?thesis by (intro bexI [of _ j']) (auto simp: job_step_def same_job_def)
qed

theorem step_follows_lifecycle_witness:
  "\<exists>j' \<in> set (jobs demo_leased). same_job (hd (jobs demo_queued)) j' \<and>
     job_edge (job_status (hd (jobs demo_queued))) (job_status j')"
  using step_follows_lifecycle [OF demo_reachable(1) demo_run1 demo_step2,
      of "hd (jobs demo_queued)"] demo_queued_job by auto

text \<open>Across any run, no job is lost, none changes its identity, and a job that has finished
  stays exactly as it is.\<close>

theorem run_keeps_jobs:
  assumes "queue_init s" and "(queue_step mv limits)\<^sup>*\<^sup>* s (t, d)"
    and "(queue_step mv limits)\<^sup>*\<^sup>* (t, d) (t', d')" and "j \<in> set (jobs d)"
  shows "(\<exists>j' \<in> set (jobs d'). same_job j j') \<and> (\<not> is_active j \<longrightarrow> j \<in> set (jobs d'))"
proof -
  have "queue_ok limits (t, d)" by (rule queue.reachable_inv [OF assms(1,2)])
  then have "moved kept_row d d'" using queue.run_hist [OF assms(3)] by simp
  then obtain j' where "j' \<in> set (jobs d')" "kept_row j j'" using moved_in assms(4) by blast
  then show ?thesis by (auto simp: kept_row_def)
qed

theorem run_keeps_jobs_witness:
  "\<exists>j' \<in> set (jobs demo_leased). same_job (hd (jobs demo_queued)) j'"
  using run_keeps_jobs [OF demo_reachable(1) demo_run1 demo_run2,
      of "hd (jobs demo_queued)"] demo_queued_job by auto

end
