(* ===== verification/Queue_Op_Properties.thy ===== *)
theory Queue_Op_Properties
  imports Queue_Demo
begin

text \<open>
  What the single operations of the queue do: the job a claim hands out, the fencing of workers
  that lost their lease, the outcome of retries, and enqueueing.
\<close>

subsection \<open>Claiming\<close>

lemma scan_rel_origin:
  assumes "scan_rel d e" "j \<in> set (jobs e)"
  obtains i where "i \<in> set (jobs d)" "same_but_pool i j"
proof -
  have l: "list_all2 same_but_pool (jobs d) (jobs e)" using assms(1) by (simp add: scan_rel_def)
  obtain n where n: "n < length (jobs e)" "jobs e ! n = j" using assms(2) by (auto simp: in_set_conv_nth)
  then have "n < length (jobs d)" "same_but_pool (jobs d ! n) j"
    using list_all2_lengthD [OF l] list_all2_nthD2 [OF l n(1)] by simp_all
  then show ?thesis using that nth_mem by blast
qed

lemma lease_row_fields:
  "job_id (lease_row now a j) = job_id j" "job_status (lease_row now a j) = LEASED"
  "job_lease_owner (lease_row now a j) = py_strip (ca_owner a)"
  "job_lease_expires_at (lease_row now a j) = Some (now + ca_lease_for a)"
  "job_attempts (lease_row now a j) = job_attempts j + 1"
  "job_max_attempts (lease_row now a j) = job_max_attempts j"
  "job_kind_of (lease_row now a j) = job_kind_of j" "job_payload (lease_row now a j) = job_payload j"
  by (simp_all add: lease_row_def)

lemma claimed_row:
  assumes inv: "queue_inv d" and res: "claim mv now a locked d = Inr (Some l, d')"
  obtains j k where "j \<in> set (jobs d)" "same_but_pool j k" "claimable now d j" "job_id j \<notin> set locked"
    "\<forall>ks. ca_kinds a = Some ks \<longrightarrow> job_kind_of j \<in> set ks"
    "find_job (lease_id l) d' = Some (lease_row now a k)"
    "parse_job_payload mv (job_kind_of j) (Raw (job_payload j)) = Inr (lease_payload l)"
    "lease_id l = job_id j" "lease_attempt l = job_attempts j + 1" "lease_owner l = py_strip (ca_owner a)"
proof -
  obtain k e d1 p where sc: "scan_found now a locked d k e d1" and d1: "jobs d1 = jobs e"
    and p: "parse_job_payload mv (job_kind_of k) (Raw (job_payload k)) = Inr p"
    and l: "l = lease_of (lease_row now a k) p (now + ca_lease_for a)"
    and d': "d' = record_event (lease_row now a k) EvLeased (py_strip (ca_owner a)) [] fmempty
            (put_job (lease_row now a k) d1)"
    using claim_SomeD [OF inv res] by metis
  have k: "scan_rel d e" "k \<in> set (jobs e)" "claimable now e k" "job_id k \<notin> set locked" "queue_inv e"
    "\<forall>ks. ca_kinds a = Some ks \<longrightarrow> job_kind_of k \<in> set ks"
    using sc by (simp_all add: scan_found_def)
  obtain j where j: "j \<in> set (jobs d)" "same_but_pool j k" using scan_rel_origin [OF k(1,2)] .
  note S = same_but_pool_fields [OF j(2)]
  have "find_job (job_id k) e = Some k" using queue_inv_find [OF k(5,2)] .
  then have "find_job (lease_id l) d' = Some (lease_row now a k)"
    by (simp add: l lease_of_def d' d1 lease_row_fields get_put_row_same)
  moreover have "claimable now d j" using claimable_cong [OF k(1) j(2)] k(3) by simp
  ultimately show ?thesis
    using that [OF j] k p S by (simp add: l lease_of_def lease_row_fields)
qed

text \<open>C7. A claim hands out a job that was claimable in the database it started from, that no
  other transaction had locked and whose kind was asked for; the job is then leased to the
  (stripped) owner until \<open>now + lease_for\<close> and has used one more of its attempts, never more than
  its maximum.\<close>

theorem claim_sound:
  assumes "queue_inv d" and "claim mv now a locked d = Inr (Some l, d')"
  shows "\<exists>j \<in> set (jobs d). \<exists>j'. job_id j = lease_id l \<and> claimable now d j \<and> \<not> live_lease now j \<and>
    job_id j \<notin> set locked \<and> (\<forall>ks. ca_kinds a = Some ks \<longrightarrow> job_kind_of j \<in> set ks) \<and>
    find_job (lease_id l) d' = Some j' \<and> job_status j' = LEASED \<and>
    job_lease_owner j' = py_strip (ca_owner a) \<and> job_lease_expires_at j' = Some (now + ca_lease_for a) \<and>
    job_attempts j' = job_attempts j + 1 \<and> job_attempts j' \<le> job_max_attempts j' \<and>
    lease_attempt l = job_attempts j' \<and>
    parse_job_payload mv (job_kind_of j) (Raw (job_payload j)) = Inr (lease_payload l)"
proof -
  obtain j k where J: "j \<in> set (jobs d)" "same_but_pool j k" "claimable now d j" "job_id j \<notin> set locked"
    "\<forall>ks. ca_kinds a = Some ks \<longrightarrow> job_kind_of j \<in> set ks"
    "find_job (lease_id l) d' = Some (lease_row now a k)"
    "parse_job_payload mv (job_kind_of j) (Raw (job_payload j)) = Inr (lease_payload l)"
    "lease_id l = job_id j" "lease_attempt l = job_attempts j + 1"
    using claimed_row [OF assms] by metis
  show ?thesis
    using J claimableD [OF J(3)] same_but_pool_fields [OF J(2)]
    by (intro bexI [OF _ J(1)] exI [of _ "lease_row now a k"]) (simp add: lease_row_fields)
qed

theorem claim_sound_witness:
  "\<exists>l :: job_lease. \<exists>j \<in> set (jobs demo_queued). \<exists>j'. job_id j = lease_id l \<and> claimable (seconds 2) demo_queued j \<and>
    find_job (lease_id l) demo_leased = Some j' \<and> job_status j' = LEASED \<and>
    job_attempts j' = job_attempts j + 1 \<and> job_attempts j' \<le> job_max_attempts j'"
proof -
  obtain l where l: "claim strict_validate (seconds 2) demo_claim [] demo_queued = Inr (Some l, demo_leased)"
    using demo_claimed by blast
  show ?thesis using claim_sound [OF demo_queued_inv l] by blast
qed

subsection \<open>The order of claims\<close>

text \<open>With no limit configured and no provider policy recorded, no candidate is turned away.\<close>

lemma claimable_not_locked:
  assumes inv: "queue_inv d" and j: "j \<in> set (jobs d)" "claimable now d j"
  shows "\<not> series_locked now d j"
proof
  assume "series_locked now d j"
  then obtain k where k: "k \<in> set (jobs d)" "live_lease now k" "job_series_key k = job_series_key j"
    "job_kind_of k \<in> set (if job_kind_of j = CHAPTER_DOWNLOAD then [LIBRARY_REPAIR] else MUTATING_JOB_KINDS)"
    and m: "job_kind_of j \<in> set MUTATING_JOB_KINDS" "job_series_key j \<noteq> []"
    by (auto simp: series_locked_def list_ex_iff)
  have "k \<noteq> j" using k(2) claimableD [OF j(2)] by blast
  then have "job_id k \<noteq> job_id j" using rows_ok_eq [OF queue_invD(1) [OF inv]] k(1) j(1) by blast
  then have "series_conflict now d j (if job_kind_of j = CHAPTER_DOWNLOAD then [LIBRARY_REPAIR] else MUTATING_JOB_KINDS)"
    using k by (auto simp: series_conflict_def list_ex_iff)
  then show False using j(2) m by (auto simp: claimable_def series_free_def split: if_splits)
qed

lemma unlimited_acquire:
  assumes "queue_inv d" "j \<in> set (jobs d)" "policies d = []" "claimable now d j"
  shows "acquire_permits now w [] ow ex j d = Some (d\<lparr>permits := permits d\<rparr>)"
proof -
  have "\<not> series_locked now d j" by (rule claimable_not_locked [OF assms(1,2,4)])
  moreover have "pool_limit now w d [] j pool = None" for pool
    using assms(3) by (simp add: pool_limit_def effective_provider_limit_def)
  ultimately show ?thesis by (simp add: acquire_permits_def list_ex_iff)
qed

lemma unlimited_scan:
  "scan_init now (a\<lparr>ca_pool_limits := []\<rparr>) d =
     \<lparr>sc_rejected = [], sc_pools = [], sc_sources = [], sc_network_full = False, sc_chapter_full = False\<rparr>"
  by (simp add: scan_init_def saturated_direct_pools_def saturated_provider_sources_def permit_pool_full_def)

definition claim_scope :: "claim_args \<Rightarrow> claim_filter" where
  "claim_scope a = \<lparr>cf_kinds = ca_kinds a, cf_pools = ca_pools a, cf_exclude_ids = [], cf_exclude_pools = [],
     cf_exclude_sources = [], cf_block_network = False, cf_block_chapters = False\<rparr>"

lemma unlimited_loop:
  assumes inv: "queue_inv d" and p: "policies d = []"
    and q: "claim_query now (claim_scope a) locked d = Some c"
  shows "\<exists>d1. claim_scan_loop 50 now (a\<lparr>ca_pool_limits := []\<rparr>) locked (scan_init now (a\<lparr>ca_pool_limits := []\<rparr>) d) d
      = (Some (fix_pool c), d1) \<and> jobs d1 = put_row job_id (fix_pool c) (jobs d)"
proof -
  let ?a = "a\<lparr>ca_pool_limits := []\<rparr>"
  let ?s = "scan_init now ?a d"
  have f: "scan_filter ?a ?s = claim_scope a"
    by (simp add: unlimited_scan scan_filter_def claim_scope_def)
  then have q': "claim_query now (scan_filter ?a ?s) locked d = Some c" using q by simp
  note F = scan_step [OF inv q']
  let ?d1 = "put_job (fix_pool c) d"
  let ?d2 = "if expired_lease now (fix_pool c) then release_permits (job_id (fix_pool c)) ?d1 else ?d1"
  have "policies ?d2 = []" using F(2) p by (simp add: scan_rel_def)
  then have "acquire_permits now (ca_window ?a) (ca_pool_limits ?a) (py_strip (ca_owner ?a))
      (now + ca_lease_for ?a) (fix_pool c) ?d2 = Some (?d2\<lparr>permits := permits ?d2\<rparr>)"
    using unlimited_acquire [OF F(1,3) _ F(4)] by simp
  then have "claim_scan_loop (Suc 49) now ?a locked ?s d = (Some (fix_pool c), ?d2\<lparr>permits := permits ?d2\<rparr>)"
    by (simp only: claim_scan_loop.simps(2) q' option.case Let_def if_not_P [OF F(8)])
  then show ?thesis by (simp add: numeral_eq_Suc)
qed

text \<open>The only index a new lease can violate is the one on leased library repairs, and only
  through a repair whose lease has expired.\<close>

lemma lease_flush_ok:
  assumes inv: "queue_inv d" and j: "j \<in> set (jobs d)" "claimable now d j"
    and no: "\<forall>k \<in> set (jobs d). \<not> (leased_repair k \<and> expired_lease now k)"
    and a: "py_strip (ca_owner a) \<noteq> []"
  shows "flush_ok (lease_row now a j) (jobs d)"
  unfolding flush_ok_def list_all_iff
proof (intro conjI ballI)
  show "job_checks (lease_row now a j)"
    using queue_inv_job_ok [OF inv j(1)] a by (simp add: job_ok_def job_checks_def lease_row_def)
  fix k
  assume k: "k \<in> set (jobs d)"
  show "job_id k = job_id (lease_row now a j) \<or>
      \<not> dedupe_clash (lease_row now a j) k \<and> \<not> repair_clash (lease_row now a j) k"
  proof (cases "job_id k = job_id j")
    case True
    then show ?thesis by (simp add: lease_row_fields)
  next
    case False
    have "\<not> dedupe_clash j k"
      using queue_invD(2) [OF inv] j(1) k False by (auto simp: unique_ok_def)
    then have 1: "\<not> dedupe_clash (lease_row now a j) k"
      using claimableD [OF j(2)] by (auto simp: dedupe_clash_def lease_row_def)
    have "\<not> repair_clash (lease_row now a j) k"
    proof
      assume c: "repair_clash (lease_row now a j) k"
      then have lk: "leased_repair k" "job_kind_of j = LIBRARY_REPAIR" "job_series_key j \<noteq> []"
        "job_series_key k = job_series_key j"
        by (auto simp: repair_clash_def leased_repair_def lease_row_def)
      then have "live_lease now k"
        using no k queue_inv_job_ok [OF inv k]
        by (auto simp: leased_repair_def live_lease_def expired_lease_def job_ok_def job_checks_def)
      then have "series_conflict now d j MUTATING_JOB_KINDS"
        using k False lk by (auto simp: series_conflict_def list_ex_iff leased_repair_def MUTATING_JOB_KINDS_def)
      then show False using j(2) lk by (simp add: claimable_def series_free_def MUTATING_JOB_KINDS_def)
    qed
    then show ?thesis using 1 by blast
  qed
qed

text \<open>C8. Claims are served in order.  With no pool limit configured and no provider policy, if any
  unlocked job of the requested kinds and pools is claimable, if payloads are valid and no library
  repair is stuck in an expired lease, then the claim returns a job, and no other claimable job
  comes before it in the scheduling order (tier, fairness, priority, age, id).\<close>

theorem claim_serves_first:
  assumes inv: "queue_inv d" and a: "py_strip (ca_owner a) \<noteq> []" "0 < ca_lease_for a" "ca_pool_limits a = []"
    and p: "policies d = []"
    and valid: "\<forall>j \<in> set (jobs d). \<exists>p. parse_job_payload mv (job_kind_of j) (Raw (job_payload j)) = Inr p"
    and no: "\<forall>k \<in> set (jobs d). \<not> (leased_repair k \<and> expired_lease now k)"
    and j: "j \<in> set (jobs d)" "claimable now d j" "in_scope (claim_scope a) j" "job_id j \<notin> set locked"
  shows "\<exists>l d'. claim mv now a locked d = Inr (Some l, d') \<and>
    (\<exists>c \<in> set (jobs d). job_id c = lease_id l \<and> claimable now d c \<and> claim_key now d c \<le> claim_key now d j)"
proof -
  have aa: "a\<lparr>ca_pool_limits := []\<rparr> = a" using a(3) by simp
  obtain c where c: "claim_query now (claim_scope a) locked d = Some c"
    using claim_query_None_iff [of now "claim_scope a" locked d] j by (cases "claim_query now (claim_scope a) locked d") auto
  note Q = claim_query_SomeD [OF c]
  let ?c = "fix_pool c"
  have same: "same_but_pool c ?c" using claimableD [OF Q(2)] by (intro same_but_pool_fix) simp
  note S = same_but_pool_fields [OF same]
  obtain d1 where d1: "claim_scan_loop 50 now a locked (scan_init now a d) d = (Some ?c, d1)"
    "jobs d1 = put_row job_id ?c (jobs d)"
    using unlimited_loop [OF inv p c] by (auto simp: aa)
  have "flush_ok (lease_row now a c) (jobs d)" by (rule lease_flush_ok [OF inv Q(1,2) no a(1)])
  then have fl: "flush_ok (lease_row now a ?c) (jobs d1)"
    using S by (auto simp: flush_ok_def list_all_iff d1(2) job_checks_def dedupe_clash_def repair_clash_def
        leased_repair_def lease_row_def dest!: in_put_rowD)
  obtain q where q: "parse_job_payload mv (job_kind_of c) (Raw (job_payload c)) = Inr q"
    using valid Q(1) by blast
  have "claim mv now a locked d = Inr (Some (lease_of (lease_row now a ?c) q (now + ca_lease_for a)),
      record_event (lease_row now a ?c) EvLeased (py_strip (ca_owner a)) [] fmempty
        (put_job (lease_row now a ?c) d1))"
    using a fl q S by (simp add: claim_def d1(1) flush_job_def Let_def lease_row_fields)
  then show ?thesis
    using Q(1,2) Q(5) [OF j(1-3)] j(4) S by (auto simp: lease_of_def lease_row_fields)
qed

definition demo_free_claim :: claim_args where
  "demo_free_claim = demo_claim\<lparr>ca_pool_limits := []\<rparr>"

theorem claim_serves_first_witness:
  "\<exists>l d'. claim strict_validate (seconds 2) demo_free_claim [] demo_queued = Inr (Some l, d') \<and>
    (\<exists>c \<in> set (jobs demo_queued). job_id c = lease_id l \<and> claimable (seconds 2) demo_queued c \<and>
      claim_key (seconds 2) demo_queued c \<le> claim_key (seconds 2) demo_queued (hd (jobs demo_queued)))"
proof (rule claim_serves_first [OF demo_queued_inv])
  have P: "py_strip (ca_owner demo_free_claim) \<noteq> [] \<and> 0 < ca_lease_for demo_free_claim \<and>
    ca_pool_limits demo_free_claim = [] \<and> policies demo_queued = [] \<and>
    list_all (\<lambda>j. \<not> isl (parse_job_payload strict_validate (job_kind_of j) (Raw (job_payload j)))) (jobs demo_queued) \<and>
    list_all (\<lambda>k. \<not> (leased_repair k \<and> expired_lease (seconds 2) k)) (jobs demo_queued) \<and>
    claimable (seconds 2) demo_queued (hd (jobs demo_queued)) \<and>
    in_scope (claim_scope demo_free_claim) (hd (jobs demo_queued))"
    by code_simp
  then show "py_strip (ca_owner demo_free_claim) \<noteq> []" "0 < ca_lease_for demo_free_claim"
    "ca_pool_limits demo_free_claim = []" "policies demo_queued = []"
    "claimable (seconds 2) demo_queued (hd (jobs demo_queued))"
    "in_scope (claim_scope demo_free_claim) (hd (jobs demo_queued))"
    by blast+
  show "\<forall>j \<in> set (jobs demo_queued). \<exists>p. parse_job_payload strict_validate (job_kind_of j) (Raw (job_payload j)) = Inr p"
    using P by (metis (mono_tags, lifting) isl_def list_all_iff sum.exhaust)
  show "\<forall>k \<in> set (jobs demo_queued). \<not> (leased_repair k \<and> expired_lease (seconds 2) k)"
    using P by (auto simp: list_all_iff)
  show "hd (jobs demo_queued) \<in> set (jobs demo_queued)" by (rule demo_queued_job)
qed simp

subsection \<open>Fencing\<close>

text \<open>C9. Fencing: once a claim has given a job to a worker, no other worker can end it, retry it,
  extend its lease, report progress on it or give it back; each attempt returns failure and leaves
  the database as it was.\<close>

theorem stale_owner_fenced:
  assumes "queue_inv d" and "claim mv now a locked d = Inr (Some l, d')" and "ow \<noteq> lease_owner l"
  shows "succeed t (lease_id l) ow d' = (False, d') \<and> fail t (lease_id l) ow code msg d' = (False, d') \<and>
    retry t (lease_id l) ow av code msg d' = (None, d') \<and>
    (0 < lf \<longrightarrow> heartbeat t (lease_id l) ow lf d' = Inr (False, d')) \<and>
    progress t (lease_id l) ow msg details d' = (False, d') \<and>
    release t (lease_id l) ow msg d' = (False, d') \<and>
    defer_job t (lease_id l) ow av code msg d' = (False, d') \<and>
    reroute mv t (lease_id l) ow p src av msg dt d' = Inr (False, d')"
proof -
  obtain k where k: "find_job (lease_id l) d' = Some (lease_row now a k)" "lease_owner l = py_strip (ca_owner a)"
    using claimed_row [OF assms(1,2)] by metis
  then have o: "owned_job (lease_id l) ow d' = None"
    using assms(3) by (simp add: owned_job_def lease_row_fields)
  then have "held_job t (lease_id l) ow d' = None" by (simp add: held_job_def)
  with o show ?thesis
    by (simp add: succeed_def fail_def finish_def retry_def heartbeat_def progress_def release_def
        defer_job_def reroute_def)
qed

theorem stale_owner_fenced_witness:
  "\<exists>l. claim strict_validate (seconds 2) demo_claim [] demo_queued = Inr (Some l, demo_leased) \<and>
     succeed (seconds 3) (lease_id l) ''worker-2'' demo_leased = (False, demo_leased)"
proof -
  obtain l where l: "claim strict_validate (seconds 2) demo_claim [] demo_queued = Inr (Some l, demo_leased)"
    using demo_claimed by blast
  have "lease_owner l = py_strip (ca_owner demo_claim)" using claimed_row [OF demo_queued_inv l] by metis
  moreover have "py_strip (ca_owner demo_claim) \<noteq> ''worker-2''" by code_simp
  ultimately show ?thesis
    using stale_owner_fenced [OF demo_queued_inv l, of "''worker-2''" "seconds 3"] l by auto
qed

text \<open>A lease that has run out is worthless to its own holder as well: ending, retrying,
  extending or reporting progress after the expiry changes nothing.\<close>

theorem expired_owner_fenced:
  assumes "find_job i d = Some j" and "\<not> live_lease t j"
  shows "succeed t i ow d = (False, d) \<and> fail t i ow code msg d = (False, d) \<and>
    retry t i ow av code msg d = (None, d) \<and> progress t i ow msg details d = (False, d) \<and>
    (0 < lf \<longrightarrow> heartbeat t i ow lf d = Inr (False, d))"
proof -
  have "held_job t i ow d = None" using assms by (simp add: held_job_def owned_job_def)
  then show ?thesis
    by (simp add: succeed_def fail_def finish_def retry_def heartbeat_def progress_def)
qed

theorem expired_owner_fenced_witness:
  "succeed (seconds 62) 1 ''worker-1'' demo_leased = (False, demo_leased) \<and>
   heartbeat (seconds 62) 1 ''worker-1'' (seconds 60) demo_leased = Inr (False, demo_leased)"
proof -
  have "case find_job 1 demo_leased of Some j \<Rightarrow> \<not> live_lease (seconds 62) j | None \<Rightarrow> False" by code_simp
  then obtain j where "find_job 1 demo_leased = Some j" "\<not> live_lease (seconds 62) j"
    by (auto split: option.splits)
  from expired_owner_fenced [OF this, of "''worker-1''" _ _ _ _ "seconds 60"] show ?thesis by simp
qed

subsection \<open>Retries\<close>

text \<open>A retry requested by the holder of a live lease schedules the job again for the given
  instant, unless it has used its last attempt: then, and only then, the job fails.  Either way the
  lease and all permits of the job are given up and the attempts used so far are kept.\<close>

theorem retry_outcome:
  assumes "held_job now i ow d = Some j"
  shows "\<exists>d' j'. retry now i ow av code msg d =
      (Some (if job_max_attempts j \<le> job_attempts j then FAILED else RETRY_WAIT), d') \<and>
    find_job i d' = Some j' \<and>
    job_status j' = (if job_max_attempts j \<le> job_attempts j then FAILED else RETRY_WAIT) \<and>
    job_available_at j' = av \<and> job_attempts j' = job_attempts j \<and> job_lease_owner j' = [] \<and>
    job_lease_expires_at j' = None \<and> (\<forall>p \<in> set (permits d'). prm_job_id p \<noteq> i)"
proof -
  have f: "find_job i d = Some j" "job_id j = i"
    using assms by (auto simp: held_job_def owned_job_def dest: find_job_in split: option.splits if_splits)
  then show ?thesis
    using assms by (auto simp: retry_def Let_def drop_lease_def get_put_row_same)
qed

theorem retry_outcome_witness:
  "\<exists>d' j'. retry (seconds 3) 1 ''worker-1'' (seconds 9) ''e'' ''m'' demo_leased = (Some FAILED, d') \<and>
     find_job 1 d' = Some j' \<and> job_status j' = FAILED"
proof -
  have "case held_job (seconds 3) 1 ''worker-1'' demo_leased of
      Some j \<Rightarrow> job_max_attempts j \<le> job_attempts j | None \<Rightarrow> False" by code_simp
  then obtain j where "held_job (seconds 3) 1 ''worker-1'' demo_leased = Some j" "job_max_attempts j \<le> job_attempts j"
    by (auto split: option.splits)
  then show ?thesis using retry_outcome [of "seconds 3" 1 "''worker-1''" demo_leased j "seconds 9" "''e''" "''m''"] by auto
qed

subsection \<open>Enqueueing\<close>

lemma active_job_unique:
  assumes inv: "queue_inv d" and j: "j \<in> set (jobs d)" "is_active j"
  shows "active_job (job_kind_of j) (job_dedupe_key j) d = Some j"
proof (cases "active_job (job_kind_of j) (job_dedupe_key j) d")
  case None
  then show ?thesis using active_job_NoneD [OF None j(1)] j by simp
next
  case (Some k)
  then have "k \<in> set (jobs d)" "dedupe_clash j k"
    using active_job_SomeD [OF Some] j by (auto simp: dedupe_clash_def)
  then show ?thesis
    using Some inv j(1) by (metis queue_invD(1,2) rows_ok_eq unique_ok_def)
qed

lemma new_row_flush_ok:
  assumes inv: "queue_inv d" and none: "active_job (eq_kind a) key d = None"
    and a: "key \<noteq> []" "1 \<le> eq_max_attempts a"
  shows "flush_ok ((new_job_row now a key p ci)\<lparr>job_id := n\<rparr>) (jobs d)"
proof -
  have "\<not> is_active k" if "k \<in> set (jobs d)" "job_kind_of k = eq_kind a" "job_dedupe_key k = key" for k
    using active_job_NoneD [OF none that(1)] that by simp
  then show ?thesis
    using a by (auto simp: flush_ok_def list_all_iff job_checks_def dedupe_clash_def repair_clash_def
        leased_repair_def new_job_row_facts)
qed

lemma enqueue_new_creates:
  assumes inv: "queue_inv d" and none: "active_job (eq_kind a) key d = None"
    and a: "key \<noteq> []" "1 \<le> eq_max_attempts a"
  shows "\<exists>j d'. enqueue_new now a key p d = Inr (j, True, d') \<and> jobs d' = jobs d @ [j] \<and>
    job_status j = QUEUED \<and> job_kind_of j = eq_kind a \<and> job_dedupe_key j = key \<and>
    job_payload j = model_dump p \<and> job_pool j = routed_pool a p \<and> job_attempts j = 0"
proof -
  obtain c d1 where ac: "active_cycle now d = (c, d1)" by (cases "active_cycle now d")
  then have d1: "jobs d1 = jobs d" "queue_inv d1"
    using active_cycle_frame(1) [of now d] active_cycle_inv [OF inv ac] by simp_all
  then have "active_job (eq_kind a) key d1 = None" using none by (simp add: active_job_def)
  from new_row_flush_ok [OF d1(2) this a] have "flush_ok ((new_job_row now a key p (cyc_id c))\<lparr>job_id := job_seq d1\<rparr>) (jobs d1)" .
  then show ?thesis
    using ac d1(1)
    by (simp add: enqueue_new_def insert_job_def Let_def put_cycle_def new_job_row_facts)
       (simp add: new_job_row_def Let_def)
qed

text \<open>Enqueueing a job whose key has no active job adds exactly one row, at the end of the
  table: queued, with no attempt used, carrying the validated payload and routed to its pool.  It
  is then the active job of its key.\<close>

theorem enqueue_creates:
  assumes "queue_inv d" and "active_job (eq_kind a) (py_strip (eq_dedupe_key a)) d = None"
    and "py_strip (eq_dedupe_key a) \<noteq> []" "1 \<le> eq_max_attempts a"
    and "parse_job_payload mv (eq_kind a) (eq_payload a) = Inr p"
  shows "\<exists>j d'. enqueue mv now a d = Inr (j, True, d') \<and> jobs d' = jobs d @ [j] \<and> job_status j = QUEUED \<and>
    job_attempts j = 0 \<and> job_payload j = model_dump p \<and> job_pool j = routed_pool a p \<and>
    active_job (eq_kind a) (py_strip (eq_dedupe_key a)) d' = Some j"
proof -
  obtain j d' where n: "enqueue_new now a (py_strip (eq_dedupe_key a)) p d = Inr (j, True, d')"
    "jobs d' = jobs d @ [j]" "job_status j = QUEUED" "job_kind_of j = eq_kind a"
    "job_dedupe_key j = py_strip (eq_dedupe_key a)" "job_payload j = model_dump p"
    "job_pool j = routed_pool a p" "job_attempts j = 0"
    using enqueue_new_creates [OF assms(1,2,3,4)] by blast
  then have "active_job (job_kind_of j) (job_dedupe_key j) d' = Some j"
    using enqueue_new_inv [OF assms(1) n(1)] by (intro active_job_unique) simp_all
  then show ?thesis using n assms by (simp add: enqueue_def Let_def)
qed

theorem enqueue_creates_witness:
  "\<exists>j d'. enqueue strict_validate (seconds 1) demo_args empty_db = Inr (j, True, d') \<and> jobs d' = [j] \<and>
     job_status j = QUEUED \<and> job_attempts j = 0"
proof -
  have P: "active_job (eq_kind demo_args) (py_strip (eq_dedupe_key demo_args)) empty_db = None \<and>
    py_strip (eq_dedupe_key demo_args) \<noteq> [] \<and> 1 \<le> eq_max_attempts demo_args \<and>
    \<not> isl (parse_job_payload strict_validate (eq_kind demo_args) (eq_payload demo_args))" by code_simp
  then obtain p where "parse_job_payload strict_validate (eq_kind demo_args) (eq_payload demo_args) = Inr p"
    by (metis isl_def sum.exhaust)
  then show ?thesis
    using enqueue_creates [OF queue_inv_empty, of demo_args] P by (fastforce simp: empty_db_def)
qed

text \<open>Enqueueing raises exactly when the key is blank, the maximum number of attempts is below
  one, or the payload is invalid; the unique indexes never make it fail.\<close>

theorem enqueue_error_iff:
  assumes "queue_inv d"
  shows "isl (enqueue mv now a d) \<longleftrightarrow> py_strip (eq_dedupe_key a) = [] \<or> eq_max_attempts a < 1 \<or>
    isl (parse_job_payload mv (eq_kind a) (eq_payload a))"
proof (cases "active_job (eq_kind a) (py_strip (eq_dedupe_key a)) d")
  case (Some e)
  then show ?thesis
    by (cases "parse_job_payload mv (eq_kind a) (eq_payload a)") (auto simp: enqueue_def Let_def split_beta)
next
  case None
  show ?thesis
  proof (cases "py_strip (eq_dedupe_key a) = [] \<or> eq_max_attempts a < 1")
    case True
    then show ?thesis by (auto simp: enqueue_def Let_def)
  next
    case False
    then have new: "\<not> isl (enqueue_new now a (py_strip (eq_dedupe_key a)) p d)" for p
      using enqueue_new_creates [OF assms None, of now p] by force
    show ?thesis
      using False new
      by (cases "parse_job_payload mv (eq_kind a) (eq_payload a)") (simp_all add: enqueue_def Let_def None)
  qed
qed

theorem enqueue_error_iff_witness:
  "isl (enqueue strict_validate 0 (demo_args\<lparr>eq_dedupe_key := ''  ''\<rparr>) empty_db)"
proof -
  have "py_strip (eq_dedupe_key (demo_args\<lparr>eq_dedupe_key := ''  ''\<rparr>)) = []" by code_simp
  then show ?thesis using enqueue_error_iff [OF queue_inv_empty] by blast
qed

text \<open>Enqueueing is idempotent: asking again for the same job (without coalescing) at any later
  time creates nothing, returns the same job and leaves all jobs as they are.\<close>

theorem enqueue_idempotent:
  assumes inv: "queue_inv d" and first: "enqueue mv now a d = Inr (j, b, d')" and no: "\<not> eq_coalesce a"
  shows "\<exists>d''. enqueue mv now' a d' = Inr (j, False, d'') \<and> jobs d'' = jobs d'"
proof -
  let ?key = "py_strip (eq_dedupe_key a)"
  have ok: "?key \<noteq> []" "\<not> eq_max_attempts a < 1" using first by (auto simp: enqueue_def Let_def split: if_splits)
  obtain p where p: "parse_job_payload mv (eq_kind a) (eq_payload a) = Inr p"
    using first by (auto simp: enqueue_def Let_def bind_result_eq_Inr split: if_splits)
  have j: "j \<in> set (jobs d') \<and> is_active j \<and> job_kind_of j = eq_kind a \<and> job_dedupe_key j = ?key \<and>
      (job_status j = LEASED \<or> job_pool j = routed_pool a p)"
  proof (cases "active_job (eq_kind a) ?key d")
    case None
    then obtain k e where "enqueue_new now a ?key p d = Inr (k, True, e)" "jobs e = jobs d @ [k]" "job_status k = QUEUED"
      "job_kind_of k = eq_kind a" "job_dedupe_key k = ?key" "job_pool k = routed_pool a p"
      using enqueue_new_creates [OF inv None ok(1)] ok(2) by (metis not_less)
    then show ?thesis using first None ok p by (simp add: enqueue_def Let_def)
  next
    case (Some e)
    note E = active_job_SomeD [OF Some]
    have jd: "j = fst (repool now (routed_pool a p) e d)" "d' = snd (repool now (routed_pool a p) e d)"
      using first Some ok p no by (auto simp: enqueue_def Let_def enqueue_existing_def split_beta)
    have "job_kind_of j = job_kind_of e" "job_dedupe_key j = job_dedupe_key e"
      "job_status j = LEASED \<or> job_pool j = routed_pool a p"
      by (auto simp: jd repool_def Let_def)
    then show ?thesis using repool_inv [OF inv, of e] E by (simp add: jd del: is_active_iff)
  qed
  then have "active_job (eq_kind a) ?key d' = Some j"
    using active_job_unique [OF enqueue_inv [OF inv first]] by metis
  moreover have "repool now' (routed_pool a p) j d' = (j, d')" using j by (auto simp: repool_def)
  ultimately show ?thesis using ok p no by (simp add: enqueue_def Let_def enqueue_existing_def)
qed

theorem enqueue_idempotent_witness:
  "\<exists>j d''. enqueue strict_validate (seconds 5) demo_args demo_queued = Inr (j, False, d'') \<and>
     jobs d'' = jobs demo_queued"
proof -
  obtain j where "enqueue strict_validate (seconds 1) demo_args empty_db = Inr (j, True, demo_queued)"
    using demo_enqueue by blast
  from enqueue_idempotent [OF queue_inv_empty this, of "seconds 5"] show ?thesis
    by (auto simp: demo_args_def enqueue_defaults_def)
qed

end
