(* ===== verification/Queue_Stranding.thy ===== *)
theory Queue_Stranding
  imports Queue_Op_Properties
begin

text \<open>
  Situations in which the queue gives up progress: jobs that wait for ever although no attempt is
  left, and claims that raise, so that the job at the head of the queue blocks those behind it.
\<close>

subsection \<open>Stranded jobs\<close>

text \<open>A waiting job whose attempts are used up is never handed out and never failed, whatever the
  time and the rest of the database.\<close>

definition stranded :: "work_job \<Rightarrow> bool" where
  "stranded j = ((job_status j = QUEUED \<or> job_status j = RETRY_WAIT) \<and> job_max_attempts j \<le> job_attempts j)"

lemma stranded_never_moves:
  assumes "stranded j"
  shows "\<not> claimable t d j" "\<not> exhausted t j"
  using assms by (auto simp: stranded_def claimable_def exhausted_def expired_lease_def)

lemma demo_holder:
  "\<exists>j. held_job (seconds 3) 1 ''worker-1'' demo_leased = Some j \<and> job_attempts j = job_max_attempts j"
proof -
  have "case held_job (seconds 3) 1 ''worker-1'' demo_leased of
      Some j \<Rightarrow> job_attempts j = job_max_attempts j | None \<Rightarrow> False" by code_simp
  then show ?thesis by (auto split: option.splits)
qed

definition demo_update :: enqueue_args where
  "demo_update = (enqueue_defaults LIBRARY_REPAIR ''repair:7''
     (Model (LibraryRepairPayload \<lparr>lr_version = 1, lr_series_id = 7, lr_reason = ''cover'',
        lr_obsolete_storage_keys = []\<rparr>)))\<lparr>eq_series_key := ''series-7'', eq_coalesce := True\<rparr>"

definition demo_pending :: db where
  "demo_pending = (case enqueue strict_validate (seconds 3) demo_update demo_leased of
     Inr (_, _, d) \<Rightarrow> d | Inl _ \<Rightarrow> empty_db)"

lemma demo_pending_enqueue:
  "\<exists>j. enqueue strict_validate (seconds 3) demo_update demo_leased = Inr (j, False, demo_pending)"
proof -
  have "case enqueue strict_validate (seconds 3) demo_update demo_leased of Inr (_, b, _) \<Rightarrow> \<not> b | Inl _ \<Rightarrow> False"
    by code_simp
  then show ?thesis unfolding demo_pending_def by (auto split: sum.splits)
qed

lemma demo_pending_inv: "queue_inv demo_pending"
  using demo_pending_enqueue enqueue_inv [OF demo_leased_inv] by blast

text \<open>A newer payload that arrives while the job runs is not lost: when the holder reports
  success, the job is queued again at once with the newer payload instead of ending, and its
  lease and permits are given up.\<close>

theorem succeed_runs_pending:
  assumes "held_job now i ow d = Some j" and "job_pending_payload j \<noteq> fmempty"
  shows "\<exists>d' j'. succeed now i ow d = (True, d') \<and> find_job i d' = Some j' \<and> job_status j' = QUEUED \<and>
    job_payload j' = job_pending_payload j \<and> job_pending_payload j' = fmempty \<and>
    job_available_at j' = now \<and> job_attempts j' = job_attempts j \<and> job_lease_owner j' = [] \<and>
    (\<forall>p \<in> set (permits d'). prm_job_id p \<noteq> i)"
proof -
  have f: "find_job i d = Some j" "job_id j = i"
    using assms(1) by (auto simp: held_job_def owned_job_def dest: find_job_in split: option.splits if_splits)
  then show ?thesis
    using assms
    by (auto simp: succeed_def finish_def requeue_pending_def Let_def drop_lease_def get_put_row_same)
qed

theorem succeed_runs_pending_witness:
  "\<exists>d' j'. succeed (seconds 4) 1 ''worker-1'' demo_pending = (True, d') \<and> find_job 1 d' = Some j' \<and>
     job_status j' = QUEUED"
proof -
  have "case held_job (seconds 4) 1 ''worker-1'' demo_pending of
      Some j \<Rightarrow> job_pending_payload j \<noteq> fmempty | None \<Rightarrow> False" by code_simp
  then obtain j where "held_job (seconds 4) 1 ''worker-1'' demo_pending = Some j" "job_pending_payload j \<noteq> fmempty"
    by (auto split: option.splits)
  then show ?thesis using succeed_runs_pending by metis
qed

subsection \<open>Stranded for good\<close>

text \<open>
  Along every run of the queue a stranded job stays stranded until it is cancelled: only a request that
  promotes a provider refresh to acquisition (\<open>promote\<close>) raises the attempts a waiting job may use.
\<close>

definition stuck_step :: "work_job \<Rightarrow> work_job \<Rightarrow> bool" where
  "stuck_step j j' = (kept_row j j' \<and>
     (stranded j \<and> job_kind_of j \<noteq> SOURCE_REFRESH \<longrightarrow> stranded j' \<or> job_status j' = CANCELLED))"

lemma stuck_step_refl [simp]: "stuck_step j j"
  by (simp add: stuck_step_def)

lemma stuck_step_trans: "stuck_step i j \<Longrightarrow> stuck_step j k \<Longrightarrow> stuck_step i k"
  using kept_row_trans [of i j k] by (auto simp: stuck_step_def kept_row_def same_job_def)

lemma stuck_put:
  assumes "jobs d' = put_row job_id j' (jobs d)" "queue_inv d" "j \<in> set (jobs d)" "is_active j" "same_job j j'"
    and "stranded j \<Longrightarrow> job_kind_of j \<noteq> SOURCE_REFRESH \<Longrightarrow> stranded j' \<or> job_status j' = CANCELLED"
  shows "moved stuck_step d d'"
  using assms(1-3) by (rule moved_put) (use assms(4-6) in \<open>auto simp: stuck_step_def kept_row_def same_job_def\<close>)

lemma stuck_same: "jobs d' = jobs d \<Longrightarrow> moved stuck_step d d'"
  by (simp add: moved_def list.rel_refl)

lemma stuck_leased: "job_status j = LEASED \<Longrightarrow> \<not> stranded j"
  by (simp add: stranded_def)

lemmas stuck_defs = same_job_def drop_lease_def stuck_leased

lemma holder_stuck:
  assumes "queue_inv d"
  shows "moved stuck_step d (snd (finish now i ow st ev c m d))" "moved stuck_step d (snd (retry now i ow av c m d))"
    "moved stuck_step d (snd (release now i ow r d))" "moved stuck_step d (snd (defer_job now i ow av c m d))"
    "moved stuck_step d (snd (progress now i ow m p d))"
  using assms
  by (auto simp: finish_def requeue_pending_def retry_def release_def defer_job_def progress_def progress_row_def Let_def
      stuck_defs stuck_same split: option.splits dest!: held_jobD owned_jobD intro!: stuck_put)

lemma heartbeat_stuck: "queue_inv d \<Longrightarrow> heartbeat now i ow lf d = Inr (b, d') \<Longrightarrow> moved stuck_step d d'"
  by (auto simp: heartbeat_def Let_def stuck_defs put_job_def stuck_same split: option.splits if_splits
      dest!: held_jobD intro!: stuck_put)

lemma reroute_stuck:
  "queue_inv d \<Longrightarrow> reroute mv now i ow p src av m dt d = Inr (b, d') \<Longrightarrow> moved stuck_step d d'"
  by (auto simp: reroute_def Let_def stuck_defs stuck_same bind_result_eq_Inr split: option.splits
      dest!: owned_jobD intro!: stuck_put)

lemma waiting_stuck:
  assumes "queue_inv d"
  shows "reroute_waiting mv now i p src av m dt d = Inr (b, d') \<Longrightarrow> moved stuck_step d d'"
    and "moved stuck_step d (snd (retry_now now i d))" and "moved stuck_step d (snd (cancel now i r d))"
  using assms
  by (auto simp: reroute_waiting_def retry_now_def cancel_def Let_def same_job_def drop_lease_def stranded_def stuck_same
      bind_result_eq_Inr split: option.splits if_splits dest!: find_job_in intro!: stuck_put)

lemma fold_stuck:
  assumes inv: "queue_inv d" and f: "\<And>j d. jobs (f j d) = put_row job_id (g j) (jobs d)"
    and id: "\<And>j. job_id (g j) = job_id j" and sub: "set rows \<subseteq> set (jobs d)"
    and st: "\<And>j. j \<in> set rows \<Longrightarrow> stuck_step j (g j)"
  shows "moved stuck_step d (fold f rows d)"
proof (rule moved_rows)
  have "distinct (map job_id (jobs d))" using inv by (simp add: queue_inv_def rows_ok_def)
  then show "jobs (fold f rows d) = map (\<lambda>j. if j \<in> set rows then g j else j) (jobs d)"
    unfolding fold_jobs [of f g, OF f] using sub id by (rule fold_put_row)
qed (use st in auto)

lemma fail_exhausted_stuck:
  assumes "queue_inv d"
  shows "moved stuck_step d (snd (fail_exhausted_leases now locked d))"
  unfolding fail_exhausted_leases_def Let_def snd_conv
  by (rule fold_stuck [OF assms, where g = "\<lambda>j. j\<lparr>job_status := FAILED, job_lease_owner := [],
         job_lease_expires_at := None, job_heartbeat_at := None, job_error_code := ''lease_expired'',
         job_error_message := ''job lease expired after its final attempt'', job_updated_at := now,
         job_completed_at := Some now\<rparr>"])
     (auto simp: fail_expired_job_def Let_def stuck_step_def kept_row_def same_job_def exhausted_def expired_lease_def stuck_leased)

lemma resume_stuck:
  assumes "queue_inv d"
  shows "moved stuck_step d (snd (resume_recovered_provider now src locked d))"
  unfolding resume_recovered_provider_def Let_def snd_conv
  by (rule fold_stuck [OF assms, where g = "\<lambda>j. j\<lparr>job_available_at := now, job_error_code := [],
         job_error_message := [], job_updated_at := now\<rparr>"])
     (auto simp: resume_job_def Let_def stuck_step_def kept_row_def same_job_def outage_deferred_def stranded_def)

lemma coalesce_stuck:
  assumes "queue_inv d" "e \<in> set (jobs d)" "is_active e"
  shows "moved stuck_step d (snd (coalesce_job now a pool dump e d))"
proof (cases "merge_series e dump")
  case None
  then show ?thesis by (simp add: coalesce_job_def stuck_same)
next
  case (Some rn)
  obtain r n where rn: "rn = (r, n)" by (cases rn)
  define e1 where "e1 = (if acquisition_promotion e dump then promote now a e else e)"
  obtain e2 m where e2: "absorb now a r n e1 = (e2, m)" by (cases "absorb now a r n e1")
  have "row_kept e e2"
    using absorb_kept(1) [OF e2] promote_kept(1) [of e now a]
    by (auto simp: e1_def intro: row_kept_trans split: if_splits)
  then have same: "same_job e e2" by (simp add: row_kept_def same_job_def same_key_def)
  have str: "stranded e2" if "stranded e" "job_kind_of e \<noteq> SOURCE_REFRESH"
  proof -
    have "e1 = e" using that(2) by (simp add: e1_def acquisition_promotion_def)
    then show ?thesis using e2 that(1) by (auto simp: absorb_def stranded_def Let_def split: if_splits)
  qed
  have "moved stuck_step d d'" if "jobs d' = put_row job_id e2 (jobs d)" for d'
    using that assms same str by (intro stuck_put) auto
  then show ?thesis
    using stuck_same by (simp add: coalesce_job_def Some rn Let_def e2 flip: e1_def)
qed

lemma enqueue_stuck:
  assumes inv: "queue_inv d" and res: "enqueue mv now a d = Inr (j, b, d')"
  shows "moved stuck_step d d'"
proof (cases "active_job (eq_kind a) (py_strip (eq_dedupe_key a)) d")
  case None
  then obtain p where new: "enqueue_new now a (py_strip (eq_dedupe_key a)) p d = Inr (j, b, d')"
    using res by (auto simp: enqueue_def Let_def bind_result_eq_Inr split: if_splits)
  obtain c d1 where ac: "active_cycle now d = (c, d1)" by (cases "active_cycle now d")
  then have "jobs d1 = jobs d" using active_cycle_frame(1) [of now d] by simp
  then have "jobs d' = jobs d \<or> (\<exists>k. jobs d' = jobs d @ [k])"
    using new ac by (auto simp: enqueue_new_def Let_def insert_job_def put_cycle_def split: sum.splits option.splits if_splits)
  then show ?thesis by (auto simp: moved_def list.rel_refl)
next
  case (Some e)
  note A = active_job_SomeD [OF Some]
  then have e: "e \<in> set (jobs d)" "is_active e" by blast+
  obtain p where d': "d' = snd (enqueue_existing now a p e d)"
    using res Some by (auto simp: enqueue_def Let_def bind_result_eq_Inr split_beta split: if_splits)
  let ?r = "repool now (routed_pool a p) e d"
  have repooled: "moved stuck_step d (snd ?r)"
  proof (cases "job_status e \<noteq> LEASED \<and> job_pool e \<noteq> routed_pool a p")
    case True
    let ?e = "e\<lparr>job_pool := routed_pool a p, job_updated_at := now\<rparr>"
    show ?thesis
      by (rule stuck_put [where j' = ?e, OF _ inv e])
         (use True in \<open>simp_all add: repool_def Let_def same_job_def stranded_def\<close>)
  qed (auto simp: repool_def intro: stuck_same)
  note R = repool_inv [OF inv e, of now "routed_pool a p"]
  show ?thesis
    using repooled moved_comp [OF repooled coalesce_stuck [OF R] stuck_step_trans]
    by (simp add: d' enqueue_existing_def Let_def split_beta)
qed

lemma same_but_pool_stuck: "same_but_pool j k \<Longrightarrow> stuck_step j k"
proof -
  assume s: "same_but_pool j k"
  then obtain p where "k = j\<lparr>job_pool := p\<rparr>" by (metis same_but_pool_def)
  then show "stuck_step j k" using s by (auto simp: stuck_step_def kept_row_def same_job_def same_but_pool_def stranded_def)
qed

lemma claim_stuck:
  assumes inv: "queue_inv d" and res: "claim mv now a locked d = Inr (r, d')"
  shows "moved stuck_step d d'"
proof -
  obtain e where e: "scan_rel d e" "moved stuck_step e d'"
  proof (cases r)
    case None
    then obtain e where "scan_rel d e" "queue_inv e" "d' = e \<or> d' = snd (fail_exhausted_leases now locked e)"
      using claim_NoneD [OF inv] res by blast
    then show ?thesis using that fail_exhausted_stuck stuck_same by auto
  next
    case (Some l)
    then obtain j e d1 where sc: "scan_found now a locked d j e d1" and d1: "jobs d1 = jobs e"
      and d': "d' = record_event (lease_row now a j) EvLeased (py_strip (ca_owner a)) [] fmempty
            (put_job (lease_row now a j) d1)"
      using claim_SomeD [OF inv] res by metis
    then have j: "queue_inv e" "j \<in> set (jobs e)" "scan_rel d e" "is_active j" "\<not> stranded j"
      using claimableD stranded_never_moves(1) by (auto simp: scan_found_def)
    then have "moved stuck_step e d'"
      by (intro stuck_put [where j = j and j' = "lease_row now a j"])
         (use j d1 in \<open>auto simp: d' lease_row_def same_job_def\<close>)
    then show ?thesis using that j by blast
  qed
  have "moved stuck_step d e" using moved_scan [OF e(1)] same_but_pool_stuck unfolding moved_def by (blast intro: list_all2_mono)
  from moved_comp [OF this e(2) stuck_step_trans] show ?thesis .
qed

lemma queue_step_stuck:
  assumes "queue_step mv limits (t, d) (t', d')" and q: "queue_inv d"
  shows "moved stuck_step d d'"
  using assms(1)
proof (cases rule: queue_step.cases)
  case (Cleanup n)
  then show ?thesis by (auto simp: cleanup_expired_permits_def intro!: stuck_same)
next
  case (Enqueue a j b)
  show ?thesis by (rule enqueue_stuck [OF q Enqueue(2)])
next
  case (Claim a locked r)
  show ?thesis by (rule claim_stuck [OF q Claim(3)])
next
  case (Heartbeat i ow lf b)
  show ?thesis by (rule heartbeat_stuck [OF q Heartbeat(2)])
next
  case (Reroute i ow p src av msg details b)
  show ?thesis by (rule reroute_stuck [OF q Reroute(2)])
next
  case (RerouteWaiting i p src av msg details b)
  show ?thesis by (rule waiting_stuck(1) [OF q RerouteWaiting(2)])
next
  case Other
  then show ?thesis by (intro stuck_same)
next
  case (Succeed i ow b)
  then show ?thesis using holder_stuck(1) [OF q] unfolding succeed_def by (metis snd_conv)
next
  case (Fail i ow code msg b)
  then show ?thesis using holder_stuck(1) [OF q] unfolding fail_def by (metis snd_conv)
next
  case (Retry i ow av code msg st)
  then show ?thesis using holder_stuck(2) [OF q] by (metis snd_conv)
next
  case (Release i ow msg b)
  then show ?thesis using holder_stuck(3) [OF q] by (metis snd_conv)
next
  case (Defer i ow av code msg b)
  then show ?thesis using holder_stuck(4) [OF q] by (metis snd_conv)
next
  case (Progress i ow msg details b)
  then show ?thesis using holder_stuck(5) [OF q] by (metis snd_conv)
next
  case (RetryNow i jo)
  then show ?thesis using waiting_stuck(2) [OF q] by (metis snd_conv)
next
  case (Cancel i msg b)
  then show ?thesis using waiting_stuck(3) [OF q] by (metis snd_conv)
next
  case (Resume src locked n)
  then show ?thesis using resume_stuck [OF q] by (metis snd_conv)
next
  case (FailExhausted locked n)
  then show ?thesis using fail_exhausted_stuck [OF q] by (metis snd_conv)
qed

lemma stranded_for_good:
  assumes run: "(queue_step mv limits)\<^sup>*\<^sup>* (t0, d0) (t, d)" and q: "queue_inv d0"
    and j: "find_job i d0 = Some j" "stranded j" "job_kind_of j \<noteq> SOURCE_REFRESH"
  shows "\<exists>k. find_job i d = Some k \<and> (stranded k \<or> job_status k = CANCELLED)"
proof -
  have "queue_inv d \<and> moved stuck_step d0 d"
    using run q
  proof (induction "(t, d)" arbitrary: t d rule: rtranclp_induct)
    case base
    then show ?case by (simp add: stuck_same)
  next
    case (step s)
    obtain u e where s: "s = (u, e)" by (cases s)
    then have e: "queue_inv e" "moved stuck_step d0 e" using step by simp_all
    have "moved stuck_step d0 d"
      by (rule moved_comp [OF e(2) queue_step_stuck [OF step(2) [unfolded s] e(1)]]) (rule stuck_step_trans)
    then show ?case using queue_step_cases [OF step(2) [unfolded s] e(1)] by blast
  qed
  then have d: "queue_inv d" "list_all2 stuck_step (jobs d0) (take (length (jobs d0)) (jobs d))"
    by (simp_all add: moved_def)
  have "j \<in> set (jobs d0)" "job_id j = i" using j(1) by (auto dest: find_job_in)
  then obtain k where k: "k \<in> set (jobs d)" "stuck_step j k"
    using d(2) by (metis in_set_takeD list_all2_in1)
  then have "job_id k = i" using \<open>job_id j = i\<close> by (simp add: stuck_step_def kept_row_def same_job_def)
  then have "find_job i d = Some k" using get_row_distinct [of job_id "jobs d" k] d(1) k(1) by (simp add: queue_inv_def rows_ok_def)
  then show ?thesis using k(2) j(2,3) by (auto simp: stuck_step_def)
qed

text \<open>C10. The requeue after a coalesced update keeps the attempts used.  When the successful run was the
  last attempt, the job (of any kind but a provider refresh, which a later request may promote to more attempts)
  is stranded: it is the active job of its key, which absorbs later requests for the key, and after any run of
  operations of the queue it is either cancelled or still active, claimable at no time and never failed by the
  recovery of exhausted leases.\<close>

theorem requeue_strands_last_attempt:
  assumes inv: "queue_inv d" and h: "held_job now i ow d = Some j" "job_kind_of j \<noteq> SOURCE_REFRESH"
    and j: "job_pending_payload j \<noteq> fmempty" "job_attempts j = job_max_attempts j"
  shows "\<exists>d' j'. succeed now i ow d = (True, d') \<and> job_id j' = i \<and>
    active_job (job_kind_of j) (job_dedupe_key j) d' = Some j' \<and>
    (\<forall>mv limits t e. (queue_step mv limits)\<^sup>*\<^sup>* (now, d') (t, e) \<longrightarrow>
      (\<exists>k. find_job i e = Some k \<and> (is_active k \<or> job_status k = CANCELLED) \<and>
         (\<forall>u f. \<not> claimable u f k \<and> \<not> exhausted u k)))"
proof -
  have f: "find_job i d = Some j" "job_id j = i"
    using h(1) by (auto simp: held_job_def owned_job_def dest: find_job_in split: option.splits if_splits)
  define d' where "d' = snd (succeed now i ow d)"
  let ?j = "(drop_lease j)\<lparr>job_payload := job_pending_payload j, job_pending_payload := fmempty,
       job_status := QUEUED, job_available_at := now, job_error_code := ''coalesced_observation'',
       job_error_message := ''a newer provider observation was coalesced while leased'', job_updated_at := now\<rparr>"
  have s: "succeed now i ow d = (True, d')" "find_job i d' = Some ?j"
    using h(1) j(1) f by (simp_all add: d'_def succeed_def finish_def requeue_pending_def Let_def drop_lease_def
        get_put_row_same)
  have q: "queue_inv d'" using succeed_inv [OF inv] by (simp add: d'_def)
  then have "active_job (job_kind_of ?j) (job_dedupe_key ?j) d' = Some ?j"
    using s(2) by (intro active_job_unique) (auto dest: find_job_in)
  moreover have str: "stranded ?j" "job_kind_of ?j \<noteq> SOURCE_REFRESH" using j(2) h(2) by (simp_all add: stranded_def drop_lease_def)
  moreover have "\<exists>k. find_job i e = Some k \<and> (is_active k \<or> job_status k = CANCELLED) \<and>
      (\<forall>u f. \<not> claimable u f k \<and> \<not> exhausted u k)"
    if run: "(queue_step mv limits)\<^sup>*\<^sup>* (now, d') (t, e)" for mv limits t e
  proof -
    obtain k where k: "find_job i e = Some k" "stranded k \<or> job_status k = CANCELLED"
      using stranded_for_good [OF run q s(2) str] by blast
    then have "is_active k \<or> job_status k = CANCELLED" by (auto simp: stranded_def)
    moreover have "\<not> claimable u f k \<and> \<not> exhausted u k" for u f
      using k(2) stranded_never_moves [of k] claimableD [of u f k] by (auto simp: exhausted_def expired_lease_def)
    ultimately show ?thesis using k(1) by blast
  qed
  ultimately show ?thesis using s f(2) by (intro exI [of _ d'] exI [of _ ?j]) (auto simp: drop_lease_def)
qed

theorem requeue_strands_last_attempt_witness:
  "\<exists>d'. succeed (seconds 4) 1 ''worker-1'' demo_pending = (True, d') \<and>
     (\<forall>t e. (queue_step strict_validate demo_limits)\<^sup>*\<^sup>* (seconds 4, d') (t, e) \<longrightarrow>
       (\<exists>k. find_job 1 e = Some k \<and> (\<forall>u f. \<not> claimable u f k)))"
proof -
  have "case held_job (seconds 4) 1 ''worker-1'' demo_pending of
      Some j \<Rightarrow> job_kind_of j \<noteq> SOURCE_REFRESH \<and> job_pending_payload j \<noteq> fmempty \<and> job_attempts j = job_max_attempts j
    | None \<Rightarrow> False" by code_simp
  then obtain j where "held_job (seconds 4) 1 ''worker-1'' demo_pending = Some j" "job_kind_of j \<noteq> SOURCE_REFRESH"
    "job_pending_payload j \<noteq> fmempty" "job_attempts j = job_max_attempts j"
    by (auto split: option.splits)
  from requeue_strands_last_attempt [OF demo_pending_inv this] obtain d' where
    r: "succeed (seconds 4) 1 ''worker-1'' demo_pending = (True, d')"
    and run: "\<forall>mv limits t e. (queue_step mv limits)\<^sup>*\<^sup>* (seconds 4, d') (t, e) \<longrightarrow>
      (\<exists>k. find_job 1 e = Some k \<and> (is_active k \<or> job_status k = CANCELLED) \<and>
         (\<forall>u f. \<not> claimable u f k \<and> \<not> exhausted u k))"
    by (elim exE conjE) (rule that)
  have "\<exists>k. find_job 1 e = Some k \<and> (\<forall>u f. \<not> claimable u f k)"
    if "(queue_step strict_validate demo_limits)\<^sup>*\<^sup>* (seconds 4, d') (t, e)" for t e
    using run [rule_format, OF that] by (elim exE conjE) (intro exI conjI allI, assumption, simp)
  then show ?thesis using r by (intro exI [of _ d']) simp
qed

text \<open>Rerouting a job to another source during its last attempt strands it in the same way:
  it waits in the pool of the new source with no attempt left, never claimed and never failed.\<close>

theorem reroute_strands_last_attempt:
  assumes "owned_job i ow d = Some j" and "job_attempts j = job_max_attempts j"
    and "parse_job_payload mv (job_kind_of j) payload = Inr p"
  shows "\<exists>d' j'. reroute mv now i ow payload src av msg details d = Inr (True, d') \<and> find_job i d' = Some j' \<and>
    job_status j' = RETRY_WAIT \<and> job_source j' = py_strip src \<and>
    (\<forall>t e. \<not> claimable t e j' \<and> \<not> exhausted t j')"
proof -
  have f: "find_job i d = Some j" "job_id j = i"
    using assms(1) by (auto simp: owned_job_def dest: find_job_in split: option.splits if_splits)
  define j' where "j' = (drop_lease j)\<lparr>job_payload := model_dump p, job_source := py_strip src,
       job_pool := default_pool (job_kind_of j) (py_strip src), job_status := RETRY_WAIT,
       job_available_at := av, job_error_code := ''rerouted'', job_error_message := take 4000 msg,
       job_updated_at := now\<rparr>"
  have "stranded j'" using assms(2) by (simp add: j'_def stranded_def drop_lease_def)
  moreover have "job_id j' = i" "job_status j' = RETRY_WAIT" "job_source j' = py_strip src"
    using f by (simp_all add: j'_def drop_lease_def)
  ultimately show ?thesis
    using assms f stranded_never_moves
    by (auto simp: reroute_def Let_def get_put_row_same simp flip: j'_def)
qed

theorem reroute_strands_last_attempt_witness:
  "\<exists>d' j'. reroute strict_validate (seconds 3) 1 ''worker-1'' (eq_payload demo_args) ''beta'' (seconds 3) ''m'' fmempty
       demo_leased = Inr (True, d') \<and> find_job 1 d' = Some j' \<and>
     (\<forall>t e. \<not> claimable t e j' \<and> \<not> exhausted t j')"
proof -
  have "case owned_job 1 ''worker-1'' demo_leased of
      Some j \<Rightarrow> job_attempts j = job_max_attempts j \<and>
        \<not> isl (parse_job_payload strict_validate (job_kind_of j) (eq_payload demo_args)) | None \<Rightarrow> False" by code_simp
  then obtain j p where "owned_job 1 ''worker-1'' demo_leased = Some j" "job_attempts j = job_max_attempts j"
    "parse_job_payload strict_validate (job_kind_of j) (eq_payload demo_args) = Inr p"
    by (cases "owned_job 1 ''worker-1'' demo_leased")
       (auto, metis isl_def sum.exhaust)
  then show ?thesis using reroute_strands_last_attempt by metis
qed

subsection \<open>Claims that raise\<close>

lemma unlimited_claim:
  assumes inv: "queue_inv d" and a: "py_strip (ca_owner a) \<noteq> []" "0 < ca_lease_for a" "ca_pool_limits a = []"
    and p: "policies d = []" and q: "claim_query now (claim_scope a) locked d = Some c"
  shows "\<exists>d1. jobs d1 = put_row job_id (fix_pool c) (jobs d) \<and>
    claim mv now a locked d = bind_result (flush_job (lease_row now a (fix_pool c)) d1) (\<lambda>d2.
      bind_result (parse_job_payload mv (job_kind_of c) (Raw (job_payload c))) (\<lambda>p.
        Inr (Some (lease_of (lease_row now a (fix_pool c)) p (now + ca_lease_for a)),
          record_event (lease_row now a (fix_pool c)) EvLeased (py_strip (ca_owner a)) [] fmempty d2)))"
proof -
  have aa: "a\<lparr>ca_pool_limits := []\<rparr> = a" using a(3) by simp
  obtain d1 where d1: "claim_scan_loop 50 now a locked (scan_init now a d) d = (Some (fix_pool c), d1)"
    "jobs d1 = put_row job_id (fix_pool c) (jobs d)"
    using unlimited_loop [OF inv p q] by (auto simp: aa)
  have "same_but_pool c (fix_pool c)"
    using claimableD [OF claim_query_SomeD(2) [OF q]] by (intro same_but_pool_fix) simp
  note S = same_but_pool_fields [OF this]
  show ?thesis
    using a d1 S by (intro exI [of _ d1]) (simp add: claim_def Let_def lease_row_fields)
qed

text \<open>A stored payload that no longer validates blocks the queue: when such a job is the first
  candidate, the claim raises instead of handing out any job.  Nothing is written (the transaction
  is rolled back), so the same job is first again at the next claim.\<close>

theorem poison_payload_blocks:
  assumes "queue_inv d" and "py_strip (ca_owner a) \<noteq> []" "0 < ca_lease_for a" "ca_pool_limits a = []"
    and "policies d = []" and q: "claim_query now (claim_scope a) locked d = Some c"
    and bad: "parse_job_payload mv (job_kind_of c) (Raw (job_payload c)) = Inl e"
    and no: "\<forall>k \<in> set (jobs d). \<not> (leased_repair k \<and> expired_lease now k)"
  shows "claim mv now a locked d = Inl e"
proof -
  note Q = claim_query_SomeD [OF q]
  obtain d1 where d1: "jobs d1 = put_row job_id (fix_pool c) (jobs d)"
    "claim mv now a locked d = bind_result (flush_job (lease_row now a (fix_pool c)) d1) (\<lambda>d2.
      bind_result (parse_job_payload mv (job_kind_of c) (Raw (job_payload c))) (\<lambda>p.
        Inr (Some (lease_of (lease_row now a (fix_pool c)) p (now + ca_lease_for a)),
          record_event (lease_row now a (fix_pool c)) EvLeased (py_strip (ca_owner a)) [] fmempty d2)))"
    using unlimited_claim [OF assms(1-5) q] by blast
  have "same_but_pool c (fix_pool c)" using claimableD [OF Q(2)] by (intro same_but_pool_fix) simp
  note S = same_but_pool_fields [OF this]
  have "flush_ok (lease_row now a (fix_pool c)) (jobs d1)"
    using lease_flush_ok [OF assms(1) Q(1,2) no assms(2)] S
    by (auto simp: flush_ok_def list_all_iff d1(1) job_checks_def dedupe_clash_def repair_clash_def
        leased_repair_def lease_row_def dest!: in_put_rowD)
  then show ?thesis using d1(2) bad by (simp add: flush_job_def)
qed

text \<open>A validator that has stopped accepting library repairs.\<close>

definition picky_validate :: validator where
  "picky_validate k d = (if k = LIBRARY_REPAIR then None else strict_validate k d)"

theorem poison_payload_blocks_witness:
  "claim picky_validate (seconds 2) demo_free_claim [] demo_queued = Inl ValidationError"
proof -
  have P: "py_strip (ca_owner demo_free_claim) \<noteq> [] \<and> 0 < ca_lease_for demo_free_claim \<and>
      ca_pool_limits demo_free_claim = [] \<and> policies demo_queued = [] \<and>
      list_all (\<lambda>k. \<not> (leased_repair k \<and> expired_lease (seconds 2) k)) (jobs demo_queued)"
    "case claim_query (seconds 2) (claim_scope demo_free_claim) [] demo_queued of
      Some c \<Rightarrow> parse_job_payload picky_validate (job_kind_of c) (Raw (job_payload c)) = Inl ValidationError
    | None \<Rightarrow> False"
    by code_simp+
  then obtain c where "claim_query (seconds 2) (claim_scope demo_free_claim) [] demo_queued = Some c"
    "parse_job_payload picky_validate (job_kind_of c) (Raw (job_payload c)) = Inl ValidationError"
    by (auto split: option.splits)
  then show ?thesis using P by (intro poison_payload_blocks [OF demo_queued_inv]) (auto simp: list_all_iff)
qed

text \<open>The claim query overlooks a library repair whose lease has expired on its last attempt,
  but the unique index on leased repairs still counts it.  When the first candidate is another
  repair of that series, the claim raises an integrity error instead of handing out any job.\<close>

theorem expired_repair_blocks:
  assumes "queue_inv d" and "py_strip (ca_owner a) \<noteq> []" "0 < ca_lease_for a" "ca_pool_limits a = []"
    and "policies d = []" and q: "claim_query now (claim_scope a) locked d = Some c"
    and k: "k \<in> set (jobs d)" "exhausted now k" "leased_repair k"
    and c: "job_kind_of c = LIBRARY_REPAIR" "job_series_key c = job_series_key k"
  shows "claim mv now a locked d = Inl IntegrityError"
proof -
  note Q = claim_query_SomeD [OF q]
  obtain d1 where d1: "jobs d1 = put_row job_id (fix_pool c) (jobs d)"
    "claim mv now a locked d = bind_result (flush_job (lease_row now a (fix_pool c)) d1) (\<lambda>d2.
      bind_result (parse_job_payload mv (job_kind_of c) (Raw (job_payload c))) (\<lambda>p.
        Inr (Some (lease_of (lease_row now a (fix_pool c)) p (now + ca_lease_for a)),
          record_event (lease_row now a (fix_pool c)) EvLeased (py_strip (ca_owner a)) [] fmempty d2)))"
    using unlimited_claim [OF assms(1-5) q] by blast
  have "same_but_pool c (fix_pool c)" using claimableD [OF Q(2)] by (intro same_but_pool_fix) simp
  note S = same_but_pool_fields [OF this]
  have "k \<noteq> c" using k(2) claimableD [OF Q(2)] by (auto simp: exhausted_def)
  then have ne: "job_id k \<noteq> job_id c" using rows_ok_eq [OF queue_invD(1) [OF assms(1)]] k(1) Q(1) by blast
  then have "k \<in> set (jobs d1)" using k(1) S(1) by (simp add: d1(1) in_put_row_other)
  moreover have "repair_clash (lease_row now a (fix_pool c)) k"
    using k(3) c S by (simp add: repair_clash_def leased_repair_def lease_row_def)
  ultimately have "\<not> flush_ok (lease_row now a (fix_pool c)) (jobs d1)"
    using ne S(1) by (auto simp: flush_ok_def list_all_iff lease_row_fields)
  then show ?thesis using d1(2) by (simp add: flush_job_def)
qed

definition demo_second :: db where
  "demo_second = (case enqueue strict_validate (seconds 3) (demo_args\<lparr>eq_dedupe_key := ''repair:7b''\<rparr>) demo_leased of
     Inr (_, _, d) \<Rightarrow> d | Inl _ \<Rightarrow> empty_db)"

theorem expired_repair_blocks_witness:
  "claim strict_validate (seconds 90) demo_free_claim [] demo_second = Inl IntegrityError"
proof -
  have "case enqueue strict_validate (seconds 3) (demo_args\<lparr>eq_dedupe_key := ''repair:7b''\<rparr>) demo_leased of
      Inr (_, b, _) \<Rightarrow> b | Inl _ \<Rightarrow> False" by code_simp
  then have inv: "queue_inv demo_second"
    unfolding demo_second_def using enqueue_inv [OF demo_leased_inv] by (auto split: sum.splits)
  have P: "py_strip (ca_owner demo_free_claim) \<noteq> [] \<and> 0 < ca_lease_for demo_free_claim \<and>
      ca_pool_limits demo_free_claim = [] \<and> policies demo_second = [] \<and> jobs demo_second \<noteq> [] \<and>
      exhausted (seconds 90) (hd (jobs demo_second)) \<and> leased_repair (hd (jobs demo_second))"
    "case claim_query (seconds 90) (claim_scope demo_free_claim) [] demo_second of
      Some c \<Rightarrow> job_kind_of c = LIBRARY_REPAIR \<and> job_series_key c = job_series_key (hd (jobs demo_second))
    | None \<Rightarrow> False"
    by code_simp+
  then obtain c where "claim_query (seconds 90) (claim_scope demo_free_claim) [] demo_second = Some c"
    "job_kind_of c = LIBRARY_REPAIR" "job_series_key c = job_series_key (hd (jobs demo_second))"
    by (auto split: option.splits)
  then show ?thesis
    using P by (intro expired_repair_blocks [OF inv, where k = "hd (jobs demo_second)" and c = c]) auto
qed

end
