(* ===== verification/Settings.thy ===== *)
theory Settings
  imports Prelude Py_Text
begin

text \<open>
  The provider registry (\<^verbatim>\<open>manga_manager/domain/providers.py\<close>) and the settings
  (\<^verbatim>\<open>manga_manager/settings.py\<close>): the declared bounds of every field that the
  modelled code reads, and the tables computed from them.
\<close>

subsection \<open>Providers\<close>

definition PROVIDER_ORIGINS :: "(string \<times> string) list" where
  "PROVIDER_ORIGINS =
     [(''asura'', ''https://asurascans.com''), (''mangadex'', ''https://api.mangadex.org''),
      (''mangafire'', ''https://mangafire.to''), (''kingofshojo'', ''https://kingofshojo.com'')]"

definition provider_names :: "string list" where
  "provider_names = map fst PROVIDER_ORIGINS"

definition KNOWN_SOURCES :: "string list" where
  "KNOWN_SOURCES = provider_names"

definition SOURCE_PRIORITY :: "string list" where
  "SOURCE_PRIORITY = [''asura'', ''mangadex'', ''mangafire'', ''kingofshojo'']"

subsection \<open>Fields\<close>

record v2_settings =
  set_database_url :: string
  set_worker_id :: string
  set_worker_concurrency :: int
  set_global_chapter_concurrency :: int
  set_network_worker_concurrency :: int
  set_match_operation_concurrency :: int
  set_provider_pacing_window_seconds :: rat
  set_worker_poll_seconds :: rat
  set_worker_lease_seconds :: int
  set_worker_heartbeat_seconds :: int
  set_worker_shutdown_grace_seconds :: int
  set_retry_base_seconds :: int
  set_retry_cap_seconds :: int
  set_rate_limit_cooldown_minutes :: int
  set_asura_rate_limit_cooldown_minutes :: int
  set_circuit_breaker_failures :: int
  set_enable_asura :: bool
  set_enable_mangadex :: bool
  set_enable_mangafire :: bool
  set_enable_kingofshojo :: bool
  set_enable_cover_processing :: bool
  set_enable_library_repair :: bool
  set_asura_poll_minutes :: int
  set_mangadex_poll_minutes :: int
  set_mangafire_poll_minutes :: int
  set_kingofshojo_poll_minutes :: int
  set_min_free_bytes :: int

definition default_settings :: "string \<Rightarrow> v2_settings" where
  "default_settings worker =
     \<lparr>set_database_url = [], set_worker_id = worker, set_worker_concurrency = 24,
      set_global_chapter_concurrency = 20, set_network_worker_concurrency = 20,
      set_match_operation_concurrency = 3, set_provider_pacing_window_seconds = 2,
      set_worker_poll_seconds = 1, set_worker_lease_seconds = 300, set_worker_heartbeat_seconds = 30,
      set_worker_shutdown_grace_seconds = 30, set_retry_base_seconds = 30, set_retry_cap_seconds = 3600,
      set_rate_limit_cooldown_minutes = 5, set_asura_rate_limit_cooldown_minutes = 15,
      set_circuit_breaker_failures = 3, set_enable_asura = True, set_enable_mangadex = True,
      set_enable_mangafire = True, set_enable_kingofshojo = True,
      set_enable_cover_processing = True, set_enable_library_repair = True, set_asura_poll_minutes = 30,
      set_mangadex_poll_minutes = 30, set_mangafire_poll_minutes = 60, set_kingofshojo_poll_minutes = 180,
      set_min_free_bytes = 5 * 1024 * 1024 * 1024\<rparr>"

definition between :: "int \<Rightarrow> int \<Rightarrow> int \<Rightarrow> bool" where
  "between lo hi n = (lo \<le> n \<and> n \<le> hi)"

text \<open>The \<open>Field\<close> constraints of the class.\<close>

definition settings_ok :: "v2_settings \<Rightarrow> bool" where
  "settings_ok s =
     (between 1 180 (int (length (set_worker_id s))) \<and> between 4 64 (set_worker_concurrency s) \<and>
      between 1 64 (set_global_chapter_concurrency s) \<and> between 1 64 (set_network_worker_concurrency s) \<and>
      between 1 8 (set_match_operation_concurrency s) \<and>
      1 / 4 \<le> set_provider_pacing_window_seconds s \<and> set_provider_pacing_window_seconds s \<le> 30 \<and>
      0 < set_worker_poll_seconds s \<and> set_worker_poll_seconds s \<le> 60 \<and>
      between 30 86400 (set_worker_lease_seconds s) \<and> between 5 3600 (set_worker_heartbeat_seconds s) \<and>
      between 1 3600 (set_worker_shutdown_grace_seconds s) \<and> between 1 3600 (set_retry_base_seconds s) \<and>
      between 1 86400 (set_retry_cap_seconds s) \<and> between 1 1440 (set_rate_limit_cooldown_minutes s) \<and>
      between 1 1440 (set_asura_rate_limit_cooldown_minutes s) \<and>
      between 1 100 (set_circuit_breaker_failures s) \<and>
      5 \<le> set_asura_poll_minutes s \<and> 5 \<le> set_mangadex_poll_minutes s \<and>
      5 \<le> set_mangafire_poll_minutes s \<and> 15 \<le> set_kingofshojo_poll_minutes s \<and>
      0 \<le> set_min_free_bytes s)"

subsection \<open>Derived values\<close>

definition require_database_url :: "v2_settings \<Rightarrow> string result" where
  "require_database_url s =
     (if set_database_url s = [] then Inl (ValueError ''V2_DATABASE_URL is required'')
      else if \<not> py_startswith (set_database_url s) ''postgresql+''
      then Inl (ValueError ''V2_DATABASE_URL must use a postgresql+ SQLAlchemy driver'')
      else Inr (set_database_url s))"

definition lease_for :: "v2_settings \<Rightarrow> duration" where
  "lease_for s = seconds (set_worker_lease_seconds s)"

definition job_heartbeat_interval :: "v2_settings \<Rightarrow> duration result" where
  "job_heartbeat_interval s =
     (if set_worker_lease_seconds s \<le> set_worker_heartbeat_seconds s
      then Inl (ValueError ''V2_WORKER_HEARTBEAT_SECONDS must be shorter than the lease'')
      else Inr (seconds (set_worker_heartbeat_seconds s)))"

definition source_intervals :: "v2_settings \<Rightarrow> (string \<times> duration) list" where
  "source_intervals s =
     (if set_enable_asura s then [(''asura'', minutes (set_asura_poll_minutes s))] else []) @
     (if set_enable_mangadex s then [(''mangadex'', minutes (set_mangadex_poll_minutes s))] else []) @
     (if set_enable_mangafire s then [(''mangafire'', minutes (set_mangafire_poll_minutes s))] else []) @
     (if set_enable_kingofshojo s then [(''kingofshojo'', minutes (set_kingofshojo_poll_minutes s))] else [])"

definition pool_limits :: "v2_settings \<Rightarrow> (string \<times> int) list" where
  "pool_limits s =
     [(''network_global'', set_network_worker_concurrency s),
      (''pull:asura'', 1), (''pull:mangadex'', 1), (''pull:mangafire'', 1), (''pull:kingofshojo'', 1),
      (''provider:asura'', set_network_worker_concurrency s),
      (''provider:mangadex'', set_network_worker_concurrency s),
      (''provider:mangafire'', set_network_worker_concurrency s),
      (''provider:kingofshojo'', set_network_worker_concurrency s),
      (''refresh:asura'', set_network_worker_concurrency s),
      (''refresh:mangadex'', set_network_worker_concurrency s),
      (''refresh:mangafire'', set_network_worker_concurrency s),
      (''refresh:kingofshojo'', set_network_worker_concurrency s),
      (''download:asura'', set_network_worker_concurrency s),
      (''download:mangadex'', set_network_worker_concurrency s),
      (''download:mangafire'', set_network_worker_concurrency s),
      (''download:kingofshojo'', set_network_worker_concurrency s),
      (''chapter_global'', set_global_chapter_concurrency s), (''kavita'', 1), (''maintenance'', 1),
      (''health'', 1), (''cover_backfill'', 1), (''notification'', 1),
      (''catalog_mutation'', set_match_operation_concurrency s)]"

definition source_cooldown :: "v2_settings \<Rightarrow> string \<Rightarrow> duration" where
  "source_cooldown s src =
     minutes (if src = ''asura'' then set_asura_rate_limit_cooldown_minutes s
              else set_rate_limit_cooldown_minutes s)"

subsection \<open>Facts\<close>

lemma default_settings_ok: "settings_ok (default_settings ''worker-1'')"
  by (simp add: settings_ok_def default_settings_def between_def)

lemma pool_limits_distinct: "distinct (map fst (pool_limits s))"
  by (simp add: pool_limits_def)

lemma pool_limits_positive: "settings_ok s \<Longrightarrow> map_of (pool_limits s) pool = Some l \<Longrightarrow> 1 \<le> l"
  using map_of_SomeD [of "pool_limits s" pool l]
  by (auto simp: pool_limits_def settings_ok_def between_def)

lemma pool_limits_sources:
  "src \<in> set KNOWN_SOURCES \<Longrightarrow> pre \<in> {''pull:'', ''refresh:'', ''download:'', ''provider:''} \<Longrightarrow>
     pre @ src \<in> set (map fst (pool_limits s))"
  by (auto simp: KNOWN_SOURCES_def provider_names_def PROVIDER_ORIGINS_def pool_limits_def)

lemma source_intervals_facts:
  assumes "settings_ok s" "(src, i) \<in> set (source_intervals s)"
  shows "src \<in> set KNOWN_SOURCES" "minutes 5 \<le> i"
  using assms by (auto simp: source_intervals_def settings_ok_def KNOWN_SOURCES_def provider_names_def
      PROVIDER_ORIGINS_def split: if_splits)

lemma source_priority_complete: "set SOURCE_PRIORITY = set KNOWN_SOURCES"
  by (auto simp: SOURCE_PRIORITY_def KNOWN_SOURCES_def provider_names_def PROVIDER_ORIGINS_def)

end
