(* ===== verification/Provider_Pacing.thy ===== *)
theory Provider_Pacing
  imports Db_Model Settings
begin

text \<open>
  \<^verbatim>\<open>ProviderRequestScheduler\<close> (\<^verbatim>\<open>infrastructure/provider_scheduler.py\<close>):
  the reservation of request start times, shared by all workers through the endpoint rows, and
  the waiting loop.  Each call of \<open>_reserve\<close> is one transaction under an advisory lock, so calls
  for one endpoint are serial.  A delay is a duration; \<open>timedelta(seconds=x)\<close> rounds to
  microseconds, half to even.
\<close>

subsection \<open>Durations from float seconds\<close>

definition round_half_even :: "rat \<Rightarrow> int" where
  "round_half_even x =
     (let n = \<lfloor>x\<rfloor>; r = x - of_int n in
      if r < 1 / 2 then n else if 1 / 2 < r then n + 1 else if even n then n else n + 1)"

definition timedelta_seconds :: "rat \<Rightarrow> duration" where
  "timedelta_seconds x = round_half_even (x * 1000000)"

lemma round_half_even_mono0: "0 \<le> x \<Longrightarrow> 0 \<le> round_half_even x"
  by (auto simp: round_half_even_def Let_def)

lemma timedelta_nonneg [simp]: "0 \<le> timedelta_seconds (max x 0)"
  by (simp add: timedelta_seconds_def round_half_even_mono0)

subsection \<open>Reservation\<close>

record request_reservation =
  rr_delay :: duration
  rr_recheck_cooldown :: bool

definition find_endpoint :: "string \<Rightarrow> string \<Rightarrow> db \<Rightarrow> provider_endpoint_state option" where
  "find_endpoint src cls d = get_row (\<lambda>e. (ep_source e, ep_traffic_class e)) (src, cls) (endpoints d)"

definition put_endpoint :: "provider_endpoint_state \<Rightarrow> db \<Rightarrow> db" where
  "put_endpoint e d = d\<lparr>endpoints := put_row (\<lambda>e. (ep_source e, ep_traffic_class e)) e (endpoints d)\<rparr>"

definition put_source_state :: "catalog_source_state \<Rightarrow> db \<Rightarrow> db" where
  "put_source_state s d = d\<lparr>source_states := put_row sst_source s (source_states d)\<rparr>"

text \<open>The rows of a source and of an endpoint, created with their defaults when missing.\<close>

definition ensure_source_state :: "instant \<Rightarrow> string \<Rightarrow> db \<Rightarrow> catalog_source_state \<times> db" where
  "ensure_source_state now src d =
     (case find_source_state src d of
        Some s \<Rightarrow> (s, d)
      | None \<Rightarrow> (let s = new_source_state now src in (s, d\<lparr>source_states := source_states d @ [s]\<rparr>)))"

definition ensure_endpoint :: "instant \<Rightarrow> string \<Rightarrow> string \<Rightarrow> db \<Rightarrow> provider_endpoint_state \<times> db" where
  "ensure_endpoint now src cls d =
     (case find_endpoint src cls d of
        Some e \<Rightarrow> (e, d)
      | None \<Rightarrow> (let e = new_endpoint_state now src cls in (e, d\<lparr>endpoints := endpoints d @ [e]\<rparr>)))"

text \<open>The pacing interval: the endpoint's own when it has one, else the policy's, else the one
  passed in.\<close>

definition pacing_interval :: "rat \<Rightarrow> provider_policy option \<Rightarrow> provider_endpoint_state \<Rightarrow> rat" where
  "pacing_interval interval pol e =
     (if 0 < ep_request_interval_seconds e then ep_request_interval_seconds e
      else case pol of
             Some p \<Rightarrow> if 0 < pol_request_interval_seconds p then pol_request_interval_seconds p else interval
           | None \<Rightarrow> interval)"

definition later :: "instant \<Rightarrow> instant option \<Rightarrow> instant" where
  "later t c = (case c of None \<Rightarrow> t | Some u \<Rightarrow> max t u)"

definition reserve_request ::
  "instant \<Rightarrow> string \<Rightarrow> rat \<Rightarrow> string \<Rightarrow> bool \<Rightarrow> db \<Rightarrow> (request_reservation \<times> db) result" where
  "reserve_request now src interval cls bypass d =
     (if src \<notin> set KNOWN_SOURCES then Inl (ValueError (''unknown provider source: '' @ src))
      else
        (let (s, d1) = ensure_source_state now src d;
             (e, d2) = ensure_endpoint now src cls d1;
             ival = pacing_interval interval (find_policy src d2) e;
             cooldown = later (later now (sst_cooldown_until s)) (ep_cooldown_until e)
         in if \<not> bypass \<and> now < cooldown
            then Inr (\<lparr>rr_delay = cooldown - now, rr_recheck_cooldown = True\<rparr>, d2)
            else
              (let gap = timedelta_seconds (max ival 0);
                   available = (case ep_next_request_at e of
                      None \<Rightarrow> now
                    | Some n \<Rightarrow> max now (if bypass then min n (now + gap) else n));
                   next = available + gap;
                   e1 = e\<lparr>ep_next_request_at := Some next, ep_updated_at := now\<rparr>;
                   s1 = s\<lparr>sst_next_request_at := Some next, sst_updated_at := now\<rparr>
               in Inr (\<lparr>rr_delay = max 0 (available - now), rr_recheck_cooldown = False\<rparr>,
                       put_source_state s1 (put_endpoint e1 d2)))))"

subsection \<open>Waiting\<close>

text \<open>
  The loop of \<open>wait\<close>, with the time that sleeping takes: \<open>recheck\<close> is
  \<open>cooldown_recheck_seconds\<close> (at least 50 ms).  The result is the instant at which the request
  starts and the number of reservations that were made; \<open>None\<close> is an exhausted fuel.
\<close>

fun wait_loop ::
  "nat \<Rightarrow> duration \<Rightarrow> instant \<Rightarrow> string \<Rightarrow> rat \<Rightarrow> string \<Rightarrow> bool \<Rightarrow> db \<Rightarrow> (instant \<times> db) result option" where
  "wait_loop 0 recheck now src interval cls bypass d = None"
| "wait_loop (Suc n) recheck now src interval cls bypass d =
     (case reserve_request now src interval cls bypass d of
        Inl e \<Rightarrow> Some (Inl e)
      | Inr (r, d1) \<Rightarrow>
          if rr_delay r \<le> 0 then Some (Inr (now, d1))
          else if \<not> rr_recheck_cooldown r then Some (Inr (now + rr_delay r, d1))
          else wait_loop n recheck (now + min (rr_delay r) recheck) src interval cls bypass d1)"

definition recheck_interval :: "rat \<Rightarrow> duration" where
  "recheck_interval cooldown_recheck_seconds = timedelta_seconds (max cooldown_recheck_seconds (1 / 20))"

end
