(* ===== verification/Provider_Pacing_Facts.thy ===== *)
theory Provider_Pacing_Facts
  imports Provider_Pacing
begin

text \<open>
  Request start times that the pacing hands out for one endpoint are spaced by the interval,
  whatever the clocks of the callers, as long as no recovery probe comes in between; no ordinary
  request starts inside a cooldown; the waiting loop ends.
\<close>

subsection \<open>The rows a reservation works on\<close>

definition source_row :: "instant \<Rightarrow> string \<Rightarrow> db \<Rightarrow> catalog_source_state" where
  "source_row now src d = fst (ensure_source_state now src d)"

definition endpoint_row :: "instant \<Rightarrow> string \<Rightarrow> string \<Rightarrow> db \<Rightarrow> provider_endpoint_state" where
  "endpoint_row now src cls d = fst (ensure_endpoint now src cls d)"

definition request_gap :: "string \<Rightarrow> rat \<Rightarrow> string \<Rightarrow> db \<Rightarrow> duration" where
  "request_gap src interval cls d =
     timedelta_seconds (max (pacing_interval interval (find_policy src d) (endpoint_row 0 src cls d)) 0)"

definition cooldown_end :: "instant \<Rightarrow> string \<Rightarrow> string \<Rightarrow> db \<Rightarrow> instant" where
  "cooldown_end now src cls d =
     later (later now (sst_cooldown_until (source_row now src d))) (ep_cooldown_until (endpoint_row now src cls d))"

definition next_slot :: "string \<Rightarrow> string \<Rightarrow> db \<Rightarrow> instant option" where
  "next_slot src cls d = ep_next_request_at (endpoint_row 0 src cls d)"

lemma endpoint_row_fields:
  "ep_next_request_at (endpoint_row t src cls d) = next_slot src cls d"
  "ep_request_interval_seconds (endpoint_row t src cls d) = ep_request_interval_seconds (endpoint_row 0 src cls d)"
  "ep_cooldown_until (endpoint_row t src cls d) = ep_cooldown_until (endpoint_row 0 src cls d)"
  "ep_source (endpoint_row t src cls d) = src" "ep_traffic_class (endpoint_row t src cls d) = cls"
  by (auto simp: endpoint_row_def next_slot_def ensure_endpoint_def find_endpoint_def new_endpoint_state_def Let_def
      dest: get_row_SomeD split: option.splits)

lemma source_row_fields:
  "sst_cooldown_until (source_row t src d) = sst_cooldown_until (source_row 0 src d)"
  "sst_source (source_row t src d) = src"
  by (auto simp: source_row_def ensure_source_state_def new_source_state_def Let_def
      dest: get_row_SomeD split: option.splits)

text \<open>Creating the two rows, and writing them back, changes neither policies nor other fields.\<close>

definition ensured :: "instant \<Rightarrow> string \<Rightarrow> string \<Rightarrow> db \<Rightarrow> db" where
  "ensured now src cls d = snd (ensure_endpoint now src cls (snd (ensure_source_state now src d)))"

lemma ensure_simps:
  "ensure_endpoint now src cls (snd (ensure_source_state now src d)) = (endpoint_row now src cls d, ensured now src cls d)"
  by (simp add: endpoint_row_def ensured_def ensure_endpoint_def ensure_source_state_def
      find_endpoint_def Let_def split: option.splits)

lemma ensured_find:
  "find_source_state src (ensured now src cls d) = Some (source_row now src d)"
  "find_endpoint src cls (ensured now src cls d) = Some (endpoint_row now src cls d)"
  "policies (ensured now src cls d) = policies d"
  by (auto simp: ensured_def source_row_def endpoint_row_def ensure_source_state_def ensure_endpoint_def
      find_endpoint_def Let_def new_source_state_def new_endpoint_state_def get_row_append get_row_Cons
      split: option.splits)

lemma rows_of_found:
  "find_endpoint src cls d = Some e \<Longrightarrow> endpoint_row t src cls d = e"
  "find_source_state src d = Some s \<Longrightarrow> source_row t src d = s"
  by (simp_all add: endpoint_row_def ensure_endpoint_def source_row_def ensure_source_state_def)

lemma reserve_cases:
  assumes "src \<in> set KNOWN_SOURCES"
  shows "reserve_request now src interval cls bypass d =
    (if \<not> bypass \<and> now < cooldown_end now src cls d
     then Inr (\<lparr>rr_delay = cooldown_end now src cls d - now, rr_recheck_cooldown = True\<rparr>, ensured now src cls d)
     else
       (let gap = request_gap src interval cls d;
            available = (case next_slot src cls d of None \<Rightarrow> now
               | Some n \<Rightarrow> max now (if bypass then min n (now + gap) else n))
        in Inr (\<lparr>rr_delay = max 0 (available - now), rr_recheck_cooldown = False\<rparr>,
             put_source_state ((source_row now src d)\<lparr>sst_next_request_at := Some (available + gap), sst_updated_at := now\<rparr>)
               (put_endpoint ((endpoint_row now src cls d)\<lparr>ep_next_request_at := Some (available + gap), ep_updated_at := now\<rparr>)
                  (ensured now src cls d)))))"
proof -
  have gap: "timedelta_seconds (max (pacing_interval interval (find_policy src (ensured now src cls d))
      (endpoint_row now src cls d)) 0) = request_gap src interval cls d"
    by (simp add: request_gap_def ensured_find(3) pacing_interval_def endpoint_row_fields(2) [of now])
  define d1 where "d1 = snd (ensure_source_state now src d)"
  have 1: "ensure_source_state now src d = (source_row now src d, d1)" by (simp add: d1_def source_row_def)
  have 2: "ensure_endpoint now src cls d1 = (endpoint_row now src cls d, ensured now src cls d)"
    unfolding d1_def by (rule ensure_simps)
  show ?thesis
    using assms unfolding reserve_request_def Let_def 1 prod.case 2 gap cooldown_end_def endpoint_row_fields(1)
    by simp
qed

lemma reserve_total:
  assumes "src \<in> set KNOWN_SOURCES"
  obtains r d' where "reserve_request now src interval cls bypass d = Inr (r, d')"
  using reserve_cases [OF assms, of now interval cls bypass d]
  by (cases "\<not> bypass \<and> now < cooldown_end now src cls d") (simp_all add: Let_def)

subsection \<open>One reservation\<close>

lemma reserve_after:
  assumes src: "src \<in> set KNOWN_SOURCES" and res: "reserve_request now src interval cls bypass d = Inr (r, d')"
  shows "request_gap src interval cls d' = request_gap src interval cls d"
    and "rr_recheck_cooldown r \<Longrightarrow> next_slot src cls d' = next_slot src cls d"
    and "\<not> rr_recheck_cooldown r \<Longrightarrow>
      next_slot src cls d' = Some (now + rr_delay r + request_gap src interval cls d)"
    and "cooldown_end t src cls d' = cooldown_end t src cls d"
    and "0 \<le> rr_delay r"
proof -
  define gap where "gap = request_gap src interval cls d"
  define avail where "avail = (case next_slot src cls d of None \<Rightarrow> now
               | Some n \<Rightarrow> max now (if bypass then min n (now + gap) else n))"
  define s' where "s' = (source_row now src d)\<lparr>sst_next_request_at := Some (avail + gap), sst_updated_at := now\<rparr>"
  define e' where "e' = (endpoint_row now src cls d)\<lparr>ep_next_request_at := Some (avail + gap), ep_updated_at := now\<rparr>"
  define d2 where "d2 = put_source_state s' (put_endpoint e' (ensured now src cls d))"
  have e'_id: "ep_source e' = src" "ep_traffic_class e' = cls" "sst_source s' = src"
    by (simp_all add: e'_def s'_def endpoint_row_fields source_row_fields)
  have found: "find_endpoint src cls d2 = Some e'" "find_source_state src d2 = Some s'" "policies d2 = policies d"
    using ensured_find [where src = src and now = now and cls = cls and d = d] e'_id
    by (simp_all add: d2_def put_source_state_def put_endpoint_def find_endpoint_def get_put_row_same)
  have avail: "now \<le> avail" by (auto simp: avail_def split: option.splits)
  have d': "(if \<not> bypass \<and> now < cooldown_end now src cls d
      then r = \<lparr>rr_delay = cooldown_end now src cls d - now, rr_recheck_cooldown = True\<rparr> \<and> d' = ensured now src cls d
      else r = \<lparr>rr_delay = max 0 (avail - now), rr_recheck_cooldown = False\<rparr> \<and> d' = d2)"
    using res unfolding reserve_cases [OF src] Let_def gap_def [symmetric] avail_def [symmetric]
      s'_def [symmetric] e'_def [symmetric] d2_def [symmetric]
    by (auto split: if_splits)
  have E: "endpoint_row t src cls d' = endpoint_row now src cls d \<or> endpoint_row t src cls d' = e'" for t
    using d' rows_of_found(1) [OF found(1)] rows_of_found(1) [OF ensured_find(2)] by (auto split: if_splits)
  have S: "source_row t src d' = source_row now src d \<or> source_row t src d' = s'" for t
    using d' rows_of_found(2) [OF found(2)] rows_of_found(2) [OF ensured_find(1)] by (auto split: if_splits)
  have row: "ep_request_interval_seconds (endpoint_row 0 src cls d') = ep_request_interval_seconds (endpoint_row 0 src cls d)"
    using E [of 0] by (auto simp: e'_def) (metis endpoint_row_fields(2))+
  have cool: "ep_cooldown_until (endpoint_row t src cls d') = ep_cooldown_until (endpoint_row t src cls d)"
    using E [of t] by (auto simp: e'_def) (metis endpoint_row_fields(3))+
  have scool: "sst_cooldown_until (source_row t src d') = sst_cooldown_until (source_row t src d)"
    using S [of t] by (auto simp: s'_def) (metis source_row_fields(1))+
  have pol: "policies d' = policies d" using d' found(3) ensured_find(3) by (auto split: if_splits)
  show "request_gap src interval cls d' = request_gap src interval cls d"
    using row pol by (simp add: request_gap_def pacing_interval_def)
  show "cooldown_end t src cls d' = cooldown_end t src cls d" using cool scool by (simp add: cooldown_end_def)
  show "0 \<le> rr_delay r" using d' by (auto split: if_splits)
  show "next_slot src cls d' = next_slot src cls d" if "rr_recheck_cooldown r"
    using d' that rows_of_found(1) [OF ensured_find(2)] endpoint_row_fields(1)
    by (auto simp: next_slot_def split: if_splits)
  show "next_slot src cls d' = Some (now + rr_delay r + request_gap src interval cls d)" if "\<not> rr_recheck_cooldown r"
    using d' that avail rows_of_found(1) [OF found(1)]
    by (auto simp: next_slot_def e'_def gap_def split: if_splits)
qed

lemma reserve_start:
  assumes src: "src \<in> set KNOWN_SOURCES" and res: "reserve_request now src interval cls False d = Inr (r, d')"
    and r: "\<not> rr_recheck_cooldown r"
  shows "case next_slot src cls d of None \<Rightarrow> True | Some n \<Rightarrow> n \<le> now + rr_delay r"
    and "cooldown_end now src cls d \<le> now"
  using res r unfolding reserve_cases [OF src]
  by (auto simp: Let_def not_less split: if_splits option.splits)

subsection \<open>Sequences of reservations\<close>

text \<open>Reservations of one endpoint by any callers at any times, ordinary ones and recovery probes (which
  bypass a cooldown); the grants, in the order in which they were made.\<close>

record request_grant =
  gr_probe :: bool
  gr_asked :: instant
  gr_start :: instant

fun grants :: "string \<Rightarrow> rat \<Rightarrow> string \<Rightarrow> (bool \<times> instant) list \<Rightarrow> db \<Rightarrow> request_grant list" where
  "grants src interval cls [] d = []"
| "grants src interval cls ((probe, t) # qs) d =
     (case reserve_request t src interval cls probe d of
        Inl _ \<Rightarrow> grants src interval cls qs d
      | Inr (r, d1) \<Rightarrow>
          (if rr_recheck_cooldown r then []
           else [\<lparr>gr_probe = probe, gr_asked = t, gr_start = t + rr_delay r\<rparr>]) @ grants src interval cls qs d1)"

lemma gap_nonneg [simp]: "0 \<le> request_gap src interval cls d"
  by (simp add: request_gap_def)

lemma probe_start:
  assumes src: "src \<in> set KNOWN_SOURCES" and res: "reserve_request now src interval cls True d = Inr (r, d')"
  shows "\<not> rr_recheck_cooldown r" "rr_delay r \<le> request_gap src interval cls d"
  using res gap_nonneg [of src interval cls d] unfolding reserve_cases [OF src]
  by (auto simp: Let_def max_def min_def split: option.splits)

text \<open>An ordinary grant comes a gap after the one just before it; a probe waits for at most one gap.\<close>

definition spaced :: "duration \<Rightarrow> request_grant \<Rightarrow> request_grant \<Rightarrow> bool" where
  "spaced gap a b = (gr_start a + gap \<le> gr_start b)"

definition prompt :: "duration \<Rightarrow> request_grant \<Rightarrow> bool" where
  "prompt gap a = (gr_asked a \<le> gr_start a \<and> (gr_probe a \<longrightarrow> gr_start a \<le> gr_asked a + gap))"

lemma grants_successive:
  assumes src: "src \<in> set KNOWN_SOURCES" and g: "gap = request_gap src interval cls d"
  shows "successively (\<lambda>a b. gr_probe b \<or> spaced gap a b) (grants src interval cls qs d) \<and>
    list_all (prompt gap) (grants src interval cls qs d) \<and>
    (\<forall>n a rest. next_slot src cls d = Some n \<longrightarrow> grants src interval cls qs d = a # rest \<longrightarrow> gr_probe a \<or> n \<le> gr_start a)"
  using g
proof (induction qs arbitrary: d)
  case Nil
  then show ?case by simp
next
  case (Cons q qs)
  obtain probe t where q: "q = (probe, t)" by (cases q)
  obtain r d1 where res: "reserve_request t src interval cls probe d = Inr (r, d1)"
    using reserve_total [OF src] .
  note A = reserve_after [OF src res]
  have g1: "gap = request_gap src interval cls d1" using Cons.prems A(1) by simp
  note IH = Cons.IH [OF g1]
  show ?case
  proof (cases "rr_recheck_cooldown r")
    case True
    then show ?thesis using IH A(2) res q by simp
  next
    case False
    let ?a = "\<lparr>gr_probe = probe, gr_asked = t, gr_start = t + rr_delay r\<rparr>"
    let ?G = "grants src interval cls qs d1"
    have G: "grants src interval cls (q # qs) d = ?a # ?G" using res False q by simp
    have slot: "next_slot src cls d1 = Some (t + rr_delay r + gap)" using A(3) [OF False] Cons.prems by simp
    have "probe \<or> n \<le> t + rr_delay r" if "next_slot src cls d = Some n" for n
      using reserve_start(1) [OF src, of t interval cls d r d1] res False that by (cases probe) auto
    moreover have "prompt gap ?a"
      using A(5) probe_start(2) [OF src, of t interval cls d r d1] res Cons.prems
      by (cases probe) (simp_all add: prompt_def)
    moreover have "?G = [] \<or> gr_probe (hd ?G) \<or> spaced gap ?a (hd ?G)"
      using IH slot by (cases ?G) (auto simp: spaced_def)
    ultimately show ?thesis unfolding G using IH by (auto simp: successively_Cons)
  qed
qed

lemma successively_stretch:
  assumes "successively (\<lambda>a b. gr_probe b \<or> spaced gap a b) xs" "list_all (\<lambda>a. \<not> gr_probe a) (tl xs)" "0 \<le> gap"
  shows "sorted_wrt (spaced gap) xs"
  using assms
proof (induction xs)
  case (Cons a xs)
  show ?case
  proof (cases xs)
    case (Cons b ys)
    then have "sorted_wrt (spaced gap) xs" "spaced gap a b"
      using Cons.IH Cons.prems by (auto simp: successively_Cons)
    moreover from this have "spaced gap a c" if "c \<in> set ys" for c
      using that Cons Cons.prems(3) by (fastforce simp: spaced_def)
    ultimately show ?thesis using Cons by auto
  qed simp
qed simp

text \<open>C11. Pacing: whatever the clocks of the workers that ask and however ordinary requests and recovery
  probes interleave, in every stretch of grants for one endpoint in which no probe follows the first grant the
  start times are at least one pacing interval apart, in the order in which they were granted.  No request
  starts before it is asked for, and a probe waits for at most one interval (so that it may share its start
  with a grant made before it).\<close>

theorem requests_spaced:
  assumes "src \<in> set KNOWN_SOURCES"
    and "grants src interval cls qs d = before @ stretch @ rest" "list_all (\<lambda>a. \<not> gr_probe a) (tl stretch)"
  shows "sorted_wrt (\<lambda>a b. gr_start a + request_gap src interval cls d \<le> gr_start b) stretch \<and>
    (\<forall>a \<in> set (grants src interval cls qs d). gr_asked a \<le> gr_start a \<and>
       (gr_probe a \<longrightarrow> gr_start a \<le> gr_asked a + request_gap src interval cls d))"
proof -
  let ?gap = "request_gap src interval cls d"
  note G = grants_successive [OF assms(1) refl, of interval cls d qs]
  then have "successively (\<lambda>a b. gr_probe b \<or> spaced ?gap a b) stretch"
    unfolding assms(2) by (simp add: successively_append_iff)
  from successively_stretch [OF this assms(3) gap_nonneg] G show ?thesis
    by (simp add: spaced_def [abs_def] prompt_def list_all_iff)
qed

theorem requests_spaced_witness:
  "sorted_wrt (\<lambda>a b. gr_start a + request_gap ''asura'' (1 / 2) ''origin'' empty_db \<le> gr_start b)
     (tl (grants ''asura'' (1 / 2) ''origin'' [(False, 10), (True, 0), (False, 7), (False, 9)] empty_db)) \<and>
   map gr_start (grants ''asura'' (1 / 2) ''origin'' [(False, 10), (True, 0), (False, 7), (False, 9)] empty_db)
     = [10, 500000, 1000000, 1500000]"
proof -
  let ?G = "grants ''asura'' (1 / 2) ''origin'' [(False, 10), (True, 0), (False, 7), (False, 9)] empty_db"
  have k: "''asura'' \<in> set KNOWN_SOURCES" by code_simp
  have v: "?G = [\<lparr>gr_probe = False, gr_asked = 10, gr_start = 10\<rparr>, \<lparr>gr_probe = True, gr_asked = 0, gr_start = 500000\<rparr>,
      \<lparr>gr_probe = False, gr_asked = 7, gr_start = 1000000\<rparr>, \<lparr>gr_probe = False, gr_asked = 9, gr_start = 1500000\<rparr>]"
    by code_simp
  have "?G = [hd ?G] @ tl ?G @ []" "list_all (\<lambda>a. \<not> gr_probe a) (tl (tl ?G))" unfolding v by simp_all
  with requests_spaced [OF k] have "sorted_wrt (\<lambda>a b. gr_start a + request_gap ''asura'' (1 / 2) ''origin'' empty_db \<le> gr_start b) (tl ?G)"
    by blast
  then show ?thesis unfolding v by simp
qed

text \<open>A recovery probe does not wait for the slots that are already reserved, and it moves the next free
  slot back: the probe and the request after it start together with requests granted before.\<close>

lemma probe_shares_start:
  "map gr_start (grants ''asura'' (1 / 2) ''origin'' [(False, 0), (False, 0), (False, 0), (True, 0), (False, 0)] empty_db)
     = [0, 500000, 1000000, 500000, 1000000]"
  by code_simp

text \<open>Cooldown: a request that is not a recovery probe is granted a start only when neither the
  source nor the endpoint is cooling down, and a caller turned away by a cooldown does not move
  the next free slot.\<close>

theorem cooldown_respected:
  assumes "src \<in> set KNOWN_SOURCES" and "reserve_request now src interval cls False d = Inr (r, d')"
  shows "(\<not> rr_recheck_cooldown r \<longrightarrow> cooldown_end now src cls d \<le> now) \<and>
    (rr_recheck_cooldown r \<longrightarrow> rr_delay r = cooldown_end now src cls d - now \<and> 0 < rr_delay r \<and>
       next_slot src cls d' = next_slot src cls d)"
proof (cases "rr_recheck_cooldown r")
  case True
  then show ?thesis
    using assms(2) reserve_after(2) [OF assms True] unfolding reserve_cases [OF assms(1)]
    by (auto simp: Let_def split: if_splits)
next
  case False
  then show ?thesis using reserve_start(2) [OF assms False] by simp
qed

definition demo_cooldown :: db where
  "demo_cooldown = empty_db\<lparr>source_states :=
     [(new_source_state 0 ''asura'')\<lparr>sst_cooldown_until := Some (seconds 30)\<rparr>]\<rparr>"

theorem cooldown_respected_witness:
  "\<exists>r d'. reserve_request (seconds 10) ''asura'' 1 ''origin'' False demo_cooldown = Inr (r, d') \<and>
     rr_recheck_cooldown r \<and> rr_delay r = cooldown_end (seconds 10) ''asura'' ''origin'' demo_cooldown - seconds 10"
proof -
  have k: "''asura'' \<in> set KNOWN_SOURCES" by code_simp
  have "case reserve_request (seconds 10) ''asura'' 1 ''origin'' False demo_cooldown of
     Inr (r, d') \<Rightarrow> rr_recheck_cooldown r | Inl _ \<Rightarrow> False" by code_simp
  then obtain r d' where "reserve_request (seconds 10) ''asura'' 1 ''origin'' False demo_cooldown = Inr (r, d')"
    "rr_recheck_cooldown r" by (auto split: sum.splits)
  then show ?thesis using cooldown_respected [OF k] by blast
qed

subsection \<open>The waiting loop ends\<close>

lemma later_cooldown: "t \<le> t' \<Longrightarrow> t' \<le> cooldown_end t src cls d \<Longrightarrow> cooldown_end t' src cls d = cooldown_end t src cls d"
  by (auto simp: cooldown_end_def later_def source_row_fields(1) [of t] source_row_fields(1) [of t']
      endpoint_row_fields(3) [of t] endpoint_row_fields(3) [of t'] split: option.splits)

lemma wait_ends:
  assumes src: "src \<in> set KNOWN_SOURCES" and pos: "0 < recheck"
  shows "cooldown_end now src cls d - now \<le> int n * recheck \<Longrightarrow>
    \<exists>start d'. wait_loop (Suc n) recheck now src interval cls False d = Some (Inr (start, d')) \<and>
      cooldown_end now src cls d \<le> start"
proof (induction n arbitrary: now d)
  case 0
  obtain r d1 where res: "reserve_request now src interval cls False d = Inr (r, d1)"
    using reserve_total [OF src] .
  have "\<not> now < cooldown_end now src cls d" using 0 by simp
  then have "\<not> rr_recheck_cooldown r" using res unfolding reserve_cases [OF src] by (auto simp: Let_def)
  then show ?case using 0 reserve_after(5) [OF src res] by (simp add: res)
next
  case (Suc n)
  obtain r d1 where res: "reserve_request now src interval cls False d = Inr (r, d1)"
    using reserve_total [OF src] .
  note A = reserve_after [OF src res]
  show ?case
  proof (cases "rr_recheck_cooldown r")
    case False
    then show ?thesis using reserve_start(2) [OF src res False] A(5) by (simp add: res)
  next
    case True
    let ?c = "cooldown_end now src cls d"
    have delay: "rr_delay r = ?c - now" "0 < rr_delay r"
      using res True unfolding reserve_cases [OF src] by (auto simp: Let_def split: if_splits)
    let ?t = "now + min (rr_delay r) recheck"
    have t: "cooldown_end ?t src cls d1 = ?c"
      using A(4) later_cooldown [of now ?t] delay pos by simp
    have "0 \<le> int n * recheck" using pos by simp
    then have "?c - ?t \<le> int n * recheck" using Suc.prems delay by (auto simp: min_def algebra_simps)
    then obtain start d' where "wait_loop (Suc n) recheck ?t src interval cls False d1 = Some (Inr (start, d'))" "?c \<le> start"
      using Suc.IH [of ?t d1] t by auto
    then show ?thesis using delay True by (simp add: res)
  qed
qed

text \<open>Waiting for a slot ends: if the cooldown is not extended meanwhile, the loop returns after
  at most one reservation per recheck interval of the remaining cooldown and one more, and the
  request starts when the cooldown is over.\<close>

theorem wait_returns:
  assumes "src \<in> set KNOWN_SOURCES" and "0 \<le> x"
    and "cooldown_end now src cls d - now \<le> int n * recheck_interval x"
  shows "\<exists>start d'. wait_loop (Suc n) (recheck_interval x) now src interval cls False d = Some (Inr (start, d')) \<and>
      cooldown_end now src cls d \<le> start"
proof (rule wait_ends [OF assms(1) _ assms(3)])
  have "(1 / 20 * 1000000 :: rat) \<le> max x (1 / 20) * 1000000" by simp
  then show "0 < recheck_interval x"
    by (auto simp: recheck_interval_def timedelta_seconds_def round_half_even_def Let_def le_floor_iff
        intro: less_le_trans [of _ 50000])
qed

theorem wait_returns_witness:
  "\<exists>start d'. wait_loop 5 (recheck_interval 5) (seconds 10) ''asura'' 1 ''origin'' False demo_cooldown
     = Some (Inr (start, d')) \<and> cooldown_end (seconds 10) ''asura'' ''origin'' demo_cooldown \<le> start"
proof -
  have "''asura'' \<in> set KNOWN_SOURCES \<and>
    cooldown_end (seconds 10) ''asura'' ''origin'' demo_cooldown - seconds 10 \<le> 4 * recheck_interval 5"
    by code_simp
  then show ?thesis
    using wait_returns [of "''asura''" 5 "seconds 10" "''origin''" demo_cooldown 4 1] by (simp add: numeral_eq_Suc)
qed

end
