(* ===== verification/Storage_Capacity.thy ===== *)
theory Storage_Capacity
  imports Queue_Machine
begin

text \<open>
  \<^verbatim>\<open>StorageCapacityCoordinator\<close> (\<^verbatim>\<open>infrastructure/storage_capacity.py\<close>): disk space
  reserved by running downloads.  The free bytes that \<open>shutil.disk_usage\<close> reports are a
  parameter of each call.  Every call is one transaction under an advisory lock.
\<close>

subsection \<open>Operations\<close>

definition drop_expired_reservations :: "instant \<Rightarrow> db \<Rightarrow> db" where
  "drop_expired_reservations now d =
     d\<lparr>reservations := filter (\<lambda>r. \<not> res_lease_expires_at r \<le> now) (reservations d)\<rparr>"

definition reserved_bytes :: "db \<Rightarrow> int" where
  "reserved_bytes d = sum_list (map res_reserved_bytes (reservations d))"

definition storage_row :: "instant \<Rightarrow> db \<Rightarrow> storage_state" where
  "storage_row now d = (case storage d of Some s \<Rightarrow> s
     | None \<Rightarrow> \<lparr>st_paused = False, st_free_bytes = 0, st_min_free_bytes = 0, st_reserved_bytes = 0,
               st_reason = [], st_updated_at = now\<rparr>)"

definition storage_reserve ::
  "instant \<Rightarrow> int \<Rightarrow> int \<Rightarrow> int \<Rightarrow> string \<Rightarrow> int \<Rightarrow> instant \<Rightarrow> db \<Rightarrow> bool \<times> db" where
  "storage_reserve now free min_free i owner requested expires d =
     (let d1 = drop_expired_reservations now d in
      case get_row res_job_id i (reservations d1) of
        Some r \<Rightarrow> (True, d1\<lparr>reservations := put_row res_job_id (r\<lparr>res_lease_expires_at := expires\<rparr>)
                                (reservations d1)\<rparr>)
      | None \<Rightarrow>
          (let reserved = reserved_bytes d1;
               s = (storage_row now d1)\<lparr>st_free_bytes := free, st_min_free_bytes := min_free,
                     st_reserved_bytes := reserved, st_updated_at := now\<rparr>
           in if free - reserved - requested < min_free
              then (False, d1\<lparr>storage := Some (s\<lparr>st_paused := True,
                             st_reason := ''free-space reserve would be crossed''\<rparr>)\<rparr>)
              else (True, d1\<lparr>
                     storage := Some (s\<lparr>st_paused := False, st_reason := [],
                                        st_reserved_bytes := reserved + requested\<rparr>),
                     reservations := reservations d1 @
                       [\<lparr>res_job_id = i, res_owner = owner, res_reserved_bytes = requested,
                         res_lease_expires_at = expires\<rparr>]\<rparr>)))"

definition storage_refresh :: "instant \<Rightarrow> int \<Rightarrow> int \<Rightarrow> db \<Rightarrow> storage_state \<times> db" where
  "storage_refresh now free min_free d =
     (let d1 = drop_expired_reservations now d;
          reserved = reserved_bytes d1;
          paused = (free - reserved < min_free);
          s = (storage_row now d1)\<lparr>st_free_bytes := free, st_min_free_bytes := min_free,
                st_reserved_bytes := reserved, st_paused := paused,
                st_reason := (if paused then ''free-space reserve would be crossed'' else []),
                st_updated_at := now\<rparr>
      in (s, d1\<lparr>storage := Some s\<rparr>))"

subsection \<open>Invariant\<close>

text \<open>At most one reservation per job (the column is unique), each of a non-negative size.\<close>

definition reservations_ok :: "db \<Rightarrow> bool" where
  "reservations_ok d = (distinct (map res_job_id (reservations d)) \<and>
     (\<forall>r \<in> set (reservations d). 0 \<le> res_reserved_bytes r))"

lemma drop_expired_ok: "reservations_ok d \<Longrightarrow> reservations_ok (drop_expired_reservations now d)"
  by (auto simp: reservations_ok_def drop_expired_reservations_def distinct_map_filter)

lemma reservations_ok_put:
  assumes "reservations_ok d" "get_row res_job_id i (reservations d) = Some r"
  shows "reservations_ok (d\<lparr>reservations := put_row res_job_id (r\<lparr>res_lease_expires_at := e\<rparr>) (reservations d)\<rparr>)"
  using assms by (auto simp: reservations_ok_def dest!: in_put_rowD get_row_SomeD)

lemma storage_reserve_ok:
  assumes ok: "reservations_ok d" and "0 \<le> requested"
  shows "reservations_ok (snd (storage_reserve now free min_free i owner requested expires d))"
proof -
  let ?d1 = "drop_expired_reservations now d"
  have 1: "reservations_ok ?d1" by (rule drop_expired_ok [OF ok])
  show ?thesis
  proof (cases "get_row res_job_id i (reservations ?d1)")
    case (Some r)
    then show ?thesis using reservations_ok_put [OF 1 Some] by (simp add: storage_reserve_def Let_def)
  next
    case None
    then have "\<forall>r \<in> set (reservations ?d1). res_job_id r \<noteq> i" by (simp add: get_row_None_iff)
    then show ?thesis using 1 None assms(2) by (auto simp: storage_reserve_def Let_def reservations_ok_def)
  qed
qed

subsection \<open>Properties\<close>

text \<open>A reservation that is newly granted leaves room: free space minus everything reserved,
  including the new reservation, is still at least the configured minimum.  A refused one
  reserves nothing and pauses downloads.\<close>

theorem storage_grant_safe:
  assumes "get_row res_job_id i (reservations (drop_expired_reservations now d)) = None"
    and "storage_reserve now free min_free i owner requested expires d = (granted, d')"
  shows "(granted \<longrightarrow> min_free \<le> free - reserved_bytes d' \<and>
       reserved_bytes d' = reserved_bytes (drop_expired_reservations now d) + requested \<and> \<not> storage_paused d') \<and>
    (\<not> granted \<longrightarrow> reservations d' = reservations (drop_expired_reservations now d) \<and> storage_paused d')"
  using assms
  by (auto simp: storage_reserve_def Let_def reserved_bytes_def storage_paused_def not_less split: if_splits)

theorem storage_grant_safe_witness:
  "let d' = snd (storage_reserve 0 1000 100 7 ''w'' 500 (seconds 9) empty_db)
   in fst (storage_reserve 0 1000 100 7 ''w'' 500 (seconds 9) empty_db) \<and> 100 \<le> 1000 - reserved_bytes d'"
proof -
  let ?r = "storage_reserve 0 1000 100 7 ''w'' 500 (seconds 9) empty_db"
  have 1: "get_row res_job_id 7 (reservations (drop_expired_reservations 0 empty_db)) = None" and 2: "fst ?r"
    by code_simp+
  show ?thesis using storage_grant_safe [OF 1 prod.collapse [symmetric], of 1000 100 "''w''" 500 "seconds 9"] 2
    by (simp add: Let_def)
qed

text \<open>Refreshing pauses downloads exactly when the free space, less what running downloads have
  reserved, is below the configured minimum, and a paused storage keeps every chapter download from
  being claimed.\<close>

theorem storage_pause_blocks_downloads:
  assumes "storage_refresh now free min_free d = (s, d')"
  shows "(storage_paused d' \<longleftrightarrow> free - reserved_bytes d' < min_free) \<and>
    (free - reserved_bytes d' < min_free \<longrightarrow>
       (\<forall>t j. job_kind_of j = CHAPTER_DOWNLOAD \<longrightarrow> \<not> claimable t d' j))"
proof -
  have "storage_paused d' \<longleftrightarrow> free - reserved_bytes d' < min_free"
    using assms by (auto simp: storage_refresh_def Let_def storage_paused_def reserved_bytes_def)
  then show ?thesis by (auto simp: claimable_def)
qed

theorem storage_pause_blocks_downloads_witness:
  "storage_paused (snd (storage_refresh 0 50 100 empty_db)) \<and>
   \<not> claimable 5 (snd (storage_refresh 0 50 100 empty_db)) (new_work_job 0 CHAPTER_DOWNLOAD ''chapter:1'' fmempty)"
proof -
  have "50 - reserved_bytes (snd (storage_refresh 0 50 100 empty_db)) < 100" by code_simp
  then show ?thesis
    using storage_pause_blocks_downloads [of 0 50 100 empty_db "fst (storage_refresh 0 50 100 empty_db)"
        "snd (storage_refresh 0 50 100 empty_db)"] by (simp add: new_work_job_def)
qed

text \<open>Asking again while a reservation is still held renews its lease and nothing else: it is
  granted whatever the free space, the bytes reserved stay those of the first request, and the
  pause flag is not touched.\<close>

lemma storage_renewal:
  assumes "get_row res_job_id i (reservations (drop_expired_reservations now d)) = Some r"
    and "reservations_ok d"
  shows "\<exists>d'. storage_reserve now free min_free i owner requested expires d = (True, d') \<and>
    reserved_bytes d' = reserved_bytes (drop_expired_reservations now d) \<and> storage d' = storage d"
proof -
  let ?d1 = "drop_expired_reservations now d"
  have 1: "reservations_ok ?d1" by (rule drop_expired_ok [OF assms(2)])
  have id: "res_job_id r = i" using get_row_SomeD [OF assms(1)] by blast
  have "sum_list (map res_reserved_bytes (put_row res_job_id (r\<lparr>res_lease_expires_at := expires\<rparr>) (reservations ?d1)))
      = reserved_bytes ?d1"
    using sum_put_row [of res_job_id "reservations ?d1" "r\<lparr>res_lease_expires_at := expires\<rparr>" r res_reserved_bytes]
      1 assms(1) id by (simp add: reservations_ok_def reserved_bytes_def)
  then show ?thesis
    using assms(1) by (simp add: storage_reserve_def Let_def reserved_bytes_def) (simp add: drop_expired_reservations_def)
qed

end
