(* ===== verification/Queue_Interface.thy ===== *)
theory Queue_Interface
  imports Queue_Op_Properties
begin

text \<open>
  What a worker relies on in the operations that end its hold on a job.  \<open>may\<close> selects the row the
  operation acts on (the job held with a live lease, or just owned); the laws are that the
  operation is refused without it, and otherwise gives up the lease and all permits.  The queue's
  operations are interpretations, so what follows from the laws holds for each of them.
\<close>

locale hand_back =
  fixes may :: "instant \<Rightarrow> int \<Rightarrow> string \<Rightarrow> db \<Rightarrow> work_job option"
    and act :: "instant \<Rightarrow> int \<Rightarrow> string \<Rightarrow> db \<Rightarrow> 'r \<times> db"
    and refused :: 'r
    and ends :: "work_job \<Rightarrow> job_state \<Rightarrow> bool"
  assumes may_owned: "may now i ow d = Some j \<Longrightarrow> owned_job i ow d = Some j"
    and refuses: "may now i ow d = None \<Longrightarrow> act now i ow d = (refused, d)"
    and acts: "may now i ow d = Some j \<Longrightarrow> \<exists>r d' j'. act now i ow d = (r, d') \<and> r \<noteq> refused \<and>
       find_job i d' = Some j' \<and> ends j (job_status j') \<and> job_status j' \<noteq> LEASED \<and>
       (\<forall>p \<in> set (permits d'). prm_job_id p \<noteq> i)"
begin

lemma refused_unchanged: "act now i ow d = (refused, d') \<Longrightarrow> d' = d"
  using refuses acts by (cases "may now i ow d") (fastforce dest: acts)+

lemma done_state:
  assumes "act now i ow d = (r, d')" "r \<noteq> refused"
  shows "\<exists>j j'. owned_job i ow d = Some j \<and> find_job i d' = Some j' \<and> ends j (job_status j') \<and>
    job_status j' \<noteq> LEASED \<and> (\<forall>p \<in> set (permits d'). prm_job_id p \<noteq> i)"
proof (cases "may now i ow d")
  case None
  then show ?thesis using refuses assms by simp
next
  case (Some j)
  then show ?thesis using acts [OF Some] may_owned [OF Some] assms by auto
qed

text \<open>Once an operation has given the job back, its former owner owns nothing.\<close>

lemma disowned:
  assumes "act now i ow d = (r, d')" "r \<noteq> refused"
  shows "owned_job i ow' d' = None"
  using done_state [OF assms] by (auto simp: owned_job_def)

lemma not_twice:
  assumes "act now i ow d = (r, d')" "r \<noteq> refused"
  shows "act now' i ow' d' = (refused, d')"
proof (cases "may now' i ow' d'")
  case None
  then show ?thesis by (rule refuses)
next
  case (Some j)
  then show ?thesis using may_owned [OF Some] disowned [OF assms] by simp
qed

end

lemma held_owned: "held_job now i ow d = Some j \<Longrightarrow> owned_job i ow d = Some j"
  by (auto simp: held_job_def split: option.splits if_splits)

lemma owned_found: "owned_job i ow d = Some j \<Longrightarrow> find_job i d = Some j \<and> job_id j = i"
  by (auto simp: owned_job_def dest: find_job_in split: option.splits if_splits)

lemmas hand_back_simps = Let_def drop_lease_def get_put_row_same

interpretation succeeding: hand_back held_job succeed False
  "\<lambda>j s. s = (if job_pending_payload j \<noteq> fmempty then QUEUED else SUCCEEDED)"
  by unfold_locales
     (auto simp: held_owned succeed_def finish_def requeue_pending_def hand_back_simps dest!: held_owned owned_found)

interpretation failing: hand_back held_job "\<lambda>now i ow. fail now i ow code msg" False "\<lambda>j s. s = FAILED"
  for code msg
  by unfold_locales
     (auto simp: held_owned fail_def finish_def hand_back_simps dest!: held_owned owned_found)

interpretation retrying: hand_back held_job "\<lambda>now i ow. retry now i ow av code msg" None
  "\<lambda>j s. s = (if job_max_attempts j \<le> job_attempts j then FAILED else RETRY_WAIT)"
  for av code msg
  by unfold_locales
     (auto simp: held_owned retry_def hand_back_simps dest!: held_owned owned_found)

interpretation releasing: hand_back "\<lambda>_. owned_job" "\<lambda>now i ow. release now i ow reason" False "\<lambda>j s. s = QUEUED"
  for reason
  by unfold_locales (auto simp: release_def hand_back_simps dest!: owned_found)

interpretation deferring: hand_back "\<lambda>_. owned_job" "\<lambda>now i ow. defer_job now i ow av code msg" False "\<lambda>j s. s = RETRY_WAIT"
  for av code msg
  by unfold_locales (auto simp: defer_job_def hand_back_simps dest!: owned_found)

text \<open>A job is completed at most once per claim: after its owner has successfully ended it or
  given it back by any of the five operations, every further such operation on it, by anybody, is
  refused and leaves the database as it was, until the job is claimed again.\<close>

theorem completed_once:
  assumes "succeed now i ow d = (True, d') \<or> fail now i ow code msg d = (True, d') \<or>
    (\<exists>s. retry now i ow av code msg d = (Some s, d')) \<or> release now i ow reason d = (True, d') \<or>
    defer_job now i ow av code msg d = (True, d')"
  shows "succeed t i ow' d' = (False, d') \<and> fail t i ow' c m d' = (False, d') \<and>
    retry t i ow' a c m d' = (None, d') \<and> release t i ow' r d' = (False, d') \<and>
    defer_job t i ow' a c m d' = (False, d')"
proof -
  have none: "owned_job i ow' d' = None" for ow'
    using assms succeeding.disowned failing.disowned retrying.disowned releasing.disowned deferring.disowned
    by (metis option.distinct(1))
  then have "held_job t i ow' d' = None" by (simp add: held_job_def)
  with none show ?thesis
    by (simp add: succeeding.refuses failing.refuses retrying.refuses releasing.refuses deferring.refuses)
qed

theorem completed_once_witness:
  "\<exists>d'. succeed (seconds 3) 1 ''worker-1'' demo_leased = (True, d') \<and>
     retry (seconds 4) 1 ''worker-1'' 0 [] [] d' = (None, d') \<and> release (seconds 4) 1 ''worker-1'' [] d' = (False, d')"
proof -
  let ?r = "succeed (seconds 3) 1 ''worker-1'' demo_leased"
  have "fst ?r" by code_simp
  then have "?r = (True, snd ?r)" by (cases ?r) simp
  then show ?thesis using completed_once [of "seconds 3" 1 "''worker-1''" demo_leased "snd ?r"] by blast
qed

end
