(* ===== verification/Worker_Registry.thy ===== *)
theory Worker_Registry
  imports Db_Model "HOL-Library.List_Lexorder" "HOL-Library.Char_ord"
begin

text \<open>
  \<^verbatim>\<open>WorkerRegistry\<close> (\<^verbatim>\<open>infrastructure/worker_registry.py\<close>): registration and
  heartbeats of worker processes, and the list of those seen recently.
\<close>

definition register_worker :: "instant \<Rightarrow> string \<Rightarrow> jdict \<Rightarrow> db \<Rightarrow> worker_heartbeat \<times> db" where
  "register_worker now w metadata d =
     (let row = \<lparr>wh_worker_id = w, wh_status = WRunning, wh_active_job_id = None, wh_started_at = now,
                 wh_heartbeat_at = now, wh_stopped_at = None, wh_metadata = metadata\<rparr>
      in case get_row wh_worker_id w (workers d) of
           None \<Rightarrow> (row, d\<lparr>workers := workers d @ [row]\<rparr>)
         | Some _ \<Rightarrow> (row, d\<lparr>workers := put_row wh_worker_id row (workers d)\<rparr>))"

definition worker_beat :: "instant \<Rightarrow> string \<Rightarrow> int option \<Rightarrow> worker_status \<Rightarrow> db \<Rightarrow> bool \<times> db" where
  "worker_beat now w active status d =
     (case get_row wh_worker_id w (workers d) of
        None \<Rightarrow> (False, d)
      | Some row \<Rightarrow>
          (True, d\<lparr>workers := put_row wh_worker_id
             (row\<lparr>wh_status := status, wh_active_job_id := active, wh_heartbeat_at := now,
                  wh_stopped_at := (if status = WStopped then Some now else None)\<rparr>) (workers d)\<rparr>))"

definition live_workers :: "instant \<Rightarrow> duration \<Rightarrow> db \<Rightarrow> worker_heartbeat list" where
  "live_workers now seen_within d =
     sort_key wh_worker_id
       (filter (\<lambda>w. wh_status w \<in> set [WStarting, WRunning, WDraining] \<and> now - seen_within \<le> wh_heartbeat_at w)
          (workers d))"

definition workers_ok :: "db \<Rightarrow> bool" where
  "workers_ok d = (distinct (map wh_worker_id (workers d)) \<and>
     (\<forall>w \<in> set (workers d). (wh_stopped_at w \<noteq> None) = (wh_status w = WStopped)))"

lemma register_ok: "workers_ok d \<Longrightarrow> workers_ok (snd (register_worker now w m d))"
  by (auto simp: workers_ok_def register_worker_def Let_def get_row_None_iff split: option.splits dest!: in_put_rowD)

lemma beat_ok: "workers_ok d \<Longrightarrow> workers_ok (snd (worker_beat now w a s d))"
  by (auto simp: workers_ok_def worker_beat_def split: option.splits if_splits dest!: in_put_rowD)

lemma in_live_workers:
  "w \<in> set (live_workers now seen d) \<longleftrightarrow>
     w \<in> set (workers d) \<and> wh_status w \<noteq> WStopped \<and> now - seen \<le> wh_heartbeat_at w"
  by (cases "wh_status w") (auto simp: live_workers_def)

text \<open>The registry: a worker is listed as live after it registers or beats, for as long as the
  last sign of life is recent enough, and is not listed once it has reported that it stopped;
  beats of a worker that never registered are refused.\<close>

theorem worker_liveness:
  assumes "workers_ok d" and "0 \<le> seen" and "now \<le> t"
  shows "(t \<le> now + seen \<longrightarrow> (\<exists>r \<in> set (live_workers t seen (snd (register_worker now w m d))). wh_worker_id r = w)) \<and>
    (get_row wh_worker_id w (workers d) = None \<longrightarrow> worker_beat now w a s d = (False, d)) \<and>
    (worker_beat now w a s d = (True, d') \<longrightarrow>
       ((\<exists>r \<in> set (live_workers t seen d'). wh_worker_id r = w) \<longleftrightarrow> s \<noteq> WStopped \<and> t \<le> now + seen))"
proof (intro conjI impI)
  let ?row = "\<lparr>wh_worker_id = w, wh_status = WRunning, wh_active_job_id = None, wh_started_at = now,
                 wh_heartbeat_at = now, wh_stopped_at = None, wh_metadata = m\<rparr>"
  show "\<exists>r \<in> set (live_workers t seen (snd (register_worker now w m d))). wh_worker_id r = w" if "t \<le> now + seen"
    using that
    by (intro bexI [of _ ?row])
       (auto simp: in_live_workers register_worker_def Let_def set_put_row get_row_None_iff rev_image_eqI
          dest!: get_row_SomeD split: option.splits)
  show "worker_beat now w a s d = (False, d)" if "get_row wh_worker_id w (workers d) = None"
    using that by (simp add: worker_beat_def)
  show "(\<exists>r \<in> set (live_workers t seen d'). wh_worker_id r = w) \<longleftrightarrow> s \<noteq> WStopped \<and> t \<le> now + seen"
    if res: "worker_beat now w a s d = (True, d')"
  proof -
    obtain r where r: "get_row wh_worker_id w (workers d) = Some r" using res by (auto simp: worker_beat_def split: option.splits)
    let ?r = "r\<lparr>wh_status := s, wh_active_job_id := a, wh_heartbeat_at := now,
                  wh_stopped_at := (if s = WStopped then Some now else None)\<rparr>"
    have d': "workers d' = put_row wh_worker_id ?r (workers d)" using res r by (auto simp: worker_beat_def)
    have id: "r \<in> set (workers d)" "wh_worker_id r = w" using get_row_SomeD [OF r] by simp_all
    then have "?r \<in> set (workers d')" unfolding d' by (intro in_put_rowI) auto
    moreover have "x = ?r" if "x \<in> set (workers d')" "wh_worker_id x = w" for x
      using in_put_rowD [OF that(1) [unfolded d']] that(2) id by auto
    ultimately show ?thesis using id(2) unfolding in_live_workers Bex_def by fastforce
  qed
qed

theorem worker_liveness_witness:
  "\<exists>r \<in> set (live_workers 5 10 (snd (register_worker 0 ''w'' fmempty empty_db))). wh_worker_id r = ''w''"
  using worker_liveness [of empty_db 10 0 5 "''w''" fmempty] by (simp add: workers_ok_def empty_db_def)

end
