(* ===== verification/Worker_Runtime.thy ===== *)
theory Worker_Runtime
  imports Queue_Interface Settings Provider_Pacing Worker_Registry
begin

text \<open>
  \<^verbatim>\<open>JobWorker\<close> (\<^verbatim>\<open>worker/runtime.py\<close>) and the slots of
  \<^verbatim>\<open>WorkerService\<close> (\<^verbatim>\<open>worker/service.py\<close>).  A handler is a parameter: it sees the
  lease and the database after the claim and yields its outcome, the instant at which it ended,
  whether the heartbeat reported the lease as lost, and the database at that moment, in which any
  number of other transactions may have committed.
\<close>

subsection \<open>Settings of a worker\<close>

record worker_settings =
  ws_lease_for :: duration
  ws_heartbeat_interval :: duration
  ws_poll_interval :: duration
  ws_retry_base :: duration
  ws_retry_cap :: duration
  ws_pool_limits :: pool_limits
  ws_window :: rat

text \<open>\<open>__post_init__\<close>.\<close>

definition check_worker_settings :: "worker_settings \<Rightarrow> unit result" where
  "check_worker_settings s =
     (if ws_lease_for s \<le> 0 then Inl (ValueError ''lease_for must be positive'')
      else if ws_heartbeat_interval s \<le> 0 then Inl (ValueError ''heartbeat_interval must be positive'')
      else if ws_lease_for s \<le> ws_heartbeat_interval s
      then Inl (ValueError ''heartbeat_interval must be shorter than lease_for'')
      else if ws_poll_interval s \<le> 0 then Inl (ValueError ''poll_interval must be positive'')
      else if ws_retry_base s \<le> 0 \<or> ws_retry_cap s < ws_retry_base s
      then Inl (ValueError ''retry delays are invalid'')
      else if ws_window s \<le> 0 then Inl (ValueError ''provider pacing window must be positive'')
      else Inr ())"

subsection \<open>One job\<close>

datatype worker_run_result = Idle | JobSucceeded | RetryScheduled | RunFailed | LeaseLost

text \<open>How a handler ends: normally, by one of the exceptions of
  \<^verbatim>\<open>job_handlers.py\<close>, by cancellation, or by any other exception.\<close>

datatype handler_outcome =
    HandlerDone
  | Deferred string string duration
  | Retryable string string "duration option"
  | Rerouted
  | Permanent string string
  | HandlerLeaseLost
  | HandlerCancelled
  | Unexpected string

text \<open>\<open>_retry_delay\<close>: exponential back-off, capped, times the jitter that
  \<open>random.uniform(0.8, 1.2)\<close> returns.\<close>

definition retry_delay :: "worker_settings \<Rightarrow> rat \<Rightarrow> int \<Rightarrow> duration" where
  "retry_delay s jitter attempt =
     (let base = ws_retry_base s * 2 ^ nat (max (attempt - 1) 0);
          capped = min base (ws_retry_cap s)
      in round_half_even (of_int capped * jitter))"

definition run_retry ::
  "worker_settings \<Rightarrow> rat \<Rightarrow> instant \<Rightarrow> job_lease \<Rightarrow> string \<Rightarrow> string \<Rightarrow> duration option \<Rightarrow> db
   \<Rightarrow> worker_run_result \<times> db" where
  "run_retry s jitter now l code msg retry_after d =
     (let delay = (case retry_after of
             Some x \<Rightarrow> if x = 0 then retry_delay s jitter (lease_attempt l) else x
           | None \<Rightarrow> retry_delay s jitter (lease_attempt l));
          (state, d1) = retry now (lease_id l) (lease_owner l) (now + delay) code msg d
      in (case state of None \<Rightarrow> LeaseLost | Some FAILED \<Rightarrow> RunFailed | Some _ \<Rightarrow> RetryScheduled, d1))"

definition run_fail ::
  "instant \<Rightarrow> job_lease \<Rightarrow> string \<Rightarrow> string \<Rightarrow> db \<Rightarrow> worker_run_result \<times> db" where
  "run_fail now l code msg d =
     (let (ok, d1) = fail now (lease_id l) (lease_owner l) code msg d
      in (if ok then RunFailed else LeaseLost, d1))"

text \<open>The part of \<open>run_once\<close> after the handler; \<open>None\<close> is the cancellation that is raised again
  once the lease has been released.\<close>

definition conclude ::
  "worker_settings \<Rightarrow> rat \<Rightarrow> instant \<Rightarrow> bool \<Rightarrow> job_lease \<Rightarrow> handler_outcome \<Rightarrow> db
   \<Rightarrow> worker_run_result option \<times> db" where
  "conclude s jitter now lost l outcome d =
     (case outcome of
        Deferred code msg retry_after \<Rightarrow>
          (let (ok, d1) = defer_job now (lease_id l) (lease_owner l) (now + retry_after) code msg d
           in (Some (if ok then RetryScheduled else LeaseLost), d1))
      | Retryable code msg retry_after \<Rightarrow>
          (let (r, d1) = run_retry s jitter now l code msg retry_after d in (Some r, d1))
      | Rerouted \<Rightarrow> (Some RetryScheduled, d)
      | Permanent code msg \<Rightarrow> (let (r, d1) = run_fail now l code msg d in (Some r, d1))
      | HandlerLeaseLost \<Rightarrow> (Some LeaseLost, d)
      | HandlerCancelled \<Rightarrow>
          (None, snd (release now (lease_id l) (lease_owner l) ''worker shutting down'' d))
      | Unexpected msg \<Rightarrow>
          (let (r, d1) = run_retry s jitter now l ''unexpected_error'' msg None d in (Some r, d1))
      | HandlerDone \<Rightarrow>
          if lost then (Some LeaseLost, d)
          else (let (ok, d1) = succeed now (lease_id l) (lease_owner l) d
                in (Some (if ok then JobSucceeded else LeaseLost), d1)))"

type_synonym job_handler = "job_lease \<Rightarrow> db \<Rightarrow> handler_outcome \<times> instant \<times> bool \<times> db"

record job_worker =
  jw_owner :: string
  jw_handlers :: "(job_kind \<times> job_handler) list"
  jw_settings :: worker_settings
  jw_kinds :: "job_kind list option"
  jw_pools :: "string list option"

definition worker_claim :: "validator \<Rightarrow> job_worker \<Rightarrow> instant \<Rightarrow> int list \<Rightarrow> db \<Rightarrow> (job_lease option \<times> db) result" where
  "worker_claim mv w now locked d =
     claim mv now \<lparr>ca_owner = jw_owner w, ca_lease_for = ws_lease_for (jw_settings w), ca_kinds = jw_kinds w,
       ca_pool_limits = ws_pool_limits (jw_settings w), ca_window = ws_window (jw_settings w),
       ca_pools = jw_pools w\<rparr> locked d"

definition run_once ::
  "validator \<Rightarrow> job_worker \<Rightarrow> rat \<Rightarrow> instant \<Rightarrow> int list \<Rightarrow> db \<Rightarrow> (worker_run_result option \<times> db) result" where
  "run_once mv w jitter now locked d =
     bind_result (worker_claim mv w now locked d) (\<lambda>(r, d1).
       case r of
         None \<Rightarrow> Inr (Some Idle, d1)
       | Some l \<Rightarrow>
           (case map_of (jw_handlers w) (lease_kind l) of
              None \<Rightarrow> (let (res, d2) = run_fail now l ''handler_missing''
                               (''no handler registered for '' @ kind_value (lease_kind l)) d1
                       in Inr (Some res, d2))
            | Some handler \<Rightarrow>
                (let (outcome, t, lost, d2) = handler l d1
                 in Inr (conclude (jw_settings w) jitter t lost l outcome d2))))"

subsection \<open>Heartbeats while a handler runs\<close>

text \<open>\<open>_heartbeat_loop\<close> over the instants at which it wakes up; the result is whether the lease was
  reported as lost.\<close>

fun heartbeat_loop :: "duration \<Rightarrow> job_lease \<Rightarrow> instant list \<Rightarrow> db \<Rightarrow> bool \<times> db" where
  "heartbeat_loop lf l [] d = (False, d)"
| "heartbeat_loop lf l (t # ts) d =
     (case heartbeat t (lease_id l) (lease_owner l) lf d of
        Inl _ \<Rightarrow> (True, d)
      | Inr (extended, d1) \<Rightarrow> if extended then heartbeat_loop lf l ts d1 else (True, d1))"

subsection \<open>Idle back-off\<close>

text \<open>The delay of \<open>run_forever\<close> after an idle poll: whether it waits on a wake-up event, and
  whether that event fired.\<close>

definition next_idle_delay :: "rat \<Rightarrow> bool \<Rightarrow> bool \<Rightarrow> rat \<Rightarrow> rat" where
  "next_idle_delay base has_wakeup woken idle =
     (let idle1 = (if has_wakeup \<and> woken then base else idle) in min (base * 4) (idle1 * 3 / 2))"

subsection \<open>Worker slots\<close>

record worker_slot_spec =
  slot_number :: int
  slot_pools :: "string list"
  slot_kinds :: "job_kind list"

text \<open>Sets are lists here; \<open>pools\<close> is the optional restriction of the service.\<close>

definition network_pools :: "v2_settings \<Rightarrow> string list option \<Rightarrow> string list" where
  "network_pools s pools =
     filter (\<lambda>p. case pools of None \<Rightarrow> True | Some ps \<Rightarrow> p \<in> set ps)
       (concat (map (\<lambda>src. if src \<in> fst ` set (source_intervals s)
                           then map (\<lambda>traffic. traffic @ '':'' @ src) [''download'', ''pull'', ''refresh''] else [])
          provider_names))"

definition requested_pools :: "v2_settings \<Rightarrow> (string \<times> job_kind list) list" where
  "requested_pools s =
     [(''kavita'', [KAVITA_SYNC]),
      (''maintenance'', MAINTENANCE # (if set_enable_library_repair s then [LIBRARY_REPAIR] else [])),
      (''health'', [MAINTENANCE]), (''catalog_mutation'', [MATCH_OPERATION])] @
     (if set_enable_cover_processing s then [(''cover_backfill'', [COVER_BACKFILL])] else [])"

definition served :: "job_kind list \<Rightarrow> string list option \<Rightarrow> string \<times> job_kind list \<Rightarrow> bool" where
  "served handlers pools pk =
     ((case pools of None \<Rightarrow> True | Some ps \<Rightarrow> fst pk \<in> set ps) \<and> list_ex (\<lambda>k. k \<in> set handlers) (snd pk))"

definition shared_pools :: "v2_settings \<Rightarrow> job_kind list \<Rightarrow> string list option \<Rightarrow> string list" where
  "shared_pools s handlers pools =
     network_pools s pools @ map fst (filter (served handlers pools) (requested_pools s))"

definition shared_kinds :: "v2_settings \<Rightarrow> job_kind list \<Rightarrow> string list option \<Rightarrow> job_kind list" where
  "shared_kinds s handlers pools =
     filter (\<lambda>k. k \<in> set handlers)
       ([SOURCE_PULL, SOURCE_REFRESH, CHAPTER_DOWNLOAD, MAINTENANCE] @
        concat (map snd (filter (served handlers pools) (requested_pools s))))"

definition slot_count :: "v2_settings \<Rightarrow> job_kind list \<Rightarrow> string list option \<Rightarrow> int" where
  "slot_count s handlers pools =
     (case pools of
        None \<Rightarrow> set_worker_concurrency s
      | Some _ \<Rightarrow> min (set_worker_concurrency s)
          (case map (\<lambda>p. case map_of (pool_limits s) p of Some l \<Rightarrow> l | None \<Rightarrow> 1) (shared_pools s handlers pools) of
             [] \<Rightarrow> 1 | l # ls \<Rightarrow> foldr max ls l))"

definition pool_specs :: "v2_settings \<Rightarrow> job_kind list \<Rightarrow> string list option \<Rightarrow> worker_slot_spec list" where
  "pool_specs s handlers pools =
     (if shared_pools s handlers pools = [] \<or> shared_kinds s handlers pools = [] then []
      else map (\<lambda>n. \<lparr>slot_number = n, slot_pools = shared_pools s handlers pools,
                     slot_kinds = shared_kinds s handlers pools\<rparr>) [1 .. slot_count s handlers pools])"

text \<open>\<open>_run_slot\<close>: the worker of a slot; the heartbeat interval may be refused.\<close>

definition slot_worker ::
  "v2_settings \<Rightarrow> (job_kind \<times> job_handler) list \<Rightarrow> worker_slot_spec \<Rightarrow> job_worker result" where
  "slot_worker s handlers spec =
     bind_result (job_heartbeat_interval s) (\<lambda>hb.
       let ws = \<lparr>ws_lease_for = lease_for s, ws_heartbeat_interval = hb,
                 ws_poll_interval = timedelta_seconds (set_worker_poll_seconds s),
                 ws_retry_base = seconds (set_retry_base_seconds s), ws_retry_cap = seconds (set_retry_cap_seconds s),
                 ws_pool_limits = pool_limits s, ws_window = set_provider_pacing_window_seconds s\<rparr>
       in bind_result (check_worker_settings ws) (\<lambda>_.
            Inr \<lparr>jw_owner = py_strip (set_worker_id s @ ''-shared-'' @ str_of_int (slot_number spec)),
                 jw_handlers = handlers, jw_settings = ws, jw_kinds = Some (slot_kinds spec),
                 jw_pools = Some (slot_pools spec)\<rparr>))"

end
