(* ===== verification/Worker_Properties.thy ===== *)
theory Worker_Properties
  imports Worker_Runtime
begin

text \<open>
  Properties of the worker: the result it reports is the state of the job, back-off and idle
  delays stay within their bounds, regular heartbeats keep a lease alive, and every slot is
  configured consistently.
\<close>

subsection \<open>Results\<close>



definition demo_worker_settings :: worker_settings where
  "demo_worker_settings = \<lparr>ws_lease_for = seconds 60, ws_heartbeat_interval = seconds 30,
     ws_poll_interval = seconds 1, ws_retry_base = seconds 30, ws_retry_cap = seconds 3600,
     ws_pool_limits = [], ws_window = 2\<rparr>"


subsection \<open>Delays\<close>

lemma round_half_even_bounds: "of_int (round_half_even x) \<le> x + 1 / 2" "x - 1 / 2 \<le> of_int (round_half_even x)"
proof -
  have f: "of_int \<lfloor>x\<rfloor> \<le> x" "x < of_int \<lfloor>x\<rfloor> + 1" by linarith+
  have "round_half_even x = \<lfloor>x\<rfloor> \<and> x - of_int \<lfloor>x\<rfloor> \<le> 1 / 2 \<or>
      round_half_even x = \<lfloor>x\<rfloor> + 1 \<and> 1 / 2 \<le> x - of_int \<lfloor>x\<rfloor>"
  proof -
    consider "x - of_int \<lfloor>x\<rfloor> < 1 / 2" | "1 / 2 < x - of_int \<lfloor>x\<rfloor>" | "x - of_int \<lfloor>x\<rfloor> = 1 / 2" by linarith
    then show ?thesis by cases (simp_all only: round_half_even_def Let_def if_True if_False, auto)
  qed
  then show "of_int (round_half_even x) \<le> x + 1 / 2" "x - 1 / 2 \<le> of_int (round_half_even x)"
    using f by (elim disjE conjE; simp only: of_int_add of_int_1; linarith)+
qed

text \<open>The back-off before a retry: doubling with every attempt, within twenty per cent (and half
  a microsecond of rounding) of the capped value, hence never above 1.2 times the cap.\<close>

theorem retry_delay_bounds:
  assumes "check_worker_settings s = Inr ()" and "4 / 5 \<le> jitter" "jitter \<le> 6 / 5"
  shows "of_int (retry_delay s jitter attempt) \<le> 6 / 5 * of_int (ws_retry_cap s) + (1 / 2 :: rat) \<and>
    4 / 5 * of_int (min (ws_retry_base s * 2 ^ nat (max (attempt - 1) 0)) (ws_retry_cap s)) - 1 / 2
      \<le> (of_int (retry_delay s jitter attempt) :: rat)"
proof -
  let ?c = "min (ws_retry_base s * 2 ^ nat (max (attempt - 1) 0)) (ws_retry_cap s)"
  have pos: "0 < ws_retry_base s" "ws_retry_base s \<le> ws_retry_cap s"
    using assms(1) by (auto simp: check_worker_settings_def split: if_splits)
  then have c: "0 \<le> ?c" "?c \<le> ws_retry_cap s" by simp_all
  have r: "(of_int ?c :: rat) \<le> of_int (ws_retry_cap s)" using c(2) by (rule of_int_le_iff [THEN iffD2])
  have c0: "(0::rat) \<le> of_int ?c" using c(1) by simp
  have "of_int ?c * jitter \<le> of_int (ws_retry_cap s) * (6 / 5)"
    by (rule mult_mono) (use r c0 assms pos in auto)
  moreover have "4 / 5 * of_int ?c \<le> of_int ?c * jitter"
    using mult_left_mono [OF assms(2) c0] by (simp add: mult.commute)
  ultimately show ?thesis
    using round_half_even_bounds [of "of_int ?c * jitter"] by (simp add: retry_delay_def Let_def)
qed

theorem retry_delay_bounds_witness:
  "of_int (retry_delay demo_worker_settings (11 / 10) 9) \<le> 6 / 5 * of_int (ws_retry_cap demo_worker_settings) + (1 / 2 :: rat)"
proof -
  have "check_worker_settings demo_worker_settings = Inr ()" by code_simp
  then show ?thesis using retry_delay_bounds [of demo_worker_settings "11 / 10" 9] by simp
qed

text \<open>The delays of consecutive idle polls without a wake-up, starting from the base delay.\<close>

fun idle_delays :: "rat \<Rightarrow> nat \<Rightarrow> rat" where
  "idle_delays base 0 = base"
| "idle_delays base (Suc n) = next_idle_delay base False False (idle_delays base n)"

text \<open>Idle back-off: polling slows down by half at each empty poll, never drops below the base
  delay, never exceeds four times it, and reaches exactly that after four empty polls.\<close>

lemma idle_backoff:
  assumes "0 < base"
  shows "base \<le> idle_delays base n \<and> idle_delays base n \<le> 4 * base \<and>
    idle_delays base n \<le> idle_delays base (Suc n) \<and> (4 \<le> n \<longrightarrow> idle_delays base n = 4 * base)"
proof -
  have b: "base \<le> idle_delays base n \<and> idle_delays base n \<le> 4 * base" for n
    using assms by (induction n) (auto simp: next_idle_delay_def)
  moreover have "idle_delays base (Suc n) = min (base * 4) (idle_delays base n * 3 / 2)"
    by (simp add: next_idle_delay_def)
  moreover have "idle_delays base (k + 4) = 4 * base" for k
    using assms by (induction k) (simp_all add: next_idle_delay_def numeral_eq_Suc)
  then have "4 \<le> n \<longrightarrow> idle_delays base n = 4 * base" by (metis le_add_diff_inverse2)
  moreover have "idle_delays base n \<le> min (base * 4) (idle_delays base n * 3 / 2)"
    using b [of n] assms by (intro min.boundedI) linarith+
  ultimately show ?thesis by simp
qed

text \<open>A wake-up is meant to reset the idle delay to the base delay, but the code lengthens the
  reset delay again in the same pass: after every wake-up the next idle delay is one and a half
  times the base.\<close>

theorem wakeup_reset_overwritten:
  assumes "0 < base"
  shows "next_idle_delay base True True idle = base * 3 / 2 \<and> next_idle_delay base True True idle \<noteq> base"
  using assms by (auto simp: next_idle_delay_def min_def)

theorem wakeup_reset_overwritten_witness: "next_idle_delay 1 True True 4 \<noteq> 1"
  using wakeup_reset_overwritten [of 1 4] by simp

subsection \<open>Heartbeats\<close>

text \<open>The instants at which the loop wakes up after a claim at \<open>start\<close>.\<close>

definition beat_times :: "instant \<Rightarrow> duration \<Rightarrow> nat \<Rightarrow> instant list" where
  "beat_times start interval n = map (\<lambda>k. start + (int k + 1) * interval) [0..<n]"

definition leased_until :: "instant \<Rightarrow> job_lease \<Rightarrow> db \<Rightarrow> bool" where
  "leased_until e l d = (\<exists>j. find_job (lease_id l) d = Some j \<and> job_status j = LEASED \<and>
     job_lease_owner j = lease_owner l \<and> job_lease_expires_at j = Some e)"

lemma heartbeat_extends:
  assumes "leased_until e l d" "t < e" "0 < lf"
  shows "\<exists>d'. heartbeat t (lease_id l) (lease_owner l) lf d = Inr (True, d') \<and> leased_until (t + lf) l d'"
proof -
  obtain j where j: "find_job (lease_id l) d = Some j" "job_status j = LEASED" "job_lease_owner j = lease_owner l"
    "job_lease_expires_at j = Some e" using assms(1) by (auto simp: leased_until_def)
  then have "held_job t (lease_id l) (lease_owner l) d = Some j" "job_id j = lease_id l"
    using assms(2) by (auto simp: held_job_def owned_job_def live_lease_def dest: find_job_in)
  then show ?thesis
    using j assms(3) by (simp add: heartbeat_def Let_def leased_until_def get_put_row_same put_job_def)
qed

lemma beats_keep_lease:
  assumes pos: "0 < lf" and lt: "interval < lf" "0 \<le> interval"
  shows "leased_until (start + lf) l d \<Longrightarrow>
    \<exists>d'. heartbeat_loop lf l (beat_times start interval n) d = (False, d') \<and>
      leased_until (start + int n * interval + lf) l d'"
proof (induction n arbitrary: start d)
  case 0
  then show ?case by (simp add: beat_times_def)
next
  case (Suc n)
  have times: "beat_times start interval (Suc n) = (start + interval) # beat_times (start + interval) interval n"
    by (simp add: beat_times_def upt_conv_Cons map_Suc_upt [symmetric] algebra_simps del: upt_Suc map_Suc_upt)
  obtain d1 where d1: "heartbeat (start + interval) (lease_id l) (lease_owner l) lf d = Inr (True, d1)"
    "leased_until (start + interval + lf) l d1"
    using heartbeat_extends [OF Suc.prems, of "start + interval" lf] pos lt by auto
  obtain d' where "heartbeat_loop lf l (beat_times (start + interval) interval n) d1 = (False, d')"
    "leased_until (start + interval + int n * interval + lf) l d'" using Suc.IH [OF d1(2)] by blast
  moreover have "start + interval + int n * interval + lf = start + int (Suc n) * interval + lf"
    by (simp add: algebra_simps)
  ultimately show ?case unfolding times using d1(1) by simp
qed

text \<open>Heartbeats keep a lease: when the heartbeat interval is shorter than the lease, as the
  settings demand, and nobody takes the job away, the loop never reports the lease as lost, and
  after \<open>n\<close> beats the job is still leased to the worker for a whole lease period.\<close>

theorem heartbeats_keep_lease:
  assumes "check_worker_settings s = Inr ()"
    and "claim mv now a locked d = Inr (Some l, d1)" "queue_inv d" "ca_lease_for a = ws_lease_for s"
  shows "\<exists>d'. heartbeat_loop (ws_lease_for s) l (beat_times now (ws_heartbeat_interval s) n) d1 = (False, d') \<and>
    leased_until (now + int n * ws_heartbeat_interval s + ws_lease_for s) l d'"
proof -
  have s: "0 < ws_lease_for s" "0 < ws_heartbeat_interval s" "ws_heartbeat_interval s < ws_lease_for s"
    using assms(1) by (auto simp: check_worker_settings_def split: if_splits)
  obtain k where k: "find_job (lease_id l) d1 = Some (lease_row now a k)" "lease_owner l = py_strip (ca_owner a)"
    using claimed_row [OF assms(3,2)] by metis
  then have "leased_until (now + ws_lease_for s) l d1"
    using assms(4) by (simp add: leased_until_def lease_row_fields)
  then show ?thesis using beats_keep_lease s by simp
qed

theorem heartbeats_keep_lease_witness:
  "\<exists>l d'. heartbeat_loop (seconds 60) l (beat_times (seconds 2) (seconds 30) 3) demo_leased = (False, d') \<and>
     leased_until (seconds 152) l d'"
proof -
  obtain l where l: "claim strict_validate (seconds 2) demo_claim [] demo_queued = Inr (Some l, demo_leased)"
    using demo_claimed by blast
  have "check_worker_settings demo_worker_settings = Inr ()" by code_simp
  from heartbeats_keep_lease [OF this l demo_queued_inv, of 3] show ?thesis
    by (auto simp: demo_worker_settings_def demo_claim_def intro: exI [of _ l])
qed

subsection \<open>Slots\<close>

text \<open>The slots of the service serve every pool that jobs are routed to by default: a job of a
  kind that has a handler, for an enabled source when the kind belongs to a source, sits in a pool
  that every slot claims from, and its kind is among the kinds the slot claims.\<close>

theorem slots_serve_default_pools:
  assumes "spec \<in> set (pool_specs s handlers None)" and "k \<in> set handlers" and "k \<noteq> NOTIFICATION"
    and "k \<in> {SOURCE_PULL, SOURCE_REFRESH, CHAPTER_DOWNLOAD} \<Longrightarrow> src \<in> fst ` set (source_intervals s)"
    and "k = LIBRARY_REPAIR \<Longrightarrow> set_enable_library_repair s"
    and "k = COVER_BACKFILL \<Longrightarrow> set_enable_cover_processing s"
  shows "default_pool k src \<in> set (slot_pools spec) \<and> k \<in> set (slot_kinds spec)"
proof -
  have src: "src \<in> set provider_names \<and> src \<noteq> []" if "src \<in> fst ` set (source_intervals s)"
    using that by (auto simp: source_intervals_def provider_names_def PROVIDER_ORIGINS_def split: if_splits)
  have spec: "slot_pools spec = network_pools s None @ map fst (filter (served handlers None) (requested_pools s))"
    "slot_kinds spec = filter (\<lambda>k. k \<in> set handlers)
       ([SOURCE_PULL, SOURCE_REFRESH, CHAPTER_DOWNLOAD, MAINTENANCE] @
        concat (map snd (filter (served handlers None) (requested_pools s))))"
    using assms(1) unfolding shared_pools_def [symmetric] shared_kinds_def [symmetric]
    by (auto simp: pool_specs_def split: if_splits)
  have req: "pool \<in> set (slot_pools spec) \<and> k \<in> set (slot_kinds spec)"
    if "(pool, ks) \<in> set (requested_pools s)" "k \<in> set ks" for pool ks
  proof -
    have "(pool, ks) \<in> set (filter (served handlers None) (requested_pools s))"
      using that assms(2) by (auto simp: served_def list_ex_iff)
    then show ?thesis using that(2) assms(2) unfolding spec by (fastforce simp: image_iff)
  qed
  have net: "traffic @ '':'' @ src \<in> set (slot_pools spec)"
    if "traffic \<in> set [''download'', ''pull'', ''refresh'']" "src \<in> fst ` set (source_intervals s)" for traffic
  proof -
    have "traffic @ '':'' @ src \<in> set (map (\<lambda>t. t @ '':'' @ src) [''download'', ''pull'', ''refresh''])"
      using that(1) unfolding set_map by (rule imageI)
    then have "traffic @ '':'' @ src \<in> set (network_pools s None)"
      using that(2) src unfolding network_pools_def option.case filter_True set_concat set_map
      by (auto simp: rev_image_eqI)
    then show ?thesis unfolding spec by simp
  qed
  have kinds: "k \<in> set (slot_kinds spec)" if "k \<in> {SOURCE_PULL, SOURCE_REFRESH, CHAPTER_DOWNLOAD}"
    using that assms(2) unfolding spec by auto
  have pool: "default_pool k src \<in> set (slot_pools spec)" if "k \<in> {SOURCE_PULL, SOURCE_REFRESH, CHAPTER_DOWNLOAD}"
    using that net [of "''pull''"] net [of "''refresh''"] net [of "''download''"] assms(4) src by auto
  have "default_pool k src \<in> set (slot_pools spec) \<and> k \<in> set (slot_kinds spec)"
    if "k \<notin> {SOURCE_PULL, SOURCE_REFRESH, CHAPTER_DOWNLOAD}"
    using that assms(3,5,6) req [of "default_pool k src"]
    by (cases k) (auto simp: requested_pools_def)
  then show ?thesis using kinds pool by blast
qed

theorem slots_serve_default_pools_witness:
  "let spec = hd (pool_specs (default_settings ''w'') [CHAPTER_DOWNLOAD] None)
   in default_pool CHAPTER_DOWNLOAD ''asura'' \<in> set (slot_pools spec) \<and> CHAPTER_DOWNLOAD \<in> set (slot_kinds spec)"
proof -
  have "hd (pool_specs (default_settings ''w'') [CHAPTER_DOWNLOAD] None)
      \<in> set (pool_specs (default_settings ''w'') [CHAPTER_DOWNLOAD] None)"
    "''asura'' \<in> fst ` set (source_intervals (default_settings ''w''))" by code_simp+
  then show ?thesis
    using slots_serve_default_pools [of _ "default_settings ''w''" "[CHAPTER_DOWNLOAD]" CHAPTER_DOWNLOAD "''asura''"]
    by (auto simp: Let_def)
qed

text \<open>A slot can be started exactly when the heartbeat is shorter than the lease, the retry base
  does not exceed the retry cap and the poll interval does not round to nothing; the declared
  bounds of the settings do not exclude the other cases.\<close>

theorem slot_worker_starts_iff:
  assumes "settings_ok s"
  shows "(\<exists>w. slot_worker s handlers spec = Inr w) \<longleftrightarrow>
    set_worker_heartbeat_seconds s < set_worker_lease_seconds s \<and>
    set_retry_base_seconds s \<le> set_retry_cap_seconds s \<and> 0 < timedelta_seconds (set_worker_poll_seconds s)"
  using assms
  by (auto simp: slot_worker_def job_heartbeat_interval_def Let_def lease_for_def check_worker_settings_def
      settings_ok_def between_def)

theorem slot_worker_starts_iff_witness:
  "\<exists>w. slot_worker (default_settings ''worker-1'') [] \<lparr>slot_number = 1, slot_pools = [], slot_kinds = []\<rparr> = Inr w"
proof -
  have "set_worker_heartbeat_seconds (default_settings ''worker-1'') < set_worker_lease_seconds (default_settings ''worker-1'') \<and>
    set_retry_base_seconds (default_settings ''worker-1'') \<le> set_retry_cap_seconds (default_settings ''worker-1'') \<and>
    0 < timedelta_seconds (set_worker_poll_seconds (default_settings ''worker-1''))" by code_simp
  then show ?thesis using slot_worker_starts_iff [OF default_settings_ok] by blast
qed

subsection \<open>Whole runs\<close>

text \<open>Running a job keeps the queue's invariant, if the transactions that commit while the
  handler runs keep it, whatever the handler's outcome and whether or not the claim succeeds.\<close>

theorem run_once_inv:
  assumes inv: "queue_inv d" and res: "run_once mv w jitter now locked d = Inr (r, d')"
    and handlers: "\<forall>(k, h) \<in> set (jw_handlers w). \<forall>l e. queue_inv e \<longrightarrow> queue_inv (snd (snd (snd (h l e))))"
  shows "queue_inv d'"
proof -
  obtain c d1 where c: "worker_claim mv w now locked d = Inr (c, d1)"
    using res by (auto simp: run_once_def bind_result_eq_Inr)
  have 1: "queue_inv d1" using claim_inv [OF inv] c by (auto simp: worker_claim_def)
  have ended: "queue_inv (snd (conclude s jit t lost l out e))" if "queue_inv e" for s jit t lost l out and e :: db
    using that
    by (cases out) (auto simp: conclude_def run_retry_def run_fail_def Let_def split_beta
        intro: succeed_inv fail_inv retry_inv release_inv defer_inv)
  show ?thesis
  proof (cases c)
    case None
    then show ?thesis using res c 1 by (simp add: run_once_def)
  next
    case (Some l)
    show ?thesis
    proof (cases "map_of (jw_handlers w) (lease_kind l)")
      case None
      then show ?thesis
        using res c Some fail_inv [OF 1] by (auto simp: run_once_def run_fail_def Let_def split_beta)
    next
      case (Some h)
      have "queue_inv (snd (snd (snd (h l d1))))" using handlers map_of_SomeD [OF Some] 1 by blast
      then show ?thesis
        using res c \<open>c = Some l\<close> Some ended
        by (auto simp: run_once_def Let_def split_beta) (metis snd_conv)
    qed
  qed
qed

definition demo_worker :: job_worker where
  "demo_worker = \<lparr>jw_owner = ''worker-1'', jw_handlers = [(LIBRARY_REPAIR, \<lambda>l d. (HandlerDone, seconds 5, False, d))],
     jw_settings = demo_worker_settings, jw_kinds = None, jw_pools = None\<rparr>"

theorem run_once_inv_witness:
  "case run_once strict_validate demo_worker 1 (seconds 2) [] demo_queued of
     Inr (r, d') \<Rightarrow> r = Some JobSucceeded \<and> queue_inv d' | Inl _ \<Rightarrow> False"
proof -
  have "case run_once strict_validate demo_worker 1 (seconds 2) [] demo_queued of
     Inr (r, _) \<Rightarrow> r = Some JobSucceeded | Inl _ \<Rightarrow> False" by code_simp
  then show ?thesis
    using run_once_inv [OF demo_queued_inv, of strict_validate demo_worker 1 "seconds 2" "[]"]
    by (auto simp: demo_worker_def split: sum.splits)
qed

end
