(* ===== verification/Download_Plans.thy ===== *)
theory Download_Plans
  imports Queue_Lifecycle Settings "HOL-Library.List_Lexorder" "HOL-Library.Char_ord"
begin

text \<open>
  \<^verbatim>\<open>manga_manager/application/download_plans.py\<close>: the coordinator that turns a tracked
  series into chapter downloads.  A plan has one intent per chapter; \<open>reconcile\<close> brings the
  intents up to date with their jobs and queues what is ready.  \<open>utcnow()\<close> is the argument
  \<open>now\<close>; a raise is the left value of the result, and the transaction of the caller is then
  rolled back.  Also \<^verbatim>\<open>download_activity.py\<close>, the test whether foreground
  downloads can use resources.
\<close>

subsection \<open>Loops over rows\<close>

text \<open>A loop whose body may raise.\<close>

fun fold_result :: "('a \<Rightarrow> 's \<Rightarrow> 's result) \<Rightarrow> 'a list \<Rightarrow> 's \<Rightarrow> 's result" where
  "fold_result f [] s = Inr s"
| "fold_result f (x # xs) s = bind_result (f x s) (fold_result f xs)"

text \<open>\<open>max(rows, key=\<dots>, default=None)\<close>: the first of the greatest.\<close>

fun max_by :: "('a \<Rightarrow> 'k :: linorder) \<Rightarrow> 'a list \<Rightarrow> 'a option" where
  "max_by key [] = None"
| "max_by key (x # xs) = Some (fold (\<lambda>y m. if key m < key y then y else m) xs x)"

definition put_plan :: "series_download_plan \<Rightarrow> db \<Rightarrow> db" where
  "put_plan p d = d\<lparr>plans := put_row plan_series_id p (plans d)\<rparr>"

definition put_intent :: "chapter_download_intent \<Rightarrow> db \<Rightarrow> db" where
  "put_intent i d = d\<lparr>intents := put_row int_id i (intents d)\<rparr>"

definition put_release :: "catalog_chapter_release \<Rightarrow> db \<Rightarrow> db" where
  "put_release r d = d\<lparr>releases := put_row rel_id r (releases d)\<rparr>"

definition add_attempt :: "chapter_release_attempt \<Rightarrow> db \<Rightarrow> db" where
  "add_attempt a d = d\<lparr>attempts_log := attempts_log d @ [a]\<rparr>"

abbreviation find_plan :: "int \<Rightarrow> db \<Rightarrow> series_download_plan option" where
  "find_plan s d \<equiv> get_row plan_series_id s (plans d)"

definition series_intents :: "int \<Rightarrow> db \<Rightarrow> chapter_download_intent list" where
  "series_intents s d = filter (\<lambda>i. int_series_id i = s) (intents d)"

subsection \<open>Choosing a release\<close>

definition SOURCE_RANKS :: "(string \<times> int) list" where
  "SOURCE_RANKS =
     map (\<lambda>(i, src). (src, int (length SOURCE_PRIORITY) - int i)) (enumerate 0 SOURCE_PRIORITY)"

definition source_rank :: "string \<Rightarrow> int" where
  "source_rank src = (case map_of SOURCE_RANKS src of None \<Rightarrow> 0 | Some n \<Rightarrow> n)"

definition release_preference :: "catalog_chapter_release \<Rightarrow> int \<times> int \<times> int" where
  "release_preference r = (source_rank (rel_source r), rel_quality_rank r, rel_id r)"

definition downloadable :: "instant \<Rightarrow> catalog_chapter_release \<Rightarrow> bool" where
  "downloadable now r = (case rel_downloadable_after r of None \<Rightarrow> True | Some t \<Rightarrow> t \<le> now)"

definition best_release :: "instant \<Rightarrow> int \<Rightarrow> db \<Rightarrow> catalog_chapter_release option" where
  "best_release now ch d =
     max_by release_preference
       (filter (\<lambda>r. rel_chapter_id r = ch \<and> downloadable now r) (releases d))"

definition fallback_release ::
  "instant \<Rightarrow> int \<Rightarrow> int \<Rightarrow> string list \<Rightarrow> db \<Rightarrow> catalog_chapter_release option" where
  "fallback_release now ch failed excluded d =
     max_by release_preference
       (filter (\<lambda>r. rel_chapter_id r = ch \<and> rel_id r \<noteq> failed \<and> rel_source r \<notin> set excluded \<and>
                    downloadable now r) (releases d))"

definition has_active_artifact :: "int \<Rightarrow> db \<Rightarrow> bool" where
  "has_active_artifact ch d = list_ex (\<lambda>a. art_chapter_id a = ch \<and> art_state a = ArtActive) (artifacts d)"

subsection \<open>Synchronising intents with the chapters\<close>

definition chapter_order :: "catalog_chapter \<Rightarrow> bool \<times> rat \<times> int" where
  "chapter_order c = (case ch_sort_number c of None \<Rightarrow> (True, 0, ch_id c) | Some n \<Rightarrow> (False, n, ch_id c))"

definition series_chapters :: "int \<Rightarrow> db \<Rightarrow> catalog_chapter list" where
  "series_chapters s d = sort_key chapter_order (filter (\<lambda>c. ch_series_id c = s) (chapters d))"

definition priority_ids :: "catalog_chapter list \<Rightarrow> int list" where
  "priority_ids cs = map ch_id (take 2 cs @ drop (length cs - 2) cs)"

definition initial_intent ::
  "series_download_plan \<Rightarrow> int list \<Rightarrow> catalog_chapter \<Rightarrow> intent_tier \<times> intent_state" where
  "initial_intent plan pids c =
     (if plan_created_at plan < ch_created_at c then (TierCurrent, IntentPending)
      else if ch_id c \<in> set pids \<and> plan_phase_of plan = PhasePriority then (TierPriority, IntentPending)
      else (TierBackfill,
            if plan_phase_of plan = PhaseBackfill then IntentPending else IntentBlocked))"

definition add_intent :: "instant \<Rightarrow> series_download_plan \<Rightarrow> int list \<Rightarrow> catalog_chapter \<Rightarrow> db \<Rightarrow> db" where
  "add_intent now plan pids c d =
     (let (tier, state) = initial_intent plan pids c;
          row = \<lparr>int_id = intent_seq d, int_series_id = plan_series_id plan, int_chapter_id = ch_id c,
                 int_tier = tier,
                 int_state = (if has_active_artifact (ch_id c) d then IntentSatisfied else state),
                 int_job_id = None, int_created_at = now, int_updated_at = now\<rparr>
      in d\<lparr>intents := intents d @ [row], intent_seq := intent_seq d + 1\<rparr>)"

definition sync_chapters :: "instant \<Rightarrow> series_download_plan \<Rightarrow> db \<Rightarrow> db" where
  "sync_chapters now plan d =
     (let cs = series_chapters (plan_series_id plan) d;
          existing = map int_chapter_id (series_intents (plan_series_id plan) d)
      in fold (\<lambda>c e. if ch_id c \<in> set existing then e else add_intent now plan (priority_ids cs) c e) cs d)"

subsection \<open>Queueing what is ready\<close>

fun tier_order :: "intent_tier \<Rightarrow> int" where
  "tier_order TierCurrent = 0"
| "tier_order TierPriority = 1"
| "tier_order TierBackfill = 2"

definition intent_order :: "chapter_download_intent \<Rightarrow> int \<times> int" where
  "intent_order i = (tier_order (int_tier i), int_id i)"

fun tier_priority :: "intent_tier \<Rightarrow> int" where
  "tier_priority TierCurrent = 5"
| "tier_priority TierPriority = 20"
| "tier_priority TierBackfill = 100"

text \<open>Constructing a payload model checks its field constraints.\<close>

definition build_payload :: "job_payload \<Rightarrow> payload_arg result" where
  "build_payload p = (if payload_ok p then Inr (Model p) else Inl ValidationError)"

definition download_payload :: "int \<Rightarrow> string list \<Rightarrow> bool \<Rightarrow> job_payload" where
  "download_payload rel attempted preferred =
     ChapterDownloadPayload \<lparr>cd_version = 1, cd_chapter_release_id = rel,
       cd_attempted_sources = attempted, cd_preferred_only = preferred\<rparr>"

definition download_args :: "string \<Rightarrow> payload_arg \<Rightarrow> int \<Rightarrow> string \<Rightarrow> int \<Rightarrow> enqueue_args" where
  "download_args key payload prio src series =
     (enqueue_defaults CHAPTER_DOWNLOAD key payload)\<lparr>eq_priority := prio, eq_source := src,
        eq_series_key := str_of_int series, eq_max_attempts := 3\<rparr>"

definition enqueue_intent ::
  "validator \<Rightarrow> int \<Rightarrow> instant \<Rightarrow> int \<Rightarrow> chapter_download_intent \<Rightarrow> int \<times> db \<Rightarrow> (int \<times> db) result" where
  "enqueue_intent model_validate window now series i s =
     (let (active_backfill, d) = s in
      if int_state i \<noteq> IntentPending then Inr s
      else if int_tier i = TierBackfill \<and> window \<le> active_backfill then Inr s
      else case best_release now (int_chapter_id i) d of
             None \<Rightarrow> Inr (active_backfill, put_intent (i\<lparr>int_state := IntentAttention\<rparr>) d)
           | Some r \<Rightarrow>
               bind_result (build_payload (download_payload (rel_id r) [] False)) (\<lambda>payload.
               bind_result (enqueue model_validate now
                   (download_args (''chapter:'' @ str_of_int (int_chapter_id i)) payload
                      (tier_priority (int_tier i)) (rel_source r) series) d) (\<lambda>(j, _, d1).
                 Inr (if int_tier i = TierBackfill then active_backfill + 1 else active_backfill,
                      put_intent (i\<lparr>int_job_id := Some (job_id j), int_state := IntentQueued,
                                    int_updated_at := now\<rparr>) d1))))"

definition queued_backfill :: "chapter_download_intent \<Rightarrow> bool" where
  "queued_backfill i = (int_tier i = TierBackfill \<and> int_state i = IntentQueued)"

definition enqueue_ready ::
  "validator \<Rightarrow> int \<Rightarrow> instant \<Rightarrow> int \<Rightarrow> chapter_download_intent list \<Rightarrow> db \<Rightarrow> (int \<times> db) result" where
  "enqueue_ready model_validate window now series rows d =
     fold_result (enqueue_intent model_validate window now series)
       (sort_key intent_order rows) (int (length (filter queued_backfill rows)), d)"

subsection \<open>Reconciling a plan\<close>

definition finished :: "chapter_download_intent \<Rightarrow> bool" where
  "finished i = (int_state i \<in> {IntentSatisfied, IntentAttention, IntentCancelled})"

definition intent_job :: "chapter_download_intent \<Rightarrow> int option" where
  "intent_job i = (case int_job_id i of None \<Rightarrow> None | Some n \<Rightarrow> if n = 0 then None else Some n)"

definition settle_intent :: "instant \<Rightarrow> db \<Rightarrow> chapter_download_intent \<Rightarrow> chapter_download_intent" where
  "settle_intent now d i =
     (if has_active_artifact (int_chapter_id i) d
      then i\<lparr>int_state := IntentSatisfied, int_updated_at := now\<rparr>
      else case intent_job i of
             None \<Rightarrow> i
           | Some n \<Rightarrow>
               (case find_job n d of
                  None \<Rightarrow> i\<lparr>int_job_id := None,
                            int_state := (if int_state i = IntentQueued
                                          then (if int_tier i \<noteq> TierBackfill then IntentPending
                                                else IntentBlocked)
                                          else int_state i)\<rparr>
                | Some j \<Rightarrow>
                    i\<lparr>int_state := (if job_status j = SUCCEEDED then IntentSatisfied
                                     else if job_status j = FAILED \<or> job_status j = CANCELLED
                                     then IntentAttention else IntentQueued)\<rparr>))"

definition release_backfill :: "chapter_download_intent \<Rightarrow> chapter_download_intent" where
  "release_backfill i =
     (if int_tier i = TierBackfill \<and> int_state i = IntentBlocked then i\<lparr>int_state := IntentPending\<rparr> else i)"

definition priority_done :: "series_download_plan \<Rightarrow> chapter_download_intent list \<Rightarrow> bool" where
  "priority_done plan rows =
     (plan_phase_of plan = PhasePriority \<and>
      list_all finished (filter (\<lambda>i. int_tier i = TierPriority) rows))"

definition settled :: "instant \<Rightarrow> int \<Rightarrow> db \<Rightarrow> chapter_download_intent list" where
  "settled now series d = map (settle_intent now d) (sort_key int_id (series_intents series d))"

definition advance_phase ::
  "series_download_plan \<Rightarrow> chapter_download_intent list \<Rightarrow> series_download_plan \<times> chapter_download_intent list" where
  "advance_phase plan rows =
     (if priority_done plan rows
      then (plan\<lparr>plan_phase_of := PhaseBackfill\<rparr>, map release_backfill rows)
      else (plan, rows))"

definition put_intents :: "chapter_download_intent list \<Rightarrow> db \<Rightarrow> db" where
  "put_intents rows d = fold put_intent rows d"

definition count_state :: "intent_state \<Rightarrow> chapter_download_intent list \<Rightarrow> int" where
  "count_state s rows = int (length (filter (\<lambda>i. int_state i = s) rows))"

definition close_plan ::
  "instant \<Rightarrow> series_download_plan \<Rightarrow> chapter_download_intent list \<Rightarrow> series_download_plan" where
  "close_plan now plan rows =
     (let p = plan\<lparr>plan_total_chapters := int (length rows),
                  plan_satisfied_chapters := count_state IntentSatisfied rows,
                  plan_attention_chapters := count_state IntentAttention rows\<rparr>;
          q = (if list_all finished rows \<and> rows \<noteq> []
               then p\<lparr>plan_status_of := PlanComplete, plan_phase_of := PhaseComplete\<rparr> else p)
      in q\<lparr>plan_updated_at := now\<rparr>)"

definition reconcile ::
  "validator \<Rightarrow> int \<Rightarrow> instant \<Rightarrow> int \<Rightarrow> db \<Rightarrow> (series_download_plan option \<times> db) result" where
  "reconcile model_validate window now series d =
     (case find_plan series d of
        None \<Rightarrow> Inr (None, d)
      | Some plan \<Rightarrow>
          if plan_status_of plan \<noteq> PlanActive then Inr (Some plan, d)
          else
            (let d1 = sync_chapters now plan d;
                 (plan1, rows) = advance_phase plan (settled now series d1)
             in bind_result (enqueue_ready model_validate window now series rows (put_intents rows d1))
                  (\<lambda>(_, d2).
                    let plan2 = close_plan now plan1 (series_intents series d2)
                    in Inr (Some plan2, put_plan plan2 d2))))"

subsection \<open>Tracking and untracking\<close>

definition acquisition_key :: "int \<Rightarrow> string" where
  "acquisition_key series = ''acquire:'' @ str_of_int series"

definition acquisition_payload :: "int \<Rightarrow> catalog_source_series \<Rightarrow> job_payload" where
  "acquisition_payload series s =
     SourceRefreshPayload \<lparr>sr_version = 1, sr_source = srs_source s, sr_source_id = srs_source_id s,
       sr_title = str_or (srs_title s) ''Unknown manga'', sr_url = srs_url s, sr_aliases = [],
       sr_description = srs_description s, sr_cover_url = srs_cover_url s, sr_genres = [],
       sr_popularity = srs_popularity s, sr_external_ids = fmempty, sr_metadata = srs_metadata s,
       sr_workflow_key = acquisition_key series, sr_observation_version = srs_observation_version s,
       sr_acquisition_critical = True\<rparr>"

definition acquisition_args :: "int \<Rightarrow> catalog_source_series \<Rightarrow> payload_arg \<Rightarrow> enqueue_args" where
  "acquisition_args series s payload =
     (enqueue_defaults SOURCE_REFRESH (''refresh:'' @ srs_source s @ '':'' @ srs_source_id s) payload)
       \<lparr>eq_priority := 10, eq_max_attempts := 4, eq_source := srs_source s,
        eq_series_key := str_of_int series, eq_workflow_key := acquisition_key series,
        eq_group_key := acquisition_key series, eq_coalesce := True\<rparr>"

definition acquire_identity ::
  "validator \<Rightarrow> instant \<Rightarrow> int \<Rightarrow> catalog_source_series \<Rightarrow> int \<times> db \<Rightarrow> (int \<times> db) result" where
  "acquire_identity model_validate now series s st =
     (let (created, d) = st in
      if srs_source_id s = [] \<or> srs_url s = [] then Inr st
      else bind_result (build_payload (acquisition_payload series s)) (\<lambda>payload.
           bind_result (enqueue model_validate now (acquisition_args series s payload) d) (\<lambda>(_, b, d1).
             Inr (created + (if b then 1 else 0), d1))))"

definition enqueue_acquisition_refreshes ::
  "validator \<Rightarrow> instant \<Rightarrow> int \<Rightarrow> db \<Rightarrow> (int \<times> db) result" where
  "enqueue_acquisition_refreshes model_validate now series d =
     (if list_ex (\<lambda>c. ch_series_id c = series) (chapters d) then Inr (0, d)
      else fold_result (acquire_identity model_validate now series)
             (sort_key srs_id (filter (\<lambda>s. srs_series_id s = series) (source_series d))) (0, d))"

definition new_plan :: "instant \<Rightarrow> int \<Rightarrow> series_download_plan" where
  "new_plan now series =
     \<lparr>plan_series_id = series, plan_status_of = PlanActive, plan_phase_of = PhasePriority,
      plan_total_chapters = 0, plan_satisfied_chapters = 0, plan_attention_chapters = 0,
      plan_created_at = now, plan_updated_at = now\<rparr>"

text \<open>\<open>session.get\<close>, or a new plan row; the row refers to the series table.\<close>

definition open_plan :: "instant \<Rightarrow> int \<Rightarrow> db \<Rightarrow> (series_download_plan \<times> db) result" where
  "open_plan now series d =
     (case find_plan series d of
        Some p \<Rightarrow> Inr (p, d)
      | None \<Rightarrow> if list_ex (\<lambda>s. ser_id s = series) (series_rows d)
                then Inr (new_plan now series, d\<lparr>plans := plans d @ [new_plan now series]\<rparr>)
                else Inl IntegrityError)"

definition reactivate :: "series_download_plan \<Rightarrow> series_download_plan" where
  "reactivate p =
     p\<lparr>plan_status_of := PlanActive,
       plan_phase_of := (if plan_phase_of p = PhaseComplete \<or> plan_phase_of p = PhaseCancelled
                         then PhasePriority else plan_phase_of p)\<rparr>"

definition track ::
  "validator \<Rightarrow> int \<Rightarrow> instant \<Rightarrow> int \<Rightarrow> db \<Rightarrow> (series_download_plan option \<times> db) result" where
  "track model_validate window now series d =
     bind_result (open_plan now series d) (\<lambda>(p, d1).
       let p1 = reactivate p; d2 = sync_chapters now p1 (put_plan p1 d1)
       in bind_result (enqueue_acquisition_refreshes model_validate now series d2) (\<lambda>(_, d3).
            reconcile model_validate window now series d3))"

definition untrack_intent :: "instant \<Rightarrow> chapter_download_intent \<Rightarrow> db \<Rightarrow> db" where
  "untrack_intent now i d =
     (let d1 = (case intent_job i of
                  None \<Rightarrow> d
                | Some n \<Rightarrow>
                    (case find_job n d of
                       None \<Rightarrow> d
                     | Some j \<Rightarrow> if job_status j = QUEUED \<or> job_status j = RETRY_WAIT
                                 then snd (cancel now n ''series was untracked'' d) else d))
      in put_intent (i\<lparr>int_state := IntentCancelled, int_updated_at := now\<rparr>) d1)"

definition open_intents :: "int \<Rightarrow> db \<Rightarrow> chapter_download_intent list" where
  "open_intents series d = filter (\<lambda>i. int_series_id i = series \<and>
     int_state i \<in> {IntentBlocked, IntentPending, IntentQueued}) (intents d)"

definition cancel_plan :: "instant \<Rightarrow> int \<Rightarrow> db \<Rightarrow> db" where
  "cancel_plan now series d =
     (case find_plan series d of
        None \<Rightarrow> d
      | Some p \<Rightarrow> put_plan (p\<lparr>plan_status_of := PlanCancelled, plan_phase_of := PhaseCancelled,
                              plan_updated_at := now\<rparr>) d)"

definition untrack :: "instant \<Rightarrow> int \<Rightarrow> db \<Rightarrow> db" where
  "untrack now series d = fold (untrack_intent now) (open_intents series d) (cancel_plan now series d)"

subsection \<open>Upgrades and sweeps\<close>

definition TRACKED_STATES :: "series_status list" where
  "TRACKED_STATES = [Interested, Reading, CaughtUp, Paused]"

definition upgrade_artifact ::
  "validator \<Rightarrow> instant \<Rightarrow> chapter_artifact \<Rightarrow> int \<times> db \<Rightarrow> (int \<times> db) result" where
  "upgrade_artifact model_validate now a st =
     (let (created, d) = st in
      case best_release now (art_chapter_id a) d of
        None \<Rightarrow> Inr st
      | Some r \<Rightarrow>
          if (source_rank (rel_source r), rel_quality_rank r) \<le> (source_rank (art_source a), art_quality_rank a)
          then Inr st
          else case get_row ch_id (art_chapter_id a) (chapters d) of
                 None \<Rightarrow> Inr st
               | Some c \<Rightarrow>
                   bind_result (build_payload (download_payload (rel_id r) [] True)) (\<lambda>payload.
                   bind_result (enqueue model_validate now
                       (download_args (''upgrade:'' @ str_of_int (art_chapter_id a) @ '':'' @ str_of_int (rel_id r))
                          payload 250 (rel_source r) (ch_series_id c)) d) (\<lambda>(_, b, d1).
                     Inr (created + (if b then 1 else 0), d1))))"

definition upgradable :: "int list \<Rightarrow> db \<Rightarrow> chapter_artifact \<Rightarrow> bool" where
  "upgradable ids d a =
     (list_ex (\<lambda>c. ch_id c = art_chapter_id a \<and> ch_series_id c \<in> set ids) (chapters d) \<and>
      art_state a = ArtActive \<and> (art_provenance a = ''fallback'' \<or> art_source a \<noteq> ''asura''))"

definition enqueue_preferred_upgrades ::
  "validator \<Rightarrow> instant \<Rightarrow> int list \<Rightarrow> db \<Rightarrow> (int \<times> db) result" where
  "enqueue_preferred_upgrades model_validate now ids d =
     (if ids = [] then Inr (0, d)
      else fold_result (upgrade_artifact model_validate now) (filter (upgradable ids d) (artifacts d)) (0, d))"

definition tracked_series :: "db \<Rightarrow> int list" where
  "tracked_series d = map ser_id (filter (\<lambda>s. ser_status s \<in> set TRACKED_STATES) (series_rows d))"

definition bootstrap :: "validator \<Rightarrow> int \<Rightarrow> instant \<Rightarrow> db \<Rightarrow> (int \<times> db) result" where
  "bootstrap model_validate window now d =
     bind_result (fold_result (\<lambda>s e. map_sum id snd (track model_validate window now s e)) (tracked_series d) d)
       (\<lambda>d1. bind_result (enqueue_preferred_upgrades model_validate now (tracked_series d) d1)
         (\<lambda>(_, d2). Inr (int (length (tracked_series d)), d2)))"

text \<open>Rows locked by another transaction are skipped.\<close>

definition oldest_active :: "int \<Rightarrow> int list \<Rightarrow> db \<Rightarrow> int list" where
  "oldest_active limit locked d =
     map plan_series_id (take (nat limit) (filter (\<lambda>p. plan_series_id p \<notin> set locked)
       (sort_key (\<lambda>p. (plan_updated_at p, plan_series_id p))
          (filter (\<lambda>p. plan_status_of p = PlanActive) (plans d)))))"

definition reconcile_active ::
  "validator \<Rightarrow> int \<Rightarrow> instant \<Rightarrow> int \<Rightarrow> int list \<Rightarrow> db \<Rightarrow> (int \<times> db) result" where
  "reconcile_active model_validate window now limit locked d =
     (let ids = oldest_active limit locked d
      in bind_result (fold_result (\<lambda>s e. map_sum id snd (reconcile model_validate window now s e)) ids d)
           (\<lambda>d1. Inr (int (length ids), d1)))"

end
