(* ===== verification/Download_Routing.thy ===== *)
theory Download_Routing
  imports Download_Plans
begin

text \<open>
  The rest of the download coordinator: moving a chapter to another provider when its source
  fails (\<open>reroute\<close>) or cools down (\<open>bypass_cooling_source\<close>), and
  \<^verbatim>\<open>download_activity.py\<close>, which tells background lanes whether foreground downloads
  can run.
\<close>

subsection \<open>Reading a payload\<close>

text \<open>\<open>ChapterDownloadPayload.model_validate\<close>.\<close>

definition validate_download :: "validator \<Rightarrow> jdict \<Rightarrow> chapter_download_payload result" where
  "validate_download model_validate payload =
     (case model_validate CHAPTER_DOWNLOAD payload of
        Some (ChapterDownloadPayload p) \<Rightarrow> Inr p
      | _ \<Rightarrow> Inl ValidationError)"

subsection \<open>Rerouting a failed chapter\<close>

definition queue_intent_job :: "instant \<Rightarrow> int \<Rightarrow> int \<Rightarrow> db \<Rightarrow> db" where
  "queue_intent_job now ch job d =
     (case get_row int_chapter_id ch (intents d) of
        None \<Rightarrow> d
      | Some i \<Rightarrow> put_intent (i\<lparr>int_job_id := Some job, int_state := IntentQueued, int_updated_at := now\<rparr>) d)"

definition release_attempt ::
  "catalog_chapter_release \<Rightarrow> int \<Rightarrow> attempt_outcome \<Rightarrow> string \<Rightarrow> string \<Rightarrow> instant option \<Rightarrow> jdict
   \<Rightarrow> chapter_release_attempt" where
  "release_attempt r job out code msg after details =
     \<lparr>att_chapter_id = rel_chapter_id r, att_chapter_release_id = rel_id r, att_job_id = Some job,
      att_source = rel_source r, att_outcome = out, att_error_code = code, att_error_message = msg,
      att_retry_after = after, att_details = details\<rparr>"

definition reroute_release ::
  "validator \<Rightarrow> instant \<Rightarrow> work_job \<Rightarrow> catalog_chapter_release \<Rightarrow> catalog_chapter_release \<Rightarrow> string \<Rightarrow> string
   \<Rightarrow> instant option \<Rightarrow> db \<Rightarrow> (work_job \<times> db) result" where
  "reroute_release model_validate now job failed alt code msg retry_after d =
     (let d1 = add_attempt (release_attempt failed (job_id job) OutFailed code (take 4000 msg) retry_after
                 (fmap_of_list [(''fallback_release_id'', JInt (rel_id alt))]))
                 (put_release (failed\<lparr>rel_downloadable_after := retry_after\<rparr>) d)
      in bind_result (validate_download model_validate (job_payload job)) (\<lambda>cur.
         let attempted = fromkeys (cd_attempted_sources cur @ [rel_source failed]) in
         bind_result (build_payload (download_payload (rel_id alt) attempted (cd_preferred_only cur))) (\<lambda>payload.
         bind_result (Queue_Lifecycle.reroute model_validate now (job_id job) (job_lease_owner job) payload
              (rel_source alt) now (''rerouted to '' @ rel_source alt @ '': '' @ code)
              (fmap_of_list [(''failed_source'', JStr (rel_source failed)), (''attempted_sources'', jstrs attempted)])
              d1) (\<lambda>(moved, d2).
         if \<not> moved then Inl (RuntimeError ''chapter lease was lost while rerouting'')
         else Inr (job, add_attempt (release_attempt alt (job_id job) OutFallbackQueued [] [] None
                     (fmap_of_list [(''failed_release_id'', JInt (rel_id failed)),
                                    (''failed_source'', JStr (rel_source failed))]))
                   (queue_intent_job now (rel_chapter_id failed) (job_id job) d2))))))"

subsection \<open>Bypassing a cooling provider\<close>

definition waiting_download :: "string \<Rightarrow> int list \<Rightarrow> work_job \<Rightarrow> bool" where
  "waiting_download src locked j = (job_kind_of j = CHAPTER_DOWNLOAD \<and> job_source j = src \<and>
     (job_status j = QUEUED \<or> job_status j = RETRY_WAIT) \<and> job_id j \<notin> set locked)"

definition hold_until ::
  "instant \<Rightarrow> work_job \<Rightarrow> catalog_chapter_release \<Rightarrow> db \<Rightarrow> db" where
  "hold_until after j failed d =
     put_job (j\<lparr>job_status := RETRY_WAIT, job_available_at := after\<rparr>)
       (put_release (failed\<lparr>rel_downloadable_after := Some after\<rparr>) d)"

text \<open>A set of sources is a list; \<open>sorted\<close> of the set is the sorted list without duplicates.\<close>

definition bypass_job ::
  "validator \<Rightarrow> instant \<Rightarrow> string \<Rightarrow> instant \<Rightarrow> work_job \<Rightarrow> int \<times> db \<Rightarrow> (int \<times> db) result" where
  "bypass_job model_validate now src retry_after j st =
     (let (rerouted, d) = st in
      bind_result (int_or_zero (dict_get (job_payload j) ''chapter_release_id'')) (\<lambda>rid.
      case get_row rel_id rid (releases d) of
        None \<Rightarrow> Inr st
      | Some failed \<Rightarrow>
          bind_result (validate_download model_validate (job_payload j)) (\<lambda>p.
          if cd_preferred_only p then Inr (rerouted, hold_until retry_after j failed d)
          else
            let attempted = src # cd_attempted_sources p; names = sort (remdups attempted) in
            case fallback_release now (rel_chapter_id failed) (rel_id failed) attempted d of
              None \<Rightarrow> Inr (rerouted, hold_until retry_after j failed d)
            | Some alt \<Rightarrow>
                bind_result (build_payload (download_payload (rel_id alt) names False)) (\<lambda>payload.
                bind_result (reroute_waiting model_validate now (job_id j) payload (rel_source alt) now
                    (''bypassed while '' @ src @ '' is cooling down'')
                    (fmap_of_list [(''attempted_sources'', jstrs names)]) d) (\<lambda>(_, d1).
                  Inr (rerouted + 1,
                       add_attempt (release_attempt alt (job_id j) OutFallbackQueued [] [] (Some retry_after)
                         (fmap_of_list [(''bypassed_source'', JStr src),
                                        (''bypassed_release_id'', JInt (rel_id failed))]))
                         (queue_intent_job now (rel_chapter_id failed) (job_id j) d1)))))))"

definition bypass_cooling_source ::
  "validator \<Rightarrow> instant \<Rightarrow> string \<Rightarrow> instant \<Rightarrow> int list \<Rightarrow> db \<Rightarrow> (int \<times> db) result" where
  "bypass_cooling_source model_validate now src retry_after locked d =
     fold_result (bypass_job model_validate now src retry_after)
       (filter (waiting_download src locked) (jobs d)) (0, d)"

subsection \<open>Foreground activity\<close>

text \<open>The blocked providers and the storage pause are those of the claim query.\<close>

definition runnable_now :: "instant \<Rightarrow> db \<Rightarrow> work_job \<Rightarrow> bool" where
  "runnable_now now d j = ((job_status j = QUEUED \<or> job_status j = RETRY_WAIT) \<and>
     job_available_at j \<le> now \<and> job_attempts j < job_max_attempts j \<and>
     \<not> provider_blocked now d (job_source j) \<and> \<not> storage_paused d)"

definition has_runnable_or_leased_downloads :: "instant \<Rightarrow> string option \<Rightarrow> db \<Rightarrow> bool" where
  "has_runnable_or_leased_downloads now series_key d =
     list_ex (\<lambda>j. job_kind_of j = CHAPTER_DOWNLOAD \<and> (live_lease now j \<or> runnable_now now d j) \<and>
        (case series_key of None \<Rightarrow> True | Some k \<Rightarrow> job_series_key j = k)) (jobs d)"

end
