(* ===== verification/Download_Plan_Facts.thy ===== *)
theory Download_Plan_Facts
  imports Download_Routing Queue_Machine
begin

text \<open>
  The laws of the download coordinator: which release is chosen, what a reconciliation does to
  the intents, and that every coordinator operation is a run of the queue machine, so that the
  queue's invariants carry over to it.
\<close>

subsection \<open>Maxima and loops\<close>

lemma fold_max_spec:
  "fold (\<lambda>y m. if key m < key y then y else m) xs x \<in> insert x (set xs) \<and>
   (\<forall>y \<in> insert x (set xs). key y \<le> (key (fold (\<lambda>y m. if key m < key y then y else m) xs x) :: 'k :: linorder))"
proof (induction xs arbitrary: x)
  case Nil
  then show ?case by simp
next
  case (Cons y xs)
  let ?z = "if key x < key y then y else x"
  show ?case using Cons [of ?z] by (auto split: if_splits)
qed

lemma max_by_Some:
  assumes "max_by key xs = Some x"
  shows "x \<in> set xs \<and> (\<forall>y \<in> set xs. key y \<le> key x)"
  using assms by (cases xs) (use fold_max_spec [of key] in auto)

lemma max_by_None [simp]: "max_by key xs = None \<longleftrightarrow> xs = []"
  by (cases xs) simp_all

lemma fold_result_append:
  "fold_result f (xs @ ys) s = bind_result (fold_result f xs s) (fold_result f ys)"
proof (induction xs arbitrary: s)
  case Nil
  then show ?case by simp
next
  case (Cons x xs)
  then show ?case by (cases "f x s") simp_all
qed

text \<open>An invariant of the loop: \<open>P n s\<close> after \<open>n\<close> rounds.\<close>

lemma fold_result_rel:
  assumes "fold_result f xs s = Inr s'" and "R s s"
    and "\<And>x s1 s2. x \<in> set xs \<Longrightarrow> R s s1 \<Longrightarrow> f x s1 = Inr s2 \<Longrightarrow> R s s2"
  shows "R s s'"
  using assms(1,3)
proof (induction xs arbitrary: s' rule: rev_induct)
  case Nil
  then show ?case using assms(2) by simp
next
  case (snoc x xs)
  from snoc.prems(1) obtain s1 where "fold_result f xs s = Inr s1" "f x s1 = Inr s'"
    by (auto simp: fold_result_append bind_result_eq_Inr)
  then show ?case using snoc by auto
qed

subsection \<open>The coordinator is a client of the queue\<close>

text \<open>Tables of the queue; the coordinator's own tables are the others.\<close>

definition same_queue :: "db \<Rightarrow> db \<Rightarrow> bool" where
  "same_queue d d' = (jobs d' = jobs d \<and> job_seq d' = job_seq d \<and> permits d' = permits d \<and>
     cycles d' = cycles d \<and> cycle_seq d' = cycle_seq d)"

lemma same_queue_refl [simp]: "same_queue d d"
  by (simp add: same_queue_def)

lemma same_queue_trans: "same_queue d e \<Longrightarrow> same_queue e f \<Longrightarrow> same_queue d f"
  by (simp add: same_queue_def)

lemma same_queue_put [simp]:
  "same_queue d (put_plan p d)" "same_queue d (put_intent i d)" "same_queue d (put_release r d)"
  "same_queue d (add_attempt a d)"
  by (simp_all add: same_queue_def put_plan_def put_intent_def put_release_def add_attempt_def)

lemma same_queue_fold:
  assumes "\<And>x e. same_queue e (f x e)"
  shows "same_queue d (fold f xs d)"
  by (induction xs arbitrary: d) (auto intro: same_queue_trans assms)

lemma same_queue_add_intent [simp]: "same_queue d (add_intent now plan pids c d)"
  by (simp add: same_queue_def add_intent_def split: prod.splits)

lemma same_queue_sync [simp]: "same_queue d (sync_chapters now plan d)"
  unfolding sync_chapters_def Let_def by (rule same_queue_fold) simp

lemma same_queue_put_intents [simp]: "same_queue d (put_intents rows d)"
  unfolding put_intents_def by (rule same_queue_fold) simp

lemma same_queue_intent_job [simp]: "same_queue d (queue_intent_job now ch job d)"
  by (simp add: queue_intent_job_def split: option.splits)

text \<open>A run of the queue machine at one instant.\<close>

definition queue_run :: "validator \<Rightarrow> pool_limits \<Rightarrow> instant \<Rightarrow> db \<Rightarrow> db \<Rightarrow> bool" where
  "queue_run mv limits now d d' = (queue_step mv limits)\<^sup>*\<^sup>* (now, d) (now, d')"

lemma queue_run_refl [simp]: "queue_run mv limits now d d"
  by (simp add: queue_run_def)

lemma queue_run_trans: "queue_run mv limits now d e \<Longrightarrow> queue_run mv limits now e f \<Longrightarrow> queue_run mv limits now d f"
  unfolding queue_run_def by (rule rtranclp_trans)

lemma queue_run_other: "same_queue d d' \<Longrightarrow> queue_run mv limits now d d'"
  unfolding queue_run_def same_queue_def by (blast intro: queue_step.Other r_into_rtranclp)

lemma queue_run_enqueue: "enqueue mv now a d = Inr (j, b, d') \<Longrightarrow> queue_run mv limits now d d'"
  unfolding queue_run_def by (blast intro: queue_step.Enqueue r_into_rtranclp)

lemma queue_run_cancel: "queue_run mv limits now d (snd (cancel now i r d))"
  unfolding queue_run_def by (metis order_refl prod.collapse queue_step.Cancel r_into_rtranclp)

lemma queue_run_reroute:
  "Queue_Lifecycle.reroute mv now i ow p src av m dt d = Inr (b, d') \<Longrightarrow> queue_run mv limits now d d'"
  unfolding queue_run_def by (blast intro: queue_step.Reroute r_into_rtranclp)

lemma queue_run_snd_loop:
  assumes "fold_result f xs s = Inr s'"
    and "\<And>x s1 s2. f x s1 = Inr s2 \<Longrightarrow> queue_run mv limits now (snd s1) (snd s2)"
  shows "queue_run mv limits now (snd s) (snd s')"
  by (rule fold_result_rel [where R = "\<lambda>s s'. queue_run mv limits now (snd s) (snd s')", OF assms(1)])
     (auto intro: queue_run_trans assms(2))

lemma queue_run_loop:
  assumes "fold_result f xs d = Inr d'"
    and "\<And>x s1 s2. f x s1 = Inr s2 \<Longrightarrow> queue_run mv limits now s1 s2"
  shows "queue_run mv limits now d d'"
  by (rule fold_result_rel [where R = "queue_run mv limits now", OF assms(1)])
     (auto intro: queue_run_trans assms(2))

lemma enqueue_intent_run:
  assumes "enqueue_intent mv w now series i s = Inr s'"
  shows "queue_run mv limits now (snd s) (snd s')"
  using assms
  by (cases s) (auto simp: enqueue_intent_def bind_result_eq_Inr split: if_splits option.splits
      intro: queue_run_other queue_run_trans [OF queue_run_enqueue queue_run_other])

lemma enqueue_ready_run:
  "enqueue_ready mv w now series rows d = Inr (n, d') \<Longrightarrow> queue_run mv limits now d d'"
  unfolding enqueue_ready_def by (drule queue_run_snd_loop [OF _ enqueue_intent_run]) auto

lemma reconcile_InrD:
  assumes "reconcile mv w now series d = Inr (po, d')" "find_plan series d = Some plan"
    "plan_status_of plan = PlanActive"
  obtains plan1 rows n d2 where
    "advance_phase plan (settled now series (sync_chapters now plan d)) = (plan1, rows)"
    "enqueue_ready mv w now series rows (put_intents rows (sync_chapters now plan d)) = Inr (n, d2)"
    "po = Some (close_plan now plan1 (series_intents series d2))"
    "d' = put_plan (close_plan now plan1 (series_intents series d2)) d2"
  using assms
  by (auto simp: reconcile_def Let_def bind_result_eq_Inr split: prod.splits)

lemma reconcile_idle:
  assumes "reconcile mv w now series d = Inr (po, d')"
    and "\<nexists>plan. find_plan series d = Some plan \<and> plan_status_of plan = PlanActive"
  shows "d' = d"
  using assms by (auto simp: reconcile_def split: option.splits if_splits)

lemma reconcile_run:
  assumes "reconcile mv w now series d = Inr (p, d')"
  shows "queue_run mv limits now d d'"
proof (cases "\<exists>plan. find_plan series d = Some plan \<and> plan_status_of plan = PlanActive")
  case True
  then obtain plan where p: "find_plan series d = Some plan" "plan_status_of plan = PlanActive" by blast
  obtain rows n d2 plan2 where
    "enqueue_ready mv w now series rows (put_intents rows (sync_chapters now plan d)) = Inr (n, d2)"
    "d' = put_plan plan2 d2"
    using reconcile_InrD [OF assms p] by metis
  moreover have "same_queue d (put_intents rows (sync_chapters now plan d))"
    using same_queue_trans same_queue_sync same_queue_put_intents by blast
  ultimately show ?thesis
    using queue_run_trans [OF queue_run_trans [OF queue_run_other enqueue_ready_run] queue_run_other]
      same_queue_put(1) by blast
next
  case False
  then show ?thesis using reconcile_idle [OF assms] by simp
qed

lemma acquire_run:
  "acquire_identity mv now series x s = Inr s' \<Longrightarrow> queue_run mv limits now (snd s) (snd s')"
  by (cases s) (auto simp: acquire_identity_def bind_result_eq_Inr split: if_splits intro: queue_run_enqueue)

lemma refreshes_run:
  "enqueue_acquisition_refreshes mv now series d = Inr (n, d') \<Longrightarrow> queue_run mv limits now d d'"
  unfolding enqueue_acquisition_refreshes_def
  by (auto split: if_splits dest!: queue_run_snd_loop [OF _ acquire_run])

lemma open_plan_same: "open_plan now series d = Inr (p, d') \<Longrightarrow> same_queue d d'"
  by (auto simp: open_plan_def same_queue_def split: option.splits if_splits)

lemma track_run:
  assumes "track mv w now series d = Inr (p, d')"
  shows "queue_run mv limits now d d'"
proof -
  obtain p0 d1 n d3 where 1: "open_plan now series d = Inr (p0, d1)"
    and 2: "enqueue_acquisition_refreshes mv now series
      (sync_chapters now (reactivate p0) (put_plan (reactivate p0) d1)) = Inr (n, d3)"
    and 3: "reconcile mv w now series d3 = Inr (p, d')"
    using assms by (auto simp: track_def Let_def bind_result_eq_Inr)
  have "same_queue d (sync_chapters now (reactivate p0) (put_plan (reactivate p0) d1))"
    using open_plan_same [OF 1] same_queue_trans same_queue_put(1) same_queue_sync by blast
  from queue_run_trans [OF queue_run_trans [OF queue_run_other [OF this] refreshes_run [OF 2]] reconcile_run [OF 3]]
  show ?thesis .
qed

lemma queue_run_put_intent: "queue_run mv limits now d e \<Longrightarrow> queue_run mv limits now d (put_intent i e)"
  by (rule queue_run_trans, assumption, rule queue_run_other, rule same_queue_put(2))

lemma untrack_intent_run: "queue_run mv limits now d (untrack_intent now i d)"
  by (auto simp: untrack_intent_def Let_def split: option.splits
      intro!: queue_run_put_intent queue_run_cancel)

lemma untrack_run: "queue_run mv limits now d (untrack now series d)"
proof -
  have "queue_run mv limits now d (fold (untrack_intent now) xs d)" for xs d
    by (induction xs arbitrary: d) (auto intro: queue_run_trans untrack_intent_run)
  moreover have "same_queue d (cancel_plan now series d)"
    by (simp add: cancel_plan_def split: option.splits)
  ultimately show ?thesis unfolding untrack_def by (blast intro: queue_run_trans queue_run_other)
qed

lemma upgrade_run:
  "upgrade_artifact mv now a s = Inr s' \<Longrightarrow> queue_run mv limits now (snd s) (snd s')"
  by (cases s) (auto simp: upgrade_artifact_def bind_result_eq_Inr split: if_splits option.splits
      intro: queue_run_enqueue)

lemma upgrades_run:
  "enqueue_preferred_upgrades mv now ids d = Inr (n, d') \<Longrightarrow> queue_run mv limits now d d'"
  unfolding enqueue_preferred_upgrades_def
  by (auto split: if_splits dest!: queue_run_snd_loop [OF _ upgrade_run])

lemma map_sum_snd_Inr: "map_sum id snd r = Inr d' \<longleftrightarrow> (\<exists>p. r = Inr (p, d'))"
  by (cases r) auto

lemma bootstrap_run:
  assumes "bootstrap mv w now d = Inr (n, d')"
  shows "queue_run mv limits now d d'"
proof -
  obtain d1 m where 1: "fold_result (\<lambda>s e. map_sum id snd (track mv w now s e)) (tracked_series d) d = Inr d1"
    and 2: "enqueue_preferred_upgrades mv now (tracked_series d) d1 = Inr (m, d')"
    using assms by (auto simp: bootstrap_def bind_result_eq_Inr)
  have "queue_run mv limits now d d1"
    by (rule queue_run_loop [OF 1]) (auto simp: map_sum_snd_Inr intro: track_run)
  then show ?thesis using upgrades_run [OF 2] queue_run_trans by blast
qed

lemma reconcile_active_run:
  assumes "reconcile_active mv w now l locked d = Inr (n, d')"
  shows "queue_run mv limits now d d'"
proof -
  have "fold_result (\<lambda>s e. map_sum id snd (reconcile mv w now s e)) (oldest_active l locked d) d = Inr d'"
    using assms by (auto simp: reconcile_active_def Let_def bind_result_eq_Inr)
  then show ?thesis by (rule queue_run_loop) (auto simp: map_sum_snd_Inr intro: reconcile_run)
qed

lemma reroute_release_InrD:
  assumes "reroute_release mv now job failed alt code msg after d = Inr (j, d')"
  obtains a1 a2 p m dt f where
    "Queue_Lifecycle.reroute mv now (job_id job) (job_lease_owner job) p (rel_source alt) now m dt
       (add_attempt a1 (put_release (failed\<lparr>rel_downloadable_after := after\<rparr>) d)) = Inr (True, f)"
    "j = job" "d' = add_attempt a2 (queue_intent_job now (rel_chapter_id failed) (job_id job) f)"
  using assms by (auto simp: reroute_release_def Let_def bind_result_eq_Inr split: if_splits)

lemma reroute_release_run:
  assumes "reroute_release mv now job failed alt code msg after d = Inr (j, d')"
  shows "queue_run mv limits now d d'"
proof -
  from reroute_release_InrD [OF assms] obtain a1 a2 p m dt f where
    1: "Queue_Lifecycle.reroute mv now (job_id job) (job_lease_owner job) p (rel_source alt) now m dt
       (add_attempt a1 (put_release (failed\<lparr>rel_downloadable_after := after\<rparr>) d)) = Inr (True, f)"
    and 2: "d' = add_attempt a2 (queue_intent_job now (rel_chapter_id failed) (job_id job) f)" by metis
  have "same_queue d (add_attempt a1 (put_release (failed\<lparr>rel_downloadable_after := after\<rparr>) d))" "same_queue f d'"
    unfolding 2 using same_queue_trans same_queue_put same_queue_intent_job by blast+
  then show ?thesis using queue_run_reroute [OF 1] queue_run_other queue_run_trans by metis
qed

subsection \<open>The queue leaves the catalogue alone\<close>

definition same_catalog :: "db \<Rightarrow> db \<Rightarrow> bool" where
  "same_catalog d d' = (intents d' = intents d \<and> intent_seq d' = intent_seq d \<and> plans d' = plans d \<and>
     releases d' = releases d \<and> artifacts d' = artifacts d \<and> chapters d' = chapters d \<and>
     series_rows d' = series_rows d \<and> source_series d' = source_series d \<and> operations d' = operations d \<and>
     operation_seq d' = operation_seq d \<and> operation_series d' = operation_series d \<and> decisions d' = decisions d \<and>
     labels d' = labels d \<and> observations d' = observations d \<and> library d' = library d)"

lemma same_catalog_refl [simp]: "same_catalog d d"
  by (simp add: same_catalog_def)

lemma same_catalog_trans: "same_catalog d e \<Longrightarrow> same_catalog e f \<Longrightarrow> same_catalog d f"
  by (simp add: same_catalog_def)

lemma same_catalog_basic [simp]:
  "same_catalog d (put_job j d)" "same_catalog d (put_cycle c d)" "same_catalog d (notify_workers p d)"
  "same_catalog d (record_event j ty ow m dt d)" "same_catalog d (release_permits i d)"
  by (simp_all add: same_catalog_def put_job_def put_cycle_def notify_workers_def record_event_def
      release_permits_def)

lemma same_catalog_active_cycle: "same_catalog d (snd (active_cycle now d))"
  by (auto simp: same_catalog_def active_cycle_def put_cycle_def Let_def split: option.splits)

lemma same_catalog_add_units: "same_catalog d (add_cycle_units now n c d)"
  by (simp add: add_cycle_units_def split: option.splits)

lemma same_catalog_repool: "same_catalog d (snd (repool now pool e d))"
  using same_catalog_trans [OF same_catalog_basic(1,3)] by (simp add: repool_def Let_def)

lemma same_catalog_coalesce: "same_catalog d (snd (coalesce_job now a pool dump e d))"
  using same_catalog_trans [OF same_catalog_basic(1) same_catalog_add_units]
    same_catalog_trans [OF same_catalog_basic(3) same_catalog_basic(1)]
    same_catalog_trans [OF same_catalog_basic(3) same_catalog_trans [OF same_catalog_basic(1) same_catalog_add_units]]
  by (auto simp: coalesce_job_def Let_def split: option.splits prod.splits)

lemma same_catalog_enqueue:
  assumes "enqueue mv now a d = Inr (j, b, d')"
  shows "same_catalog d d'"
proof (cases "active_job (eq_kind a) (py_strip (eq_dedupe_key a)) d")
  case None
  then obtain p where new: "enqueue_new now a (py_strip (eq_dedupe_key a)) p d = Inr (j, b, d')"
    using assms by (auto simp: enqueue_def Let_def bind_result_eq_Inr split: if_splits)
  obtain c d1 where ac: "active_cycle now d = (c, d1)" by (cases "active_cycle now d")
  have "same_catalog d1 d'"
    using new ac by (auto simp: enqueue_new_def Let_def insert_job_def same_catalog_def put_cycle_def
        notify_workers_def record_event_def split: sum.splits option.splits if_splits)
  then show ?thesis using same_catalog_active_cycle [of d now] ac same_catalog_trans by simp
next
  case (Some e)
  then obtain p where "d' = snd (enqueue_existing now a p e d)"
    using assms by (auto simp: enqueue_def Let_def bind_result_eq_Inr split_beta split: if_splits)
  then show ?thesis
    using same_catalog_trans [OF same_catalog_repool same_catalog_coalesce] same_catalog_repool
    by (simp add: enqueue_existing_def Let_def split_beta)
qed

end
