(* ===== verification/Download_Plan_Rows.thy ===== *)
theory Download_Plan_Rows
  imports Download_Plan_Facts
begin

text \<open>
  What the steps of a reconciliation do to the intent table: the rows that synchronisation adds,
  the rows that settling rewrites, and the loop that queues ready chapters within the rolling
  window.
\<close>

subsection \<open>The intent table\<close>

text \<open>Intent identifiers are unique and below the sequence.\<close>

definition intents_ok :: "db \<Rightarrow> bool" where
  "intents_ok d = (distinct (map int_id (intents d)) \<and> (\<forall>i \<in> set (intents d). int_id i < intent_seq d))"

lemma intents_put [simp]:
  "intents (put_intent i d) = put_row int_id i (intents d)" "intent_seq (put_intent i d) = intent_seq d"
  "intents (put_plan p d) = intents d" "intent_seq (put_plan p d) = intent_seq d"
  by (simp_all add: put_intent_def put_plan_def)

lemma intents_add [simp]:
  "intents (add_intent now plan pids c d) = intents d @ [\<lparr>int_id = intent_seq d,
     int_series_id = plan_series_id plan, int_chapter_id = ch_id c,
     int_tier = fst (initial_intent plan pids c),
     int_state = (if has_active_artifact (ch_id c) d then IntentSatisfied else snd (initial_intent plan pids c)),
     int_job_id = None, int_created_at = now, int_updated_at = now\<rparr>]"
  "intent_seq (add_intent now plan pids c d) = intent_seq d + 1"
  by (simp_all add: add_intent_def split_beta Let_def)

text \<open>Everything but the intents.\<close>

definition same_rest :: "db \<Rightarrow> db \<Rightarrow> bool" where
  "same_rest d d' = (same_queue d d' \<and> plans d' = plans d \<and> releases d' = releases d \<and>
     artifacts d' = artifacts d \<and> chapters d' = chapters d)"

lemma same_rest_refl [simp]: "same_rest d d"
  by (simp add: same_rest_def)

lemma same_rest_trans: "same_rest d e \<Longrightarrow> same_rest e f \<Longrightarrow> same_rest d f"
  by (auto simp: same_rest_def intro: same_queue_trans)

lemma same_rest_put [simp]: "same_rest d (put_intent i d)" "same_rest d (add_intent now plan pids c d)"
  by (simp_all add: same_rest_def put_intent_def same_queue_def add_intent_def split_beta Let_def)

lemma same_rest_fold:
  assumes "\<And>x e. same_rest e (f x e)"
  shows "same_rest d (fold f xs d)"
  by (induction xs arbitrary: d) (auto intro: same_rest_trans assms)

lemma same_rest_sync [simp]: "same_rest d (sync_chapters now plan d)"
  unfolding sync_chapters_def Let_def by (rule same_rest_fold) simp

lemma same_rest_put_intents [simp]: "same_rest d (put_intents rows d)"
  unfolding put_intents_def by (rule same_rest_fold) simp

lemma same_rest_artifact: "same_rest d d' \<Longrightarrow> has_active_artifact ch d' = has_active_artifact ch d"
  by (simp add: same_rest_def has_active_artifact_def)

subsection \<open>Synchronisation\<close>

text \<open>The row that synchronisation writes for a chapter without an intent.\<close>

definition fresh_intent :: "series_download_plan \<Rightarrow> int list \<Rightarrow> db \<Rightarrow> catalog_chapter \<Rightarrow> chapter_download_intent \<Rightarrow> bool" where
  "fresh_intent plan pids d c i = (int_series_id i = plan_series_id plan \<and> int_chapter_id i = ch_id c \<and>
     int_job_id i = None \<and> int_tier i = fst (initial_intent plan pids c) \<and>
     int_state i = (if has_active_artifact (ch_id c) d then IntentSatisfied else snd (initial_intent plan pids c)))"

lemma sync_fold:
  defines "f now plan pids ex \<equiv> \<lambda>c e. if ch_id c \<in> set ex then e else add_intent now plan pids c e"
  assumes "intents_ok d"
  shows "intents_ok (fold (f now plan pids ex) cs d) \<and>
    (\<exists>new. intents (fold (f now plan pids ex) cs d) = intents d @ new \<and>
       list_all2 (fresh_intent plan pids d) (filter (\<lambda>c. ch_id c \<notin> set ex) cs) new)"
  using assms(2)
proof (induction cs arbitrary: d)
  case Nil
  then show ?case by simp
next
  case (Cons c cs)
  show ?case
  proof (cases "ch_id c \<in> set ex")
    case True
    then show ?thesis using Cons by (simp add: f_def)
  next
    case False
    let ?e = "add_intent now plan pids c d"
    have "intents_ok ?e" using Cons.prems by (fastforce simp: intents_ok_def)
    note IH = Cons.IH [OF this]
    have "fresh_intent plan pids ?e = fresh_intent plan pids d"
      by (simp add: fresh_intent_def fun_eq_iff same_rest_artifact [OF same_rest_put(2)])
    moreover have fold_eq: "fold (f now plan pids ex) (c # cs) d = fold (f now plan pids ex) cs ?e"
      using False by (simp add: f_def)
    ultimately obtain new where new: "intents (fold (f now plan pids ex) (c # cs) d) = intents ?e @ new"
      "list_all2 (fresh_intent plan pids d) (filter (\<lambda>c. ch_id c \<notin> set ex) cs) new"
      using IH by (metis (no_types, lifting))
    obtain i where i: "intents ?e = intents d @ [i]" "fresh_intent plan pids d c i"
      by (simp add: fresh_intent_def)
    have "intents (fold (f now plan pids ex) (c # cs) d) = intents d @ (i # new)"
      using new(1) i(1) by simp
    moreover have "list_all2 (fresh_intent plan pids d) (filter (\<lambda>c. ch_id c \<notin> set ex) (c # cs)) (i # new)"
      using new(2) i(2) False by simp
    ultimately show ?thesis using IH fold_eq by metis
  qed
qed

lemma sync_spec:
  assumes "intents_ok d"
  shows "intents_ok (sync_chapters now plan d)"
    "\<exists>new. intents (sync_chapters now plan d) = intents d @ new \<and>
       list_all2 (fresh_intent plan (priority_ids (series_chapters (plan_series_id plan) d)) d)
         (filter (\<lambda>c. ch_id c \<notin> int_chapter_id ` set (series_intents (plan_series_id plan) d))
            (series_chapters (plan_series_id plan) d)) new"
  using sync_fold [OF assms, where now = now and plan = plan
      and pids = "priority_ids (series_chapters (plan_series_id plan) d)"
      and ex = "map int_chapter_id (series_intents (plan_series_id plan) d)"
      and cs = "series_chapters (plan_series_id plan) d"]
  unfolding sync_chapters_def Let_def set_map by blast+

lemma series_chapters_set: "set (series_chapters s d) = {c \<in> set (chapters d). ch_series_id c = s}"
  by (auto simp: series_chapters_def)

lemma sync_covers:
  assumes "intents_ok d" "c \<in> set (chapters d)" "ch_series_id c = plan_series_id plan"
  shows "\<exists>i \<in> set (series_intents (plan_series_id plan) (sync_chapters now plan d)). int_chapter_id i = ch_id c"
proof -
  let ?s = "plan_series_id plan"
  from sync_spec(2) [OF assms(1), of now plan] obtain new where
    new: "intents (sync_chapters now plan d) = intents d @ new"
      "list_all2 (fresh_intent plan (priority_ids (series_chapters ?s d)) d)
         (filter (\<lambda>c. ch_id c \<notin> int_chapter_id ` set (series_intents ?s d)) (series_chapters ?s d)) new"
    by blast
  show ?thesis
  proof (cases "ch_id c \<in> int_chapter_id ` set (series_intents ?s d)")
    case True
    then show ?thesis using new(1) by (auto simp: series_intents_def)
  next
    case False
    then have "c \<in> set (filter (\<lambda>c. ch_id c \<notin> int_chapter_id ` set (series_intents ?s d)) (series_chapters ?s d))"
      using assms by (simp add: series_chapters_set)
    then obtain i where "i \<in> set new" "fresh_intent plan (priority_ids (series_chapters ?s d)) d c i"
      using list_all2_in1 [OF new(2)] by blast
    then show ?thesis using new(1) by (auto simp: series_intents_def fresh_intent_def)
  qed
qed

lemma sync_nothing_new:
  assumes "\<forall>c \<in> set (chapters d). ch_series_id c = plan_series_id plan \<longrightarrow>
     ch_id c \<in> int_chapter_id ` set (series_intents (plan_series_id plan) d)"
  shows "sync_chapters now plan d = d"
proof -
  have "fold (\<lambda>c e. if ch_id c \<in> set ex then e else f c e) cs d = d" if "\<forall>c \<in> set cs. ch_id c \<in> set ex"
    for cs ex f and d :: db
    using that by (induction cs) auto
  moreover have "\<forall>c \<in> set (series_chapters (plan_series_id plan) d).
      ch_id c \<in> set (map int_chapter_id (series_intents (plan_series_id plan) d))"
    using assms by (auto simp: series_chapters_set)
  ultimately show ?thesis unfolding sync_chapters_def Let_def by blast
qed

subsection \<open>Settling\<close>

lemma settle_fields [simp]:
  "int_id (settle_intent now d i) = int_id i" "int_series_id (settle_intent now d i) = int_series_id i"
  "int_chapter_id (settle_intent now d i) = int_chapter_id i" "int_tier (settle_intent now d i) = int_tier i"
  by (simp_all add: settle_intent_def split: option.splits)

lemma release_backfill_fields [simp]:
  "int_id (release_backfill i) = int_id i" "int_series_id (release_backfill i) = int_series_id i"
  "int_chapter_id (release_backfill i) = int_chapter_id i" "int_tier (release_backfill i) = int_tier i"
  "int_job_id (release_backfill i) = int_job_id i" "finished (release_backfill i) = finished i"
  "queued_backfill (release_backfill i) = queued_backfill i"
  by (simp_all add: release_backfill_def finished_def queued_backfill_def)

text \<open>One function rewrites every row of the series.\<close>

definition settle_step :: "instant \<Rightarrow> db \<Rightarrow> series_download_plan \<Rightarrow> chapter_download_intent \<Rightarrow> chapter_download_intent" where
  "settle_step now d plan i =
     (if priority_done plan (settled now (plan_series_id plan) d) then release_backfill (settle_intent now d i)
      else settle_intent now d i)"

lemma settle_step_fields [simp]:
  "int_id (settle_step now d plan i) = int_id i" "int_series_id (settle_step now d plan i) = int_series_id i"
  "int_chapter_id (settle_step now d plan i) = int_chapter_id i" "int_tier (settle_step now d plan i) = int_tier i"
  by (simp_all add: settle_step_def)

lemma advance_rows:
  assumes "advance_phase plan (settled now series d) = (plan1, rows)" "plan_series_id plan = series"
  shows "rows = map (settle_step now d plan) (sort_key int_id (series_intents series d))"
    "plan_series_id plan1 = series" "plan_status_of plan1 = plan_status_of plan"
    "plan_created_at plan1 = plan_created_at plan"
  using assms by (auto simp: advance_phase_def settle_step_def settled_def split: if_splits)

lemma put_intents_spec:
  assumes ok: "intents_ok d" and id: "\<And>i. int_id (g i) = int_id i"
    and e_def: "e = put_intents (map g (sort_key int_id (series_intents s d))) d"
  shows "intents e = map (\<lambda>i. if int_series_id i = s then g i else i) (intents d)" "intents_ok e"
proof -
  have "intents (fold put_intent rows x) = fold (put_row int_id) rows (intents x)" for rows x
    by (induction rows arbitrary: x) simp_all
  then have "intents e = fold (put_row int_id) (map g (sort_key int_id (series_intents s d))) (intents d)"
    by (simp only: e_def put_intents_def)
  also have "\<dots> = fold (\<lambda>i. put_row int_id (g i)) (sort_key int_id (series_intents s d)) (intents d)"
    by (simp only: fold_map o_def)
  also have "\<dots> = map (\<lambda>i. if i \<in> set (sort_key int_id (series_intents s d)) then g i else i) (intents d)"
    using ok id by (intro fold_put_row) (auto simp: intents_ok_def series_intents_def)
  finally show eq: "intents e = map (\<lambda>i. if int_series_id i = s then g i else i) (intents d)"
    by (simp add: series_intents_def)
  have "intent_seq (fold put_intent rows x) = intent_seq x" for rows x
    by (induction rows arbitrary: x) simp_all
  then have seq: "intent_seq e = intent_seq d" by (simp add: e_def put_intents_def)
  have "map int_id (intents e) = map int_id (intents d)" by (simp add: eq id)
  moreover have "\<forall>i \<in> set (intents e). int_id i < intent_seq d" using ok by (auto simp: eq id intents_ok_def)
  ultimately show "intents_ok e" using ok by (simp add: intents_ok_def seq)
qed

subsection \<open>The queueing loop\<close>

text \<open>What the loop does to one row: nothing, or it flags a pending row, or it gives it a job.\<close>

definition ready_step :: "chapter_download_intent \<Rightarrow> chapter_download_intent \<Rightarrow> bool" where
  "ready_step i i' = (i' = i \<or> int_state i = IntentPending \<and>
     (i' = i\<lparr>int_state := IntentAttention\<rparr> \<or>
      (\<exists>job now. i' = i\<lparr>int_job_id := Some job, int_state := IntentQueued, int_updated_at := now\<rparr>)))"

lemma ready_step_refl [simp]: "ready_step i i"
  by (simp add: ready_step_def)

lemma ready_step_trans: "ready_step i j \<Longrightarrow> ready_step j k \<Longrightarrow> ready_step i k"
  by (auto simp: ready_step_def)

lemma ready_step_fields:
  assumes "ready_step i i'"
  shows "int_id i' = int_id i" "int_series_id i' = int_series_id i" "int_chapter_id i' = int_chapter_id i"
    "int_tier i' = int_tier i" "int_state i' = IntentBlocked \<longleftrightarrow> int_state i = IntentBlocked"
    "int_state i' = IntentSatisfied \<longleftrightarrow> int_state i = IntentSatisfied"
    "int_state i' = IntentCancelled \<longleftrightarrow> int_state i = IntentCancelled"
  using assms by (auto simp: ready_step_def)

definition backfill_load :: "int \<Rightarrow> db \<Rightarrow> int" where
  "backfill_load s d = int (length (filter queued_backfill (series_intents s d)))"

lemma backfill_load_sum:
  "backfill_load s d = sum_list (map (\<lambda>i. if int_series_id i = s \<and> queued_backfill i then 1 else 0) (intents d))"
proof -
  have "int (length (filter queued_backfill (filter (\<lambda>i. int_series_id i = s) xs))) =
      sum_list (map (\<lambda>i. if int_series_id i = s \<and> queued_backfill i then 1 else 0) xs)" for xs
    by (induction xs) simp_all
  then show ?thesis by (simp add: backfill_load_def series_intents_def)
qed

lemma backfill_load_put:
  assumes "intents_ok d" "i \<in> set (intents d)" "int_id i' = int_id i" "int_series_id i' = int_series_id i"
    "int_series_id i = s" "intents d' = put_row int_id i' (intents d)"
  shows "backfill_load s d' = backfill_load s d - (if queued_backfill i then 1 else 0) + (if queued_backfill i' then 1 else 0)"
proof -
  have "get_row int_id (int_id i') (intents d) = Some i"
    using assms get_row_distinct [of int_id "intents d" i] by (simp add: intents_ok_def)
  then show ?thesis
    using assms sum_put_row [of int_id "intents d" i' i] by (simp add: backfill_load_sum intents_ok_def)
qed

lemma put_row_step:
  assumes "intents_ok d" "i \<in> set (intents d)" "ready_step i i'" "intents d' = put_row int_id i' (intents d)"
  shows "list_all2 ready_step (intents d) (intents d')"
proof -
  have id: "int_id i' = int_id i" using ready_step_fields(1) [OF assms(3)] .
  have "k = i" if "k \<in> set (intents d)" "int_id k = int_id i" for k
    using assms(1,2) that get_row_distinct [of int_id "intents d"] unfolding intents_ok_def by (metis option.inject)
  then show ?thesis
    unfolding assms(4) put_row_def list_all2_map2 using assms(3) id by (auto intro!: list.rel_refl_strong)
qed

text \<open>One round: the intent is left alone, flagged, or queued with the count it adds.\<close>

lemma enqueue_intent_cases:
  assumes "enqueue_intent mv w now s i (n, d) = Inr (n', d')"
  obtains (kept) "n' = n" "d' = d" "int_state i \<noteq> IntentPending \<or> int_tier i = TierBackfill"
  | (flagged) "n' = n" "d' = put_intent (i\<lparr>int_state := IntentAttention\<rparr>) d" "int_state i = IntentPending"
  | (given) job d1 where "same_catalog d d1" "int_state i = IntentPending"
      "d' = put_intent (i\<lparr>int_job_id := Some job, int_state := IntentQueued, int_updated_at := now\<rparr>) d1"
      "n' = (if int_tier i = TierBackfill then n + 1 else n)" "int_tier i = TierBackfill \<longrightarrow> n < w"
proof (cases "int_state i \<noteq> IntentPending \<or> int_tier i = TierBackfill \<and> w \<le> n")
  case True
  then show ?thesis using assms kept by (auto simp: enqueue_intent_def split: if_splits)
next
  case False
  show ?thesis
  proof (cases "best_release now (int_chapter_id i) d")
    case None
    then show ?thesis using assms False flagged by (auto simp: enqueue_intent_def split: if_splits)
  next
    case (Some r)
    then obtain p j b d1 where "enqueue mv now p d = Inr (j, b, d1)"
      "d' = put_intent (i\<lparr>int_job_id := Some (job_id j), int_state := IntentQueued, int_updated_at := now\<rparr>) d1"
      "n' = (if int_tier i = TierBackfill then n + 1 else n)"
      using assms False by (auto simp: enqueue_intent_def bind_result_eq_Inr split: if_splits)
    then show ?thesis using False same_catalog_enqueue given by (metis linorder_not_le)
  qed
qed

lemma enqueue_intent_step:
  assumes step: "enqueue_intent mv w now s i (n, d) = Inr (n', d')"
    and ok: "intents_ok d" and i: "i \<in> set (intents d)" "int_series_id i = s"
  shows "intents_ok d'" "list_all2 ready_step (intents d) (intents d')"
    "n' - n = backfill_load s d' - backfill_load s d" "n' \<le> max n w"
    "\<And>k. k \<in> set (intents d) \<Longrightarrow> int_id k \<noteq> int_id i \<Longrightarrow> k \<in> set (intents d')"
    "plans d' = plans d" "artifacts d' = artifacts d" "chapters d' = chapters d"
proof -
  have "\<exists>i'. ready_step i i' \<and> intents d' = put_row int_id i' (intents d) \<and> intent_seq d' = intent_seq d \<and>
      n' - n = (if queued_backfill i' then 1 else 0) - (if queued_backfill i then 1 else 0) \<and> n' \<le> max n w \<and>
      plans d' = plans d \<and> artifacts d' = artifacts d \<and> chapters d' = chapters d"
    using step
  proof (cases rule: enqueue_intent_cases)
    case kept
    have "put_row int_id i (intents d) = intents d"
      using ok i(1) unfolding put_row_def intents_ok_def by (auto simp: distinct_map inj_on_def intro!: map_idI)
    then show ?thesis using kept by (intro exI [of _ i]) simp
  next
    case flagged
    then show ?thesis
      by (intro exI [of _ "i\<lparr>int_state := IntentAttention\<rparr>"])
        (simp add: ready_step_def queued_backfill_def put_intent_def)
  next
    case (given job d1)
    then show ?thesis
      by (intro exI [of _ "i\<lparr>int_job_id := Some job, int_state := IntentQueued, int_updated_at := now\<rparr>"])
        (auto simp: ready_step_def queued_backfill_def put_intent_def same_catalog_def)
  qed
  then obtain i' where i': "ready_step i i'" "intents d' = put_row int_id i' (intents d)" "intent_seq d' = intent_seq d"
    "n' - n = (if queued_backfill i' then 1 else 0) - (if queued_backfill i then 1 else 0)" "n' \<le> max n w"
    "plans d' = plans d" "artifacts d' = artifacts d" "chapters d' = chapters d"
    by blast
  note F = ready_step_fields [OF i'(1)]
  show "n' \<le> max n w" "plans d' = plans d" "artifacts d' = artifacts d" "chapters d' = chapters d"
    using i' by simp_all
  show "list_all2 ready_step (intents d) (intents d')" using ok i(1) i'(1,2) by (rule put_row_step)
  show "n' - n = backfill_load s d' - backfill_load s d"
    using backfill_load_put [OF ok i(1) F(1,2) i(2) i'(2)] i'(4) by simp
  show "k \<in> set (intents d')" if "k \<in> set (intents d)" "int_id k \<noteq> int_id i" for k
    using that in_put_row_other [of k "intents d" int_id i'] F(1) i'(2) by simp
  have "int_id k < intent_seq d" if "k \<in> set (intents d')" for k
    using in_put_rowD [OF that [unfolded i'(2)]] ok i(1) F(1) by (auto simp: intents_ok_def)
  then show "intents_ok d'" using ok by (simp add: intents_ok_def i'(2,3))
qed

lemma ready_rows_trans:
  "list_all2 ready_step xs ys \<Longrightarrow> list_all2 ready_step ys zs \<Longrightarrow> list_all2 ready_step xs zs"
  by (rule list_all2_trans [OF ready_step_trans])

lemma enqueue_loop_spec:
  assumes "fold_result (enqueue_intent mv w now s) xs (n, d) = Inr (n', d')"
    and "intents_ok d" "set xs \<subseteq> set (series_intents s d)" "distinct (map int_id xs)"
  shows "intents_ok d' \<and> list_all2 ready_step (intents d) (intents d') \<and>
    n' - n = backfill_load s d' - backfill_load s d \<and> n' \<le> max n w \<and>
    plans d' = plans d \<and> artifacts d' = artifacts d \<and> chapters d' = chapters d"
  using assms
proof (induction xs arbitrary: n d)
  case Nil
  then show ?case by (simp add: list.rel_refl)
next
  case (Cons i xs)
  obtain m e where me: "enqueue_intent mv w now s i (n, d) = Inr (m, e)"
    "fold_result (enqueue_intent mv w now s) xs (m, e) = Inr (n', d')"
    using Cons.prems(1) by (auto simp: bind_result_eq_Inr)
  have i: "i \<in> set (intents d)" "int_series_id i = s" using Cons.prems(3) by (auto simp: series_intents_def)
  note S = enqueue_intent_step [OF me(1) Cons.prems(2) i]
  have "set xs \<subseteq> set (series_intents s e)"
  proof
    fix k
    assume k: "k \<in> set xs"
    then have "int_id k \<noteq> int_id i"
      using Cons.prems(4) by (metis distinct.simps(2) imageI list.set_map list.simps(9))
    then show "k \<in> set (series_intents s e)" using S(5) [of k] k Cons.prems(3) by (auto simp: series_intents_def)
  qed
  note IH = Cons.IH [OF me(2) S(1) this]
  have "distinct (map int_id xs)" using Cons.prems(4) by simp
  note IH = IH [OF this]
  then show ?case using S ready_rows_trans [OF S(2)] by auto
qed

lemma ready_rows_filter:
  "list_all2 ready_step xs ys \<Longrightarrow>
     list_all2 ready_step (filter (\<lambda>i. int_series_id i = s) xs) (filter (\<lambda>i. int_series_id i = s) ys)"
  by (induction rule: list_all2_induct) (auto dest: ready_step_fields(2))

lemma length_filter_sort: "length (filter P (sort_key f xs)) = length (filter P xs)"
  by (simp add: filter_sort)

lemma series_intents_map:
  "intents e = map (\<lambda>i. if int_series_id i = s then g i else i) (intents d) \<Longrightarrow> (\<And>i. int_series_id (g i) = int_series_id i) \<Longrightarrow>
     series_intents s e = map g (series_intents s d)"
  unfolding series_intents_def by (simp add: filter_map o_def cong: if_cong)

text \<open>One reconciliation of an active plan, as a whole.\<close>

lemma reconcile_spec:
  assumes rec: "reconcile mv w now s d = Inr (po, d')" and plan: "find_plan s d = Some plan" "plan_status_of plan = PlanActive"
    and ok: "intents_ok d"
  defines "d1 \<equiv> sync_chapters now plan d"
  obtains e plan1 where "series_intents s e = map (settle_step now d1 plan) (series_intents s d1)" "intents_ok d'"
    "list_all2 ready_step (series_intents s e) (series_intents s d')" "backfill_load s d' \<le> max (backfill_load s e) w"
    "plan1 = (if priority_done plan (settled now s d1) then plan\<lparr>plan_phase_of := PhaseBackfill\<rparr> else plan)"
    "po = Some (close_plan now plan1 (series_intents s d'))"
    "find_plan s d' = po" "chapters d' = chapters d" "artifacts d' = artifacts d"
proof -
  obtain plan1 rows n d2 where r: "advance_phase plan (settled now s d1) = (plan1, rows)"
    "enqueue_ready mv w now s rows (put_intents rows d1) = Inr (n, d2)"
    "po = Some (close_plan now plan1 (series_intents s d2))" "d' = put_plan (close_plan now plan1 (series_intents s d2)) d2"
    using reconcile_InrD [OF rec plan] unfolding d1_def by metis
  have sid: "plan_series_id plan = s" using plan(1) by (auto dest: get_row_SomeD)
  note A = advance_rows [OF r(1) sid]
  have ok1: "intents_ok d1" unfolding d1_def using ok by (rule sync_spec(1))
  define e where "e = put_intents rows d1"
  note P = put_intents_spec [OF ok1 settle_step_fields(1) e_def [unfolded A(1)]]
  have si: "series_intents s e = map (settle_step now d1 plan) (series_intents s d1)"
    using P(1) by (rule series_intents_map) simp
  have set_eq: "set (sort_key intent_order rows) = set (series_intents s e)" by (simp add: A(1) si)
  have n: "int (length (filter queued_backfill rows)) = backfill_load s e"
    by (simp add: A(1) backfill_load_def si filter_map length_filter_sort)
  have "distinct (map int_id (series_intents s e))"
    using P(2) by (simp add: intents_ok_def series_intents_def distinct_map_filter)
  then have dist: "distinct (map int_id (sort_key intent_order rows))"
    by (simp add: A(1) si distinct_map o_def inj_on_def) (metis settle_step_fields(1))
  have "fold_result (enqueue_intent mv w now s) (sort_key intent_order rows) (backfill_load s e, e) = Inr (n, d2)"
    using r(2) by (simp add: enqueue_ready_def n e_def)
  note L = enqueue_loop_spec [OF this P(2) equalityD1 [OF set_eq] dist]
  have rest: "same_rest d e"
    unfolding e_def d1_def using same_rest_trans same_rest_sync same_rest_put_intents by blast
  have si': "series_intents s d' = series_intents s d2" by (simp add: r(4) series_intents_def)
  have "list_all2 ready_step (series_intents s e) (series_intents s d')"
    using L by (simp add: r(4) series_intents_def ready_rows_filter)
  moreover have "find_plan s d' = po"
  proof -
    have "find_plan s d2 = Some plan" using L rest plan(1) by (simp add: same_rest_def)
    moreover have "plan_series_id (close_plan now plan1 (series_intents s d2)) = s"
      using A(2) by (simp add: close_plan_def Let_def)
    ultimately show ?thesis by (simp add: r(3,4) put_plan_def get_put_row_same)
  qed
  moreover have "chapters d' = chapters d" "artifacts d' = artifacts d"
    using L rest by (simp_all add: r(4) put_plan_def same_rest_def)
  moreover have "backfill_load s d' \<le> max (backfill_load s e) w"
    using L si' by (simp add: backfill_load_def)
  moreover have "intents_ok d'" using L by (simp add: r(4) intents_ok_def)
  moreover have "po = Some (close_plan now plan1 (series_intents s d'))" by (simp add: r(3) si')
  moreover have "plan1 = (if priority_done plan (settled now s d1) then plan\<lparr>plan_phase_of := PhaseBackfill\<rparr> else plan)"
    using r(1) by (auto simp: advance_phase_def split: if_splits)
  ultimately show ?thesis using that si by blast
qed

end
