(* ===== verification/Download_Demo.thy ===== *)
theory Download_Demo
  imports Download_Plan_Rows
begin

text \<open>
  A small catalogue on which the properties of the download coordinator are evaluated: one
  tracked series with five chapters, every chapter released by two providers.
\<close>

definition demo_chapter :: "int \<Rightarrow> catalog_chapter" where
  "demo_chapter n = \<lparr>ch_id = n, ch_series_id = 1, ch_canonical_number = str_of_int n,
     ch_display_number = str_of_int n, ch_title = [], ch_sort_number = Some (of_int n), ch_created_at = 0,
     ch_updated_at = 0\<rparr>"

definition demo_release :: "int \<Rightarrow> int \<Rightarrow> string \<Rightarrow> catalog_chapter_release" where
  "demo_release i n src =
     \<lparr>rel_id = i, rel_chapter_id = n, rel_source_series_id = 1, rel_source = src,
      rel_source_release_id = str_of_int n, rel_published_at = None, rel_first_seen_at = 0, rel_downloadable_after = None, rel_quality_rank = 0,
      rel_title = [], rel_url = []\<rparr>"

definition demo_catalog :: db where
  "demo_catalog = empty_db\<lparr>series_rows := [(new_catalog_series 1 ''k1'' ''Demo'')\<lparr>ser_status := Reading\<rparr>],
     chapters := map demo_chapter [1, 2, 3, 4, 5],
     releases := map (\<lambda>n. demo_release n n ''mangadex'') [1, 2, 3, 4, 5] @
                 map (\<lambda>n. demo_release (n + 5) n ''mangafire'') [1, 2, 3, 4, 5]\<rparr>"

definition demo_tracked :: db where
  "demo_tracked = (case track strict_validate 20 1000 1 demo_catalog of Inl _ \<Rightarrow> demo_catalog | Inr (_, d) \<Rightarrow> d)"

definition ids_below_seq :: "db \<Rightarrow> bool" where
  "ids_below_seq d = (distinct (map int_id (intents d)) \<and> list_all (\<lambda>i. int_id i < intent_seq d) (intents d))"

lemma demo_ids: "ids_below_seq demo_tracked"
  by code_simp

lemma demo_tracked_intents: "intents_ok demo_tracked"
  using demo_ids by (simp add: ids_below_seq_def intents_ok_def list_all_iff)

lemma demo_tracked_plan:
  "case find_plan 1 demo_tracked of None \<Rightarrow> False
   | Some p \<Rightarrow> plan_status_of p = PlanActive \<and> plan_phase_of p = PhasePriority"
  by code_simp

lemma demo_tracked_states:
  "map (\<lambda>i. (int_chapter_id i, int_tier i, int_state i)) (series_intents 1 demo_tracked) =
     [(1, TierPriority, IntentQueued), (2, TierPriority, IntentQueued), (3, TierBackfill, IntentBlocked),
      (4, TierPriority, IntentQueued), (5, TierPriority, IntentQueued)]"
  by code_simp

end
