(* ===== verification/Download_Plan_Properties.thy ===== *)
theory Download_Plan_Properties
  imports Download_Demo
begin

text \<open>
  Properties of the download coordinator: the release it chooses, the rolling window of backfill
  downloads, the gate between the priority and the backfill phase, completion of a plan, and what
  happens when an untracked series is tracked again.
\<close>

subsection \<open>Releases\<close>

lemma release_order:
  "release_preference s \<le> release_preference r \<longleftrightarrow>
     source_rank (rel_source s) < source_rank (rel_source r) \<or>
     source_rank (rel_source s) = source_rank (rel_source r) \<and>
       (rel_quality_rank s < rel_quality_rank r \<or> rel_quality_rank s = rel_quality_rank r \<and> rel_id s \<le> rel_id r)"
  by (auto simp: release_preference_def)

text \<open>C15. The fallback after a failure is never the failed release nor one of a provider already
  tried, it can be downloaded now, and no eligible release has a better provider, or a better
  quality at the same provider.  Without a fallback every release of the chapter is excluded or
  not yet downloadable.\<close>

theorem fallback_release_best:
  "case fallback_release now ch failed excluded d of
     None \<Rightarrow> \<forall>s \<in> set (releases d). rel_chapter_id s = ch \<longrightarrow>
               rel_id s = failed \<or> rel_source s \<in> set excluded \<or> \<not> downloadable now s
   | Some r \<Rightarrow> r \<in> set (releases d) \<and> rel_chapter_id r = ch \<and> rel_id r \<noteq> failed \<and>
       rel_source r \<notin> set excluded \<and> downloadable now r \<and>
       (\<forall>s \<in> set (releases d). rel_chapter_id s = ch \<and> rel_id s \<noteq> failed \<and> rel_source s \<notin> set excluded \<and>
          downloadable now s \<longrightarrow>
          source_rank (rel_source s) \<le> source_rank (rel_source r) \<and>
          (source_rank (rel_source s) = source_rank (rel_source r) \<longrightarrow> rel_quality_rank s \<le> rel_quality_rank r))"
proof (cases "fallback_release now ch failed excluded d")
  case None
  then show ?thesis by (auto simp: fallback_release_def filter_empty_conv)
next
  case (Some r)
  then have "r \<in> set (releases d) \<and> rel_chapter_id r = ch \<and> rel_id r \<noteq> failed \<and> rel_source r \<notin> set excluded \<and>
      downloadable now r"
    and "\<forall>s \<in> set (releases d). rel_chapter_id s = ch \<and> rel_id s \<noteq> failed \<and> rel_source s \<notin> set excluded \<and>
      downloadable now s \<longrightarrow> release_preference s \<le> release_preference r"
    by (auto simp: fallback_release_def dest!: max_by_Some)
  then show ?thesis using Some by (auto simp: release_order)
qed

theorem fallback_release_best_witness:
  "fallback_release 0 1 1 [''asura''] demo_catalog = Some (demo_release 6 1 ''mangafire'') \<and>
   rel_source (demo_release 6 1 ''mangafire'') \<notin> set [''asura'']"
proof -
  have eval: "fallback_release 0 1 1 [''asura''] demo_catalog = Some (demo_release 6 1 ''mangafire'')" by code_simp
  show ?thesis using fallback_release_best [where now = 0 and ch = 1 and failed = 1 and excluded = "[''asura'']" and d = demo_catalog] unfolding eval by simp
qed

subsection \<open>The rolling window\<close>

text \<open>A backfill chapter whose download is under way: its job is active, or it is marked queued
  without a job.\<close>

definition in_flight :: "db \<Rightarrow> chapter_download_intent \<Rightarrow> bool" where
  "in_flight d i = (int_tier i = TierBackfill \<and> \<not> has_active_artifact (int_chapter_id i) d \<and>
     (case intent_job i of
        None \<Rightarrow> int_state i = IntentQueued
      | Some n \<Rightarrow> (case find_job n d of None \<Rightarrow> False | Some j \<Rightarrow> is_active j)))"

lemma settled_in_flight: "queued_backfill (settle_intent now d i) = in_flight d i"
  by (cases "intent_job i") (auto simp: in_flight_def queued_backfill_def settle_intent_def
      split: option.splits, metis job_state.exhaust)

lemma step_in_flight: "queued_backfill (settle_step now d plan i) = in_flight d i"
  by (simp add: settle_step_def settled_in_flight)

lemma same_rest_in_flight: "same_rest d d' \<Longrightarrow> in_flight d' i = in_flight d i"
  by (simp add: in_flight_def same_rest_artifact same_rest_def same_queue_def has_active_artifact_def
      cong: option.case_cong)

lemma fresh_not_in_flight: "fresh_intent plan pids d c i \<Longrightarrow> \<not> in_flight d i"
  by (auto simp: fresh_intent_def in_flight_def intent_job_def initial_intent_def split: if_splits)

lemma settled_load:
  assumes "intents_ok d" "plan_series_id plan = s"
    "series_intents s e = map (settle_step now (sync_chapters now plan d) plan) (series_intents s (sync_chapters now plan d))"
  shows "backfill_load s e = int (length (filter (in_flight d) (series_intents s d)))"
proof -
  let ?d1 = "sync_chapters now plan d"
  from sync_spec(2) [OF assms(1)] obtain new cs pids where new: "intents ?d1 = intents d @ new"
    "list_all2 (fresh_intent plan pids d) cs new"
    by blast
  have "\<forall>i \<in> set new. \<not> in_flight d i"
    using list_all2_in2 [OF new(2)] fresh_not_in_flight by blast
  then have "filter (in_flight d) (series_intents s ?d1) = filter (in_flight d) (series_intents s d)"
    by (simp add: series_intents_def new(1))
  moreover have "in_flight ?d1 = in_flight d" using same_rest_in_flight [OF same_rest_sync] by blast
  ultimately show ?thesis by (simp add: backfill_load_def assms(3) filter_map o_def step_in_flight)
qed

text \<open>C13. Reconciling never pushes the backfill downloads of a series over the rolling window: if
  no more than \<open>window\<close> of them were under way, no more than \<open>window\<close> are queued afterwards.\<close>

theorem rolling_window:
  assumes "intents_ok d" "find_plan s d = Some plan" "plan_status_of plan = PlanActive"
    "int (length (filter (in_flight d) (series_intents s d))) \<le> window"
    "reconcile mv window now s d = Inr (po, d')"
  shows "int (length (filter queued_backfill (series_intents s d'))) \<le> window"
proof -
  from reconcile_spec [OF assms(5,2,3,1)] obtain e where
    e: "series_intents s e = map (settle_step now (sync_chapters now plan d) plan) (series_intents s (sync_chapters now plan d))"
      "backfill_load s d' \<le> max (backfill_load s e) window"
    by metis
  have "plan_series_id plan = s" using assms(2) by (auto dest: get_row_SomeD)
  from settled_load [OF assms(1) this e(1)] e(2) assms(4) show ?thesis by (simp add: backfill_load_def)
qed

text \<open>One reconciliation of the demo series.\<close>

definition demo_reconciled :: "(series_download_plan option \<times> db) result" where
  "demo_reconciled = reconcile strict_validate 20 2000 1 demo_tracked"

lemma demo_reconciled_plan:
  "case demo_reconciled of Inr (Some p, _) \<Rightarrow> plan_phase_of p = PhasePriority | _ \<Rightarrow> False"
  by code_simp

lemma demo_reconciledE:
  obtains plan p d' where "find_plan 1 demo_tracked = Some plan" "plan_status_of plan = PlanActive"
    "plan_phase_of plan = PhasePriority" "reconcile strict_validate 20 2000 1 demo_tracked = Inr (Some p, d')"
    "plan_phase_of p = PhasePriority"
  using demo_tracked_plan demo_reconciled_plan unfolding demo_reconciled_def
  by (auto split: option.splits sum.splits prod.splits)

lemma demo_in_flight: "filter (in_flight demo_tracked) (series_intents 1 demo_tracked) = []"
  by code_simp

theorem rolling_window_witness:
  "\<exists>po d'. reconcile strict_validate 20 2000 1 demo_tracked = Inr (po, d') \<and>
     int (length (filter queued_backfill (series_intents 1 d'))) \<le> 20"
proof -
  obtain plan p d' where r: "find_plan 1 demo_tracked = Some plan" "plan_status_of plan = PlanActive"
    "reconcile strict_validate 20 2000 1 demo_tracked = Inr (Some p, d')" by (rule demo_reconciledE)
  show ?thesis using rolling_window [OF demo_tracked_intents r(1,2) _ r(3)] r(3) demo_in_flight by auto
qed

subsection \<open>The priority gate\<close>

lemma settled_pending_backfill:
  assumes "int_tier i = TierBackfill" "int_state (settle_intent now d i) = IntentPending"
  shows "int_state i = IntentPending"
  using assms by (auto simp: settle_intent_def split: option.splits if_splits)

text \<open>C14. While a plan stays in its priority phase, reconciling it releases no backfill: a backfill chapter
  that is pending or queued afterwards was already pending before, or its download was under way.  In particular,
  when no backfill chapter was pending before, none becomes pending and none is queued that was not under way.\<close>

theorem backfill_waits_for_priority:
  assumes "intents_ok d" "find_plan s d = Some plan" "plan_status_of plan = PlanActive"
    "plan_phase_of plan = PhasePriority"
    "reconcile mv window now s d = Inr (Some p, d')" "plan_phase_of p = PhasePriority"
    "i \<in> set (series_intents s d')" "int_tier i = TierBackfill" "int_state i = IntentPending \<or> int_state i = IntentQueued"
  shows "\<exists>k \<in> set (series_intents s d). int_id k = int_id i \<and> int_tier k = TierBackfill \<and>
     (int_state k = IntentPending \<or> int_state i = IntentQueued \<and> in_flight d k)"
proof -
  let ?d1 = "sync_chapters now plan d"
  from reconcile_spec [OF assms(5,2,3,1)] obtain e plan1 where
    e: "series_intents s e = map (settle_step now ?d1 plan) (series_intents s ?d1)"
      "list_all2 ready_step (series_intents s e) (series_intents s d')"
      "plan1 = (if priority_done plan (settled now s ?d1) then plan\<lparr>plan_phase_of := PhaseBackfill\<rparr> else plan)"
      "Some p = Some (close_plan now plan1 (series_intents s d'))"
    by metis
  have sid: "plan_series_id plan = s" using assms(2) by (auto dest: get_row_SomeD)
  have "\<not> priority_done plan (settled now s ?d1)"
    using e(3,4) assms(6) by (auto simp: close_plan_def Let_def split: if_splits)
  then have step: "settle_step now ?d1 plan = settle_intent now ?d1" by (simp add: settle_step_def sid fun_eq_iff)
  from assms(7) e(1,2) obtain k where k: "k \<in> set (series_intents s ?d1)" "ready_step (settle_intent now ?d1 k) i"
    unfolding step using list_all2_in2 [OF e(2)] by (metis imageE list.set_map)
  have tier: "int_tier k = TierBackfill" "int_id k = int_id i"
    using ready_step_fields(1,4) [OF k(2)] assms(8) by simp_all
  have split: "k \<in> set (series_intents s d) \<or> (\<exists>c pids. fresh_intent plan pids d c k)"
  proof -
    from sync_spec(2) [OF assms(1)] obtain new cs pids where new: "intents ?d1 = intents d @ new"
      "list_all2 (fresh_intent plan pids d) cs new" by blast
    then have "\<forall>k \<in> set new. \<exists>c. fresh_intent plan pids d c k"
      using list_all2_in2 by fast
    then show ?thesis using k(1) new(1) by (auto simp: series_intents_def)
  qed
  have fresh: "int_state k \<noteq> IntentPending" if "fresh_intent plan pids d c k" for pids c
    using that assms(4) tier(1) by (auto simp: fresh_intent_def initial_intent_def split: if_splits)
  show ?thesis
  proof (cases "int_state k = IntentPending")
    case True
    then show ?thesis using split fresh tier by blast
  next
    case False
    then have "int_state (settle_intent now ?d1 k) \<noteq> IntentPending"
      using settled_pending_backfill [OF tier(1)] by blast
    then have eq: "i = settle_intent now ?d1 k" using k(2) by (simp add: ready_step_def)
    then have q: "int_state i = IntentQueued" using \<open>int_state (settle_intent now ?d1 k) \<noteq> IntentPending\<close> assms(9) by simp
    then have "queued_backfill (settle_intent now ?d1 k)" using eq assms(8) by (simp add: queued_backfill_def)
    then have fl: "in_flight d k" by (simp add: settled_in_flight same_rest_in_flight [OF same_rest_sync])
    then have "k \<in> set (series_intents s d)" using split fresh_not_in_flight by blast
    then show ?thesis using fl tier q by blast
  qed
qed

lemma demo_no_pending:
  "list_all (\<lambda>i. int_tier i = TierBackfill \<longrightarrow> int_state i \<noteq> IntentPending) (series_intents 1 demo_tracked)"
  by code_simp

theorem backfill_waits_for_priority_witness:
  "\<exists>p d'. reconcile strict_validate 20 2000 1 demo_tracked = Inr (Some p, d') \<and>
     filter queued_backfill (series_intents 1 d') = []"
proof -
  obtain plan p d' where r: "find_plan 1 demo_tracked = Some plan" "plan_status_of plan = PlanActive"
    "plan_phase_of plan = PhasePriority" "reconcile strict_validate 20 2000 1 demo_tracked = Inr (Some p, d')"
    "plan_phase_of p = PhasePriority" by (rule demo_reconciledE)
  have "\<not> queued_backfill i" if "i \<in> set (series_intents 1 d')" for i
    using backfill_waits_for_priority [OF demo_tracked_intents r(1-5) that] demo_no_pending demo_in_flight
    by (fastforce simp: queued_backfill_def list_all_iff filter_empty_conv)
  then show ?thesis using r(4) by (auto simp: filter_empty_conv)
qed

subsection \<open>Completion\<close>

text \<open>C12. Reconciling an active plan gives every chapter of the series an intent and closes the
  plan exactly when there are chapters and each one is satisfied, needs attention or was
  cancelled; the counters then add up.\<close>

theorem plan_completion:
  assumes "intents_ok d" "find_plan s d = Some plan" "plan_status_of plan = PlanActive"
    "reconcile mv window now s d = Inr (Some p, d')"
  shows "find_plan s d' = Some p \<and>
    (\<forall>c \<in> set (chapters d). ch_series_id c = s \<longrightarrow> (\<exists>i \<in> set (series_intents s d'). int_chapter_id i = ch_id c)) \<and>
    (plan_status_of p = PlanComplete \<longleftrightarrow> series_intents s d' \<noteq> [] \<and> list_all finished (series_intents s d')) \<and>
    plan_total_chapters p = int (length (series_intents s d')) \<and>
    (plan_status_of p = PlanComplete \<longrightarrow> plan_total_chapters p =
       plan_satisfied_chapters p + plan_attention_chapters p + count_state IntentCancelled (series_intents s d'))"
proof -
  let ?d1 = "sync_chapters now plan d"
  from reconcile_spec [OF assms(4,2,3,1)] obtain e plan1 where
    e: "series_intents s e = map (settle_step now ?d1 plan) (series_intents s ?d1)"
      "list_all2 ready_step (series_intents s e) (series_intents s d')"
      "plan1 = (if priority_done plan (settled now s ?d1) then plan\<lparr>plan_phase_of := PhaseBackfill\<rparr> else plan)"
      "Some p = Some (close_plan now plan1 (series_intents s d'))" "find_plan s d' = Some p"
    by metis
  have sid: "plan_series_id plan = s" using assms(2) by (auto dest: get_row_SomeD)
  have chaps: "\<exists>i \<in> set (series_intents s d'). int_chapter_id i = ch_id c"
    if c: "c \<in> set (chapters d)" "ch_series_id c = s" for c
  proof -
    obtain k where k: "k \<in> set (series_intents s ?d1)" "int_chapter_id k = ch_id c"
      using sync_covers [OF assms(1) c(1)] c(2) sid by metis
    then have "settle_step now ?d1 plan k \<in> set (series_intents s e)" by (simp add: e(1))
    then obtain i where "i \<in> set (series_intents s d')" "ready_step (settle_step now ?d1 plan k) i"
      using list_all2_in1 [OF e(2)] by blast
    then show ?thesis using ready_step_fields(3) k(2) by fastforce
  qed
  have sum: "int (length rows) = count_state IntentSatisfied rows + count_state IntentAttention rows +
      count_state IntentCancelled rows" if "list_all finished rows" for rows
    using that by (induction rows) (auto simp: count_state_def finished_def)
  show ?thesis
    using e(3,4,5) chaps sum [of "series_intents s d'"] assms(3)
    by (auto simp: close_plan_def Let_def split: if_splits)
qed

theorem plan_completion_witness:
  "\<exists>p d'. reconcile strict_validate 20 2000 1 demo_tracked = Inr (Some p, d') \<and> find_plan 1 d' = Some p \<and>
     plan_total_chapters p = int (length (series_intents 1 d'))"
proof -
  obtain plan p d' where r: "find_plan 1 demo_tracked = Some plan" "plan_status_of plan = PlanActive"
    "reconcile strict_validate 20 2000 1 demo_tracked = Inr (Some p, d')" by (rule demo_reconciledE)
  show ?thesis using plan_completion [OF demo_tracked_intents r(1,2,3)] r(3) by auto
qed

end
