(* ===== verification/Download_Retrack.thy ===== *)
theory Download_Retrack
  imports Download_Demo
begin

text \<open>
  Untracking a series and tracking it again.  Untracking cancels the open intents and the waiting
  jobs; tracking again reopens the plan, but no code resets a cancelled intent, so the plan is
  completed at once and nothing is downloaded.
\<close>

subsection \<open>Cancelling\<close>





subsection \<open>Idle intents\<close>





















subsection \<open>Tracking again\<close>









end
