(* ===== verification/Job_Retention.thy ===== *)
theory Job_Retention
  imports Queue_Demo "HOL-Library.AList" "HOL-Library.Multiset"
begin

text \<open>
  \<^verbatim>\<open>application/job_retention.py\<close>: finished jobs older than two weeks are folded into
  daily aggregates and deleted; aggregates are kept for a year, settled cycles without jobs for
  thirty days.  The statements run in one transaction without autoflush, so that the deletion of
  old aggregates is executed before the new aggregates are inserted.  Deleting a job cascades to
  its permits, its reservation and its events; other references to it become null.
\<close>

subsection \<open>Buckets\<close>

type_synonym bucket_key = "instant \<times> job_kind \<times> string \<times> job_state \<times> string"
type_synonym bucket = "int \<times> int \<times> int"

definition completed_or_updated :: "work_job \<Rightarrow> instant" where
  "completed_or_updated j = (case job_completed_at j of Some t \<Rightarrow> t | None \<Rightarrow> job_updated_at j)"

definition midnight :: "instant \<Rightarrow> instant" where
  "midnight t = t - t mod days 1"

definition bucket_key :: "work_job \<Rightarrow> bucket_key" where
  "bucket_key j = (midnight (completed_or_updated j), job_kind_of j, job_source j, job_status j, job_error_code j)"

definition bucket_value :: "work_job \<Rightarrow> bucket" where
  "bucket_value j = (1, job_attempts j, max ((completed_or_updated j - job_created_at j) div 1000000) 0)"

definition add_bucket :: "bucket \<Rightarrow> bucket \<Rightarrow> bucket" where
  "add_bucket v w = (case v of (a, b, c) \<Rightarrow> case w of (a', b', c') \<Rightarrow> (a' + a, b' + b, c' + c))"

definition buckets_of :: "work_job list \<Rightarrow> (bucket_key \<times> bucket) list" where
  "buckets_of rows = fold (\<lambda>j. AList.map_default (bucket_key j) (bucket_value j) (add_bucket (bucket_value j))) rows []"

subsection \<open>Aggregates\<close>

definition agg_key :: "job_daily_aggregate \<Rightarrow> bucket_key" where
  "agg_key a = (agg_day a, agg_kind a, agg_source a, agg_status a, agg_error_code a)"

definition new_aggregate :: "instant \<Rightarrow> bucket_key \<Rightarrow> job_daily_aggregate" where
  "new_aggregate now k = (case k of (day, kind, src, status, code) \<Rightarrow>
     \<lparr>agg_day = day, agg_kind = kind, agg_source = src, agg_status = status, agg_error_code = code,
      agg_job_count = 0, agg_attempt_count = 0, agg_duration_seconds = 0, agg_updated_at = now\<rparr>)"

definition bump :: "instant \<Rightarrow> bucket \<Rightarrow> job_daily_aggregate \<Rightarrow> job_daily_aggregate" where
  "bump now v a = (case v of (n, att, secs) \<Rightarrow>
     a\<lparr>agg_job_count := agg_job_count a + n, agg_attempt_count := agg_attempt_count a + att,
       agg_duration_seconds := agg_duration_seconds a + secs, agg_updated_at := now\<rparr>)"

definition updated_aggregates :: "instant \<Rightarrow> (bucket_key \<times> bucket) list \<Rightarrow> job_daily_aggregate list \<Rightarrow> job_daily_aggregate list" where
  "updated_aggregates now bs as =
     map (\<lambda>a. case map_of bs (agg_key a) of None \<Rightarrow> a | Some v \<Rightarrow> bump now v a) as"

definition fresh_aggregates :: "instant \<Rightarrow> (bucket_key \<times> bucket) list \<Rightarrow> job_daily_aggregate list \<Rightarrow> job_daily_aggregate list" where
  "fresh_aggregates now bs as =
     map (\<lambda>(k, v). bump now v (new_aggregate now k)) (filter (\<lambda>(k, v). k \<notin> set (map agg_key as)) bs)"

subsection \<open>Pruning\<close>

definition unlink :: "int list \<Rightarrow> int option \<Rightarrow> int option" where
  "unlink is r = (case r of None \<Rightarrow> None | Some i \<Rightarrow> if i \<in> set is then None else Some i)"

definition delete_jobs :: "int list \<Rightarrow> db \<Rightarrow> db" where
  "delete_jobs is d =
     d\<lparr>jobs := filter (\<lambda>j. job_id j \<notin> set is) (jobs d),
       permits := filter (\<lambda>p. prm_job_id p \<notin> set is) (permits d),
       reservations := filter (\<lambda>r. res_job_id r \<notin> set is) (reservations d),
       events := filter (\<lambda>e. ev_job_id e \<notin> set is) (events d),
       workers := map (\<lambda>w. w\<lparr>wh_active_job_id := unlink is (wh_active_job_id w)\<rparr>) (workers d),
       intents := map (\<lambda>i. i\<lparr>int_job_id := unlink is (int_job_id i)\<rparr>) (intents d),
       attempts_log := map (\<lambda>a. a\<lparr>att_job_id := unlink is (att_job_id a)\<rparr>) (attempts_log d),
       operations := map (\<lambda>m. m\<lparr>op_job_id := unlink is (op_job_id m)\<rparr>) (operations d)\<rparr>"

definition prunable :: "instant \<Rightarrow> work_job \<Rightarrow> bool" where
  "prunable now j =
     (let success_cutoff = now - days 14; failure_cutoff = now - days 14;
          before = (\<lambda>cutoff. case job_completed_at j of None \<Rightarrow> False | Some t \<Rightarrow> t < cutoff)
      in (job_status j = SUCCEEDED \<or> job_status j = CANCELLED) \<and> before success_cutoff \<or>
         job_status j = FAILED \<and> before failure_cutoff)"

definition prune_rows :: "instant \<Rightarrow> nat \<Rightarrow> int list \<Rightarrow> db \<Rightarrow> work_job list" where
  "prune_rows now batch locked d =
     take batch (sort_key (\<lambda>j. (completed_or_updated j, job_id j))
       (filter (\<lambda>j. prunable now j \<and> job_id j \<notin> set locked) (jobs d)))"

definition old_cycle :: "instant \<Rightarrow> work_job list \<Rightarrow> workload_cycle \<Rightarrow> bool" where
  "old_cycle now rows c =
     (cyc_status c = CycleSettled \<and>
      (case cyc_settled_at c of None \<Rightarrow> False | Some t \<Rightarrow> t < now - days 30) \<and>
      \<not> list_ex (\<lambda>j. job_cycle_id j = Some (cyc_id c)) rows)"

definition prune :: "instant \<Rightarrow> nat \<Rightarrow> int list \<Rightarrow> db \<Rightarrow> int \<times> db" where
  "prune now batch locked d =
     (let rows = prune_rows now batch locked d;
          bs = buckets_of rows;
          d1 = delete_jobs (map job_id rows) d;
          kept = filter (\<lambda>a. \<not> agg_day a < now - days 365) (updated_aggregates now bs (aggregates d))
      in (int (length rows),
          d1\<lparr>aggregates := kept @ fresh_aggregates now bs (aggregates d),
             cycles := filter (\<lambda>c. \<not> old_cycle now (jobs d1) c) (cycles d)\<rparr>))"

subsection \<open>The queue invariants survive\<close>

lemma prune_rows_in:
  assumes "j \<in> set (prune_rows now batch locked d)"
  shows "j \<in> set (jobs d)" "\<not> is_active j" "job_id j \<notin> set locked" "prunable now j"
    "\<exists>t. job_completed_at j = Some t \<and> t < now - days 14"
proof -
  from assms have j: "j \<in> set (jobs d)" "prunable now j" "job_id j \<notin> set locked"
    by (auto simp: prune_rows_def dest: in_set_takeD)
  then show "j \<in> set (jobs d)" "prunable now j" "job_id j \<notin> set locked" by simp_all
  show "\<not> is_active j" "\<exists>t. job_completed_at j = Some t \<and> t < now - days 14"
    using j(2) by (auto simp: prunable_def Let_def split: option.splits)
qed

text \<open>Removing rows that are not active.\<close>

lemma cycles_ok_filter:
  assumes c: "cycles_ok rs cs n" and inactive: "\<And>j. j \<in> set rs \<Longrightarrow> \<not> P j \<Longrightarrow> \<not> is_active j"
  shows "cycles_ok (filter P rs) (filter Q cs) n"
proof -
  have w: "open_units i (filter P rs) = open_units i rs" for i
    using inactive unfolding open_units_def
    by (induction rs) (auto simp: job_weight_def active_in_cycle_def)
  show ?thesis
    using c unfolding cycles_ok_def
    by (auto simp: cycle_ok_def w list_ex_iff distinct_map intro: inj_on_subset)
qed

lemma delete_jobs_inv:
  assumes inv: "queue_inv d" and inactive: "\<And>j. j \<in> set (jobs d) \<Longrightarrow> job_id j \<in> set is \<Longrightarrow> \<not> is_active j"
  shows "queue_inv (delete_jobs is d)"
proof (rule queue_invI)
  note I = queue_invD [OF inv]
  show "rows_ok (jobs (delete_jobs is d)) (job_seq (delete_jobs is d))"
    using I(1) by (auto simp: delete_jobs_def rows_ok_def distinct_map intro: inj_on_subset)
  show "unique_ok (jobs (delete_jobs is d))"
    using I(2) by (auto simp: delete_jobs_def unique_ok_def)
  show "permits_ok (jobs (delete_jobs is d)) (permits (delete_jobs is d))"
    using I(3) by (fastforce simp: delete_jobs_def permits_ok_def permit_of_def)
  show "cycles_ok (jobs (delete_jobs is d)) (cycles (delete_jobs is d)) (cycle_seq (delete_jobs is d))"
    using cycles_ok_filter [OF I(4), where P = "\<lambda>j. job_id j \<notin> set is" and Q = "\<lambda>_. True"] inactive
    by (simp add: delete_jobs_def)
qed

lemma pruned_iff:
  assumes inv: "queue_inv d" and j: "j \<in> set (jobs d)"
  shows "job_id j \<in> set (map job_id (prune_rows now batch locked d)) \<longleftrightarrow> j \<in> set (prune_rows now batch locked d)"
  using rows_ok_eq [OF queue_invD(1) [OF inv] j] prune_rows_in(1) by fastforce

lemma prune_inv:
  assumes inv: "queue_inv d"
  shows "queue_inv (snd (prune now batch locked d))"
proof -
  let ?is = "map job_id (prune_rows now batch locked d)"
  have "\<not> is_active j" if "j \<in> set (jobs d)" "job_id j \<in> set ?is" for j
    using that pruned_iff [OF inv] prune_rows_in(2) by blast
  then have d1: "queue_inv (delete_jobs ?is d)" using delete_jobs_inv [OF inv] by blast
  show ?thesis
    using queue_invD [OF d1] cycles_ok_filter [where P = "\<lambda>_. True" and rs = "jobs (delete_jobs ?is d)"]
    by (intro queue_invI) (simp_all add: prune_def Let_def delete_jobs_def)
qed

lemma active_permits_filter_le:
  fixes d :: db
  shows "active_permits t (d\<lparr>permits := filter P (permits d)\<rparr>) pool \<le> active_permits t d pool"
proof -
  have "length (filter Q (filter P ps)) \<le> length (filter Q ps)" for Q and ps :: "job_permit list"
    by (induction ps) auto
  then show ?thesis by (simp add: active_permits_def del: filter_filter)
qed

lemma prune_calm:
  assumes inv: "queue_inv d"
  shows "calm t d (snd (prune now batch locked d))"
  unfolding calm_def
proof (intro conjI allI ballI impI)
  let ?is = "map job_id (prune_rows now batch locked d)" and ?d = "snd (prune now batch locked d)"
  have frame: "jobs ?d = filter (\<lambda>j. job_id j \<notin> set ?is) (jobs d)"
    "permits ?d = filter (\<lambda>p. prm_job_id p \<notin> set ?is) (permits d)"
    by (simp_all add: prune_def Let_def delete_jobs_def)
  show "active_permits t ?d pool \<le> active_permits t d pool" for pool
    using active_permits_filter_le [where t = t and d = d and P = "\<lambda>p. prm_job_id p \<notin> set ?is" and pool = pool]
    unfolding active_permits_def by (simp add: frame)
  fix j' assume j': "j' \<in> set (jobs ?d)" "live_lease t j'"
  then show "\<exists>j \<in> set (jobs d). live_lease t j \<and> same_work j j'" by (auto simp: frame same_work_def)
  fix pool assume "\<exists>p \<in> set (permits d). permit_live t (job_id j') pool p"
  then show "\<exists>p \<in> set (permits ?d). permit_live t (job_id j') pool p"
    using j' by (fastforce simp: frame permit_live_def)
qed

subsection \<open>The queue with its retention\<close>

inductive retained_step :: "validator \<Rightarrow> pool_limits \<Rightarrow> instant \<times> db \<Rightarrow> instant \<times> db \<Rightarrow> bool"
  for model_validate limits where
  Work: "queue_step model_validate limits s s' \<Longrightarrow> retained_step model_validate limits s s'"
| Prune: "t \<le> t' \<Longrightarrow> retained_step model_validate limits (t, d) (t', snd (prune t' batch locked d))"

lemma retained_step_ok: "retained_step mv limits s s' \<Longrightarrow> queue_ok limits s \<Longrightarrow> queue_ok limits s'"
proof (induction rule: retained_step.induct)
  case (Work s s')
  then show ?case by (blast intro: queue_step_ok)
next
  case (Prune t t' d batch locked)
  then have q: "queue_inv d" and l: "lease_inv limits t' d"
    using lease_inv_time by (auto simp: queue_ok_def)
  show ?case using prune_inv [OF q] calm_lease_inv [OF l prune_calm [OF q]] by (simp add: queue_ok_def)
qed

interpretation retained: invariant_machine queue_init "retained_step mv limits" "queue_ok limits" for mv limits
  by unfold_locales (blast intro: queue_init_ok retained_step_ok)+

subsection \<open>Nothing is lost from the counts\<close>

definition agg_count :: "bucket_key \<Rightarrow> job_daily_aggregate list \<Rightarrow> int" where
  "agg_count k as = sum_list (map (\<lambda>a. if agg_key a = k then agg_job_count a else 0) as)"

definition jobs_in :: "bucket_key \<Rightarrow> work_job list \<Rightarrow> int" where
  "jobs_in k rows = int (length (filter (\<lambda>j. bucket_key j = k) rows))"

definition bucket_jobs :: "bucket_key \<Rightarrow> (bucket_key \<times> bucket) list \<Rightarrow> int" where
  "bucket_jobs k bs = (case map_of bs k of None \<Rightarrow> 0 | Some v \<Rightarrow> fst v)"

lemma buckets_of_snoc:
  "buckets_of (rows @ [j]) = AList.map_default (bucket_key j) (bucket_value j) (add_bucket (bucket_value j)) (buckets_of rows)"
  by (simp add: buckets_of_def)

lemma bucket_jobs_of: "bucket_jobs k (buckets_of rows) = jobs_in k rows"
proof (induction rows rule: rev_induct)
  case Nil
  then show ?case by (simp add: bucket_jobs_def buckets_of_def jobs_in_def)
next
  case (snoc j rows)
  have "bucket_jobs k (buckets_of (rows @ [j])) = bucket_jobs k (buckets_of rows) + (if bucket_key j = k then 1 else 0)"
    unfolding buckets_of_snoc bucket_jobs_def map_of_map_default
    by (auto simp: add_bucket_def bucket_value_def split: option.splits prod.splits)
  then show ?case using snoc by (simp add: jobs_in_def)
qed

lemma distinct_buckets: "distinct (map fst (buckets_of rows))"
  by (induction rows rule: rev_induct) (simp_all add: buckets_of_snoc distinct_map_default, simp add: buckets_of_def)

lemma agg_count_append: "agg_count k (as @ bs) = agg_count k as + agg_count k bs"
  by (simp add: agg_count_def)

lemma bump_key [simp]: "agg_key (bump now v a) = agg_key a" "agg_day (bump now v a) = agg_day a"
  by (simp_all add: bump_def agg_key_def split: prod.splits)

lemma agg_count_absent: "k \<notin> set (map agg_key as) \<Longrightarrow> agg_count k as = 0"
  by (induction as) (auto simp: agg_count_def)

lemma agg_count_updated:
  assumes "distinct (map agg_key as)"
  shows "agg_count k (updated_aggregates now bs as) = agg_count k as + (if k \<in> set (map agg_key as) then bucket_jobs k bs else 0)"
  using assms
proof (induction as)
  case Nil
  then show ?case by (simp add: agg_count_def updated_aggregates_def)
next
  case (Cons a as)
  let ?a = "case map_of bs (agg_key a) of None \<Rightarrow> a | Some v \<Rightarrow> bump now v a"
  have "agg_key ?a = agg_key a" by (simp split: option.split)
  moreover have "agg_job_count ?a = agg_job_count a + bucket_jobs (agg_key a) bs"
    by (simp add: bucket_jobs_def bump_def split: option.split prod.split)
  moreover have "agg_count k (updated_aggregates now bs (a # as)) =
      (if agg_key ?a = k then agg_job_count ?a else 0) + agg_count k (updated_aggregates now bs as)"
    by (simp add: agg_count_def updated_aggregates_def)
  ultimately show ?case using Cons by (auto simp: agg_count_def)
qed

lemma agg_count_fresh:
  assumes "distinct (map fst bs)"
  shows "agg_count k (fresh_aggregates now bs as) = (if k \<in> set (map agg_key as) then 0 else bucket_jobs k bs)"
  using assms
proof (induction bs)
  case Nil
  then show ?case by (simp add: agg_count_def fresh_aggregates_def bucket_jobs_def)
next
  case (Cons b bs)
  obtain k' v where b: "b = (k', v)" by (cases b)
  have key: "agg_key (bump now v (new_aggregate now k')) = k'"
    unfolding bump_key by (simp add: new_aggregate_def agg_key_def split: prod.split)
  have cnt: "agg_job_count (bump now v (new_aggregate now k')) = fst v"
    by (simp add: new_aggregate_def bump_def split: prod.split)
  have IH: "agg_count k (fresh_aggregates now bs as) = (if k \<in> set (map agg_key as) then 0 else bucket_jobs k bs)"
    using Cons by simp
  have "map_of bs k' = None" using Cons.prems b by (simp add: map_of_eq_None_iff)
  then show ?case
    using IH key cnt by (auto simp: fresh_aggregates_def agg_count_def bucket_jobs_def b)
qed

lemma agg_count_filter_day:
  assumes "\<not> fst k < cutoff"
  shows "agg_count k (filter (\<lambda>a. \<not> agg_day a < cutoff) as) = agg_count k as"
  using assms by (induction as) (auto simp: agg_count_def agg_key_def)

text \<open>What pruning removes and what it keeps, counted under any predicate.\<close>

lemma prune_split:
  assumes inv: "queue_inv d" and d': "prune now batch locked d = (n, d')"
  shows "length (filter P (jobs d)) = length (filter P (jobs d')) + length (filter P (prune_rows now batch locked d))"
proof -
  let ?rows = "prune_rows now batch locked d"
  have dist: "distinct (map job_id (jobs d))" using inv by (simp add: inv_defs)
  have jobs': "jobs d' = filter (\<lambda>j. job_id j \<notin> set (map job_id ?rows)) (jobs d)"
    using d' by (auto simp: prune_def Let_def delete_jobs_def)
  have left: "jobs d' = filter (\<lambda>j. \<not> j \<in> set ?rows) (jobs d)"
    unfolding jobs' using pruned_iff [OF inv] by (intro filter_cong) auto
  have "distinct ?rows" using dist unfolding prune_rows_def by (simp add: distinct_take distinct_map)
  then have "mset (filter (\<lambda>j. j \<in> set ?rows) (jobs d)) = mset ?rows"
    using prune_rows_in(1) dist by (intro set_eq_iff_mset_eq_distinct [THEN iffD1]) (auto simp: distinct_map)
  then have "mset (filter P (filter (\<lambda>j. j \<in> set ?rows) (jobs d))) = mset (filter P ?rows)"
    by (simp only: mset_filter)
  then have "length (filter P (filter (\<lambda>j. j \<in> set ?rows) (jobs d))) = length (filter P ?rows)" by (metis size_mset)
  moreover have "length (filter P xs) = length (filter P (filter (\<lambda>x. \<not> Q x) xs)) + length (filter P (filter Q xs))"
    for Q and xs :: "work_job list" by (induction xs) auto
  ultimately show ?thesis unfolding left by metis
qed

lemma prune_aggregates:
  assumes "distinct (map agg_key (aggregates d))" and "prune now batch locked d = (n, d')" and "now - days 365 \<le> fst k"
  shows "agg_count k (aggregates d') = agg_count k (aggregates d) + jobs_in k (prune_rows now batch locked d)"
proof -
  let ?bs = "buckets_of (prune_rows now batch locked d)"
  have "aggregates d' = filter (\<lambda>a. \<not> agg_day a < now - days 365) (updated_aggregates now ?bs (aggregates d))
      @ fresh_aggregates now ?bs (aggregates d)"
    using assms(2) by (auto simp: prune_def Let_def)
  then show ?thesis
    using agg_count_filter_day [of k "now - days 365"] assms(3) agg_count_updated [OF assms(1)]
      agg_count_fresh [OF distinct_buckets]
    by (simp add: agg_count_append bucket_jobs_of)
qed

text \<open>The aggregate of a day that is more than a year past: a row that existed is deleted with the
  counts it has just been given, a new row is inserted after the deletion.\<close>

lemma old_aggregates:
  assumes "prune now batch locked d = (n, d')" and "fst k < now - days 365"
  shows "agg_count k (aggregates d') =
    (if k \<in> set (map agg_key (aggregates d)) then 0 else jobs_in k (prune_rows now batch locked d))"
proof -
  let ?bs = "buckets_of (prune_rows now batch locked d)"
  have "agg_count k (filter (\<lambda>a. \<not> agg_day a < now - days 365) as) = 0" for as
    using assms(2) by (induction as) (auto simp: agg_count_def agg_key_def)
  moreover have "aggregates d' = filter (\<lambda>a. \<not> agg_day a < now - days 365) (updated_aggregates now ?bs (aggregates d))
      @ fresh_aggregates now ?bs (aggregates d)"
    using assms(1) by (auto simp: prune_def Let_def)
  ultimately show ?thesis
    using agg_count_fresh [OF distinct_buckets] by (simp add: agg_count_append bucket_jobs_of)
qed

text \<open>C33. Pruning removes only jobs that finished more than two weeks ago, at most a batch of them;
  every other job stays as it is.  For every day within the last 365 days, kind, provider, outcome and error
  code the jobs removed are exactly the jobs added to the aggregate of that bucket.  For an older day the
  aggregate afterwards has the jobs removed when there was no row for the bucket, and is gone, with the jobs
  removed now uncounted, when there was one.
\<close>

theorem prune_conserves:
  assumes inv: "queue_inv d" and keys: "distinct (map agg_key (aggregates d))"
    and d': "prune now batch locked d = (n, d')"
  shows "n \<le> int batch \<and> n = int (length (jobs d)) - int (length (jobs d')) \<and>
    set (jobs d') \<subseteq> set (jobs d) \<and>
    (\<forall>j \<in> set (jobs d) - set (jobs d'). \<not> is_active j \<and> (\<exists>t. job_completed_at j = Some t \<and> t < now - days 14)) \<and>
    (\<forall>k. now - days 365 \<le> fst k \<longrightarrow>
       agg_count k (aggregates d') + jobs_in k (jobs d') = agg_count k (aggregates d) + jobs_in k (jobs d)) \<and>
    (\<forall>k. fst k < now - days 365 \<longrightarrow> agg_count k (aggregates d') =
       (if k \<in> set (map agg_key (aggregates d)) then 0 else jobs_in k (jobs d) - jobs_in k (jobs d')))"
proof -
  let ?rows = "prune_rows now batch locked d"
  have jobs': "jobs d' = filter (\<lambda>j. job_id j \<notin> set (map job_id ?rows)) (jobs d)" and n: "n = int (length ?rows)"
    using d' by (auto simp: prune_def Let_def delete_jobs_def)
  have gone: "\<not> is_active j \<and> (\<exists>t. job_completed_at j = Some t \<and> t < now - days 14)"
    if "j \<in> set (jobs d) - set (jobs d')" for j
  proof -
    have "j \<in> set ?rows" using that pruned_iff [OF inv] by (auto simp: jobs')
    then show ?thesis using prune_rows_in(2,5) by blast
  qed
  have "agg_count k (aggregates d') + jobs_in k (jobs d') = agg_count k (aggregates d) + jobs_in k (jobs d)"
    if "now - days 365 \<le> fst k" for k
    using prune_aggregates [OF keys d' that] prune_split [OF inv d'] by (simp add: jobs_in_def)
  moreover have "agg_count k (aggregates d') = (if k \<in> set (map agg_key (aggregates d)) then 0 else jobs_in k (jobs d) - jobs_in k (jobs d'))"
    if "fst k < now - days 365" for k
    using old_aggregates [OF d' that] prune_split [OF inv d'] by (simp add: jobs_in_def)
  moreover have "n = int (length (jobs d)) - int (length (jobs d'))"
    using prune_split [OF inv d', of "\<lambda>_. True"] by (simp add: n)
  moreover have "n \<le> int batch" by (simp add: n prune_rows_def)
  ultimately show ?thesis using jobs' gone by auto
qed

text \<open>With retention running beside the queue, every reachable state still satisfies the queue
  invariant: one active job per key, permits only for leased jobs, no settled cycle with work, and
  the pool limits.
\<close>

theorem retention_keeps_queue:
  assumes "queue_init s" and "(retained_step mv limits)\<^sup>*\<^sup>* s (t, d)"
  shows "queue_inv d \<and> lease_inv limits t d"
  using retained.reachable_inv [OF assms] by (simp add: queue_ok_def)

text \<open>The event timeline does not outlive its job: after pruning no event, permit or reservation
  of a removed job is left, and no row refers to it.
\<close>

theorem prune_drops_timeline:
  assumes "queue_inv d" and "prune now batch locked d = (n, d')" and "j \<in> set (jobs d)" and "j \<notin> set (jobs d')"
  shows "(\<forall>e \<in> set (events d'). ev_job_id e \<noteq> job_id j) \<and> (\<forall>p \<in> set (permits d'). prm_job_id p \<noteq> job_id j) \<and>
    (\<forall>r \<in> set (reservations d'). res_job_id r \<noteq> job_id j) \<and> (\<forall>i \<in> set (intents d'). int_job_id i \<noteq> Some (job_id j)) \<and>
    (\<forall>w \<in> set (workers d'). wh_active_job_id w \<noteq> Some (job_id j)) \<and> (\<forall>m \<in> set (operations d'). op_job_id m \<noteq> Some (job_id j))"
proof -
  let ?is = "map job_id (prune_rows now batch locked d)"
  have d': "events d' = events (delete_jobs ?is d)" "permits d' = permits (delete_jobs ?is d)"
    "reservations d' = reservations (delete_jobs ?is d)" "intents d' = intents (delete_jobs ?is d)"
    "workers d' = workers (delete_jobs ?is d)" "operations d' = operations (delete_jobs ?is d)"
    "jobs d' = jobs (delete_jobs ?is d)"
    using assms(2) by (auto simp: prune_def Let_def)
  have i: "job_id j \<in> set ?is" using assms(3,4) by (auto simp: d' delete_jobs_def)
  then have "unlink ?is r \<noteq> Some (job_id j)" for r by (auto simp: unlink_def split: option.split)
  with i show ?thesis by (auto simp: d' delete_jobs_def)
qed

definition demo_done :: db where
  "demo_done = snd (cancel (seconds 3) 1 ''operator'' demo_leased)"

definition demo_pruned :: "int \<times> db" where
  "demo_pruned = prune (days 20) 250 [] demo_done"

lemma demo_pruned_values: "fst demo_pruned = 1" "jobs (snd demo_pruned) = []" "length (aggregates (snd demo_pruned)) = 1"
  "length (jobs demo_done) = 1" "0 < length (events demo_done)" "aggregates demo_done = []"
  by code_simp+

lemma demo_done_inv: "queue_inv demo_done"
  unfolding demo_done_def by (rule cancel_inv [OF demo_leased_inv])

theorem prune_conserves_witness:
  "fst demo_pruned = 1 \<and> jobs_in (bucket_key (hd (jobs demo_done))) (jobs demo_done) = 1 \<and>
   agg_count (bucket_key (hd (jobs demo_done))) (aggregates (snd demo_pruned)) = 1"
proof -
  let ?k = "bucket_key (hd (jobs demo_done))"
  have eq: "prune (days 20) 250 [] demo_done = (fst demo_pruned, snd demo_pruned)" by (simp add: demo_pruned_def)
  have "0 \<le> fst ?k" by code_simp
  then have year: "days 20 - days 365 \<le> fst ?k" by simp
  have "distinct (map agg_key (aggregates demo_done))" using demo_pruned_values(6) by simp
  from prune_conserves [OF demo_done_inv this eq, THEN conjunct2, THEN conjunct2, THEN conjunct2, THEN conjunct2, THEN conjunct1, rule_format, OF year]
  have "agg_count ?k (aggregates (snd demo_pruned)) = jobs_in ?k (jobs demo_done)"
    using demo_pruned_values(2,6) by (simp add: agg_count_def jobs_in_def)
  moreover have "jobs_in ?k (jobs demo_done) = 1"
    using demo_pruned_values(4) by (cases "jobs demo_done") (auto simp: jobs_in_def)
  ultimately show ?thesis using demo_pruned_values(1) by simp
qed

theorem retention_keeps_queue_witness: "queue_inv demo_done \<and> lease_inv demo_limits (days 20) (snd demo_pruned)"
proof -
  have run: "(retained_step strict_validate demo_limits)\<^sup>*\<^sup>* (0, empty_db) (seconds 2, demo_leased)"
    using demo_run by (induction rule: rtranclp_induct) (auto intro: rtranclp.rtrancl_into_rtrancl retained_step.Work)
  have "queue_step strict_validate demo_limits (seconds 2, demo_leased) (seconds 3, demo_done)"
    unfolding demo_done_def by (rule queue_step.Cancel [where b = "fst (cancel (seconds 3) 1 ''operator'' demo_leased)"]) simp_all
  with run have r1: "(retained_step strict_validate demo_limits)\<^sup>*\<^sup>* (0, empty_db) (seconds 3, demo_done)"
    by (meson retained_step.Work rtranclp.rtrancl_into_rtrancl)
  have "retained_step strict_validate demo_limits (seconds 3, demo_done) (days 20, snd demo_pruned)"
    unfolding demo_pruned_def by (rule retained_step.Prune) simp
  with r1 have r2: "(retained_step strict_validate demo_limits)\<^sup>*\<^sup>* (0, empty_db) (days 20, snd demo_pruned)"
    by (meson rtranclp.rtrancl_into_rtrancl)
  have init: "queue_init (0, empty_db)" by (simp add: queue_init_def empty_db_def)
  show ?thesis using retention_keeps_queue [OF init r1] retention_keeps_queue [OF init r2] by simp
qed

theorem prune_drops_timeline_witness:
  "0 < length (events demo_done) \<and> (\<nexists>e. e \<in> set (events (snd demo_pruned)) \<and> ev_job_id e = job_id (hd (jobs demo_done)))"
proof -
  have eq: "prune (days 20) 250 [] demo_done = (fst demo_pruned, snd demo_pruned)" by (simp add: demo_pruned_def)
  have "hd (jobs demo_done) \<in> set (jobs demo_done)" using demo_pruned_values(4) by (cases "jobs demo_done") auto
  from prune_drops_timeline [OF demo_done_inv eq this] show ?thesis using demo_pruned_values by auto
qed

end
