(* ===== verification/Provider_Telemetry.thy ===== *)
theory Provider_Telemetry
  imports Provider_Pacing
begin

text \<open>
  \<^verbatim>\<open>infrastructure/provider_telemetry.py\<close>: request samples, benchmark runs and the
  provider policy that is learned from them, and the bounded sample buffer of a worker.  Every
  method is one transaction (\<open>finalize_due\<close> a sequence of them).  Response headers other than the
  traffic class are not modelled; a float is an exact rational.
\<close>

subsection \<open>Rows\<close>

definition put_policy :: "provider_policy \<Rightarrow> db \<Rightarrow> db" where
  "put_policy p d = d\<lparr>policies := put_row pol_source p (policies d)\<rparr>"

abbreviation find_run :: "int \<Rightarrow> db \<Rightarrow> provider_benchmark_run option" where
  "find_run i d \<equiv> get_row run_id i (runs d)"

definition put_run :: "provider_benchmark_run \<Rightarrow> db \<Rightarrow> db" where
  "put_run r d = d\<lparr>runs := put_row run_id r (runs d)\<rparr>"

definition new_run :: "instant \<Rightarrow> int \<Rightarrow> string \<Rightarrow> int \<Rightarrow> int \<Rightarrow> provider_benchmark_run" where
  "new_run now i src tier base_tier =
     \<lparr>run_id = i, run_source = src, run_state_of = RunRunning, run_requested_tier = tier,
      run_stable_tier = base_tier, run_request_count = 0, run_success_count = 0, run_failure_count = 0,
      run_limiting_signal = [], run_started_at = now, run_completed_at = None, run_report = fmempty\<rparr>"

definition add_run :: "instant \<Rightarrow> string \<Rightarrow> int \<Rightarrow> int \<Rightarrow> db \<Rightarrow> int \<times> db" where
  "add_run now src tier base_tier d =
     (run_seq d, d\<lparr>runs := runs d @ [new_run now (run_seq d) src tier base_tier], run_seq := run_seq d + 1\<rparr>)"

definition begin_run :: "instant \<Rightarrow> string \<Rightarrow> int \<Rightarrow> db \<Rightarrow> int \<times> db" where
  "begin_run now src tier d = add_run now src tier (max 1 (tier - 1)) d"

subsection \<open>Samples\<close>

text \<open>The keys of a sample dictionary.\<close>

record sample_in =
  si_source :: string
  si_host :: string
  si_status_code :: "int option"
  si_latency_ms :: int
  si_byte_count :: int
  si_error_code :: string
  si_retry_after_seconds :: "int option"
  si_traffic_class :: string

definition status_of :: "sample_in \<Rightarrow> int" where
  "status_of s = (case si_status_code s of None \<Rightarrow> 0 | Some n \<Rightarrow> n)"

definition sample_failed :: "sample_in \<Rightarrow> bool" where
  "sample_failed s = (si_error_code s \<noteq> [] \<or> status_of s \<in> set [403, 429, 503])"

definition count_sample :: "bool \<Rightarrow> provider_benchmark_run \<Rightarrow> provider_benchmark_run" where
  "count_sample failed r =
     r\<lparr>run_request_count := run_request_count r + 1,
       run_failure_count := run_failure_count r + (if failed then 1 else 0),
       run_success_count := run_success_count r + (if failed then 0 else 1)\<rparr>"

definition signal_run :: "bool \<Rightarrow> string \<Rightarrow> string \<Rightarrow> provider_benchmark_run \<Rightarrow> provider_benchmark_run" where
  "signal_run failed status code r =
     (if failed \<and> run_limiting_signal r = []
      then r\<lparr>run_limiting_signal := py_strip (''HTTP '' @ status @ '' '' @ code)\<rparr> else r)"

definition sample_row ::
  "instant \<Rightarrow> int option \<Rightarrow> string \<Rightarrow> string \<Rightarrow> sample_in \<Rightarrow> provider_request_sample" where
  "sample_row now run src code s =
     \<lparr>smp_run_id = run, smp_source = src, smp_host = si_host s, smp_status_code = status_of s,
      smp_latency_ms = si_latency_ms s, smp_byte_count = si_byte_count s, smp_error_code = code,
      smp_retry_after_seconds = si_retry_after_seconds s,
      smp_traffic_class = (if si_traffic_class s = [] then ''origin'' else si_traffic_class s),
      smp_created_at = now\<rparr>"

definition add_sample :: "provider_request_sample \<Rightarrow> db \<Rightarrow> db" where
  "add_sample s d = d\<lparr>samples := samples d @ [s]\<rparr>"

text \<open>The callback of a benchmark: it observes one run while that run is running.\<close>

definition observe_run :: "instant \<Rightarrow> int \<Rightarrow> sample_in \<Rightarrow> db \<Rightarrow> db" where
  "observe_run now i s d =
     (case find_run i d of
        None \<Rightarrow> d
      | Some r \<Rightarrow>
          if run_state_of r \<noteq> RunRunning then d
          else
            (let failed = sample_failed s;
                 status = (case si_status_code s of None \<Rightarrow> ''None'' | Some n \<Rightarrow> str_of_int n)
             in put_run (signal_run failed status (si_error_code s) (count_sample failed r))
                  (add_sample (sample_row now (Some (run_id r)) (run_source r) (si_error_code s) s) d)))"

text \<open>The run that receives the samples of a source: the newest one that is running.\<close>

definition active_run :: "string \<Rightarrow> db \<Rightarrow> int option" where
  "active_run src d =
     (case rev (sort_key run_id (filter (\<lambda>r. run_source r = src \<and> run_state_of r = RunRunning) (runs d))) of
        [] \<Rightarrow> None | r # _ \<Rightarrow> Some (run_id r))"

definition record_sample :: "instant \<Rightarrow> (string \<Rightarrow> int option) \<Rightarrow> sample_in \<Rightarrow> db \<Rightarrow> db" where
  "record_sample now active s d =
     (let failed = sample_failed s;
          d1 = (case active (si_source s) of
                  None \<Rightarrow> d
                | Some i \<Rightarrow>
                    (case find_run i d of
                       None \<Rightarrow> d
                     | Some r \<Rightarrow> put_run (signal_run failed (str_of_int (status_of s)) (si_error_code s)
                                           (count_sample failed r)) d))
      in add_sample (sample_row now (active (si_source s)) (si_source s)
                       (if failed then si_error_code s else []) s) d1)"

definition record_samples :: "instant \<Rightarrow> sample_in list \<Rightarrow> db \<Rightarrow> int \<times> db" where
  "record_samples now ss d =
     (let rows = filter (\<lambda>s. si_source s \<in> set KNOWN_SOURCES) ss
      in (int (length rows), fold (record_sample now (\<lambda>src. active_run src d)) rows d))"

definition cleanup_samples :: "int \<Rightarrow> instant \<Rightarrow> db \<Rightarrow> int \<times> db" where
  "cleanup_samples n now d =
     (let cutoff = now - days (max 1 n)
      in (int (length (filter (\<lambda>s. smp_created_at s < cutoff) (samples d))),
          d\<lparr>samples := filter (\<lambda>s. \<not> smp_created_at s < cutoff) (samples d)\<rparr>))"

subsection \<open>Policies\<close>

definition poll_cadence_metadata :: "policy_metadata \<Rightarrow> int \<Rightarrow> policy_metadata" where
  "poll_cadence_metadata m base =
     (if 0 < base
      then m\<lparr>pm_base_poll_seconds := Some base,
             pm_adaptive_poll_seconds := (case pm_adaptive_poll_seconds m of None \<Rightarrow> Some base | v \<Rightarrow> v),
             pm_unchanged_poll_streak := (case pm_unchanged_poll_streak m of None \<Rightarrow> Some 0 | v \<Rightarrow> v)\<rparr>
      else m)"

record policy_defaults =
  pd_job_limit :: int
  pd_page_limit :: int
  pd_cooldown_seconds :: int
  pd_request_interval_seconds :: rat
  pd_poll_interval_seconds :: int

definition ensure_policy :: "instant \<Rightarrow> string \<Rightarrow> policy_defaults \<Rightarrow> db \<Rightarrow> db" where
  "ensure_policy now src a d =
     (case find_policy src d of
        None \<Rightarrow> d\<lparr>policies := policies d @
          [(new_provider_policy now src)\<lparr>pol_learned_job_limit := pd_job_limit a,
             pol_learned_page_limit := pd_page_limit a, pol_cooldown_seconds := pd_cooldown_seconds a,
             pol_request_interval_seconds := pd_request_interval_seconds a, pol_clean_since := Some now,
             pol_next_exploration_at := Some (now + days 7), pol_expires_at := Some (now + days 30),
             pol_metadata := poll_cadence_metadata empty_metadata (pd_poll_interval_seconds a)\<rparr>]\<rparr>
      | Some p \<Rightarrow>
          (let pace = (pol_request_interval_seconds p \<le> 0 \<and> 0 < pd_request_interval_seconds a);
               p1 = (if pace then p\<lparr>pol_request_interval_seconds := pd_request_interval_seconds a\<rparr> else p);
               m = poll_cadence_metadata (pol_metadata p) (pd_poll_interval_seconds a);
               p2 = (if m \<noteq> pol_metadata p then p1\<lparr>pol_metadata := m\<rparr> else p1)
           in put_policy (if pace \<or> m \<noteq> pol_metadata p then p2\<lparr>pol_updated_at := now\<rparr> else p2) d))"

definition start_due_exploration :: "instant \<Rightarrow> string \<Rightarrow> int \<Rightarrow> db \<Rightarrow> int option \<times> db" where
  "start_due_exploration now src top_tier d =
     (case find_policy src d of
        None \<Rightarrow> (None, d)
      | Some p \<Rightarrow>
          if (case pol_next_exploration_at p of None \<Rightarrow> True | Some t \<Rightarrow> now < t) \<or>
             top_tier \<le> pol_learned_job_limit p \<or>
             list_ex (\<lambda>r. run_source r = src \<and> run_state_of r = RunRunning) (runs d)
          then (None, d)
          else
            (let tier = min top_tier (pol_learned_job_limit p + 1);
                 (i, d1) = add_run now src tier (pol_learned_job_limit p) d;
                 m = (pol_metadata p)\<lparr>pm_exploration_tier := Some tier,
                        pm_exploration_until := Some (IsoText (now + minutes 10)),
                        pm_benchmark_run_id := Some i\<rparr>
             in (Some i, put_policy (p\<lparr>pol_metadata := m, pol_updated_at := now\<rparr>) d1)))"

subsection \<open>Learning from a finished run\<close>

text \<open>\<open>round(x, 3)\<close>.\<close>

definition round3 :: "rat \<Rightarrow> rat" where
  "round3 x = of_int (round_half_even (x * 1000)) / 1000"

definition learn_limited :: "instant \<Rightarrow> provider_benchmark_run \<Rightarrow> int list \<Rightarrow> provider_policy \<Rightarrow> provider_policy" where
  "learn_limited now r retries p =
     (let cap = (if run_source r = ''asura'' then 1 else max 2 ((run_requested_tier r - 1) * 2))
      in p\<lparr>pol_last_limited_at := Some now, pol_successful_tier_runs := 0,
           pol_learned_job_limit := max 1 (run_requested_tier r - 1),
           pol_learned_page_limit := max 1 (min (pol_learned_page_limit p) cap),
           pol_request_interval_seconds :=
             max (1 / 2) (if 0 < pol_request_interval_seconds p then pol_request_interval_seconds p * 2 else 1 / 2),
           pol_next_exploration_at := Some (now + days 30),
           pol_cooldown_seconds := fold max retries (pol_cooldown_seconds p)\<rparr>)"

definition learn_useful :: "instant \<Rightarrow> provider_benchmark_run \<Rightarrow> provider_policy \<Rightarrow> provider_policy" where
  "learn_useful now r p =
     (let n = pol_successful_tier_runs p + 1;
          asura = (run_source r = ''asura'');
          required = (if asura \<and> 2 \<le> run_requested_tier r then 2 else 1);
          lowest = (if asura then 1 / 2 else 0);
          p1 = p\<lparr>pol_successful_tier_runs := n\<rparr>;
          p2 = (if required \<le> n
                then p1\<lparr>pol_learned_job_limit := max (pol_learned_job_limit p) (run_requested_tier r),
                        pol_learned_page_limit := max (pol_learned_page_limit p)
                          (if asura then 2 else run_requested_tier r * 2),
                        pol_request_interval_seconds :=
                          (if lowest < pol_request_interval_seconds p
                           then max lowest (round3 (pol_request_interval_seconds p * (4 / 5)))
                           else pol_request_interval_seconds p)\<rparr>
                else p1)
      in p2\<lparr>pol_clean_since := (case pol_clean_since p of None \<Rightarrow> Some now | t \<Rightarrow> t),
            pol_next_exploration_at := Some (now + days 7)\<rparr>)"

definition learn_inconclusive :: "instant \<Rightarrow> provider_policy \<Rightarrow> provider_policy" where
  "learn_inconclusive now p =
     p\<lparr>pol_successful_tier_runs := 0, pol_next_exploration_at := Some (now + days 1)\<rparr>"

definition run_retries :: "int \<Rightarrow> db \<Rightarrow> int list" where
  "run_retries i d =
     List.map_filter (\<lambda>s. if smp_run_id s = Some i then smp_retry_after_seconds s else None) (samples d)"

text \<open>
  A policy row that \<open>finish\<close> creates itself is not flushed before its limits are read: the
  columns are \<open>None\<close> then, and comparing or adding raises \<open>TypeError\<close>.  Only an inconclusive run
  assigns every column it reads.
\<close>

definition finish_run ::
  "instant \<Rightarrow> int \<Rightarrow> bool \<Rightarrow> jdict \<Rightarrow> db \<Rightarrow> (provider_policy \<times> db) result" where
  "finish_run now i rate_limited report d =
     (case find_run i d of
        None \<Rightarrow> Inl (ValueError ''benchmark run disappeared'')
      | Some r \<Rightarrow>
          bind_result (if 100 \<le> run_request_count r then Inr 0
                       else int_or_zero (dict_get report ''completed_jobs'')) (\<lambda>completed.
            let limited = (rate_limited \<or> run_limiting_signal r \<noteq> []);
                useful = (100 \<le> run_request_count r \<or> 2 \<le> completed);
                r1 = r\<lparr>run_state_of := (if limited then RunLimited else if useful then RunSucceeded
                                         else RunInconclusive),
                       run_completed_at := Some now, run_report := report\<rparr>;
                d1 = put_run r1 d;
                learn = (\<lambda>p. (if limited then learn_limited now r (run_retries i d) p
                               else if useful then learn_useful now r p
                               else learn_inconclusive now p)
                              \<lparr>pol_expires_at := Some (now + days 30), pol_updated_at := now\<rparr>)
            in case find_policy (run_source r) d of
                 Some p \<Rightarrow> Inr (learn p, put_policy (learn p) d1)
               | None \<Rightarrow>
                   if limited \<or> useful then Inl (TypeError ''unsupported operand: NoneType'')
                   else (let p = learn (new_provider_policy now (run_source r))
                         in Inr (p, d1\<lparr>policies := policies d1 @ [p]\<rparr>))))"

subsection \<open>Finishing due runs\<close>

definition run_due :: "instant \<Rightarrow> provider_benchmark_run \<Rightarrow> bool" where
  "run_due now r = (run_limiting_signal r \<noteq> [] \<or> 500 \<le> run_request_count r \<or>
     run_started_at r + minutes 10 \<le> now)"

definition due_runs :: "instant \<Rightarrow> db \<Rightarrow> int list" where
  "due_runs now d = map run_id (filter (\<lambda>r. run_state_of r = RunRunning \<and> run_due now r) (runs d))"

definition due_report :: "provider_benchmark_run option \<Rightarrow> jdict" where
  "due_report r = (case r of
     None \<Rightarrow> fmap_of_list [(''request_count'', JInt 0), (''success_count'', JInt 0),
               (''failure_count'', JInt 0), (''limiting_signal'', JStr [])]
   | Some r \<Rightarrow> fmap_of_list [(''request_count'', JInt (run_request_count r)),
               (''success_count'', JInt (run_success_count r)), (''failure_count'', JInt (run_failure_count r)),
               (''limiting_signal'', JStr (run_limiting_signal r))])"

definition clear_exploration :: "string \<Rightarrow> db \<Rightarrow> db" where
  "clear_exploration src d =
     (case find_policy src d of
        None \<Rightarrow> d
      | Some p \<Rightarrow> put_policy (p\<lparr>pol_metadata := (pol_metadata p)\<lparr>pm_exploration_tier := None,
                    pm_exploration_until := None, pm_benchmark_run_id := None\<rparr>\<rparr>) d)"

definition finalize_run :: "instant \<Rightarrow> int \<Rightarrow> db \<Rightarrow> db result" where
  "finalize_run now i d =
     (let r = find_run i d;
          limited = (case r of None \<Rightarrow> False | Some r \<Rightarrow> run_limiting_signal r \<noteq> [])
      in bind_result (finish_run now i limited (due_report r) d) (\<lambda>(p, d1).
           Inr (clear_exploration (pol_source p) d1)))"

fun finalize_runs :: "instant \<Rightarrow> int list \<Rightarrow> db \<Rightarrow> db result" where
  "finalize_runs now [] d = Inr d"
| "finalize_runs now (i # is) d = bind_result (finalize_run now i d) (finalize_runs now is)"

definition finalize_due :: "instant \<Rightarrow> db \<Rightarrow> (int \<times> db) result" where
  "finalize_due now d =
     (let due = due_runs now d
      in bind_result (finalize_runs now due d) (\<lambda>d1. Inr (int (length due), d1)))"

subsection \<open>Polling cadence\<close>

definition effective_poll_interval :: "provider_policy option \<Rightarrow> duration \<Rightarrow> duration" where
  "effective_poll_interval pol fallback =
     (let fb = max (fallback div 1000000) 60 in
      case pol of
        None \<Rightarrow> fallback
      | Some p \<Rightarrow>
          (let s = (case pm_adaptive_poll_seconds (pol_metadata p) of
                      None \<Rightarrow> fb | Some n \<Rightarrow> if n = 0 then fb else n)
           in seconds (max 60 (min s (fb * 4)))))"

subsection \<open>The sample buffer of a worker\<close>

record telemetry_buffer =
  buf_samples :: "sample_in list"
  buf_max :: nat
  buf_batch :: nat

definition new_buffer :: "int \<Rightarrow> int \<Rightarrow> telemetry_buffer" where
  "new_buffer max_samples batch_size =
     \<lparr>buf_samples = [], buf_max = nat (max 1 max_samples), buf_batch = nat (max 1 batch_size)\<rparr>"

text \<open>A deque of bounded length drops its oldest entry when it is full.\<close>

definition buffer_observe :: "sample_in \<Rightarrow> telemetry_buffer \<Rightarrow> telemetry_buffer" where
  "buffer_observe s b =
     (let xs = buf_samples b @ [s]
      in b\<lparr>buf_samples := (if buf_max b < length xs then tl xs else xs)\<rparr>)"

definition buffer_flush :: "instant \<Rightarrow> telemetry_buffer \<times> db \<Rightarrow> int \<times> telemetry_buffer \<times> db" where
  "buffer_flush now st =
     (let (b, d) = st;
          n = min (length (buf_samples b)) (buf_batch b);
          batch = take n (buf_samples b);
          b1 = b\<lparr>buf_samples := drop n (buf_samples b)\<rparr>
      in if batch = [] then (0, b1, d)
         else (let (count, d1) = record_samples now batch d in (count, b1, d1)))"

text \<open>The loop that empties the buffer at shutdown: it stops when a flush reports no sample.  The
  recursion ends because a flush that reports one shortens the buffer.\<close>

fun buffer_drain :: "nat \<Rightarrow> instant \<Rightarrow> telemetry_buffer \<times> db \<Rightarrow> (telemetry_buffer \<times> db) option" where
  "buffer_drain 0 now st = None"
| "buffer_drain (Suc fuel) now st =
     (let (n, st1) = buffer_flush now st in if n = 0 then Some st1 else buffer_drain fuel now st1)"

end
