(* ===== verification/Provider_Health.thy ===== *)
theory Provider_Health
  imports Provider_Telemetry Download_Routing Worker_Runtime
begin

text \<open>
  The health of a provider: \<^verbatim>\<open>application/provider_health.py\<close>, the polling results of
  \<^verbatim>\<open>infrastructure/catalog_repository.py\<close> (failure counter, cooldown, adaptive polling
  cadence) and the recovery probes of \<^verbatim>\<open>application/maintenance.py\<close>.  One clock reading
  stands for all those of a transaction.  The frontier and cursor columns are not modelled.
\<close>

subsection \<open>HTTP statuses and error messages\<close>

definition CLOUDFLARE_ORIGIN_ERROR_STATUSES :: "int list" where
  "CLOUDFLARE_ORIGIN_ERROR_STATUSES = [520..527]"

definition TRANSIENT_HTTP_STATUSES :: "int list" where
  "TRANSIENT_HTTP_STATUSES = [408, 425, 429, 500, 502, 503, 504] @ CLOUDFLARE_ORIGIN_ERROR_STATUSES"

definition is_transient_provider_status :: "int \<Rightarrow> bool" where
  "is_transient_provider_status status = (status \<in> set TRANSIENT_HTTP_STATUSES)"

definition is_cloudflare_origin_error :: "int \<Rightarrow> bool" where
  "is_cloudflare_origin_error status = (status \<in> set CLOUDFLARE_ORIGIN_ERROR_STATUSES)"

text \<open>\<open>\\w\<close> on the range of the model.\<close>

definition is_word_char :: "char \<Rightarrow> bool" where
  "is_word_char c = (let n = (of_char c :: nat) in
     48 \<le> n \<and> n \<le> 57 \<or> 65 \<le> n \<and> n \<le> 90 \<or> 97 \<le> n \<and> n \<le> 122 \<or> n = 95 \<or>
     n \<in> set [170, 178, 179, 181, 185, 186, 188, 189, 190] \<or> 192 \<le> n \<and> n \<noteq> 215 \<and> n \<noteq> 247)"

text \<open>\<open>(?:error\\s+['"]|Status/)\<close>, ignoring case, at the start of a text: what follows it.\<close>

definition after_status_prefix :: "string \<Rightarrow> string option" where
  "after_status_prefix s =
     (if py_startswith (py_lower s) ''error'' \<and>
         (let r = drop 5 s; t = dropWhile is_space r
          in t \<noteq> r \<and> t \<noteq> [] \<and> hd t \<in> set [CHR 39, CHR 34])
      then Some (tl (dropWhile is_space (drop 5 s)))
      else if py_startswith (py_lower s) ''status/'' then Some (drop 7 s) else None)"

definition word_ends :: "string \<Rightarrow> bool" where
  "word_ends s = (s = [] \<or> \<not> is_word_char (hd s))"

definition status_here :: "string list \<Rightarrow> string \<Rightarrow> bool" where
  "status_here codes s = (case after_status_prefix s of
     None \<Rightarrow> False | Some r \<Rightarrow> take 3 r \<in> set codes \<and> word_ends (drop 3 r))"

fun search_status :: "string list \<Rightarrow> string \<Rightarrow> bool" where
  "search_status codes [] = False"
| "search_status codes (c # s) = (status_here codes (c # s) \<or> search_status codes s)"

definition contains_cloudflare_origin_error :: "string \<Rightarrow> bool" where
  "contains_cloudflare_origin_error msg = search_status (map str_of_int [520..527]) msg"

definition contains_http_forbidden :: "string \<Rightarrow> bool" where
  "contains_http_forbidden msg = search_status [''403''] msg"

subsection \<open>Adaptive polling\<close>

definition or_default :: "int \<Rightarrow> int option \<Rightarrow> int" where
  "or_default v x = (case x of None \<Rightarrow> v | Some n \<Rightarrow> if n = 0 then v else n)"

definition update_poll_cadence :: "bool \<Rightarrow> bool \<Rightarrow> provider_policy \<Rightarrow> provider_policy" where
  "update_poll_cadence successful changed p =
     (let m = pol_metadata p;
          base = or_default 0 (pm_base_poll_seconds m);
          current = or_default base (pm_adaptive_poll_seconds m);
          streak = or_default 0 (pm_unchanged_poll_streak m)
      in if base \<le> 0 then p
         else
           (let (current1, streak1) =
              (if \<not> successful then (min (base * 4) (round_half_even (of_int (max current base) * (3 / 2))), 0)
               else if changed then (max (base div 2) (round_half_even (of_int current * (3 / 4))), 0)
               else (min (base * 4) (round_half_even (of_int current * (11 / 10 + of_int (min (streak + 1) 5) * (1 / 50)))),
                     streak + 1))
            in p\<lparr>pol_metadata := m\<lparr>pm_adaptive_poll_seconds := Some (max 60 current1),
                   pm_unchanged_poll_streak := Some streak1, pm_last_poll_had_changes := Some changed\<rparr>\<rparr>))"

subsection \<open>Results of a poll\<close>

definition update_policy :: "string \<Rightarrow> (provider_policy \<Rightarrow> provider_policy) \<Rightarrow> db \<Rightarrow> db" where
  "update_policy src f d = (case find_policy src d of None \<Rightarrow> d | Some p \<Rightarrow> put_policy (f p) d)"

definition record_poll_success :: "instant \<Rightarrow> string \<Rightarrow> int \<Rightarrow> bool \<Rightarrow> db \<Rightarrow> db" where
  "record_poll_success now src partial_failures candidates d =
     (let (s, d1) = ensure_source_state now src d;
          s1 = s\<lparr>sst_health_status := (if partial_failures \<noteq> 0 then Degraded else Healthy),
                 sst_consecutive_failures := 0,
                 sst_last_error := (if partial_failures \<noteq> 0 then str_of_int partial_failures @ '' item failures'' else []),
                 sst_cooldown_until := None, sst_last_poll_at := Some now, sst_updated_at := now\<rparr>
      in update_policy src (\<lambda>p. update_poll_cadence (partial_failures = 0) candidates
             (p\<lparr>pol_clean_since := (case pol_clean_since p of None \<Rightarrow> Some now | t \<Rightarrow> t)\<rparr>))
           (put_source_state s1 d1))"

definition failure_minutes :: "int \<Rightarrow> int" where
  "failure_minutes failures = min (5 * 2 ^ nat (failures - 3)) 360"

definition start_cooldown :: "instant \<Rightarrow> instant \<Rightarrow> provider_policy \<Rightarrow> provider_policy" where
  "start_cooldown now until p =
     p\<lparr>pol_last_limited_at := Some now, pol_learned_job_limit := max 1 (pol_learned_job_limit p div 2),
       pol_cooldown_seconds := max (pol_cooldown_seconds p) (max 60 ((until - now) div 1000000)),
       pol_metadata := (pol_metadata p)\<lparr>pm_recovery_probe_step := Some 0,
         pm_next_recovery_probe := Some (IsoText (now + minutes 1)), pm_recovery_probe_successes := Some 0\<rparr>\<rparr>"

definition record_poll_failure :: "instant \<Rightarrow> string \<Rightarrow> string \<Rightarrow> instant option \<Rightarrow> db \<Rightarrow> db" where
  "record_poll_failure now src err cooldown_until d =
     (let (s, d1) = ensure_source_state now src d;
          failures = sst_consecutive_failures s + 1;
          cooldown = (if cooldown_until = None \<and> 3 \<le> failures
                      then Some (now + minutes (failure_minutes failures)) else cooldown_until);
          s1 = s\<lparr>sst_consecutive_failures := failures,
                 sst_health_status := (if cooldown = None then Degraded else Cooldown),
                 sst_last_error := take 4000 err, sst_cooldown_until := cooldown,
                 sst_last_poll_at := Some now, sst_updated_at := now\<rparr>
      in update_policy src (\<lambda>p.
             let p1 = update_poll_cadence False False (p\<lparr>pol_clean_since := None\<rparr>)
             in case cooldown of None \<Rightarrow> p1 | Some until \<Rightarrow> start_cooldown now until p1)
           (put_source_state s1 d1))"

definition cooled_down :: "instant \<Rightarrow> instant option \<Rightarrow> bool" where
  "cooled_down now c = (case c of None \<Rightarrow> True | Some t \<Rightarrow> t \<le> now)"

definition record_provider_job_success :: "instant \<Rightarrow> string \<Rightarrow> db \<Rightarrow> db" where
  "record_provider_job_success now src d =
     (let (s, d1) = ensure_source_state now src d
      in if \<not> cooled_down now (sst_cooldown_until s) then d1
         else
           (let s1 = s\<lparr>sst_health_status := Healthy, sst_consecutive_failures := 0, sst_last_error := [],
                       sst_cooldown_until := None, sst_updated_at := now\<rparr>;
                d2 = put_source_state s1 d1;
                d3 = d2\<lparr>endpoints := map (\<lambda>e.
                       if ep_source e = src \<and> cooled_down now (ep_cooldown_until e)
                       then e\<lparr>ep_consecutive_failures := 0, ep_last_error := [], ep_cooldown_until := None,
                              ep_updated_at := now\<rparr>
                       else e) (endpoints d2)\<rparr>
            in update_policy src (\<lambda>p. if pol_clean_since p = None
                 then p\<lparr>pol_clean_since := Some now, pol_updated_at := now\<rparr> else p) d3))"

subsection \<open>Failures of a provider\<close>

definition provider_cooldown_until :: "instant \<Rightarrow> string \<Rightarrow> db \<Rightarrow> instant" where
  "provider_cooldown_until now src d =
     now + seconds (case find_policy src d of None \<Rightarrow> 300 | Some p \<Rightarrow> max (pol_cooldown_seconds p) 60)"

definition record_provider_failure ::
  "validator \<Rightarrow> instant \<Rightarrow> string \<Rightarrow> string \<Rightarrow> instant option \<Rightarrow> string \<Rightarrow> int list \<Rightarrow> db \<Rightarrow>
   (instant option \<times> db) result" where
  "record_provider_failure model_validate now src err cooldown_until cls locked d =
     (let d1 = record_poll_failure now src err cooldown_until d;
          effective = (case find_source_state src d1 of Some s \<Rightarrow> sst_cooldown_until s | None \<Rightarrow> cooldown_until);
          (e, d2) = ensure_endpoint now src cls d1;
          e1 = e\<lparr>ep_consecutive_failures := ep_consecutive_failures e + 1, ep_last_error := take 4000 err,
                 ep_cooldown_until := effective, ep_updated_at := now\<rparr>;
          d3 = put_endpoint e1 d2
      in case effective of
           None \<Rightarrow> Inr (None, d3)
         | Some until \<Rightarrow>
             bind_result (bypass_cooling_source model_validate now src until locked d3) (\<lambda>(_, d4).
               Inr (Some until, d4)))"

subsection \<open>Recovery probes\<close>

definition probe_intervals :: "int list" where
  "probe_intervals = [1, 2, 5, 10, 20, 40, 60]"

definition record_probe_failure :: "instant \<Rightarrow> string \<Rightarrow> db \<Rightarrow> int \<times> db" where
  "record_probe_failure now src d =
     (case find_policy src d of
        None \<Rightarrow> (5, d)
      | Some p \<Rightarrow>
          (let m = pol_metadata p;
               step = min (or_default 0 (pm_recovery_probe_step m) + 1) (int (length probe_intervals) - 1);
               delay = probe_intervals ! nat step;
               m1 = m\<lparr>pm_recovery_probe_step := Some step, pm_recovery_probe_successes := Some 0,
                      pm_recovery_started_at := (case pm_recovery_started_at m of
                         None \<Rightarrow> Some (IsoText now) | t \<Rightarrow> t),
                      pm_next_recovery_probe := Some (IsoText (now + minutes delay))\<rparr>
           in (delay, put_policy (p\<lparr>pol_metadata := m1, pol_updated_at := now\<rparr>) d)))"

text \<open>The cooldown that is learned from the length of an outage: a fifth more, within a minute and
  six hours.\<close>

definition learned_cooldown :: "instant \<Rightarrow> iso_value option \<Rightarrow> int \<Rightarrow> int" where
  "learned_cooldown now started old =
     (case started of
        Some (IsoText t) \<Rightarrow>
          (let elapsed = (if t \<le> now then (now - t) div 1000000 else - ((t - now) div 1000000));
               scaled = (if 0 \<le> elapsed then (elapsed * 6) div 5 else - ((- elapsed * 6) div 5))
           in max 60 (min 21600 scaled))
      | _ \<Rightarrow> old)"

definition recover_endpoint :: "instant \<Rightarrow> string \<Rightarrow> provider_endpoint_state \<Rightarrow> provider_endpoint_state" where
  "recover_endpoint now src e =
     (if ep_source e = src
      then e\<lparr>ep_cooldown_until := None, ep_next_request_at := None, ep_consecutive_failures := 0,
             ep_last_error := [], ep_updated_at := now\<rparr>
      else e)"

definition recover_state :: "instant \<Rightarrow> catalog_source_state \<Rightarrow> catalog_source_state" where
  "recover_state now s =
     s\<lparr>sst_cooldown_until := None, sst_health_status := Healthy, sst_consecutive_failures := 0,
       sst_last_error := [], sst_next_request_at := None, sst_updated_at := now, sst_last_poll_at := None\<rparr>"

definition probe_succeeded :: "instant \<Rightarrow> string \<Rightarrow> int list \<Rightarrow> db \<Rightarrow> db" where
  "probe_succeeded now src locked d =
     (case find_policy src d of
        None \<Rightarrow> d
      | Some p \<Rightarrow>
          (let m = pol_metadata p;
               successes = or_default 0 (pm_recovery_probe_successes m) + 1
           in if 2 \<le> successes then
                (let p1 = p\<lparr>pol_cooldown_seconds := learned_cooldown now (pm_recovery_started_at m) (pol_cooldown_seconds p),
                            pol_metadata := m\<lparr>pm_next_recovery_probe := None, pm_recovery_probe_step := None,
                              pm_recovery_probe_successes := None, pm_recovery_started_at := None\<rparr>,
                            pol_updated_at := now\<rparr>;
                     d1 = (case find_source_state src d of
                             None \<Rightarrow> d | Some s \<Rightarrow> put_source_state (recover_state now s) d);
                     d2 = d1\<lparr>endpoints := map (recover_endpoint now src) (endpoints d1)\<rparr>;
                     d3 = snd (resume_recovered_provider now src locked d2)
                 in put_policy p1 d3)
              else put_policy (p\<lparr>pol_metadata := m\<lparr>pm_recovery_probe_successes := Some successes,
                       pm_next_recovery_probe := Some (IsoText (now + seconds 30))\<rparr>,
                     pol_updated_at := now\<rparr>) d))"

text \<open>How a probe of an adapter ends.\<close>

datatype probe_outcome =
    ProbeOk
  | ProbeRateLimited string
  | ProbeStatus int string
  | ProbeRaised string

text \<open>
  The handler of maintenance jobs.  \<open>adapter\<close> is \<open>adapter_factory\<close> with the result of probing,
  \<open>lost\<close> whether the lease is found lost afterwards, and \<open>rescore\<close> the transaction that rescores
  the pending match decisions of a series.
\<close>

definition provider_probe ::
  "validator \<Rightarrow> (string \<Rightarrow> probe_outcome option) \<Rightarrow> instant \<Rightarrow> bool \<Rightarrow> int list \<Rightarrow> string \<Rightarrow> db \<Rightarrow> handler_outcome \<times> db" where
  "provider_probe model_validate adapter now lost locked src d =
     (case adapter src of
        None \<Rightarrow> (Deferred ''provider_unavailable'' src (minutes 5), d)
      | Some (ProbeRateLimited msg) \<Rightarrow>
          (let (delay, d1) = record_probe_failure now src d in (Deferred ''rate_limited'' msg (minutes delay), d1))
      | Some (ProbeStatus status msg) \<Rightarrow>
          if \<not> is_cloudflare_origin_error status then (Unexpected msg, d)
          else
            (let cooldown = provider_cooldown_until now src d
             in case record_provider_failure model_validate now src msg (Some cooldown) ''origin'' locked d of
                  Inl _ \<Rightarrow> (Unexpected msg, d)
                | Inr (effective, d1) \<Rightarrow>
                    (let retry_at = (case effective of None \<Rightarrow> cooldown | Some t \<Rightarrow> t)
                     in (Deferred ''provider_origin_unavailable'' msg (max (retry_at - now) (seconds 1)), d1)))
      | Some (ProbeRaised msg) \<Rightarrow> (Unexpected msg, d)
      | Some ProbeOk \<Rightarrow> if lost then (HandlerLeaseLost, d) else (HandlerDone, probe_succeeded now src locked d))"

definition maintenance_handler ::
  "validator \<Rightarrow> (string \<Rightarrow> probe_outcome option) \<Rightarrow> (int \<Rightarrow> db \<Rightarrow> db) \<Rightarrow> instant \<Rightarrow> bool \<Rightarrow> int list \<Rightarrow>
   job_payload \<Rightarrow> db \<Rightarrow> handler_outcome \<times> db" where
  "maintenance_handler model_validate adapter rescore now lost locked payload d =
     (case payload of
        MaintenancePayload m \<Rightarrow>
          (let action = mt_action m in
           if py_startswith action ''provider_probe_''
           then provider_probe model_validate adapter now lost locked (py_removeprefix action ''provider_probe_'') d
           else if action = ''rescore_matches'' then
             (if mt_series_id m \<le> 0 then (Permanent ''invalid_series'' ''rescore requires a series id'', d)
              else if has_runnable_or_leased_downloads now None d
              then (Deferred ''downloads_active'' ''background match rescoring is paused while downloads are active'' (minutes 1), d)
              else (if lost then HandlerLeaseLost else HandlerDone, rescore (mt_series_id m) d))
           else if action \<noteq> ''stage_probe'' then (Permanent ''unknown_maintenance_action'' action, d)
           else (if lost then HandlerLeaseLost else HandlerDone, d))
      | _ \<Rightarrow> (Unexpected ''maintenance handler received the wrong payload'', d))"

end
