(* ===== verification/Queue_Keeping.thy ===== *)
theory Queue_Keeping
  imports Job_Retention Download_Plan_Facts Provider_Health
begin

text \<open>
  Transactions of other components that write queue rows themselves: each of them takes a state
  in which the queue invariants hold to another such state.  The relation composes, so that a
  whole scheduler tick or a handler is covered by the lemmas of its parts.
\<close>

definition keeps :: "pool_limits \<Rightarrow> instant \<Rightarrow> db \<Rightarrow> db \<Rightarrow> bool" where
  "keeps limits now d d' = (queue_ok limits (now, d) \<longrightarrow> queue_ok limits (now, d'))"

lemma keeps_refl [simp]: "keeps limits now d d"
  by (simp add: keeps_def)

lemma keeps_trans: "keeps limits now d e \<Longrightarrow> keeps limits now e f \<Longrightarrow> keeps limits now d f"
  by (simp add: keeps_def)

lemma keeps_run: "queue_run mv limits now d d' \<Longrightarrow> keeps limits now d d'"
  unfolding queue_run_def keeps_def using queue.run_inv by blast

lemma keeps_calm:
  assumes "queue_inv d \<Longrightarrow> queue_inv d' \<and> calm now d d'"
  shows "keeps limits now d d'"
  using assms calm_lease_inv by (auto simp: keeps_def queue_ok_def)

lemma keeps_same: "same_queue d d' \<Longrightarrow> keeps limits now d d'"
  by (rule keeps_run [OF queue_run_other])

lemma keeps_enqueue: "enqueue mv now a d = Inr (j, b, d') \<Longrightarrow> keeps limits now d d'"
  by (rule keeps_run [OF queue_run_enqueue])

lemma keeps_prune: "keeps limits now d (snd (prune now batch locked d))"
  by (rule keeps_calm) (simp add: prune_inv prune_calm)

lemma keeps_resume: "keeps limits now d (snd (resume_recovered_provider now src locked d))"
  by (rule keeps_calm) (simp add: resume_inv resume_calm)

lemma keeps_fail_exhausted: "keeps limits now d (snd (fail_exhausted_leases now locked d))"
  unfolding keeps_def using queue_step_ok queue_step.FailExhausted [OF order_refl] by (metis prod.collapse)

lemma keeps_cleanup: "keeps limits now d (snd (cleanup_expired_permits now d))"
  unfolding keeps_def using queue_step_ok queue_step.Cleanup [OF order_refl] by (metis prod.collapse)

text \<open>Loops whose body may raise, over a state or over a counter and a state.\<close>

lemma keeps_fold:
  assumes "\<And>x e. keeps limits now e (f x e)"
  shows "keeps limits now d (fold f xs d)"
  by (induction xs arbitrary: d) (auto intro: keeps_trans assms)

lemma keeps_fold_snd:
  assumes "\<And>x s. keeps limits now (snd s) (snd (f x s))"
  shows "keeps limits now (snd s) (snd (fold f xs s))"
proof (induction xs arbitrary: s)
  case (Cons x xs)
  then show ?case using keeps_trans [OF assms Cons.IH] by simp
qed simp

lemma keeps_loop:
  assumes "fold_result f xs d = Inr d'" and "\<And>x s1 s2. f x s1 = Inr s2 \<Longrightarrow> keeps limits now s1 s2"
  shows "keeps limits now d d'"
  by (rule fold_result_rel [where R = "keeps limits now", OF assms(1)]) (auto intro: keeps_trans assms(2))

lemma keeps_snd_loop:
  assumes "fold_result f xs s = Inr s'" and "\<And>x s1 s2. f x s1 = Inr s2 \<Longrightarrow> keeps limits now (snd s1) (snd s2)"
  shows "keeps limits now (snd s) (snd s')"
  by (rule fold_result_rel [where R = "\<lambda>s s'. keeps limits now (snd s) (snd s')", OF assms(1)])
     (auto intro: keeps_trans assms(2))

subsection \<open>Rows that are written directly\<close>

text \<open>A waiting job stays waiting; a finished job keeps its status.\<close>

definition mild :: "work_job \<Rightarrow> work_job \<Rightarrow> bool" where
  "mild j j' = (same_key j j' \<and> no_new_units j j' \<and> job_status j \<noteq> LEASED \<and> job_status j' \<noteq> LEASED \<and>
     job_ok j' \<and> (is_active j' \<longrightarrow> is_active j))"

lemma mild_put:
  assumes "queue_inv d" "j \<in> set (jobs d)" "mild j j'"
  shows "queue_inv (put_job j' d) \<and> calm t d (put_job j' d)"
proof
  show "queue_inv (put_job j' d)"
    using assms by (intro inv_keep_row [where j = j]) (auto simp: mild_def same_lease_def leased_repair_def)
  show "calm t d (put_job j' d)"
    using assms by (intro calm_put [where j = j and j' = j']) (auto simp: mild_def row_calm_def live_lease_def same_key_def)
qed

lemma queue_inv_same: "same_queue d d' \<Longrightarrow> queue_inv d' = queue_inv d"
  by (rule queue_inv_cong) (simp_all add: same_queue_def)

lemma calm_same_queue: "same_queue d d' \<Longrightarrow> calm t d d'"
  by (rule calm_same) (simp_all add: same_queue_def)

text \<open>One row after another, each found as it was selected.\<close>

definition row_safe :: "(work_job \<Rightarrow> bool) \<Rightarrow> instant \<Rightarrow> work_job \<Rightarrow> db \<Rightarrow> db \<Rightarrow> bool" where
  "row_safe P t j d d' = (queue_inv d' \<and> calm t d d' \<and>
     (\<forall>k \<in> set (jobs d). P k \<and> job_id k \<noteq> job_id j \<longrightarrow> k \<in> set (jobs d')))"

lemma keeps_rows:
  assumes one: "\<And>j s1 s2. queue_inv (snd s1) \<Longrightarrow> j \<in> set (jobs (snd s1)) \<Longrightarrow> P j \<Longrightarrow> f j s1 = Inr s2 \<Longrightarrow>
       row_safe P t j (snd s1) (snd s2)"
  shows "queue_inv (snd s) \<Longrightarrow> distinct (map job_id rows) \<Longrightarrow> set rows \<subseteq> set (jobs (snd s)) \<Longrightarrow>
    \<forall>j \<in> set rows. P j \<Longrightarrow> fold_result f rows s = Inr s' \<Longrightarrow> queue_inv (snd s') \<and> calm t (snd s) (snd s')"
proof (induction rows arbitrary: s)
  case Nil
  then show ?case by simp
next
  case (Cons j rows)
  then obtain s1 where s1: "f j s = Inr s1" and rest: "fold_result f rows s1 = Inr s'"
    by (auto simp: bind_result_eq_Inr)
  have step: "row_safe P t j (snd s) (snd s1)"
    by (rule one [OF Cons.prems(1) _ _ s1]) (use Cons.prems in auto)
  have "k \<in> set (jobs (snd s1))" if "k \<in> set rows" for k
  proof -
    have "job_id k \<noteq> job_id j" using Cons.prems(2) that by (metis distinct.simps(2) image_eqI list.set_map list.simps(9))
    moreover have "k \<in> set (jobs (snd s))" using Cons.prems(3) that by auto
    ultimately show ?thesis using step Cons.prems(4) that by (simp add: row_safe_def)
  qed
  then have "queue_inv (snd s') \<and> calm t (snd s1) (snd s')"
    using Cons.prems(2,4) step by (intro Cons.IH [OF _ _ _ _ rest]) (auto simp: row_safe_def)
  then show ?case using step calm_trans unfolding row_safe_def by blast
qed

subsection \<open>Bypassing a provider\<close>

lemma hold_mild: "job_ok j \<Longrightarrow> job_status j \<in> {QUEUED, RETRY_WAIT} \<Longrightarrow> mild j (j\<lparr>job_status := RETRY_WAIT, job_available_at := t\<rparr>)"
  by (auto simp: mild_def row_change_defs)

lemma put_release_frame [simp]: "jobs (put_release r d) = jobs d"
  by (simp add: put_release_def)

lemma hold_keeps:
  assumes inv: "queue_inv d" and j: "j \<in> set (jobs d)" and w: "job_status j \<in> {QUEUED, RETRY_WAIT}"
  shows "row_safe P t j d (hold_until after j r d)"
proof -
  let ?d = "put_release (r\<lparr>rel_downloadable_after := Some after\<rparr>) d"
  have same: "same_queue d ?d" by simp
  have "queue_inv ?d" "j \<in> set (jobs ?d)" using inv j queue_inv_same [OF same] by simp_all
  from mild_put [OF this hold_mild [OF queue_inv_job_ok [OF inv j] w]]
  have "queue_inv (hold_until after j r d)" "calm t ?d (hold_until after j r d)" for t
    unfolding hold_until_def by blast+
  then show ?thesis
    using calm_trans [OF calm_same_queue [OF same]] by (auto simp: row_safe_def hold_until_def intro: in_put_row_other)
qed

lemma reroute_waiting_others:
  "reroute_waiting mv now i p src av m dt d = Inr (b, d') \<Longrightarrow> k \<in> set (jobs d) \<Longrightarrow> job_id k \<noteq> i \<Longrightarrow> k \<in> set (jobs d')"
  by (auto simp: reroute_waiting_def Let_def bind_result_eq_Inr dest!: find_job_in split: option.splits if_splits
      intro!: in_put_row_other)

lemma bypass_job_keeps:
  assumes inv: "queue_inv (snd s)" and j: "j \<in> set (jobs (snd s))" and w: "waiting_download src locked j"
    and run: "bypass_job mv now src after j s = Inr s'"
  shows "row_safe P t j (snd s) (snd s')"
proof -
  obtain n d where s: "s = (n, d)" by (cases s)
  have st: "job_status j \<in> {QUEUED, RETRY_WAIT}" using w by (auto simp: waiting_download_def)
  note hold = hold_keeps [OF inv [unfolded s snd_conv] j [unfolded s snd_conv] st]
  consider "s' = s" | failed m where "s' = (m, hold_until after j failed d)"
    | p src' av msg dt b d1 m alt ch where "reroute_waiting mv now (job_id j) p src' av msg dt d = Inr (b, d1)"
        "s' = (m, add_attempt alt (queue_intent_job now ch (job_id j) d1))"
    using run unfolding bypass_job_def s
    by (auto simp: Let_def bind_result_eq_Inr split: option.splits if_splits prod.splits)
  then show ?thesis
  proof cases
    case 1
    then show ?thesis using inv by (simp add: row_safe_def)
  next
    case 2
    then show ?thesis using hold s by simp
  next
    case 3
    have same: "same_queue d1 (add_attempt alt (queue_intent_job now ch (job_id j) d1))"
      by (rule same_queue_trans [OF same_queue_intent_job same_queue_put(4)])
    have "queue_inv d1" using reroute_waiting_inv [OF _ 3(1)] inv s by simp
    moreover have "calm t d d1" by (rule reroute_waiting_calm [OF 3(1)])
    ultimately show ?thesis
      using 3 same s reroute_waiting_others [OF 3(1)] calm_trans [OF _ calm_same_queue [OF same]] queue_inv_same [OF same]
      by (auto simp: row_safe_def same_queue_def)
  qed
qed

lemma keeps_bypass:
  assumes "bypass_cooling_source mv now src after locked d = Inr (n, d')"
  shows "keeps limits now d d'"
proof (rule keeps_calm)
  assume inv: "queue_inv d"
  have run: "fold_result (bypass_job mv now src after) (filter (waiting_download src locked) (jobs d)) (0, d) = Inr (n, d')"
    using assms by (simp add: bypass_cooling_source_def)
  have "queue_inv (snd (n, d')) \<and> calm now (snd (0 :: int, d)) (snd (n, d'))"
  proof (rule keeps_rows [where P = "waiting_download src locked", OF _ _ _ _ _ run])
    show "distinct (map job_id (filter (waiting_download src locked) (jobs d)))"
      using inv by (rule queue_inv_filter_distinct)
  qed (use inv in \<open>auto intro: bypass_job_keeps\<close>)
  then show "queue_inv d' \<and> calm now d d'" by simp
qed

end
