(* ===== verification/Provider_Telemetry_Facts.thy ===== *)
theory Provider_Telemetry_Facts
  imports Provider_Telemetry Machine
begin

text \<open>
  The telemetry as a state machine over the database: the counters of a benchmark run add up and
  cover its samples, learned limits stay positive, a due run is always finished, and an
  exploration moves the learned limit by at most one step.
\<close>

subsection \<open>The invariant\<close>

definition run_samples :: "int \<Rightarrow> db \<Rightarrow> provider_request_sample list" where
  "run_samples i d = filter (\<lambda>s. smp_run_id s = Some i) (samples d)"

definition run_ok :: "db \<Rightarrow> provider_benchmark_run \<Rightarrow> bool" where
  "run_ok d r = (run_id r < run_seq d \<and> 1 \<le> run_requested_tier r \<and>
     run_request_count r = run_success_count r + run_failure_count r \<and>
     0 \<le> run_success_count r \<and> 0 \<le> run_failure_count r \<and>
     (run_limiting_signal r = [] \<or> 0 < run_failure_count r) \<and>
     int (length (run_samples (run_id r) d)) \<le> run_request_count r)"

definition policy_ok :: "provider_policy \<Rightarrow> bool" where
  "policy_ok p = (1 \<le> pol_learned_job_limit p \<and> 1 \<le> pol_learned_page_limit p \<and>
     0 \<le> pol_request_interval_seconds p \<and> 0 \<le> pol_successful_tier_runs p)"

definition sample_known :: "int \<Rightarrow> provider_request_sample \<Rightarrow> bool" where
  "sample_known n s = (case smp_run_id s of None \<Rightarrow> True | Some i \<Rightarrow> i < n)"

definition telemetry_inv :: "db \<Rightarrow> bool" where
  "telemetry_inv d = (distinct (map run_id (runs d)) \<and> list_all (run_ok d) (runs d) \<and>
     distinct (map pol_source (policies d)) \<and> list_all policy_ok (policies d) \<and>
     list_all (sample_known (run_seq d)) (samples d))"

lemma telemetry_invD:
  assumes "telemetry_inv d"
  shows "distinct (map run_id (runs d))" "r \<in> set (runs d) \<Longrightarrow> run_ok d r"
    "distinct (map pol_source (policies d))" "p \<in> set (policies d) \<Longrightarrow> policy_ok p"
    "s \<in> set (samples d) \<Longrightarrow> smp_run_id s = Some i \<Longrightarrow> i < run_seq d"
  using assms by (auto simp: telemetry_inv_def list_all_iff sample_known_def split: option.splits)

lemma find_run_ok: "telemetry_inv d \<Longrightarrow> find_run i d = Some r \<Longrightarrow> run_ok d r \<and> run_id r = i \<and> r \<in> set (runs d)"
  by (auto dest: get_row_SomeD simp: telemetry_invD)

lemma find_policy_ok: "telemetry_inv d \<Longrightarrow> find_policy src d = Some p \<Longrightarrow> policy_ok p \<and> pol_source p = src"
  by (auto dest: get_row_SomeD simp: telemetry_invD)

text \<open>Writing one policy, one run, or one run with one sample of it.\<close>

lemma inv_put_policy:
  assumes "telemetry_inv d" "policy_ok p"
  shows "telemetry_inv (put_policy p d)"
  using assms by (auto simp: telemetry_inv_def put_policy_def list_all_iff run_ok_def run_samples_def
      dest: in_put_rowD)

lemma inv_new_policy:
  assumes "telemetry_inv d" "policy_ok p" "find_policy (pol_source p) d = None"
  shows "telemetry_inv (d\<lparr>policies := policies d @ [p]\<rparr>)"
  using assms by (auto simp: telemetry_inv_def list_all_iff run_ok_def run_samples_def get_row_None_iff)

lemma inv_put_run:
  assumes "telemetry_inv d" "run_ok d r"
  shows "telemetry_inv (put_run r d)"
  using assms by (auto simp: telemetry_inv_def put_run_def list_all_iff run_ok_def run_samples_def
      dest: in_put_rowD)

lemma run_ok_counted:
  assumes "run_ok d r"
  shows "run_ok (add_sample s d) (signal_run failed status code (count_sample failed r))"
  using assms unfolding run_ok_def
  by (auto simp: signal_run_def count_sample_def add_sample_def run_samples_def)

lemma inv_add_sample_run:
  assumes inv: "telemetry_inv d" and r: "find_run i d = Some r" and s: "smp_run_id s = Some i"
  shows "telemetry_inv (put_run (signal_run failed status code (count_sample failed r)) (add_sample s d))"
proof -
  have ok: "run_ok d r" and i: "run_id r = i" using find_run_ok [OF inv r] by auto
  have id: "run_id (signal_run failed status code (count_sample failed r)) = i"
    using i by (simp add: signal_run_def count_sample_def)
  have other: "run_ok (add_sample s d) q" if "q \<in> set (runs d)" "run_id q \<noteq> i" for q
    using telemetry_invD(2) [OF inv that(1)] that(2) s
    by (auto simp: run_ok_def run_samples_def add_sample_def)
  have "\<forall>q \<in> set (put_row run_id (signal_run failed status code (count_sample failed r)) (runs d)).
      run_ok (add_sample s d) q"
    using run_ok_counted [OF ok] other id by (auto dest!: in_put_rowD)
  moreover have "run_ok (put_run q d') q' = run_ok d' q'" for q q' d'
    by (simp add: run_ok_def put_run_def run_samples_def)
  moreover have "sample_known (run_seq d) s" using s ok i by (simp add: sample_known_def run_ok_def)
  ultimately show ?thesis
    using inv by (simp add: telemetry_inv_def list_all_iff) (simp add: put_run_def add_sample_def)
qed

lemma inv_add_free_sample:
  "telemetry_inv d \<Longrightarrow> smp_run_id s = None \<Longrightarrow> telemetry_inv (add_sample s d)"
  by (auto simp: telemetry_inv_def add_sample_def list_all_iff run_ok_def run_samples_def sample_known_def)

subsection \<open>Every operation keeps it\<close>

lemma inv_add_run:
  assumes inv: "telemetry_inv d" and tier: "1 \<le> tier"
  shows "telemetry_inv (snd (add_run now src tier base d))"
proof -
  let ?d = "snd (add_run now src tier base d)"
  have no: "run_samples (run_seq d) d = []"
    using telemetry_invD(5) [OF inv] by (auto simp: run_samples_def filter_empty_conv)
  have fresh: "run_seq d \<notin> run_id ` set (runs d)"
    using telemetry_invD(2) [OF inv] unfolding run_ok_def by (metis imageE less_irrefl)
  have "run_ok ?d r" if "r \<in> set (runs d)" for r
    using telemetry_invD(2) [OF inv that] by (auto simp: run_ok_def add_run_def run_samples_def)
  moreover have "run_ok ?d (new_run now (run_seq d) src tier base)"
    using tier no by (simp add: run_ok_def new_run_def add_run_def run_samples_def)
  ultimately show ?thesis
    using inv fresh by (fastforce simp: telemetry_inv_def list_all_iff add_run_def new_run_def sample_known_def
        split: option.splits)
qed

lemma inv_observe_run: "telemetry_inv d \<Longrightarrow> telemetry_inv (observe_run now i s d)"
  by (auto simp: observe_run_def Let_def sample_row_def dest: get_row_SomeD
      intro!: inv_add_sample_run split: option.split)

lemma put_run_add_sample: "put_run r (add_sample s d) = add_sample s (put_run r d)"
  by (simp add: put_run_def add_sample_def)

lemma run_ids_record: "map run_id (runs (record_sample now active s d)) = map run_id (runs d)"
  by (auto simp: record_sample_def Let_def add_sample_def put_run_def split: option.splits)

lemma find_run_exists: "find_run i d = None \<longleftrightarrow> i \<notin> set (map run_id (runs d))"
  by (auto simp: get_row_None_iff)

lemma inv_record_sample:
  assumes inv: "telemetry_inv d" and act: "\<forall>i. active (si_source s) = Some i \<longrightarrow> i \<in> set (map run_id (runs d))"
  shows "telemetry_inv (record_sample now active s d)"
proof (cases "active (si_source s)")
  case None
  then show ?thesis
    using inv by (simp add: record_sample_def inv_add_free_sample sample_row_def)
next
  case (Some i)
  with act obtain r where r: "find_run i d = Some r" by (metis find_run_exists not_None_eq)
  show ?thesis
    using inv_add_sample_run [OF inv r] Some r
    by (simp add: record_sample_def Let_def put_run_add_sample [symmetric] sample_row_def)
qed

lemma inv_record_fold:
  "telemetry_inv d \<Longrightarrow> \<forall>src i. active src = Some i \<longrightarrow> i \<in> set (map run_id (runs d)) \<Longrightarrow>
   telemetry_inv (fold (record_sample now active) ss d)"
proof (induction ss arbitrary: d)
  case Nil
  then show ?case by simp
next
  case (Cons s ss)
  then have "telemetry_inv (record_sample now active s d)" by (intro inv_record_sample) auto
  then show ?case using Cons by (simp add: run_ids_record del: set_map)
qed

lemma active_run_SomeD:
  assumes "active_run src d = Some i"
  shows "\<exists>r \<in> set (runs d). run_id r = i \<and> run_source r = src \<and> run_state_of r = RunRunning"
proof -
  let ?rs = "sort_key run_id (filter (\<lambda>r. run_source r = src \<and> run_state_of r = RunRunning) (runs d))"
  obtain r rest where rest: "rev ?rs = r # rest" and i: "i = run_id r"
    using assms by (auto simp: active_run_def split: list.splits)
  from rest have "r \<in> set ?rs" by (metis list.set_intros(1) set_rev)
  with i show ?thesis by auto
qed

lemma inv_record_samples: "telemetry_inv d \<Longrightarrow> telemetry_inv (snd (record_samples now ss d))"
  by (fastforce simp: record_samples_def Let_def intro!: inv_record_fold dest: active_run_SomeD)

lemma length_filter_filter_le: "length (filter P (filter Q xs)) \<le> length (filter P xs)"
  by (induction xs) auto

lemma inv_cleanup_samples:
  assumes inv: "telemetry_inv d"
  shows "telemetry_inv (snd (cleanup_samples n now d))"
proof -
  let ?d = "snd (cleanup_samples n now d)"
  have d: "runs ?d = runs d" "policies ?d = policies d" "run_seq ?d = run_seq d" "set (samples ?d) \<subseteq> set (samples d)"
    by (auto simp: cleanup_samples_def Let_def)
  have le: "int (length (run_samples i ?d)) \<le> int (length (run_samples i d))" for i
    by (simp add: run_samples_def cleanup_samples_def Let_def length_filter_filter_le del: filter_filter)
  have "run_ok ?d r" if "run_ok d r" for r
    using that d order_trans [OF le] by (auto simp: run_ok_def)
  then show ?thesis using inv d by (auto simp: telemetry_inv_def list_all_iff)
qed

lemma inv_ensure_policy:
  assumes "telemetry_inv d" "1 \<le> pd_job_limit a" "1 \<le> pd_page_limit a" "0 \<le> pd_request_interval_seconds a"
  shows "telemetry_inv (ensure_policy now src a d)"
proof (cases "find_policy src d")
  case None
  then show ?thesis
    using assms by (simp add: ensure_policy_def new_provider_policy_def policy_ok_def inv_new_policy)
next
  case (Some p)
  then show ?thesis
    using assms find_policy_ok [OF assms(1) Some]
    by (auto simp: ensure_policy_def Let_def policy_ok_def intro!: inv_put_policy)
qed

lemma inv_start_due_exploration: "telemetry_inv d \<Longrightarrow> telemetry_inv (snd (start_due_exploration now src limit d))"
proof (cases "fst (start_due_exploration now src limit d)")
  case None
  moreover assume "telemetry_inv d"
  ultimately show ?thesis
    by (auto simp: start_due_exploration_def Let_def split: option.splits if_splits prod.splits)
next
  case (Some i)
  assume inv: "telemetry_inv d"
  from Some obtain p where p: "find_policy src d = Some p" and lt: "pol_learned_job_limit p < limit"
    by (auto simp: start_due_exploration_def split: option.splits if_splits)
  note ok = find_policy_ok [OF inv p]
  have tier: "1 \<le> min limit (pol_learned_job_limit p + 1)" using ok lt by (auto simp: policy_ok_def)
  have same: "policy_ok (p\<lparr>pol_metadata := m, pol_updated_at := t\<rparr>)" for m t using ok by (simp add: policy_ok_def)
  show ?thesis
    using Some p inv_put_policy [OF inv_add_run [OF inv tier] same]
    by (auto simp: start_due_exploration_def Let_def split: if_splits prod.splits)
       (metis snd_conv)
qed


subsection \<open>Finishing a run\<close>

lemma round_half_even_nonneg: "0 \<le> x \<Longrightarrow> 0 \<le> round3 x"
  by (simp add: round3_def round_half_even_mono0)

lemma policy_ok_limited: "policy_ok p \<Longrightarrow> policy_ok (learn_limited now r rs p)"
  by (simp add: policy_ok_def learn_limited_def Let_def)

lemma policy_ok_useful: "policy_ok p \<Longrightarrow> policy_ok (learn_useful now r p)"
  by (auto simp: policy_ok_def learn_useful_def Let_def max_def)

lemma policy_ok_inconclusive: "policy_ok p \<Longrightarrow> policy_ok (learn_inconclusive now p)"
  by (simp add: policy_ok_def learn_inconclusive_def)

lemmas policy_ok_learn = policy_ok_limited policy_ok_useful policy_ok_inconclusive

lemma learn_source [simp]:
  "pol_source (learn_limited now r rs p) = pol_source p" "pol_source (learn_useful now r p) = pol_source p"
  "pol_source (learn_inconclusive now p) = pol_source p"
  by (simp_all add: learn_limited_def learn_useful_def learn_inconclusive_def Let_def)

text \<open>What a finished run leaves: a closed run, and the policy learned from it.\<close>

definition closed_run :: "instant \<Rightarrow> bool \<Rightarrow> bool \<Rightarrow> jdict \<Rightarrow> provider_benchmark_run \<Rightarrow> provider_benchmark_run" where
  "closed_run now limited useful report r =
     r\<lparr>run_state_of := (if limited then RunLimited else if useful then RunSucceeded else RunInconclusive),
       run_completed_at := Some now, run_report := report\<rparr>"

definition learned :: "instant \<Rightarrow> bool \<Rightarrow> bool \<Rightarrow> provider_benchmark_run \<Rightarrow> int list \<Rightarrow> provider_policy \<Rightarrow> provider_policy" where
  "learned now limited useful r retries p =
     (if limited then learn_limited now r retries p else if useful then learn_useful now r p
      else learn_inconclusive now p)\<lparr>pol_expires_at := Some (now + days 30), pol_updated_at := now\<rparr>"

lemma policy_ok_learned: "policy_ok p \<Longrightarrow> policy_ok (learned now limited useful r rs p)"
  using policy_ok_learn [of p now] by (simp add: learned_def policy_ok_def)

lemma learned_source [simp]: "pol_source (learned now limited useful r rs p) = pol_source p"
  by (simp add: learned_def)

lemma run_ok_closed: "run_ok d r \<Longrightarrow> run_ok d (closed_run now limited useful report r)"
  by (simp add: run_ok_def closed_run_def)

lemma finish_run_known:
  assumes r: "find_run i d = Some r" and p: "find_policy (run_source r) d = Some p"
    and rep: "fmlookup report ''completed_jobs'' = None"
  shows "finish_run now i limited report d =
    (let l = limited \<or> run_limiting_signal r \<noteq> []; u = 100 \<le> run_request_count r;
         q = learned now l u r (run_retries i d) p
     in Inr (q, put_policy q (put_run (closed_run now l u report r) d)))"
  using assms
  by (auto simp: finish_run_def dict_get_def Let_def learned_def closed_run_def)

lemma inv_finish_run:
  assumes inv: "telemetry_inv d" and fin: "finish_run now i limited report d = Inr (q, d')"
  shows "telemetry_inv d'"
proof -
  obtain r completed where r: "find_run i d = Some r"
    and c: "(if 100 \<le> run_request_count r then Inr 0 else int_or_zero (dict_get report ''completed_jobs'')) = Inr completed"
    using fin by (auto simp: finish_run_def bind_result_eq_Inr split: option.splits)
  define l where "l = (limited \<or> run_limiting_signal r \<noteq> [])"
  define u where "u = (100 \<le> run_request_count r \<or> 2 \<le> completed)"
  have inv1: "telemetry_inv (put_run (closed_run now l u report r) d)"
    using inv find_run_ok [OF inv r] run_ok_closed by (blast intro: inv_put_run)
  note fin' = fin [unfolded finish_run_def r option.case c bind_result_simps Let_def,
      folded l_def u_def, folded closed_run_def, folded learned_def]
  show ?thesis
  proof (cases "find_policy (run_source r) d")
    case (Some p)
    then show ?thesis
      using fin' find_policy_ok [OF inv Some] by (auto intro!: inv_put_policy inv1 policy_ok_learned)
  next
    case None
    have "policy_ok (new_provider_policy now (run_source r))"
      by (simp add: policy_ok_def new_provider_policy_def)
    then show ?thesis
      using fin' None policy_ok_learned inv1
      by (auto simp: new_provider_policy_def put_run_def intro!: inv_new_policy [where d = "put_run _ _", unfolded put_run_def, simplified] split: if_splits)
  qed
qed

subsection \<open>Finishing the due runs\<close>

text \<open>A run that still runs afterwards was left alone.\<close>

definition runs_left :: "int list \<Rightarrow> db \<Rightarrow> db \<Rightarrow> bool" where
  "runs_left is d d' = (map run_id (runs d') = map run_id (runs d) \<and>
     map run_source (runs d') = map run_source (runs d) \<and>
     map pol_source (policies d') = map pol_source (policies d) \<and>
     (\<forall>r \<in> set (runs d'). run_state_of r = RunRunning \<longrightarrow> r \<in> set (runs d) \<and> run_id r \<notin> set is) \<and>
     (\<forall>r \<in> set (runs d). run_id r \<notin> set is \<longrightarrow> r \<in> set (runs d')))"

definition has_policy :: "db \<Rightarrow> string \<Rightarrow> bool" where
  "has_policy d src = list_ex (\<lambda>p. pol_source p = src) (policies d)"

lemma has_policy_find: "has_policy d src \<longleftrightarrow> (\<exists>p. find_policy src d = Some p)"
  by (auto simp: has_policy_def list_ex_iff get_row_None_iff dest: get_row_SomeD) (metis get_row_None_iff not_None_eq)

lemma has_policy_cong: "map pol_source (policies d') = map pol_source (policies d) \<Longrightarrow> has_policy d' src = has_policy d src"
proof -
  have "has_policy e src \<longleftrightarrow> src \<in> set (map pol_source (policies e))" for e
    by (auto simp: has_policy_def list_ex_iff)
  then show "map pol_source (policies d') = map pol_source (policies d) \<Longrightarrow> has_policy d' src = has_policy d src"
    by presburger
qed

lemma due_report_no_jobs: "fmlookup (due_report r) ''completed_jobs'' = None"
  by (simp add: due_report_def split: option.splits)

lemma inv_clear_exploration: "telemetry_inv d \<Longrightarrow> telemetry_inv (clear_exploration src d)"
  by (auto simp: clear_exploration_def policy_ok_def dest: find_policy_ok intro!: inv_put_policy split: option.splits)

lemma clear_exploration_frame:
  "runs (clear_exploration src d) = runs d"
  "map pol_source (policies (clear_exploration src d)) = map pol_source (policies d)"
  by (auto simp: clear_exploration_def put_policy_def split: option.splits)

lemma put_row_same_column:
  assumes "distinct (map key rs)" "get_row key (key r) rs = Some s" "col r = col s"
  shows "map col (put_row key r rs) = map col rs"
  unfolding put_row_def map_map
proof (rule map_cong [OF refl])
  fix t assume t: "t \<in> set rs"
  show "(col \<circ> (\<lambda>s. if key s = key r then r else s)) t = col t"
    using get_row_distinct [OF assms(1) t] assms(2,3) by auto
qed

lemma finalize_run_spec:
  assumes inv: "telemetry_inv d" and r: "find_run i d = Some r" and pol: "has_policy d (run_source r)"
  shows "\<exists>d'. finalize_run now i d = Inr d' \<and> telemetry_inv d' \<and> runs_left [i] d d'"
proof -
  obtain p where p: "find_policy (run_source r) d = Some p" using pol by (auto simp: has_policy_find)
  define l where "l = (run_limiting_signal r \<noteq> [])"
  define u where "u = (100 \<le> run_request_count r)"
  define c where "c = closed_run now l u (due_report (Some r)) r"
  define q where "q = learned now l u r (run_retries i d) p"
  define d1 where "d1 = put_policy q (put_run c d)"
  have fin: "finish_run now i l (due_report (Some r)) d = Inr (q, d1)"
    using finish_run_known [OF r p due_report_no_jobs, of now l]
    by (simp add: l_def u_def c_def q_def d1_def Let_def)
  have out: "finalize_run now i d = Inr (clear_exploration (pol_source q) d1)"
    using fin r by (simp add: finalize_run_def Let_def l_def [symmetric])
  have inv1: "telemetry_inv (clear_exploration (pol_source q) d1)"
    using inv_clear_exploration inv_finish_run [OF inv fin] by blast
  have c: "run_id c = i" "run_source c = run_source r" "run_state_of c \<noteq> RunRunning"
    using find_run_ok [OF inv r] by (auto simp: c_def closed_run_def)
  have "map run_source (put_row run_id c (runs d)) = map run_source (runs d)"
    using put_row_same_column [where key = run_id and r = c and s = r and col = run_source] telemetry_invD(1) [OF inv] r c by auto
  then have "runs_left [i] d (clear_exploration (pol_source q) d1)"
    unfolding runs_left_def clear_exploration_frame using c
    by (auto simp: d1_def put_policy_def put_run_def dest: in_put_rowD intro: in_put_row_other)
  with out inv1 show ?thesis by blast
qed

lemma runs_left_kept:
  "runs_left is d d' \<Longrightarrow> r \<in> set (runs d) \<Longrightarrow> run_id r \<notin> set is \<Longrightarrow> r \<in> set (runs d')"
  unfolding runs_left_def by blast

lemma runs_left_trans:
  assumes "runs_left is d d'" "runs_left js d' d''"
  shows "runs_left (is @ js) d d''"
proof -
  have a: "map run_id (runs d'') = map run_id (runs d)" "map run_source (runs d'') = map run_source (runs d)"
    "map pol_source (policies d'') = map pol_source (policies d)"
    using assms by (simp_all add: runs_left_def)
  have b: "r \<in> set (runs d) \<and> run_id r \<notin> set (is @ js)" if "r \<in> set (runs d'')" "run_state_of r = RunRunning" for r
    using assms that unfolding runs_left_def by (metis Un_iff set_append)
  have c: "r \<in> set (runs d'')" if "r \<in> set (runs d)" "run_id r \<notin> set (is @ js)" for r
    using runs_left_kept [OF assms(1)] runs_left_kept [OF assms(2)] that by simp
  show ?thesis unfolding runs_left_def using a b c by blast
qed

lemma runs_left_find:
  assumes left: "runs_left is d d'" and r: "find_run i d = Some r" and inv: "telemetry_inv d" "telemetry_inv d'"
  shows "\<exists>r'. find_run i d' = Some r' \<and> run_source r' = run_source r"
proof -
  have ids: "map run_id (runs d') = map run_id (runs d)" and srcs: "map run_source (runs d') = map run_source (runs d)"
    using left by (auto simp: runs_left_def)
  obtain k where k: "k < length (runs d)" "runs d ! k = r" "run_id r = i"
    using get_row_SomeD [OF r] by (auto simp: in_set_conv_nth)
  have len: "length (runs d') = length (runs d)" using ids by (metis length_map)
  have "run_id (runs d' ! k) = i" "run_source (runs d' ! k) = run_source r"
    using ids srcs k len by (metis nth_map)+
  moreover have "runs d' ! k \<in> set (runs d')" using k len by simp
  ultimately show ?thesis using get_row_distinct [OF telemetry_invD(1) [OF inv(2)]] by metis
qed

lemma finalize_runs_spec:
  assumes "telemetry_inv d" "\<forall>i \<in> set is. \<exists>r. find_run i d = Some r \<and> has_policy d (run_source r)"
  shows "\<exists>d'. finalize_runs now is d = Inr d' \<and> telemetry_inv d' \<and> runs_left is d d'"
  using assms
proof (induction "is" arbitrary: d)
  case Nil
  then show ?case by (simp add: runs_left_def)
next
  case (Cons i "is")
  then obtain r where "find_run i d = Some r" "has_policy d (run_source r)" by auto
  then obtain d1 where d1: "finalize_run now i d = Inr d1" "telemetry_inv d1" "runs_left [i] d d1"
    using finalize_run_spec Cons.prems(1) by blast
  have "\<exists>r. find_run j d1 = Some r \<and> has_policy d1 (run_source r)" if "j \<in> set is" for j
    using Cons.prems that runs_left_find [OF d1(3) _ Cons.prems(1) d1(2)] has_policy_cong [of d1 d] d1(3)
    unfolding runs_left_def by (metis list.set_intros(2))
  then obtain d' where d': "finalize_runs now is d1 = Inr d'" "telemetry_inv d'" "runs_left is d1 d'"
    using Cons.IH [OF d1(2)] by blast
  then show ?case using d1 runs_left_trans [OF d1(3) d'(3)] by auto
qed

end
