(* ===== verification/Provider_Telemetry_Properties.thy ===== *)
theory Provider_Telemetry_Properties
  imports Provider_Telemetry_Facts
begin

text \<open>The telemetry as a machine, what an exploration can change, and the sample buffer.\<close>

subsection \<open>The machine\<close>

definition defaults_ok :: "policy_defaults \<Rightarrow> bool" where
  "defaults_ok a = (1 \<le> pd_job_limit a \<and> 1 \<le> pd_page_limit a \<and> 0 \<le> pd_request_interval_seconds a)"

inductive telemetry_step :: "db \<Rightarrow> db \<Rightarrow> bool" where
  Begin: "1 \<le> tier \<Longrightarrow> telemetry_step d (snd (begin_run now src tier d))"
| Observe: "telemetry_step d (observe_run now i s d)"
| Record: "telemetry_step d (snd (record_samples now ss d))"
| Cleanup: "telemetry_step d (snd (cleanup_samples n now d))"
| Ensure: "defaults_ok a \<Longrightarrow> telemetry_step d (ensure_policy now src a d)"
| Explore: "telemetry_step d (snd (start_due_exploration now src limit d))"
| Finish: "finish_run now i limited report d = Inr (q, d') \<Longrightarrow> telemetry_step d d'"
| Clear: "telemetry_step d (clear_exploration src d)"
| Other: "runs d' = runs d \<Longrightarrow> run_seq d' = run_seq d \<Longrightarrow> samples d' = samples d \<Longrightarrow>
    policies d' = policies d \<Longrightarrow> telemetry_step d d'"

definition telemetry_init :: "db \<Rightarrow> bool" where
  "telemetry_init d = (runs d = [] \<and> samples d = [] \<and> policies d = [])"

lemma inv_other:
  assumes "runs d' = runs d" "run_seq d' = run_seq d" "samples d' = samples d" "policies d' = policies d"
  shows "telemetry_inv d' = telemetry_inv d"
proof -
  have "run_ok d' = run_ok d" using assms by (auto simp: run_ok_def run_samples_def)
  then show ?thesis using assms by (simp add: telemetry_inv_def)
qed

lemma telemetry_step_inv: "telemetry_step d d' \<Longrightarrow> telemetry_inv d \<Longrightarrow> telemetry_inv d'"
proof (induction rule: telemetry_step.induct)
  case (Begin tier d now src)
  then show ?case by (simp add: begin_run_def inv_add_run)
next
  case (Other d' d)
  then show ?case using inv_other by blast
qed (auto simp: defaults_ok_def inv_observe_run inv_record_samples inv_cleanup_samples inv_ensure_policy
      inv_start_due_exploration inv_clear_exploration intro: inv_finish_run)

interpretation telemetry: invariant_machine telemetry_init telemetry_step telemetry_inv
proof
  show "telemetry_inv d" if "telemetry_init d" for d
    using that by (simp add: telemetry_init_def telemetry_inv_def)
qed (rule telemetry_step_inv)

text \<open>In every reachable state the successes and failures of a benchmark run add up to its
  requests, a run with a limiting signal has a failure, its stored samples are at most its
  requests, and the learned limits of every provider are at least one, its pacing not negative.
\<close>

theorem telemetry_counts:
  assumes "telemetry_init d0" and "telemetry_step\<^sup>*\<^sup>* d0 d"
  shows "(r \<in> set (runs d) \<longrightarrow> run_request_count r = run_success_count r + run_failure_count r \<and>
            (run_limiting_signal r \<noteq> [] \<longrightarrow> 0 < run_failure_count r) \<and>
            int (length (run_samples (run_id r) d)) \<le> run_request_count r) \<and>
         (p \<in> set (policies d) \<longrightarrow> 1 \<le> pol_learned_job_limit p \<and> 1 \<le> pol_learned_page_limit p \<and>
            0 \<le> pol_request_interval_seconds p)"
proof -
  have inv: "telemetry_inv d" by (rule telemetry.reachable_inv [OF assms])
  show ?thesis
    using telemetry_invD(2) [OF inv, of r] telemetry_invD(4) [OF inv, of p]
    by (auto simp: run_ok_def policy_ok_def)
qed

text \<open>When every running run has a policy, finishing the due runs succeeds: it reports their
  number, no running run is due afterwards, and runs that are not due are left alone.
\<close>

theorem finalize_due_clears:
  assumes inv: "telemetry_inv d"
    and pol: "\<forall>r \<in> set (runs d). run_state_of r = RunRunning \<longrightarrow> has_policy d (run_source r)"
  shows "\<exists>d'. finalize_due now d = Inr (int (length (due_runs now d)), d') \<and> due_runs now d' = [] \<and>
    (\<forall>r \<in> set (runs d). run_state_of r = RunRunning \<and> \<not> run_due now r \<longrightarrow> r \<in> set (runs d'))"
proof -
  have dist: "distinct (map run_id (runs d))" by (rule telemetry_invD(1) [OF inv])
  have due: "\<exists>r \<in> set (runs d). run_id r = i \<and> run_state_of r = RunRunning \<and> run_due now r"
    if "i \<in> set (due_runs now d)" for i using that by (auto simp: due_runs_def)
  have "\<exists>r. find_run i d = Some r \<and> has_policy d (run_source r)" if "i \<in> set (due_runs now d)" for i
    using due [OF that] get_row_distinct [OF dist] pol by metis
  then obtain d' where d': "finalize_runs now (due_runs now d) d = Inr d'" "runs_left (due_runs now d) d d'"
    using finalize_runs_spec [OF inv] by blast
  have "\<not> run_due now r" if "r \<in> set (runs d')" "run_state_of r = RunRunning" for r
    using d'(2) that unfolding runs_left_def due_runs_def by auto
  then have none: "due_runs now d' = []" unfolding due_runs_def by (auto simp: filter_empty_conv)
  have "r \<in> set (runs d')" if r: "r \<in> set (runs d)" "\<not> run_due now r" for r
  proof -
    have "run_id r \<notin> set (due_runs now d)"
      using due [of "run_id r"] r get_row_distinct [OF dist] by (metis option.inject)
    then show ?thesis using runs_left_kept [OF d'(2)] r by blast
  qed
  then show ?thesis using d'(1) none by (auto simp: finalize_due_def Let_def)
qed

subsection \<open>An exploration moves the limit by one step\<close>

text \<open>What may happen between the start of an exploration and its end.\<close>

inductive sampling :: "db \<Rightarrow> db \<Rightarrow> bool" where
  sampling_observe: "sampling d (observe_run now i s d)"
| sampling_record: "sampling d (snd (record_samples now ss d))"
| sampling_cleanup: "sampling d (snd (cleanup_samples n now d))"

definition run_kept :: "int \<Rightarrow> db \<Rightarrow> db \<Rightarrow> bool" where
  "run_kept i d d' = (policies d' = policies d \<and>
     map_option run_source (find_run i d') = map_option run_source (find_run i d) \<and>
     map_option run_requested_tier (find_run i d') = map_option run_requested_tier (find_run i d))"

lemma run_kept_refl: "run_kept i d d"
  by (simp add: run_kept_def)

lemma run_kept_trans: "run_kept i d d' \<Longrightarrow> run_kept i d' d'' \<Longrightarrow> run_kept i d d''"
  by (simp add: run_kept_def)

lemma run_kept_counted:
  assumes "find_run j d = Some r"
  shows "run_kept i d (put_run (signal_run failed status code (count_sample failed r)) (add_sample s d))"
proof -
  have id: "run_id (signal_run failed status code (count_sample failed r)) = j"
    using get_row_SomeD [OF assms] by (simp add: signal_run_def count_sample_def)
  show ?thesis
    using assms id get_put_row_same [OF id [symmetric] assms]
      get_put_row_other [where key = run_id and r = "signal_run failed status code (count_sample failed r)" and k = i and rs = "runs d"]
    by (cases "i = j") (auto simp: run_kept_def put_run_def add_sample_def signal_run_def count_sample_def)
qed

lemma run_kept_sample: "run_kept i d (add_sample s d)"
  by (simp add: run_kept_def add_sample_def)

lemma run_kept_record: "run_kept i d (record_sample now active s d)"
  by (auto simp: record_sample_def Let_def put_run_add_sample [symmetric] run_kept_sample run_kept_counted
      split: option.split)

lemma run_kept_fold: "run_kept i d (fold (record_sample now active) ss d)"
  by (induction ss arbitrary: d) (auto simp: run_kept_refl intro: run_kept_trans [OF run_kept_record])

lemma sampling_kept: "sampling d d' \<Longrightarrow> run_kept i d d'"
proof (induction rule: sampling.induct)
  case (sampling_observe d now j s)
  then show ?case
    by (auto simp: observe_run_def Let_def run_kept_refl run_kept_counted split: option.split)
next
  case (sampling_record d now ss)
  then show ?case by (simp add: record_samples_def Let_def run_kept_fold)
next
  case (sampling_cleanup d n now)
  then show ?case by (simp add: cleanup_samples_def Let_def run_kept_def)
qed

lemma samplings_kept: "sampling\<^sup>*\<^sup>* d d' \<Longrightarrow> run_kept i d d'"
  by (induction rule: rtranclp_induct) (auto simp: run_kept_refl intro: run_kept_trans sampling_kept)

lemma exploration_started:
  assumes inv: "telemetry_inv d" and st: "start_due_exploration now src limit d = (Some i, d1)"
    and p: "find_policy src d = Some p"
  shows "pol_learned_job_limit p < limit"
    "\<exists>r. find_run i d1 = Some r \<and> run_source r = src \<and> run_requested_tier r = pol_learned_job_limit p + 1"
    "\<exists>m t. find_policy src d1 = Some (p\<lparr>pol_metadata := m, pol_updated_at := t\<rparr>)"
proof -
  let ?L = "pol_learned_job_limit p"
  show lt: "?L < limit" using st p by (auto simp: start_due_exploration_def split: if_splits)
  have src: "pol_source p = src" using get_row_SomeD [OF p] by simp
  define m where "m = (pol_metadata p)\<lparr>pm_exploration_tier := Some (?L + 1),
    pm_exploration_until := Some (IsoText (now + minutes 10)), pm_benchmark_run_id := Some (run_seq d)\<rparr>"
  have tier: "min limit (?L + 1) = ?L + 1" using lt by simp
  have d1: "d1 = put_policy (p\<lparr>pol_metadata := m, pol_updated_at := now\<rparr>) (snd (add_run now src (?L + 1) ?L d))"
    and i: "i = run_seq d"
    using st p tier by (auto simp: start_due_exploration_def Let_def add_run_def m_def split: if_splits)
  have "find_run (run_seq d) d = None"
    unfolding get_row_None_iff using telemetry_invD(2) [OF inv] by (fastforce simp: run_ok_def)
  then show "\<exists>r. find_run i d1 = Some r \<and> run_source r = src \<and> run_requested_tier r = ?L + 1"
    by (simp add: d1 i put_policy_def add_run_def get_row_append get_row_Cons new_run_def)
  have "find_policy src d1 = Some (p\<lparr>pol_metadata := m, pol_updated_at := now\<rparr>)"
    using get_put_row_same [where key = pol_source and k = src and r = "p\<lparr>pol_metadata := m, pol_updated_at := now\<rparr>" and rs = "policies d" and s = p] src p
    by (simp add: d1 put_policy_def add_run_def)
  then show "\<exists>m t. find_policy src d1 = Some (p\<lparr>pol_metadata := m, pol_updated_at := t\<rparr>)" by blast
qed

text \<open>An exploration, whatever samples arrive while it runs, ends with the learned job limit it
  started from or one step above; it never passes the ceiling, and a run with a rate-limit signal
  falls back to the old limit.
\<close>

theorem exploration_one_step:
  assumes inv: "telemetry_inv d" and st: "start_due_exploration now src limit d = (Some i, d1)"
    and p: "find_policy src d = Some p" and run: "sampling\<^sup>*\<^sup>* d1 d2"
    and fin: "finish_run later_now i limited report d2 = Inr (q, d3)"
  shows "pol_learned_job_limit q \<in> {pol_learned_job_limit p, pol_learned_job_limit p + 1} \<and>
    pol_learned_job_limit q \<le> limit \<and>
    (limited \<or> map_option run_limiting_signal (find_run i d2) \<noteq> Some [] \<longrightarrow>
      pol_learned_job_limit q = pol_learned_job_limit p)"
proof -
  let ?L = "pol_learned_job_limit p"
  note started = exploration_started [OF inv st p]
  have L: "1 \<le> ?L" using find_policy_ok [OF inv p] by (simp add: policy_ok_def)
  obtain m t where q1: "find_policy src d2 = Some (p\<lparr>pol_metadata := m, pol_updated_at := t\<rparr>)"
    using started(3) samplings_kept [OF run] by (auto simp: run_kept_def)
  obtain r where r: "find_run i d2 = Some r" and rs: "run_source r = src" "run_requested_tier r = ?L + 1"
    using started(2) samplings_kept [OF run, of i] by (auto simp: run_kept_def)
  from fin r q1 rs obtain l u where
    q: "q = learned later_now l u r (run_retries i d2) (p\<lparr>pol_metadata := m, pol_updated_at := t\<rparr>)"
    and l: "l = (limited \<or> run_limiting_signal r \<noteq> [])"
    by (auto simp: finish_run_def bind_result_eq_Inr learned_def Let_def)
  have "pol_learned_job_limit q \<in> {?L, ?L + 1}"
    using L rs by (auto simp: q learned_def learn_limited_def learn_useful_def learn_inconclusive_def Let_def)
  moreover have "limited \<or> run_limiting_signal r \<noteq> [] \<longrightarrow> pol_learned_job_limit q = ?L"
    using l L rs by (simp add: q learned_def learn_limited_def Let_def)
  ultimately show ?thesis using started(1) r by auto
qed

subsection \<open>The sample buffer\<close>

lemma buffer_observe_frame [simp]:
  "buf_max (fold buffer_observe ss b) = buf_max b" "buf_batch (fold buffer_observe ss b) = buf_batch b"
  by (induction ss arbitrary: b) (simp_all add: buffer_observe_def Let_def)

lemma buffer_fold:
  assumes "length (buf_samples b) \<le> buf_max b" "0 < buf_max b"
  shows "buf_samples (fold buffer_observe ss b) =
    drop (length (buf_samples b @ ss) - buf_max b) (buf_samples b @ ss)"
  using assms(1)
proof (induction ss rule: rev_induct)
  case Nil
  then show ?case by simp
next
  case (snoc s ss)
  define all where "all = buf_samples b @ ss"
  let ?m = "buf_max b"
  have keep: "buf_samples (fold buffer_observe ss b) = drop (length all - ?m) all"
    using snoc by (simp add: all_def)
  have len: "length (drop (length all - ?m) all @ [s]) = (if ?m \<le> length all then Suc ?m else Suc (length all))"
    by simp
  have "buf_samples (fold buffer_observe (ss @ [s]) b) = drop (length (all @ [s]) - ?m) (all @ [s])"
  proof (cases "?m \<le> length all")
    case True
    then have "buf_samples (fold buffer_observe (ss @ [s]) b) = tl (drop (length all - ?m) all @ [s])"
      using len keep by (simp add: buffer_observe_def Let_def)
    also have "\<dots> = drop (Suc (length all - ?m)) all @ [s]"
      using True assms(2) by (simp add: tl_append2 drop_Suc tl_drop)
    finally show ?thesis using True assms(2) by (simp add: Suc_diff_le)
  next
    case False
    then show ?thesis using len keep by (simp add: buffer_observe_def Let_def)
  qed
  then show ?case by (simp add: all_def)
qed

text \<open>A worker's buffer is the bounded queue it is meant to be: after any observations a new
  buffer holds the newest samples, in order, as many as its capacity allows.
\<close>

theorem buffer_keeps_newest:
  "buf_samples (fold buffer_observe ss (new_buffer max_samples batch)) =
     drop (length ss - nat (max 1 max_samples)) ss"
  using buffer_fold [of "new_buffer max_samples batch" ss] by (simp add: new_buffer_def)

text \<open>What a persisted sample keeps of an observation.\<close>

definition sample_core :: "provider_request_sample \<Rightarrow> string \<times> string \<times> int \<times> int \<times> int" where
  "sample_core s = (smp_source s, smp_host s, smp_status_code s, smp_latency_ms s, smp_byte_count s)"

definition input_core :: "sample_in \<Rightarrow> string \<times> string \<times> int \<times> int \<times> int" where
  "input_core s = (si_source s, si_host s, status_of s, si_latency_ms s, si_byte_count s)"

definition known_sample :: "sample_in \<Rightarrow> bool" where
  "known_sample s = (si_source s \<in> set KNOWN_SOURCES)"

lemma record_sample_core:
  "map sample_core (samples (record_sample now active s d)) = map sample_core (samples d) @ [input_core s]"
  by (auto simp: record_sample_def Let_def add_sample_def put_run_def sample_core_def input_core_def sample_row_def
      split: option.split)

lemma record_fold_core:
  "map sample_core (samples (fold (record_sample now active) ss d)) = map sample_core (samples d) @ map input_core ss"
  by (induction ss arbitrary: d) (simp_all add: record_sample_core)

lemma record_samples_core:
  "fst (record_samples now ss d) = int (length (filter known_sample ss))"
  "map sample_core (samples (snd (record_samples now ss d))) =
     map sample_core (samples d) @ map input_core (filter known_sample ss)"
  by (simp_all add: record_samples_def Let_def record_fold_core known_sample_def [abs_def])

lemma buffer_flush_spec:
  assumes "0 < buf_batch b"
  shows "fst (buffer_flush now (b, d)) = int (length (filter known_sample (take (buf_batch b) (buf_samples b))))"
    "fst (snd (buffer_flush now (b, d))) = b\<lparr>buf_samples := drop (buf_batch b) (buf_samples b)\<rparr>"
    "map sample_core (samples (snd (snd (buffer_flush now (b, d))))) =
       map sample_core (samples d) @ map input_core (filter known_sample (take (buf_batch b) (buf_samples b)))"
  using record_samples_core [of now "take (buf_batch b) (buf_samples b)" d]
  by (auto simp: buffer_flush_def Let_def min_def assms split: prod.splits)

text \<open>Draining the buffer at shutdown ends, and when every sample comes from a known provider it
  empties the buffer and stores every sample once, in the order of observation.
\<close>

theorem drain_persists_all:
  assumes "list_all known_sample (buf_samples b)" and "0 < buf_batch b" and "length (buf_samples b) < fuel"
  shows "\<exists>b' d'. buffer_drain fuel now (b, d) = Some (b', d') \<and> buf_samples b' = [] \<and>
    map sample_core (samples d') = map sample_core (samples d) @ map input_core (buf_samples b)"
  using assms
proof (induction fuel arbitrary: b d)
  case 0
  then show ?case by simp
next
  case (Suc fuel)
  let ?n = "buf_batch b" and ?xs = "buf_samples b"
  obtain n b1 d1 where fl: "buffer_flush now (b, d) = (n, b1, d1)" by (metis prod_cases3)
  have all: "filter known_sample (take ?n ?xs) = take ?n ?xs"
    using Suc.prems(1) by (auto simp: list_all_iff intro!: filter_True dest: in_set_takeD)
  have n: "n = int (length (take ?n ?xs))" and b1: "b1 = b\<lparr>buf_samples := drop ?n ?xs\<rparr>"
    and d1: "map sample_core (samples d1) = map sample_core (samples d) @ map input_core (take ?n ?xs)"
    using buffer_flush_spec [OF Suc.prems(2), of now d] fl all by simp_all
  show ?case
  proof (cases "?xs = []")
    case True
    then show ?thesis using fl n b1 d1 by simp
  next
    case False
    then have "0 < length ?xs" by simp
    then have "length ?xs - ?n < fuel" using Suc.prems(2,3) by linarith
    then have "list_all known_sample (buf_samples b1)" "0 < buf_batch b1" "length (buf_samples b1) < fuel"
      using Suc.prems by (auto simp: b1 list_all_iff dest: in_set_dropD)
    from Suc.IH [OF this, of d1] obtain b' d' where IH: "buffer_drain fuel now (b1, d1) = Some (b', d')"
      "buf_samples b' = []" "map sample_core (samples d') = map sample_core (samples d1) @ map input_core (buf_samples b1)"
      by blast
    moreover have "n \<noteq> 0" using n False Suc.prems(2) by simp
    ultimately show ?thesis
      using fl d1 by (simp add: b1 map_append [symmetric] del: map_append)
  qed
qed

text \<open>A benchmark run of a provider without a policy row cannot be finished once it is limited
  or has enough requests: the new row has no limits to compare with, and the error repeats for as
  long as the run is due, so no due run listed after it is finished either.
\<close>

theorem finish_needs_policy:
  assumes "find_run i d = Some r" and "\<not> has_policy d (run_source r)"
    and "run_limiting_signal r \<noteq> [] \<or> 100 \<le> run_request_count r"
  shows "\<exists>e. finalize_run now i d = Inl (TypeError e) \<and> finalize_runs now (i # later_runs) d = Inl (TypeError e)"
proof -
  have none: "find_policy (run_source r) d = None" using assms(2) by (auto simp: has_policy_find)
  show ?thesis
    using assms(1,3) none due_report_no_jobs [of "Some r"]
    by (auto simp: finalize_run_def finish_run_def Let_def dict_get_def)
qed

subsection \<open>A concrete exploration\<close>

definition demo_defaults :: policy_defaults where
  "demo_defaults = \<lparr>pd_job_limit = 2, pd_page_limit = 4, pd_cooldown_seconds = 300,
     pd_request_interval_seconds = 1 / 4, pd_poll_interval_seconds = 1200\<rparr>"

definition demo_sample :: "int option \<Rightarrow> sample_in" where
  "demo_sample status = \<lparr>si_source = ''mangadex'', si_host = ''api'', si_status_code = status, si_latency_ms = 20,
     si_byte_count = 100, si_error_code = [], si_retry_after_seconds = None, si_traffic_class = []\<rparr>"

definition demo_policy_db :: db where
  "demo_policy_db = ensure_policy 0 ''mangadex'' demo_defaults empty_db"

definition demo_exploring :: db where
  "demo_exploring = snd (start_due_exploration (days 8) ''mangadex'' 4 demo_policy_db)"

definition demo_limited :: db where
  "demo_limited = snd (record_samples (days 8) [demo_sample (Some 200), demo_sample (Some 429)] demo_exploring)"

lemma tele_run:
  "telemetry_init empty_db" "telemetry_step\<^sup>*\<^sup>* empty_db demo_policy_db"
  "telemetry_step\<^sup>*\<^sup>* empty_db demo_limited" "sampling\<^sup>*\<^sup>* demo_exploring demo_limited"
proof -
  show "telemetry_init empty_db" by (simp add: telemetry_init_def empty_db_def)
  have "telemetry_step empty_db demo_policy_db"
    unfolding demo_policy_db_def by (rule telemetry_step.Ensure) (simp add: defaults_ok_def demo_defaults_def)
  then show pol: "telemetry_step\<^sup>*\<^sup>* empty_db demo_policy_db" by blast
  have "telemetry_step demo_policy_db demo_exploring" unfolding demo_exploring_def by (rule telemetry_step.Explore)
  moreover have "telemetry_step demo_exploring demo_limited" unfolding demo_limited_def by (rule telemetry_step.Record)
  ultimately show "telemetry_step\<^sup>*\<^sup>* empty_db demo_limited" using pol by (meson rtranclp.rtrancl_into_rtrancl)
  show "sampling\<^sup>*\<^sup>* demo_exploring demo_limited"
    unfolding demo_limited_def by (rule r_into_rtranclp) (rule sampling_record)
qed

lemmas tele_inv = telemetry.reachable_inv [OF tele_run(1,2)] telemetry.reachable_inv [OF tele_run(1,3)]

lemma tele_values:
  "start_due_exploration (days 8) ''mangadex'' 4 demo_policy_db = (Some 1, demo_exploring)"
  "map run_request_count (runs demo_limited) = [2]"
  "map pol_learned_job_limit (policies demo_policy_db) = [2]" "length (due_runs (days 8) demo_limited) = 1"
  "list_all (\<lambda>r. has_policy demo_limited (run_source r)) (runs demo_limited)"
  by code_simp+

theorem telemetry_counts_witness:
  "run_request_count (hd (runs demo_limited)) = run_success_count (hd (runs demo_limited)) + run_failure_count (hd (runs demo_limited))"
proof -
  have "hd (runs demo_limited) \<in> set (runs demo_limited)"
    using tele_values(2) by (intro hd_in_set) auto
  then show ?thesis
    using telemetry_counts [OF tele_run(1,3), where r = "hd (runs demo_limited)"] by simp
qed

theorem finalize_due_clears_witness:
  "\<exists>d'. finalize_due (days 8) demo_limited = Inr (1, d') \<and> due_runs (days 8) d' = []"
proof -
  have "\<forall>r \<in> set (runs demo_limited). run_state_of r = RunRunning \<longrightarrow> has_policy demo_limited (run_source r)"
    using tele_values(5) by (simp add: list_all_iff)
  from finalize_due_clears [OF tele_inv(2) this, of "days 8"] show ?thesis using tele_values(4) by auto
qed

definition demo_finished :: "(provider_policy \<times> db) result" where
  "demo_finished = finish_run (days 8) 1 False fmempty demo_limited"

lemma demo_finished_limit:
  "(case demo_finished of Inr (q, d') \<Rightarrow> pol_learned_job_limit q = 2 \<and> pol_learned_page_limit q = 4 | _ \<Rightarrow> False)"
  by code_simp

theorem exploration_one_step_witness:
  "\<exists>q d'. demo_finished = Inr (q, d') \<and> pol_learned_job_limit q \<in> {2, 3} \<and> pol_learned_job_limit q \<le> 4"
proof -
  obtain q d' where fin: "demo_finished = Inr (q, d')"
    using demo_finished_limit by (auto split: sum.splits prod.splits)
  obtain p where p: "find_policy ''mangadex'' demo_policy_db = Some p" and l: "pol_learned_job_limit p = 2"
    by (simp add: demo_policy_db_def ensure_policy_def empty_db_def demo_defaults_def new_provider_policy_def get_row_Cons)
  have "pol_learned_job_limit q \<in> {2, 3} \<and> pol_learned_job_limit q \<le> 4"
    using exploration_one_step [OF tele_inv(1) tele_values(1) p tele_run(4) fin [unfolded demo_finished_def]] l
    by auto
  with fin show ?thesis by blast
qed

definition demo_buffer :: telemetry_buffer where
  "demo_buffer = fold buffer_observe (map (demo_sample \<circ> Some) [200, 201, 202, 203]) (new_buffer 3 2)"

theorem drain_persists_all_witness:
  "\<exists>b' d'. buffer_drain 4 0 (demo_buffer, empty_db) = Some (b', d') \<and> buf_samples b' = [] \<and>
     map sample_core (samples d') = map input_core (map (demo_sample \<circ> Some) [201, 202, 203])"
proof -
  have "list_all known_sample (buf_samples demo_buffer)" "0 < buf_batch demo_buffer" "length (buf_samples demo_buffer) < 4"
    "buf_samples demo_buffer = map (demo_sample \<circ> Some) [201, 202, 203]"
    by code_simp+
  from drain_persists_all [OF this(1-3), of 0 empty_db] this(4) show ?thesis by (simp add: empty_db_def)
qed

definition demo_benchmark :: db where
  "demo_benchmark = observe_run 0 1 (demo_sample (Some 429)) (snd (begin_run 0 ''mangadex'' 2 empty_db))"

theorem finish_needs_policy_witness:
  "\<exists>e. finalize_run 0 1 demo_benchmark = Inl (TypeError e) \<and> finalize_runs 0 [1] demo_benchmark = Inl (TypeError e)"
proof -
  have "(case find_run 1 demo_benchmark of None \<Rightarrow> False
      | Some r \<Rightarrow> run_limiting_signal r \<noteq> [] \<and> \<not> has_policy demo_benchmark (run_source r))"
    by code_simp
  then obtain r where "find_run 1 demo_benchmark = Some r" "\<not> has_policy demo_benchmark (run_source r)"
    "run_limiting_signal r \<noteq> []" by (auto split: option.splits)
  then show ?thesis by (intro finish_needs_policy) auto
qed

subsection \<open>Polling cadence\<close>

text \<open>The polling interval of a provider with a policy is at least a minute and at most four
  times the configured interval, whatever the stored cadence.
\<close>

theorem poll_interval_bounds:
  "seconds 60 \<le> effective_poll_interval (Some p) fallback \<and>
   effective_poll_interval (Some p) fallback \<le> 4 * max fallback (seconds 60)"
proof -
  have "fallback div 1000000 * 1000000 \<le> fallback" by simp
  then show ?thesis
    unfolding effective_poll_interval_def Let_def
    by (auto split: option.split simp: max_def min_def)
qed

end
