(* ===== verification/Provider_Health_Properties.thy ===== *)
theory Provider_Health_Properties
  imports Queue_Keeping Provider_Telemetry_Properties
begin

text \<open>
  What provider health promises: repeated failures open a circuit for a bounded time during which
  no network job of the provider is claimable; two successful probes close it, release the work
  that was held back, and leave no cooldown behind; the learned limits stay positive.
\<close>

subsection \<open>Frames\<close>

lemma same_queue_health [simp]:
  "same_queue d (put_source_state s d)" "same_queue d (put_endpoint e d)" "same_queue d (put_policy p d)"
  "same_queue d (snd (ensure_source_state now src d))" "same_queue d (snd (ensure_endpoint now src cls d))"
  by (simp_all add: same_queue_def put_source_state_def put_endpoint_def put_policy_def ensure_source_state_def
      ensure_endpoint_def Let_def split: option.splits)

lemma same_queue_update_policy [simp]: "same_queue d (update_policy src f d)"
  by (simp add: update_policy_def split: option.split)

lemma same_queue_poll_failure [simp]: "same_queue d (record_poll_failure now src err c d)"
proof -
  have "same_queue d (put_source_state s (snd (ensure_source_state now src d)))" for s
    by (rule same_queue_trans [OF same_queue_health(4) same_queue_health(1)])
  then show ?thesis
    unfolding record_poll_failure_def Let_def case_prod_unfold
    by (rule same_queue_trans [OF _ same_queue_update_policy])
qed

lemma same_queue_poll_success [simp]: "same_queue d (record_poll_success now src n c d)"
proof -
  have "same_queue d (put_source_state s (snd (ensure_source_state now src d)))" for s
    by (rule same_queue_trans [OF same_queue_health(4) same_queue_health(1)])
  then show ?thesis
    unfolding record_poll_success_def Let_def case_prod_unfold
    by (rule same_queue_trans [OF _ same_queue_update_policy])
qed

lemma keeps_provider_failure:
  assumes "record_provider_failure mv now src err c cls locked d = Inr (t, d')"
  shows "keeps limits now d d'"
proof -
  let ?d1 = "record_poll_failure now src err c d"
  obtain e where e: "same_queue ?d1 e" and out: "d' = e \<or> (\<exists>n until. bypass_cooling_source mv now src until locked e = Inr (n, d'))"
    using assms unfolding record_provider_failure_def Let_def case_prod_unfold
    by (auto simp: bind_result_eq_Inr split: option.splits
        intro: same_queue_trans [OF same_queue_health(5) same_queue_health(2)])
  have "keeps limits now d e" using keeps_same [OF same_queue_trans [OF same_queue_poll_failure e]] .
  then show ?thesis using out keeps_bypass keeps_trans by blast
qed

lemma keeps_probe: "keeps limits now d (probe_succeeded now src locked d)"
proof (cases "find_policy src d")
  case None
  then show ?thesis by (simp add: probe_succeeded_def)
next
  case (Some p)
  have put: "keeps limits now d (put_policy q e)" if "keeps limits now d e" for q e
    using that keeps_trans [OF _ keeps_same [OF same_queue_health(3)]] by blast
  have endp: "same_queue e (e\<lparr>endpoints := xs\<rparr>)" for e :: db and xs by (simp add: same_queue_def)
  have st: "same_queue d (case find_source_state src d of None \<Rightarrow> d | Some s \<Rightarrow> put_source_state (recover_state now s) d)"
    by (simp split: option.split)
  show ?thesis
    unfolding probe_succeeded_def Some option.case Let_def
    by (auto intro!: put keeps_trans [OF keeps_same [OF same_queue_trans [OF st endp]] keeps_resume])
qed

lemma keeps_probe_failure: "keeps limits now d (snd (record_probe_failure now src d))"
  by (simp add: record_probe_failure_def Let_def keeps_same split: option.split)

lemma keeps_provider_probe:
  "keeps limits now d (snd (provider_probe mv adapter now lost locked src d))"
proof -
  have "keeps limits now d (snd (case record_provider_failure mv now src msg c cls locked d of
      Inl _ \<Rightarrow> (Unexpected msg, d) | Inr (effective, d1) \<Rightarrow> (f effective, d1)))" for msg c cls and f :: "instant option \<Rightarrow> handler_outcome"
    by (auto split: sum.split intro: keeps_provider_failure)
  moreover have "keeps limits now d (snd (let (delay, d1) = record_probe_failure now src d in (f delay, d1)))"
    for f :: "int \<Rightarrow> handler_outcome"
    using keeps_probe_failure [of limits now d src] by (simp add: case_prod_unfold Let_def)
  ultimately show ?thesis
    unfolding provider_probe_def Let_def
    by (auto split: option.split probe_outcome.split simp: keeps_probe)
qed

text \<open>The maintenance handler keeps the queue invariants, provided rescoring does: whatever a
  probe reports, failed or successful, all invariants of the queue hold afterwards.
\<close>

theorem maintenance_keeps_queue:
  assumes "\<And>i e. queue_ok limits (now, e) \<Longrightarrow> queue_ok limits (now, rescore i e)"
    and "queue_ok limits (now, d)"
  shows "queue_ok limits (now, snd (maintenance_handler mv adapter rescore now lost locked payload d))"
proof -
  have rescoring: "keeps limits now d (rescore i d)" for i by (simp add: keeps_def assms(1))
  have "keeps limits now d (snd (maintenance_handler mv adapter rescore now lost locked payload d))"
    unfolding maintenance_handler_def
    by (cases payload) (auto simp: Let_def keeps_provider_probe rescoring)
  then show ?thesis using assms(2) by (simp add: keeps_def)
qed

subsection \<open>The circuit\<close>

lemma failure_minutes_bounds: "3 \<le> n \<Longrightarrow> 5 \<le> failure_minutes n \<and> failure_minutes n \<le> 360"
  by (simp add: failure_minutes_def)

lemma blocked_put_source:
  assumes "\<exists>r \<in> set (source_states d). sst_source r = src" and "sst_source s = src"
  shows "provider_blocked u (put_source_state s d) src =
    (\<not> sst_manual_enabled s \<or> (case sst_cooldown_until s of None \<Rightarrow> False | Some t \<Rightarrow> u < t))"
proof -
  have "sst_source s \<in> sst_source ` set (source_states d)" using assms by (metis image_eqI)
  then show ?thesis using assms(2) by (auto simp: provider_blocked_def put_source_state_def list_ex_iff set_put_row)
qed

lemma ensured_source_exists: "\<exists>r \<in> set (source_states (snd (ensure_source_state now src d))). sst_source r = src"
  by (auto simp: ensure_source_state_def new_source_state_def Let_def dest: get_row_SomeD split: option.split)

lemma ensured_source_key: "sst_source (fst (ensure_source_state now src d)) = src"
  by (auto simp: ensure_source_state_def new_source_state_def Let_def dest: get_row_SomeD split: option.split)

lemma blocked_update_policy [simp]: "provider_blocked u (update_policy src f d) = provider_blocked u d"
  by (auto simp: fun_eq_iff provider_blocked_def update_policy_def put_policy_def split: option.split)

lemma poll_failure_blocked:
  assumes s_def: "s = fst (ensure_source_state now src d)"
  shows "provider_blocked u (record_poll_failure now src err c d) src =
    (\<not> sst_manual_enabled s \<or>
     (case (if c = None \<and> 3 \<le> sst_consecutive_failures s + 1
            then Some (now + minutes (failure_minutes (sst_consecutive_failures s + 1))) else c) of
        None \<Rightarrow> False | Some t \<Rightarrow> u < t))"
  unfolding record_poll_failure_def Let_def case_prod_unfold blocked_update_policy
  by (subst blocked_put_source [OF ensured_source_exists]) (simp_all add: ensured_source_key s_def)

text \<open>The third consecutive failure of a provider opens its circuit: until an instant between
  five minutes and six hours ahead no network job of the provider is claimable, and from that
  instant on an enabled provider is not blocked.
\<close>

theorem circuit_opens:
  assumes "2 \<le> sst_consecutive_failures (fst (ensure_source_state now src d))"
  shows "\<exists>until. now + minutes 5 \<le> until \<and> until \<le> now + hours 6 \<and>
    (\<forall>u j. u < until \<and> job_source j = src \<and> job_kind_of j \<in> set NETWORK_JOB_KINDS \<longrightarrow>
       \<not> claimable u (record_poll_failure now src err None d) j) \<and>
    (sst_manual_enabled (fst (ensure_source_state now src d)) \<longrightarrow>
       (\<forall>u \<ge> until. \<not> provider_blocked u (record_poll_failure now src err None d) src))"
proof -
  define n where "n = sst_consecutive_failures (fst (ensure_source_state now src d)) + 1"
  define until where "until = now + minutes (failure_minutes n)"
  have b: "provider_blocked u (record_poll_failure now src err None d) src =
      (\<not> sst_manual_enabled (fst (ensure_source_state now src d)) \<or> u < until)" for u
    using assms by (simp add: poll_failure_blocked [OF refl] until_def n_def)
  have "now + minutes 5 \<le> until \<and> until \<le> now + hours 6"
    using failure_minutes_bounds [of n] assms by (simp add: until_def n_def)
  then show ?thesis using b unfolding claimable_def by (intro exI [of _ until]) auto
qed

text \<open>Below three failures a poll that names no cooldown leaves the circuit closed.\<close>

lemma circuit_stays_closed:
  assumes "sst_consecutive_failures (fst (ensure_source_state now src d)) < 2"
    and "sst_manual_enabled (fst (ensure_source_state now src d))"
  shows "\<not> provider_blocked u (record_poll_failure now src err None d) src"
  using assms by (simp add: poll_failure_blocked [OF refl])

subsection \<open>Recovery\<close>

lemma find_policy_put:
  assumes "find_policy src d = Some p" "pol_source q = src"
  shows "find_policy src (put_policy q d) = Some q"
  using assms get_put_row_same [where key = pol_source and r = q and k = src and s = p] by (simp add: put_policy_def)

text \<open>Releasing deferred work leaves no row that waits for the provider.\<close>

lemma resume_jobs:
  assumes inv: "queue_inv d"
  shows "jobs (snd (resume_recovered_provider now src locked d)) =
    map (\<lambda>j. if outage_deferred now src j \<and> job_id j \<notin> set locked
             then j\<lparr>job_available_at := now, job_error_code := [], job_error_message := [], job_updated_at := now\<rparr>
             else j) (jobs d)"
proof -
  let ?g = "\<lambda>j. j\<lparr>job_available_at := now, job_error_code := [], job_error_message := [], job_updated_at := now\<rparr>"
  let ?rows = "filter (\<lambda>j. outage_deferred now src j \<and> job_id j \<notin> set locked) (jobs d)"
  have "jobs (fold (resume_job now src) xs e) = fold (\<lambda>j. put_row job_id (?g j)) xs (jobs e)" for xs e
    by (induction xs arbitrary: e) (simp_all add: resume_job_def Let_def)
  then have "jobs (snd (resume_recovered_provider now src locked d)) = fold (\<lambda>j. put_row job_id (?g j)) ?rows (jobs d)"
    by (simp add: resume_recovered_provider_def Let_def)
  also have "\<dots> = map (\<lambda>j. if j \<in> set ?rows then ?g j else j) (jobs d)"
    using inv by (intro fold_put_row) (auto simp: inv_defs)
  finally show ?thesis by (auto intro: map_cong)
qed

lemma resumed_not_deferred:
  assumes "queue_inv d" and "j \<in> set (jobs (snd (resume_recovered_provider now src [] d)))"
  shows "\<not> outage_deferred now src j"
proof -
  obtain k where "j = (if outage_deferred now src k
      then k\<lparr>job_available_at := now, job_error_code := [], job_error_message := [], job_updated_at := now\<rparr> else k)"
    using assms(2) unfolding resume_jobs [OF assms(1)] set_map by (elim imageE) simp
  then show ?thesis by (cases "outage_deferred now src k") (simp_all add: outage_deferred_def)
qed

lemma resume_frame:
  "policies (snd (resume_recovered_provider now src locked d)) = policies d"
  "source_states (snd (resume_recovered_provider now src locked d)) = source_states d"
  "endpoints (snd (resume_recovered_provider now src locked d)) = endpoints d"
proof -
  have "policies (fold (resume_job now src) xs e) = policies e \<and> source_states (fold (resume_job now src) xs e) = source_states e \<and>
      endpoints (fold (resume_job now src) xs e) = endpoints e" for xs e
    by (induction xs arbitrary: e) (simp_all add: resume_job_def Let_def notify_workers_def record_event_def put_job_def)
  then show "policies (snd (resume_recovered_provider now src locked d)) = policies d"
    "source_states (snd (resume_recovered_provider now src locked d)) = source_states d"
    "endpoints (snd (resume_recovered_provider now src locked d)) = endpoints d"
    by (simp_all add: resume_recovered_provider_def Let_def)
qed

lemma recover_endpoint_clear:
  "ep_source (recover_endpoint t src e) = src \<Longrightarrow>
     ep_cooldown_until (recover_endpoint t src e) = None \<and> ep_next_request_at (recover_endpoint t src e) = None"
  by (cases "ep_source e = src") (simp_all add: recover_endpoint_def)

lemma probe_closes:
  assumes "find_policy src d = Some p" and "find_source_state src d = Some s"
    and "2 \<le> or_default 0 (pm_recovery_probe_successes (pol_metadata p)) + 1"
  shows "\<exists>q. probe_succeeded t src locked d = put_policy q (snd (resume_recovered_provider t src locked
      ((put_source_state (recover_state t s) d)\<lparr>endpoints := map (recover_endpoint t src) (endpoints d)\<rparr>))) \<and>
    pol_source q = src \<and> pm_next_recovery_probe (pol_metadata q) = None"
proof -
  have ep: "endpoints (put_source_state s' d) = endpoints d" for s' by (simp add: put_source_state_def)
  have src: "pol_source p = src" using get_row_SomeD [OF assms(1)] by simp
  show ?thesis
    unfolding probe_succeeded_def assms(1,2) option.case Let_def if_P [OF assms(3)] ep
    by (rule exI, rule conjI, rule refl) (simp add: src)
qed

text \<open>C34. Two successful probes close the circuit of a provider that is not disabled by hand, provided that
  the first finds the counter of successes at zero and the transactions between the two leave the provider's
  policy as the first probe wrote it: afterwards the provider is not blocked at any time, none of its endpoints
  is cooling down or spaced and no probe is scheduled.  Every job deferred because of the outage, except the
  rows that another transaction has locked, is available from the instant of the second probe, with its error
  cleared and its state, attempts and payload kept; all other jobs are untouched.
\<close>

theorem probes_recover:
  assumes p: "find_policy src d = Some p" "pm_recovery_probe_successes (pol_metadata p) = Some 0"
    and between: "find_policy src e = find_policy src (probe_succeeded t1 src locked d)" "queue_inv e"
    and s: "find_source_state src e = Some s" "sst_manual_enabled s"
    and d2: "d2 = probe_succeeded t2 src locked' e"
  shows "\<not> provider_blocked u d2 src \<and>
    (\<forall>x \<in> set (endpoints d2). ep_source x = src \<longrightarrow> ep_cooldown_until x = None \<and> ep_next_request_at x = None) \<and>
    map_option (pm_next_recovery_probe \<circ> pol_metadata) (find_policy src d2) = Some None \<and>
    jobs d2 = map (\<lambda>j. if outage_deferred t2 src j \<and> job_id j \<notin> set locked'
      then j\<lparr>job_available_at := t2, job_error_code := [], job_error_message := [], job_updated_at := t2\<rparr> else j) (jobs e)"
proof -
  define m where "m = (pol_metadata p)\<lparr>pm_recovery_probe_successes := Some 1, pm_next_recovery_probe := Some (IsoText (t1 + seconds 30))\<rparr>"
  define p1 where "p1 = p\<lparr>pol_metadata := m, pol_updated_at := t1\<rparr>"
  have src: "pol_source p = src" "sst_source s = src" using p s by (auto dest: get_row_SomeD)
  have "probe_succeeded t1 src locked d = put_policy p1 d"
    using p by (simp add: probe_succeeded_def Let_def or_default_def p1_def m_def)
  moreover have "find_policy src (put_policy p1 d) = Some p1"
    by (rule find_policy_put [OF p(1)]) (simp add: p1_def src)
  ultimately have p1: "find_policy src e = Some p1" using between(1) by simp
  define f where "f = (put_source_state (recover_state t2 s) e)\<lparr>endpoints := map (recover_endpoint t2 src) (endpoints e)\<rparr>"
  define g where "g = snd (resume_recovered_provider t2 src locked' f)"
  have two: "2 \<le> or_default 0 (pm_recovery_probe_successes (pol_metadata p1)) + 1"
    by (simp add: p1_def m_def or_default_def)
  obtain q where d2': "d2 = put_policy q g" and q: "pol_source q = src" "pm_next_recovery_probe (pol_metadata q) = None"
    using probe_closes [OF p1 s(1) two, where t = t2 and locked = locked', folded f_def, folded g_def] d2 by metis
  have invf: "queue_inv f" using between(2) queue_inv_same [of e f] by (simp add: f_def same_queue_def put_source_state_def)
  have "jobs d2 = jobs g" "jobs f = jobs e" by (simp_all add: d2' put_policy_def f_def put_source_state_def)
  then have jobs: "jobs d2 = map (\<lambda>j. if outage_deferred t2 src j \<and> job_id j \<notin> set locked'
      then j\<lparr>job_available_at := t2, job_error_code := [], job_error_message := [], job_updated_at := t2\<rparr> else j) (jobs e)"
    using resume_jobs [OF invf, of t2 src locked'] by (simp add: g_def)
  have "provider_blocked u d2 src = provider_blocked u (put_source_state (recover_state t2 s) e) src"
    by (simp add: provider_blocked_def d2' put_policy_def g_def resume_frame f_def put_source_state_def)
  moreover have "\<not> provider_blocked u (put_source_state (recover_state t2 s) e) src"
    by (subst blocked_put_source) (use s src in \<open>auto simp: recover_state_def dest: get_row_SomeD\<close>)
  ultimately have unblocked: "\<not> provider_blocked u d2 src" by simp
  have "endpoints d2 = map (recover_endpoint t2 src) (endpoints e)"
    by (simp add: d2' put_policy_def g_def resume_frame f_def)
  then have eps: "ep_cooldown_until x = None \<and> ep_next_request_at x = None" if "x \<in> set (endpoints d2)" "ep_source x = src" for x
    using that recover_endpoint_clear by (metis imageE set_map)
  have "policies g = policies e" by (simp add: g_def resume_frame f_def put_source_state_def)
  then have "find_policy src g = Some p1" using p1 by (simp only:)
  from find_policy_put [OF this q(1)] have "find_policy src d2 = Some q" by (simp only: d2')
  then have "map_option (pm_next_recovery_probe \<circ> pol_metadata) (find_policy src d2) = Some None" using q(2) by simp
  then show ?thesis using unblocked eps jobs by blast
qed

subsection \<open>Learned limits under failures and probes\<close>

lemma telemetry_frame:
  assumes "runs d' = runs d" "run_seq d' = run_seq d" "samples d' = samples d" "policies d' = policies d"
  shows "telemetry_inv d' = telemetry_inv d"
  by (rule inv_other [OF assms])

lemma inv_update_policy:
  assumes "telemetry_inv d" "\<And>p. policy_ok p \<Longrightarrow> policy_ok (f p)"
  shows "telemetry_inv (update_policy src f d)"
  using assms find_policy_ok [OF assms(1)] by (auto simp: update_policy_def intro!: inv_put_policy split: option.split)

lemma policy_ok_cadence: "policy_ok p \<Longrightarrow> policy_ok (update_poll_cadence ok changed p)"
  by (simp add: update_poll_cadence_def policy_ok_def Let_def split: prod.split)

lemma policy_ok_cooldown: "policy_ok p \<Longrightarrow> policy_ok (start_cooldown now until p)"
  by (simp add: start_cooldown_def policy_ok_def)

lemma policy_ok_clean: "policy_ok (p\<lparr>pol_clean_since := c\<rparr>) = policy_ok p"
  by (simp add: policy_ok_def)

lemma source_frame:
  "telemetry_inv (put_source_state s d) = telemetry_inv d"
  "telemetry_inv (snd (ensure_source_state now src d)) = telemetry_inv d"
  by (rule telemetry_frame; simp add: put_source_state_def)
     (rule telemetry_frame; simp add: ensure_source_state_def Let_def split: option.split)

lemma inv_poll_failure: "telemetry_inv d \<Longrightarrow> telemetry_inv (record_poll_failure now src err c d)"
  unfolding record_poll_failure_def Let_def case_prod_unfold
  by (rule inv_update_policy) (auto simp: source_frame policy_ok_cadence policy_ok_cooldown policy_ok_clean split: option.split)

lemma inv_poll_success: "telemetry_inv d \<Longrightarrow> telemetry_inv (record_poll_success now src n c d)"
  unfolding record_poll_success_def Let_def case_prod_unfold
  by (rule inv_update_policy) (simp_all add: source_frame policy_ok_cadence policy_ok_clean)

lemma inv_probe_failure: "telemetry_inv d \<Longrightarrow> telemetry_inv (snd (record_probe_failure now src d))"
  by (auto simp: record_probe_failure_def Let_def policy_ok_def dest: find_policy_ok intro!: inv_put_policy split: option.split)

text \<open>The telemetry machine with the health of the providers.\<close>

inductive provider_step :: "db \<Rightarrow> db \<Rightarrow> bool" where
  Telemetry: "telemetry_step d d' \<Longrightarrow> provider_step d d'"
| PollFailure: "provider_step d (record_poll_failure now src err c d)"
| PollSuccess: "provider_step d (record_poll_success now src n c d)"
| ProbeFailure: "provider_step d (snd (record_probe_failure now src d))"

interpretation provider: invariant_machine telemetry_init provider_step telemetry_inv
proof
  show "telemetry_inv d" if "telemetry_init d" for d by (rule telemetry.init_inv [OF that])
  show "telemetry_inv d'" if "telemetry_inv d" "provider_step d d'" for d d'
    using that(2,1) by (induction rule: provider_step.induct)
      (auto intro: telemetry_step_inv inv_poll_failure inv_poll_success inv_probe_failure)
qed

text \<open>However polls, probes, explorations and samples interleave, the learned job and page limits
  of every provider stay at least one, so that a provider is never starved for good.
\<close>

theorem limits_stay_positive:
  assumes "telemetry_init d0" and "provider_step\<^sup>*\<^sup>* d0 d" and "p \<in> set (policies d)"
  shows "1 \<le> pol_learned_job_limit p \<and> 1 \<le> pol_learned_page_limit p \<and> 0 \<le> pol_request_interval_seconds p"
  using telemetry_invD(4) [OF provider.reachable_inv [OF assms(1,2)] assms(3)] by (simp add: policy_ok_def)

subsection \<open>A concrete outage\<close>

definition demo_outage :: db where
  "demo_outage = fold (\<lambda>t. record_poll_failure t ''mangadex'' ''boom'' None) [seconds 1, seconds 2, seconds 3] demo_policy_db"

lemma demo_outage_values:
  "pm_recovery_probe_successes (pol_metadata (hd (policies demo_outage))) = Some 0"
  "map pol_source (policies demo_outage) = [''mangadex'']" "map sst_source (source_states demo_outage) = [''mangadex'']"
  "sst_manual_enabled (hd (source_states demo_outage))" "sst_consecutive_failures (hd (source_states demo_outage)) = 3"
  "jobs demo_outage = []" "permits demo_outage = []" "cycles demo_outage = []"
  by code_simp+

lemma demo_outage_rows:
  "find_policy ''mangadex'' demo_outage = Some (hd (policies demo_outage))"
  "find_source_state ''mangadex'' demo_outage = Some (hd (source_states demo_outage))"
  using demo_outage_values(2,3)
  by (cases "policies demo_outage"; cases "source_states demo_outage"; simp add: get_row_Cons)+

theorem circuit_opens_witness:
  "\<exists>until. seconds 4 + minutes 5 \<le> until \<and>
     provider_blocked (seconds 4) (record_poll_failure (seconds 4) ''mangadex'' ''boom'' None demo_outage) ''mangadex'' \<and>
     \<not> provider_blocked until (record_poll_failure (seconds 4) ''mangadex'' ''boom'' None demo_outage) ''mangadex''"
proof -
  have st: "fst (ensure_source_state (seconds 4) ''mangadex'' demo_outage) = hd (source_states demo_outage)"
    by (simp add: ensure_source_state_def demo_outage_rows)
  have "2 \<le> sst_consecutive_failures (fst (ensure_source_state (seconds 4) ''mangadex'' demo_outage))"
    unfolding st using demo_outage_values(5) by simp
  from circuit_opens [OF this, of "''boom''"] obtain until where u: "seconds 4 + minutes 5 \<le> until"
    "\<not> provider_blocked until (record_poll_failure (seconds 4) ''mangadex'' ''boom'' None demo_outage) ''mangadex''"
    unfolding st using demo_outage_values(4) by auto
  moreover have "provider_blocked (seconds 4) (record_poll_failure (seconds 4) ''mangadex'' ''boom'' None demo_outage) ''mangadex''"
    by code_simp
  ultimately show ?thesis by blast
qed

text \<open>The outage with a job that was deferred for an hour because of it.\<close>

definition demo_waiting_job :: work_job where
  "demo_waiting_job = (new_work_job 0 SOURCE_REFRESH ''k'' fmempty)\<lparr>job_id := 1, job_source := ''mangadex'',
     job_status := RETRY_WAIT, job_available_at := hours 1, job_error_code := ''source_network_error''\<rparr>"

definition demo_deferred :: db where
  "demo_deferred = (probe_succeeded (minutes 1) ''mangadex'' [] demo_outage)\<lparr>jobs := [demo_waiting_job], job_seq := 2\<rparr>"

lemma demo_deferred_values:
  "outage_deferred (minutes 2) ''mangadex'' demo_waiting_job"
  "map sst_source (source_states demo_deferred) = [''mangadex'']"
  "sst_manual_enabled (hd (source_states demo_deferred))"
  "permits demo_deferred = []" "cycles demo_deferred = []" "jobs demo_deferred = [demo_waiting_job]" "job_seq demo_deferred = 2"
  "job_ok demo_waiting_job" "job_id demo_waiting_job = 1" "job_cycle_id demo_waiting_job = None"
  by code_simp+

lemma demo_deferred_state: "find_source_state ''mangadex'' demo_deferred = Some (hd (source_states demo_deferred))"
  using demo_deferred_values(2) by (cases "source_states demo_deferred"; simp add: get_row_Cons)

theorem probes_recover_witness:
  "\<not> provider_blocked (minutes 2) (probe_succeeded (minutes 2) ''mangadex'' [] demo_deferred) ''mangadex'' \<and>
   map job_available_at (jobs (probe_succeeded (minutes 2) ''mangadex'' [] demo_deferred)) = [minutes 2]"
proof -
  have "queue_inv demo_deferred"
    using demo_deferred_values(4-10) by (simp add: inv_defs)
  moreover have "find_policy ''mangadex'' demo_deferred = find_policy ''mangadex'' (probe_succeeded (minutes 1) ''mangadex'' [] demo_outage)"
    by (simp add: demo_deferred_def)
  ultimately show ?thesis
    using probes_recover [OF demo_outage_rows(1) demo_outage_values(1) _ _ demo_deferred_state demo_deferred_values(3) refl]
      demo_deferred_values(1,6) by auto
qed

theorem limits_stay_positive_witness: "1 \<le> pol_learned_job_limit (hd (policies demo_outage))"
proof -
  have pol: "provider_step\<^sup>*\<^sup>* empty_db demo_policy_db"
    using tele_run(2) by (induction rule: rtranclp_induct) (auto intro: rtranclp.rtrancl_into_rtrancl provider_step.Telemetry)
  have "provider_step\<^sup>*\<^sup>* d (fold (\<lambda>t. record_poll_failure t src err c) ts d)" for ts src err c d
    by (induction ts arbitrary: d) (auto intro: converse_rtranclp_into_rtranclp provider_step.PollFailure)
  then have "provider_step\<^sup>*\<^sup>* empty_db demo_outage" unfolding demo_outage_def using pol rtranclp_trans by metis
  moreover have "hd (policies demo_outage) \<in> set (policies demo_outage)"
    using demo_outage_values(2) by (intro hd_in_set) auto
  ultimately show ?thesis using limits_stay_positive [OF tele_run(1)] by blast
qed

theorem maintenance_keeps_queue_witness:
  "queue_ok [] (0, snd (maintenance_handler strict_validate (\<lambda>_. Some (ProbeRateLimited ''429'')) (\<lambda>_ d. d) 0 False []
     (MaintenancePayload \<lparr>mt_version = 1, mt_action = ''provider_probe_mangadex'', mt_series_id = 0\<rparr>) demo_outage))"
proof (rule maintenance_keeps_queue)
  have "queue_init (0, demo_outage)" using demo_outage_values(6-8) by (simp add: queue_init_def)
  then show "queue_ok [] (0, demo_outage)" by (rule queue_init_ok)
qed

end
