(* ===== verification/Catalog_Domain.thy ===== *)
theory Catalog_Domain
  imports Py_Text
begin

text \<open>
  Chapter numbers: \<^verbatim>\<open>manga_manager/domain/catalog.py\<close>, the equal routine of
  \<^verbatim>\<open>app/domain.py\<close>, and the listing version that
  \<^verbatim>\<open>catalog_repository.py\<close> derives from them.  A label is reduced to the first
  decimal number in it, rounded to the 28 digits of Python's default decimal context and written
  without exponent or trailing zeros.  Labels of a million digits, which overflow the exponent
  range of that context, are outside the model.
\<close>

subsection \<open>Decimal numbers with a coefficient and an exponent\<close>

type_synonym dec = "nat \<times> int"

text \<open>The first match of \<open>\\d+(?:\\.\\d+)?\<close>: its integral and fractional digits.\<close>

definition find_number :: "string \<Rightarrow> (string \<times> string) option" where
  "find_number s =
     (let r = dropWhile (\<lambda>c. \<not> is_digit c) s; ip = takeWhile is_digit r; t = dropWhile is_digit r
      in if r = [] then None
         else Some (ip, if t \<noteq> [] \<and> hd t = CHR ''.'' then takeWhile is_digit (tl t) else []))"

definition dec_of :: "string \<times> string \<Rightarrow> dec" where
  "dec_of m = (case m of (ip, fp) \<Rightarrow> (nat_of_digits (ip @ fp), - int (length fp)))"

definition div_half_even :: "nat \<Rightarrow> nat \<Rightarrow> nat" where
  "div_half_even a b =
     (let q = a div b; r = a mod b
      in if 2 * r < b \<or> 2 * r = b \<and> even q then q else q + 1)"

definition context_digits :: nat where
  "context_digits = 28"

text \<open>Rounding to the precision of the context.\<close>

definition fix_digits :: "dec \<Rightarrow> dec" where
  "fix_digits x = (case x of (c, e) \<Rightarrow>
     (let k = length (str_of_nat c) - context_digits
      in if k = 0 then (c, e)
         else (let q = div_half_even c (10 ^ k)
               in if q = 10 ^ context_digits then (10 ^ (context_digits - 1), e + int k + 1)
                  else (q, e + int k))))"

fun strip_zeros :: "nat \<Rightarrow> int \<Rightarrow> dec" where
  "strip_zeros c e = (if c = 0 then (0, 0) else if c mod 10 = 0 then strip_zeros (c div 10) (e + 1) else (c, e))"

declare strip_zeros.simps [simp del]

definition normalize_dec :: "dec \<Rightarrow> dec" where
  "normalize_dec x = (case fix_digits x of (c, e) \<Rightarrow> strip_zeros c e)"

text \<open>\<open>format(number, "f")\<close>.\<close>

definition format_f :: "dec \<Rightarrow> string" where
  "format_f x = (case x of (c, e) \<Rightarrow>
     (let ds = str_of_nat c; n = nat (- e)
      in if 0 \<le> e then ds @ replicate (nat e) (CHR ''0'')
         else if n < length ds then take (length ds - n) ds @ CHR ''.'' # drop (length ds - n) ds
         else CHR ''0'' # CHR ''.'' # replicate (n - length ds) (CHR ''0'') @ ds))"

subsection \<open>Chapter labels\<close>

fun split_words :: "string \<Rightarrow> string \<Rightarrow> string list" where
  "split_words w [] = (if w = [] then [] else [w])"
| "split_words w (c # s) =
     (if is_space c then (if w = [] then split_words [] s else w # split_words [] s)
      else split_words (w @ [c]) s)"

definition py_split :: "string \<Rightarrow> string list" where
  "py_split s = split_words [] s"

fun join_words :: "string list \<Rightarrow> string" where
  "join_words [] = []"
| "join_words [w] = w"
| "join_words (w # v # ws) = w @ CHR '' '' # join_words (v # ws)"

definition canonical_chapter_number :: "string \<Rightarrow> string" where
  "canonical_chapter_number v =
     (case find_number v of
        None \<Rightarrow> join_words (py_split (py_lower (py_strip v)))
      | Some m \<Rightarrow> format_f (normalize_dec (dec_of m)))"

definition chapter_sort_number :: "string \<Rightarrow> decimal option" where
  "chapter_sort_number v = parse_decimal (canonical_chapter_number v)"

text \<open>The variant of \<^verbatim>\<open>app/domain.py\<close> keeps the inner white space of a label without digits.\<close>

definition normalize_chapter_number :: "string \<Rightarrow> string" where
  "normalize_chapter_number v =
     (case find_number v of
        None \<Rightarrow> py_lower (py_strip v)
      | Some m \<Rightarrow> format_f (normalize_dec (dec_of m)))"

subsection \<open>Provider preference\<close>

definition REPLACEMENT_PRIORITY :: "(string \<times> int) list" where
  "REPLACEMENT_PRIORITY = [(''asura'', 100), (''mangadex'', 80), (''mangafire'', 50), (''kingofshojo'', 10)]"

definition replacement_rank :: "string \<Rightarrow> int" where
  "replacement_rank src = (case map_of REPLACEMENT_PRIORITY src of None \<Rightarrow> 0 | Some n \<Rightarrow> n)"

definition should_replace :: "string \<Rightarrow> string \<Rightarrow> bool" where
  "should_replace current candidate = (replacement_rank current < replacement_rank candidate)"

text \<open>\<open>chapter_quality_rank\<close>: only numbers are trusted (a boolean is an integer in Python).\<close>

definition chapter_quality_rank :: "jdict \<Rightarrow> int" where
  "chapter_quality_rank metadata =
     (case fmlookup metadata ''quality_rank'' of
        Some (JInt n) \<Rightarrow> n
      | Some (JBool b) \<Rightarrow> (if b then 1 else 0)
      | Some (JFloat x) \<Rightarrow> (if 0 \<le> x then \<lfloor>x\<rfloor> else \<lceil>x\<rceil>)
      | _ \<Rightarrow> 0)"

subsection \<open>The version of a listing\<close>

text \<open>\<open>a > b\<close> on sort numbers: a missing number cannot be compared.\<close>

definition sort_number_gt :: "decimal option \<Rightarrow> decimal option \<Rightarrow> bool result" where
  "sort_number_gt a b =
     (case (a, b) of
        (Some x, Some y) \<Rightarrow> (case decimal_gt x y of
            Some r \<Rightarrow> Inr r | None \<Rightarrow> Inl (ValueError ''InvalidOperation''))
      | _ \<Rightarrow> Inl (TypeError ''not supported between instances of NoneType''))"

text \<open>\<open>max(values, key=chapter_sort_number, default="")\<close>.\<close>

fun max_label :: "string \<Rightarrow> string list \<Rightarrow> string result" where
  "max_label best [] = Inr best"
| "max_label best (v # vs) =
     bind_result (sort_number_gt (chapter_sort_number v) (chapter_sort_number best)) (\<lambda>gt.
       max_label (if gt then v else best) vs)"

definition newest_label :: "string list \<Rightarrow> string result" where
  "newest_label vs = (case vs of [] \<Rightarrow> Inr [] | v # rest \<Rightarrow> max_label v rest)"

text \<open>
  \<open>latest\<close> is the text of \<open>latest_chapter\<close> in the metadata of a listing (empty when it has none),
  \<open>recent\<close> the texts of the numbers of \<open>recent_chapters\<close>, or \<open>None\<close> when that is not a list.
\<close>

definition listing_observation_version :: "string \<Rightarrow> string list option \<Rightarrow> string result" where
  "listing_observation_version latest recent =
     (let explicit = py_strip latest
      in if explicit \<noteq> [] then Inr explicit
         else case recent of None \<Rightarrow> Inr [] | Some numbers \<Rightarrow> newest_label (map py_strip numbers))"

end
