(* ===== verification/Catalog_Domain_Properties.thy ===== *)
theory Catalog_Domain_Properties
  imports Catalog_Domain
begin

text \<open>
  Canonical chapter numbers are a normal form: they are stable, two labels share one exactly when
  they name the same number, and their sort number is that number.
\<close>

subsection \<open>Digits\<close>

lemma nat_of_digits_Nil [simp]: "nat_of_digits [] = 0"
  by (simp add: nat_of_digits_def)

lemma nat_of_digits_append: "nat_of_digits (xs @ ys) = nat_of_digits xs * 10 ^ length ys + nat_of_digits ys"
proof (induction ys rule: rev_induct)
  case (snoc y ys)
  then show ?case by (simp add: append_assoc [symmetric] del: append_assoc)
qed simp

lemma digit_val_zero [simp]: "digit_val (CHR ''0'') = 0" "is_digit (CHR ''0'')" "\<not> is_digit (CHR ''.'')" "\<not> is_digit (CHR '' '')"
  by (simp_all add: digit_val_def is_digit_def)

lemma nat_of_digits_Cons: "nat_of_digits (c # s) = digit_val c * 10 ^ length s + nat_of_digits s"
  using nat_of_digits_append [of "[c]" s] by (simp add: nat_of_digits_def)

lemma nat_of_zeros [simp]: "nat_of_digits (replicate n (CHR ''0'')) = 0"
  by (induction n) (simp_all add: nat_of_digits_Cons)

lemma str_of_nat_Nil [simp]: "str_of_nat n \<noteq> []"
  by (simp add: str_of_nat.simps [of n])

lemma str_of_nat_length: "length (str_of_nat n) \<le> Suc k \<longleftrightarrow> n < 10 ^ Suc k"
proof (induction k arbitrary: n)
  case 0
  show ?case by (simp add: str_of_nat.simps [of n])
next
  case (Suc k)
  show ?case
  proof (cases "n < 10")
    case True
    then have "n < 10 ^ Suc (Suc k)" by (rule less_le_trans) simp
    then show ?thesis using True by (simp add: str_of_nat.simps [of n])
  next
    case False
    then have "length (str_of_nat n) \<le> Suc (Suc k) \<longleftrightarrow> n div 10 < 10 ^ Suc k"
      using Suc [of "n div 10"] by (simp add: str_of_nat.simps [of n])
    also have "\<dots> \<longleftrightarrow> n < 10 ^ Suc (Suc k)" by (simp add: div_less_iff_less_mult mult.commute)
    finally show ?thesis .
  qed
qed

lemma str_of_nat_length': "0 < k \<Longrightarrow> length (str_of_nat n) \<le> k \<longleftrightarrow> n < 10 ^ k"
  using str_of_nat_length [of n "k - 1"] by simp

lemma digit_char_zero: "digit_char 0 = CHR ''0''"
  by code_simp

lemma str_of_nat_times10: "0 < m \<Longrightarrow> str_of_nat (m * 10) = str_of_nat m @ [CHR ''0'']"
  by (simp add: str_of_nat.simps [of "m * 10"] digit_char_zero)

lemma str_of_nat_mult: "0 < c \<Longrightarrow> str_of_nat (c * 10 ^ n) = str_of_nat c @ replicate n (CHR ''0'')"
proof (induction n)
  case (Suc n)
  then have "0 < c * 10 ^ n" by simp
  from str_of_nat_times10 [OF this] Suc show ?case
    by (simp add: mult.commute mult.left_commute replicate_append_same)
qed simp

lemma length_str_mult: "0 < c \<Longrightarrow> length (str_of_nat (c * 10 ^ n)) = length (str_of_nat c) + n"
  by (simp add: str_of_nat_mult)

subsection \<open>Normal decimals\<close>

definition normal :: "dec \<Rightarrow> bool" where
  "normal x = (case x of (c, e) \<Rightarrow> (c = 0 \<and> e = 0 \<or> c mod 10 \<noteq> 0) \<and> c < 10 ^ context_digits)"

definition dec_value :: "dec \<Rightarrow> rat" where
  "dec_value x = (case x of (c, e) \<Rightarrow> scale10 (of_nat c) e)"

lemma strip_zeros_spec: "0 < c \<Longrightarrow> \<exists>k. c = fst (strip_zeros c e) * 10 ^ k \<and> snd (strip_zeros c e) = e + int k \<and> fst (strip_zeros c e) mod 10 \<noteq> 0"
proof (induction c e rule: strip_zeros.induct)
  case (1 c e)
  show ?case
  proof (cases "c mod 10 = 0")
    case True
    with 1 have "0 < c div 10" by (metis div_eq_0_iff gr0I mod_less zero_neq_numeral)
    with 1 True obtain k where k: "c div 10 = fst (strip_zeros (c div 10) (e + 1)) * 10 ^ k"
      "snd (strip_zeros (c div 10) (e + 1)) = e + 1 + int k" "fst (strip_zeros (c div 10) (e + 1)) mod 10 \<noteq> 0"
      by (auto simp: neq0_conv)
    have "c = 10 * (c div 10)" using True by presburger
    then show ?thesis using k True 1(2) by (intro exI [of _ "Suc k"]) (simp add: strip_zeros.simps [of c e])
  next
    case False
    then show ?thesis by (intro exI [of _ 0]) (simp add: strip_zeros.simps [of c e])
  qed
qed

lemma strip_zeros_mult: "c mod 10 \<noteq> 0 \<Longrightarrow> strip_zeros (c * 10 ^ k) e = (c, e + int k)"
proof (induction k arbitrary: e)
  case 0
  then show ?case by (auto simp: strip_zeros.simps [of c e])
next
  case (Suc k)
  then have "c * 10 ^ Suc k \<noteq> 0" "c * 10 ^ Suc k mod 10 = 0" "c * 10 ^ Suc k div 10 = c * 10 ^ k" by auto
  then have "strip_zeros (c * 10 ^ Suc k) e = strip_zeros (c * 10 ^ k) (e + 1)"
    by (simp only: strip_zeros.simps [of "c * 10 ^ Suc k" e]) simp
  then show ?case using Suc by simp
qed

lemma strip_zeros_zero [simp]: "strip_zeros 0 e = (0, 0)"
  by (simp add: strip_zeros.simps)

lemma div_half_even_le: "div_half_even a b \<le> a div b + 1"
  by (simp add: div_half_even_def Let_def)

lemma div_half_even_exact: "0 < b \<Longrightarrow> div_half_even (q * b) b = q"
  by (simp add: div_half_even_def Let_def)

lemma fix_digits_bound: "fst (fix_digits (c, e)) < 10 ^ context_digits"
proof -
  define k where "k = length (str_of_nat c) - context_digits"
  have pos: "0 < context_digits" by (simp add: context_digits_def)
  have "c < 10 ^ (k + context_digits)"
    using str_of_nat_length' [of "k + context_digits" c] pos by (auto simp: k_def)
  then have "c div 10 ^ k < 10 ^ context_digits" by (simp add: div_less_iff_less_mult power_add mult.commute)
  then have "div_half_even c (10 ^ k) \<le> 10 ^ context_digits" using div_half_even_le [of c "10 ^ k"] by linarith
  moreover have "k = 0 \<Longrightarrow> c < 10 ^ context_digits" using str_of_nat_length' [OF pos, of c] by (simp add: k_def)
  moreover have "(10 :: nat) ^ (context_digits - 1) < 10 ^ context_digits" using pos by simp
  ultimately show ?thesis by (auto simp: fix_digits_def Let_def k_def)
qed

lemma normalize_normal: "normal (normalize_dec x)"
proof -
  obtain c e where f: "fix_digits x = (c, e)" by (cases "fix_digits x")
  have b: "c < 10 ^ context_digits" using fix_digits_bound [of "fst x" "snd x"] f by simp
  show ?thesis
  proof (cases "c = 0")
    case True
    then show ?thesis using f by (simp add: normalize_dec_def normal_def context_digits_def)
  next
    case False
    then obtain c' k e' where s: "strip_zeros c e = (c', e')" and k: "c = c' * 10 ^ k" "c' mod 10 \<noteq> 0"
      using strip_zeros_spec [of c e] by (metis fst_conv gr0I surj_pair)
    have "c' * 1 \<le> c' * 10 ^ k" by (intro mult_le_mono2) simp
    then have "c' < 10 ^ context_digits" using b unfolding k(1) by linarith
    then show ?thesis using k(2) f s by (simp add: normalize_dec_def normal_def)
  qed
qed

text \<open>A number of at most 28 significant digits is not rounded, however many zeros follow.\<close>

lemma normalize_exact:
  assumes "normal (c, e)"
  shows "normalize_dec (c * 10 ^ n, e - int n) = (c, e)"
proof (cases "c = 0")
  case True
  then show ?thesis using assms by (simp add: normal_def normalize_dec_def fix_digits_def context_digits_def Let_def str_of_nat.simps [of 0])
next
  case False
  then have c: "c mod 10 \<noteq> 0" "c < 10 ^ context_digits" using assms by (auto simp: normal_def)
  have pos: "0 < context_digits" by (simp add: context_digits_def)
  define k where "k = length (str_of_nat (c * 10 ^ n)) - context_digits"
  have len: "length (str_of_nat c) \<le> context_digits" using c(2) str_of_nat_length' [OF pos] by simp
  then have kn: "k \<le> n" using length_str_mult [of c n] False by (simp add: k_def)
  show ?thesis
  proof (cases "k = 0")
    case True
    then show ?thesis using strip_zeros_mult [OF c(1), of n "e - int n"]
      by (simp add: normalize_dec_def fix_digits_def Let_def k_def)
  next
    case nz: False
    have q: "div_half_even (c * 10 ^ n) (10 ^ k) = c * 10 ^ (n - k)"
    proof -
      have eq: "c * 10 ^ n = c * 10 ^ (n - k) * 10 ^ k" using kn by (simp add: power_add [symmetric])
      show ?thesis unfolding eq by (rule div_half_even_exact) simp
    qed
    have "length (str_of_nat (c * 10 ^ (n - k))) \<le> context_digits"
      using False kn length_str_mult [of c n] length_str_mult [of c "n - k"] nz by (simp add: k_def)
    then have "c * 10 ^ (n - k) \<noteq> 10 ^ context_digits" using str_of_nat_length' [OF pos] by (metis less_irrefl)
    then have "fix_digits (c * 10 ^ n, e - int n) = (c * 10 ^ (n - k), e - int n + int k)"
      unfolding fix_digits_def prod.case Let_def k_def [symmetric] q using nz by simp
    then show ?thesis
      using kn strip_zeros_mult [OF c(1), of "n - k" "e - int n + int k"] by (simp add: normalize_dec_def)
  qed
qed

subsection \<open>Writing and reading back\<close>

lemma digits_prefix: "list_all is_digit ds \<Longrightarrow> takeWhile is_digit (ds @ t) = ds @ takeWhile is_digit t"
  "list_all is_digit ds \<Longrightarrow> dropWhile is_digit (ds @ t) = dropWhile is_digit t"
  by (induction ds) auto

lemma find_number_digits:
  assumes "list_all is_digit ds" "ds \<noteq> []"
  shows "find_number ds = Some (ds, [])" "list_all is_digit fs \<Longrightarrow> find_number (ds @ CHR ''.'' # fs) = Some (ds, fs)"
proof -
  have start: "dropWhile (\<lambda>c. \<not> is_digit c) (ds @ t) = ds @ t" for t
    using assms by (cases ds) auto
  have "takeWhile is_digit ds = ds" "dropWhile is_digit ds = []" using digits_prefix [OF assms(1), of "[]"] by simp_all
  then show "find_number ds = Some (ds, [])" using start [of "[]"] assms(2) by (simp add: find_number_def Let_def)
  assume fs: "list_all is_digit fs"
  then have "takeWhile is_digit fs = fs" using digits_prefix(1) [OF fs, of "[]"] by simp
  then show "find_number (ds @ CHR ''.'' # fs) = Some (ds, fs)"
    using start [of "CHR ''.'' # fs"] assms(2) digits_prefix [OF assms(1), of "CHR ''.'' # fs"]
    by (simp add: find_number_def Let_def)
qed

lemma list_all_replicate_zero [simp]: "list_all is_digit (replicate n (CHR ''0''))"
  by (induction n) simp_all

lemma list_all_take_drop: "list_all P xs \<Longrightarrow> list_all P (take n xs) \<and> list_all P (drop n xs)"
  by (auto simp: list_all_iff dest: in_set_takeD in_set_dropD)

text \<open>Reading a number that was written gives its coefficient shifted to an exponent of at most zero.\<close>

lemma format_shape:
  "\<exists>ds fs. list_all is_digit ds \<and> ds \<noteq> [] \<and> list_all is_digit fs \<and>
     (format_f (c, e) = ds \<and> fs = [] \<or> format_f (c, e) = ds @ CHR ''.'' # fs) \<and>
     dec_of (ds, fs) = (c * 10 ^ nat e, e - int (nat e))"
proof -
  let ?ds = "str_of_nat c" and ?n = "nat (- e)"
  have ds: "list_all is_digit ?ds" by (rule str_of_nat_digits)
  consider (int) "0 \<le> e" | (mid) "e < 0" "?n < length ?ds" | (small) "e < 0" "length ?ds \<le> ?n" by linarith
  then show ?thesis
  proof cases
    case int
    then show ?thesis using ds
      by (intro exI [of _ "?ds @ replicate (nat e) (CHR ''0'')"] exI [of _ "[]"])
         (simp add: format_f_def Let_def dec_of_def nat_of_digits_append)
  next
    case mid
    then show ?thesis using list_all_take_drop [OF ds]
      by (intro exI [of _ "take (length ?ds - ?n) ?ds"] exI [of _ "drop (length ?ds - ?n) ?ds"])
         (simp add: format_f_def Let_def dec_of_def)
  next
    case small
    then show ?thesis using ds
      by (intro exI [of _ "[CHR ''0'']"] exI [of _ "replicate (?n - length ?ds) (CHR ''0'') @ ?ds"])
         (simp add: format_f_def Let_def dec_of_def nat_of_digits_Cons nat_of_digits_append)
  qed
qed

lemma find_format: "\<exists>m. find_number (format_f (c, e)) = Some m \<and> dec_of m = (c * 10 ^ nat e, e - int (nat e))"
  using format_shape [of c e] find_number_digits by metis

lemma normalize_format:
  assumes "normal x"
  shows "\<exists>m. find_number (format_f x) = Some m \<and> normalize_dec (dec_of m) = x"
proof -
  obtain c e where x: "x = (c, e)" by (cases x)
  from find_format [of c e] normalize_exact [OF assms [unfolded x], of "nat e"] x
  show ?thesis by auto
qed

subsection \<open>Labels without digits\<close>

lemma lower_char_idem [simp]: "lower_char (lower_char c) = lower_char c"
proof -
  have "of_char (char_of (n :: nat)) = n" if "n < 256" for n using that by (simp add: of_char_of)
  then show ?thesis unfolding lower_char_def Let_def by auto
qed

definition plain_word :: "string \<Rightarrow> bool" where
  "plain_word w = (w \<noteq> [] \<and> list_all (\<lambda>c. \<not> is_space c) w)"

definition label_char :: "char \<Rightarrow> bool" where
  "label_char c = (lower_char c = c \<and> \<not> is_digit c)"

lemma split_words_plain: "list_all (\<lambda>c. \<not> is_space c) w \<Longrightarrow> list_all plain_word (split_words w s)"
  by (induction w s rule: split_words.induct) (auto simp: plain_word_def)

lemma split_words_chars:
  "list_all P w \<Longrightarrow> list_all P s \<Longrightarrow> list_all (list_all P) (split_words w s)"
  by (induction w s rule: split_words.induct) auto

lemma split_words_step:
  "list_all (\<lambda>c. \<not> is_space c) w \<Longrightarrow> split_words u (w @ s) = split_words (u @ w) s"
  by (induction w arbitrary: u) auto

lemma space_is_space [simp]: "is_space (CHR '' '')"
  by (simp add: is_space_def)

lemma split_join: "list_all plain_word ws \<Longrightarrow> py_split (join_words ws) = ws"
proof (induction ws rule: join_words.induct)
  case (2 w)
  then show ?case using split_words_step [of w "[]" "[]"] by (simp add: py_split_def plain_word_def)
next
  case (3 w v ws)
  then show ?case
    using split_words_step [of w "[]" "CHR '' '' # join_words (v # ws)"] by (simp add: py_split_def plain_word_def)
qed (simp add: py_split_def)

lemma join_words_ends:
  assumes "list_all plain_word ws" "ws \<noteq> []"
  shows "join_words ws \<noteq> [] \<and> \<not> is_space (hd (join_words ws)) \<and> \<not> is_space (last (join_words ws))"
  using assms
proof (induction ws rule: join_words.induct)
  case (2 w)
  then show ?case by (auto simp: plain_word_def list_all_iff)
next
  case (3 w v ws)
  then show ?case by (auto simp: plain_word_def list_all_iff)
qed simp

lemma strip_join: "list_all plain_word ws \<Longrightarrow> py_strip (join_words ws) = join_words ws"
proof (cases "ws = []")
  case False
  assume "list_all plain_word ws"
  with False join_words_ends have "dropWhile is_space (join_words ws) = join_words ws"
    "dropWhile is_space (rev (join_words ws)) = rev (join_words ws)"
    by (auto intro!: dropWhile_id simp: hd_rev)
  then show ?thesis by (simp add: py_strip_def)
qed simp

lemma join_words_chars: "list_all (list_all P) ws \<Longrightarrow> P (CHR '' '') \<Longrightarrow> list_all P (join_words ws)"
  by (induction ws rule: join_words.induct) auto

lemma is_digit_lower: "is_digit (lower_char c) \<Longrightarrow> is_digit c"
proof -
  have "of_char (char_of (n :: nat)) = n" if "n < 256" for n using that by (simp add: of_char_of)
  then show "is_digit (lower_char c) \<Longrightarrow> is_digit c" unfolding lower_char_def is_digit_def Let_def by (auto split: if_splits)
qed

lemma find_number_None: "find_number s = None \<longleftrightarrow> list_all (\<lambda>c. \<not> is_digit c) s"
  by (simp add: find_number_def Let_def list_all_iff)

lemma set_py_strip: "set (py_strip s) \<subseteq> set s"
proof
  fix c assume "c \<in> set (py_strip s)"
  then have "c \<in> set (dropWhile is_space (rev (dropWhile is_space s)))" by (simp add: py_strip_def)
  then have "c \<in> set (dropWhile is_space s)" using set_dropWhileD by fastforce
  then show "c \<in> set s" by (rule set_dropWhileD)
qed

lemma canonical_text:
  assumes "find_number v = None"
  shows "\<exists>ws. canonical_chapter_number v = join_words ws \<and> list_all plain_word ws \<and> list_all (list_all label_char) ws"
proof -
  let ?s = "py_lower (py_strip v)"
  have "list_all label_char ?s"
    using assms set_py_strip [of v] is_digit_lower
    by (auto simp: find_number_None py_lower_def list_all_iff label_char_def)
  then have "list_all (list_all label_char) (py_split ?s)" unfolding py_split_def by (intro split_words_chars) simp_all
  moreover have "list_all plain_word (py_split ?s)" unfolding py_split_def by (intro split_words_plain) simp
  ultimately show ?thesis using assms by (auto simp: canonical_chapter_number_def)
qed

subsection \<open>The normal form\<close>

text \<open>C35. A canonical chapter number is its own canonical number: a label that was stored is found again
  under itself.\<close>

theorem canonical_idempotent:
  "canonical_chapter_number (canonical_chapter_number v) = canonical_chapter_number v"
proof (cases "find_number v")
  case None
  then obtain ws where ws: "canonical_chapter_number v = join_words ws" "list_all plain_word ws" "list_all (list_all label_char) ws"
    using canonical_text by blast
  have "lower_char (CHR '' '') = CHR '' ''" by code_simp
  then have chars: "list_all label_char (join_words ws)" using ws(3) by (intro join_words_chars) (simp_all add: label_char_def)
  then have "find_number (join_words ws) = None" by (auto simp: find_number_None label_char_def list_all_iff)
  moreover have "py_lower (join_words ws) = join_words ws"
    using chars unfolding py_lower_def by (intro map_idI) (auto simp: list_all_iff label_char_def)
  ultimately have "canonical_chapter_number (join_words ws) = join_words ws"
    by (simp add: canonical_chapter_number_def strip_join [OF ws(2)] split_join [OF ws(2)])
  then show ?thesis by (simp only: ws(1))
next
  case (Some m)
  then have eq: "canonical_chapter_number v = format_f (normalize_dec (dec_of m))" by (simp add: canonical_chapter_number_def)
  obtain m' where "find_number (canonical_chapter_number v) = Some m'" "normalize_dec (dec_of m') = normalize_dec (dec_of m)"
    using normalize_format [OF normalize_normal, of "dec_of m"] eq by auto
  then show ?thesis using eq by (simp add: canonical_chapter_number_def [of "format_f (normalize_dec (dec_of m))"])
qed

lemma format_f_inj: "normal x \<Longrightarrow> normal y \<Longrightarrow> format_f x = format_f y \<longleftrightarrow> x = y"
  using normalize_format by (metis option.inject)

subsection \<open>Values\<close>

lemma scale10_powi: "scale10 m e = m * power_int 10 e"
  by (simp add: scale10_def power_int_def field_simps)

lemma scale10_shift: "scale10 (of_nat (c * 10 ^ k)) e = scale10 (of_nat c) (e + int k)"
  by (simp add: scale10_powi power_int_add)

lemma dec_value_strip: "dec_value (strip_zeros c e) = dec_value (c, e)"
proof (cases "c = 0")
  case True
  then show ?thesis by (simp add: dec_value_def scale10_powi)
next
  case False
  then obtain c' k e' where "strip_zeros c e = (c', e')" "c = c' * 10 ^ k" "e' = e + int k"
    using strip_zeros_spec [of c e] by (metis fst_conv gr0I snd_conv surj_pair)
  then show ?thesis by (simp add: dec_value_def scale10_shift del: of_nat_mult)
qed

definition short_number :: "string \<times> string \<Rightarrow> bool" where
  "short_number m = (fst (dec_of m) < 10 ^ context_digits)"

lemma normalize_value: "c < 10 ^ context_digits \<Longrightarrow> dec_value (normalize_dec (c, e)) = dec_value (c, e)"
proof -
  assume "c < 10 ^ context_digits"
  moreover have "0 < context_digits" by (simp add: context_digits_def)
  ultimately have "length (str_of_nat c) - context_digits = 0" using str_of_nat_length' by simp
  then show ?thesis by (simp add: normalize_dec_def fix_digits_def Let_def dec_value_strip)
qed

lemma normal_value_le:
  assumes n: "normal (c, e)" "normal (c', e')" and v: "dec_value (c, e) = dec_value (c', e')" and le: "e \<le> e'"
  shows "(c, e) = (c', e')"
proof -
  obtain k where k: "e' = e + int k" using le by (metis zle_iff_zadd)
  have "scale10 (of_nat c) e = scale10 (of_nat (c' * 10 ^ k)) e"
    using v by (simp add: dec_value_def k scale10_shift del: of_nat_mult)
  then have "(of_nat c :: rat) = of_nat (c' * 10 ^ k)" by (simp add: scale10_powi del: of_nat_mult)
  then have c: "c = c' * 10 ^ k" by (simp only: of_nat_eq_iff)
  show ?thesis
  proof (cases k)
    case 0
    then show ?thesis using c k by simp
  next
    case (Suc j)
    then have "c mod 10 = 0" using c by simp
    then have "c = 0" "e = 0" using n(1) by (auto simp: normal_def)
    then show ?thesis using c n(2) by (auto simp: normal_def)
  qed
qed

lemma normal_value_inj: "normal x \<Longrightarrow> normal y \<Longrightarrow> dec_value x = dec_value y \<Longrightarrow> x = y"
  using normal_value_le by (metis linorder_linear surj_pair)

text \<open>Two labels with a number of at most 28 digits share their canonical number exactly when the
  numbers are equal: padding, trailing zeros and surrounding text never split a chapter in two and
  never merge two chapters.\<close>

theorem canonical_same_number:
  assumes v: "find_number v = Some m" "short_number m" and w: "find_number w = Some m'" "short_number m'"
  shows "canonical_chapter_number v = canonical_chapter_number w \<longleftrightarrow> dec_value (dec_of m) = dec_value (dec_of m')"
proof -
  have val: "dec_value (normalize_dec (dec_of x)) = dec_value (dec_of x)" if "short_number x" for x
    using normalize_value that unfolding short_number_def by (metis prod.collapse)
  have "canonical_chapter_number v = canonical_chapter_number w \<longleftrightarrow> normalize_dec (dec_of m) = normalize_dec (dec_of m')"
    using v w format_f_inj [OF normalize_normal normalize_normal] by (simp add: canonical_chapter_number_def)
  also have "\<dots> \<longleftrightarrow> dec_value (dec_of m) = dec_value (dec_of m')"
    using val [OF v(2)] val [OF w(2)] normal_value_inj [OF normalize_normal normalize_normal] by metis
  finally show ?thesis .
qed

subsection \<open>Sort numbers\<close>

lemma digit_not_space: "is_digit c \<Longrightarrow> \<not> is_space c"
  by (auto simp: is_digit_def is_space_def Let_def)

lemma digit_not_sign: "is_digit c \<Longrightarrow> c \<noteq> CHR ''-'' \<and> c \<noteq> CHR ''+'' \<and> c \<noteq> CHR ''_''"
  by (auto simp: is_digit_def)

lemma digit_lower: "is_digit c \<Longrightarrow> lower_char c = c"
  by (auto simp: is_digit_def lower_char_def Let_def)

definition numeric_char :: "char \<Rightarrow> bool" where
  "numeric_char c = (is_digit c \<or> c = CHR ''.'')"

lemma numeric_char_facts:
  "numeric_char c \<Longrightarrow> \<not> is_space c" "numeric_char c \<Longrightarrow> c \<noteq> CHR ''_''"
proof -
  have "\<not> is_space (CHR ''.'')" by (simp add: is_space_def)
  then show "numeric_char c \<Longrightarrow> \<not> is_space c" "numeric_char c \<Longrightarrow> c \<noteq> CHR ''_''"
    using digit_not_space [of c] digit_not_sign [of c] by (auto simp: numeric_char_def)
qed

text \<open>Reading a text that starts with a digit and has only digits and points.\<close>

lemma parse_decimal_plain:
  assumes "list_all numeric_char s" "s \<noteq> []" "is_digit (hd s)"
  shows "parse_decimal s = map_option (\<lambda>(m, e). DFinite (scale10 m e)) (parse_number s)"
proof -
  have "py_strip s = s"
    unfolding py_strip_def using assms numeric_char_facts(1)
    by (subst (1 2) dropWhile_id) (auto simp: list_all_iff hd_rev intro!: dropWhile_id)
  moreover have "filter (\<lambda>c. c \<noteq> CHR ''_'') s = s"
    using assms(1) numeric_char_facts(2) by (auto simp: list_all_iff intro!: filter_True)
  moreover obtain c t where s: "s = c # t" "is_digit c" using assms by (cases s) auto
  moreover have "split_sign s = (False, s)" using s digit_not_sign by simp
  moreover have "py_lower s = c # map lower_char t" using s digit_lower by (simp add: py_lower_def)
  moreover have "c \<noteq> CHR ''i''" "c \<noteq> CHR ''n''" "c \<noteq> CHR ''s''" using s(2) by (auto simp: is_digit_def)
  ultimately show ?thesis unfolding parse_decimal_def by (simp add: take_Cons')
qed

lemma parse_number_digits:
  assumes "list_all is_digit ds" "ds \<noteq> []"
  shows "parse_number ds = Some (of_nat (nat_of_digits ds), 0)"
    "list_all is_digit fs \<Longrightarrow> parse_number (ds @ CHR ''.'' # fs) = Some (of_nat (nat_of_digits (ds @ fs)), - int (length fs))"
proof -
  have ds: "takeWhile is_digit ds = ds" "dropWhile is_digit ds = []" using digits_prefix [OF assms(1), of "[]"] by simp_all
  show "parse_number ds = Some (of_nat (nat_of_digits ds), 0)"
    using assms(2) by (simp add: parse_number_def parse_exponent_def Let_def ds)
  assume fs: "list_all is_digit fs"
  then have fw: "takeWhile is_digit fs = fs" "dropWhile is_digit fs = []" using digits_prefix [OF fs, of "[]"] by simp_all
  show "parse_number (ds @ CHR ''.'' # fs) = Some (of_nat (nat_of_digits (ds @ fs)), - int (length fs))"
    using assms(2) by (simp add: parse_number_def parse_exponent_def Let_def fw digits_prefix [OF assms(1)])
qed

lemma parse_decimal_digits:
  assumes "list_all is_digit ds" "ds \<noteq> []"
  shows "parse_decimal ds = Some (DFinite (dec_value (dec_of (ds, []))))"
    "list_all is_digit fs \<Longrightarrow> parse_decimal (ds @ CHR ''.'' # fs) = Some (DFinite (dec_value (dec_of (ds, fs))))"
proof -
  have hd: "is_digit (hd (ds @ t))" for t using assms by (cases ds) auto
  have num: "list_all numeric_char xs" if "list_all is_digit xs" for xs
    using that by (auto simp: list_all_iff numeric_char_def)
  show "parse_decimal ds = Some (DFinite (dec_value (dec_of (ds, []))))"
    using parse_decimal_plain [OF num [OF assms(1)] assms(2)] hd [of "[]"] parse_number_digits(1) [OF assms]
    by (simp add: dec_value_def dec_of_def)
  assume fs: "list_all is_digit fs"
  have "list_all numeric_char (ds @ CHR ''.'' # fs)" using num assms(1) fs by (simp add: numeric_char_def)
  from parse_decimal_plain [OF this _ hd] parse_number_digits(2) [OF assms fs]
  show "parse_decimal (ds @ CHR ''.'' # fs) = Some (DFinite (dec_value (dec_of (ds, fs))))"
    by (simp add: dec_value_def dec_of_def)
qed

lemma parse_format: "parse_decimal (format_f x) = Some (DFinite (dec_value x))"
proof -
  obtain c e where x: "x = (c, e)" by (cases x)
  obtain ds fs where shape: "list_all is_digit ds" "ds \<noteq> []" "list_all is_digit fs"
    "format_f x = ds \<and> fs = [] \<or> format_f x = ds @ CHR ''.'' # fs"
    and m: "dec_of (ds, fs) = (c * 10 ^ nat e, e - int (nat e))"
    using format_shape [of c e] x by blast
  have "dec_value (dec_of (ds, fs)) = dec_value x"
    using m scale10_shift [of c "nat e" "e - int (nat e)"] by (simp add: dec_value_def x del: of_nat_mult)
  then show ?thesis using shape parse_decimal_digits [OF shape(1,2)] by auto
qed

text \<open>Rounding to 28 digits.\<close>

lemma div_half_even_error:
  assumes "0 < b"
  shows "2 * \<bar>int (div_half_even a b * b) - int a\<bar> \<le> int b"
proof -
  have a: "int a = int (a div b) * int b + int (a mod b)"
    by (metis div_mult_mod_eq of_nat_add of_nat_mult)
  have r: "a mod b < b" using assms by simp
  show ?thesis
  proof (cases "2 * (a mod b) < b \<or> 2 * (a mod b) = b \<and> even (a div b)")
    case True
    then show ?thesis using a by (auto simp: div_half_even_def Let_def)
  next
    case False
    then have "div_half_even a b = a div b + 1" unfolding div_half_even_def Let_def by (rule if_not_P)
    then have "int (div_half_even a b * b) = int (a div b) * int b + int b" by (simp add: algebra_simps)
    then show ?thesis using a r False by auto
  qed
qed

lemma dec_value_nonneg: "0 \<le> dec_value x"
  by (cases x) (simp add: dec_value_def scale10_powi)

lemma fix_digits_close:
  "2 * 10 ^ 27 * \<bar>dec_value (fix_digits (c, e)) - dec_value (c, e)\<bar> \<le> dec_value (c, e)"
proof -
  define k where "k = length (str_of_nat c) - context_digits"
  define q where "q = div_half_even c (10 ^ k)"
  show ?thesis
  proof (cases "k = 0")
    case True
    then show ?thesis using dec_value_nonneg [of "(c, e)"] by (simp add: fix_digits_def k_def)
  next
    case False
    have "dec_value (fix_digits (c, e)) = dec_value (q, e + int k)"
    proof (cases "q = 10 ^ context_digits")
      case True
      have "scale10 (of_nat (10 ^ (context_digits - 1))) (e + int k + 1) = scale10 (of_nat (10 ^ (context_digits - 1) * 10 ^ 1)) (e + int k)"
        unfolding scale10_shift by simp
      also have "(10 :: nat) ^ (context_digits - 1) * 10 ^ 1 = q" using True by (simp add: context_digits_def)
      finally show ?thesis unfolding fix_digits_def prod.case Let_def k_def [symmetric] q_def [symmetric]
        using False True by (simp add: dec_value_def del: of_nat_mult of_nat_power)
    next
      case False
      then show ?thesis unfolding fix_digits_def prod.case Let_def k_def [symmetric] q_def [symmetric]
        using \<open>k \<noteq> 0\<close> by simp
    qed
    also have "\<dots> = of_nat (q * 10 ^ k) * power_int 10 e"
      using scale10_shift [of q k e] by (simp add: dec_value_def scale10_powi del: of_nat_mult)
    finally have diff: "dec_value (fix_digits (c, e)) - dec_value (c, e) = (of_nat (q * 10 ^ k) - of_nat c) * power_int 10 e"
      by (simp add: dec_value_def scale10_powi algebra_simps del: of_nat_mult)
    have len: "length (str_of_nat c) = Suc (27 + k)" using False by (simp add: k_def context_digits_def)
    have big: "10 ^ (27 + k) \<le> c"
      using str_of_nat_length [of c "26 + k"] len by (simp add: not_less [symmetric])
    have "2 * \<bar>int (q * 10 ^ k) - int c\<bar> \<le> int (10 ^ k)" unfolding q_def by (rule div_half_even_error) simp
    then have "2 * 10 ^ 27 * \<bar>int (q * 10 ^ k) - int c\<bar> \<le> 10 ^ 27 * int (10 ^ k)" by simp
    also have "\<dots> = int (10 ^ (27 + k))" by (simp add: power_add)
    also have "\<dots> \<le> int c" using big by (simp only: of_nat_le_iff)
    finally have "rat_of_int (2 * 10 ^ 27 * \<bar>int (q * 10 ^ k) - int c\<bar>) \<le> rat_of_int (int c)" by (simp only: of_int_le_iff)
    then have "2 * 10 ^ 27 * \<bar>of_nat (q * 10 ^ k) - of_nat c :: rat\<bar> \<le> of_nat c"
      by (simp del: of_nat_mult of_nat_power)
    from mult_right_mono [OF this, of "power_int 10 e"] show ?thesis
      unfolding diff by (simp add: dec_value_def scale10_powi abs_mult mult.assoc del: of_nat_mult)
  qed
qed

lemma normalize_close:
  "2 * 10 ^ 27 * \<bar>dec_value (normalize_dec x) - dec_value x\<bar> \<le> dec_value x"
proof -
  obtain c e c' e' where x: "x = (c, e)" "fix_digits x = (c', e')" by (metis surj_pair)
  then have "dec_value (normalize_dec x) = dec_value (fix_digits (c, e))" by (simp add: normalize_dec_def dec_value_strip)
  then show ?thesis using fix_digits_close [of c e] x(1) by simp
qed

text \<open>C36. The sort number of a label with a number in it is a finite decimal, so that such chapters are
  totally ordered: exactly the first number written in the label when that has at most 28 digits, and otherwise
  that number up to a relative rounding error of half a unit in the 28th digit.\<close>

theorem sort_number_value:
  assumes "find_number v = Some m"
  shows "\<exists>x. chapter_sort_number v = Some (DFinite x) \<and> (short_number m \<longrightarrow> x = dec_value (dec_of m)) \<and>
    2 * 10 ^ 27 * \<bar>x - dec_value (dec_of m)\<bar> \<le> dec_value (dec_of m)"
proof -
  have "chapter_sort_number v = Some (DFinite (dec_value (normalize_dec (dec_of m))))"
    using assms parse_format by (simp add: chapter_sort_number_def canonical_chapter_number_def)
  moreover have "dec_value (normalize_dec (dec_of m)) = dec_value (dec_of m)" if "short_number m"
    using normalize_value that unfolding short_number_def by (metis prod.collapse)
  ultimately show ?thesis using normalize_close by blast
qed

lemma max_label_no_number:
  "chapter_sort_number w = None \<Longrightarrow> w \<in> set vs \<Longrightarrow> \<exists>e. max_label best vs = Inl e"
  by (induction vs arbitrary: best) (auto simp: sort_number_gt_def bind_result_def split: option.split sum.split)

lemma newest_label_no_number:
  "chapter_sort_number w = None \<Longrightarrow> w \<in> set vs \<Longrightarrow> 2 \<le> length vs \<Longrightarrow> \<exists>e. newest_label vs = Inl e"
  using max_label_no_number
  by (cases vs; cases "tl vs") (auto simp: newest_label_def sort_number_gt_def bind_result_def split: option.split)

text \<open>The version of a listing cannot be computed when it shows several chapters and one of them has
  no number: comparing a missing sort number raises.\<close>

theorem listing_version_raises:
  assumes "py_strip latest = []" and "w \<in> set recent" "chapter_sort_number (py_strip w) = None" "2 \<le> length recent"
  shows "\<exists>e. listing_observation_version latest (Some recent) = Inl e"
  using assms newest_label_no_number [of "py_strip w" "map py_strip recent"]
  by (simp add: listing_observation_version_def)

theorem canonical_same_number_witness:
  "canonical_chapter_number ''Chapter 010.50'' = canonical_chapter_number ''Ch. 10.5''"
proof -
  have f: "find_number ''Chapter 010.50'' = Some (''010'', ''50'')" "find_number ''Ch. 10.5'' = Some (''10'', ''5'')"
    by code_simp+
  have s: "short_number (''010'', ''50'')" "short_number (''10'', ''5'')"
    by (simp_all add: short_number_def dec_of_def nat_of_digits_def digit_val_def context_digits_def)
  have "dec_value (dec_of (''010'', ''50'')) = dec_value (dec_of (''10'', ''5''))" by code_simp
  with canonical_same_number [OF f(1) s(1) f(2) s(2)] show ?thesis by blast
qed

theorem sort_number_value_witness: "chapter_sort_number ''Vol. 2.50 Ch. 7'' = Some (DFinite (5 / 2))"
proof -
  have "find_number ''Vol. 2.50 Ch. 7'' = Some (''2'', ''50'')" by code_simp
  from sort_number_value [OF this] obtain x where x: "chapter_sort_number ''Vol. 2.50 Ch. 7'' = Some (DFinite x)"
    "short_number (''2'', ''50'') \<longrightarrow> x = dec_value (dec_of (''2'', ''50''))" by blast
  have "short_number (''2'', ''50'')"
    by (simp add: short_number_def dec_of_def nat_of_digits_def digit_val_def context_digits_def)
  moreover have "dec_value (dec_of (''2'', ''50'')) = 5 / 2" by code_simp
  ultimately show ?thesis using x by simp
qed

theorem listing_version_raises_witness:
  "\<exists>e. listing_observation_version [] (Some [''12'', ''Oneshot'']) = Inl e"
proof -
  have "chapter_sort_number (py_strip ''Oneshot'') = None" by code_simp
  then show ?thesis by (intro listing_version_raises [where w = "''Oneshot''"]) simp_all
qed

end
