(* ===== verification/Library_Repair.thy ===== *)
theory Library_Repair
  imports Download_Routing
begin

text \<open>
  \<^verbatim>\<open>library_repair.py\<close>, the part that plans repairs: merging repair requests,
  \<open>enqueue_library_repair\<close>, and \<open>LibraryRepairPlanner\<close>.  The handler, which rewrites archives on
  disk, is not modelled.
\<close>

subsection \<open>Merging requests\<close>

definition TRACKED :: "series_status list" where
  "TRACKED = [Interested, Reading, CaughtUp, Paused]"

definition REPAIR_REASON_PRIORITY :: "(string \<times> int) list" where
  "REPAIR_REASON_PRIORITY = [(''merge'', 60), (''manual_repair'', 50), (''legacy_recovery'', 40), (''tracking'', 30),
     (''download'', 20), (''automatic_projection_repair'', 10)]"

definition reason_rank :: "string \<Rightarrow> int" where
  "reason_rank r = (case map_of REPAIR_REASON_PRIORITY r of None \<Rightarrow> 0 | Some n \<Rightarrow> n)"

definition repair_payload :: "int \<Rightarrow> string \<Rightarrow> string list \<Rightarrow> library_repair_payload result" where
  "repair_payload series reason obsolete =
     (let p = \<lparr>lr_version = 1, lr_series_id = series, lr_reason = reason, lr_obsolete_storage_keys = obsolete\<rparr>
      in if library_repair_ok p then Inr p else Inl ValidationError)"

text \<open>\<open>sorted\<close> of a set of strings.\<close>

definition obsolete_keys :: "library_repair_payload list \<Rightarrow> string list" where
  "obsolete_keys ps = sort (remdups (filter (\<lambda>k. k \<noteq> []) (concat (map lr_obsolete_storage_keys ps))))"

definition merged_repair_payload :: "int \<Rightarrow> library_repair_payload list \<Rightarrow> library_repair_payload result" where
  "merged_repair_payload series ps =
     (let obsolete = obsolete_keys ps;
          reason = (case max_by reason_rank (map lr_reason ps) of None \<Rightarrow> ''metadata'' | Some r \<Rightarrow> r)
      in repair_payload series (if obsolete \<noteq> [] then ''merge'' else reason) obsolete)"

text \<open>\<open>LibraryRepairPayload.model_validate\<close>.\<close>

definition validate_repair :: "validator \<Rightarrow> jdict \<Rightarrow> library_repair_payload result" where
  "validate_repair model_validate payload =
     (case model_validate LIBRARY_REPAIR payload of
        Some (LibraryRepairPayload p) \<Rightarrow> Inr p
      | _ \<Rightarrow> Inl ValidationError)"

definition pending_repair :: "validator \<Rightarrow> work_job \<Rightarrow> library_repair_payload list result" where
  "pending_repair model_validate j =
     (if job_pending_payload j = fmempty then Inr []
      else bind_result (validate_repair model_validate (job_pending_payload j)) (\<lambda>p. Inr [p]))"

subsection \<open>Requesting a repair\<close>

definition merge_repair_into ::
  "validator \<Rightarrow> int \<Rightarrow> int \<Rightarrow> library_repair_payload \<Rightarrow> work_job \<Rightarrow> db \<Rightarrow> (work_job \<times> bool \<times> db) result" where
  "merge_repair_into model_validate series prio incoming j d =
     (let j1 = j\<lparr>job_priority := min (job_priority j) prio\<rparr> in
      bind_result (validate_repair model_validate (job_payload j)) (\<lambda>stored.
      bind_result (pending_repair model_validate j) (\<lambda>pending.
      bind_result (merged_repair_payload series ([stored, incoming] @ pending)) (\<lambda>payload.
        let current = (if job_status j = LEASED \<and> pending \<noteq> [] then hd pending else stored);
            dump = model_dump (LibraryRepairPayload payload);
            j2 = (if payload = current then j1
                  else if job_status j = LEASED then j1\<lparr>job_pending_payload := dump\<rparr>
                  else j1\<lparr>job_payload := dump, job_error_code := [], job_error_message := []\<rparr>)
        in Inr (j2, False, put_job j2 d)))))"

definition repair_key :: "int \<Rightarrow> string" where
  "repair_key series = ''series:'' @ str_of_int series @ '':repair''"

definition repair_args :: "int \<Rightarrow> int \<Rightarrow> payload_arg \<Rightarrow> enqueue_args" where
  "repair_args series prio payload =
     (enqueue_defaults LIBRARY_REPAIR (repair_key series) payload)
       \<lparr>eq_priority := prio, eq_series_key := str_of_int series\<rparr>"

definition active_repair :: "int \<Rightarrow> db \<Rightarrow> work_job option" where
  "active_repair series d =
     find (\<lambda>j. job_kind_of j = LIBRARY_REPAIR \<and> job_dedupe_key j = repair_key series \<and> is_active j) (jobs d)"

definition enqueue_library_repair ::
  "validator \<Rightarrow> instant \<Rightarrow> int \<Rightarrow> string \<Rightarrow> int \<Rightarrow> string list \<Rightarrow> db \<Rightarrow> (work_job \<times> bool \<times> db) result" where
  "enqueue_library_repair model_validate now series reason prio obsolete d =
     bind_result (repair_payload series reason obsolete) (\<lambda>incoming.
     case active_repair series d of
       Some j \<Rightarrow> merge_repair_into model_validate series prio incoming j d
     | None \<Rightarrow>
         bind_result (enqueue model_validate now
             (repair_args series prio (Model (LibraryRepairPayload incoming))) d) (\<lambda>(j, created, d1).
         if created then Inr (j, True, d1)
         else case find_job (job_id j) d1 of
                None \<Rightarrow> Inl (RuntimeError ''coalesced library repair job disappeared'')
              | Some e \<Rightarrow> merge_repair_into model_validate series prio incoming e d1))"

subsection \<open>Collapsing legacy repairs\<close>

definition repair_group :: "string \<Rightarrow> db \<Rightarrow> work_job list" where
  "repair_group key d = sort_key job_id (filter (\<lambda>j. job_kind_of j = LIBRARY_REPAIR \<and> is_active j \<and> job_series_key j = key) (jobs d))"

definition repair_series_keys :: "db \<Rightarrow> string list" where
  "repair_series_keys d =
     sort (remdups (map job_series_key
       (filter (\<lambda>j. job_kind_of j = LIBRARY_REPAIR \<and> is_active j \<and> job_series_key j \<noteq> []) (jobs d))))"

definition repair_group_key :: "work_job \<Rightarrow> string" where
  "repair_group_key j = ''cycle:'' @ str_of_int (case job_cycle_id j of None \<Rightarrow> 0 | Some c \<Rightarrow> c) @ '':maintenance:library_repair''"

definition repair_keeper :: "work_job list \<Rightarrow> work_job" where
  "repair_keeper grp = (case find (\<lambda>j. job_status j = LEASED) grp of Some j \<Rightarrow> j | None \<Rightarrow> hd grp)"

fun repair_payloads :: "validator \<Rightarrow> work_job list \<Rightarrow> library_repair_payload list result" where
  "repair_payloads model_validate [] = Inr []"
| "repair_payloads model_validate (j # js) =
     bind_result (validate_repair model_validate (job_payload j)) (\<lambda>p.
     bind_result (pending_repair model_validate j) (\<lambda>qs.
     bind_result (repair_payloads model_validate js) (\<lambda>rest. Inr (p # qs @ rest))))"

definition cancel_merged :: "instant \<Rightarrow> int \<Rightarrow> work_job \<Rightarrow> int \<times> db \<Rightarrow> int \<times> db" where
  "cancel_merged now keeper j st =
     (let (n, d) = st in
      if job_id j = keeper then st
      else (let (b, d1) = cancel now (job_id j) (''coalesced into library repair job '' @ str_of_int keeper) d
            in (if b then n + 1 else n, d1)))"

text \<open>The keeper receives what the others asked for.\<close>

definition keeper_row :: "validator \<Rightarrow> library_repair_payload \<Rightarrow> work_job \<Rightarrow> work_job result" where
  "keeper_row model_validate merged k =
     (let dump = model_dump (LibraryRepairPayload merged) in
      if job_status k = LEASED then
        bind_result (validate_repair model_validate (job_payload k)) (\<lambda>cur.
        bind_result (pending_repair model_validate k) (\<lambda>pending.
          let known = lr_obsolete_storage_keys cur @ concat (map lr_obsolete_storage_keys pending)
          in Inr (if list_ex (\<lambda>x. x \<notin> set known) (lr_obsolete_storage_keys merged)
                  then k\<lparr>job_pending_payload := dump\<rparr> else k)))
      else Inr (k\<lparr>job_payload := dump, job_pending_payload := fmempty\<rparr>))"

definition reconcile_group ::
  "validator \<Rightarrow> instant \<Rightarrow> string \<Rightarrow> (int \<times> int) \<times> db \<Rightarrow> ((int \<times> int) \<times> db) result" where
  "reconcile_group model_validate now key st =
     (let ((canonicalized, cancelled), d) = st; grp = repair_group key d in
      case int_of_text key of
        Inl _ \<Rightarrow> Inr st
      | Inr series \<Rightarrow>
          (let canonical = repair_key series; gk = repair_group_key (hd grp); keeper = repair_keeper grp in
           if length grp = 1 \<and> job_dedupe_key (hd grp) = canonical
           then bind_result (flush_job ((hd grp)\<lparr>job_group_key := gk\<rparr>) d) (\<lambda>d1. Inr ((canonicalized, cancelled), d1))
           else
             bind_result (repair_payloads model_validate grp) (\<lambda>ps.
             bind_result (merged_repair_payload series ps) (\<lambda>merged.
             let (n, d1) = fold (cancel_merged now (job_id keeper)) grp (0, d) in
             bind_result (keeper_row model_validate merged keeper) (\<lambda>k.
             bind_result (flush_job (k\<lparr>job_dedupe_key := canonical, job_group_key := gk\<rparr>) d1) (\<lambda>d2.
               Inr ((if job_dedupe_key keeper \<noteq> canonical then canonicalized + 1 else canonicalized, cancelled + n), d2)))))))"

definition reconcile_active_jobs :: "validator \<Rightarrow> instant \<Rightarrow> db \<Rightarrow> ((int \<times> int) \<times> db) result" where
  "reconcile_active_jobs model_validate now d =
     fold_result (reconcile_group model_validate now) (repair_series_keys d) ((0, 0), d)"

subsection \<open>Repairs that are due\<close>

definition active_artifacts :: "int \<Rightarrow> db \<Rightarrow> chapter_artifact list" where
  "active_artifacts series d =
     filter (\<lambda>a. art_state a = ArtActive \<and> list_ex (\<lambda>c. ch_id c = art_chapter_id a \<and> ch_series_id c = series) (chapters d)) (artifacts d)"

definition unprojected :: "chapter_artifact \<Rightarrow> db \<Rightarrow> bool" where
  "unprojected a d =
     (\<not> list_ex (\<lambda>p. kp_chapter_id p = art_chapter_id a \<and> kp_artifact_id p = art_id a) (kavita_projections (library d)) \<or>
      \<not> list_ex (\<lambda>p. lp_chapter_id p = art_chapter_id a \<and> lp_artifact_id p = art_id a) (library_projections (library d)))"

definition needs_repair :: "db \<Rightarrow> catalog_series \<Rightarrow> bool" where
  "needs_repair d s = (ser_status s \<in> set TRACKED \<and> list_ex (\<lambda>a. unprojected a d) (active_artifacts (ser_id s) d))"

definition repair_one :: "validator \<Rightarrow> instant \<Rightarrow> int \<Rightarrow> int \<times> db \<Rightarrow> (int \<times> db) result" where
  "repair_one model_validate now series st =
     (let (created, d) = st in
      bind_result (enqueue_library_repair model_validate now series ''automatic_projection_repair'' 80 [] d) (\<lambda>(_, b, d1).
        Inr (if b then created + 1 else created, d1)))"

definition enqueue_repairs :: "validator \<Rightarrow> instant \<Rightarrow> nat \<Rightarrow> db \<Rightarrow> ((int \<times> int) \<times> db) result" where
  "enqueue_repairs model_validate now limit d =
     (if has_runnable_or_leased_downloads now None d then Inr ((0, 0), d)
      else
        (let rows = take limit (sort (map ser_id (filter (needs_repair d) (series_rows d)))) in
         bind_result (fold_result (repair_one model_validate now) rows (0, d)) (\<lambda>(created, d1).
           Inr ((int (length rows), created), d1))))"

end
