(* ===== verification/Identity_Matching.thy ===== *)
theory Identity_Matching
  imports Db_Model
begin

text \<open>
  \<^verbatim>\<open>manga_manager/domain/matching.py\<close>: when two listings of one provider are the same
  series.  The functions of \<open>urllib.parse\<close> it calls are written out for the characters of the
  model; percent escapes above \<^verbatim>\<open>%7F\<close>, which Python decodes as UTF-8, are taken
  byte by byte, and the validity of bracketed IPv6 hosts is not checked.
\<close>

subsection \<open>URLs\<close>

definition hex_digit :: "char \<Rightarrow> bool" where
  "hex_digit c = (is_digit c \<or> (let n = (of_char c :: nat) in 65 \<le> n \<and> n \<le> 70 \<or> 97 \<le> n \<and> n \<le> 102))"

definition hex_value :: "char \<Rightarrow> nat" where
  "hex_value c = (let n = (of_char c :: nat) in if n \<le> 57 then n - 48 else if n \<le> 70 then n - 55 else n - 87)"

fun unquote :: "string \<Rightarrow> string" where
  "unquote (p # a # b # s) =
     (if p = CHR ''%'' \<and> hex_digit a \<and> hex_digit b then char_of (16 * hex_value a + hex_value b) # unquote s
      else p # unquote (a # b # s))"
| "unquote s = s"

definition scheme_char :: "char \<Rightarrow> bool" where
  "scheme_char c = (let n = (of_char c :: nat) in
     is_digit c \<or> 65 \<le> n \<and> n \<le> 90 \<or> 97 \<le> n \<and> n \<le> 122 \<or> c \<in> set ''+-.'')"

definition ascii_alpha :: "char \<Rightarrow> bool" where
  "ascii_alpha c = (let n = (of_char c :: nat) in 65 \<le> n \<and> n \<le> 90 \<or> 97 \<le> n \<and> n \<le> 122)"

definition before :: "char \<Rightarrow> string \<Rightarrow> string" where
  "before c s = takeWhile (\<lambda>x. x \<noteq> c) s"

definition after_last :: "char \<Rightarrow> string \<Rightarrow> string" where
  "after_last c s = rev (takeWhile (\<lambda>x. x \<noteq> c) (rev s))"

text \<open>The part of an URL behind its scheme.\<close>

definition drop_scheme :: "string \<Rightarrow> string" where
  "drop_scheme s =
     (let scheme = before (CHR '':'') s
      in if CHR '':'' \<in> set s \<and> scheme \<noteq> [] \<and> ascii_alpha (hd s) \<and> list_all scheme_char scheme
         then drop (length scheme + 1) s else s)"

text \<open>\<open>urlsplit\<close>: the network location and the path.\<close>

definition urlsplit :: "string \<Rightarrow> (string \<times> string) result" where
  "urlsplit value =
     (let url = filter (\<lambda>c. c \<notin> {CHR 0x09, CHR 0x0A, CHR 0x0D}) (dropWhile (\<lambda>c. (of_char c :: nat) \<le> 32) value);
          rest = drop_scheme url;
          authority = py_startswith rest ''//'';
          netloc = (if authority then takeWhile (\<lambda>c. c \<notin> set ''/?#'') (drop 2 rest) else []);
          body = (if authority then dropWhile (\<lambda>c. c \<notin> set ''/?#'') (drop 2 rest) else rest)
      in if (CHR ''['' \<in> set netloc) \<noteq> (CHR '']'' \<in> set netloc) then Inl (ValueError ''Invalid IPv6 URL'')
         else Inr (netloc, before (CHR ''?'') (before (CHR ''#'') body)))"

definition hostname :: "string \<Rightarrow> string" where
  "hostname netloc =
     (let info = after_last (CHR ''@'') netloc;
          host = (if CHR ''['' \<in> set info then before (CHR '']'') (drop (length (before (CHR ''['') info) + 1) info)
                  else before (CHR '':'') info);
          name = before (CHR ''%'') host
      in py_lower name @ drop (length name) host)"

subsection \<open>Identities\<close>

fun dash_runs :: "bool \<Rightarrow> string \<Rightarrow> string" where
  "dash_runs run [] = []"
| "dash_runs run (c # s) =
     (if slug_char c \<and> c \<notin> {CHR ''_'', CHR ''-''} then c # dash_runs False s
      else if run then dash_runs True s else CHR ''-'' # dash_runs True s)"

definition strip_dashes :: "string \<Rightarrow> string" where
  "strip_dashes s = rev (dropWhile (\<lambda>c. c = CHR ''-'') (rev (dropWhile (\<lambda>c. c = CHR ''-'') s)))"

definition lower_hex :: "char \<Rightarrow> bool" where
  "lower_hex c = (is_digit c \<or> (let n = (of_char c :: nat) in 97 \<le> n \<and> n \<le> 102))"

definition drop_hash_suffix :: "string \<Rightarrow> string" where
  "drop_hash_suffix s =
     (let n = length s - 9; tail = drop n s
      in if 9 \<le> length s \<and> hd tail = CHR ''-'' \<and> list_all lower_hex (tl tail) then take n s else s)"

definition normalized_source_id :: "string \<Rightarrow> string" where
  "normalized_source_id value = drop_hash_suffix (strip_dashes (dash_runs False (py_lower (unquote value))))"

definition rstrip_slash :: "string \<Rightarrow> string" where
  "rstrip_slash s = rev (dropWhile (\<lambda>c. c = CHR ''/'') (rev s))"

definition canonical_source_url :: "string \<Rightarrow> string result" where
  "canonical_source_url value =
     bind_result (urlsplit value) (\<lambda>(netloc, path).
       Inr (py_removeprefix (py_lower (hostname netloc)) ''www.'' @ py_lower (rstrip_slash (unquote path))))"

definition provider_identities_equivalent ::
  "catalog_source_series \<Rightarrow> catalog_source_series \<Rightarrow> bool result" where
  "provider_identities_equivalent l r =
     (if srs_source l \<noteq> srs_source r then Inr False
      else
        (let left_id = normalized_source_id (srs_source_id l); right_id = normalized_source_id (srs_source_id r)
         in if left_id \<noteq> [] \<and> left_id = right_id then Inr True
            else bind_result (canonical_source_url (srs_url l)) (\<lambda>left_url.
                 bind_result (canonical_source_url (srs_url r)) (\<lambda>right_url.
                   Inr (left_url \<noteq> [] \<and> left_url = right_url)))))"

text \<open>Both directions agree, except in which of two malformed URLs is reported.\<close>

lemma equivalent_sym:
  "provider_identities_equivalent l r = Inr b \<Longrightarrow> provider_identities_equivalent r l = Inr b"
  by (auto simp: provider_identities_equivalent_def Let_def bind_result_eq_Inr split: if_splits)

end
