(* ===== verification/Series_Merge.thy ===== *)
theory Series_Merge
  imports Library_Repair Identity_Matching
begin

text \<open>
  Merging canonical series: \<open>merge_canonical_series\<close>, \<open>merge_match_groups\<close> and their helpers in
  \<^verbatim>\<open>web/app.py\<close>.  The sessions run without autoflush: queries see the rows as they
  were last flushed, statements run at once, and the changes of objects are written, updates
  before deletions, when the session is flushed.  The deletions cascade along the foreign keys.
\<close>

subsection \<open>Deletions with their cascades\<close>

definition on_library :: "(library_tables \<Rightarrow> library_tables) \<Rightarrow> db \<Rightarrow> db" where
  "on_library f d = d\<lparr>library := f (library d)\<rparr>"

definition drop_releases :: "(catalog_chapter_release \<Rightarrow> bool) \<Rightarrow> db \<Rightarrow> db" where
  "drop_releases P d =
     (let gone = map rel_id (filter P (releases d))
      in d\<lparr>releases := filter (\<lambda>r. \<not> P r) (releases d),
          attempts_log := filter (\<lambda>a. att_chapter_release_id a \<notin> set gone) (attempts_log d),
          artifacts := map (\<lambda>a. case art_chapter_release_id a of None \<Rightarrow> a
             | Some i \<Rightarrow> if i \<in> set gone then a\<lparr>art_chapter_release_id := None\<rparr> else a) (artifacts d)\<rparr>)"

definition drop_artifacts :: "(chapter_artifact \<Rightarrow> bool) \<Rightarrow> db \<Rightarrow> db" where
  "drop_artifacts P d =
     (let gone = map art_id (filter P (artifacts d))
      in on_library (\<lambda>l. l\<lparr>
             library_projections := filter (\<lambda>p. lp_artifact_id p \<notin> set gone) (library_projections l),
             kavita_projections := filter (\<lambda>p. kp_artifact_id p \<notin> set gone) (kavita_projections l)\<rparr>)
           (d\<lparr>artifacts := filter (\<lambda>a. \<not> P a) (artifacts d)\<rparr>))"

definition drop_chapter :: "int \<Rightarrow> db \<Rightarrow> db" where
  "drop_chapter c d =
     (let d1 = drop_artifacts (\<lambda>a. art_chapter_id a = c) (drop_releases (\<lambda>r. rel_chapter_id r = c) d)
      in on_library (\<lambda>l. l\<lparr>
             library_projections := filter (\<lambda>p. lp_chapter_id p \<noteq> c) (library_projections l),
             kavita_projections := filter (\<lambda>p. kp_chapter_id p \<noteq> c) (kavita_projections l),
             reading_states := filter (\<lambda>s. crs_chapter_id s \<noteq> c) (reading_states l)\<rparr>)
           (d1\<lparr>chapters := filter (\<lambda>x. ch_id x \<noteq> c) (chapters d1),
               intents := filter (\<lambda>i. int_chapter_id i \<noteq> c) (intents d1),
               attempts_log := filter (\<lambda>a. att_chapter_id a \<noteq> c) (attempts_log d1)\<rparr>))"

definition drop_source_series :: "int \<Rightarrow> db \<Rightarrow> db" where
  "drop_source_series i d =
     on_library (\<lambda>l. l\<lparr>
         alternates := filter (\<lambda>a. alt_primary_source_series_id a \<noteq> i) (alternates l),
         cover_fingerprints := filter (\<lambda>f. cfp_source_series_id f \<noteq> i) (cover_fingerprints l),
         cover_assets := filter (\<lambda>a. cas_source_series_id a \<noteq> i) (cover_assets l),
         cover_signatures := filter (\<lambda>s. csg_source_series_id s \<noteq> i) (cover_signatures l),
         series_aliases := filter (\<lambda>a. ali_source_series_id a \<noteq> Some i) (series_aliases l),
         external_identifiers := filter (\<lambda>e. ext_source_series_id e \<noteq> i) (external_identifiers l)\<rparr>)
       ((drop_releases (\<lambda>r. rel_source_series_id r = i) d)\<lparr>
           source_series := filter (\<lambda>s. srs_id s \<noteq> i) (source_series d),
           decisions := filter (\<lambda>x. dec_left x \<noteq> i \<and> dec_right x \<noteq> i) (decisions d)\<rparr>)"

definition drop_series :: "int \<Rightarrow> db \<Rightarrow> db" where
  "drop_series s d =
     (let d1 = fold drop_source_series (map srs_id (filter (\<lambda>x. srs_series_id x = s) (source_series d))) d;
          d2 = fold drop_chapter (map ch_id (filter (\<lambda>c. ch_series_id c = s) (chapters d1))) d1
      in on_library (\<lambda>l. l\<lparr>
             series_aliases := filter (\<lambda>a. ali_series_id a \<noteq> s) (series_aliases l),
             external_identifiers := filter (\<lambda>e. ext_series_id e \<noteq> s) (external_identifiers l)\<rparr>)
           (d2\<lparr>series_rows := filter (\<lambda>x. ser_id x \<noteq> s) (series_rows d2),
               plans := filter (\<lambda>p. plan_series_id p \<noteq> s) (plans d2),
               intents := filter (\<lambda>i. int_series_id i \<noteq> s) (intents d2),
               operation_series := filter (\<lambda>m. mos_series_id m \<noteq> s) (operation_series d2)\<rparr>))"

subsection \<open>Overlap of two provider identities\<close>

definition chapter_numbers :: "int \<Rightarrow> db \<Rightarrow> string list" where
  "chapter_numbers sid d =
     remdups (concat (map (\<lambda>r. map ch_canonical_number (filter (\<lambda>c. ch_id c = rel_chapter_id r) (chapters d)))
       (filter (\<lambda>r. rel_source_series_id r = sid) (releases d))))"

definition chapter_overlap :: "int \<Rightarrow> int \<Rightarrow> db \<Rightarrow> nat \<times> nat" where
  "chapter_overlap l r d =
     (let left = chapter_numbers l d; right = chapter_numbers r d
      in (length (filter (\<lambda>n. n \<in> set right) left), min (length left) (length right)))"

text \<open>\<open>overlap < 2 or (minimum and overlap / minimum < 0.5)\<close>.\<close>

definition weak_overlap :: "nat \<times> nat \<Rightarrow> bool" where
  "weak_overlap om = (case om of (overlap, minimum) \<Rightarrow> overlap < 2 \<or> minimum \<noteq> 0 \<and> 2 * overlap < minimum)"

definition require_equivalent :: "catalog_source_series \<Rightarrow> catalog_source_series \<Rightarrow> db \<Rightarrow> unit result" where
  "require_equivalent l r d =
     bind_result (provider_identities_equivalent l r) (\<lambda>equivalent.
       if \<not> equivalent \<and> weak_overlap (chapter_overlap (srs_id l) (srs_id r) d)
       then Inl (HTTPException 409 (''duplicate '' @ srs_source l @ '' identities lack strong chapter overlap''))
       else Inr ())"

definition identities_of :: "int \<Rightarrow> db \<Rightarrow> catalog_source_series list" where
  "identities_of s d = filter (\<lambda>x. srs_series_id x = s) (source_series d)"

text \<open>\<open>{row.source: row for row in rows}\<close>: the last row of a source wins.\<close>

definition by_source :: "string \<Rightarrow> catalog_source_series list \<Rightarrow> catalog_source_series option" where
  "by_source src rows = find (\<lambda>x. srs_source x = src) (rev rows)"

definition shared_sources :: "catalog_source_series list \<Rightarrow> catalog_source_series list \<Rightarrow> string list" where
  "shared_sources ls rs = filter (\<lambda>s. s \<in> set (map srs_source rs)) (fromkeys (map srs_source ls))"

subsection \<open>Consolidating duplicate identities\<close>

text \<open>\<open>_replace_release_references\<close>: artifacts, attempts and queued work of a duplicate release move
  to the release that is kept.\<close>

definition redirect_payload :: "int \<Rightarrow> int \<Rightarrow> jdict \<Rightarrow> jdict result" where
  "redirect_payload dup keep payload =
     bind_result (int_or_zero (dict_get payload ''chapter_release_id'')) (\<lambda>n.
       Inr (if n = dup then fmupd ''chapter_release_id'' (JInt keep) payload else payload))"

definition redirect_job :: "int \<Rightarrow> int \<Rightarrow> work_job \<Rightarrow> db \<Rightarrow> db result" where
  "redirect_job dup keep j d =
     bind_result (redirect_payload dup keep (job_payload j)) (\<lambda>payload.
     bind_result (redirect_payload dup keep (job_pending_payload j)) (\<lambda>pending.
       Inr (put_job (j\<lparr>job_payload := payload, job_pending_payload := pending\<rparr>) d)))"

definition replace_release_references ::
  "catalog_chapter_release \<Rightarrow> catalog_chapter_release \<Rightarrow> db \<Rightarrow> db result" where
  "replace_release_references dup keep d =
     (let d1 = d\<lparr>artifacts := map (\<lambda>a. if art_chapter_release_id a = Some (rel_id dup)
                  then a\<lparr>art_chapter_release_id := Some (rel_id keep)\<rparr> else a) (artifacts d),
              attempts_log := map (\<lambda>a. if att_chapter_release_id a = rel_id dup
                  then a\<lparr>att_chapter_release_id := rel_id keep\<rparr> else a) (attempts_log d)\<rparr>
      in bind_result (fold_result (redirect_job (rel_id dup) (rel_id keep))
             (filter (\<lambda>j. job_kind_of j = CHAPTER_DOWNLOAD) (jobs d1)) d1) (\<lambda>d2.
         Inr (drop_releases (\<lambda>r. rel_id r = rel_id dup) d2)))"

definition move_release ::
  "int \<Rightarrow> catalog_chapter_release list \<Rightarrow> catalog_chapter_release \<Rightarrow> db \<Rightarrow> db result" where
  "move_release keeper stored r d =
     (case find (\<lambda>x. rel_source_series_id x = keeper \<and> rel_source_release_id x = rel_source_release_id r) stored of
        None \<Rightarrow> Inr (put_release (r\<lparr>rel_source_series_id := keeper\<rparr>) d)
      | Some existing \<Rightarrow> replace_release_references r existing d)"

definition move_alternates :: "int \<Rightarrow> int \<Rightarrow> alternate_listing list \<Rightarrow> alternate_listing list" where
  "move_alternates keeper dup rows = List.map_filter (\<lambda>a.
     if alt_primary_source_series_id a \<noteq> dup then Some a
     else if list_ex (\<lambda>x. alt_id x \<noteq> alt_id a \<and> alt_source x = alt_source a \<and> alt_source_id x = alt_source_id a) rows then None
     else Some (a\<lparr>alt_primary_source_series_id := keeper\<rparr>)) rows"

text \<open>The duplicate stays known as an alternate listing of the identity that is kept.\<close>

definition record_alternate ::
  "catalog_source_series \<Rightarrow> catalog_source_series \<Rightarrow> nat \<times> nat \<Rightarrow> library_tables \<Rightarrow> library_tables" where
  "record_alternate keeper dup om l =
     (let evidence = fmap_of_list [(''chapter_overlap'', JInt (int (fst om))), (''compared_chapters'', JInt (int (snd om)))];
          rows = move_alternates (srs_id keeper) (srs_id dup) (alternates l)
      in case find (\<lambda>a. alt_source a = srs_source dup \<and> alt_source_id a = srs_source_id dup) rows of
           None \<Rightarrow> l\<lparr>alternates := rows @ [\<lparr>alt_id = alternate_seq l, alt_primary_source_series_id = srs_id keeper,
                     alt_source = srs_source dup, alt_source_id = srs_source_id dup, alt_title = srs_title dup,
                     alt_url = srs_url dup, alt_evidence = evidence\<rparr>], alternate_seq := alternate_seq l + 1\<rparr>
         | Some a \<Rightarrow> l\<lparr>alternates := put_row alt_id (a\<lparr>alt_primary_source_series_id := srs_id keeper,
                     alt_title := srs_title dup, alt_url := srs_url dup, alt_evidence := evidence\<rparr>) rows\<rparr>)"

definition fill_identity :: "catalog_source_series \<Rightarrow> catalog_source_series \<Rightarrow> catalog_source_series" where
  "fill_identity keeper dup =
     keeper\<lparr>srs_description := str_or (srs_description keeper) (srs_description dup),
       srs_cover_url := str_or (srs_cover_url keeper) (srs_cover_url dup),
       srs_metadata := (if srs_metadata keeper = fmempty then srs_metadata dup else srs_metadata keeper)\<rparr>"

definition move_covers :: "int \<Rightarrow> int \<Rightarrow> library_tables \<Rightarrow> library_tables" where
  "move_covers keeper dup l =
     l\<lparr>cover_assets := (if list_ex (\<lambda>a. cas_source_series_id a = keeper) (cover_assets l) then cover_assets l
          else map (\<lambda>a. if cas_source_series_id a = dup then a\<lparr>cas_source_series_id := keeper\<rparr> else a) (cover_assets l)),
       cover_signatures := (if list_ex (\<lambda>a. csg_source_series_id a = keeper) (cover_signatures l) then cover_signatures l
          else map (\<lambda>a. if csg_source_series_id a = dup then a\<lparr>csg_source_series_id := keeper\<rparr> else a) (cover_signatures l)),
       cover_fingerprints := List.map_filter (\<lambda>f.
          if cfp_source_series_id f \<noteq> dup then Some f
          else if list_ex (\<lambda>x. cfp_source_series_id x = keeper \<and> cfp_algorithm x = cfp_algorithm f) (cover_fingerprints l) then None
          else Some (f\<lparr>cfp_source_series_id := keeper\<rparr>)) (cover_fingerprints l)\<rparr>"

definition move_names :: "int \<Rightarrow> int \<Rightarrow> library_tables \<Rightarrow> library_tables" where
  "move_names keeper dup l =
     l\<lparr>series_aliases := List.map_filter (\<lambda>a.
          if ali_source_series_id a \<noteq> Some dup then Some a
          else if list_ex (\<lambda>x. ali_id x \<noteq> ali_id a \<and> ali_series_id x = ali_series_id a \<and>
                    ali_normalized_value x = ali_normalized_value a) (series_aliases l) then None
          else Some (a\<lparr>ali_source_series_id := Some keeper\<rparr>)) (series_aliases l),
       external_identifiers := List.map_filter (\<lambda>e.
          if ext_source_series_id e \<noteq> dup then Some e
          else if list_ex (\<lambda>x. ext_source_series_id x = keeper \<and> ext_provider x = ext_provider e) (external_identifiers l) then None
          else Some (e\<lparr>ext_source_series_id := keeper\<rparr>)) (external_identifiers l)\<rparr>"

definition consolidate_identity ::
  "catalog_source_series \<Rightarrow> catalog_source_series \<Rightarrow> int \<Rightarrow> db \<Rightarrow> db result" where
  "consolidate_identity keeper dup decision d =
     bind_result (require_equivalent keeper dup d) (\<lambda>_.
     let om = chapter_overlap (srs_id keeper) (srs_id dup) d;
         d1 = on_library (record_alternate keeper dup om) d;
         d2 = d1\<lparr>source_series := put_row srs_id (fill_identity keeper dup) (source_series d1)\<rparr>;
         d3 = on_library (move_covers (srs_id keeper) (srs_id dup)) d2
     in bind_result (fold_result (move_release (srs_id keeper) (releases d3))
            (filter (\<lambda>r. rel_source_series_id r = srs_id dup) (releases d3)) d3) (\<lambda>d4.
        let d5 = on_library (move_names (srs_id keeper) (srs_id dup)) d4;
            d6 = d5\<lparr>decisions := filter (\<lambda>x. dec_id x = decision \<or> dec_left x \<noteq> srs_id dup \<and> dec_right x \<noteq> srs_id dup) (decisions d5)\<rparr>
        in Inr (drop_source_series (srs_id dup) d6)))"

definition consolidate_source ::
  "catalog_source_series \<Rightarrow> catalog_source_series \<Rightarrow> int \<Rightarrow> catalog_source_series list \<Rightarrow> catalog_source_series list \<Rightarrow>
   string \<Rightarrow> db \<Rightarrow> db result" where
  "consolidate_source l r decision ls rs src d =
     (case (by_source src ls, by_source src rs) of
        (Some li, Some ri) \<Rightarrow>
          if srs_source r = src then consolidate_identity ri li decision d else consolidate_identity li ri decision d
      | _ \<Rightarrow> Inr d)"

definition consolidate_overlapping ::
  "catalog_source_series \<Rightarrow> catalog_source_series \<Rightarrow> int \<Rightarrow> db \<Rightarrow> db result" where
  "consolidate_overlapping l r decision d =
     (let ls = identities_of (srs_series_id l) d; rs = identities_of (srs_series_id r) d
      in fold_result (consolidate_source l r decision ls rs) (shared_sources ls rs) d)"

subsection \<open>Moving chapters\<close>

definition move_intent :: "int \<Rightarrow> int \<Rightarrow> int \<Rightarrow> db \<Rightarrow> db" where
  "move_intent target c t d =
     (case get_row int_chapter_id c (intents d) of
        None \<Rightarrow> d
      | Some i \<Rightarrow>
          if get_row int_chapter_id t (intents d) = None
          then put_intent (i\<lparr>int_series_id := target, int_chapter_id := t\<rparr>) d
          else d\<lparr>intents := filter (\<lambda>x. int_id x \<noteq> int_id i) (intents d)\<rparr>)"

definition active_of :: "int \<Rightarrow> db \<Rightarrow> bool" where
  "active_of c d = list_ex (\<lambda>a. art_chapter_id a = c \<and> art_state a = ArtActive) (artifacts d)"

text \<open>The projections of the chapter are dropped when the target has an active artifact, and move
  otherwise; a projection the target still has then violates its primary key.\<close>

definition move_artifacts :: "int \<Rightarrow> int \<Rightarrow> db \<Rightarrow> db result" where
  "move_artifacts c t d =
     (if active_of t d then
        Inr (on_library (\<lambda>l. l\<lparr>library_projections := filter (\<lambda>p. lp_chapter_id p \<noteq> c) (library_projections l),
                               kavita_projections := filter (\<lambda>p. kp_chapter_id p \<noteq> c) (kavita_projections l)\<rparr>)
          (d\<lparr>artifacts := map (\<lambda>a. if art_chapter_id a = c
             then a\<lparr>art_chapter_id := t, art_state := (if art_state a = ArtActive then ArtQuarantined else art_state a)\<rparr>
             else a) (artifacts d)\<rparr>))
      else if list_ex (\<lambda>p. lp_chapter_id p = c) (library_projections (library d)) \<and>
              list_ex (\<lambda>p. lp_chapter_id p = t) (library_projections (library d)) \<or>
              list_ex (\<lambda>p. kp_chapter_id p = c) (kavita_projections (library d)) \<and>
              list_ex (\<lambda>p. kp_chapter_id p = t) (kavita_projections (library d)) then Inl IntegrityError
      else
        Inr (on_library (\<lambda>l. l\<lparr>
            library_projections := map (\<lambda>p. if lp_chapter_id p = c then p\<lparr>lp_chapter_id := t\<rparr> else p) (library_projections l),
            kavita_projections := map (\<lambda>p. if kp_chapter_id p = c then p\<lparr>kp_chapter_id := t\<rparr> else p) (kavita_projections l)\<rparr>)
          (d\<lparr>artifacts := map (\<lambda>a. if art_chapter_id a = c then a\<lparr>art_chapter_id := t\<rparr> else a) (artifacts d)\<rparr>)))"

fun reading_rank :: "chapter_reading_status \<Rightarrow> int" where
  "reading_rank ChapterUnread = 0"
| "reading_rank ChapterReading = 1"
| "reading_rank ChapterRead = 2"

definition merge_reading :: "int \<Rightarrow> int \<Rightarrow> chapter_reading_state list \<Rightarrow> chapter_reading_state list" where
  "merge_reading c t rows =
     (case get_row crs_chapter_id c rows of
        None \<Rightarrow> rows
      | Some s \<Rightarrow>
          (case get_row crs_chapter_id t rows of
             None \<Rightarrow> map (\<lambda>x. if crs_chapter_id x = c then x\<lparr>crs_chapter_id := t\<rparr> else x) rows
           | Some u \<Rightarrow>
               filter (\<lambda>x. crs_chapter_id x \<noteq> c)
                 (if reading_rank (crs_status u) < reading_rank (crs_status s)
                  then put_row crs_chapter_id (u\<lparr>crs_status := crs_status s, crs_read_at := crs_read_at s\<rparr>) rows else rows)))"

definition merge_chapter :: "int \<Rightarrow> catalog_chapter list \<Rightarrow> catalog_chapter \<Rightarrow> db \<Rightarrow> db result" where
  "merge_chapter target stored c d =
     (case find (\<lambda>x. ch_series_id x = target \<and> ch_canonical_number x = ch_canonical_number c) stored of
        None \<Rightarrow> Inr (d\<lparr>chapters := put_row ch_id (c\<lparr>ch_series_id := target\<rparr>) (chapters d)\<rparr>)
      | Some t \<Rightarrow>
          (let d1 = move_intent target (ch_id c) (ch_id t) d;
               d2 = d1\<lparr>releases := map (\<lambda>r. if rel_chapter_id r = ch_id c then r\<lparr>rel_chapter_id := ch_id t\<rparr> else r) (releases d1),
                       attempts_log := map (\<lambda>a. if att_chapter_id a = ch_id c then a\<lparr>att_chapter_id := ch_id t\<rparr> else a) (attempts_log d1)\<rparr>
           in bind_result (move_artifacts (ch_id c) (ch_id t) d2) (\<lambda>d3.
              Inr (drop_chapter (ch_id c)
                (on_library (\<lambda>l. l\<lparr>reading_states := merge_reading (ch_id c) (ch_id t) (reading_states l)\<rparr>) d3)))))"

subsection \<open>Merging two series\<close>

definition move_plan :: "int \<Rightarrow> int \<Rightarrow> db \<Rightarrow> db" where
  "move_plan target source d =
     d\<lparr>plans := (if get_row plan_series_id target (plans d) = None
          then map (\<lambda>p. if plan_series_id p = source then p\<lparr>plan_series_id := target\<rparr> else p) (plans d)
          else filter (\<lambda>p. plan_series_id p \<noteq> source) (plans d))\<rparr>"

definition move_series_names :: "int \<Rightarrow> int \<Rightarrow> library_tables \<Rightarrow> library_tables" where
  "move_series_names target source l =
     l\<lparr>series_aliases := List.map_filter (\<lambda>a.
          if ali_series_id a \<noteq> source then Some a
          else if list_ex (\<lambda>x. ali_series_id x = target \<and> ali_normalized_value x = ali_normalized_value a) (series_aliases l) then None
          else Some (a\<lparr>ali_series_id := target\<rparr>)) (series_aliases l),
       external_identifiers := map (\<lambda>e. if ext_series_id e = source then e\<lparr>ext_series_id := target\<rparr> else e) (external_identifiers l)\<rparr>"

definition newer_release :: "catalog_series \<Rightarrow> catalog_series \<Rightarrow> bool" where
  "newer_release s t = (case (ser_latest_release_at t, ser_latest_release_at s) of
       (None, _) \<Rightarrow> True | (Some a, Some b) \<Rightarrow> a < b | _ \<Rightarrow> False)"

definition fill_series :: "catalog_series option \<Rightarrow> catalog_series \<Rightarrow> catalog_series" where
  "fill_series src t =
     (case src of
        None \<Rightarrow> t\<lparr>ser_integrity_state := IntegrityHealthy\<rparr>
      | Some s \<Rightarrow>
          (let t1 = t\<lparr>ser_integrity_state := IntegrityHealthy,
                 ser_description := str_or (ser_description t) (ser_description s),
                 ser_cover_url := str_or (ser_cover_url t) (ser_cover_url s)\<rparr>;
               t2 = (if ser_kavita_series_id t = None \<and> ser_kavita_series_id s \<noteq> None
                     then t1\<lparr>ser_kavita_series_id := ser_kavita_series_id s, ser_kavita_library_id := ser_kavita_library_id s,
                            ser_kavita_synced_at := ser_kavita_synced_at s,
                            ser_kavita_cover_checksum := ser_kavita_cover_checksum s\<rparr> else t1)
           in if newer_release s t
              then t2\<lparr>ser_latest_release_at := ser_latest_release_at s,
                     ser_latest_release_number := ser_latest_release_number s,
                     ser_latest_release_source := ser_latest_release_source s\<rparr> else t2))"

definition merge_rows :: "int \<Rightarrow> int \<Rightarrow> db \<Rightarrow> db" where
  "merge_rows target source d =
     (let d1 = d\<lparr>source_series := map (\<lambda>x. if srs_series_id x = source then x\<lparr>srs_series_id := target\<rparr> else x) (source_series d),
              intents := map (\<lambda>i. if int_series_id i = source then i\<lparr>int_series_id := target\<rparr> else i) (intents d)\<rparr>;
          d2 = move_plan target source d1;
          d3 = d2\<lparr>jobs := map (\<lambda>j. if job_series_key j = str_of_int source then j\<lparr>job_series_key := str_of_int target\<rparr> else j) (jobs d2)\<rparr>;
          d4 = on_library (move_series_names target source) d3;
          d5 = (case get_row ser_id target (series_rows d4) of None \<Rightarrow> d4
                | Some t \<Rightarrow> d4\<lparr>series_rows := put_row ser_id (fill_series (get_row ser_id source (series_rows d4)) t) (series_rows d4)\<rparr>)
      in if get_row ser_id source (series_rows d5) = None then d5 else drop_series source d5)"

fun comma_list :: "string list \<Rightarrow> string" where
  "comma_list [] = []"
| "comma_list [x] = x"
| "comma_list (x # y # xs) = x @ '', '' @ comma_list (y # xs)"

definition merge_match_groups :: "int \<Rightarrow> int \<Rightarrow> int \<Rightarrow> db \<Rightarrow> db result" where
  "merge_match_groups left right decision d =
     (case (get_row srs_id left (source_series d), get_row srs_id right (source_series d)) of
        (Some l, Some r) \<Rightarrow>
          if srs_series_id l = srs_series_id r then Inr d
          else bind_result (consolidate_overlapping l r decision d) (\<lambda>d1.
            let target = srs_series_id l; source = srs_series_id r;
                overlap = shared_sources (identities_of target d1) (identities_of source d1)
            in if overlap \<noteq> [] then Inl (HTTPException 409 (''merge would create duplicate provider identities: '' @ comma_list (sort overlap)))
               else bind_result (fold_result (merge_chapter target (chapters d1))
                      (sort_key ch_id (filter (\<lambda>c. ch_series_id c = source) (chapters d1))) d1) (\<lambda>d2.
                    Inr (merge_rows target source d2)))
      | _ \<Rightarrow> Inl (HTTPException 409 ''one match identity no longer exists''))"

subsection \<open>Merging a selection\<close>

fun pairs :: "'a list \<Rightarrow> ('a \<times> 'a) list" where
  "pairs [] = []"
| "pairs (x # xs) = map (\<lambda>y. (x, y)) xs @ pairs xs"

definition check_collision :: "db \<Rightarrow> catalog_series \<times> catalog_series \<Rightarrow> unit \<Rightarrow> unit result" where
  "check_collision d xy u =
     (let ls = identities_of (ser_id (fst xy)) d; rs = identities_of (ser_id (snd xy)) d
      in fold_result (\<lambda>src _. case (by_source src ls, by_source src rs) of
             (Some l, Some r) \<Rightarrow> require_equivalent l r d | _ \<Rightarrow> Inr ()) (shared_sources ls rs) u)"

definition provider_priority :: "string \<Rightarrow> int" where
  "provider_priority src =
     (let n = length (takeWhile (\<lambda>s. s \<noteq> src) SOURCE_PRIORITY)
      in if n < length SOURCE_PRIORITY then int (length SOURCE_PRIORITY - n) else 0)"

definition merge_rank :: "db \<Rightarrow> catalog_series \<Rightarrow> int \<times> int \<times> int \<times> int" where
  "merge_rank d s =
     (let ids = identities_of (ser_id s) d
      in (fold max (map (\<lambda>x. provider_priority (srs_source x)) ids) 0,
          (if ser_cover_url s \<noteq> [] then 1 else 0) + (if ser_description s \<noteq> [] then 1 else 0),
          int (length (filter (\<lambda>c. ch_series_id c = ser_id s) (chapters d))),
          - ser_id s))"

fun tracking_rank :: "series_status \<Rightarrow> int" where
  "tracking_rank Untracked = 0"
| "tracking_rank Paused = 1"
| "tracking_rank CaughtUp = 2"
| "tracking_rank Interested = 3"
| "tracking_rank Reading = 4"

text \<open>\<open>next((x for x in xs if P x), xs[0] if xs else None)\<close>.\<close>

definition first_or :: "('a \<Rightarrow> bool) \<Rightarrow> 'a list \<Rightarrow> 'a option" where
  "first_or P xs = (case find P xs of Some x \<Rightarrow> Some x | None \<Rightarrow> (case xs of [] \<Rightarrow> None | x # _ \<Rightarrow> Some x))"

text \<open>The pair of identities through which one more series joins the target.\<close>

definition joining_pair :: "int \<Rightarrow> int \<Rightarrow> db \<Rightarrow> (int \<times> int) option" where
  "joining_pair target source d =
     (let ts = sort_key srs_id (identities_of target d); ss = sort_key srs_id (identities_of source d);
          shared = set (map srs_source ts) \<inter> set (map srs_source ss)
      in case first_or (\<lambda>x. srs_source x \<in> shared) ts of
           None \<Rightarrow> None
         | Some l \<Rightarrow> map_option (\<lambda>r. (srs_id l, srs_id r)) (first_or (\<lambda>x. srs_source x = srs_source l) ss))"

definition join_series :: "int \<Rightarrow> int \<Rightarrow> db \<Rightarrow> db result" where
  "join_series target source d =
     (if source = target then Inr d
      else case joining_pair target source d of
             None \<Rightarrow> Inl (HTTPException 409 ''each manga must have a provider identity'')
           | Some (l, r) \<Rightarrow> merge_match_groups l r 0 d)"

definition series_busy :: "int list \<Rightarrow> db \<Rightarrow> bool" where
  "series_busy ids d = list_ex (\<lambda>j. job_series_key j \<in> set (map str_of_int ids) \<and> job_status j = LEASED) (jobs d)"

definition best_status :: "catalog_series list \<Rightarrow> series_status" where
  "best_status rows = (case max_by (\<lambda>s. tracking_rank (ser_status s)) rows of None \<Rightarrow> Untracked | Some s \<Rightarrow> ser_status s)"

definition merge_canonical_series :: "validator \<Rightarrow> instant \<Rightarrow> int list \<Rightarrow> db \<Rightarrow> (int \<times> db) result" where
  "merge_canonical_series model_validate now series_ids d =
     (let ids = sort (remdups series_ids);
          rows = sort_key ser_id (filter (\<lambda>s. ser_id s \<in> set ids) (series_rows d))
      in if length ids < 2 then Inl (HTTPException 422 ''select at least two manga'')
         else if length rows \<noteq> length ids then Inl (HTTPException 404 ''one or more manga no longer exist'')
         else if series_busy ids d then Inl (HTTPException 409 ''wait for active series jobs to finish before merging'')
         else bind_result (fold_result (check_collision d) (pairs rows) ()) (\<lambda>_.
           case max_by (merge_rank d) rows of
             None \<Rightarrow> Inl (ValueError ''max() iterable argument is empty'')
           | Some target \<Rightarrow>
               (let obsolete = map ser_storage_key (filter (\<lambda>s. ser_id s \<noteq> ser_id target) rows);
                    d1 = d\<lparr>series_rows := put_row ser_id (target\<lparr>ser_status := best_status rows\<rparr>) (series_rows d)\<rparr>
                in bind_result (fold_result (join_series (ser_id target)) (map ser_id rows) d1) (\<lambda>d2.
                   bind_result (enqueue_library_repair model_validate now (ser_id target) ''merge'' 90 obsolete d2) (\<lambda>(_, _, d3).
                     Inr (ser_id target, d3))))))"

end
