(* ===== verification/Match_Operations.thy ===== *)
theory Match_Operations
  imports Series_Merge Worker_Runtime
begin

text \<open>
  \<^verbatim>\<open>match_operations.py\<close> and \<open>record_training_label\<close> of
  \<^verbatim>\<open>match_training.py\<close>: reviewing proposed matches.  An operation reserves the series it
  touches, is executed by a queue job in two transactions, and releases its reservations when it
  ends.  \<open>describe\<close> is the text that \<open>str\<close> gives for an exception of a library.
\<close>

subsection \<open>Submitting an operation\<close>

definition active_operation :: "match_operation \<Rightarrow> bool" where
  "active_operation p = (op_status p = OpQueued \<or> op_status p = OpRunning)"

definition sorted_set :: "int list \<Rightarrow> int list" where
  "sorted_set xs = sort (remdups xs)"

definition find_equivalent_active_operation ::
  "match_action \<Rightarrow> int list \<Rightarrow> int list \<Rightarrow> db \<Rightarrow> match_operation option" where
  "find_equivalent_active_operation action decision_ids series_ids d =
     find (\<lambda>p. op_action p = action \<and> sort (op_decision_ids p) = sorted_set decision_ids \<and>
             sort (op_series_ids p) = sorted_set series_ids)
       (sort_key (\<lambda>p. - op_id p) (filter active_operation (operations d)))"

record operation_args =
  oa_action :: match_action
  oa_representative_id :: int
  oa_decision_ids :: "int list"
  oa_proposal_ids :: "int list"
  oa_series_ids :: "int list"
  oa_priority :: int
  oa_group_key :: string

fun action_value :: "match_action \<Rightarrow> string" where
  "action_value ActAccepted = ''accepted''"
| "action_value ActRejected = ''rejected''"

definition new_operation :: "instant \<Rightarrow> int \<Rightarrow> operation_args \<Rightarrow> match_operation" where
  "new_operation now i a =
     \<lparr>op_id = i, op_action = oa_action a, op_status = OpQueued, op_representative_id = oa_representative_id a,
      op_decision_ids = sorted_set (oa_decision_ids a), op_series_ids = sorted_set (oa_series_ids a),
      op_proposal_ids = sorted_set (oa_proposal_ids a), op_job_id = None, op_error_code = [], op_error_message = [],
      op_created_at = now, op_updated_at = now, op_completed_at = None\<rparr>"

definition put_operation :: "match_operation \<Rightarrow> db \<Rightarrow> db" where
  "put_operation p d = d\<lparr>operations := put_row op_id p (operations d)\<rparr>"

definition operation_job_args :: "operation_args \<Rightarrow> int \<Rightarrow> payload_arg \<Rightarrow> enqueue_args" where
  "operation_job_args a i payload =
     (enqueue_defaults MATCH_OPERATION (''match-operation:'' @ str_of_int i) payload)
       \<lparr>eq_priority := oa_priority a, eq_pool := ''catalog_mutation'',
        eq_group_key := str_or (oa_group_key a)
          (''match-operation:'' @ action_value (oa_action a) @ CHR '':'' # str_of_int i)\<rparr>"

text \<open>The reservations refer to existing series.\<close>

definition reserve_series :: "int \<Rightarrow> int list \<Rightarrow> db \<Rightarrow> db result" where
  "reserve_series i ids d =
     (if list_all (\<lambda>s. get_row ser_id s (series_rows d) \<noteq> None) ids
      then Inr (d\<lparr>operation_series := operation_series d @ map (\<lambda>s. \<lparr>mos_operation_id = i, mos_series_id = s\<rparr>) ids\<rparr>)
      else Inl IntegrityError)"

definition enqueue_match_operation ::
  "validator \<Rightarrow> instant \<Rightarrow> operation_args \<Rightarrow> db \<Rightarrow> (match_operation \<times> bool \<times> db) result" where
  "enqueue_match_operation model_validate now a d =
     (let ids = sorted_set (oa_series_ids a) in
      case find_equivalent_active_operation (oa_action a) (sorted_set (oa_decision_ids a)) ids d of
        Some p \<Rightarrow> Inr (p, False, d)
      | None \<Rightarrow>
          if list_ex (\<lambda>m. mos_series_id m \<in> set ids) (operation_series d)
          then Inl (HTTPException 409 ''another merge or split is already using one of these manga'')
          else
            (let p = new_operation now (operation_seq d) a;
                 d1 = d\<lparr>operations := operations d @ [p], operation_seq := operation_seq d + 1\<rparr>
             in bind_result (reserve_series (op_id p) ids d1) (\<lambda>d2.
                bind_result (build_payload (MatchOperationPayload \<lparr>mo_version = 1, mo_operation_id = op_id p\<rparr>)) (\<lambda>payload.
                bind_result (enqueue model_validate now (operation_job_args a (op_id p) payload) d2) (\<lambda>(j, _, d3).
                  let p1 = p\<lparr>op_job_id := Some (job_id j), op_updated_at := now\<rparr>
                  in Inr (p1, True, put_operation p1 d3))))))"

subsection \<open>Ending an operation\<close>

definition release_series :: "int \<Rightarrow> db \<Rightarrow> db" where
  "release_series i d = d\<lparr>operation_series := filter (\<lambda>m. mos_operation_id m \<noteq> i) (operation_series d)\<rparr>"

definition failed_row :: "instant \<Rightarrow> string \<Rightarrow> string \<Rightarrow> match_operation \<Rightarrow> match_operation" where
  "failed_row now code msg p = p\<lparr>op_status := OpFailed, op_error_code := code, op_error_message := msg,
     op_updated_at := now, op_completed_at := Some now\<rparr>"

definition interrupted_message :: string where
  "interrupted_message = ''The background worker stopped before this operation completed. Retry it when ready.''"

definition stranded :: "db \<Rightarrow> match_operation \<Rightarrow> bool" where
  "stranded d p = (active_operation p \<and>
     (case op_job_id p of None \<Rightarrow> True | Some i \<Rightarrow> i = 0 \<or>
        (case find_job i d of None \<Rightarrow> True | Some j \<Rightarrow> \<not> is_active j)))"

definition fail_stranded :: "instant \<Rightarrow> match_operation \<Rightarrow> db \<Rightarrow> db" where
  "fail_stranded now p d =
     release_series (op_id p) (put_operation (failed_row now ''match_worker_interrupted'' interrupted_message p) d)"

definition reconcile_stranded_match_operations :: "instant \<Rightarrow> db \<Rightarrow> int \<times> db" where
  "reconcile_stranded_match_operations now d =
     (let rows = filter (stranded d) (operations d) in (int (length rows), fold (fail_stranded now) rows d))"

subsection \<open>Training labels\<close>

definition identity_snapshot :: "catalog_source_series \<Rightarrow> db \<Rightarrow> jdict" where
  "identity_snapshot s d =
     (let asset = get_row cas_source_series_id (srs_id s) (cover_assets (library d))
      in fmap_of_list
        [(''id'', JInt (srs_id s)), (''series_id'', JInt (srs_series_id s)), (''source'', JStr (srs_source s)),
         (''source_id'', JStr (srs_source_id s)), (''title'', JStr (srs_title s)), (''url'', JStr (srs_url s)),
         (''cover_url'', JStr (srs_cover_url s)),
         (''cover_checksum'', JStr (case asset of None \<Rightarrow> [] | Some a \<Rightarrow> cas_content_checksum a)),
         (''cover_relative_path'', JStr (case asset of None \<Rightarrow> [] | Some a \<Rightarrow> cas_relative_path a))])"

definition record_training_label ::
  "int \<Rightarrow> int \<Rightarrow> int \<Rightarrow> string \<Rightarrow> catalog_match_decision option \<Rightarrow> db \<Rightarrow> db" where
  "record_training_label left right label origin decision d =
     (if (case decision of None \<Rightarrow> False
          | Some x \<Rightarrow> list_ex (\<lambda>l. lab_decision_id l = Some (dec_id x) \<and> lab_label l = label) (labels d)) then d
      else case (get_row srs_id left (source_series d), get_row srs_id right (source_series d)) of
             (Some l, Some r) \<Rightarrow>
               d\<lparr>labels := labels d @ [\<lparr>lab_decision_id = map_option dec_id decision, lab_label = label, lab_origin = origin,
                   lab_scorer_version = (case decision of None \<Rightarrow> ''manual-v1'' | Some x \<Rightarrow> dec_scorer_version x),
                   lab_features = (case decision of None \<Rightarrow> fmempty | Some x \<Rightarrow> dec_features x),
                   lab_evidence = (case decision of None \<Rightarrow> fmempty | Some x \<Rightarrow> dec_evidence x),
                   lab_left = identity_snapshot l d, lab_right = identity_snapshot r d\<rparr>]\<rparr>
           | _ \<Rightarrow> d)"

subsection \<open>Executing an operation\<close>

text \<open>The first transaction; \<open>None\<close> means that the handler goes on.\<close>

definition begin_operation :: "instant \<Rightarrow> int \<Rightarrow> db \<Rightarrow> handler_outcome option \<times> db" where
  "begin_operation now i d =
     (case get_row op_id i (operations d) of
        None \<Rightarrow> (Some (Permanent ''match_operation_missing'' ''the queued match operation no longer exists''), d)
      | Some p \<Rightarrow>
          if op_status p = OpSucceeded then (Some HandlerDone, d)
          else if op_status p = OpFailed
          then (Some (Permanent (str_or (op_error_code p) ''match_operation_failed'')
                       (str_or (op_error_message p) ''the match operation previously failed'')), d)
          else (None, put_operation (p\<lparr>op_status := OpRunning, op_updated_at := now\<rparr>) d))"

definition decision_of :: "match_action \<Rightarrow> match_decision" where
  "decision_of a = (case a of ActAccepted \<Rightarrow> DecAccepted | ActRejected \<Rightarrow> DecRejected)"

definition review_decision :: "instant \<Rightarrow> match_action \<Rightarrow> catalog_match_decision \<Rightarrow> db \<Rightarrow> db" where
  "review_decision now action x d =
     (let d1 = record_training_label (dec_left x) (dec_right x) (if action = ActAccepted then 1 else 0)
                 ''async_review'' (Some x) d
      in d1\<lparr>decisions := put_row dec_id (x\<lparr>dec_decision := decision_of action, dec_decided_by := ''operator'',
              dec_decided_at := Some now\<rparr>) (decisions d1)\<rparr>)"

definition manual_pairs :: "int list \<Rightarrow> db \<Rightarrow> (catalog_source_series \<times> catalog_source_series) list" where
  "manual_pairs ids d =
     filter (\<lambda>(l, r). srs_series_id l \<noteq> srs_series_id r \<and> srs_source l \<noteq> srs_source r)
       (pairs (filter (\<lambda>s. srs_series_id s \<in> set ids) (source_series d)))"

definition succeeded_row :: "instant \<Rightarrow> match_operation \<Rightarrow> match_operation" where
  "succeeded_row now p = p\<lparr>op_status := OpSucceeded, op_error_code := [], op_error_message := [],
     op_updated_at := now, op_completed_at := Some now\<rparr>"

text \<open>The second transaction.  Note that it does not look at the status of the operation again.\<close>

definition apply_operation :: "validator \<Rightarrow> instant \<Rightarrow> int \<Rightarrow> db \<Rightarrow> db result" where
  "apply_operation model_validate now i d =
     (case get_row op_id i (operations d) of
        None \<Rightarrow> Inl (RuntimeError ''the queued match operation no longer exists'')
      | Some p \<Rightarrow>
          (let ids = (if op_decision_ids p = [] then [-1] else op_decision_ids p);
               pending = filter (\<lambda>x. dec_id x \<in> set ids \<and> dec_decision x = DecPending) (decisions d)
           in if length pending \<noteq> length (op_decision_ids p)
              then Inl (HTTPException 409 ''one or more match decisions were already reviewed'')
              else
                (let d1 = fold (review_decision now (op_action p)) pending d;
                     d2 = (if op_action p = ActAccepted \<and> op_decision_ids p = []
                           then fold (\<lambda>(l, r). record_training_label (srs_id l) (srs_id r) 1 ''manual_merge'' None)
                                  (manual_pairs (op_series_ids p) d1) d1
                           else d1)
                 in bind_result (if op_action p = ActAccepted
                      then bind_result (merge_canonical_series model_validate now (op_series_ids p) d2) (\<lambda>(_, d3). Inr d3)
                      else Inr d2) (\<lambda>d3.
                    Inr (release_series i (put_operation (succeeded_row now p) d3))))))"

definition error_name :: "py_error \<Rightarrow> string" where
  "error_name e = (case e of ValueError _ \<Rightarrow> ''ValueError'' | ValidationError \<Rightarrow> ''ValidationError''
     | IntegrityError \<Rightarrow> ''IntegrityError'' | RuntimeError _ \<Rightarrow> ''RuntimeError'' | KeyError _ \<Rightarrow> ''KeyError''
     | TypeError _ \<Rightarrow> ''TypeError'' | HTTPException _ _ \<Rightarrow> ''HTTPException''
     | DataError \<Rightarrow> ''DataError'')"

definition failure_text :: "(py_error \<Rightarrow> string) \<Rightarrow> py_error \<Rightarrow> string \<times> string" where
  "failure_text describe e =
     (case e of
        HTTPException status detail \<Rightarrow> (''match_operation_http_'' @ str_of_int status, str_or (py_strip detail) (error_name e))
      | _ \<Rightarrow> (''match_operation_failed'', str_or (py_strip (describe e)) (error_name e)))"

text \<open>The third transaction, after a failure of the second.\<close>

definition fail_operation :: "instant \<Rightarrow> int \<Rightarrow> string \<Rightarrow> string \<Rightarrow> db \<Rightarrow> db" where
  "fail_operation now i code msg d =
     (case get_row op_id i (operations d) of
        None \<Rightarrow> d
      | Some p \<Rightarrow> release_series i (put_operation (failed_row now code (take 4000 msg) p) d))"

definition execute_operation ::
  "validator \<Rightarrow> (py_error \<Rightarrow> string) \<Rightarrow> instant \<Rightarrow> int \<Rightarrow> db \<Rightarrow> handler_outcome \<times> db" where
  "execute_operation model_validate describe now i d =
     (case begin_operation now i d of
        (Some out, d1) \<Rightarrow> (out, d1)
      | (None, d1) \<Rightarrow>
          (case apply_operation model_validate now i d1 of
             Inr d2 \<Rightarrow> (HandlerDone, d2)
           | Inl e \<Rightarrow> (case failure_text describe e of (code, msg) \<Rightarrow>
               (Permanent code msg, fail_operation now i code msg d1))))"

definition match_operation_handler ::
  "validator \<Rightarrow> (py_error \<Rightarrow> string) \<Rightarrow> instant \<Rightarrow> bool \<Rightarrow> bool \<Rightarrow> job_payload \<Rightarrow> db \<Rightarrow> handler_outcome \<times> db" where
  "match_operation_handler model_validate describe now lost_before lost_after payload d =
     (case payload of
        MatchOperationPayload m \<Rightarrow>
          if lost_before then (HandlerLeaseLost, d)
          else (case execute_operation model_validate describe now (mo_operation_id m) d of
                  (HandlerDone, d1) \<Rightarrow> (if lost_after then HandlerLeaseLost else HandlerDone, d1)
                | other \<Rightarrow> other)
      | _ \<Rightarrow> (Permanent ''invalid_match_operation'' ''match operation handler received the wrong payload'', d))"

end
