(* ===== verification/Queue_Edits.thy ===== *)
theory Queue_Edits
  imports Queue_Keeping
begin

text \<open>
  Components that edit queue rows in place without moving them through their life cycle:
  payloads, priorities, keys and labels change, the status and the lease do not.  Such edits keep
  the invariants of the queue, as long as no leased row changes its work and the unique indexes
  are respected.
\<close>

definition edited :: "work_job \<Rightarrow> work_job \<Rightarrow> bool" where
  "edited j j' = (job_id j' = job_id j \<and> job_kind_of j' = job_kind_of j \<and> job_status j' = job_status j \<and>
     job_cycle_id j' = job_cycle_id j \<and> job_logical_units j' = job_logical_units j \<and>
     job_attempts j' = job_attempts j \<and> job_max_attempts j' = job_max_attempts j \<and>
     job_lease_owner j' = job_lease_owner j \<and> job_lease_expires_at j' = job_lease_expires_at j \<and>
     job_heartbeat_at j' = job_heartbeat_at j \<and> job_dedupe_key j' \<noteq> [] \<and>
     (job_status j = LEASED \<longrightarrow> job_pool j' = job_pool j \<and> job_source j' = job_source j \<and>
        (job_kind_of j \<in> set MUTATING_JOB_KINDS \<longrightarrow> job_series_key j' = job_series_key j)))"

lemma edited_refl: "job_ok j \<Longrightarrow> edited j j"
  by (simp add: edited_def job_ok_def job_checks_def)

lemma edited_trans: "edited i j \<Longrightarrow> edited j k \<Longrightarrow> edited i k"
  unfolding edited_def by metis

lemma edited_job_ok: "job_ok j \<Longrightarrow> edited j j' \<Longrightarrow> job_ok j'"
  unfolding edited_def job_ok_def job_checks_def by metis

lemma edited_row_calm: "edited j j' \<Longrightarrow> row_calm t j j'"
  unfolding edited_def row_calm_def live_lease_def same_work_def by metis

lemma edited_permit: "edited j j' \<Longrightarrow> permit_of p j' = permit_of p j"
  unfolding edited_def permit_of_def by metis

lemma edited_weight: "edited j j' \<Longrightarrow> job_weight c j' = job_weight c j"
  "edited j j' \<Longrightarrow> active_in_cycle c j' = active_in_cycle c j"
  unfolding edited_def job_weight_def active_in_cycle_def is_active_def by metis+

lemma edited_clash:
  assumes "edited j j'" "edited k k'" "job_dedupe_key j' = job_dedupe_key j" "job_dedupe_key k' = job_dedupe_key k"
  shows "dedupe_clash j' k' = dedupe_clash j k" "repair_clash j' k' = repair_clash j k"
  using assms repair_mutates unfolding edited_def dedupe_clash_def repair_clash_def leased_repair_def is_active_def by metis+

subsection \<open>Editing many rows\<close>

text \<open>\<open>d'\<close> has the rows of \<open>d\<close>, each edited, and the other queue tables of \<open>d\<close>.\<close>

definition edits :: "(work_job \<Rightarrow> work_job) \<Rightarrow> db \<Rightarrow> db \<Rightarrow> bool" where
  "edits f d d' = (jobs d' = map f (jobs d) \<and> job_seq d' = job_seq d \<and> permits d' = permits d \<and>
     cycles d' = cycles d \<and> cycle_seq d' = cycle_seq d \<and> (\<forall>j \<in> set (jobs d). edited j (f j)))"

lemma edits_open_units: "edits f d d' \<Longrightarrow> open_units c (jobs d') = open_units c (jobs d)"
  unfolding edits_def open_units_def by (auto simp: edited_weight intro!: arg_cong [where f = sum_list])

lemma edits_unique:
  assumes "edits f d d'" "unique_ok (jobs d)" "\<forall>j \<in> set (jobs d). job_dedupe_key (f j) = job_dedupe_key j"
  shows "unique_ok (jobs d')"
  unfolding unique_ok_def
proof (intro ballI impI)
  fix x y
  assume "x \<in> set (jobs d')" "y \<in> set (jobs d')" and ne: "job_id x \<noteq> job_id y"
  then obtain j k where jk: "j \<in> set (jobs d)" "x = f j" "k \<in> set (jobs d)" "y = f k"
    using assms(1) by (auto simp: edits_def)
  then have e: "edited j x" "edited k y" using assms(1) by (auto simp: edits_def)
  then have "job_id j \<noteq> job_id k" using ne by (simp add: edited_def)
  then have "\<not> dedupe_clash j k \<and> \<not> repair_clash j k" using assms(2) jk by (simp add: unique_ok_def)
  then show "\<not> dedupe_clash x y \<and> \<not> repair_clash x y"
    using edited_clash [OF e] assms(3) jk by simp
qed

lemma edits_inv:
  assumes e: "edits f d d'" and inv: "queue_inv d" and u: "unique_ok (jobs d')"
  shows "queue_inv d'"
proof (rule queue_invI [OF _ u])
  note I = queue_invD [OF inv]
  have E: "jobs d' = map f (jobs d)" "job_seq d' = job_seq d" "permits d' = permits d" "cycles d' = cycles d"
    "cycle_seq d' = cycle_seq d" and f: "\<And>j. j \<in> set (jobs d) \<Longrightarrow> edited j (f j)"
    using e by (auto simp: edits_def)
  have ids: "map job_id (map f (jobs d)) = map job_id (jobs d)"
    using f by (simp add: edited_def)
  have one: "job_id k < job_seq d \<and> job_ok k" if "k \<in> set (map f (jobs d))" for k
    using that I(1) f edited_job_ok by (auto simp: rows_ok_def edited_def)
  show "rows_ok (jobs d') (job_seq d')"
    unfolding E rows_ok_def ids using I(1) one by (simp add: rows_ok_def)
  show "permits_ok (jobs d') (permits d')"
    unfolding E permits_ok_def
  proof
    fix p assume "p \<in> set (permits d)"
    then obtain j where "j \<in> set (jobs d)" "permit_of p j" using I(3) by (auto simp: permits_ok_def)
    then show "\<exists>j \<in> set (map f (jobs d)). permit_of p j" using edited_permit [OF f] by auto
  qed
  show "cycles_ok (jobs d') (cycles d') (cycle_seq d')"
    unfolding E(4,5)
  proof (rule cycles_ok_mono [OF I(4)])
    show "open_units x (jobs d') \<le> open_units x (jobs d)" for x by (simp add: edits_open_units [OF e])
    show "list_ex (active_in_cycle x) (jobs d') \<Longrightarrow> list_ex (active_in_cycle x) (jobs d)" for x
      using edited_weight(2) [OF f] by (auto simp: E list_ex_iff)
    show "\<forall>k \<in> set (jobs d'). \<forall>ci. job_cycle_id k = Some ci \<longrightarrow> ci < cycle_seq d"
      using I(4) f by (auto simp: E cycles_ok_def edited_def)
  qed
qed

lemma edits_calm:
  assumes "edits f d d'"
  shows "calm t d d'"
proof -
  have "\<exists>j \<in> set (jobs d). live_lease t j \<and> same_work j k" if "k \<in> set (jobs d')" "live_lease t k" for k
    using that assms edited_row_calm by (fastforce simp: edits_def row_calm_def)
  then show ?thesis using assms by (auto simp: calm_def edits_def active_permits_def)
qed

lemma keeps_edits:
  assumes "edits f d d'" "\<forall>j \<in> set (jobs d). job_dedupe_key (f j) = job_dedupe_key j"
  shows "keeps limits now d d'"
  by (rule keeps_calm) (use assms edits_inv edits_unique edits_calm queue_invD(2) in blast)

subsection \<open>Editing one row\<close>

lemma edits_put:
  assumes "queue_inv d" "j \<in> set (jobs d)" "edited j j'"
  shows "edits (\<lambda>k. if job_id k = job_id j' then j' else k) d (put_job j' d)"
proof -
  have id: "job_id j' = job_id j" using assms(3) by (simp add: edited_def)
  have "edited k (if job_id k = job_id j' then j' else k)" if k: "k \<in> set (jobs d)" for k
  proof (cases "job_id k = job_id j'")
    case True
    then have "k = j" using rows_ok_eq [OF queue_invD(1) [OF assms(1)] k assms(2)] id by simp
    then show ?thesis using assms(3) True by simp
  next
    case False
    then show ?thesis using edited_refl [OF queue_inv_job_ok [OF assms(1) k]] by simp
  qed
  then show ?thesis by (simp add: edits_def put_job_def put_row_def)
qed

lemma edit_put_inv:
  assumes "queue_inv d" "j \<in> set (jobs d)" "edited j j'" "job_dedupe_key j' = job_dedupe_key j"
  shows "queue_inv (put_job j' d) \<and> calm t d (put_job j' d)"
proof -
  note E = edits_put [OF assms(1-3)]
  have "job_dedupe_key (if job_id k = job_id j' then j' else k) = job_dedupe_key k" if "k \<in> set (jobs d)" for k
    using that assms rows_ok_eq [OF queue_invD(1) [OF assms(1)] that assms(2)] by (auto simp: edited_def)
  then have "unique_ok (jobs (put_job j' d))"
    by (intro edits_unique [OF E queue_invD(2) [OF assms(1)]]) blast
  then show ?thesis using edits_inv [OF E assms(1)] edits_calm [OF E] by blast
qed

lemma edit_flush_inv:
  assumes "queue_inv d" "j \<in> set (jobs d)" "edited j j'" "flush_job j' d = Inr d'"
  shows "queue_inv d' \<and> calm t d d'"
proof -
  note E = edits_put [OF assms(1-3)]
  have d': "d' = put_job j' d" "flush_ok j' (jobs d)" using assms(4) by (auto simp: flush_job_def split: if_splits)
  have "unique_ok (jobs (put_job j' d))" using unique_ok_flush [OF queue_invD(2) [OF assms(1)] d'(2)] by simp
  then show ?thesis unfolding d'(1) using edits_inv [OF E assms(1)] edits_calm [OF E] by blast
qed

end
