(* ===== verification/Library_Repair_Properties.thy ===== *)
theory Library_Repair_Properties
  imports Library_Repair Queue_Edits
begin

text \<open>
  Repair requests: whatever is asked for is done by one job per series, no clean-up is lost when
  requests are merged or legacy jobs collapse, and the queue invariants hold throughout.
\<close>

subsection \<open>What a repair job still has to do\<close>

definition obligations :: "validator \<Rightarrow> work_job \<Rightarrow> string set" where
  "obligations mv j = (case repair_payloads mv [j] of Inl _ \<Rightarrow> {}
     | Inr ps \<Rightarrow> set (obsolete_keys ps))"

lemma set_obsolete_keys: "set (obsolete_keys ps) = (\<Union>p \<in> set ps. set (lr_obsolete_storage_keys p)) - {[]}"
  by (auto simp: obsolete_keys_def)

lemma merged_keys:
  "merged_repair_payload series ps = Inr m \<Longrightarrow> lr_obsolete_storage_keys m = obsolete_keys ps \<and> library_repair_ok m \<and> lr_series_id m = series"
  by (auto simp: merged_repair_payload_def repair_payload_def Let_def split: if_splits)

lemma repair_payloads_split:
  assumes "repair_payloads mv js = Inr ps" "j \<in> set js"
  shows "\<exists>qs. repair_payloads mv [j] = Inr qs"
  using assms by (induction js arbitrary: ps) (auto simp: bind_result_eq_Inr)

lemma repair_payloads_keys:
  "repair_payloads mv js = Inr ps \<Longrightarrow> set (obsolete_keys ps) = (\<Union>j \<in> set js. obligations mv j)"
proof (induction js arbitrary: ps)
  case Nil
  then show ?case by (simp add: obsolete_keys_def)
next
  case (Cons j js)
  then obtain p qs rest where p: "validate_repair mv (job_payload j) = Inr p" "pending_repair mv j = Inr qs"
    "repair_payloads mv js = Inr rest" "ps = p # qs @ rest"
    by (auto simp: bind_result_eq_Inr)
  have "obligations mv j = set (obsolete_keys (p # qs))" by (simp add: obligations_def p)
  then show ?case using Cons.IH [OF p(3)] by (auto simp: p(4) set_obsolete_keys)
qed

lemma obligations_payload:
  assumes "validate_repair mv (job_payload j) = Inr p" "pending_repair mv j = Inr qs"
  shows "obligations mv j = set (obsolete_keys (p # qs))"
  using assms by (simp add: obligations_def)

text \<open>What the validation of a written payload gives back.\<close>

lemma validate_dump:
  assumes "payload_codec mv" "library_repair_ok p"
  shows "validate_repair mv (model_dump (LibraryRepairPayload p)) = Inr p"
proof -
  have "mv (payload_kind (LibraryRepairPayload p)) (model_dump (LibraryRepairPayload p)) = Some (LibraryRepairPayload p)"
    using assms by (intro payload_codec.revalidates) simp_all
  then show ?thesis by (simp add: validate_repair_def del: model_dump.simps)
qed

lemma repair_dump_nonempty: "model_dump (LibraryRepairPayload p) \<noteq> fmempty"
proof -
  have "fmlookup (model_dump (LibraryRepairPayload p)) ''version'' = Some (JInt (lr_version p))" by (simp add: fmlookup_of_list)
  then show ?thesis by (metis fmempty_lookup option.distinct(1))
qed

lemma keeper_row_obligations:
  assumes codec: "payload_codec mv" and run: "keeper_row mv m k = Inr k'" and ok: "library_repair_ok m"
    and ps: "repair_payloads mv [k] = Inr ps"
    and keys: "obligations mv k \<subseteq> set (lr_obsolete_storage_keys m)" "[] \<notin> set (lr_obsolete_storage_keys m)"
  shows "obligations mv k' = set (lr_obsolete_storage_keys m)"
proof -
  obtain p qs where p: "validate_repair mv (job_payload k) = Inr p" "pending_repair mv k = Inr qs" "ps = p # qs"
    using ps by (auto simp: bind_result_eq_Inr)
  have obl: "obligations mv k = (set (lr_obsolete_storage_keys p) \<union> (\<Union>q \<in> set qs. set (lr_obsolete_storage_keys q))) - {[]}"
    using obligations_payload [OF p(1,2)] by (simp add: set_obsolete_keys)
  note dump = validate_dump [OF codec ok] repair_dump_nonempty [of m]
  let ?dump = "model_dump (LibraryRepairPayload m)"
  show ?thesis
  proof (cases "job_status k = LEASED")
    case False
    then have "k' = k\<lparr>job_payload := ?dump, job_pending_payload := fmempty\<rparr>" using run by (simp add: keeper_row_def del: model_dump.simps)
    then have "obligations mv k' = set (obsolete_keys [m])"
      using dump(1) by (intro obligations_payload) (simp_all add: pending_repair_def)
    then show ?thesis using keys(2) by (auto simp: set_obsolete_keys)
  next
    case True
    let ?known = "lr_obsolete_storage_keys p @ concat (map lr_obsolete_storage_keys qs)"
    have k': "k' = (if list_ex (\<lambda>x. x \<notin> set ?known) (lr_obsolete_storage_keys m) then k\<lparr>job_pending_payload := ?dump\<rparr> else k)"
      using run True p by (auto simp: keeper_row_def simp del: model_dump.simps)
    show ?thesis
    proof (cases "list_ex (\<lambda>x. x \<notin> set ?known) (lr_obsolete_storage_keys m)")
      case True
      then have "obligations mv k' = set (obsolete_keys [p, m])"
        using k' p dump by (intro obligations_payload) (simp_all add: pending_repair_def)
      then show ?thesis using keys obl by (auto simp: set_obsolete_keys)
    next
      case False
      then have "set (lr_obsolete_storage_keys m) \<subseteq> set ?known" by (auto simp: list_ex_iff)
      then have "set (lr_obsolete_storage_keys m) \<subseteq> obligations mv k" using obl keys(2) by auto
      then show ?thesis using k' False keys(1) by simp
    qed
  qed
qed

subsection \<open>Collapsing a group\<close>

definition active_rows :: "db \<Rightarrow> work_job list" where
  "active_rows d = filter is_active (jobs d)"

lemma filter_put_drop:
  "\<not> P r \<Longrightarrow> filter P (put_row key r rs) = filter (\<lambda>k. P k \<and> key k \<noteq> key r) rs"
  by (induction rs) (auto simp: put_row_def)

lemma filter_put_keep:
  "P r \<Longrightarrow> (\<And>k. k \<in> set rs \<Longrightarrow> key k = key r \<Longrightarrow> P k) \<Longrightarrow> filter P (put_row key r rs) = put_row key r (filter P rs)"
  by (induction rs) (auto simp: put_row_def)

lemma cancel_active_rows:
  assumes "queue_inv d"
  shows "active_rows (snd (cancel now i r d)) = filter (\<lambda>k. job_id k \<noteq> i) (active_rows d)"
proof (cases "find_job i d")
  case None
  then have "\<forall>k \<in> set (active_rows d). job_id k \<noteq> i" by (simp add: get_row_None_iff active_rows_def)
  then show ?thesis using None by (simp add: cancel_def filter_True)
next
  case (Some j)
  then have j: "j \<in> set (jobs d)" "job_id j = i" by (auto dest: find_job_in)
  show ?thesis
  proof (cases "is_active j")
    case True
    let ?j = "(drop_lease j)\<lparr>job_status := CANCELLED, job_error_code := ''cancelled'', job_error_message := r,
      job_updated_at := now, job_completed_at := Some now\<rparr>"
    have "jobs (snd (cancel now i r d)) = put_row job_id ?j (jobs d)"
      using Some True by (simp add: cancel_def Let_def)
    moreover have "\<not> is_active ?j" by simp
    moreover have "job_id ?j = i" using j by (simp add: drop_lease_def)
    ultimately show ?thesis
      using filter_put_drop [of is_active ?j job_id "jobs d"] by (simp add: active_rows_def conj_commute del: is_active_iff)
  next
    case False
    have "job_id k \<noteq> i" if "k \<in> set (jobs d)" "is_active k" for k
      using that False j rows_ok_eq [OF queue_invD(1) [OF assms] that(1) j(1)] by auto
    then have "\<forall>k \<in> set (active_rows d). job_id k \<noteq> i" by (simp add: active_rows_def)
    then show ?thesis using Some False by (simp add: cancel_def filter_True del: is_active_iff)
  qed
qed

lemma cancel_merged_active:
  assumes "queue_inv (snd st)"
  shows "active_rows (snd (cancel_merged now i j st)) = filter (\<lambda>k. job_id k \<noteq> job_id j \<or> job_id j = i) (active_rows (snd st)) \<and>
    queue_inv (snd (cancel_merged now i j st)) \<and> calm t (snd st) (snd (cancel_merged now i j st))"
proof (cases "job_id j = i")
  case True
  then show ?thesis using assms by (simp add: cancel_merged_def split: prod.split)
next
  case False
  obtain n d where st: "st = (n, d)" by (cases st)
  let ?c = "cancel now (job_id j) (''coalesced into library repair job '' @ str_of_int i) d"
  have eq: "snd (cancel_merged now i j st) = snd ?c"
    using False by (simp add: cancel_merged_def st Let_def split: prod.split)
  have "queue_inv d" using assms st by simp
  then show ?thesis
    unfolding eq using False cancel_active_rows [of d] cancel_inv [of d] cancel_calm by (simp add: st)
qed

lemma cancel_merged_fold:
  assumes "queue_inv (snd st)"
  shows "active_rows (snd (fold (cancel_merged now i) js st)) =
      filter (\<lambda>k. job_id k = i \<or> job_id k \<notin> job_id ` set js) (active_rows (snd st)) \<and>
    queue_inv (snd (fold (cancel_merged now i) js st)) \<and> calm t (snd st) (snd (fold (cancel_merged now i) js st))"
  using assms
proof (induction js arbitrary: st)
  case Nil
  then show ?case by simp
next
  case (Cons j js)
  note one = cancel_merged_active [OF Cons.prems, of now i j t]
  let ?s = "cancel_merged now i j st"
  have "queue_inv (snd ?s)" using one by blast
  note rest = Cons.IH [OF this]
  have "filter (\<lambda>k. job_id k = i \<or> job_id k \<notin> job_id ` set js) (filter (\<lambda>k. job_id k \<noteq> job_id j \<or> job_id j = i) (active_rows (snd st)))
      = filter (\<lambda>k. job_id k = i \<or> job_id k \<notin> job_id ` set (j # js)) (active_rows (snd st))"
    by (auto intro!: filter_cong)
  then show ?case using rest one calm_trans [of t "snd st" "snd ?s"] by simp
qed

lemma repair_group_rows:
  "repair_group key d = sort_key job_id (filter (\<lambda>j. job_kind_of j = LIBRARY_REPAIR \<and> job_series_key j = key) (active_rows d))"
  unfolding repair_group_def active_rows_def filter_filter by (rule arg_cong [where f = "sort_key job_id"]) (auto intro!: filter_cong)

lemma in_repair_group:
  "j \<in> set (repair_group key d) \<longleftrightarrow> j \<in> set (jobs d) \<and> job_kind_of j = LIBRARY_REPAIR \<and> is_active j \<and> job_series_key j = key"
  by (auto simp: repair_group_def)

lemma singleton_list: "distinct xs \<Longrightarrow> set xs = {x} \<Longrightarrow> xs = [x]"
  by (cases xs; cases "tl xs") auto

lemma collapsed_rows:
  assumes inv: "queue_inv d" "queue_inv d1"
    and act: "active_rows d1 = filter (\<lambda>k. job_id k = job_id kp \<or> job_id k \<notin> job_id ` set (repair_group key d)) (active_rows d)"
    and kp: "kp \<in> set (repair_group key d)" and ed: "edited kp k'" and key: "job_series_key k' = key"
    and d2: "jobs d2 = put_row job_id k' (jobs d1)"
  shows "repair_group key d2 = [k']" and "key' \<noteq> key \<Longrightarrow> repair_group key' d2 = repair_group key' d"
proof -
  have id: "job_id k' = job_id kp" and k': "is_active k'" "job_kind_of k' = LIBRARY_REPAIR"
    using ed kp by (auto simp: edited_def in_repair_group)
  have same: "j = k" if "j \<in> set (jobs e)" "k \<in> set (jobs e)" "job_id j = job_id k" "queue_inv e" for j k e
    using rows_ok_eq [OF queue_invD(1) [OF that(4)]] that by blast
  have kp_d: "kp \<in> set (active_rows d)" using kp by (auto simp: in_repair_group active_rows_def)
  then have kp1: "kp \<in> set (active_rows d1)" by (simp add: act)
  have "is_active k" if "k \<in> set (jobs d1)" "job_id k = job_id k'" for k
    using same [OF that(1) _ _ inv(2), of kp] that id kp1 by (auto simp: active_rows_def)
  then have rows: "active_rows d2 = put_row job_id k' (active_rows d1)"
    unfolding active_rows_def d2 by (intro filter_put_keep k'(1))
  have dist: "distinct (map job_id (active_rows d1))"
    using queue_inv_filter_distinct [OF inv(2)] by (simp add: active_rows_def)
  let ?P = "\<lambda>x j. job_kind_of j = LIBRARY_REPAIR \<and> job_series_key j = x"
  have only: "j = k'" if "j \<in> set (active_rows d2)" "?P key j" for j
  proof (rule ccontr)
    assume "j \<noteq> k'"
    then have j: "j \<in> set (active_rows d1)" "job_id j \<noteq> job_id k'" using that(1) by (auto simp: rows dest: in_put_rowD)
    then have "j \<in> set (active_rows d)" "job_id j \<notin> job_id ` set (repair_group key d)" using id by (auto simp: act)
    moreover from this(1) that(2) have "j \<in> set (repair_group key d)" by (simp add: active_rows_def in_repair_group)
    ultimately show False by blast
  qed
  have "k' \<in> set (active_rows d2)" unfolding rows using in_put_rowI [OF kp1] id by metis
  then have set: "set (filter (?P key) (active_rows d2)) = {k'}"
    using only k'(2) key unfolding set_filter by blast
  have "distinct (map job_id (active_rows d2))" using dist by (simp add: rows)
  then have "distinct (filter (?P key) (active_rows d2))" using distinct_filter distinct_map by blast
  then have "filter (?P key) (active_rows d2) = [k']" using set by (rule singleton_list)
  then show "repair_group key d2 = [k']" by (simp add: repair_group_rows)
  assume ne: "key' \<noteq> key"
  have "filter (?P key') (active_rows d2) = filter (\<lambda>j. ?P key' j \<and> job_id j \<noteq> job_id k') (active_rows d1)"
    unfolding rows by (rule filter_put_drop) (use key ne in simp)
  also have "\<dots> = filter (?P key') (active_rows d)"
  proof -
    have other: "job_id j \<noteq> job_id x" if "j \<in> set (active_rows d)" "?P key' j" "x \<in> set (repair_group key d)" for j x
    proof
      assume "job_id j = job_id x"
      moreover have "j \<in> set (jobs d)" "x \<in> set (jobs d)" "job_series_key x = key"
        using that by (simp_all add: active_rows_def in_repair_group)
      ultimately have "j = x" using same inv(1) by blast
      then show False using that(2) \<open>job_series_key x = key\<close> ne by simp
    qed
    show ?thesis unfolding act filter_filter by (rule filter_cong [OF refl]) (use other [OF _ _ kp] other id in auto)
  qed
  finally show "repair_group key' d2 = repair_group key' d" by (simp add: repair_group_rows)
qed

lemma keeper_in_group: "grp \<noteq> [] \<Longrightarrow> repair_keeper grp \<in> set grp"
  by (auto simp: repair_keeper_def find_Some_iff split: option.split)

lemma keeper_row_edited:
  assumes "keeper_row mv m k = Inr k'" "job_ok k" "key \<noteq> []"
  shows "edited k (k'\<lparr>job_dedupe_key := key, job_group_key := g\<rparr>) \<and> job_series_key k' = job_series_key k"
  using assms unfolding keeper_row_def Let_def bind_result_eq_Inr
  by (auto simp: edited_def bind_result_eq_Inr simp del: model_dump.simps split: if_splits)

lemma obligations_labels [simp]:
  "obligations mv (j\<lparr>job_group_key := g\<rparr>) = obligations mv j"
  "obligations mv (j\<lparr>job_dedupe_key := k\<rparr>) = obligations mv j"
  by (simp_all add: obligations_def pending_repair_def)

lemma repair_key_nonempty [simp]: "repair_key s \<noteq> []"
  by (simp add: repair_key_def)

text \<open>One group: a single job with the canonical key remains and has everything to do.\<close>

definition collapsed :: "validator \<Rightarrow> int \<Rightarrow> string \<Rightarrow> db \<Rightarrow> db \<Rightarrow> bool" where
  "collapsed mv series key d d' = (\<exists>k. repair_group key d' = [k] \<and> job_dedupe_key k = repair_key series \<and>
     obligations mv k = (\<Union>j \<in> set (repair_group key d). obligations mv j))"

lemma reconcile_group_step:
  assumes codec: "payload_codec mv" and inv: "queue_inv d" and key: "int_of_text key = Inr series"
    and ne: "repair_group key d \<noteq> []" and run: "reconcile_group mv now key (c, d) = Inr (c', d')"
  shows "queue_inv d' \<and> calm t d d' \<and> collapsed mv series key d d' \<and>
    (\<forall>key'. key' \<noteq> key \<longrightarrow> repair_group key' d' = repair_group key' d)"
proof -
  obtain a b where c: "c = (a, b)" by (cases c)
  let ?g = "repair_group key d" and ?k = "repair_key series"
  let ?gk = "repair_group_key (hd ?g)"
  show ?thesis
  proof (cases "length ?g = 1 \<and> job_dedupe_key (hd ?g) = ?k")
    case True
    then obtain j where j: "?g = [j]" by (metis length_Suc_conv length_0_conv One_nat_def)
    then have jin: "j \<in> set ?g" by simp
    let ?j = "j\<lparr>job_group_key := ?gk\<rparr>"
    have fl: "flush_job ?j d = Inr d'"
      using run key True j by (auto simp: reconcile_group_def c Let_def bind_result_eq_Inr)
    have jd: "j \<in> set (jobs d)" "job_series_key j = key" using jin by (simp_all add: in_repair_group)
    have ed: "edited j ?j" using edited_refl [OF queue_inv_job_ok [OF inv jd(1)]] by (simp add: edited_def)
    have d': "jobs d' = put_row job_id ?j (jobs d)" using fl by (auto simp: flush_job_def split: if_splits)
    have "active_rows d = filter (\<lambda>k. job_id k = job_id j \<or> job_id k \<notin> job_id ` set ?g) (active_rows d)"
      by (simp add: j filter_True)
    note R = collapsed_rows [OF inv inv this jin ed _ d']
    have "collapsed mv series key d d'"
      unfolding collapsed_def using R(1) jd True j by auto
    then show ?thesis using R(2) jd edit_flush_inv [OF inv jd(1) ed fl] by auto
  next
    case False
    let ?kp = "repair_keeper ?g"
    have kp: "?kp \<in> set ?g" by (rule keeper_in_group [OF ne])
    then have kpd: "?kp \<in> set (jobs d)" "job_series_key ?kp = key" by (simp_all add: in_repair_group)
    let ?d1 = "snd (fold (cancel_merged now (job_id ?kp)) ?g (0, d))"
    obtain ps m k where ps: "repair_payloads mv ?g = Inr ps" and m: "merged_repair_payload series ps = Inr m"
      and k: "keeper_row mv m ?kp = Inr k" and fl: "flush_job (k\<lparr>job_dedupe_key := ?k, job_group_key := ?gk\<rparr>) ?d1 = Inr d'"
      using run key False
      by (auto simp: reconcile_group_def c Let_def bind_result_eq_Inr case_prod_beta simp del: repair_payloads.simps)
    let ?k' = "k\<lparr>job_dedupe_key := ?k, job_group_key := ?gk\<rparr>"
    note M = merged_keys [OF m] and F = cancel_merged_fold [of "(0, d)" now "job_id ?kp" ?g t, unfolded snd_conv, OF inv]
    have ed: "edited ?kp ?k'" and sk: "job_series_key k = key"
      using keeper_row_edited [OF k queue_inv_job_ok [OF inv kpd(1)] repair_key_nonempty [of series], of ?gk] kpd by auto
    have d': "jobs d' = put_row job_id ?k' (jobs ?d1)" using fl by (auto simp: flush_job_def split: if_splits)
    note R = collapsed_rows [OF inv _ conjunct1 [OF F] kp ed _ d']
    have kp1: "?kp \<in> set (jobs ?d1)"
    proof -
      have "?kp \<in> set (active_rows ?d1)" using F kp by (simp add: active_rows_def in_repair_group)
      then show ?thesis by (simp add: active_rows_def)
    qed
    have "obligations mv k = set (lr_obsolete_storage_keys m)"
    proof (rule keeper_row_obligations [OF codec k])
      show "repair_payloads mv [?kp] = Inr (the_inv Inr (repair_payloads mv [?kp]))"
        using repair_payloads_split [OF ps kp] by (auto simp: the_inv_f_f [OF inj_Inr] simp del: repair_payloads.simps)
      show "obligations mv ?kp \<subseteq> set (lr_obsolete_storage_keys m)"
        using repair_payloads_keys [OF ps] M kp by auto
      show "[] \<notin> set (lr_obsolete_storage_keys m)" using M by (simp add: set_obsolete_keys)
    qed (use M in simp)
    then have "obligations mv ?k' = (\<Union>j \<in> set ?g. obligations mv j)"
      using repair_payloads_keys [OF ps] M by simp
    then have "collapsed mv series key d d'"
      unfolding collapsed_def using R(1) F sk by auto
    moreover have "queue_inv d' \<and> calm t ?d1 d'" using edit_flush_inv [OF _ kp1 ed fl] F by blast
    ultimately show ?thesis using R(2) F sk calm_trans by auto
  qed
qed

lemma collapsed_cong:
  "repair_group key d1 = repair_group key d \<Longrightarrow> repair_group key e1 = repair_group key e \<Longrightarrow>
   collapsed mv series key d1 e1 = collapsed mv series key d e"
  by (simp add: collapsed_def)

lemma reconcile_sweep:
  assumes codec: "payload_codec mv"
  shows "queue_inv d \<Longrightarrow> distinct keys \<Longrightarrow> (\<And>key. key \<in> set keys \<Longrightarrow> repair_group key d \<noteq> []) \<Longrightarrow>
    fold_result (reconcile_group mv now) keys (c, d) = Inr (c', d') \<Longrightarrow>
    queue_inv d' \<and> calm t d d' \<and>
    (\<forall>key series. key \<in> set keys \<longrightarrow> int_of_text key = Inr series \<longrightarrow> collapsed mv series key d d') \<and>
    (\<forall>key. key \<notin> set keys \<longrightarrow> repair_group key d' = repair_group key d)"
proof (induction keys arbitrary: c d)
  case Nil
  then show ?case by simp
next
  case (Cons x keys)
  then obtain c1 d1 where one: "reconcile_group mv now x (c, d) = Inr (c1, d1)"
    and rest: "fold_result (reconcile_group mv now) keys (c1, d1) = Inr (c', d')"
    by (auto simp: bind_result_eq_Inr)
  have step: "queue_inv d1 \<and> calm t d d1 \<and> (\<forall>series. int_of_text x = Inr series \<longrightarrow> collapsed mv series x d d1) \<and>
      (\<forall>key. key \<noteq> x \<longrightarrow> repair_group key d1 = repair_group key d)"
  proof (cases "int_of_text x")
    case (Inl e)
    then have "d1 = d" using one by (simp add: reconcile_group_def Let_def split: prod.splits)
    then show ?thesis using Cons.prems(1) Inl by simp
  next
    case (Inr series)
    then show ?thesis using reconcile_group_step [OF codec Cons.prems(1) Inr Cons.prems(3) one, of t] by simp
  qed
  have other: "repair_group key d1 = repair_group key d" if "key \<in> set keys" for key
    using step that Cons.prems(2) by auto
  have IH: "queue_inv d' \<and> calm t d1 d' \<and>
    (\<forall>key series. key \<in> set keys \<longrightarrow> int_of_text key = Inr series \<longrightarrow> collapsed mv series key d1 d') \<and>
    (\<forall>key. key \<notin> set keys \<longrightarrow> repair_group key d' = repair_group key d1)"
    by (rule Cons.IH [OF _ _ _ rest]) (use step Cons.prems other in auto)
  have "collapsed mv series key d d'" if "key \<in> set (x # keys)" "int_of_text key = Inr series" for key series
  proof (cases "key = x")
    case True
    then have "repair_group key d' = repair_group key d1" using IH Cons.prems(2) by auto
    then show ?thesis using collapsed_cong [OF refl, of key d' d1 mv series d] step that True by blast
  next
    case False
    then show ?thesis using collapsed_cong [OF other refl, of key mv series d'] IH that by auto
  qed
  moreover have "calm t d d'" using step IH calm_trans by blast
  moreover have "repair_group key d' = repair_group key d" if "key \<notin> set (x # keys)" for key
    using that step IH by simp
  ultimately show ?case using IH by blast
qed

lemma in_repair_series_keys:
  "key \<in> set (repair_series_keys d) \<longleftrightarrow> key \<noteq> [] \<and> repair_group key d \<noteq> []"
proof -
  have "repair_group key d \<noteq> [] \<longleftrightarrow> (\<exists>j. j \<in> set (repair_group key d))" by (metis all_not_in_conv set_empty)
  also have "\<dots> \<longleftrightarrow> (\<exists>j \<in> set (jobs d). job_kind_of j = LIBRARY_REPAIR \<and> is_active j \<and> job_series_key j = key)"
    by (auto simp: in_repair_group)
  finally show ?thesis by (auto simp: repair_series_keys_def)
qed

lemma reconcile_active_jobs_facts:
  assumes "payload_codec mv" "queue_inv d" "reconcile_active_jobs mv now d = Inr (n, d')"
  shows "queue_inv d' \<and> calm t d d' \<and>
    (\<forall>key series. key \<noteq> [] \<longrightarrow> repair_group key d \<noteq> [] \<longrightarrow> int_of_text key = Inr series \<longrightarrow> collapsed mv series key d d')"
proof -
  have "distinct (repair_series_keys d)" by (simp add: repair_series_keys_def)
  from reconcile_sweep [OF assms(1,2) this _ assms(3) [unfolded reconcile_active_jobs_def], of t]
  show ?thesis by (simp add: in_repair_series_keys)
qed

lemma keeps_reconcile_repairs:
  "payload_codec mv \<Longrightarrow> reconcile_active_jobs mv now d = Inr (n, d') \<Longrightarrow> keeps limits now d d'"
  by (rule keeps_calm) (use reconcile_active_jobs_facts in blast)

subsection \<open>Requests\<close>

lemma enqueue_new_row:
  assumes "enqueue_new now a key p d = Inr (j, True, d')"
  shows "jobs d' = jobs d @ [j] \<and> job_payload j = model_dump p \<and> job_pending_payload j = fmempty \<and>
    job_kind_of j = eq_kind a \<and> job_dedupe_key j = key \<and> job_status j = QUEUED \<and> job_priority j = eq_priority a"
proof -
  let ?d1 = "snd (active_cycle now d)" and ?row = "new_job_row now a key p (cyc_id (fst (active_cycle now d)))"
  obtain d2 where ins: "insert_job ?row ?d1 = Inr (j, d2)" and d': "jobs d' = jobs d2"
    using assms by (auto simp: enqueue_new_def Let_def case_prod_beta split: sum.splits option.splits)
  note J = insert_job_InrD [OF ins]
  have "jobs d' = jobs d @ [j]" by (simp add: d' J(3))
  moreover have "job_payload j = model_dump p \<and> job_pending_payload j = fmempty \<and> job_priority j = eq_priority a"
    by (simp add: J(1) new_job_row_def new_work_job_def Let_def)
  ultimately show ?thesis by (simp add: J(1) new_job_row_facts)
qed

lemma merge_into_facts:
  assumes codec: "payload_codec mv" and inc: "library_repair_ok incoming"
    and run: "merge_repair_into mv series prio incoming j d = Inr (j', b, d')" and ok: "job_ok j"
  shows "edited j j' \<and> d' = put_job j' d \<and> job_dedupe_key j' = job_dedupe_key j \<and> b = False \<and> job_priority j' \<le> prio \<and>
    obligations mv j' = obligations mv j \<union> (set (lr_obsolete_storage_keys incoming) - {[]})"
proof -
  obtain p qs m where p: "validate_repair mv (job_payload j) = Inr p" "pending_repair mv j = Inr qs"
    and m: "merged_repair_payload series ([p, incoming] @ qs) = Inr m"
    and j': "j' = (let j1 = j\<lparr>job_priority := min (job_priority j) prio\<rparr>; dump = model_dump (LibraryRepairPayload m) in
       if m = (if job_status j = LEASED \<and> qs \<noteq> [] then hd qs else p) then j1
       else if job_status j = LEASED then j1\<lparr>job_pending_payload := dump\<rparr>
       else j1\<lparr>job_payload := dump, job_error_code := [], job_error_message := []\<rparr>)"
      "b = False" "d' = put_job j' d"
    using run unfolding merge_repair_into_def Let_def bind_result_eq_Inr by (auto simp del: model_dump.simps)
  note M = merged_keys [OF m] and dump = validate_dump [OF codec] repair_dump_nonempty [of m]
  have obl: "obligations mv j = set (obsolete_keys (p # qs))" by (rule obligations_payload [OF p])
  have ed: "edited j j'" "job_dedupe_key j' = job_dedupe_key j" "job_priority j' \<le> prio"
    using edited_refl [OF ok] by (auto simp: j'(1) Let_def edited_def simp del: model_dump.simps)
  have qs: "qs = [] \<or> (\<exists>q. qs = [q])" using p(2) by (auto simp: pending_repair_def bind_result_eq_Inr split: if_splits)
  have all: "set (lr_obsolete_storage_keys m) = obligations mv j \<union> (set (lr_obsolete_storage_keys incoming) - {[]})"
    using M obl by (auto simp: set_obsolete_keys)
  have "obligations mv j' = obligations mv j \<union> (set (lr_obsolete_storage_keys incoming) - {[]})"
  proof (cases "m = (if job_status j = LEASED \<and> qs \<noteq> [] then hd qs else p)")
    case True
    then have "obligations mv j' = obligations mv j"
      using j'(1) by (simp add: obligations_def pending_repair_def del: model_dump.simps)
    moreover have "set (lr_obsolete_storage_keys m) - {[]} \<subseteq> obligations mv j"
      using True qs obl by (auto simp: set_obsolete_keys split: if_splits)
    ultimately show ?thesis using all M by (auto simp: set_obsolete_keys)
  next
    case False
    show ?thesis
    proof (cases "job_status j = LEASED")
      case True
      then have "obligations mv j' = set (obsolete_keys [p, m])"
        using False j'(1) p(1) dump M by (intro obligations_payload) (simp_all add: pending_repair_def Let_def del: model_dump.simps)
      then show ?thesis using all obl by (auto simp: set_obsolete_keys)
    next
      case nl: False
      then have "obligations mv j' = set (obsolete_keys (m # qs))"
        using False j'(1) p(2) dump M
        by (intro obligations_payload) (auto simp: pending_repair_def Let_def simp del: model_dump.simps split: if_splits)
      then show ?thesis using all obl by (auto simp: set_obsolete_keys)
    qed
  qed
  then show ?thesis using ed j' by blast
qed

lemma enqueue_new_created:
  assumes "active_job (eq_kind a) key d = None" "enqueue_new now a key p d = Inr (j, b, d')"
  shows b
proof -
  have "active_job (eq_kind a) key (snd (active_cycle now d)) = None" using assms(1) by (simp add: active_job_def)
  then show ?thesis using assms(2) by (auto simp: enqueue_new_def Let_def case_prod_beta split: sum.splits)
qed

lemma strip_repair_key [simp]: "py_strip (repair_key s) = repair_key s"
proof -
  have "\<not> is_space (CHR ''s'')" "\<not> is_space (CHR ''r'')" by code_simp+
  then show ?thesis by (simp add: py_strip_def repair_key_def)
qed

lemma active_repair_SomeD:
  "active_repair s d = Some j \<Longrightarrow> j \<in> set (jobs d) \<and> job_kind_of j = LIBRARY_REPAIR \<and> job_dedupe_key j = repair_key s \<and> is_active j"
  by (auto simp: active_repair_def find_Some_iff)

lemma active_repair_None: "active_repair s d = None \<longleftrightarrow> active_job LIBRARY_REPAIR (repair_key s) d = None"
  by (auto simp: active_repair_def active_job_def find_None_iff filter_empty_conv)

text \<open>What a request does, with or without an active repair of the series.\<close>

definition requested :: "validator \<Rightarrow> int \<Rightarrow> int \<Rightarrow> string list \<Rightarrow> db \<Rightarrow> work_job \<Rightarrow> db \<Rightarrow> bool" where
  "requested mv series prio obsolete d j d' =
     (j \<in> set (jobs d') \<and> job_kind_of j = LIBRARY_REPAIR \<and> is_active j \<and> job_dedupe_key j = repair_key series \<and>
      job_priority j \<le> prio \<and>
      obligations mv j = (set obsolete - {[]}) \<union> (case active_repair series d of None \<Rightarrow> {} | Some e \<Rightarrow> obligations mv e))"

lemma enqueue_repair_facts:
  assumes codec: "payload_codec mv" and inv: "queue_inv d"
    and run: "enqueue_library_repair mv now series reason prio obsolete d = Inr (j, b, d')"
  shows "requested mv series prio obsolete d j d' \<and> queue_inv d' \<and> calm t d d' \<and> (b \<longleftrightarrow> active_repair series d = None)"
proof -
  let ?p = "\<lparr>lr_version = 1, lr_series_id = series, lr_reason = reason, lr_obsolete_storage_keys = obsolete\<rparr>"
  have ok: "library_repair_ok ?p" and inc: "repair_payload series reason obsolete = Inr ?p"
    using run by (auto simp: enqueue_library_repair_def repair_payload_def Let_def split: if_splits)
  show ?thesis
  proof (cases "active_repair series d")
    case (Some e)
    note E = active_repair_SomeD [OF Some]
    have m: "merge_repair_into mv series prio ?p e d = Inr (j, b, d')"
      using run inc Some by (simp add: enqueue_library_repair_def)
    note F = merge_into_facts [OF codec ok m queue_inv_job_ok [OF inv conjunct1 [OF E]]]
    have jin: "j \<in> set (jobs d')" using F E in_put_rowI [of e "jobs d" job_id j] by (simp add: edited_def)
    have "queue_inv d' \<and> calm t d d'" using edit_put_inv [OF inv conjunct1 [OF E]] F by blast
    moreover have "job_kind_of j = LIBRARY_REPAIR" "is_active j" "job_dedupe_key j = repair_key series"
      using F E by (auto simp: edited_def)
    ultimately show ?thesis unfolding requested_def using jin F Some by auto
  next
    case None
    let ?a = "repair_args series prio (Model (LibraryRepairPayload ?p))"
    have none: "active_job (eq_kind ?a) (py_strip (eq_dedupe_key ?a)) d = None"
      using None active_repair_None by (simp add: repair_args_def enqueue_defaults_def)
    have key: "py_strip (eq_dedupe_key ?a) = repair_key series" "eq_kind ?a = LIBRARY_REPAIR" "eq_priority ?a = prio"
      by (simp_all add: repair_args_def enqueue_defaults_def)
    have par: "parse_job_payload mv (eq_kind ?a) (eq_payload ?a) = Inr (LibraryRepairPayload ?p)"
      by (simp add: parse_job_payload_def repair_args_def enqueue_defaults_def)
    obtain k b1 d1 where enq: "enqueue mv now ?a d = Inr (k, b1, d1)"
      using run inc None by (auto simp: enqueue_library_repair_def bind_result_eq_Inr)
    have new: "enqueue_new now ?a (repair_key series) (LibraryRepairPayload ?p) d = Inr (k, b1, d1)"
      using enq none key par unfolding enqueue_def Let_def by (auto split: if_splits)
    have "b1" using enqueue_new_created [OF _ new] none key by simp
    then have res: "k = j" "b" "d1 = d'"
      using run inc None enq by (auto simp: enqueue_library_repair_def)
    note R = enqueue_new_row [OF new [unfolded \<open>b1\<close> [THEN eqTrueI] res(1,3)]]
    have "obligations mv j = set (obsolete_keys [?p])"
      using R validate_dump [OF codec ok] by (intro obligations_payload) (simp_all add: pending_repair_def del: model_dump.simps)
    then have "requested mv series prio obsolete d j d'"
      unfolding requested_def using R None key by (auto simp: set_obsolete_keys)
    then show ?thesis using enqueue_inv [OF inv enq] enqueue_calm [OF inv enq] None res by simp
  qed
qed

lemma keeps_enqueue_repair:
  "payload_codec mv \<Longrightarrow> enqueue_library_repair mv now s r p ks d = Inr (j, b, d') \<Longrightarrow> keeps limits now d d'"
  by (rule keeps_calm) (use enqueue_repair_facts in blast)

lemma keeps_enqueue_repairs:
  assumes "payload_codec mv" "enqueue_repairs mv now limit d = Inr (n, d')"
  shows "keeps limits now d d'"
proof (cases "has_runnable_or_leased_downloads now None d")
  case True
  then show ?thesis using assms(2) by (simp add: enqueue_repairs_def)
next
  case False
  then obtain c where run: "fold_result (repair_one mv now) (take limit (sort (map ser_id (filter (needs_repair d) (series_rows d))))) (0, d) = Inr (c, d')"
    using assms(2) by (auto simp: enqueue_repairs_def Let_def bind_result_eq_Inr)
  have "keeps limits now (snd (0 :: int, d)) (snd (c, d'))"
  proof (rule keeps_snd_loop [OF run])
    fix x and s1 s2 :: "int \<times> db"
    assume "repair_one mv now x s1 = Inr s2"
    then obtain j b where "enqueue_library_repair mv now x ''automatic_projection_repair'' 80 [] (snd s1) = Inr (j, b, snd s2)"
      unfolding repair_one_def Let_def case_prod_beta bind_result_eq_Inr by auto
    then show "keeps limits now (snd s1) (snd s2)" by (rule keeps_enqueue_repair [OF assms(1)])
  qed
  then show ?thesis by simp
qed

subsection \<open>Properties\<close>

text \<open>C31. Reconciling the active repairs leaves one repair per series, under the canonical key, and
  that repair removes exactly the obsolete directories that the collapsed ones would have removed
  together.\<close>

theorem repairs_collapse:
  assumes "payload_codec mv" "queue_inv d" "reconcile_active_jobs mv now d = Inr (n, d')"
    and "key \<noteq> []" "int_of_text key = Inr series" "repair_group key d \<noteq> []"
  shows "\<exists>k. repair_group key d' = [k] \<and> job_dedupe_key k = repair_key series \<and>
    obligations mv k = (\<Union>j \<in> set (repair_group key d). obligations mv j)"
  using reconcile_active_jobs_facts [OF assms(1-3)] assms(4-6) unfolding collapsed_def by blast

text \<open>Requesting a repair gives an active job with the canonical key of the series, at least as
  urgent as asked, whose obligations are those requested now and those of the repair that was
  active before, also while it is running.\<close>

theorem repair_request_kept:
  assumes "payload_codec mv" "queue_inv d" "enqueue_library_repair mv now series reason prio obsolete d = Inr (j, b, d')"
  shows "j \<in> set (jobs d') \<and> is_active j \<and> job_dedupe_key j = repair_key series \<and> job_priority j \<le> prio \<and>
    obligations mv j = (set obsolete - {[]}) \<union> (case active_repair series d of None \<Rightarrow> {} | Some e \<Rightarrow> obligations mv e)"
  using enqueue_repair_facts [OF assms] unfolding requested_def by blast

text \<open>Two legacy repairs of series 7, queued under keys of their own.\<close>

definition legacy_repair :: "string \<Rightarrow> string \<Rightarrow> enqueue_args" where
  "legacy_repair key obsolete =
     (enqueue_defaults LIBRARY_REPAIR key (Model (LibraryRepairPayload
        \<lparr>lr_version = 1, lr_series_id = 7, lr_reason = ''download'', lr_obsolete_storage_keys = [obsolete]\<rparr>)))
       \<lparr>eq_series_key := ''7''\<rparr>"

definition demo_repairs :: db where
  "demo_repairs = (case fold_result (\<lambda>a d. bind_result (enqueue strict_validate 1 a d) (\<lambda>(_, _, d1). Inr d1))
       [legacy_repair ''artifact:1'' ''old-a'', legacy_repair ''artifact:2'' ''old-b''] empty_db of
     Inl _ \<Rightarrow> empty_db | Inr d \<Rightarrow> d)"

lemma demo_repairs_inv: "queue_inv demo_repairs"
proof -
  have "queue_inv d'" if "fold_result (\<lambda>a d. bind_result (enqueue strict_validate 1 a d) (\<lambda>(_, _, d1). Inr d1)) as d = Inr d'"
    "queue_inv d" for as d d'
    using that by (induction as arbitrary: d) (auto simp: bind_result_eq_Inr dest: enqueue_inv)
  then show ?thesis unfolding demo_repairs_def using queue_inv_empty by (simp split: sum.split del: fold_result.simps)
qed

theorem repairs_collapse_witness:
  "\<exists>n d' k. reconcile_active_jobs strict_validate 5 demo_repairs = Inr (n, d') \<and> repair_group ''7'' d' = [k] \<and>
     obligations strict_validate k = {''old-a'', ''old-b''}"
proof -
  have P: "\<not> isl (reconcile_active_jobs strict_validate 5 demo_repairs) \<and> repair_group ''7'' demo_repairs \<noteq> [] \<and>
    int_of_text ''7'' = Inr 7 \<and> (\<Union>j \<in> set (repair_group ''7'' demo_repairs). obligations strict_validate j) = {''old-a'', ''old-b''}"
    by code_simp
  then obtain n d' where "reconcile_active_jobs strict_validate 5 demo_repairs = Inr (n, d')"
    by (metis isl_def surj_pair sum.exhaust)
  with repairs_collapse [OF strict.payload_codec_axioms demo_repairs_inv this, of "''7''" 7] P show ?thesis by auto
qed

theorem repair_request_kept_witness:
  "\<exists>j b d'. enqueue_library_repair strict_validate 2 9 ''merge'' 90 [''gone''] demo_repairs = Inr (j, b, d') \<and>
     is_active j \<and> obligations strict_validate j = {''gone''}"
proof -
  have P: "\<not> isl (enqueue_library_repair strict_validate 2 9 ''merge'' 90 [''gone''] demo_repairs) \<and>
    active_repair 9 demo_repairs = None" by code_simp
  then obtain j b d' where r: "enqueue_library_repair strict_validate 2 9 ''merge'' 90 [''gone''] demo_repairs = Inr (j, b, d')"
    by (metis isl_def surj_pair sum.exhaust)
  from repair_request_kept [OF strict.payload_codec_axioms demo_repairs_inv this] P r show ?thesis by simp
qed

end
