(* ===== verification/Series_Merge_Facts.thy ===== *)
theory Series_Merge_Facts
  imports Series_Merge Library_Repair_Properties
begin

text \<open>
  What merging does to the catalogue.  Every chapter has a place, its series and canonical number;
  merging renames the places and loses none, and every stored archive stays at its renamed place.
\<close>

subsection \<open>Places\<close>

type_synonym place = "int \<times> string"

definition place_of :: "catalog_chapter \<Rightarrow> place" where
  "place_of c = (ch_series_id c, ch_canonical_number c)"

definition place_at :: "db \<Rightarrow> int \<Rightarrow> place option" where
  "place_at d i = map_option place_of (get_row ch_id i (chapters d))"

definition places :: "db \<Rightarrow> place set" where
  "places d = place_of ` set (chapters d)"

text \<open>An archive on disk: the artifact, its content and where it belongs.\<close>

definition archives :: "db \<Rightarrow> (int \<times> string \<times> place option) set" where
  "archives d = (\<lambda>a. (art_id a, art_blob_checksum a, place_at d (art_chapter_id a))) ` set (artifacts d)"

definition readable :: "db \<Rightarrow> place set" where
  "readable d = {p. \<exists>a \<in> set (artifacts d). art_state a = ArtActive \<and> place_at d (art_chapter_id a) = Some p}"

text \<open>The keys of the tables: chapters by id and by place, artifacts refer to chapters, and at
  most one artifact of a chapter is active.\<close>

definition catalog_ok :: "db \<Rightarrow> bool" where
  "catalog_ok d = (distinct (map ch_id (chapters d)) \<and> distinct (map place_of (chapters d)) \<and>
     (\<forall>a \<in> set (artifacts d). place_at d (art_chapter_id a) \<noteq> None) \<and>
     (\<forall>a \<in> set (artifacts d). \<forall>b \<in> set (artifacts d). art_state a = ArtActive \<and> art_state b = ArtActive \<and>
        art_chapter_id a = art_chapter_id b \<longrightarrow> art_id a = art_id b))"

definition relocates :: "(place \<Rightarrow> place) \<Rightarrow> db \<Rightarrow> db \<Rightarrow> bool" where
  "relocates f d d' = (catalog_ok d \<longrightarrow> catalog_ok d' \<and> places d' = f ` places d \<and>
     archives d' = (\<lambda>(i, b, p). (i, b, map_option f p)) ` archives d \<and> readable d' = f ` readable d)"

lemma relocates_trans:
  assumes "relocates f d e" "relocates g e h"
  shows "relocates (g \<circ> f) d h"
proof -
  have "(\<lambda>(i, b, p). (i, b, map_option g p)) ` (\<lambda>(i, b, p). (i, b, map_option f p)) ` X =
      (\<lambda>(i, b, p). (i, b, map_option (g \<circ> f) p)) ` X" for X :: "(int \<times> string \<times> place option) set"
    by (auto simp: image_image case_prod_beta option.map_comp)
  then show ?thesis using assms by (auto simp: relocates_def image_comp)
qed

lemma place_at_in: "place_at d i = Some p \<Longrightarrow> p \<in> places d"
  by (auto simp: place_at_def places_def dest!: get_row_SomeD)

lemma relocates_cong:
  assumes "relocates f d d'" "\<And>p. p \<in> places d \<Longrightarrow> f p = g p"
  shows "relocates g d d'"
proof -
  have arch: "map_option f p = map_option g p" if "(i, b, p) \<in> archives d" for i b p
    using that assms(2) place_at_in by (cases p) (auto simp: archives_def)
  have read: "f p = g p" if "p \<in> readable d" for p
    using that assms(2) place_at_in unfolding readable_def by blast
  have "f ` places d = g ` places d" "f ` readable d = g ` readable d"
    "(\<lambda>(i, b, p). (i, b, map_option f p)) ` archives d = (\<lambda>(i, b, p). (i, b, map_option g p)) ` archives d"
    using assms(2) arch read by (auto intro!: image_cong)
  then show ?thesis using assms(1) by (simp add: relocates_def)
qed

subsection \<open>Tables that stay\<close>

definition art_core :: "chapter_artifact \<Rightarrow> int \<times> int \<times> string \<times> artifact_state" where
  "art_core a = (art_id a, art_chapter_id a, art_blob_checksum a, art_state a)"

definition same_shelf :: "db \<Rightarrow> db \<Rightarrow> bool" where
  "same_shelf d d' = (chapters d' = chapters d \<and> map art_core (artifacts d') = map art_core (artifacts d))"

lemma same_shelf_refl [simp]: "same_shelf d d"
  by (simp add: same_shelf_def)

lemma same_shelf_trans: "same_shelf d e \<Longrightarrow> same_shelf e f \<Longrightarrow> same_shelf d f"
  by (simp add: same_shelf_def)

lemma same_place: "chapters d' = chapters d \<Longrightarrow> place_at d' = place_at d"
  by (simp add: place_at_def fun_eq_iff)

lemma core_set:
  assumes "map art_core xs = map art_core ys" "a \<in> set xs"
  shows "\<exists>b \<in> set ys. art_core b = art_core a"
proof -
  have "art_core a \<in> set (map art_core ys)" using assms by (metis image_eqI list.set_map)
  then show ?thesis by auto
qed

lemma same_shelf_archives:
  assumes "same_shelf d d'"
  shows "archives d' = archives d" "readable d' = readable d" "catalog_ok d' = catalog_ok d"
proof -
  have c: "chapters d' = chapters d" and m: "map art_core (artifacts d') = map art_core (artifacts d)"
    using assms by (simp_all add: same_shelf_def)
  note p = same_place [OF c]
  have *: "\<exists>b \<in> set (artifacts e). art_core b = art_core a" if "a \<in> set (artifacts f)" "{e, f} = {d, d'}" for a e f
    using that core_set [OF m, of a] core_set [OF m [symmetric], of a] by (auto simp: doubleton_eq_iff)
  let ?F = "\<lambda>x. case x of (i, c, b, s) \<Rightarrow> (i, b, place_at d c)"
  have "archives e = ?F ` set (map art_core (artifacts e))" if "place_at e = place_at d" for e
    by (simp add: archives_def that image_image art_core_def)
  then show "archives d' = archives d" using m p by metis
  have R: "readable e = {q. \<exists>x \<in> set (map art_core (artifacts e)). snd (snd (snd x)) = ArtActive \<and> place_at d (fst (snd x)) = Some q}"
    if "place_at e = place_at d" for e
    by (auto simp: readable_def that art_core_def)
  show "readable d' = readable d" using R [of d'] R [of d] m p by metis
  have C: "catalog_ok e = (distinct (map ch_id (chapters e)) \<and> distinct (map place_of (chapters e)) \<and>
     (\<forall>x \<in> set (map art_core (artifacts e)). place_at e (fst (snd x)) \<noteq> None) \<and>
     (\<forall>x \<in> set (map art_core (artifacts e)). \<forall>y \<in> set (map art_core (artifacts e)).
        snd (snd (snd x)) = ArtActive \<and> snd (snd (snd y)) = ArtActive \<and> fst (snd x) = fst (snd y) \<longrightarrow> fst x = fst y))" for e
    by (auto simp: catalog_ok_def art_core_def)
  show "catalog_ok d' = catalog_ok d" unfolding C using m p c by simp
qed

lemma same_shelf_relocates: "same_shelf d d' \<Longrightarrow> relocates id d d'"
  using same_shelf_archives [of d d'] by (auto simp: relocates_def same_shelf_def places_def option.map_id)

subsection \<open>Deleting what nothing refers to\<close>

lemma filter_none: "\<forall>x \<in> set xs. \<not> P x \<Longrightarrow> filter P xs = [] \<and> filter (\<lambda>x. \<not> P x) xs = xs"
  by (induction xs) auto

lemma on_library_frame [simp]:
  "chapters (on_library f d) = chapters d" "artifacts (on_library f d) = artifacts d" "jobs (on_library f d) = jobs d"
  "job_seq (on_library f d) = job_seq d" "permits (on_library f d) = permits d" "cycles (on_library f d) = cycles d"
  "cycle_seq (on_library f d) = cycle_seq d" "source_series (on_library f d) = source_series d"
  "series_rows (on_library f d) = series_rows d" "releases (on_library f d) = releases d"
  "operations (on_library f d) = operations d" "operation_series (on_library f d) = operation_series d"
  "operation_seq (on_library f d) = operation_seq d" "intents (on_library f d) = intents d" "plans (on_library f d) = plans d"
  "labels (on_library f d) = labels d" "decisions (on_library f d) = decisions d" "attempts_log (on_library f d) = attempts_log d"
  by (simp_all add: on_library_def)

lemma drop_releases_core: "map art_core (artifacts (drop_releases P d)) = map art_core (artifacts d)"
  by (simp add: drop_releases_def Let_def art_core_def o_def split: option.split)

lemma drop_releases_frame [simp]:
  "chapters (drop_releases P d) = chapters d" "jobs (drop_releases P d) = jobs d"
  "job_seq (drop_releases P d) = job_seq d" "permits (drop_releases P d) = permits d" "cycles (drop_releases P d) = cycles d"
  "cycle_seq (drop_releases P d) = cycle_seq d" "source_series (drop_releases P d) = source_series d"
  "series_rows (drop_releases P d) = series_rows d" "operations (drop_releases P d) = operations d"
  "operation_series (drop_releases P d) = operation_series d" "operation_seq (drop_releases P d) = operation_seq d"
  "releases (drop_releases P d) = filter (\<lambda>r. \<not> P r) (releases d)"
  by (simp_all add: drop_releases_def Let_def)

lemma drop_chapter_frame [simp]:
  "jobs (drop_chapter c d) = jobs d" "job_seq (drop_chapter c d) = job_seq d" "permits (drop_chapter c d) = permits d"
  "cycles (drop_chapter c d) = cycles d" "cycle_seq (drop_chapter c d) = cycle_seq d"
  "source_series (drop_chapter c d) = source_series d" "series_rows (drop_chapter c d) = series_rows d"
  "operations (drop_chapter c d) = operations d" "operation_series (drop_chapter c d) = operation_series d"
  "operation_seq (drop_chapter c d) = operation_seq d"
  "chapters (drop_chapter c d) = filter (\<lambda>x. ch_id x \<noteq> c) (chapters d)"
  by (simp_all add: drop_chapter_def drop_artifacts_def Let_def)

lemma drop_chapter_artifacts:
  assumes "\<forall>a \<in> set (artifacts d). art_chapter_id a \<noteq> c"
  shows "map art_core (artifacts (drop_chapter c d)) = map art_core (artifacts d)"
proof -
  let ?e = "drop_releases (\<lambda>r. rel_chapter_id r = c) d"
  have "\<forall>a \<in> set (artifacts ?e). \<not> art_chapter_id a = c"
    using assms core_set [OF drop_releases_core [of "\<lambda>r. rel_chapter_id r = c" d]] by (fastforce simp: art_core_def)
  from filter_none [OF this] have "artifacts (drop_chapter c d) = artifacts ?e"
    by (simp add: drop_chapter_def drop_artifacts_def Let_def)
  then show ?thesis by (simp add: drop_releases_core)
qed

lemma drop_source_series_frame [simp]:
  "chapters (drop_source_series i d) = chapters d" "jobs (drop_source_series i d) = jobs d"
  "job_seq (drop_source_series i d) = job_seq d" "permits (drop_source_series i d) = permits d"
  "cycles (drop_source_series i d) = cycles d" "cycle_seq (drop_source_series i d) = cycle_seq d"
  "series_rows (drop_source_series i d) = series_rows d" "operations (drop_source_series i d) = operations d"
  "operation_series (drop_source_series i d) = operation_series d" "operation_seq (drop_source_series i d) = operation_seq d"
  "source_series (drop_source_series i d) = filter (\<lambda>s. srs_id s \<noteq> i) (source_series d)"
  by (simp_all add: drop_source_series_def)

lemma drop_source_series_core: "map art_core (artifacts (drop_source_series i d)) = map art_core (artifacts d)"
  by (simp add: drop_source_series_def drop_releases_core)

subsection \<open>One chapter\<close>

definition rename_chapter :: "int \<Rightarrow> int \<Rightarrow> string \<Rightarrow> place \<Rightarrow> place" where
  "rename_chapter target source n p = (if p = (source, n) then (target, n) else p)"

lemma move_intent_frame [simp]:
  "chapters (move_intent s c t d) = chapters d" "artifacts (move_intent s c t d) = artifacts d" "jobs (move_intent s c t d) = jobs d"
  "job_seq (move_intent s c t d) = job_seq d" "permits (move_intent s c t d) = permits d" "cycles (move_intent s c t d) = cycles d"
  "cycle_seq (move_intent s c t d) = cycle_seq d" "source_series (move_intent s c t d) = source_series d"
  "series_rows (move_intent s c t d) = series_rows d" "operations (move_intent s c t d) = operations d"
  "operation_series (move_intent s c t d) = operation_series d" "operation_seq (move_intent s c t d) = operation_seq d"
  by (simp_all add: move_intent_def put_intent_def split: option.split)

text \<open>The row of an artifact after the chapters \<open>c\<close> and \<open>t\<close> were joined.\<close>

definition joined_artifact :: "bool \<Rightarrow> int \<Rightarrow> int \<Rightarrow> chapter_artifact \<Rightarrow> chapter_artifact" where
  "joined_artifact taken c t a = (if art_chapter_id a = c
     then a\<lparr>art_chapter_id := t, art_state := (if taken \<and> art_state a = ArtActive then ArtQuarantined else art_state a)\<rparr>
     else a)"

lemma move_artifacts_rows:
  "move_artifacts c t d = Inr d' \<Longrightarrow> artifacts d' = map (joined_artifact (active_of t d) c t) (artifacts d) \<and> chapters d' = chapters d"
  by (auto simp: move_artifacts_def joined_artifact_def split: if_splits)

lemma move_artifacts_frame:
  assumes "move_artifacts c t d = Inr d'"
  shows "jobs d' = jobs d" "job_seq d' = job_seq d" "permits d' = permits d" "cycles d' = cycles d" "cycle_seq d' = cycle_seq d"
    "source_series d' = source_series d" "series_rows d' = series_rows d" "operations d' = operations d"
    "operation_series d' = operation_series d" "operation_seq d' = operation_seq d"
  using assms by (auto simp: move_artifacts_def split: if_splits)

lemma merge_chapter_some:
  assumes "find (\<lambda>x. ch_series_id x = target \<and> ch_canonical_number x = ch_canonical_number c) stored = Some t"
    and "merge_chapter target stored c d = Inr d'" and "ch_id t \<noteq> ch_id c"
  shows "chapters d' = filter (\<lambda>x. ch_id x \<noteq> ch_id c) (chapters d) \<and>
    map art_core (artifacts d') = map art_core (map (joined_artifact (active_of (ch_id t) d) (ch_id c) (ch_id t)) (artifacts d))"
proof -
  let ?d1 = "move_intent target (ch_id c) (ch_id t) d"
  let ?d2 = "?d1\<lparr>releases := map (\<lambda>r. if rel_chapter_id r = ch_id c then r\<lparr>rel_chapter_id := ch_id t\<rparr> else r) (releases ?d1),
     attempts_log := map (\<lambda>a. if att_chapter_id a = ch_id c then a\<lparr>att_chapter_id := ch_id t\<rparr> else a) (attempts_log ?d1)\<rparr>"
  obtain d3 f where m: "move_artifacts (ch_id c) (ch_id t) ?d2 = Inr d3" and d': "d' = drop_chapter (ch_id c) (on_library f d3)"
    using assms(1,2) by (auto simp: merge_chapter_def Let_def bind_result_eq_Inr)
  note R = move_artifacts_rows [OF m]
  have act: "active_of (ch_id t) ?d2 = active_of (ch_id t) d" by (simp add: active_of_def)
  have "\<forall>a \<in> set (artifacts (on_library f d3)). art_chapter_id a \<noteq> ch_id c"
    using R assms(3) by (auto simp: joined_artifact_def)
  from drop_chapter_artifacts [OF this] show ?thesis using R act by (simp add: d')
qed

definition relocated :: "(place \<Rightarrow> place) \<Rightarrow> db \<Rightarrow> db \<Rightarrow> bool" where
  "relocated f d d' = (catalog_ok d' \<and> places d' = f ` places d \<and>
     archives d' = (\<lambda>(i, b, p). (i, b, map_option f p)) ` archives d \<and> readable d' = f ` readable d)"

lemma relocates_relocated: "relocates f d d' = (catalog_ok d \<longrightarrow> relocated f d d')"
  by (simp add: relocates_def relocated_def)

lemma relocatedI:
  assumes core: "map art_core (artifacts d') = map art_core (map g (artifacts d))" and ok: "catalog_ok d"
    and same: "\<And>a. art_id (g a) = art_id a \<and> art_blob_checksum (g a) = art_blob_checksum a"
    and place: "\<And>a. a \<in> set (artifacts d) \<Longrightarrow> place_at d' (art_chapter_id (g a)) = map_option f (place_at d (art_chapter_id a))"
    and ch: "distinct (map ch_id (chapters d'))" "distinct (map place_of (chapters d'))" "places d' = f ` places d"
    and one: "\<And>a b. a \<in> set (artifacts d) \<Longrightarrow> b \<in> set (artifacts d) \<Longrightarrow> art_state (g a) = ArtActive \<Longrightarrow>
       art_state (g b) = ArtActive \<Longrightarrow> art_chapter_id (g a) = art_chapter_id (g b) \<Longrightarrow> art_id a = art_id b"
    and act: "\<And>a. a \<in> set (artifacts d) \<Longrightarrow> art_state (g a) = ArtActive \<Longrightarrow> art_state a = ArtActive"
    and stay: "\<And>a. a \<in> set (artifacts d) \<Longrightarrow> art_state a = ArtActive \<Longrightarrow>
       \<exists>b \<in> set (artifacts d). art_state (g b) = ArtActive \<and> place_at d' (art_chapter_id (g b)) = map_option f (place_at d (art_chapter_id a))"
  shows "relocated f d d'"
proof -
  let ?e = "d'\<lparr>artifacts := map g (artifacts d)\<rparr>"
  have sc: "same_shelf d' ?e" using core by (simp add: same_shelf_def)
  have p: "place_at ?e = place_at d'" by (rule same_place) simp
  have "archives ?e = (\<lambda>(i, b, p). (i, b, map_option f p)) ` archives d"
    using same place by (auto simp: archives_def p image_image)
  moreover have "readable ?e = f ` readable d"
  proof
    show "readable ?e \<subseteq> f ` readable d"
    proof
      fix q assume "q \<in> readable ?e"
      then obtain a where a: "a \<in> set (artifacts d)" "art_state (g a) = ArtActive" "place_at d' (art_chapter_id (g a)) = Some q"
        by (auto simp: readable_def p)
      then obtain r where "place_at d (art_chapter_id a) = Some r" "q = f r" using place by auto
      then show "q \<in> f ` readable d" using a act by (auto simp: readable_def)
    qed
    show "f ` readable d \<subseteq> readable ?e"
    proof
      fix q assume "q \<in> f ` readable d"
      then obtain r where "r \<in> readable d" and q: "q = f r" by blast
      then obtain a where "a \<in> set (artifacts d)" "art_state a = ArtActive" "place_at d (art_chapter_id a) = Some r"
        by (auto simp: readable_def)
      with stay [OF this(1,2)] show "q \<in> readable ?e" by (auto simp: readable_def p q)
    qed
  qed
  moreover have "catalog_ok ?e"
    unfolding catalog_ok_def
  proof (intro conjI ballI impI)
    fix x assume "x \<in> set (artifacts ?e)"
    then obtain a where a: "a \<in> set (artifacts d)" "x = g a" by auto
    then have "place_at d (art_chapter_id a) \<noteq> None" using ok by (simp add: catalog_ok_def)
    then show "place_at ?e (art_chapter_id x) \<noteq> None" using place [OF a(1)] by (simp add: p a(2))
  next
    fix x y assume "x \<in> set (artifacts ?e)" "y \<in> set (artifacts ?e)"
      "art_state x = ArtActive \<and> art_state y = ArtActive \<and> art_chapter_id x = art_chapter_id y"
    moreover from this obtain a b where "a \<in> set (artifacts d)" "x = g a" "b \<in> set (artifacts d)" "y = g b" by auto
    ultimately show "art_id x = art_id y" using one [of a b] same by metis
  qed (use ch in simp_all)
  ultimately show ?thesis
    using same_shelf_archives [OF sc] ch(3) by (simp add: relocated_def)
qed

lemma place_at_chapter: "catalog_ok d \<Longrightarrow> c \<in> set (chapters d) \<Longrightarrow> place_at d (ch_id c) = Some (place_of c)"
  by (simp add: place_at_def catalog_ok_def get_row_distinct)

lemma place_unique:
  assumes "catalog_ok d" "place_at d i = Some (place_of c)" "c \<in> set (chapters d)"
  shows "i = ch_id c"
proof -
  obtain x where x: "x \<in> set (chapters d)" "ch_id x = i" "place_of x = place_of c"
    using assms(2) by (auto simp: place_at_def dest: get_row_SomeD)
  then have "x = c" using assms(1,3) by (auto simp: catalog_ok_def distinct_map dest: inj_onD)
  then show ?thesis using x by simp
qed

lemma rename_other:
  assumes "catalog_ok d" "c \<in> set (chapters d)" "place_of c = (source, n)" "i \<noteq> ch_id c"
  shows "map_option (rename_chapter target source n) (place_at d i) = place_at d i"
  using place_unique [OF assms(1) _ assms(2)] assms(3,4) by (cases "place_at d i") (auto simp: rename_chapter_def)

text \<open>No chapter of the target has the number: the chapter changes its series.\<close>

lemma merge_chapter_moves:
  assumes ok: "catalog_ok d" and c: "c \<in> set (chapters d)" "place_of c = (source, n)" and new: "(target, n) \<notin> places d"
  shows "relocated (rename_chapter target source n) d (d\<lparr>chapters := put_row ch_id (c\<lparr>ch_series_id := target\<rparr>) (chapters d)\<rparr>)"
    (is "relocated ?f d ?d")
proof (rule relocatedI [where g = id])
  let ?c = "c\<lparr>ch_series_id := target\<rparr>"
  have pc: "place_of ?c = (target, n)" "ch_id ?c = ch_id c" using c(2) by (simp_all add: place_of_def)
  have row: "get_row ch_id (ch_id c) (chapters d) = Some c" using ok c(1) by (simp add: catalog_ok_def get_row_distinct)
  have at: "place_at ?d i = (if i = ch_id c then Some (target, n) else place_at d i)" for i
    using get_put_row_same [of "ch_id c" ch_id ?c "chapters d" c] row get_put_row_other [of i ch_id ?c "chapters d"] pc
    by (simp add: place_at_def)
  show at': "place_at ?d (art_chapter_id (id a)) = map_option ?f (place_at d (art_chapter_id a))" for a
    using rename_other [OF ok c(1,2), of "art_chapter_id a" target] place_at_chapter [OF ok c(1)] c(2)
    by (auto simp: at rename_chapter_def)
  show ids: "distinct (map ch_id (chapters ?d))" using ok by (simp add: catalog_ok_def)
  have inj: "x = y" if "x \<in> set (chapters d)" "y \<in> set (chapters d)" "place_of x = place_of y" for x y
    using ok that by (auto simp: catalog_ok_def distinct_map dest: inj_onD)
  have pl: "place_of x = place_of y \<longrightarrow> x = y" if "x \<in> set (chapters ?d)" "y \<in> set (chapters ?d)" for x y
  proof -
    have old: "place_of z \<noteq> (target, n)" if "z \<in> set (chapters d)" for z using new that by (force simp: places_def)
    have "z = ?c \<or> z \<in> set (chapters d)" if "z \<in> set (chapters ?d)" for z using that by (auto dest!: in_put_rowD)
    then show ?thesis using that old inj pc(1) by metis
  qed
  have "distinct (chapters ?d)" using ids unfolding distinct_map by blast
  then show "distinct (map place_of (chapters ?d))"
    unfolding distinct_map inj_on_def using pl by blast
  have "places ?d = insert (target, n) (place_of ` {x \<in> set (chapters d). ch_id x \<noteq> ch_id c})"
    using c(1) pc by (auto simp: places_def set_put_row)
  also have "\<dots> = ?f ` places d"
  proof -
    let ?R = "{x \<in> set (chapters d). ch_id x \<noteq> ch_id c}"
    have "?f (place_of x) = place_of x" if "x \<in> ?R" for x
      using that inj [of x c] c by (auto simp: rename_chapter_def)
    then have R: "(\<lambda>x. ?f (place_of x)) ` ?R = place_of ` ?R" by (intro image_cong) blast+
    have split: "set (chapters d) = insert c ?R"
      using c(1) ok by (auto simp: catalog_ok_def distinct_map dest: inj_onD)
    have fc: "?f (place_of c) = (target, n)" using c(2) by (simp add: rename_chapter_def)
    have "?f ` places d = (\<lambda>x. ?f (place_of x)) ` set (chapters d)" by (simp add: places_def image_image)
    also have "\<dots> = (\<lambda>x. ?f (place_of x)) ` insert c ?R" by (rule arg_cong [OF split])
    also have "\<dots> = insert (target, n) (place_of ` ?R)" by (simp only: image_insert R fc)
    finally show ?thesis by (rule sym)
  qed
  finally show "places ?d = ?f ` places d" .
  show "\<And>a b. a \<in> set (artifacts d) \<Longrightarrow> b \<in> set (artifacts d) \<Longrightarrow> art_state (id a) = ArtActive \<Longrightarrow>
       art_state (id b) = ArtActive \<Longrightarrow> art_chapter_id (id a) = art_chapter_id (id b) \<Longrightarrow> art_id a = art_id b"
    using ok unfolding catalog_ok_def id_apply by blast
  show "\<exists>b \<in> set (artifacts d). art_state (id b) = ArtActive \<and>
      place_at ?d (art_chapter_id (id b)) = map_option ?f (place_at d (art_chapter_id a))"
    if "a \<in> set (artifacts d)" "art_state a = ArtActive" for a
    using that at' by (intro bexI [of _ a]) simp_all
qed (simp_all add: ok)

text \<open>A chapter of the target has the number: the two are joined.\<close>

lemma merge_chapter_joins:
  assumes ok: "catalog_ok d" and c: "c \<in> set (chapters d)" "place_of c = (source, n)"
    and t: "t \<in> set (chapters d)" "place_of t = (target, n)" and ne: "source \<noteq> target"
    and ch: "chapters d' = filter (\<lambda>x. ch_id x \<noteq> ch_id c) (chapters d)"
    and art: "map art_core (artifacts d') = map art_core (map (joined_artifact (active_of (ch_id t) d) (ch_id c) (ch_id t)) (artifacts d))"
  shows "relocated (rename_chapter target source n) d d'"
proof (rule relocatedI [where g = "joined_artifact (active_of (ch_id t) d) (ch_id c) (ch_id t)", OF art ok])
  let ?f = "rename_chapter target source n" and ?g = "joined_artifact (active_of (ch_id t) d) (ch_id c) (ch_id t)"
  have "t \<noteq> c" using c(2) t(2) ne by auto
  then have tc: "ch_id t \<noteq> ch_id c" using ok c(1) t(1) by (auto simp: catalog_ok_def distinct_map dest: inj_onD)
  have "get_row ch_id i (filter (\<lambda>x. ch_id x \<noteq> ch_id c) xs) = get_row ch_id i xs" if "i \<noteq> ch_id c" for i and xs :: "catalog_chapter list"
    using that by (induction xs) (auto simp: get_row_Cons)
  then have at: "place_at d' i = place_at d i" if "i \<noteq> ch_id c" for i using that by (simp add: place_at_def ch)
  have pt: "place_at d (ch_id t) = Some (target, n)" "place_at d (ch_id c) = Some (source, n)"
    using place_at_chapter [OF ok] c t by simp_all
  show place: "place_at d' (art_chapter_id (?g a)) = map_option ?f (place_at d (art_chapter_id a))" for a
    using at [of "art_chapter_id a"] at [OF tc] pt rename_other [OF ok c, of "art_chapter_id a" target]
    by (auto simp: joined_artifact_def rename_chapter_def)
  show "distinct (map ch_id (chapters d'))" "distinct (map place_of (chapters d'))"
    using ok by (auto simp: ch catalog_ok_def distinct_map intro: inj_on_subset)
  let ?R = "{x \<in> set (chapters d). ch_id x \<noteq> ch_id c}"
  have inj: "x = c" if "x \<in> set (chapters d)" "place_of x = place_of c \<or> ch_id x = ch_id c" for x
    using ok that c(1) by (auto simp: catalog_ok_def distinct_map dest: inj_onD)
  then have split: "set (chapters d) = insert c ?R" using c(1) by auto
  have R: "(\<lambda>x. ?f (place_of x)) ` ?R = place_of ` ?R"
    by (rule image_cong) (use inj c(2) in \<open>auto simp: rename_chapter_def\<close>)
  have "?f ` places d = (\<lambda>x. ?f (place_of x)) ` set (chapters d)" by (simp add: places_def image_image)
  also have "\<dots> = (\<lambda>x. ?f (place_of x)) ` insert c ?R" by (rule arg_cong [OF split])
  also have "\<dots> = insert (target, n) (place_of ` ?R)" using c(2) by (simp only: image_insert R) (simp add: rename_chapter_def)
  also have "\<dots> = place_of ` ?R" using t tc by (force intro: insert_absorb)
  finally show "places d' = ?f ` places d" by (simp add: places_def ch)
  show "art_id (?g a) = art_id a \<and> art_blob_checksum (?g a) = art_blob_checksum a" for a by (simp add: joined_artifact_def)
  show "art_state a = ArtActive" if "art_state (?g a) = ArtActive" for a
    using that by (auto simp: joined_artifact_def split: if_splits)
  have taken: "active_of (ch_id t) d" if "a \<in> set (artifacts d)" "art_state a = ArtActive" "art_chapter_id a = ch_id t" for a
    using that by (auto simp: active_of_def list_ex_iff)
  show "art_id a = art_id b" if "a \<in> set (artifacts d)" "b \<in> set (artifacts d)" "art_state (?g a) = ArtActive"
    "art_state (?g b) = ArtActive" "art_chapter_id (?g a) = art_chapter_id (?g b)" for a b
  proof -
    have st: "art_state a = ArtActive" "art_state b = ArtActive" using that by (auto simp: joined_artifact_def split: if_splits)
    have "art_chapter_id a = art_chapter_id b"
      using that tc taken [OF that(1) st(1)] taken [OF that(2) st(2)] by (auto simp: joined_artifact_def split: if_splits)
    then show ?thesis using ok that(1,2) st unfolding catalog_ok_def by blast
  qed
  show "\<exists>b \<in> set (artifacts d). art_state (?g b) = ArtActive \<and>
      place_at d' (art_chapter_id (?g b)) = map_option ?f (place_at d (art_chapter_id a))"
    if a: "a \<in> set (artifacts d)" "art_state a = ArtActive" for a
  proof (cases "art_chapter_id a = ch_id c \<and> active_of (ch_id t) d")
    case True
    then obtain b where b: "b \<in> set (artifacts d)" "art_chapter_id b = ch_id t" "art_state b = ArtActive"
      by (auto simp: active_of_def list_ex_iff)
    then have "?g b = b" using tc by (simp add: joined_artifact_def)
    then show ?thesis using b True pt at [OF tc] by (intro bexI [of _ b]) (simp_all add: rename_chapter_def)
  next
    case False
    then have "art_state (?g a) = ArtActive" using a by (auto simp: joined_artifact_def)
    then show ?thesis using a(1) place [of a] by blast
  qed
qed

subsection \<open>All chapters of a series\<close>

definition rename_series :: "int \<Rightarrow> int \<Rightarrow> place \<Rightarrow> place" where
  "rename_series target source p = (if fst p = source then (target, snd p) else p)"

lemma merge_chapter_step:
  assumes ok: "catalog_ok d" and c: "c \<in> set (chapters d)" "place_of c = (source, n)" and ne: "source \<noteq> target"
    and some: "\<And>t. t \<in> set stored \<Longrightarrow> place_of t = (target, n) \<Longrightarrow> t \<in> set (chapters d)"
    and none: "\<And>x. x \<in> set (chapters d) \<Longrightarrow> place_of x = (target, n) \<Longrightarrow> x \<in> set stored"
    and run: "merge_chapter target stored c d = Inr d'"
  shows "relocated (rename_chapter target source n) d d' \<and>
    (\<forall>x \<in> set (chapters d). ch_id x \<noteq> ch_id c \<longrightarrow> x \<in> set (chapters d')) \<and>
    (\<forall>x \<in> set (chapters d'). x \<in> set (chapters d) \<or> place_of x = (target, n))"
proof -
  let ?P = "\<lambda>x. ch_series_id x = target \<and> ch_canonical_number x = ch_canonical_number c"
  have P: "?P x \<longleftrightarrow> place_of x = (target, n)" for x using c(2) by (auto simp: place_of_def)
  show ?thesis
  proof (cases "find ?P stored")
    case None
    then have d': "d' = d\<lparr>chapters := put_row ch_id (c\<lparr>ch_series_id := target\<rparr>) (chapters d)\<rparr>"
      using run by (simp add: merge_chapter_def)
    have "\<not> (\<exists>x \<in> set stored. place_of x = (target, n))" using None by (auto simp: find_None_iff P)
    then have "(target, n) \<notin> places d" using none unfolding places_def by (metis imageE)
    from merge_chapter_moves [OF ok c this] show ?thesis
      using c(2) by (auto simp: d' place_of_def intro: in_put_row_other dest!: in_put_rowD)
  next
    case (Some t)
    then have t: "t \<in> set stored" "place_of t = (target, n)" using P by (auto simp: find_Some_iff)
    then have td: "t \<in> set (chapters d)" using some by blast
    have "t \<noteq> c" using c(2) t(2) ne by auto
    then have "ch_id t \<noteq> ch_id c" using ok c(1) td by (auto simp: catalog_ok_def distinct_map dest: inj_onD)
    note R = merge_chapter_some [OF Some run this]
    have "relocated (rename_chapter target source n) d d'"
      by (rule merge_chapter_joins [OF ok c td t(2) ne]) (use R in blast)+
    then show ?thesis using R by simp
  qed
qed

lemma merge_chapters_loop:
  assumes ne: "source \<noteq> target"
  shows "catalog_ok d \<Longrightarrow> distinct (map ch_canonical_number cs) \<Longrightarrow>
    (\<And>c. c \<in> set cs \<Longrightarrow> c \<in> set (chapters d) \<and> ch_series_id c = source) \<Longrightarrow>
    (\<And>t. t \<in> set stored \<Longrightarrow> ch_series_id t = target \<Longrightarrow> t \<in> set (chapters d)) \<Longrightarrow>
    (\<And>x. x \<in> set (chapters d) \<Longrightarrow> ch_series_id x = target \<Longrightarrow> ch_canonical_number x \<in> ch_canonical_number ` set cs \<Longrightarrow> x \<in> set stored) \<Longrightarrow>
    fold_result (merge_chapter target stored) cs d = Inr d' \<Longrightarrow>
    relocated (\<lambda>p. if fst p = source \<and> snd p \<in> ch_canonical_number ` set cs then (target, snd p) else p) d d'"
proof (induction cs arbitrary: d)
  case Nil
  then show ?case using same_shelf_relocates [of d d'] by (simp add: relocates_relocated id_def)
next
  case (Cons c cs)
  obtain e where one: "merge_chapter target stored c d = Inr e" and rest: "fold_result (merge_chapter target stored) cs e = Inr d'"
    using Cons.prems(6) by (auto simp: bind_result_eq_Inr)
  let ?n = "ch_canonical_number c"
  have c: "c \<in> set (chapters d)" "place_of c = (source, ?n)" using Cons.prems(3) by (auto simp: place_of_def)
  have step: "relocated (rename_chapter target source ?n) d e \<and>
    (\<forall>x \<in> set (chapters d). ch_id x \<noteq> ch_id c \<longrightarrow> x \<in> set (chapters e)) \<and>
    (\<forall>x \<in> set (chapters e). x \<in> set (chapters d) \<or> place_of x = (target, ?n))"
    by (rule merge_chapter_step [OF Cons.prems(1) c ne _ _ one]) (use Cons.prems(4,5) in \<open>auto simp: place_of_def\<close>)
  have other: "ch_id x \<noteq> ch_id c" if "x \<in> set (chapters d)" "x \<noteq> c" for x
    using that c(1) Cons.prems(1) by (auto simp: catalog_ok_def distinct_map dest: inj_onD)
  let ?f = "\<lambda>p. if fst p = source \<and> snd p \<in> ch_canonical_number ` set cs then (target, snd p) else p"
  have IH: "relocated ?f e d'"
  proof (rule Cons.IH [OF _ _ _ _ _ rest])
    show "catalog_ok e" using step by (simp add: relocated_def)
    show "distinct (map ch_canonical_number cs)" using Cons.prems(2) by simp
    show "x \<in> set (chapters e) \<and> ch_series_id x = source" if "x \<in> set cs" for x
    proof -
      have "x \<noteq> c" using Cons.prems(2) that by (metis distinct.simps(2) image_eqI list.set_map list.simps(9))
      moreover have "x \<in> set (c # cs)" using that by simp
      ultimately show ?thesis using Cons.prems(3) [of x] step other [of x] by blast
    qed
    show "t \<in> set (chapters e)" if "t \<in> set stored" "ch_series_id t = target" for t
    proof -
      have "t \<noteq> c" using that ne c(2) by (auto simp: place_of_def)
      then show ?thesis using Cons.prems(4) [OF that] step other [of t] by blast
    qed
    show "x \<in> set stored" if "x \<in> set (chapters e)" "ch_series_id x = target" "ch_canonical_number x \<in> ch_canonical_number ` set cs" for x
    proof -
      have "?n \<notin> ch_canonical_number ` set cs" using Cons.prems(2) by simp
      then have "place_of x \<noteq> (target, ?n)" using that(3) unfolding place_of_def by (metis snd_conv)
      then have "x \<in> set (chapters d)" using step that(1) by blast
      moreover have "ch_canonical_number x \<in> ch_canonical_number ` set (c # cs)" using that(3) unfolding list.set(2) by blast
      ultimately show ?thesis using Cons.prems(5) that(2) by blast
    qed
  qed
  have "relocates (?f \<circ> rename_chapter target source ?n) d d'"
    by (rule relocates_trans [of _ d e]) (use step IH in \<open>simp_all add: relocates_relocated\<close>)
  moreover have "(?f \<circ> rename_chapter target source ?n) =
     (\<lambda>p. if fst p = source \<and> snd p \<in> ch_canonical_number ` set (c # cs) then (target, snd p) else p)"
    using ne by (auto simp: fun_eq_iff rename_chapter_def)
  ultimately show ?case using Cons.prems(1) by (simp add: relocates_relocated)
qed

end
