(* ===== verification/Series_Merge_Queue.thy ===== *)
theory Series_Merge_Queue
  imports Series_Merge_Facts
begin

text \<open>
  What merging does to the queue and to the match operations: rows of waiting jobs are relabelled
  and redirected, leased ones keep their work, and the operation rows stay.
\<close>

definition merges :: "int list \<Rightarrow> db \<Rightarrow> db \<Rightarrow> bool" where
  "merges ids d d' =
     ((queue_inv d \<and> \<not> series_busy ids d \<longrightarrow> queue_inv d' \<and> (\<forall>t. calm t d d') \<and> \<not> series_busy ids d') \<and>
      operations d' = operations d \<and> operation_seq d' = operation_seq d \<and>
      set (operation_series d') \<subseteq> set (operation_series d) \<and>
      (distinct (map srs_id (source_series d)) \<longrightarrow> distinct (map srs_id (source_series d'))))"

lemma merges_refl [simp]: "merges ids d d"
  by (simp add: merges_def)

lemma merges_trans: "merges ids d e \<Longrightarrow> merges ids e f \<Longrightarrow> merges ids d f"
  unfolding merges_def using calm_trans by (metis subset_trans)

lemma merges_same:
  assumes "same_queue d d'" "operations d' = operations d" "operation_seq d' = operation_seq d"
    "set (operation_series d') \<subseteq> set (operation_series d)"
    "distinct (map srs_id (source_series d)) \<Longrightarrow> distinct (map srs_id (source_series d'))"
  shows "merges ids d d'"
  using assms queue_inv_same [OF assms(1)] calm_same_queue [OF assms(1)]
  by (auto simp: merges_def series_busy_def same_queue_def)

lemma merges_edit:
  assumes ed: "queue_inv d \<and> \<not> series_busy ids d \<Longrightarrow> edits f d d'"
    and key: "\<And>j. j \<in> set (jobs d) \<Longrightarrow> job_dedupe_key (f j) = job_dedupe_key j"
    and busy: "\<And>j. j \<in> set (jobs d) \<Longrightarrow> job_series_key (f j) \<in> set (map str_of_int ids) \<Longrightarrow> job_status (f j) = LEASED \<Longrightarrow>
       job_series_key j \<in> set (map str_of_int ids) \<and> job_status j = LEASED"
    and ops: "operations d' = operations d" "operation_seq d' = operation_seq d" "set (operation_series d') \<subseteq> set (operation_series d)"
      "source_series d' = source_series d"
  shows "merges ids d d'"
proof -
  have "queue_inv d' \<and> (\<forall>t. calm t d d') \<and> \<not> series_busy ids d'" if a: "queue_inv d" "\<not> series_busy ids d"
  proof -
    note E = ed [OF conjI [OF a]]
    have "unique_ok (jobs d')" using edits_unique [OF E queue_invD(2) [OF a(1)]] key by blast
    then have "queue_inv d'" by (rule edits_inv [OF E a(1)])
    moreover have "calm t d d'" for t by (rule edits_calm [OF E])
    moreover have "\<not> series_busy ids d'"
    proof
      assume "series_busy ids d'"
      then obtain j where "j \<in> set (jobs d)" "job_series_key (f j) \<in> set (map str_of_int ids)" "job_status (f j) = LEASED"
        using E unfolding edits_def series_busy_def list_ex_iff by auto
      with busy [OF this] a(2) show False unfolding series_busy_def list_ex_iff by blast
    qed
    ultimately show ?thesis by blast
  qed
  then show ?thesis using ops by (auto simp: merges_def)
qed

subsection \<open>Redirected downloads\<close>

definition db_frame :: "db \<Rightarrow> db \<Rightarrow> bool" where
  "db_frame d d' = (chapters d' = chapters d \<and> artifacts d' = artifacts d \<and> operations d' = operations d \<and>
     operation_seq d' = operation_seq d \<and> operation_series d' = operation_series d \<and> source_series d' = source_series d)"

lemma put_job_db_frame [simp]: "db_frame d (put_job j d)"
  by (simp add: db_frame_def put_job_def)

lemma redirect_loop:
  "distinct (map job_id rows) \<Longrightarrow> (queue_inv d \<Longrightarrow> set rows \<subseteq> set (jobs d)) \<Longrightarrow>
   fold_result (redirect_job a b) rows d = Inr d' \<Longrightarrow> merges ids d d' \<and> db_frame d d'"
proof (induction rows arbitrary: d)
  case Nil
  then show ?case by (simp add: db_frame_def)
next
  case (Cons j rows)
  obtain e where one: "redirect_job a b j d = Inr e" and tail: "fold_result (redirect_job a b) rows e = Inr d'"
    using Cons.prems(3) by (auto simp: bind_result_eq_Inr)
  obtain p q where e: "e = put_job (j\<lparr>job_payload := p, job_pending_payload := q\<rparr>) d"
    using one by (auto simp: redirect_job_def bind_result_eq_Inr)
  note rest = tail [unfolded e]
  let ?j = "j\<lparr>job_payload := p, job_pending_payload := q\<rparr>"
  let ?f = "\<lambda>k. if job_id k = job_id ?j then ?j else k"
  show ?case
  proof (cases "queue_inv d")
    case True
    then have j: "j \<in> set (jobs d)" using Cons.prems(2) by simp
    have ed: "edited j ?j" using edited_refl [OF queue_inv_job_ok [OF True j]] by (simp add: edited_def)
    have same: "k = j" if "k \<in> set (jobs d)" "job_id k = job_id ?j" for k
      using rows_ok_eq [OF queue_invD(1) [OF True] that(1) j] that(2) by simp
    have m: "merges ids d (put_job ?j d)"
    proof (rule merges_edit [where f = ?f])
      show "edits ?f d (put_job ?j d)" by (rule edits_put [OF True j ed])
      show "job_dedupe_key (?f k) = job_dedupe_key k" if "k \<in> set (jobs d)" for k using same [OF that] by auto
      show "job_series_key k \<in> set (map str_of_int ids) \<and> job_status k = LEASED"
        if "k \<in> set (jobs d)" "job_series_key (?f k) \<in> set (map str_of_int ids)" "job_status (?f k) = LEASED" for k
        using that same [OF that(1)] by (cases "job_id k = job_id ?j") auto
    qed (simp_all add: put_job_def)
    have "set rows \<subseteq> set (jobs (put_job ?j d))"
    proof
      fix k assume k: "k \<in> set rows"
      then have "job_id k \<noteq> job_id ?j" using Cons.prems(1) by (auto simp: rev_image_eqI)
      moreover have "k \<in> set (jobs d)" using Cons.prems(2) [OF True] k by auto
      ultimately show "k \<in> set (jobs (put_job ?j d))" using in_put_row_other [of k "jobs d" job_id ?j] by simp
    qed
    then have "merges ids (put_job ?j d) d' \<and> db_frame (put_job ?j d) d'"
      using Cons.IH [OF _ _ rest] Cons.prems(1) by simp
    then show ?thesis using m merges_trans put_job_db_frame [of d ?j] by (auto simp: db_frame_def)
  next
    case False
    have "db_frame d d'"
      by (rule fold_result_rel [where R = db_frame, OF Cons.prems(3)])
         (auto simp: db_frame_def redirect_job_def bind_result_eq_Inr put_job_def)
    then show ?thesis using False by (simp add: merges_def db_frame_def)
  qed
qed

lemma frame_same_shelf: "db_frame d d' \<Longrightarrow> same_shelf d d'"
  by (simp add: db_frame_def same_shelf_def)

subsection \<open>Consolidation\<close>

definition quiet :: "int list \<Rightarrow> db \<Rightarrow> db \<Rightarrow> bool" where
  "quiet ids d d' = (same_shelf d d' \<and> merges ids d d')"

lemma quiet_refl [simp]: "quiet ids d d"
  by (simp add: quiet_def)

lemma quiet_trans: "quiet ids d e \<Longrightarrow> quiet ids e f \<Longrightarrow> quiet ids d f"
  unfolding quiet_def using same_shelf_trans merges_trans by blast

lemma quiet_same:
  "same_queue d d' \<Longrightarrow> same_shelf d d' \<Longrightarrow> operations d' = operations d \<Longrightarrow> operation_seq d' = operation_seq d \<Longrightarrow>
   set (operation_series d') \<subseteq> set (operation_series d) \<Longrightarrow>
   (distinct (map srs_id (source_series d)) \<Longrightarrow> distinct (map srs_id (source_series d'))) \<Longrightarrow> quiet ids d d'"
  by (simp add: quiet_def merges_same)

lemma quiet_on_library [simp]: "quiet ids d (on_library f d)"
  by (rule quiet_same) (simp_all add: same_queue_def same_shelf_def)

lemma quiet_drop_releases: "quiet ids d (drop_releases P d)"
  by (rule quiet_same) (simp_all add: same_queue_def same_shelf_def drop_releases_core)

lemma quiet_drop_source: "quiet ids d (drop_source_series i d)"
  by (rule quiet_same) (simp_all add: same_queue_def same_shelf_def drop_source_series_core distinct_map_filter)

lemma quiet_replace:
  assumes "replace_release_references r k d = Inr d'"
  shows "quiet ids d d'"
proof -
  let ?d = "d\<lparr>artifacts := map (\<lambda>a. if art_chapter_release_id a = Some (rel_id r)
                  then a\<lparr>art_chapter_release_id := Some (rel_id k)\<rparr> else a) (artifacts d),
              attempts_log := map (\<lambda>a. if att_chapter_release_id a = rel_id r
                  then a\<lparr>att_chapter_release_id := rel_id k\<rparr> else a) (attempts_log d)\<rparr>"
  obtain e where loop: "fold_result (redirect_job (rel_id r) (rel_id k)) (filter (\<lambda>j. job_kind_of j = CHAPTER_DOWNLOAD) (jobs ?d)) ?d = Inr e"
    and d': "d' = drop_releases (\<lambda>x. rel_id x = rel_id r) e"
    using assms by (auto simp: replace_release_references_def Let_def bind_result_eq_Inr)
  have q1: "quiet ids d ?d"
    by (rule quiet_same) (simp_all add: same_queue_def same_shelf_def art_core_def o_def if_distrib [of art_core] cong: if_cong)
  have q2: "quiet ids ?d e"
  proof (cases "queue_inv ?d")
    case True
    have "distinct (map job_id (filter (\<lambda>j. job_kind_of j = CHAPTER_DOWNLOAD) (jobs ?d)))"
      by (rule queue_inv_filter_distinct [OF True])
    then show ?thesis using redirect_loop [OF _ _ loop, of ids] frame_same_shelf by (auto simp: quiet_def)
  next
    case False
    have "db_frame ?d e"
      by (rule fold_result_rel [where R = db_frame, OF loop])
         (auto simp: db_frame_def redirect_job_def bind_result_eq_Inr put_job_def)
    then show ?thesis using False frame_same_shelf [of ?d e] by (simp add: quiet_def merges_def db_frame_def)
  qed
  show ?thesis unfolding d' by (rule quiet_trans [OF quiet_trans [OF q1 q2] quiet_drop_releases])
qed

lemma quiet_move_release:
  assumes "move_release k stored r d = Inr d'"
  shows "quiet ids d d'"
proof (cases "find (\<lambda>x. rel_source_series_id x = k \<and> rel_source_release_id x = rel_source_release_id r) stored")
  case None
  then show ?thesis using assms
    by (intro quiet_same) (auto simp: move_release_def same_queue_def same_shelf_def put_release_def)
next
  case (Some x)
  then show ?thesis using assms quiet_replace by (simp add: move_release_def)
qed

lemma quiet_loop:
  assumes "fold_result f xs d = Inr d'" "\<And>x e e'. f x e = Inr e' \<Longrightarrow> quiet ids e e'"
  shows "quiet ids d d'"
  by (rule fold_result_rel [where R = "quiet ids", OF assms(1)]) (auto intro: quiet_trans assms(2))

lemma quiet_consolidate_identity:
  assumes "consolidate_identity k dup dec d = Inr d'"
  shows "quiet ids d d'"
proof -
  let ?d1 = "on_library (record_alternate k dup (chapter_overlap (srs_id k) (srs_id dup) d)) d"
  let ?d2 = "?d1\<lparr>source_series := put_row srs_id (fill_identity k dup) (source_series ?d1)\<rparr>"
  let ?d3 = "on_library (move_covers (srs_id k) (srs_id dup)) ?d2"
  obtain d4 where loop: "fold_result (move_release (srs_id k) (releases ?d3))
        (filter (\<lambda>r. rel_source_series_id r = srs_id dup) (releases ?d3)) ?d3 = Inr d4"
    and d': "d' = drop_source_series (srs_id dup) ((on_library (move_names (srs_id k) (srs_id dup)) d4)\<lparr>
       decisions := filter (\<lambda>x. dec_id x = dec \<or> dec_left x \<noteq> srs_id dup \<and> dec_right x \<noteq> srs_id dup)
         (decisions (on_library (move_names (srs_id k) (srs_id dup)) d4))\<rparr>)"
    using assms by (auto simp: consolidate_identity_def Let_def bind_result_eq_Inr)
  have q1: "quiet ids d ?d3"
    by (rule quiet_same) (simp_all add: same_queue_def same_shelf_def)
  have q2: "quiet ids ?d3 d4" by (rule quiet_loop [OF loop quiet_move_release])
  have q3: "quiet ids d4 ((on_library (move_names (srs_id k) (srs_id dup)) d4)\<lparr>decisions := x\<rparr>)" for x
    by (rule quiet_same) (simp_all add: same_queue_def same_shelf_def)
  show ?thesis unfolding d' by (rule quiet_trans [OF quiet_trans [OF quiet_trans [OF q1 q2] q3] quiet_drop_source])
qed

lemma quiet_consolidate: "consolidate_overlapping l r dec d = Inr d' \<Longrightarrow> quiet ids d d'"
  unfolding consolidate_overlapping_def Let_def
  by (erule quiet_loop) (auto simp: consolidate_source_def split: option.splits if_splits intro: quiet_consolidate_identity)

subsection \<open>Two series\<close>

lemma merges_merge_chapter:
  assumes "merge_chapter target stored c d = Inr d'"
  shows "merges ids d d'"
proof (cases "find (\<lambda>x. ch_series_id x = target \<and> ch_canonical_number x = ch_canonical_number c) stored")
  case None
  then show ?thesis using assms by (intro merges_same) (auto simp: merge_chapter_def same_queue_def)
next
  case (Some t)
  then obtain d2 d3 f where m: "move_artifacts (ch_id c) (ch_id t) d2 = Inr d3" and d': "d' = drop_chapter (ch_id c) (on_library f d3)"
    and d2: "same_queue d d2" "operations d2 = operations d" "operation_seq d2 = operation_seq d"
      "operation_series d2 = operation_series d" "source_series d2 = source_series d"
    using assms by (auto simp: merge_chapter_def Let_def bind_result_eq_Inr same_queue_def)
  show ?thesis
    using d2 move_artifacts_frame [OF m] by (intro merges_same) (simp_all add: d' same_queue_def)
qed

lemma move_plan_frame [simp]:
  "chapters (move_plan s c d) = chapters d" "artifacts (move_plan s c d) = artifacts d" "jobs (move_plan s c d) = jobs d"
  "job_seq (move_plan s c d) = job_seq d" "permits (move_plan s c d) = permits d" "cycles (move_plan s c d) = cycles d"
  "cycle_seq (move_plan s c d) = cycle_seq d" "source_series (move_plan s c d) = source_series d"
  "series_rows (move_plan s c d) = series_rows d" "operations (move_plan s c d) = operations d"
  "operation_series (move_plan s c d) = operation_series d" "operation_seq (move_plan s c d) = operation_seq d"
  by (simp_all add: move_plan_def)

lemma drop_series_frame:
  assumes "\<forall>x \<in> set (source_series d). srs_series_id x \<noteq> s" "\<forall>c \<in> set (chapters d). ch_series_id c \<noteq> s"
  shows "same_queue d (drop_series s d)" "chapters (drop_series s d) = chapters d" "artifacts (drop_series s d) = artifacts d"
    "source_series (drop_series s d) = source_series d" "operations (drop_series s d) = operations d"
    "operation_seq (drop_series s d) = operation_seq d"
    "operation_series (drop_series s d) = filter (\<lambda>m. mos_series_id m \<noteq> s) (operation_series d)"
proof -
  have "filter (\<lambda>x. srs_series_id x = s) (source_series d) = []" "filter (\<lambda>c. ch_series_id c = s) (chapters d) = []"
    using assms by (simp_all add: filter_empty_conv)
  then show "same_queue d (drop_series s d)" "chapters (drop_series s d) = chapters d" "artifacts (drop_series s d) = artifacts d"
    "source_series (drop_series s d) = source_series d" "operations (drop_series s d) = operations d"
    "operation_seq (drop_series s d) = operation_seq d"
    "operation_series (drop_series s d) = filter (\<lambda>m. mos_series_id m \<noteq> s) (operation_series d)"
    by (simp_all add: drop_series_def same_queue_def)
qed

definition relabel :: "int \<Rightarrow> int \<Rightarrow> work_job \<Rightarrow> work_job" where
  "relabel target source j = (if job_series_key j = str_of_int source then j\<lparr>job_series_key := str_of_int target\<rparr> else j)"

lemma quiet_merge_rows:
  assumes ne: "source \<noteq> target" and ch: "\<forall>c \<in> set (chapters d). ch_series_id c \<noteq> source" and ids: "source \<in> set ids" "target \<in> set ids"
  shows "quiet ids d (merge_rows target source d)"
proof -
  let ?d1 = "d\<lparr>source_series := map (\<lambda>x. if srs_series_id x = source then x\<lparr>srs_series_id := target\<rparr> else x) (source_series d),
      intents := map (\<lambda>i. if int_series_id i = source then i\<lparr>int_series_id := target\<rparr> else i) (intents d)\<rparr>"
  let ?d2 = "move_plan target source ?d1"
  let ?d3 = "?d2\<lparr>jobs := map (relabel target source) (jobs ?d2)\<rparr>"
  let ?d4 = "on_library (move_series_names target source) ?d3"
  let ?d5 = "case get_row ser_id target (series_rows ?d4) of None \<Rightarrow> ?d4
     | Some t \<Rightarrow> ?d4\<lparr>series_rows := put_row ser_id (fill_series (get_row ser_id source (series_rows ?d4)) t) (series_rows ?d4)\<rparr>"
  have eq: "merge_rows target source d = (if get_row ser_id source (series_rows ?d5) = None then ?d5 else drop_series source ?d5)"
    unfolding merge_rows_def Let_def relabel_def by simp
  have map: "map (\<lambda>x. srs_id (if srs_series_id x = source then x\<lparr>srs_series_id := target\<rparr> else x)) rows = map srs_id rows" for rows
    by simp
  have q1: "quiet ids d ?d2"
    by (rule quiet_same) (simp_all add: same_queue_def same_shelf_def o_def map)
  have q2: "quiet ids ?d2 ?d3"
  proof -
    have "merges ids ?d2 ?d3"
    proof (rule merges_edit [where f = "relabel target source"])
      assume a: "queue_inv ?d2 \<and> \<not> series_busy ids ?d2"
      have "edited j (relabel target source j)" if "j \<in> set (jobs ?d2)" for j
      proof -
        have "job_status j \<noteq> LEASED" if "job_series_key j = str_of_int source"
          using a ids(1) that \<open>j \<in> set (jobs ?d2)\<close> by (auto simp: series_busy_def list_ex_iff)
        then show ?thesis using edited_refl [OF queue_inv_job_ok [of ?d2 j]] a that by (auto simp: relabel_def edited_def)
      qed
      then show "edits (relabel target source) ?d2 ?d3" by (simp add: edits_def)
    qed (use ids in \<open>auto simp: relabel_def split: if_splits\<close>)
    then show ?thesis by (simp add: quiet_def same_shelf_def)
  qed
  have q3: "quiet ids ?d3 ?d5"
    by (rule quiet_same) (simp_all add: same_queue_def same_shelf_def split: option.split)
  have ident: "\<forall>x \<in> set (source_series ?d5). srs_series_id x \<noteq> source" and ch5: "\<forall>c \<in> set (chapters ?d5). ch_series_id c \<noteq> source"
    using ne ch by (auto split: option.split)
  note D = drop_series_frame [OF ident ch5]
  have q4: "quiet ids ?d5 (drop_series source ?d5)"
    by (rule quiet_same) (use D in \<open>auto simp: same_shelf_def\<close>)
  show ?thesis unfolding eq using quiet_trans [OF quiet_trans [OF q1 q2] q3] quiet_trans [OF _ q4] by simp
qed

end
