(* ===== verification/Series_Merge_Properties.thy ===== *)
theory Series_Merge_Properties
  imports Series_Merge_Queue
begin

text \<open>
  The merge of a selection of series as a whole: all places of the selected series move to the
  target, archives follow, and the queue invariants hold.
\<close>

subsection \<open>Two series\<close>

lemma shelf_relocated: "catalog_ok d \<Longrightarrow> same_shelf d d' \<Longrightarrow> relocated id d d'"
  using same_shelf_relocates by (simp add: relocates_relocated)

lemma relocated_trans: "catalog_ok d \<Longrightarrow> relocated f d e \<Longrightarrow> relocated g e h \<Longrightarrow> relocated (g \<circ> f) d h"
  using relocates_trans [of f d e g h] by (simp add: relocates_relocated relocated_def)

lemma relocated_cong: "catalog_ok d \<Longrightarrow> relocated f d d' \<Longrightarrow> (\<And>p. p \<in> places d \<Longrightarrow> f p = g p) \<Longrightarrow> relocated g d d'"
  using relocates_cong [of f d d' g] by (simp add: relocates_relocated)

lemma relocated_ok: "relocated f d d' \<Longrightarrow> catalog_ok d'"
  by (simp add: relocated_def)

lemma merge_chapters_facts:
  assumes ok: "catalog_ok d" and ne: "source \<noteq> target"
    and run: "fold_result (merge_chapter target (chapters d)) (sort_key ch_id (filter (\<lambda>c. ch_series_id c = source) (chapters d))) d = Inr d'"
  shows "relocated (rename_series target source) d d' \<and> merges ids d d' \<and> (\<forall>c \<in> set (chapters d'). ch_series_id c \<noteq> source)"
proof -
  let ?cs = "sort_key ch_id (filter (\<lambda>c. ch_series_id c = source) (chapters d))"
  let ?f = "\<lambda>p. if fst p = source \<and> snd p \<in> ch_canonical_number ` set ?cs then (target, snd p) else p"
  have inj: "inj_on place_of (set (chapters d))" using ok by (simp add: catalog_ok_def distinct_map)
  have "inj_on ch_canonical_number (set ?cs)"
    using inj by (auto simp: inj_on_def place_of_def)
  moreover have "distinct ?cs" using ok by (simp add: catalog_ok_def distinct_map)
  ultimately have dn: "distinct (map ch_canonical_number ?cs)" by (simp only: distinct_map)
  have "relocated ?f d d'" by (rule merge_chapters_loop [OF ne ok dn _ _ _ run]) auto
  then have rel: "relocated (rename_series target source) d d'"
    by (rule relocated_cong [OF ok]) (auto simp: places_def place_of_def rename_series_def)
  have "merges ids d d'"
    by (rule fold_result_rel [where R = "merges ids", OF run]) (auto intro: merges_trans merges_merge_chapter)
  moreover have "ch_series_id c \<noteq> source" if "c \<in> set (chapters d')" for c
  proof -
    have "place_of c \<in> rename_series target source ` places d"
      using rel that by (simp add: relocated_def) (metis image_eqI places_def)
    then have "fst (place_of c) \<noteq> source" using ne by (auto simp: rename_series_def)
    then show ?thesis by (simp add: place_of_def)
  qed
  ultimately show ?thesis using rel by blast
qed

lemma merge_match_groups_facts:
  assumes ok: "catalog_ok d" and run: "merge_match_groups l r dec d = Inr d'"
    and l: "get_row srs_id l (source_series d) = Some L" "srs_series_id L = target"
    and r: "get_row srs_id r (source_series d) = Some R" "srs_series_id R = source"
    and ids: "source \<in> set ids" "target \<in> set ids"
  shows "relocated (rename_series target source) d d' \<and> merges ids d d'"
proof (cases "source = target")
  case True
  then have "d' = d" using run l r by (simp add: merge_match_groups_def)
  moreover have "relocated (rename_series target source) d d"
    by (rule relocated_cong [OF ok shelf_relocated [OF ok same_shelf_refl]]) (auto simp: rename_series_def True)
  ultimately show ?thesis by simp
next
  case False
  then obtain d1 d2 where con: "consolidate_overlapping L R dec d = Inr d1"
    and loop: "fold_result (merge_chapter target (chapters d1)) (sort_key ch_id (filter (\<lambda>c. ch_series_id c = source) (chapters d1))) d1 = Inr d2"
    and d': "d' = merge_rows target source d2"
    using run l r by (auto simp: merge_match_groups_def Let_def bind_result_eq_Inr split: if_splits)
  have q1: "same_shelf d d1" "merges ids d d1" using quiet_consolidate [OF con] by (simp_all add: quiet_def)
  have ok1: "catalog_ok d1" using relocated_ok [OF shelf_relocated [OF ok q1(1)]] .
  note F = merge_chapters_facts [OF ok1 False loop, of ids]
  have q2: "quiet ids d2 d'" unfolding d' using quiet_merge_rows [OF False _ ids] F by blast
  have ok2: "catalog_ok d2" using F relocated_ok by blast
  have "relocated (id \<circ> (rename_series target source \<circ> id)) d d'"
    using relocated_trans [OF ok relocated_trans [OF ok shelf_relocated [OF ok q1(1)] conjunct1 [OF F]]
        shelf_relocated [OF ok2]] q2 by (simp add: quiet_def)
  then show ?thesis using q1(2) F q2 merges_trans unfolding quiet_def by simp blast
qed

subsection \<open>A selection of series\<close>

definition collect :: "int list \<Rightarrow> int \<Rightarrow> place \<Rightarrow> place" where
  "collect xs target p = (if fst p \<in> set xs then (target, snd p) else p)"

lemma first_or_in: "first_or P xs = Some x \<Longrightarrow> x \<in> set xs"
  by (cases "find P xs"; cases xs) (auto simp: first_or_def find_Some_iff split: if_splits)

lemma joining_pair_rows:
  assumes "joining_pair target source d = Some (l, r)" "distinct (map srs_id (source_series d))"
  shows "\<exists>L R. get_row srs_id l (source_series d) = Some L \<and> srs_series_id L = target \<and>
    get_row srs_id r (source_series d) = Some R \<and> srs_series_id R = source"
proof -
  have "\<exists>L \<in> set (identities_of target d). \<exists>R \<in> set (identities_of source d). l = srs_id L \<and> r = srs_id R"
    using assms(1) unfolding joining_pair_def Let_def by (auto split: option.splits dest!: first_or_in)
  then show ?thesis using get_row_distinct [OF assms(2)] by (auto simp: identities_of_def)
qed

lemma join_series_facts:
  assumes "catalog_ok d" "distinct (map srs_id (source_series d))" "join_series target source d = Inr d'"
    "source \<in> set ids" "target \<in> set ids"
  shows "relocated (rename_series target source) d d' \<and> merges ids d d'"
proof (cases "source = target")
  case True
  then have "d' = d" using assms(3) by (simp add: join_series_def)
  moreover have "relocated (rename_series target source) d d"
    by (rule relocated_cong [OF assms(1) shelf_relocated [OF assms(1) same_shelf_refl]]) (auto simp: rename_series_def True)
  ultimately show ?thesis by simp
next
  case False
  then obtain l r where lr: "joining_pair target source d = Some (l, r)" and run: "merge_match_groups l r 0 d = Inr d'"
    using assms(3) by (auto simp: join_series_def split: option.splits)
  then show ?thesis
    using joining_pair_rows [OF lr assms(2)] merge_match_groups_facts [OF assms(1) run _ _ _ _ assms(4,5)] by blast
qed

lemma join_all_facts:
  "catalog_ok d \<Longrightarrow> distinct (map srs_id (source_series d)) \<Longrightarrow> set xs \<subseteq> set ids \<Longrightarrow> target \<in> set ids \<Longrightarrow>
   fold_result (join_series target) xs d = Inr d' \<Longrightarrow> relocated (collect xs target) d d' \<and> merges ids d d'"
proof (induction xs arbitrary: d)
  case Nil
  have "relocated (collect [] target) d d"
    by (rule relocated_cong [OF Nil.prems(1) shelf_relocated [OF Nil.prems(1) same_shelf_refl]]) (simp add: collect_def)
  then show ?case using Nil.prems(5) by simp
next
  case (Cons x xs)
  then obtain e where one: "join_series target x d = Inr e" and rest: "fold_result (join_series target) xs e = Inr d'"
    by (auto simp: bind_result_eq_Inr)
  have J: "relocated (rename_series target x) d e \<and> merges ids d e"
    using join_series_facts [OF Cons.prems(1,2) one, of ids] Cons.prems(3,4) by simp
  have IH: "relocated (collect xs target) e d' \<and> merges ids e d'"
    by (rule Cons.IH [OF _ _ _ _ rest]) (use J Cons.prems relocated_ok in \<open>auto simp: merges_def\<close>)
  have "relocated (collect xs target \<circ> rename_series target x) d d'"
    using relocated_trans [OF Cons.prems(1)] J IH by blast
  moreover have "collect xs target \<circ> rename_series target x = collect (x # xs) target"
    by (auto simp: fun_eq_iff collect_def rename_series_def)
  ultimately show ?case using J IH merges_trans by simp blast
qed

lemma repair_same_catalog:
  assumes "enqueue_library_repair mv now s reason prio ks d = Inr (j, b, d')"
  shows "same_catalog d d'"
proof -
  have m: "same_catalog e e'" if "merge_repair_into mv s prio p k e = Inr (j, b, e')" for p k e e'
    using that by (auto simp: merge_repair_into_def Let_def bind_result_eq_Inr simp del: model_dump.simps)
  show ?thesis
  proof (cases "active_repair s d")
    case (Some k)
    then show ?thesis using assms m by (auto simp: enqueue_library_repair_def bind_result_eq_Inr)
  next
    case None
    then obtain p k b1 d1 where enq: "enqueue mv now (repair_args s prio (Model (LibraryRepairPayload p))) d = Inr (k, b1, d1)"
      and rest: "d' = d1 \<or> (\<exists>e. merge_repair_into mv s prio p e d1 = Inr (j, b, d'))"
      using assms unfolding enqueue_library_repair_def bind_result_eq_Inr
      by (fastforce simp: bind_result_eq_Inr split: if_splits option.splits)
    then show ?thesis using same_catalog_enqueue [OF enq] m same_catalog_trans by blast
  qed
qed

lemma merge_canonical_facts:
  assumes ok: "catalog_ok d" "distinct (map srs_id (source_series d))" "distinct (map ser_id (series_rows d))" and codec: "payload_codec mv"
    and run: "merge_canonical_series mv now series_ids d = Inr (target, d')"
  shows "target \<in> set series_ids \<and> relocated (collect series_ids target) d d' \<and>
    (queue_inv d \<longrightarrow> queue_inv d' \<and> (\<forall>t. calm t d d')) \<and> operations d' = operations d \<and> operation_seq d' = operation_seq d \<and>
    set (operation_series d') \<subseteq> set (operation_series d)"
proof -
  let ?ids = "sort (remdups series_ids)"
  let ?rows = "sort_key ser_id (filter (\<lambda>s. ser_id s \<in> set ?ids) (series_rows d))"
  obtain t d2 obs j b where busy: "\<not> series_busy ?ids d" and t: "max_by (merge_rank d) ?rows = Some t" "target = ser_id t"
    and len: "length ?rows = length ?ids"
    and loop: "fold_result (join_series (ser_id t)) (map ser_id ?rows)
        (d\<lparr>series_rows := put_row ser_id (t\<lparr>ser_status := best_status ?rows\<rparr>) (series_rows d)\<rparr>) = Inr d2"
    and rep: "enqueue_library_repair mv now (ser_id t) ''merge'' 90 obs d2 = Inr (j, b, d')"
    using run unfolding merge_canonical_series_def Let_def
    by (auto simp: bind_result_eq_Inr split: if_splits option.splits)
  let ?d1 = "d\<lparr>series_rows := put_row ser_id (t\<lparr>ser_status := best_status ?rows\<rparr>) (series_rows d)\<rparr>"
  have "t \<in> set ?rows" using max_by_Some [OF t(1)] by blast
  then have tin: "ser_id t \<in> set ?ids" by simp
  have sub: "set (map ser_id ?rows) \<subseteq> set ?ids" by auto
  have q1: "quiet ?ids d ?d1" by (rule quiet_same) (simp_all add: same_queue_def same_shelf_def)
  then have r1: "relocated id d ?d1" using shelf_relocated [OF ok(1)] by (simp add: quiet_def)
  have J: "relocated (collect (map ser_id ?rows) (ser_id t)) ?d1 d2 \<and> merges ?ids ?d1 d2"
    by (rule join_all_facts [OF relocated_ok [OF r1] _ sub tin loop]) (use ok(2) in simp)
  note C = repair_same_catalog [OF rep]
  have r3: "relocated id d2 d'"
    by (rule shelf_relocated) (use J relocated_ok C in \<open>auto simp: same_catalog_def same_shelf_def\<close>)
  have "relocated (id \<circ> (collect (map ser_id ?rows) (ser_id t) \<circ> id)) d d'"
    using relocated_trans [OF ok(1) relocated_trans [OF ok(1) r1 conjunct1 [OF J]] r3] .
  then have rel: "relocated (collect (map ser_id ?rows) (ser_id t)) d d'" by simp
  have M: "merges ?ids d d2" using q1 J merges_trans by (auto simp: quiet_def)
  have Q: "queue_inv d' \<and> (\<forall>u. calm u d d')" if "queue_inv d"
  proof -
    have "queue_inv d2" "\<forall>u. calm u d d2" using M that busy by (auto simp: merges_def)
    then show ?thesis using enqueue_repair_facts [OF codec _ rep] calm_trans by blast
  qed
  show ?thesis
  proof (intro conjI)
    show "target \<in> set series_ids" using tin t(2) by simp
    show "relocated (collect series_ids target) d d'"
    proof -
      have "distinct (map ser_id ?rows)" using ok(3) by (simp add: distinct_map inj_on_def)
      then have "card (set (map ser_id ?rows)) = card (set ?ids)" using len by (simp add: distinct_card length_remdups_card_conv del: set_map)
      then have "set (map ser_id ?rows) = set series_ids" using card_subset_eq [OF _ sub] by simp
      then have "collect (map ser_id ?rows) (ser_id t) = collect series_ids target" by (simp add: collect_def fun_eq_iff t(2))
      then show ?thesis using rel by simp
    qed
  qed (use Q M C in \<open>auto simp: merges_def same_catalog_def\<close>)
qed

subsection \<open>Properties\<close>

text \<open>C27. Merging a selection of series moves exactly the chapters of the selection to the target,
  joining those with the same number: no chapter number disappears, every archive is kept with its
  content and stands at the chapter with its number, a chapter that could be read can still be
  read, and no chapter gets a second active archive.\<close>

theorem merge_relocates:
  assumes "catalog_ok d" "distinct (map srs_id (source_series d))" "distinct (map ser_id (series_rows d))" "payload_codec mv"
    and "merge_canonical_series mv now series_ids d = Inr (target, d')"
  shows "target \<in> set series_ids \<and> catalog_ok d' \<and> places d' = collect series_ids target ` places d \<and>
    archives d' = (\<lambda>(i, b, p). (i, b, map_option (collect series_ids target) p)) ` archives d \<and>
    readable d' = collect series_ids target ` readable d"
  using merge_canonical_facts [OF assms] by (auto simp: relocated_def)

text \<open>Merging keeps the invariants of the queue, although it relabels the jobs of the merged
  series, redirects downloads of duplicate releases and queues a repair.\<close>

lemma merge_keeps_queue:
  assumes "catalog_ok d" "distinct (map srs_id (source_series d))" "distinct (map ser_id (series_rows d))" "payload_codec mv"
    and "merge_canonical_series mv now series_ids d = Inr (target, d')"
  shows "keeps limits now d d'"
  by (rule keeps_calm) (use merge_canonical_facts [OF assms] in blast)

text \<open>Two series from two providers, with two chapters in common, and one with an archive only in
  the series that is merged away.\<close>

definition demo_identity :: "int \<Rightarrow> int \<Rightarrow> string \<Rightarrow> catalog_source_series" where
  "demo_identity i s src = \<lparr>srs_id = i, srs_series_id = s, srs_source = src, srs_source_id = ''x'', srs_title = ''X'',
     srs_url = ''https://x.org/x'', srs_description = [], srs_cover_url = [], srs_popularity = 0, srs_metadata = fmempty,
     srs_observation_version = [], srs_normalized_source_id = ''x'', srs_last_checked_at = 0,
     srs_normalized_title = ''x'', srs_revision_override = [], srs_detail_fetched_at = None, srs_observation_seen_at = None\<rparr>"

definition shelf_chapter :: "int \<Rightarrow> int \<Rightarrow> string \<Rightarrow> catalog_chapter" where
  "shelf_chapter i s n = \<lparr>ch_id = i, ch_series_id = s, ch_canonical_number = n, ch_display_number = n, ch_title = [],
     ch_sort_number = None, ch_created_at = 0, ch_updated_at = 0\<rparr>"

definition shelf_artifact :: "int \<Rightarrow> int \<Rightarrow> string \<Rightarrow> chapter_artifact" where
  "shelf_artifact i c blob = \<lparr>art_id = i, art_chapter_id = c, art_chapter_release_id = None, art_blob_checksum = blob,
     art_state = ArtActive, art_provenance = ''download'', art_source = ''mangadex'', art_quality_rank = 0,
     art_image_count = 0, art_deactivated_at = None\<rparr>"

definition demo_shelf :: db where
  "demo_shelf = empty_db\<lparr>series_rows := [new_catalog_series 1 ''k1'' ''X'', new_catalog_series 2 ''k2'' ''X''],
     source_series := [demo_identity 1 1 ''asura'', demo_identity 2 2 ''mangadex''],
     chapters := [shelf_chapter 1 1 ''1'', shelf_chapter 2 1 ''2'', shelf_chapter 3 2 ''2'', shelf_chapter 4 2 ''3''],
     artifacts := [shelf_artifact 1 2 ''a'', shelf_artifact 2 3 ''b'', shelf_artifact 3 4 ''c'']\<rparr>"

lemma demo_shelf_ok: "catalog_ok demo_shelf"
  by (simp add: catalog_ok_def demo_shelf_def shelf_chapter_def shelf_artifact_def place_of_def place_at_def get_row_Cons)

theorem merge_relocates_witness:
  "\<exists>d'. merge_canonical_series strict_validate 5 [1, 2] demo_shelf = Inr (1, d') \<and>
     places d' = {(1, ''1''), (1, ''2''), (1, ''3'')} \<and> readable d' = {(1, ''2''), (1, ''3'')}"
proof -
  have P: "(case merge_canonical_series strict_validate 5 [1, 2] demo_shelf of Inl _ \<Rightarrow> False | Inr (t, _) \<Rightarrow> t = 1)"
    by code_simp
  then obtain d' where r: "merge_canonical_series strict_validate 5 [1, 2] demo_shelf = Inr (1, d')"
    by (auto split: sum.splits)
  have "distinct (map srs_id (source_series demo_shelf))" "distinct (map ser_id (series_rows demo_shelf))"
    by (simp_all add: demo_shelf_def demo_identity_def new_catalog_series_def)
  note M = merge_relocates [OF demo_shelf_ok this strict.payload_codec_axioms r]
  have "collect [1, 2] 1 ` places demo_shelf = {(1, ''1''), (1, ''2''), (1, ''3'')}"
    by (auto simp: places_def demo_shelf_def shelf_chapter_def place_of_def collect_def)
  moreover have "collect [1, 2] 1 ` readable demo_shelf = {(1, ''2''), (1, ''3'')}"
  proof -
    have "readable demo_shelf = {(1, ''2''), (2, ''2''), (2, ''3'')}"
      by (auto simp: readable_def demo_shelf_def shelf_chapter_def shelf_artifact_def place_of_def place_at_def get_row_Cons)
    then show ?thesis by (auto simp: collect_def)
  qed
  ultimately show ?thesis using M r by simp
qed

end
