(* ===== verification/Match_Operation_Facts.thy ===== *)
theory Match_Operation_Facts
  imports Match_Operations Series_Merge_Properties
begin

text \<open>
  The life of match operations: their reservations, and what the transactions that submit,
  execute, fail and recover them do to them.
\<close>

subsection \<open>Merging leaves the operations alone\<close>

abbreviation known_series :: "db \<Rightarrow> int set" where
  "known_series d \<equiv> ser_id ` set (series_rows d)"

text \<open>Reservations go only with the series they are for.\<close>

definition ops_frame :: "db \<Rightarrow> db \<Rightarrow> bool" where
  "ops_frame d d' = (operations d' = operations d \<and> operation_seq d' = operation_seq d \<and>
     (\<exists>P. operation_series d' = filter P (operation_series d) \<and> (\<forall>m. P m \<or> mos_series_id m \<notin> known_series d')) \<and>
     known_series d' \<subseteq> known_series d \<and> set (decisions d') \<subseteq> set (decisions d))"

lemma ops_frame_same:
  "operations d' = operations d \<Longrightarrow> operation_seq d' = operation_seq d \<Longrightarrow> operation_series d' = operation_series d \<Longrightarrow>
   known_series d' \<subseteq> known_series d \<Longrightarrow> set (decisions d') \<subseteq> set (decisions d) \<Longrightarrow> ops_frame d d'"
  by (auto simp: ops_frame_def intro!: exI [of _ "\<lambda>_. True"])

lemma image_put_row: "key ` set (put_row key r rs) = key ` set rs"
  by (metis keys_put_row set_map)

lemma ops_frame_refl [simp]: "ops_frame d d"
  by (simp add: ops_frame_same)

lemma ops_frame_trans: "ops_frame d e \<Longrightarrow> ops_frame e f \<Longrightarrow> ops_frame d f"
proof -
  assume a: "ops_frame d e" "ops_frame e f"
  obtain P where P: "operation_series e = filter P (operation_series d)" "\<forall>m. P m \<or> mos_series_id m \<notin> known_series e"
    using a(1) unfolding ops_frame_def by blast
  obtain Q where Q: "operation_series f = filter Q (operation_series e)" "\<forall>m. Q m \<or> mos_series_id m \<notin> known_series f"
    using a(2) unfolding ops_frame_def by blast
  have "operation_series f = filter (\<lambda>m. P m \<and> Q m) (operation_series d)" by (simp add: P(1) Q(1) conj_commute)
  moreover have "\<forall>m. P m \<and> Q m \<or> mos_series_id m \<notin> known_series f"
    using P(2) Q(2) a(2) unfolding ops_frame_def by blast
  moreover have "operations f = operations d" "operation_seq f = operation_seq d" using a by (simp_all add: ops_frame_def)
  moreover have "known_series f \<subseteq> known_series d" "set (decisions f) \<subseteq> set (decisions d)" using a unfolding ops_frame_def by blast+
  ultimately show ?thesis unfolding ops_frame_def by (intro conjI exI [of _ "\<lambda>m. P m \<and> Q m"])
qed

lemma ops_frame_fold: "(\<And>x e. ops_frame e (f x e)) \<Longrightarrow> ops_frame d (fold f xs d)"
  by (induction xs arbitrary: d) (auto intro: ops_frame_trans)

lemma ops_frame_loop:
  assumes "fold_result f xs d = Inr d'" "\<And>x e e'. f x e = Inr e' \<Longrightarrow> ops_frame e e'"
  shows "ops_frame d d'"
  by (rule fold_result_rel [where R = ops_frame, OF assms(1)]) (auto intro: ops_frame_trans assms(2))

lemma decisions_drop [simp]:
  "decisions (on_library f d) = decisions d" "decisions (drop_releases P d) = decisions d" "decisions (drop_chapter c d) = decisions d"
  "decisions (drop_source_series i d) = filter (\<lambda>x. dec_left x \<noteq> i \<and> dec_right x \<noteq> i) (decisions d)"
  by (simp_all add: on_library_def drop_releases_def drop_artifacts_def drop_chapter_def drop_source_series_def Let_def)

lemma ops_frame_drop_source: "ops_frame d (drop_source_series i d)"
  by (rule ops_frame_same) (simp_all add: drop_source_series_core distinct_map_filter)

lemma ops_frame_drop_series: "ops_frame d (drop_series s d)"
proof -
  let ?d1 = "fold drop_source_series (map srs_id (filter (\<lambda>x. srs_series_id x = s) (source_series d))) d"
  let ?d2 = "fold drop_chapter (map ch_id (filter (\<lambda>c. ch_series_id c = s) (chapters ?d1))) ?d1"
  have "ops_frame d ?d1" by (rule ops_frame_fold) (rule ops_frame_drop_source)
  moreover have "ops_frame ?d1 ?d2" by (rule ops_frame_fold) (simp add: ops_frame_same)
  ultimately have "ops_frame d ?d2" by (rule ops_frame_trans)
  moreover have "ops_frame ?d2 (drop_series s d)" by (auto simp: drop_series_def Let_def ops_frame_def intro!: exI [of _ "\<lambda>m. mos_series_id m \<noteq> s"])
  ultimately show ?thesis by (rule ops_frame_trans)
qed

lemma ops_frame_redirect: "redirect_job a b j d = Inr d' \<Longrightarrow> ops_frame d d'"
  by (auto simp: redirect_job_def bind_result_eq_Inr put_job_def intro: ops_frame_same)

lemma ops_frame_replace:
  assumes "replace_release_references r k d = Inr d'"
  shows "ops_frame d d'"
proof -
  let ?d = "d\<lparr>artifacts := map (\<lambda>a. if art_chapter_release_id a = Some (rel_id r)
                  then a\<lparr>art_chapter_release_id := Some (rel_id k)\<rparr> else a) (artifacts d),
              attempts_log := map (\<lambda>a. if att_chapter_release_id a = rel_id r
                  then a\<lparr>att_chapter_release_id := rel_id k\<rparr> else a) (attempts_log d)\<rparr>"
  obtain e where loop: "fold_result (redirect_job (rel_id r) (rel_id k)) (filter (\<lambda>j. job_kind_of j = CHAPTER_DOWNLOAD) (jobs ?d)) ?d = Inr e"
    and d': "d' = drop_releases (\<lambda>x. rel_id x = rel_id r) e"
    using assms by (auto simp: replace_release_references_def Let_def bind_result_eq_Inr)
  have "ops_frame d ?d" by (rule ops_frame_same) simp_all
  moreover have "ops_frame ?d e" by (rule ops_frame_loop [OF loop ops_frame_redirect])
  moreover have "ops_frame e d'" unfolding d' by (rule ops_frame_same) (simp_all add: drop_releases_core)
  ultimately show ?thesis using ops_frame_trans by blast
qed

lemma ops_frame_move_release:
  assumes "move_release k stored r d = Inr d'"
  shows "ops_frame d d'"
proof (cases "find (\<lambda>x. rel_source_series_id x = k \<and> rel_source_release_id x = rel_source_release_id r) stored")
  case None
  then show ?thesis using assms by (intro ops_frame_same) (auto simp: move_release_def put_release_def)
next
  case (Some x)
  then show ?thesis using assms ops_frame_replace by (simp add: move_release_def)
qed

lemma ops_frame_consolidate:
  assumes "consolidate_identity k dup dec d = Inr d'"
  shows "ops_frame d d'"
proof -
  let ?d1 = "on_library (record_alternate k dup (chapter_overlap (srs_id k) (srs_id dup) d)) d"
  let ?d2 = "?d1\<lparr>source_series := put_row srs_id (fill_identity k dup) (source_series ?d1)\<rparr>"
  let ?d3 = "on_library (move_covers (srs_id k) (srs_id dup)) ?d2"
  let ?m = "on_library (move_names (srs_id k) (srs_id dup))"
  obtain d4 where loop: "fold_result (move_release (srs_id k) (releases ?d3))
        (filter (\<lambda>r. rel_source_series_id r = srs_id dup) (releases ?d3)) ?d3 = Inr d4"
    and d': "d' = drop_source_series (srs_id dup) ((?m d4)\<lparr>
       decisions := filter (\<lambda>x. dec_id x = dec \<or> dec_left x \<noteq> srs_id dup \<and> dec_right x \<noteq> srs_id dup) (decisions (?m d4))\<rparr>)"
    using assms by (auto simp: consolidate_identity_def Let_def bind_result_eq_Inr)
  have "ops_frame d ?d3" by (rule ops_frame_same) simp_all
  moreover have "ops_frame ?d3 d4" by (rule ops_frame_loop [OF loop ops_frame_move_release])
  moreover have "ops_frame d4 d'" unfolding d'
    by (rule ops_frame_trans [OF ops_frame_same ops_frame_drop_source]) simp_all
  ultimately show ?thesis using ops_frame_trans by blast
qed

lemma decisions_move_intent [simp]: "decisions (move_intent s c t d) = decisions d"
  by (simp add: move_intent_def put_intent_def Let_def split: option.split)

lemma decisions_move_artifacts:
  assumes "move_artifacts a b d = Inr d'"
  shows "decisions d' = decisions d"
  using assms by (auto simp: move_artifacts_def Let_def bind_result_eq_Inr split: option.splits if_splits)

lemma ops_frame_merge_chapter:
  assumes "merge_chapter target stored c d = Inr d'"
  shows "ops_frame d d'"
proof (cases "find (\<lambda>x. ch_series_id x = target \<and> ch_canonical_number x = ch_canonical_number c) stored")
  case None
  then show ?thesis using assms by (auto simp: merge_chapter_def intro: ops_frame_same)
next
  case (Some t)
  then obtain d2 d3 f where m: "move_artifacts (ch_id c) (ch_id t) d2 = Inr d3" and d': "d' = drop_chapter (ch_id c) (on_library f d3)"
    and d2: "operations d2 = operations d" "operation_seq d2 = operation_seq d" "operation_series d2 = operation_series d"
      "decisions d2 = decisions d" "series_rows d2 = series_rows d"
    using assms by (auto simp: merge_chapter_def Let_def bind_result_eq_Inr)
  show ?thesis using d2 move_artifacts_frame [OF m] decisions_move_artifacts [OF m] by (intro ops_frame_same) (simp_all add: d')
qed

lemma ser_id_fill_series [simp]: "ser_id (fill_series s t) = ser_id t"
  by (simp add: fill_series_def Let_def split: option.split)

lemma ops_frame_merge_rows: "ops_frame d (merge_rows target source d)"
proof -
  let ?e = "\<lambda>d4. case get_row ser_id target (series_rows d4) of None \<Rightarrow> d4
   | Some t \<Rightarrow> d4\<lparr>series_rows := put_row ser_id (fill_series (get_row ser_id source (series_rows d4)) t) (series_rows d4)\<rparr>"
  let ?d2 = "move_plan target source (d\<lparr>source_series := map (\<lambda>x. if srs_series_id x = source then x\<lparr>srs_series_id := target\<rparr> else x) (source_series d),
    intents := map (\<lambda>i. if int_series_id i = source then i\<lparr>int_series_id := target\<rparr> else i) (intents d)\<rparr>)"
  let ?d4 = "on_library (move_series_names target source) (?d2\<lparr>jobs := map (relabel target source) (jobs ?d2)\<rparr>)"
  have "decisions ?d2 = decisions d" by (simp add: move_plan_def)
  then have q: "ops_frame d (?e ?d4)" by (intro ops_frame_same) (simp_all add: image_put_row split: option.split)
  have "merge_rows target source d = ?e ?d4 \<or> merge_rows target source d = drop_series source (?e ?d4)"
    unfolding merge_rows_def Let_def relabel_def by simp
  then show ?thesis
  proof (elim disjE)
    assume eq: "merge_rows target source d = ?e ?d4"
    show ?thesis unfolding eq by (rule q)
  next
    assume eq: "merge_rows target source d = drop_series source (?e ?d4)"
    show ?thesis unfolding eq by (rule ops_frame_trans [OF q ops_frame_drop_series])
  qed
qed

lemma ops_frame_merge_groups:
  assumes "merge_match_groups l r dec d = Inr d'"
  shows "ops_frame d d'"
proof -
  have "d' = d \<or> (\<exists>L R d1 d2 cs. consolidate_overlapping L R dec d = Inr d1 \<and>
      fold_result (merge_chapter (srs_series_id L) (chapters d1)) cs d1 = Inr d2 \<and>
      d' = merge_rows (srs_series_id L) (srs_series_id R) d2)"
    using assms by (auto simp: merge_match_groups_def Let_def bind_result_eq_Inr split: option.splits if_splits) blast
  moreover have "ops_frame d d1" if "consolidate_overlapping L R dec d = Inr d1" for L R d1
    using that unfolding consolidate_overlapping_def Let_def
    by (rule ops_frame_loop) (auto simp: consolidate_source_def split: option.splits if_splits intro: ops_frame_consolidate)
  moreover have "ops_frame d1 d2" if "fold_result (merge_chapter t st) cs d1 = Inr d2" for t st cs d1 d2
    using that by (rule ops_frame_loop) (rule ops_frame_merge_chapter)
  ultimately show ?thesis using ops_frame_merge_rows ops_frame_trans ops_frame_refl by metis
qed

lemma ops_frame_merge:
  assumes "merge_canonical_series mv now ids d = Inr (t, d')"
  shows "ops_frame d d'"
proof -
  obtain s v d2 x xs ks j b where
    loop: "fold_result (join_series x) xs (d\<lparr>series_rows := put_row ser_id (s\<lparr>ser_status := v\<rparr>) (series_rows d)\<rparr>) = Inr d2"
    and rep: "enqueue_library_repair mv now x ''merge'' 90 ks d2 = Inr (j, b, d')"
    using assms unfolding merge_canonical_series_def Let_def
    by (auto simp: bind_result_eq_Inr split: if_splits option.splits)
  let ?d = "d\<lparr>series_rows := put_row ser_id (s\<lparr>ser_status := v\<rparr>) (series_rows d)\<rparr>"
  have "ops_frame d ?d" by (rule ops_frame_same) (simp_all add: image_put_row)
  moreover have "ops_frame ?d d2"
    by (rule ops_frame_loop [OF loop])
       (auto simp: join_series_def split: if_splits option.splits prod.splits intro: ops_frame_merge_groups)
  moreover have "ops_frame d2 d'" using repair_same_catalog [OF rep] by (auto simp: same_catalog_def intro: ops_frame_same)
  ultimately show ?thesis using ops_frame_trans by blast
qed

end
