(* ===== verification/Match_Operation_Properties.thy ===== *)
theory Match_Operation_Properties
  imports Match_Operation_Facts Machine
begin

text \<open>
  The life of match operations: the reservations they hold, and that every way of ending one
  gives them back.
\<close>

subsection \<open>The invariant\<close>

definition reserves :: "match_operation \<Rightarrow> match_operation_series \<Rightarrow> bool" where
  "reserves p m = (op_id p = mos_operation_id m \<and> active_operation p \<and> mos_series_id m \<in> set (op_series_ids p))"

definition ops_ok :: "db \<Rightarrow> bool" where
  "ops_ok d = (distinct (map op_id (operations d)) \<and> (\<forall>p \<in> set (operations d). op_id p < operation_seq d) \<and>
     distinct (map mos_series_id (operation_series d)) \<and>
     (\<forall>m \<in> set (operation_series d). \<exists>p \<in> set (operations d). reserves p m) \<and>
     (\<forall>p \<in> set (operations d). \<forall>s \<in> set (op_series_ids p) \<inter> known_series d.
        active_operation p \<longrightarrow> \<lparr>mos_operation_id = op_id p, mos_series_id = s\<rparr> \<in> set (operation_series d)))"

lemma ops_okD:
  assumes "ops_ok d"
  shows "distinct (map op_id (operations d))" "\<And>p. p \<in> set (operations d) \<Longrightarrow> op_id p < operation_seq d"
    "distinct (map mos_series_id (operation_series d))"
    "\<And>m. m \<in> set (operation_series d) \<Longrightarrow> \<exists>p \<in> set (operations d). reserves p m"
    "\<And>p s. p \<in> set (operations d) \<Longrightarrow> s \<in> set (op_series_ids p) \<Longrightarrow> s \<in> known_series d \<Longrightarrow> active_operation p \<Longrightarrow>
       \<lparr>mos_operation_id = op_id p, mos_series_id = s\<rparr> \<in> set (operation_series d)"
  using assms unfolding ops_ok_def by blast+

lemma ops_okI:
  assumes "distinct (map op_id (operations d))" "\<And>p. p \<in> set (operations d) \<Longrightarrow> op_id p < operation_seq d"
    "distinct (map mos_series_id (operation_series d))"
    "\<And>m. m \<in> set (operation_series d) \<Longrightarrow> \<exists>p \<in> set (operations d). reserves p m"
    "\<And>p s. p \<in> set (operations d) \<Longrightarrow> s \<in> set (op_series_ids p) \<Longrightarrow> s \<in> known_series d \<Longrightarrow> active_operation p \<Longrightarrow>
       \<lparr>mos_operation_id = op_id p, mos_series_id = s\<rparr> \<in> set (operation_series d)"
  shows "ops_ok d"
  using assms unfolding ops_ok_def by blast

text \<open>What the other components do: they may remove series, with their reservations, and add
  series that no operation knows.\<close>

definition elsewhere :: "db \<Rightarrow> db \<Rightarrow> bool" where
  "elsewhere d d' = (operations d' = operations d \<and> operation_seq d' = operation_seq d \<and>
     (\<exists>P. operation_series d' = filter P (operation_series d) \<and> (\<forall>m. P m \<or> mos_series_id m \<notin> known_series d')) \<and>
     (\<forall>p \<in> set (operations d). set (op_series_ids p) \<inter> known_series d' \<subseteq> known_series d))"

lemma elsewhere_ok:
  assumes "ops_ok d" "elsewhere d d'"
  shows "ops_ok d'"
proof -
  obtain P where P: "operation_series d' = filter P (operation_series d)" "\<forall>m. P m \<or> mos_series_id m \<notin> known_series d'"
    and e: "operations d' = operations d" "operation_seq d' = operation_seq d"
    and inc: "\<forall>p \<in> set (operations d). set (op_series_ids p) \<inter> known_series d' \<subseteq> known_series d"
    using assms(2) unfolding elsewhere_def by (elim conjE exE) (rule that)
  have sub: "s \<in> known_series d" if "p \<in> set (operations d)" "s \<in> set (op_series_ids p)" "s \<in> known_series d'" for p s
    using inc that by blast
  note D = ops_okD [OF assms(1)]
  have "\<lparr>mos_operation_id = op_id p, mos_series_id = s\<rparr> \<in> set (operation_series d')"
    if p: "p \<in> set (operations d)" and s: "s \<in> set (op_series_ids p)" "s \<in> known_series d'" and a: "active_operation p" for p s
  proof -
    have "P \<lparr>mos_operation_id = op_id p, mos_series_id = s\<rparr>" using P(2) s(2) by (metis match_operation_series.select_convs(2))
    then show ?thesis using D(5) [OF p s(1) sub [OF p s] a] by (simp add: P(1))
  qed
  moreover have "\<exists>p \<in> set (operations d). reserves p m" if "m \<in> set (operation_series d')" for m using D(4) that by (simp add: P(1))
  moreover have "distinct (map mos_series_id (operation_series d'))" using D(3) by (simp add: P(1) distinct_map_filter)
  ultimately show ?thesis using D(1,2) by (intro ops_okI) (auto simp: e)
qed

lemma frame_elsewhere: "ops_frame d d' \<Longrightarrow> elsewhere d d'"
  unfolding ops_frame_def elsewhere_def by blast

lemma same_elsewhere: "same_catalog d d' \<Longrightarrow> elsewhere d d'"
  by (intro frame_elsewhere ops_frame_same) (simp_all add: same_catalog_def)

subsection \<open>Starting and ending an operation\<close>

lemma in_put_operation:
  assumes "distinct (map op_id ps)" "p \<in> set ps" "op_id q = op_id p"
  shows "r \<in> set (put_row op_id q ps) \<longleftrightarrow> r = q \<or> r \<in> set ps \<and> op_id r \<noteq> op_id p"
  using assms by (auto simp: set_put_row rev_image_eqI)

lemma run_ok:
  assumes ok: "ops_ok d" and p: "p \<in> set (operations d)" and q: "op_id q = op_id p" "op_series_ids q = op_series_ids p"
    "active_operation q = active_operation p"
  shows "ops_ok (put_operation q d)"
proof -
  note D = ops_okD [OF ok]
  have mem: "r \<in> set (operations (put_operation q d)) \<longleftrightarrow> r = q \<or> r \<in> set (operations d) \<and> op_id r \<noteq> op_id p" for r
    using in_put_operation [OF D(1) p q(1)] by (simp add: put_operation_def)
  have "\<exists>r \<in> set (operations (put_operation q d)). reserves r m" if m: "m \<in> set (operation_series d)" for m
  proof -
    obtain r where r: "r \<in> set (operations d)" "reserves r m" using D(4) [OF m] by blast
    show ?thesis
    proof (cases "op_id r = op_id p")
      case True
      then have "r = p" using D(1) p r(1) by (auto simp: distinct_map inj_on_def)
      then have "reserves q m" using r(2) q by (simp add: reserves_def)
      then show ?thesis using mem by blast
    qed (use r mem in blast)
  qed
  moreover have "op_id r < operation_seq d" if "r \<in> set (operations (put_operation q d))" for r
    using that mem D(2) [OF p] D(2) q(1) by auto
  moreover have "\<lparr>mos_operation_id = op_id r, mos_series_id = s\<rparr> \<in> set (operation_series d)"
    if "r \<in> set (operations (put_operation q d))" "s \<in> set (op_series_ids r)" "s \<in> known_series d" "active_operation r" for r s
    using that mem D(5) [of r s] D(5) [OF p, of s] q by auto
  ultimately show ?thesis using D(1,3) by (intro ops_okI) (auto simp: put_operation_def)
qed

definition ends :: "int \<Rightarrow> match_operation \<Rightarrow> db \<Rightarrow> db" where
  "ends i q d = release_series i (put_operation q d)"

lemma end_ok:
  assumes ok: "ops_ok d" and p: "p \<in> set (operations d)" "op_id p = i" and q: "op_id q = i" "\<not> active_operation q"
  shows "ops_ok (ends i q d)"
proof -
  note D = ops_okD [OF ok]
  have mem: "r \<in> set (operations (ends i q d)) \<longleftrightarrow> r = q \<or> r \<in> set (operations d) \<and> op_id r \<noteq> i" for r
    using in_put_operation [OF D(1) p(1)] q(1) p(2) by (simp add: ends_def put_operation_def release_series_def)
  have f: "operation_series (ends i q d) = filter (\<lambda>m. mos_operation_id m \<noteq> i) (operation_series d)"
    "operation_seq (ends i q d) = operation_seq d" "known_series (ends i q d) = known_series d"
    "map op_id (operations (ends i q d)) = map op_id (operations d)"
    by (simp_all add: ends_def release_series_def put_operation_def)
  have "\<exists>r \<in> set (operations (ends i q d)). reserves r m" if m: "m \<in> set (operation_series (ends i q d))" for m
    using D(4) [of m] m mem by (auto simp: f reserves_def)
  moreover have "op_id r < operation_seq d" if "r \<in> set (operations (ends i q d))" for r
    using that D(2) [OF p(1)] D(2) p(2) q(1) mem by auto
  moreover have "\<lparr>mos_operation_id = op_id r, mos_series_id = s\<rparr> \<in> set (operation_series (ends i q d))"
    if "r \<in> set (operations (ends i q d))" "s \<in> set (op_series_ids r)" "s \<in> known_series d" "active_operation r" for r s
    using that mem q(2) D(5) by (auto simp: f)
  ultimately show ?thesis using D(1,3) by (intro ops_okI) (simp_all add: f distinct_map_filter)
qed

lemma end_facts:
  assumes "distinct (map op_id (operations d))" "p \<in> set (operations d)" "op_id p = i" "op_id q = i"
  shows "get_row op_id i (operations (ends i q d)) = Some q" "\<forall>m \<in> set (operation_series (ends i q d)). mos_operation_id m \<noteq> i"
  using assms get_row_distinct [of op_id "put_row op_id q (operations d)" q] in_put_rowI [of p "operations d" op_id q]
  by (auto simp: ends_def release_series_def put_operation_def)

subsection \<open>The transactions\<close>

lemma add_ok:
  assumes ok: "ops_ok d" and p: "op_id p = operation_seq d" "active_operation p" "distinct (op_series_ids p)"
    and free: "\<And>m. m \<in> set (operation_series d) \<Longrightarrow> mos_series_id m \<notin> set (op_series_ids p)"
  shows "ops_ok (d\<lparr>operations := operations d @ [p], operation_seq := operation_seq d + 1,
    operation_series := operation_series d @ map (\<lambda>s. \<lparr>mos_operation_id = op_id p, mos_series_id = s\<rparr>) (op_series_ids p)\<rparr>)"
    (is "ops_ok ?d")
proof -
  note D = ops_okD [OF ok]
  have new: "op_id p \<notin> op_id ` set (operations d)" using D(2) p(1) by force
  show ?thesis
  proof (rule ops_okI)
    show "distinct (map op_id (operations ?d))" using D(1) new by simp
    show "op_id r < operation_seq ?d" if "r \<in> set (operations ?d)" for r using that D(2) [of r] p(1) by auto
    have "distinct (map (mos_series_id \<circ> (\<lambda>s. \<lparr>mos_operation_id = op_id p, mos_series_id = s\<rparr>)) (op_series_ids p))"
      using p(3) by (simp add: o_def)
    then show "distinct (map mos_series_id (operation_series ?d))" using D(3) free by (auto simp: o_def)
    show "\<exists>r \<in> set (operations ?d). reserves r m" if "m \<in> set (operation_series ?d)" for m
      using that D(4) [of m] p(2) by (auto simp: reserves_def)
    show "\<lparr>mos_operation_id = op_id r, mos_series_id = s\<rparr> \<in> set (operation_series ?d)"
      if "r \<in> set (operations ?d)" "s \<in> set (op_series_ids r)" "s \<in> known_series ?d" "active_operation r" for r s
      using that D(5) [of r s] by auto
  qed
qed

lemma submit_new:
  assumes run: "enqueue_match_operation mv now a d = Inr (p, True, d')"
  obtains d2 d3 j b args where
    "d2 = d\<lparr>operations := operations d @ [new_operation now (operation_seq d) a], operation_seq := operation_seq d + 1,
       operation_series := operation_series d @ map (\<lambda>s. \<lparr>mos_operation_id = operation_seq d, mos_series_id = s\<rparr>)
         (sorted_set (oa_series_ids a))\<rparr>"
    "enqueue mv now args d2 = Inr (j, b, d3)"
    "p = (new_operation now (operation_seq d) a)\<lparr>op_job_id := Some (job_id j), op_updated_at := now\<rparr>"
    "d' = put_operation p d3" "\<forall>m \<in> set (operation_series d). mos_series_id m \<notin> set (sorted_set (oa_series_ids a))"
  using run unfolding enqueue_match_operation_def Let_def reserve_series_def
  by (auto simp: bind_result_eq_Inr new_operation_def list_ex_iff split: option.splits if_splits)

lemma submit_old: "enqueue_match_operation mv now a d = Inr (p, False, d') \<Longrightarrow> d' = d"
  unfolding enqueue_match_operation_def Let_def
  by (auto simp: bind_result_eq_Inr split: option.splits if_splits)

lemma submit_ok:
  assumes ok: "ops_ok d" and run: "enqueue_match_operation mv now a d = Inr (p, b, d')"
  shows "ops_ok d'"
proof (cases b)
  case True
  then have new: "enqueue_match_operation mv now a d = Inr (p, True, d')" using run by simp
  obtain d2 d3 j c args where d2: "d2 = d\<lparr>operations := operations d @ [new_operation now (operation_seq d) a],
       operation_seq := operation_seq d + 1,
       operation_series := operation_series d @ map (\<lambda>s. \<lparr>mos_operation_id = operation_seq d, mos_series_id = s\<rparr>)
         (sorted_set (oa_series_ids a))\<rparr>"
    and q: "enqueue mv now args d2 = Inr (j, c, d3)"
    and p: "p = (new_operation now (operation_seq d) a)\<lparr>op_job_id := Some (job_id j), op_updated_at := now\<rparr>"
    and d': "d' = put_operation p d3" and free: "\<forall>m \<in> set (operation_series d). mos_series_id m \<notin> set (sorted_set (oa_series_ids a))"
    by (rule submit_new [OF new])
  let ?p = "new_operation now (operation_seq d) a"
  have pid: "op_id ?p = operation_seq d" "op_series_ids ?p = sorted_set (oa_series_ids a)" "active_operation ?p"
    by (simp_all add: new_operation_def active_operation_def)
  have "ops_ok d2" unfolding d2
    using add_ok [OF ok, of ?p, unfolded pid] free pid by (simp add: sorted_set_def)
  then have "ops_ok d3" using elsewhere_ok same_elsewhere [OF same_catalog_enqueue [OF q]] by blast
  moreover have "?p \<in> set (operations d3)" using same_catalog_enqueue [OF q] by (simp add: same_catalog_def d2)
  ultimately show ?thesis unfolding d' by (rule run_ok) (simp_all add: p active_operation_def)
next
  case False
  then have "d' = d" using run by (intro submit_old [of mv now a d p d']) simp
  then show ?thesis using ok by simp
qed

lemma begin_ok: "ops_ok d \<Longrightarrow> ops_ok (snd (begin_operation now i d))"
  unfolding begin_operation_def
  by (auto split: option.split intro!: run_ok dest!: get_row_SomeD simp: active_operation_def)
     (metis operation_status.exhaust)+

lemma fail_ends: "fail_stranded now p d = ends (op_id p) (failed_row now ''match_worker_interrupted'' interrupted_message p) d"
  by (simp add: fail_stranded_def ends_def)

lemma failed_row_facts [simp]: "op_id (failed_row now c m p) = op_id p" "\<not> active_operation (failed_row now c m p)"
  by (simp_all add: failed_row_def active_operation_def)

lemma fail_ok: "ops_ok d \<Longrightarrow> ops_ok (fail_operation now i c m d)"
  unfolding fail_operation_def
  by (auto split: option.split dest!: get_row_SomeD simp: ends_def [symmetric] intro: end_ok)

lemma label_frame: "ops_frame d (record_training_label l r v og x d)"
  by (rule ops_frame_same) (simp_all add: record_training_label_def split: option.split)

text \<open>The reviews of the decisions: they concern no operation, and none of the reviewed decisions
  is pending afterwards.\<close>

lemma review_fields:
  "operations (review_decision now act x d) = operations d" "operation_seq (review_decision now act x d) = operation_seq d"
  "operation_series (review_decision now act x d) = operation_series d" "series_rows (review_decision now act x d) = series_rows d"
  "decisions (review_decision now act x d) = put_row dec_id (x\<lparr>dec_decision := decision_of act, dec_decided_by := ''operator'',
     dec_decided_at := Some now\<rparr>) (decisions d)"
  by (simp_all add: review_decision_def record_training_label_def Let_def split: option.split)

lemma reviews_elsewhere: "elsewhere d (fold (review_decision now act) xs d)"
proof -
  have "operations (fold (review_decision now act) xs d) = operations d \<and> operation_seq (fold (review_decision now act) xs d) = operation_seq d \<and>
    operation_series (fold (review_decision now act) xs d) = operation_series d \<and> series_rows (fold (review_decision now act) xs d) = series_rows d"
    by (induction xs arbitrary: d) (simp_all add: review_fields)
  then show ?thesis by (auto simp: elsewhere_def intro!: exI [of _ "\<lambda>_. True"])
qed

lemma reviews_pending:
  "y \<in> set (decisions (fold (review_decision now act) xs d)) \<Longrightarrow> dec_decision y = DecPending \<Longrightarrow>
   y \<in> set (decisions d) \<and> dec_id y \<notin> dec_id ` set xs"
proof (induction xs arbitrary: d)
  case (Cons x xs)
  have "y \<in> set (decisions (review_decision now act x d)) \<and> dec_id y \<notin> dec_id ` set xs"
    using Cons.IH Cons.prems by simp
  then show ?case using Cons.prems(2)
    by (auto simp: review_fields set_put_row decision_of_def split: if_splits match_action.splits)
qed simp

lemma labels_frame:
  "ops_frame d (fold (\<lambda>(l, r). record_training_label (srs_id l) (srs_id r) v og x) ps d)"
  by (rule ops_frame_fold) (auto simp: label_frame split: prod.split)

lemma guard_Inr: "(if c then Inl e else x) = Inr y \<Longrightarrow> x = Inr y"
  by (simp split: if_splits)

lemma bind_final: "bind_result x (\<lambda>y. Inr (g y)) = Inr z \<Longrightarrow> \<exists>y. x = Inr y \<and> z = g y"
  by (auto simp: bind_result_eq_Inr)

lemma bind_second: "bind_result x (\<lambda>(_, e). Inr e) = Inr z \<Longrightarrow> \<exists>t. x = Inr (t, z)"
  by (auto simp: bind_result_eq_Inr)

text \<open>A successful second transaction: reviews, then labels and the merge, then the end.\<close>

lemma apply_cases:
  assumes "apply_operation mv now i d = Inr d'"
  obtains p pending d1 d3 where "get_row op_id i (operations d) = Some p"
    "pending = filter (\<lambda>x. dec_id x \<in> set (op_decision_ids p) \<and> dec_decision x = DecPending) (decisions d) \<or> op_decision_ids p = []"
    "d1 = fold (review_decision now (op_action p)) pending d" "ops_frame d1 d3" "d' = ends i (succeeded_row now p) d3"
proof -
  obtain p where p: "get_row op_id i (operations d) = Some p" using assms by (auto simp: apply_operation_def split: option.splits)
  let ?ids = "if op_decision_ids p = [] then [-1] else op_decision_ids p"
  let ?pending = "filter (\<lambda>x. dec_id x \<in> set ?ids \<and> dec_decision x = DecPending) (decisions d)"
  let ?d1 = "fold (review_decision now (op_action p)) ?pending d"
  let ?d2 = "if op_action p = ActAccepted \<and> op_decision_ids p = []
     then fold (\<lambda>(l, r). record_training_label (srs_id l) (srs_id r) 1 ''manual_merge'' None) (manual_pairs (op_series_ids p) ?d1) ?d1
     else ?d1"
  have d2: "ops_frame ?d1 ?d2" by (simp add: labels_frame)
  have "bind_result (if op_action p = ActAccepted
        then bind_result (merge_canonical_series mv now (op_series_ids p) ?d2) (\<lambda>(_, d3). Inr d3) else Inr ?d2)
      (\<lambda>d3. Inr (ends i (succeeded_row now p) d3)) = Inr d'"
    by (rule guard_Inr [OF assms [unfolded apply_operation_def p option.case Let_def, folded ends_def]])
  from bind_final [OF this] obtain d3 where d3: "(if op_action p = ActAccepted
        then bind_result (merge_canonical_series mv now (op_series_ids p) ?d2) (\<lambda>(_, d3). Inr d3) else Inr ?d2) = Inr d3"
    and d': "d' = ends i (succeeded_row now p) d3" by (elim exE conjE) (rule that)
  have "d3 = ?d2 \<or> (\<exists>t. merge_canonical_series mv now (op_series_ids p) ?d2 = Inr (t, d3))"
  proof (cases "op_action p = ActAccepted")
    case True
    show ?thesis by (rule disjI2 [OF bind_second [OF d3 [unfolded if_P [OF True]]]])
  next
    case False
    show ?thesis by (rule disjI1 [OF sym [OF Inr_inject [OF d3 [unfolded if_not_P [OF False]]]]])
  qed
  then have "ops_frame ?d2 d3" using ops_frame_merge ops_frame_refl by blast
  then have "ops_frame ?d1 d3" using d2 ops_frame_trans by blast
  then show ?thesis using that [OF p _ refl _ d', of ?pending] by (cases "op_decision_ids p = []") simp_all
qed

lemma apply_ok:
  assumes ok: "ops_ok d" and run: "apply_operation mv now i d = Inr d'"
  shows "ops_ok d' \<and> (\<exists>q. get_row op_id i (operations d') = Some q \<and> op_status q = OpSucceeded) \<and>
    (\<forall>m \<in> set (operation_series d'). mos_operation_id m \<noteq> i)"
proof -
  obtain p xs d1 d3 where p: "get_row op_id i (operations d) = Some p" and d1: "d1 = fold (review_decision now (op_action p)) xs d"
    and d3: "ops_frame d1 d3" and d': "d' = ends i (succeeded_row now p) d3"
    using apply_cases [OF run] by metis
  have ok3: "ops_ok d3" using ok elsewhere_ok reviews_elsewhere frame_elsewhere d3 d1 by metis
  have mem: "p \<in> set (operations d3)" "op_id p = i"
    using get_row_SomeD [OF p] reviews_elsewhere d3 by (auto simp: d1 elsewhere_def ops_frame_def)
  have s: "op_id (succeeded_row now p) = i" "\<not> active_operation (succeeded_row now p)" "op_status (succeeded_row now p) = OpSucceeded"
    using mem(2) by (simp_all add: succeeded_row_def active_operation_def)
  show ?thesis unfolding d'
    using end_ok [OF ok3 mem s(1,2)] end_facts [OF ops_okD(1) [OF ok3] mem s(1)] s(3) by simp
qed

subsection \<open>The machine\<close>

text \<open>The transactions of match operations in any order: submissions, the three transactions of
  the handlers of any number of workers, the recovery of stranded operations and whatever the
  other components do.\<close>

inductive match_step :: "validator \<Rightarrow> db \<Rightarrow> db \<Rightarrow> bool" for mv where
  Submit: "enqueue_match_operation mv now a d = Inr (p, b, d') \<Longrightarrow> match_step mv d d'"
| Begin: "begin_operation now i d = (out, d') \<Longrightarrow> match_step mv d d'"
| Apply: "apply_operation mv now i d = Inr d' \<Longrightarrow> match_step mv d d'"
| Fail: "match_step mv d (fail_operation now i code msg d)"
| Reconcile: "reconcile_stranded_match_operations now d = (n, d') \<Longrightarrow> match_step mv d d'"
| Elsewhere: "elsewhere d d' \<Longrightarrow> match_step mv d d'"

lemma reconcile_loop:
  assumes "ops_ok d" "op_id ` set rows \<subseteq> op_id ` set (operations d)"
  shows "ops_ok (fold (fail_stranded now) rows d)"
  using assms
proof (induction rows arbitrary: d)
  case (Cons p rows)
  then obtain r where "r \<in> set (operations d)" "op_id r = op_id p" by auto
  then have "ops_ok (fail_stranded now p d)" unfolding fail_ends by (rule end_ok [OF Cons.prems(1)]) simp_all
  moreover have "op_id ` set (operations (fail_stranded now p d)) = op_id ` set (operations d)"
    by (simp add: fail_ends ends_def release_series_def put_operation_def image_put_row)
  ultimately show ?case using Cons.IH Cons.prems(2) by simp
qed simp

lemma match_step_ok:
  assumes "ops_ok d" "match_step mv d d'"
  shows "ops_ok d'"
  using assms(2)
proof cases
  case (Reconcile now n)
  then show ?thesis
    using reconcile_loop [OF assms(1), of "filter (stranded d) (operations d)" now]
    by (auto simp: reconcile_stranded_match_operations_def Let_def)
next
  case (Begin now i out)
  then show ?thesis using begin_ok [OF assms(1), of now i] by simp
next
  case (Fail now i code msg)
  then show ?thesis using fail_ok [OF assms(1)] by simp
next
  case (Submit now a p b)
  then show ?thesis by (rule submit_ok [OF assms(1)])
next
  case (Apply now i)
  then show ?thesis using apply_ok [OF assms(1)] by blast
next
  case Elsewhere
  then show ?thesis by (rule elsewhere_ok [OF assms(1)])
qed

definition no_operations :: "db \<Rightarrow> bool" where
  "no_operations d = (operations d = [] \<and> operation_series d = [])"

interpretation matching: invariant_machine no_operations "match_step mv" ops_ok for mv
proof
  show "ops_ok d" if "no_operations d" for d using that by (simp add: ops_ok_def no_operations_def)
qed (rule match_step_ok)

text \<open>C28. Whatever the workers, the recovery and the operators do, and in whichever order: every
  reserved series is reserved once, by an operation that is queued or running and lists it; and no
  two operations that are queued or running share a series that still exists.\<close>

theorem operations_exclusive:
  assumes "no_operations d0" "(match_step mv)\<^sup>*\<^sup>* d0 d"
  shows "distinct (map mos_series_id (operation_series d)) \<and>
    (\<forall>m \<in> set (operation_series d). \<exists>p \<in> set (operations d).
       op_id p = mos_operation_id m \<and> active_operation p \<and> mos_series_id m \<in> set (op_series_ids p)) \<and>
    (\<forall>p \<in> set (operations d). \<forall>q \<in> set (operations d). \<forall>s \<in> known_series d.
       active_operation p \<and> active_operation q \<and> s \<in> set (op_series_ids p) \<and> s \<in> set (op_series_ids q) \<longrightarrow> p = q)"
proof -
  note D = ops_okD [OF matching.reachable_inv [OF assms]]
  have "p = q" if "p \<in> set (operations d)" "q \<in> set (operations d)" "s \<in> known_series d" "active_operation p" "active_operation q"
      "s \<in> set (op_series_ids p)" "s \<in> set (op_series_ids q)" for p q s
  proof -
    have "inj_on mos_series_id (set (operation_series d))" using D(3) by (simp add: distinct_map)
    from inj_onD [OF this _ D(5) [OF that(1,6,3,4)] D(5) [OF that(2,7,3,5)]]
    have "op_id p = op_id q" by simp
    then show "p = q" using D(1) that(1,2) by (auto simp: distinct_map inj_on_def)
  qed
  then show ?thesis using D(3,4) unfolding reserves_def by blast
qed

subsection \<open>Executing and recovering\<close>

text \<open>C29. Running the handler of an operation to its end settles it, whatever the merge does: it has
  then succeeded or failed, the handler reports success exactly when it succeeded, and none of its
  reservations is left.\<close>

theorem execute_settles:
  assumes "ops_ok d" "get_row op_id i (operations d) = Some p" "execute_operation mv describe now i d = (out, d')"
  shows "\<exists>q. get_row op_id i (operations d') = Some q \<and> \<not> active_operation q \<and>
    (out = HandlerDone \<longleftrightarrow> op_status q = OpSucceeded) \<and> (\<forall>m \<in> set (operation_series d'). mos_operation_id m \<noteq> i)"
proof (cases "active_operation p")
  case False
  have "mos_operation_id m \<noteq> i" if m: "m \<in> set (operation_series d)" for m
  proof
    assume "mos_operation_id m = i"
    then obtain r where "r \<in> set (operations d)" "op_id r = i" "active_operation r"
      using ops_okD(4) [OF assms(1) m] by (auto simp: reserves_def)
    then have "get_row op_id i (operations d) = Some r" using get_row_distinct ops_okD(1) [OF assms(1)] by fastforce
    then show False using assms(2) False \<open>active_operation r\<close> by simp
  qed
  moreover have "op_status p = OpSucceeded \<or> op_status p = OpFailed" using False by (cases "op_status p") (simp_all add: active_operation_def)
  ultimately show ?thesis using assms(2,3) False by (auto simp: execute_operation_def begin_operation_def)
next
  case True
  let ?d1 = "put_operation (p\<lparr>op_status := OpRunning, op_updated_at := now\<rparr>) d"
  have b: "begin_operation now i d = (None, ?d1)" using assms(2) True by (auto simp: begin_operation_def active_operation_def)
  have ok: "ops_ok ?d1" using begin_ok [OF assms(1), of now i] by (simp add: b)
  show ?thesis
  proof (cases "apply_operation mv now i ?d1")
    case (Inr d2)
    then show ?thesis using apply_ok [OF ok Inr] assms(3) by (auto simp: execute_operation_def b active_operation_def)
  next
    case (Inl e)
    obtain code msg where ft: "failure_text describe e = (code, msg)" by (cases "failure_text describe e")
    let ?p = "p\<lparr>op_status := OpRunning, op_updated_at := now\<rparr>"
    let ?q = "failed_row now code (take 4000 msg) ?p"
    have p: "p \<in> set (operations d)" "op_id p = i" using get_row_SomeD [OF assms(2)] by auto
    then have mem: "?p \<in> set (operations ?d1)" using in_put_operation [OF ops_okD(1) [OF assms(1)], of p ?p ?p] by (simp add: put_operation_def)
    then have "get_row op_id i (operations ?d1) = Some ?p" using get_row_distinct [OF ops_okD(1) [OF ok], of ?p] p(2) by simp
    then have d': "d' = ends i ?q ?d1" "out = Permanent code msg"
      using assms(3) by (simp_all add: execute_operation_def b Inl ft fail_operation_def ends_def)
    show ?thesis unfolding d' using end_facts [OF ops_okD(1) [OF ok] mem, of i ?q] p(2) by (simp add: failed_row_def active_operation_def)
  qed
qed

lemma operations_fold_put:
  assumes "\<And>p. key (F p) = key p" "distinct (map key rows)"
  shows "fold (\<lambda>p. put_row key (F p)) rows xs = map (\<lambda>x. case get_row key (key x) rows of None \<Rightarrow> x | Some p \<Rightarrow> F p) xs"
  using assms(2)
proof (induction rows arbitrary: xs)
  case (Cons p rows)
  from Cons.prems have "get_row key (key p) rows = None" unfolding get_row_None_iff by (metis distinct.simps(2) image_eqI list.simps(9) set_map)
  then show ?case using Cons by (auto simp: put_row_def get_row_Cons assms(1))
qed simp

lemma get_row_filter_distinct:
  "distinct (map key xs) \<Longrightarrow> x \<in> set xs \<Longrightarrow> get_row key (key x) (filter P xs) = (if P x then Some x else None)"
  using get_row_distinct [of key "filter P xs" x] by (auto simp: distinct_map_filter get_row_None_iff distinct_map inj_on_def)

text \<open>The recovery fails exactly the queued and running operations whose job is gone or finished
  and frees their series, and leaves the others as they are; afterwards every queued or running
  operation has a job that can still run.\<close>

theorem reconcile_stranded_spec:
  assumes "ops_ok d" "reconcile_stranded_match_operations now d = (n, d')"
  shows "operations d' = map (\<lambda>p. if stranded d p then failed_row now ''match_worker_interrupted'' interrupted_message p else p) (operations d) \<and>
    operation_series d' = filter (\<lambda>m. mos_operation_id m \<notin> op_id ` {p \<in> set (operations d). stranded d p}) (operation_series d) \<and>
    (\<forall>p \<in> set (operations d'). active_operation p \<longrightarrow> (\<exists>j \<in> set (jobs d'). op_job_id p = Some (job_id j) \<and> is_active j))"
proof -
  let ?rows = "filter (stranded d) (operations d)"
  let ?F = "failed_row now ''match_worker_interrupted'' interrupted_message"
  have d': "d' = fold (fail_stranded now) ?rows d" using assms(2) by (simp add: reconcile_stranded_match_operations_def Let_def)
  have f: "operations (fold (fail_stranded now) rows e) = fold (\<lambda>p. put_row op_id (?F p)) rows (operations e)"
    "operation_series (fold (fail_stranded now) rows e) = filter (\<lambda>m. mos_operation_id m \<notin> op_id ` set rows) (operation_series e)"
    "jobs (fold (fail_stranded now) rows e) = jobs e" for rows e
    by (induction rows arbitrary: e) (auto simp: fail_stranded_def release_series_def put_operation_def intro!: filter_cong)
  have ops: "operations d' = map (\<lambda>p. if stranded d p then ?F p else p) (operations d)"
    unfolding d' f using ops_okD(1) [OF assms(1)]
    by (subst operations_fold_put) (auto simp: distinct_map_filter get_row_filter_distinct)
  moreover have "\<exists>j \<in> set (jobs d'). op_job_id p = Some (job_id j) \<and> is_active j"
    if p: "p \<in> set (operations d')" and a: "active_operation p" for p
  proof -
    have "\<not> stranded d p" using p a by (auto simp: ops split: if_splits)
    then show ?thesis using a by (auto simp: stranded_def d' f split: option.splits dest: get_row_SomeD)
  qed
  moreover have "operation_series d' = filter (\<lambda>m. mos_operation_id m \<notin> op_id ` {p \<in> set (operations d). stranded d p}) (operation_series d)"
    unfolding d' f by simp
  ultimately show ?thesis by blast
qed

subsection \<open>Submitting twice and applying twice\<close>

lemma sort_key_snoc: "(\<And>x. x \<in> set xs \<Longrightarrow> f p < f x) \<Longrightarrow> sort_key f (xs @ [p]) = p # sort_key f xs"
proof (induction xs)
  case (Cons x xs)
  have "\<not> f x \<le> f p" using Cons.prems [of x] by simp
  moreover have "sort_key f (xs @ [p]) = p # sort_key f xs" using Cons by simp
  ultimately show ?case by simp
qed simp

lemma sorted_set_idem [simp]: "sort (sorted_set xs) = sorted_set xs" "sorted_set (sorted_set xs) = sorted_set xs"
  by (simp_all add: sorted_set_def sorted_sort_id distinct_remdups_id)

text \<open>Submitting the same operation again, as a double click or a retried request does, finds the
  first submission and changes nothing.\<close>

theorem submit_twice:
  assumes "ops_ok d" "enqueue_match_operation mv now a d = Inr (p, b, d')"
  shows "enqueue_match_operation mv now' a d' = Inr (p, False, d')"
proof (cases b)
  case True
  then have new: "enqueue_match_operation mv now a d = Inr (p, True, d')" using assms(2) by simp
  obtain d2 d3 j c args where d2: "d2 = d\<lparr>operations := operations d @ [new_operation now (operation_seq d) a],
       operation_seq := operation_seq d + 1,
       operation_series := operation_series d @ map (\<lambda>s. \<lparr>mos_operation_id = operation_seq d, mos_series_id = s\<rparr>)
         (sorted_set (oa_series_ids a))\<rparr>"
    and q: "enqueue mv now args d2 = Inr (j, c, d3)"
    and p: "p = (new_operation now (operation_seq d) a)\<lparr>op_job_id := Some (job_id j), op_updated_at := now\<rparr>"
    and d': "d' = put_operation p d3"
    by (rule submit_new [OF new])
  have less: "op_id r < op_id p" if "r \<in> set (operations d)" for r
    using ops_okD(2) [OF assms(1) that] by (simp add: p new_operation_def)
  then have "put_row op_id p (operations d) = operations d" by (intro put_row_absent) force
  then have "operations d' = operations d @ [p]"
    using same_catalog_enqueue [OF q] by (simp add: same_catalog_def d' put_operation_def d2 put_row_def p new_operation_def)
  moreover have "active_operation p" by (simp add: p new_operation_def active_operation_def)
  moreover have "sort_key (\<lambda>r. - op_id r) (filter active_operation (operations d) @ [p]) =
      p # sort_key (\<lambda>r. - op_id r) (filter active_operation (operations d))"
    by (rule sort_key_snoc) (use less in simp)
  ultimately have "sort_key (\<lambda>r. - op_id r) (filter active_operation (operations d')) =
      p # sort_key (\<lambda>r. - op_id r) (filter active_operation (operations d))" by simp
  then have "find_equivalent_active_operation (oa_action a) (sorted_set (oa_decision_ids a)) (sorted_set (oa_series_ids a)) d' = Some p"
    by (simp add: find_equivalent_active_operation_def p new_operation_def)
  then show ?thesis by (simp add: enqueue_match_operation_def Let_def)
next
  case False
  then have "enqueue_match_operation mv now a d = Inr (p, False, d')" using assms(2) by simp
  moreover from this have "d' = d" by (rule submit_old)
  ultimately show ?thesis
    unfolding enqueue_match_operation_def Let_def
    by (auto simp: bind_result_eq_Inr split: option.splits if_splits)
qed

text \<open>Applying an operation with decisions a second time raises, and the failure is recorded.\<close>

lemma reapplied_fails:
  assumes "ops_ok d" "get_row op_id i (operations d) = Some p" "op_decision_ids p \<noteq> []" "apply_operation mv now i d = Inr d'"
  shows "apply_operation mv now' i d' = Inl (HTTPException 409 ''one or more match decisions were already reviewed'') \<and>
    map_option op_status (get_row op_id i (operations d')) = Some OpSucceeded \<and>
    map_option op_status (get_row op_id i (operations (fail_operation now' i code msg d'))) = Some OpFailed"
proof -
  let ?pending = "filter (\<lambda>x. dec_id x \<in> set (op_decision_ids p) \<and> dec_decision x = DecPending) (decisions d)"
  obtain d1 d3 where d1: "d1 = fold (review_decision now (op_action p)) ?pending d"
    and d3: "ops_frame d1 d3" and d': "d' = ends i (succeeded_row now p) d3"
    using apply_cases [OF assms(4)] assms(2,3) by (metis option.inject)
  have ok: "ops_ok d'" using apply_ok [OF assms(1,4)] by blast
  have ok3: "ops_ok d3" using assms(1) elsewhere_ok reviews_elsewhere frame_elsewhere d3 d1 by metis
  have p: "p \<in> set (operations d3)" "op_id p = i"
    using get_row_SomeD [OF assms(2)] reviews_elsewhere d3 by (auto simp: d1 elsewhere_def ops_frame_def)
  let ?q = "succeeded_row now p"
  have q: "get_row op_id i (operations d') = Some ?q"
    unfolding d' by (rule end_facts [OF ops_okD(1) [OF ok3] p]) (simp add: succeeded_row_def p)
  have none: "\<not> (dec_id y \<in> set (op_decision_ids p) \<and> dec_decision y = DecPending)" if y: "y \<in> set (decisions d')" for y
  proof
    assume pend: "dec_id y \<in> set (op_decision_ids p) \<and> dec_decision y = DecPending"
    have "y \<in> set (decisions d1)" using y d3 by (auto simp: d' ends_def release_series_def put_operation_def ops_frame_def)
    then have "y \<in> set (decisions d)" "dec_id y \<notin> dec_id ` set ?pending" using reviews_pending pend unfolding d1 by blast+
    then show False using pend by auto
  qed
  have "apply_operation mv now' i d' = Inl (HTTPException 409 ''one or more match decisions were already reviewed'')"
    using none assms(3) by (simp add: apply_operation_def q Let_def succeeded_row_def filter_False)
  moreover have "get_row op_id i (operations (ends i (failed_row now' code (take 4000 msg) ?q) d')) = Some (failed_row now' code (take 4000 msg) ?q)"
    using get_row_SomeD [OF q] by (intro end_facts [OF ops_okD(1) [OF ok]]) auto
  ultimately show ?thesis using q by (simp add: fail_operation_def ends_def [symmetric] succeeded_row_def failed_row_def)
qed

lemma begun:
  assumes "ops_ok d" "get_row op_id i (operations d) = Some p" "active_operation p"
  shows "fst (begin_operation now i d) = None \<and> (\<exists>q. get_row op_id i (operations (snd (begin_operation now i d))) = Some q \<and>
    active_operation q \<and> op_decision_ids q = op_decision_ids p)"
proof -
  have "op_status p \<noteq> OpSucceeded" "op_status p \<noteq> OpFailed" using assms(3) by (auto simp: active_operation_def)
  then show ?thesis
    using assms(2) get_row_SomeD [OF assms(2)]
    by (simp add: begin_operation_def put_operation_def get_put_row_same active_operation_def)
qed

text \<open>C30. An operation that reviews decisions can be begun by two workers, the second after the lease of the
  first has expired: nothing in the first transaction of the second worker stops it.  When one of them has then
  applied the operation, the other one finds its decisions reviewed: its second transaction raises, and its
  third one records the operation, which has succeeded, as failed.\<close>

theorem second_worker_records_failure:
  assumes "ops_ok d" "get_row op_id i (operations d) = Some p" "active_operation p" "op_decision_ids p \<noteq> []"
    "begin_operation t1 i d = (o1, d1)" "begin_operation t2 i d1 = (o2, d2)" "apply_operation mv t3 i d2 = Inr d3"
  shows "o1 = None \<and> o2 = None \<and>
    apply_operation mv t4 i d3 = Inl (HTTPException 409 ''one or more match decisions were already reviewed'') \<and>
    map_option op_status (get_row op_id i (operations d3)) = Some OpSucceeded \<and>
    map_option op_status (get_row op_id i (operations (fail_operation t4 i code msg d3))) = Some OpFailed"
proof -
  have ok: "ops_ok d1" "ops_ok d2"
    using begin_ok [OF assms(1), of t1 i] begin_ok [of d1 t2 i] assms(5,6) by simp_all
  obtain q where q: "o1 = None" "get_row op_id i (operations d1) = Some q" "active_operation q" "op_decision_ids q = op_decision_ids p"
    using begun [OF assms(1-3), of t1] assms(5) by auto
  obtain r where r: "o2 = None" "get_row op_id i (operations d2) = Some r" "op_decision_ids r = op_decision_ids q"
    using begun [OF ok(1) q(2,3), of t2] assms(6) by auto
  then show ?thesis using reapplied_fails [OF ok(2) r(2) _ assms(7)] q assms(4) by simp
qed

subsection \<open>An operation on two series\<close>

definition demo_decision :: catalog_match_decision where
  "demo_decision = \<lparr>dec_id = 7, dec_left = 1, dec_right = 2, dec_decision = DecPending, dec_confidence = 1, dec_evidence = fmempty,
     dec_scorer_version = [], dec_features = fmempty, dec_decided_by = [], dec_decided_at = None\<rparr>"

definition demo_request :: operation_args where
  "demo_request = \<lparr>oa_action = ActRejected, oa_representative_id = 1, oa_decision_ids = [7], oa_proposal_ids = [],
     oa_series_ids = [2, 1, 2], oa_priority = 70, oa_group_key = []\<rparr>"

definition demo_review :: db where
  "demo_review = demo_shelf\<lparr>decisions := [demo_decision]\<rparr>"

definition demo_submitted :: db where
  "demo_submitted = (case enqueue_match_operation strict_validate 5 demo_request demo_review of Inr (_, _, d) \<Rightarrow> d | Inl _ \<Rightarrow> demo_review)"

definition demo_operation :: match_operation where
  "demo_operation = (new_operation 5 1 demo_request)\<lparr>op_job_id := Some 1\<rparr>"

lemma demo_submit: "enqueue_match_operation strict_validate 5 demo_request demo_review = Inr (demo_operation, True, demo_submitted)"
proof -
  have "case enqueue_match_operation strict_validate 5 demo_request demo_review of Inr (p, b, _) \<Rightarrow> p = demo_operation \<and> b | Inl _ \<Rightarrow> False"
    by code_simp
  then show ?thesis by (auto simp: demo_submitted_def split: sum.splits)
qed

lemma demo_review_ok: "no_operations demo_review"
  by (simp add: no_operations_def demo_review_def demo_shelf_def empty_db_def)

lemma demo_submitted_ok: "ops_ok demo_submitted"
  by (rule submit_ok [OF matching.init_inv [OF demo_review_ok] demo_submit])

lemma demo_submitted_facts:
  "operations demo_submitted = [demo_operation]" "operation_series demo_submitted = [\<lparr>mos_operation_id = 1, mos_series_id = 1\<rparr>, \<lparr>mos_operation_id = 1, mos_series_id = 2\<rparr>]"
  by code_simp+

theorem operations_exclusive_witness:
  "\<exists>d p. (match_step strict_validate)\<^sup>*\<^sup>* demo_review d \<and> operations d = [p] \<and> active_operation p \<and>
     map mos_series_id (operation_series d) = [1, 2] \<and> distinct (map mos_series_id (operation_series d))"
proof -
  have run: "(match_step strict_validate)\<^sup>*\<^sup>* demo_review demo_submitted" using match_step.Submit [OF demo_submit] by blast
  have "active_operation demo_operation" by code_simp
  then show ?thesis using run operations_exclusive [OF demo_review_ok run] demo_submitted_facts by (intro exI [of _ demo_submitted]) simp
qed

theorem execute_settles_witness:
  "\<exists>out d' q. execute_operation strict_validate (\<lambda>_. []) 6 1 demo_submitted = (out, d') \<and>
     get_row op_id 1 (operations d') = Some q \<and> \<not> active_operation q"
proof -
  have "get_row op_id 1 (operations demo_submitted) = Some demo_operation"
    by (simp add: demo_submitted_facts get_row_Cons demo_operation_def new_operation_def)
  note E = execute_settles [OF demo_submitted_ok this]
  obtain out d' where r: "execute_operation strict_validate (\<lambda>_. []) 6 1 demo_submitted = (out, d')" by fastforce
  show ?thesis using E [OF r] r by blast
qed

lemma demo_stranded: "stranded (demo_submitted\<lparr>jobs := []\<rparr>) demo_operation"
  by code_simp

theorem reconcile_stranded_spec_witness:
  "\<exists>n d'. reconcile_stranded_match_operations 6 (demo_submitted\<lparr>jobs := []\<rparr>) = (n, d') \<and>
     map op_status (operations d') = [OpFailed] \<and> operation_series d' = []"
proof -
  let ?d = "demo_submitted\<lparr>jobs := []\<rparr>"
  have ok: "ops_ok ?d" using demo_submitted_ok by (simp add: ops_ok_def)
  obtain n d' where r: "reconcile_stranded_match_operations 6 ?d = (n, d')" by fastforce
  have "op_id demo_operation = 1" by (simp add: demo_operation_def new_operation_def)
  then show ?thesis using reconcile_stranded_spec [OF ok r] r demo_stranded
    by (intro exI [of _ n] exI [of _ d']) (simp add: demo_submitted_facts failed_row_def)
qed

theorem submit_twice_witness:
  "enqueue_match_operation strict_validate 9 demo_request demo_submitted = Inr (demo_operation, False, demo_submitted)"
  by (rule submit_twice [OF matching.init_inv [OF demo_review_ok] demo_submit])

definition demo_begun :: db where
  "demo_begun = snd (begin_operation 5 1 (snd (begin_operation 4 1 demo_submitted)))"

lemma demo_applies: "case apply_operation strict_validate 6 1 demo_begun of Inr _ \<Rightarrow> True | Inl _ \<Rightarrow> False"
  by code_simp

theorem second_worker_records_failure_witness:
  "\<exists>d'. apply_operation strict_validate 6 1 demo_begun = Inr d' \<and>
     map_option op_status (get_row op_id 1 (operations d')) = Some OpSucceeded \<and>
     map_option op_status (get_row op_id 1 (operations (fail_operation 7 1 [] [] d'))) = Some OpFailed"
proof -
  have g: "get_row op_id 1 (operations demo_submitted) = Some demo_operation" "active_operation demo_operation"
    "op_decision_ids demo_operation \<noteq> []"
    by (simp_all add: demo_submitted_facts get_row_Cons demo_operation_def new_operation_def demo_request_def sorted_set_def
        active_operation_def)
  obtain d' where r: "apply_operation strict_validate 6 1 demo_begun = Inr d'" using demo_applies by (auto split: sum.splits)
  show ?thesis
    using second_worker_records_failure [OF demo_submitted_ok g prod.collapse [symmetric] prod.collapse [symmetric] r [unfolded demo_begun_def]] r
    by blast
qed

end
