(* ===== verification/Queue_Planners.thy ===== *)
theory Queue_Planners
  imports Series_Merge
begin

text \<open>
  Planners that keep the background queue filled but bounded: \<^verbatim>\<open>match_rescore.py\<close>, the
  planners of \<^verbatim>\<open>cover_backfill.py\<close> and \<^verbatim>\<open>kavita_sync.py\<close>, the choice of covers
  in \<^verbatim>\<open>cover_evidence.py\<close>, and \<^verbatim>\<open>refresh_queue_reconcile.py\<close>.
\<close>

subsection \<open>Loops that stop after enough new jobs\<close>

text \<open>The body gives \<open>None\<close> for \<open>continue\<close> and otherwise whether a job was created; the loop
  breaks when \<open>capacity\<close> jobs have been created.\<close>

fun until_created :: "('a \<Rightarrow> db \<Rightarrow> (bool option \<times> db) result) \<Rightarrow> int \<Rightarrow> 'a list \<Rightarrow> int \<times> db \<Rightarrow> (int \<times> db) result" where
  "until_created f capacity [] st = Inr st"
| "until_created f capacity (x # xs) st =
     bind_result (f x (snd st)) (\<lambda>(c, d).
       case c of
         None \<Rightarrow> until_created f capacity xs (fst st, d)
       | Some b \<Rightarrow>
           (let n = (if b then fst st + 1 else fst st)
            in if capacity \<le> n then Inr (n, d) else until_created f capacity xs (n, d)))"

subsection \<open>Rescoring matches\<close>

definition SCORER_VERSION :: string where
  "SCORER_VERSION = ''cover-primary-v3''"

definition rescore_job :: "work_job \<Rightarrow> bool" where
  "rescore_job j = (job_kind_of j = MAINTENANCE \<and> job_pool j = ''maintenance'' \<and> is_active j \<and>
     dict_get (job_payload j) ''action'' = JStr ''rescore_matches'')"

text \<open>Leased jobs first, then by id.\<close>

definition rescore_candidates :: "db \<Rightarrow> work_job list" where
  "rescore_candidates d =
     (let rows = sort_key job_id (filter rescore_job (jobs d))
      in filter (\<lambda>j. job_status j = LEASED) rows @ filter (\<lambda>j. job_status j \<noteq> LEASED) rows)"

definition clear_series_key :: "work_job \<Rightarrow> db \<Rightarrow> db" where
  "clear_series_key j d = put_job (j\<lparr>job_series_key := []\<rparr>) d"

definition cancel_overflow :: "instant \<Rightarrow> work_job \<Rightarrow> int \<times> db \<Rightarrow> int \<times> db" where
  "cancel_overflow now j st =
     (if job_status j = LEASED then st
      else (let (b, d) = cancel now (job_id j) ''deferred by bounded match-rescore backlog'' (snd st)
            in (if b then fst st + 1 else fst st, d)))"

definition reconcile_rescores :: "instant \<Rightarrow> int \<Rightarrow> db \<Rightarrow> int \<times> db" where
  "reconcile_rescores now limit d =
     (let rows = rescore_candidates d; d1 = fold clear_series_key rows d
      in fold (cancel_overflow now) (drop (nat (max limit 0)) rows) (0, d1))"

definition needs_rescore :: "catalog_match_decision \<Rightarrow> bool" where
  "needs_rescore x = (dec_decision x = DecPending \<and> dict_get (dec_evidence x) ''scorer_version'' \<noteq> JStr SCORER_VERSION)"

definition stale_series :: "int \<Rightarrow> db \<Rightarrow> int list" where
  "stale_series capacity d =
     take (nat (max (capacity * 20) 100))
       (concat (map (\<lambda>x. map srs_series_id (filter (\<lambda>s. srs_id s = dec_left x) (source_series d)))
          (sort_key dec_id (filter needs_rescore (decisions d)))))"

definition rescore_args :: "int \<Rightarrow> payload_arg \<Rightarrow> enqueue_args" where
  "rescore_args series payload =
     (enqueue_defaults MAINTENANCE (''match-rescore:'' @ str_of_int series @ CHR '':'' # SCORER_VERSION) payload)
       \<lparr>eq_priority := 310, eq_pool := ''maintenance'', eq_group_key := ''match-rescore''\<rparr>"

definition enqueue_rescore :: "validator \<Rightarrow> instant \<Rightarrow> int \<Rightarrow> db \<Rightarrow> (bool option \<times> db) result" where
  "enqueue_rescore model_validate now series d =
     bind_result (build_payload (MaintenancePayload
         \<lparr>mt_version = 1, mt_action = ''rescore_matches'', mt_series_id = series\<rparr>)) (\<lambda>payload.
     bind_result (enqueue model_validate now (rescore_args series payload) d) (\<lambda>(_, b, d1). Inr (Some b, d1)))"

definition enqueue_rescores :: "validator \<Rightarrow> instant \<Rightarrow> int \<Rightarrow> db \<Rightarrow> (int \<times> db) result" where
  "enqueue_rescores model_validate now limit d =
     (if has_runnable_or_leased_downloads now None d then Inr (0, d)
      else
        (let capacity = max (limit - int (length (filter rescore_job (jobs d)))) 0 in
         if capacity = 0 then Inr (0, d)
         else until_created (enqueue_rescore model_validate now) capacity (fromkeys (stale_series capacity d)) (0, d)))"

subsection \<open>Choosing covers\<close>

definition COVER_ALGORITHM :: string where
  "COVER_ALGORITHM = ''orb-normalized-multihash-v2''"

record cover_choice =
  cc_series_id :: int
  cc_source_series_id :: int
  cc_source :: string
  cc_source_url :: string
  cc_checksum :: string
  cc_relative_path :: string
  cc_width :: int
  cc_height :: int

definition cover_quality_key :: "cover_choice \<Rightarrow> int \<times> int \<times> int \<times> int \<times> int" where
  "cover_quality_key c =
     (let w = max (cc_width c) 0; h = max (cc_height c) 0
      in (w * h, min w h, max w h, provider_priority (cc_source c), - cc_source_series_id c))"

text \<open>The join of the identities of one series with their cover assets, best choice first:
  \<open>sort(reverse=True)\<close> keeps the order of equal keys.\<close>

definition cover_choices :: "int \<Rightarrow> db \<Rightarrow> cover_choice list" where
  "cover_choices series d =
     concat (map (\<lambda>s. map (\<lambda>a. \<lparr>cc_series_id = series, cc_source_series_id = srs_id s, cc_source = srs_source s,
           cc_source_url = str_or (cas_source_url a) (srs_cover_url s), cc_checksum = cas_content_checksum a,
           cc_relative_path = cas_relative_path a, cc_width = cas_width a, cc_height = cas_height a\<rparr>)
         (filter (\<lambda>a. cas_source_series_id a = srs_id s) (cover_assets (library d))))
       (filter (\<lambda>s. srs_series_id s = series) (source_series d)))"

definition ranked_cover_choices :: "int \<Rightarrow> db \<Rightarrow> cover_choice list" where
  "ranked_cover_choices series d = rev (sort_key cover_quality_key (rev (cover_choices series d)))"

definition best_cover_choice :: "int \<Rightarrow> db \<Rightarrow> cover_choice option" where
  "best_cover_choice series d = (case ranked_cover_choices series d of [] \<Rightarrow> None | c # _ \<Rightarrow> Some c)"

definition cover_current :: "cover_choice \<Rightarrow> catalog_series \<Rightarrow> bool" where
  "cover_current c s = (ser_cover_checksum s = cc_checksum c \<and> ser_cover_relative_path s = cc_relative_path c \<and>
     (cc_source_url c = [] \<or> ser_cover_url s = cc_source_url c))"

definition choose_cover :: "instant \<Rightarrow> int \<Rightarrow> db \<Rightarrow> (bool option \<times> db) result" where
  "choose_cover now series d =
     (case (best_cover_choice series d, get_row ser_id series (series_rows d)) of
        (Some c, Some s) \<Rightarrow>
          if cover_current c s then Inr (None, d)
          else Inr (Some True, d\<lparr>series_rows := put_row ser_id (s\<lparr>ser_cover_checksum := cc_checksum c,
                 ser_cover_relative_path := cc_relative_path c, ser_cover_url := str_or (cc_source_url c) (ser_cover_url s),
                 ser_updated_at := now\<rparr>) (series_rows d)\<rparr>)
      | _ \<Rightarrow> Inr (None, d))"

text \<open>All series with an identity, in order, until \<open>limit\<close> of them have changed.\<close>

definition reconcile_canonical_cover_choices :: "instant \<Rightarrow> int \<Rightarrow> db \<Rightarrow> (int \<times> db) result" where
  "reconcile_canonical_cover_choices now limit d =
     until_created (choose_cover now) limit (sort (remdups (map srs_series_id (source_series d)))) (0, d)"

subsection \<open>Cover backfill\<close>

definition needs_cover :: "db \<Rightarrow> catalog_source_series \<Rightarrow> bool" where
  "needs_cover d s = (srs_cover_url s \<noteq> [] \<and>
     (case get_row csg_source_series_id (srs_id s) (cover_signatures (library d)) of
        None \<Rightarrow> True
      | Some g \<Rightarrow> csg_algorithm_version g \<noteq> COVER_ALGORITHM \<or> csg_hash_band_0 g = []))"

definition pending_covers :: "int \<Rightarrow> db \<Rightarrow> catalog_source_series list" where
  "pending_covers limit d =
     take (nat (max (limit * 20) 100))
       (sort_key (\<lambda>s. (- srs_last_checked_at s, srs_id s)) (filter (needs_cover d) (source_series d)))"

text \<open>\<open>sha1_hex\<close> is \<open>hashlib.sha1(...).hexdigest()\<close>.\<close>

definition cover_key :: "(string \<Rightarrow> string) \<Rightarrow> catalog_source_series \<Rightarrow> db \<Rightarrow> string" where
  "cover_key sha1_hex s d =
     (let revision_input =
            (case get_row csg_source_series_id (srs_id s) (cover_signatures (library d)) of
               None \<Rightarrow> srs_cover_url s
             | Some _ \<Rightarrow> COVER_ALGORITHM @ CHR '':'' # srs_cover_url s)
      in ''cover:'' @ str_of_int (srs_id s) @ CHR '':'' # take 12 (sha1_hex revision_input))"

definition cover_args :: "string \<Rightarrow> catalog_source_series \<Rightarrow> payload_arg \<Rightarrow> enqueue_args" where
  "cover_args key s payload =
     (enqueue_defaults COVER_BACKFILL key payload)\<lparr>eq_priority := 300, eq_source := srs_source s, eq_group_key := ''cover-backfill''\<rparr>"

definition cover_exhausted :: "string \<Rightarrow> db \<Rightarrow> bool" where
  "cover_exhausted key d =
     list_ex (\<lambda>j. job_kind_of j = COVER_BACKFILL \<and> job_dedupe_key j = key \<and> job_status j = FAILED) (jobs d)"

definition enqueue_cover ::
  "validator \<Rightarrow> (string \<Rightarrow> string) \<Rightarrow> instant \<Rightarrow> catalog_source_series \<Rightarrow> db \<Rightarrow> (bool option \<times> db) result" where
  "enqueue_cover model_validate sha1_hex now s d =
     (let key = cover_key sha1_hex s d in
      if cover_exhausted key d then Inr (None, d)
      else
        bind_result (build_payload (CoverBackfillPayload \<lparr>cb_version = 1, cb_source_series_id = srs_id s\<rparr>)) (\<lambda>payload.
        bind_result (enqueue model_validate now (cover_args key s payload) d) (\<lambda>(_, b, d1). Inr (Some b, d1))))"

definition enqueue_covers ::
  "validator \<Rightarrow> (string \<Rightarrow> string) \<Rightarrow> instant \<Rightarrow> int \<Rightarrow> int \<Rightarrow> db \<Rightarrow> (int \<times> db) result" where
  "enqueue_covers model_validate sha1_hex now limit chapter_threshold d =
     bind_result (reconcile_canonical_cover_choices now 250 d) (\<lambda>(_, d1).
       if 0 < chapter_threshold \<and> has_runnable_or_leased_downloads now None d1 then Inr (0, d1)
       else until_created (enqueue_cover model_validate sha1_hex now) limit (pending_covers limit d1) (0, d1))"

subsection \<open>Synchronising with Kavita\<close>

definition kavita_due :: "instant \<Rightarrow> duration option \<Rightarrow> db \<Rightarrow> catalog_series \<Rightarrow> bool" where
  "kavita_due now refresh_after d s =
     (ser_status s \<in> set TRACKED \<and>
      list_ex (\<lambda>p. list_ex (\<lambda>c. ch_id c = kp_chapter_id p \<and> ch_series_id c = ser_id s) (chapters d)) (kavita_projections (library d)) \<and>
      (ser_kavita_series_id s = None \<or>
       (case ser_kavita_synced_at s of
          None \<Rightarrow> True
        | Some t \<Rightarrow> t < ser_updated_at s \<or> (case refresh_after of None \<Rightarrow> False | Some r \<Rightarrow> t < now - r))))"

definition kavita_rows :: "instant \<Rightarrow> int \<Rightarrow> duration option \<Rightarrow> db \<Rightarrow> catalog_series list" where
  "kavita_rows now limit refresh_after d =
     take (nat limit) (sort_key (\<lambda>s. (case ser_kavita_synced_at s of None \<Rightarrow> (0 :: int, 0) | Some t \<Rightarrow> (1, t), ser_id s))
       (filter (kavita_due now refresh_after d) (series_rows d)))"

definition wake_unconfigured :: "instant \<Rightarrow> work_job \<Rightarrow> bool \<Rightarrow> db \<Rightarrow> bool \<times> db" where
  "wake_unconfigured now j created d =
     (if \<not> created \<and> job_status j = RETRY_WAIT \<and> job_error_code j = ''kavita_unconfigured''
      then (True, put_job (j\<lparr>job_available_at := now, job_error_code := [], job_error_message := [], job_updated_at := now\<rparr>) d)
      else (created, d))"

definition kavita_payload :: "int \<Rightarrow> int list \<Rightarrow> job_payload" where
  "kavita_payload series ids = KavitaSyncPayload \<lparr>ks_version = 1, ks_series_id = series, ks_series_ids = ids, ks_folder_path = [],
     ks_reading_status = NoStatus\<rparr>"

definition enqueue_kavita ::
  "validator \<Rightarrow> instant \<Rightarrow> string \<Rightarrow> job_payload \<Rightarrow> int \<Rightarrow> bool \<Rightarrow> db \<Rightarrow> (bool \<times> db) result" where
  "enqueue_kavita model_validate now key p units coalesce d =
     bind_result (build_payload p) (\<lambda>payload.
     bind_result (enqueue model_validate now ((enqueue_defaults KAVITA_SYNC key payload)
         \<lparr>eq_priority := 70, eq_logical_units := units, eq_coalesce := coalesce\<rparr>) d) (\<lambda>(j, b, d1).
       Inr (wake_unconfigured now j b d1)))"

definition enqueue_kavita_series :: "validator \<Rightarrow> instant \<Rightarrow> catalog_series \<Rightarrow> int \<times> db \<Rightarrow> (int \<times> db) result" where
  "enqueue_kavita_series model_validate now s st =
     bind_result (enqueue_kavita model_validate now (''series:'' @ str_of_int (ser_id s)) (kavita_payload (ser_id s) []) 1 False (snd st))
       (\<lambda>(b, d1). Inr (if b then fst st + 1 else fst st, d1))"

definition enqueue_kavita_pending ::
  "validator \<Rightarrow> instant \<Rightarrow> int \<Rightarrow> duration option \<Rightarrow> bool \<Rightarrow> db \<Rightarrow> ((int \<times> int) \<times> db) result" where
  "enqueue_kavita_pending model_validate now limit refresh_after batch d =
     (if list_ex (\<lambda>j. job_kind_of j = CHAPTER_DOWNLOAD \<and> is_active j) (jobs d) then Inr ((0, 0), d)
      else
        (let rows = kavita_rows now limit refresh_after d; n = int (length rows) in
         if batch \<and> rows \<noteq> []
         then bind_result (enqueue_kavita model_validate now ''periodic-refresh'' (kavita_payload 0 (map ser_id rows)) n True d)
                (\<lambda>(b, d1). Inr ((n, if b then 1 else 0), d1))
         else bind_result (fold_result (enqueue_kavita_series model_validate now) rows (0, d))
                (\<lambda>(m, d1). Inr ((n, m), d1))))"

subsection \<open>Repairing refresh payloads\<close>

definition COMPATIBLE_REFRESH_VERSIONS :: "int list" where
  "COMPATIBLE_REFRESH_VERSIONS = [1, 2, 3]"

definition refresh_fields :: "string list" where
  "refresh_fields = [''version'', ''source'', ''source_id'', ''title'', ''url'', ''aliases'', ''description'', ''cover_url'',
     ''genres'', ''popularity'', ''external_ids'', ''metadata'', ''workflow_key'', ''observation_version'', ''acquisition_critical'']"

definition normalize_refresh :: "validator \<Rightarrow> jdict \<Rightarrow> jdict result" where
  "normalize_refresh model_validate raw =
     (case model_validate SOURCE_REFRESH (fmupd ''version'' (JInt 3) (fmfilter (\<lambda>k. k \<in> set refresh_fields) raw)) of
        Some p \<Rightarrow> Inr (model_dump p)
      | None \<Rightarrow> Inl ValidationError)"

datatype refresh_action = RefreshBlocked | RefreshDeferRebuild | RefreshRebuild | RefreshRegroup | RefreshUpgrade | RefreshPreserve

record refresh_queue_record =
  rq_job_id :: int
  rq_source :: string
  rq_source_id :: string
  rq_payload_version :: int
  rq_action :: refresh_action

text \<open>\<open>int(payload.get("version") or 1)\<close>, with 0 for what \<open>int\<close> refuses.\<close>

definition refresh_version :: "jdict \<Rightarrow> int" where
  "refresh_version payload =
     (let v = dict_get payload ''version'' in
      if truthy v then (case int_or_zero v of Inr n \<Rightarrow> n | Inl _ \<Rightarrow> 0) else 1)"

definition refresh_action_of :: "validator \<Rightarrow> work_job \<Rightarrow> refresh_action" where
  "refresh_action_of model_validate j =
     (let version = refresh_version (job_payload j) in
      case normalize_refresh model_validate (job_payload j) of
        Inl _ \<Rightarrow> RefreshBlocked
      | Inr _ \<Rightarrow>
          if version \<notin> set COMPATIBLE_REFRESH_VERSIONS
          then (if job_status j = LEASED then RefreshDeferRebuild else RefreshRebuild)
          else if job_workflow_key j = [] \<or> job_group_key j = [] then RefreshRegroup
          else if version < 3 then RefreshUpgrade
          else RefreshPreserve)"

text \<open>\<open>py_str\<close> is \<open>str\<close> on JSON values.\<close>

definition audit_row :: "validator \<Rightarrow> (json \<Rightarrow> string) \<Rightarrow> work_job \<Rightarrow> refresh_queue_record" where
  "audit_row model_validate py_str j =
     (let v = dict_get (job_payload j) ''source_id'' in
      \<lparr>rq_job_id = job_id j, rq_source = job_source j, rq_source_id = (if truthy v then py_str v else []),
       rq_payload_version = refresh_version (job_payload j), rq_action = refresh_action_of model_validate j\<rparr>)"

definition audit_refreshes :: "validator \<Rightarrow> (json \<Rightarrow> string) \<Rightarrow> int list \<Rightarrow> db \<Rightarrow> refresh_queue_record list" where
  "audit_refreshes model_validate py_str locked d =
     map (audit_row model_validate py_str)
       (sort_key job_id (filter (\<lambda>j. job_kind_of j = SOURCE_REFRESH \<and> is_active j \<and> job_id j \<notin> set locked) (jobs d)))"

definition refresh_args :: "(json \<Rightarrow> string) \<Rightarrow> work_job \<Rightarrow> string \<Rightarrow> jdict \<Rightarrow> enqueue_args" where
  "refresh_args py_str j workflow normalized =
     (enqueue_defaults SOURCE_REFRESH
        (''refresh:'' @ job_source j @ CHR '':'' # py_str (dict_get normalized ''source_id'')) (Raw normalized))
       \<lparr>eq_priority := job_priority j, eq_max_attempts := job_max_attempts j, eq_source := job_source j,
        eq_workflow_key := workflow, eq_group_key := workflow, eq_coalesce := True\<rparr>"

definition apply_refresh_record ::
  "validator \<Rightarrow> (json \<Rightarrow> string) \<Rightarrow> instant \<Rightarrow> refresh_queue_record \<Rightarrow> db \<Rightarrow> db result" where
  "apply_refresh_record model_validate py_str now r d =
     (if rq_action r = RefreshPreserve \<or> rq_action r = RefreshBlocked then Inr d
      else case find_job (rq_job_id r) d of
             None \<Rightarrow> Inr d
           | Some j \<Rightarrow>
               if \<not> is_active j then Inr d
               else
                 bind_result (normalize_refresh model_validate (job_payload j)) (\<lambda>normalized.
                 let workflow = str_or (job_workflow_key j) (''pull:'' @ job_source j @ '':legacy'') in
                 if rq_action r = RefreshDeferRebuild
                 then Inr (put_job (j\<lparr>job_pending_payload := normalized\<rparr>) d)
                 else if rq_action r = RefreshRebuild
                 then (let (_, d1) = cancel now (job_id j) ''incompatible refresh payload replaced by current schema'' d
                       in bind_result (enqueue model_validate now (refresh_args py_str j workflow normalized) d1) (\<lambda>(_, _, d2). Inr d2))
                 else Inr (put_job (j\<lparr>job_payload := normalized, job_workflow_key := workflow, job_group_key := workflow\<rparr>) d)))"

definition apply_refresh_records ::
  "validator \<Rightarrow> (json \<Rightarrow> string) \<Rightarrow> instant \<Rightarrow> refresh_queue_record list \<Rightarrow> db \<Rightarrow> db result" where
  "apply_refresh_records model_validate py_str now rs d = fold_result (apply_refresh_record model_validate py_str now) rs d"

end
