(* ===== verification/Queue_Planner_Facts.thy ===== *)
theory Queue_Planner_Facts
  imports Queue_Planners Library_Repair_Properties
begin

text \<open>
  The planners as clients of the queue: what each of them does to the queue keeps its invariants,
  and the bounded loops create no more jobs than they may.
\<close>

subsection \<open>Loops that stop after enough new jobs\<close>

lemma keeps_until:
  assumes "\<And>x e c e'. f x e = Inr (c, e') \<Longrightarrow> keeps limits now e e'"
  shows "until_created f capacity xs st = Inr st' \<Longrightarrow> keeps limits now (snd st) (snd st')"
proof (induction xs arbitrary: st)
  case Nil
  then show ?case by simp
next
  case (Cons x xs)
  then obtain c d where f: "f x (snd st) = Inr (c, d)"
    by (auto simp: bind_result_eq_Inr)
  then have k: "keeps limits now (snd st) d" by (rule assms)
  have "keeps limits now d (snd st')"
  proof (cases "snd st' = d")
    case False
    then obtain n where "until_created f capacity xs (n, d) = Inr st'"
      using Cons.prems f by (auto simp: Let_def split: option.splits if_splits)
    then show ?thesis using Cons.IH by fastforce
  qed simp
  then show ?case using k keeps_trans by blast
qed

lemma keeps_until_from:
  assumes "until_created f capacity xs (n, d) = Inr (n', d')" "\<And>x e c e'. f x e = Inr (c, e') \<Longrightarrow> keeps limits now e e'"
  shows "keeps limits now d d'"
  using keeps_until [OF assms(2,1)] by simp

lemma until_created_count:
  "until_created f capacity xs st = Inr st' \<Longrightarrow> fst st < capacity \<Longrightarrow> fst st \<le> fst st' \<and> fst st' \<le> capacity"
proof (induction xs arbitrary: st)
  case (Cons x xs)
  then obtain c d where f: "f x (snd st) = Inr (c, d)"
    by (auto simp: bind_result_eq_Inr)
  let ?n = "case c of None \<Rightarrow> fst st | Some b \<Rightarrow> if b then fst st + 1 else fst st"
  have n: "fst st \<le> ?n" "?n \<le> capacity" using Cons.prems(2) by (auto split: option.split)
  have "fst st' = ?n \<or> (until_created f capacity xs (?n, d) = Inr st' \<and> ?n < capacity)"
    using Cons.prems f by (auto simp: Let_def split: option.splits if_splits)
  then show ?case using n Cons.IH [of "(?n, d)"] by force
qed simp

subsection \<open>Rescoring\<close>

lemma unkeyed_inv:
  assumes "queue_inv d" "j \<in> set (jobs d)" "job_kind_of j = MAINTENANCE"
  shows "queue_inv (clear_series_key j d) \<and> calm t d (clear_series_key j d)"
proof -
  have "edited j (j\<lparr>job_series_key := []\<rparr>)"
    using edited_refl [OF queue_inv_job_ok [OF assms(1,2)]] assms(3) by (simp add: edited_def MUTATING_JOB_KINDS_def)
  then show ?thesis unfolding clear_series_key_def by (rule edit_put_inv [OF assms(1,2)]) simp
qed

lemma clear_keys_inv:
  "queue_inv d \<Longrightarrow> distinct (map job_id rows) \<Longrightarrow> set rows \<subseteq> set (jobs d) \<Longrightarrow> \<forall>j \<in> set rows. job_kind_of j = MAINTENANCE \<Longrightarrow>
   queue_inv (fold clear_series_key rows d) \<and> calm t d (fold clear_series_key rows d)"
proof (induction rows arbitrary: d)
  case Nil
  then show ?case by simp
next
  case (Cons j rows)
  let ?d = "clear_series_key j d"
  have step: "queue_inv ?d \<and> calm t d ?d" using Cons.prems by (intro unkeyed_inv) auto
  have "set rows \<subseteq> set (jobs ?d)"
  proof
    fix k assume k: "k \<in> set rows"
    then have "job_id k \<noteq> job_id j" using Cons.prems(2) by (metis distinct.simps(2) image_eqI list.set_map list.simps(9))
    then show "k \<in> set (jobs ?d)" using k Cons.prems(3) by (auto simp: clear_series_key_def intro!: in_put_row_other)
  qed
  then have "queue_inv (fold clear_series_key rows ?d) \<and> calm t ?d (fold clear_series_key rows ?d)"
    using Cons.prems step by (intro Cons.IH) auto
  then show ?case using step calm_trans by auto
qed

lemma rescore_candidates_facts:
  assumes "queue_inv d"
  shows "distinct (map job_id (rescore_candidates d))" "set (rescore_candidates d) = {j \<in> set (jobs d). rescore_job j}"
proof -
  let ?rows = "sort_key job_id (filter rescore_job (jobs d))"
  have d: "distinct (map job_id ?rows)"
    using queue_invD(1) [OF assms] by (auto simp: rows_ok_def distinct_map intro: inj_on_subset)
  show "set (rescore_candidates d) = {j \<in> set (jobs d). rescore_job j}"
    by (auto simp: rescore_candidates_def Let_def)
  show "distinct (map job_id (rescore_candidates d))"
    using d by (auto simp: rescore_candidates_def Let_def distinct_map inj_on_def)
qed

lemma keeps_rescores: "keeps limits now d (snd (reconcile_rescores now limit d))"
proof -
  let ?rows = "rescore_candidates d"
  have 1: "keeps limits now d (fold clear_series_key ?rows d)"
  proof (rule keeps_calm)
    assume inv: "queue_inv d"
    show "queue_inv (fold clear_series_key ?rows d) \<and> calm now d (fold clear_series_key ?rows d)"
      by (rule clear_keys_inv) (use inv rescore_candidates_facts [OF inv] in \<open>auto simp: rescore_job_def\<close>)
  qed
  have "keeps limits now (snd st) (snd (cancel_overflow now j st))" for j st
    using keeps_run [OF queue_run_cancel] by (simp add: cancel_overflow_def Let_def case_prod_beta)
  then have "keeps limits now (snd (0 :: int, fold clear_series_key ?rows d))
      (snd (fold (cancel_overflow now) (drop (nat (max limit 0)) ?rows) (0, fold clear_series_key ?rows d)))"
    by (rule keeps_fold_snd)
  then show ?thesis unfolding reconcile_rescores_def Let_def using keeps_trans [OF 1] by simp
qed

lemma keeps_enqueue_rescores:
  assumes "enqueue_rescores mv now limit d = Inr (n, d')"
  shows "keeps limits now d d'"
proof -
  have one: "keeps limits now e e'" if "enqueue_rescore mv now x e = Inr (c, e')" for x e c e'
    using that keeps_enqueue by (auto simp: enqueue_rescore_def bind_result_eq_Inr)
  show ?thesis
    using assms keeps_until_from [OF _ one] by (auto simp: enqueue_rescores_def Let_def split: if_splits)
qed

subsection \<open>Covers\<close>

lemma same_queue_choose: "choose_cover now series d = Inr (c, d') \<Longrightarrow> same_queue d d'"
  by (auto simp: choose_cover_def same_queue_def split: option.splits if_splits)

lemma keeps_enqueue_covers:
  assumes "enqueue_covers mv sha now limit thr d = Inr (n, d')"
  shows "keeps limits now d d'"
proof -
  obtain m d1 where 1: "reconcile_canonical_cover_choices now 250 d = Inr (m, d1)"
    and 2: "d' = d1 \<or> until_created (enqueue_cover mv sha now) limit (pending_covers limit d1) (0, d1) = Inr (n, d')"
    using assms by (auto simp: enqueue_covers_def bind_result_eq_Inr split: if_splits)
  have "keeps limits now d d1"
    using 1 unfolding reconcile_canonical_cover_choices_def
    by (rule keeps_until_from) (blast intro: keeps_same same_queue_choose)
  moreover have "keeps limits now d1 d'"
  proof -
    have "keeps limits now e e'" if "enqueue_cover mv sha now x e = Inr (c, e')" for x e c e'
      using that keeps_enqueue by (auto simp: enqueue_cover_def Let_def bind_result_eq_Inr split: if_splits)
    from keeps_until_from [OF _ this] show ?thesis using 2 by auto
  qed
  ultimately show ?thesis using keeps_trans by blast
qed

subsection \<open>Kavita\<close>

text \<open>The job that \<open>enqueue\<close> returns is a row of the table.\<close>

lemma coalesce_row_in:
  "e \<in> set (jobs d) \<Longrightarrow> fst (coalesce_job now a pool dump e d) \<in> set (jobs (snd (coalesce_job now a pool dump e d)))"
proof (cases "merge_series e dump")
  case (Some rn)
  assume e: "e \<in> set (jobs d)"
  obtain r n where rn: "rn = (r, n)" by (cases rn)
  define e1 where "e1 = (if acquisition_promotion e dump then promote now a e else e)"
  obtain e2 m where e2: "absorb now a r n e1 = (e2, m)" by (cases "absorb now a r n e1")
  have "job_id e2 = job_id e"
    using e2 by (auto simp: e1_def absorb_def promote_def Let_def split: if_splits)
  then have "e2 \<in> set (put_row job_id e2 (jobs d))" by (intro in_put_rowI [OF e]) simp
  then show ?thesis
    using e by (simp add: coalesce_job_def Some rn Let_def e2 flip: e1_def)
qed (simp add: coalesce_job_def)

lemma enqueue_row_in:
  assumes inv: "queue_inv d" and res: "enqueue mv now a d = Inr (j, b, d')"
  shows "j \<in> set (jobs d')"
proof (cases "active_job (eq_kind a) (py_strip (eq_dedupe_key a)) d")
  case None
  then obtain p where new: "enqueue_new now a (py_strip (eq_dedupe_key a)) p d = Inr (j, b, d')"
    using res by (auto simp: enqueue_def Let_def bind_result_eq_Inr split: if_splits)
  show ?thesis
  proof (cases b)
    case True
    then show ?thesis using enqueue_new_row [of now a _ p d j d'] new by simp
  next
    case False
    then obtain d1 where "active_job (eq_kind a) (py_strip (eq_dedupe_key a)) d1 = Some j" "d' = d1"
      using new by (auto simp: enqueue_new_def Let_def split: sum.splits option.splits prod.splits)
    then show ?thesis using active_job_SomeD by blast
  qed
next
  case (Some e)
  note A = active_job_SomeD [OF Some]
  then have e: "e \<in> set (jobs d)" "is_active e" by blast+
  obtain p where out: "(j, d') = enqueue_existing now a p e d"
    using res Some by (auto simp: enqueue_def Let_def bind_result_eq_Inr split_beta split: if_splits)
  have R: "fst (repool now (routed_pool a p) e d) \<in> set (jobs (snd (repool now (routed_pool a p) e d)))"
    by (rule repool_inv(2) [OF inv e])
  have "fst (enqueue_existing now a p e d) \<in> set (jobs (snd (enqueue_existing now a p e d)))"
    using R coalesce_row_in [OF R] by (simp add: enqueue_existing_def Let_def split_beta)
  then show ?thesis by (simp flip: out)
qed

lemma keeps_enqueue_kavita:
  assumes "enqueue_kavita mv now key p u c d = Inr (b, d')"
  shows "keeps limits now d d'"
proof (rule keeps_calm)
  assume inv: "queue_inv d"
  obtain a j b0 d1 where enq: "enqueue mv now a d = Inr (j, b0, d1)" and d': "(b, d') = wake_unconfigured now j b0 d1"
    using assms by (auto simp: enqueue_kavita_def bind_result_eq_Inr)
  let ?j = "j\<lparr>job_available_at := now, job_error_code := [], job_error_message := [], job_updated_at := now\<rparr>"
  note E = enqueue_inv [OF inv enq] enqueue_row_in [OF inv enq]
  have "edited j ?j" using edited_refl [OF queue_inv_job_ok [OF E]] by (simp add: edited_def)
  then have "queue_inv (put_job ?j d1) \<and> calm now d1 (put_job ?j d1)" by (rule edit_put_inv [OF E]) simp
  then have "queue_inv d' \<and> calm now d1 d'"
    using d' E(1) by (auto simp: wake_unconfigured_def split: if_splits)
  then show "queue_inv d' \<and> calm now d d'" using calm_trans [OF enqueue_calm [OF inv enq]] by blast
qed

lemma keeps_kavita_pending:
  assumes "enqueue_kavita_pending mv now limit after batch d = Inr (n, d')"
  shows "keeps limits now d d'"
proof -
  let ?rows = "kavita_rows now limit after d"
  have one: "keeps limits now (snd s1) (snd s2)" if "enqueue_kavita_series mv now x s1 = Inr s2" for x s1 s2
    using that keeps_enqueue_kavita by (auto simp: enqueue_kavita_series_def bind_result_eq_Inr)
  consider "d' = d" | key p u c b where "enqueue_kavita mv now key p u c d = Inr (b, d')"
    | m where "fold_result (enqueue_kavita_series mv now) ?rows (0, d) = Inr (m, d')"
    using assms by (auto simp: enqueue_kavita_pending_def Let_def bind_result_eq_Inr split: if_splits)
  then show ?thesis
  proof cases
    case 3
    from keeps_snd_loop [OF this one] show ?thesis by simp
  qed (auto intro: keeps_enqueue_kavita)
qed

end
