(* ===== verification/Queue_Planner_Properties.thy ===== *)
theory Queue_Planner_Properties
  imports Queue_Planner_Facts Queue_Demo
begin

text \<open>
  What the planners promise: the rescoring backlog stays within its bound, and the cover chosen for
  a series is the best one that is known.
\<close>

subsection \<open>The rescoring backlog\<close>

lemma clear_keys_rows:
  "distinct (map job_id rows) \<Longrightarrow> jobs (fold clear_series_key rows d) =
     map (\<lambda>k. case get_row job_id (job_id k) rows of None \<Rightarrow> k | Some j \<Rightarrow> j\<lparr>job_series_key := []\<rparr>) (jobs d)"
proof (induction rows arbitrary: d)
  case (Cons j rows)
  have none: "get_row job_id (job_id j) rows = None" using Cons.prems
    unfolding get_row_None_iff by (metis distinct.simps(2) image_eqI list.set_map list.simps(9))
  show ?case
    using Cons by (auto simp: clear_series_key_def put_row_def get_row_def none [unfolded get_row_def])
qed (simp add: get_row_def)

lemma rescore_keyless [simp]: "rescore_job (j\<lparr>job_series_key := k\<rparr>) = rescore_job j"
  by (simp add: rescore_job_def)

text \<open>After the keys are cleared: the same jobs, the rescoring ones without a key.\<close>

lemma clear_keys_backlog:
  assumes inv: "queue_inv d"
  defines "d1 \<equiv> fold clear_series_key (rescore_candidates d) d"
  shows "queue_inv d1" "{j \<in> set (jobs d1). rescore_job j} = (\<lambda>j. j\<lparr>job_series_key := []\<rparr>) ` {j \<in> set (jobs d). rescore_job j}"
proof -
  let ?rows = "rescore_candidates d" and ?f = "\<lambda>j :: work_job. j\<lparr>job_series_key := []\<rparr>"
  note C = rescore_candidates_facts [OF inv]
  show "queue_inv d1" unfolding d1_def
    by (rule conjunct1 [OF clear_keys_inv]) (use inv C in \<open>auto simp: rescore_job_def\<close>)
  have row: "(case get_row job_id (job_id k) ?rows of None \<Rightarrow> k | Some j \<Rightarrow> ?f j) = (if rescore_job k then ?f k else k)"
    if k: "k \<in> set (jobs d)" for k
  proof (cases "rescore_job k")
    case True
    then have "k \<in> set ?rows" using C k by simp
    then have "get_row job_id (job_id k) ?rows = Some k" using get_row_distinct [OF C(1)] by simp
    then show ?thesis using True by simp
  next
    case False
    have "job_id j \<noteq> job_id k" if "j \<in> set ?rows" for j
      using that C False rows_ok_eq [OF queue_invD(1) [OF inv] _ k] by auto
    then have "get_row job_id (job_id k) ?rows = None" by (auto simp: get_row_None_iff)
    then show ?thesis using False by simp
  qed
  have "jobs d1 = map (\<lambda>k. if rescore_job k then ?f k else k) (jobs d)"
    unfolding d1_def clear_keys_rows [OF C(1)] using row by simp
  then show "{j \<in> set (jobs d1). rescore_job j} = ?f ` {j \<in> set (jobs d). rescore_job j}" by (auto split: if_splits)
qed

lemma cancel_overflow_fold:
  "queue_inv (snd st) \<Longrightarrow>
   active_rows (snd (fold (cancel_overflow now) rows st)) =
     filter (\<lambda>k. job_id k \<notin> job_id ` {j \<in> set rows. job_status j \<noteq> LEASED}) (active_rows (snd st))"
proof (induction rows arbitrary: st)
  case (Cons j rows)
  show ?case
  proof (cases "job_status j = LEASED")
    case True
    then have same: "{x \<in> set (j # rows). job_status x \<noteq> LEASED} = {x \<in> set rows. job_status x \<noteq> LEASED}" by auto
    have "cancel_overflow now j st = st" using True by (simp add: cancel_overflow_def)
    then show ?thesis unfolding same using Cons by simp
  next
    case False
    let ?c = "snd (cancel now (job_id j) ''deferred by bounded match-rescore backlog'' (snd st))"
    have snd: "snd (cancel_overflow now j st) = ?c"
      using False by (simp add: cancel_overflow_def Let_def case_prod_beta)
    have "queue_inv ?c" by (rule cancel_inv [OF Cons.prems])
    then show ?thesis
      using Cons.IH [of "cancel_overflow now j st"] False
      by (auto simp: snd cancel_active_rows [OF Cons.prems] intro!: filter_cong)
  qed
qed simp

text \<open>Reconciling the rescoring backlog leaves exactly the first \<open>limit\<close> jobs of the list, leased jobs
  first, and every leased one; none of them keeps a series key, so that they may run beside
  each other.\<close>

theorem rescore_backlog_bounded:
  assumes inv: "queue_inv d" and run: "reconcile_rescores now limit d = (n, d')"
  shows "job_id ` {j \<in> set (jobs d'). rescore_job j} =
      job_id ` (set (take (nat limit) (rescore_candidates d)) \<union> {j \<in> set (rescore_candidates d). job_status j = LEASED}) \<and>
    job_series_key ` {j \<in> set (jobs d'). rescore_job j} \<subseteq> {[]}"
proof -
  let ?rows = "rescore_candidates d" and ?f = "\<lambda>j :: work_job. j\<lparr>job_series_key := []\<rparr>"
  let ?d1 = "fold clear_series_key ?rows d" and ?gone = "{j \<in> set (drop (nat limit) ?rows). job_status j \<noteq> LEASED}"
  note C = rescore_candidates_facts [OF inv] and B = clear_keys_backlog [OF inv]
  have act: "{j \<in> set (jobs e). rescore_job j} = {j \<in> set (active_rows e). rescore_job j}" for e
    by (auto simp: active_rows_def rescore_job_def)
  have d': "active_rows d' = filter (\<lambda>k. job_id k \<notin> job_id ` ?gone) (active_rows ?d1)"
    using run cancel_overflow_fold [of "(0, ?d1)" now "drop (nat limit) ?rows"] B(1)
    by (simp add: reconcile_rescores_def Let_def max_def split: if_splits)
  have "{j \<in> set (jobs d'). rescore_job j} = {j \<in> {j \<in> set (active_rows ?d1). rescore_job j}. job_id j \<notin> job_id ` ?gone}"
    unfolding act d' by auto
  also have "\<dots> = {j \<in> ?f ` set ?rows. job_id j \<notin> job_id ` ?gone}" unfolding act [symmetric] B(2) C(2) ..
  also have "\<dots> = ?f ` {j \<in> set ?rows. job_id j \<notin> job_id ` ?gone}" by auto
  finally have left: "{j \<in> set (jobs d'). rescore_job j} = ?f ` {j \<in> set ?rows. job_id j \<notin> job_id ` ?gone}" .
  have "{j \<in> set ?rows. job_id j \<notin> job_id ` ?gone} = set (take (nat limit) ?rows) \<union> {j \<in> set ?rows. job_status j = LEASED}"
  proof -
    have inj: "inj_on job_id (set ?rows)" and dist: "distinct ?rows" using C(1) by (simp_all add: distinct_map)
    have split: "set ?rows = set (take (nat limit) ?rows) \<union> set (drop (nat limit) ?rows)"
      by (metis append_take_drop_id set_append)
    have "set (take (nat limit) ?rows) \<inter> set (drop (nat limit) ?rows) = {}"
      using dist by (metis append_take_drop_id distinct_append)
    moreover have "job_id j \<in> job_id ` ?gone \<longleftrightarrow> j \<in> ?gone" if "j \<in> set ?rows" for j
      using inj_on_image_mem_iff [OF inj that, of ?gone] set_drop_subset by fast
    ultimately show ?thesis using split by auto
  qed
  note left = left [unfolded this]
  show ?thesis unfolding left by (auto simp: image_image)
qed

definition demo_rescores :: db where
  "demo_rescores =
     (case fold_result (\<lambda>s d. bind_result (enqueue_rescore strict_validate 1 s d) (\<lambda>(_, d1). Inr d1)) [7, 8] empty_db of
        Inl _ \<Rightarrow> empty_db | Inr d \<Rightarrow> d)"

lemma demo_rescores_inv: "queue_inv demo_rescores"
proof -
  have "queue_inv d'" if "fold_result (\<lambda>s d. bind_result (enqueue_rescore strict_validate 1 s d) (\<lambda>(_, d1). Inr d1)) xs d = Inr d'" "queue_inv d" for xs d d'
    using that
  proof (induction xs arbitrary: d)
    case (Cons x xs)
    then obtain c d1 where "enqueue_rescore strict_validate 1 x d = Inr (c, d1)" "fold_result (\<lambda>s d. bind_result (enqueue_rescore strict_validate 1 s d) (\<lambda>(_, d1). Inr d1)) xs d1 = Inr d'"
      by (auto simp: bind_result_eq_Inr)
    then show ?case using Cons.IH enqueue_inv Cons.prems(2) by (fastforce simp: enqueue_rescore_def bind_result_eq_Inr)
  qed simp
  then show ?thesis using queue_inv_empty by (auto simp: demo_rescores_def simp del: fold_result.simps split: sum.split)
qed

lemma rows_image: "job_id ` (set xs \<union> {j \<in> set ys. P j}) = set (map job_id xs) \<union> job_id ` set (filter P ys)"
  by (simp add: image_Un)

theorem rescore_backlog_bounded_witness:
  "\<exists>n d'. reconcile_rescores 9 1 demo_rescores = (n, d') \<and> job_id ` {j \<in> set (jobs d'). rescore_job j} = {1}"
proof -
  obtain n d' where run: "reconcile_rescores 9 1 demo_rescores = (n, d')" by (cases "reconcile_rescores 9 1 demo_rescores")
  have "map job_id (take (nat 1) (rescore_candidates demo_rescores)) = [1]" by code_simp
  moreover have "filter (\<lambda>j. job_status j = LEASED) (rescore_candidates demo_rescores) = []" by code_simp
  ultimately have "job_id ` (set (take (nat 1) (rescore_candidates demo_rescores)) \<union>
      {j \<in> set (rescore_candidates demo_rescores). job_status j = LEASED}) = {1}"
    using rows_image [of "take (nat 1) (rescore_candidates demo_rescores)" "rescore_candidates demo_rescores" "\<lambda>j. job_status j = LEASED"]
    by simp
  then show ?thesis using rescore_backlog_bounded [OF demo_rescores_inv run] run by auto
qed

subsection \<open>The best cover\<close>

lemma find_hd: "find P xs = (case filter P xs of [] \<Rightarrow> None | x # _ \<Rightarrow> Some x)"
  by (induction xs) auto

lemma last_filter: "xs \<noteq> [] \<Longrightarrow> P (last xs) \<Longrightarrow> last (filter P xs) = last xs"
  by (cases xs rule: rev_cases) auto

lemma last_sort_key:
  assumes "ys \<noteq> []"
  shows "last (sort_key k ys) = last (filter (\<lambda>c. \<forall>x \<in> set ys. k x \<le> k c) ys)"
proof -
  let ?s = "sort_key k ys" and ?m = "k (last (sort_key k ys))"
  have ne: "?s \<noteq> []" using assms by (metis length_0_conv length_sort)
  then have l: "last ?s \<in> set ys" by (metis last_in_set set_sort)
  have "sorted (map k ?s)" by simp
  then have top: "k x \<le> ?m" if "x \<in> set ys" for x
  proof -
    have "x \<in> set ?s" using that by simp
    then obtain i where i: "i < length ?s" "?s ! i = x" unfolding in_set_conv_nth by blast
    have "map k ?s ! i \<le> map k ?s ! (length ?s - 1)"
      by (rule sorted_nth_mono) (use i(1) in simp_all)
    moreover have "last ?s = ?s ! (length ?s - 1)" using ne by (rule last_conv_nth)
    ultimately show ?thesis using i by simp
  qed
  have "(\<forall>x \<in> set ys. k x \<le> k c) \<longleftrightarrow> k c = ?m" if "c \<in> set ys" for c
  proof
    show "\<forall>x \<in> set ys. k x \<le> k c \<Longrightarrow> k c = ?m" using top [OF that] l by (blast intro: antisym)
    show "k c = ?m \<Longrightarrow> \<forall>x \<in> set ys. k x \<le> k c" using top by simp
  qed
  then have "filter (\<lambda>c. \<forall>x \<in> set ys. k x \<le> k c) ys = filter (\<lambda>c. k c = ?m) ys" by (rule filter_cong [OF refl])
  also have "\<dots> = filter (\<lambda>c. k c = ?m) ?s" by (rule sort_key_stable [symmetric])
  also have "last \<dots> = last ?s"
    by (rule last_filter [OF ne]) (rule refl)
  finally show ?thesis by simp
qed

text \<open>The cover chosen for a series is the first of its covers that no other one exceeds, by area,
  then by the shorter and the longer side, then by the rank of the provider, then by the lower
  identity.\<close>

theorem best_cover_is_maximal:
  "best_cover_choice series d =
     find (\<lambda>c. \<forall>x \<in> set (cover_choices series d). cover_quality_key x \<le> cover_quality_key c) (cover_choices series d)"
proof (cases "cover_choices series d = []")
  case True
  then show ?thesis by (simp add: best_cover_choice_def ranked_cover_choices_def)
next
  case False
  let ?xs = "cover_choices series d"
  let ?P = "\<lambda>c. \<forall>x \<in> set ?xs. cover_quality_key x \<le> cover_quality_key c"
  have "ranked_cover_choices series d \<noteq> []"
    using False unfolding ranked_cover_choices_def by (metis length_0_conv length_sort rev_is_Nil_conv)
  then have "best_cover_choice series d = Some (hd (ranked_cover_choices series d))"
    by (simp add: best_cover_choice_def split: list.split)
  also have "hd (ranked_cover_choices series d) = last (sort_key cover_quality_key (rev ?xs))"
    by (simp add: ranked_cover_choices_def hd_rev)
  also have "\<dots> = last (filter ?P (rev ?xs))" using last_sort_key [of "rev ?xs" cover_quality_key] False by simp
  also have "\<dots> = hd (filter ?P ?xs)" by (simp add: rev_filter [symmetric] last_rev)
  finally have best: "best_cover_choice series d = Some (hd (filter ?P ?xs))" .
  have "sort_key cover_quality_key ?xs \<noteq> []" using False by (metis length_0_conv length_sort)
  moreover have "filter ?P ?xs \<noteq> []"
  proof -
    have "finite (cover_quality_key ` set ?xs)" "cover_quality_key ` set ?xs \<noteq> {}" using False by simp_all
    then obtain c where "c \<in> set ?xs" "cover_quality_key c = Max (cover_quality_key ` set ?xs)"
      using Max_in by (metis imageE)
    moreover have "cover_quality_key x \<le> Max (cover_quality_key ` set ?xs)" if "x \<in> set ?xs" for x
      using that by (intro Max_ge) auto
    ultimately have "c \<in> set (filter ?P ?xs)" by simp
    then show ?thesis by (metis empty_iff empty_set)
  qed
  ultimately show ?thesis using best by (simp add: find_hd split: list.split)
qed

end
