(* ===== verification/Scheduler.thy ===== *)
theory Scheduler
  imports Queue_Planners Provider_Health Storage_Capacity Job_Retention
begin

text \<open>
  \<^verbatim>\<open>worker/scheduler.py\<close>: the tick of the leader.  The telemetry runs in transactions of its
  own; everything else is one transaction, rolled back when any part raises.  The times of the last
  runs are kept in memory and are not rolled back.  Taking and losing the leadership, the waiting
  loop and copying the learned page limits into the settings of the adapters are not modelled.
\<close>

subsection \<open>Recovering misclassified failures\<close>

definition contains_text :: "string \<Rightarrow> string \<Rightarrow> bool" where
  "contains_text s p = list_ex (\<lambda>i. take (length p) (drop i s) = p) [0..<Suc (length s)]"

definition later_success :: "work_job \<Rightarrow> db \<Rightarrow> work_job option" where
  "later_success f d =
     find (\<lambda>j. job_kind_of j = job_kind_of f \<and> job_dedupe_key j = job_dedupe_key f \<and> job_id f < job_id j \<and> job_status j = SUCCEEDED) (jobs d)"

definition invalid_refresh :: "work_job \<Rightarrow> bool" where
  "invalid_refresh j = (job_kind_of j = SOURCE_REFRESH \<and> job_status j = FAILED \<and> job_error_code j = ''source_item_invalid'')"

text \<open>The request for a replacement repeats the failed job.\<close>

definition replacement_args :: "work_job \<Rightarrow> instant \<Rightarrow> enqueue_args" where
  "replacement_args f at =
     (enqueue_defaults SOURCE_REFRESH (job_dedupe_key f) (Raw (job_payload f)))
       \<lparr>eq_priority := job_priority f, eq_max_attempts := max (job_max_attempts f) 4, eq_available_at := Some at,
        eq_source := job_source f, eq_series_key := job_series_key f, eq_pool := job_pool f,
        eq_workflow_key := job_workflow_key f, eq_group_key := job_group_key f\<rparr>"

definition outage_rows :: "nat \<Rightarrow> db \<Rightarrow> work_job list" where
  "outage_rows limit d =
     take limit (sort_key job_id (filter (\<lambda>j. invalid_refresh j \<and> later_success j d = None) (jobs d)))"

definition mark_row :: "instant \<Rightarrow> string \<Rightarrow> string \<Rightarrow> work_job \<Rightarrow> db \<Rightarrow> db" where
  "mark_row now code msg f d = put_job (f\<lparr>job_error_code := code, job_error_message := msg, job_updated_at := now\<rparr>) d"

definition recover_outage :: "validator \<Rightarrow> instant \<Rightarrow> work_job \<Rightarrow> int \<times> db \<Rightarrow> (int \<times> db) result" where
  "recover_outage model_validate now f st =
     (let (n, d) = st in
      if \<not> contains_cloudflare_origin_error (job_error_message f) then Inr st
      else
        (let at = (case find_source_state (job_source f) d of
                     None \<Rightarrow> now
                   | Some s \<Rightarrow> (case sst_cooldown_until s of None \<Rightarrow> now | Some t \<Rightarrow> max t now))
         in bind_result (enqueue model_validate now (replacement_args f at) d) (\<lambda>(r, created, d1).
              if \<not> created then Inr (n, d1)
              else Inr (n + 1, mark_row now ''provider_outage_requeued''
                (''Automatically requeued as job #'' @ str_of_int (job_id r) @ '' after a temporary provider-origin outage.'') f d1))))"

definition recover_outages :: "validator \<Rightarrow> instant \<Rightarrow> nat \<Rightarrow> db \<Rightarrow> (int \<times> db) result" where
  "recover_outages model_validate now limit d =
     fold_result (recover_outage model_validate now) (outage_rows limit d) (0, d)"

definition challenge_rows :: "nat \<Rightarrow> int list \<Rightarrow> db \<Rightarrow> work_job list" where
  "challenge_rows limit locked d =
     take limit (filter (\<lambda>j. job_id j \<notin> set locked) (sort_key job_id
       (filter (\<lambda>j. invalid_refresh j \<and> job_source j \<in> set [''mangafire'', ''kingofshojo''] \<and>
          contains_text (job_error_message j) ''403 Forbidden'') (jobs d))))"

definition reject_observations :: "instant \<Rightarrow> string \<Rightarrow> string \<Rightarrow> db \<Rightarrow> db" where
  "reject_observations now src source_id d =
     d\<lparr>observations := map (\<lambda>x. if obs_source x = src \<and> obs_type x = ''source_refresh_failure'' \<and> obs_source_key x = source_id \<and>
            obs_state x = ObsQuarantined \<and> contains_http_forbidden (obs_reason x)
          then x\<lparr>obs_state := ObsRejected, obs_resolved_at := Some now\<rparr> else x) (observations d)\<rparr>"

definition close_challenge :: "(json \<Rightarrow> string) \<Rightarrow> instant \<Rightarrow> string \<Rightarrow> string \<Rightarrow> work_job \<Rightarrow> db \<Rightarrow> db" where
  "close_challenge py_str now code msg f d =
     (let v = dict_get (job_payload f) ''source_id'';
          d1 = (if truthy v then reject_observations now (job_source f) (py_str v) d else d)
      in mark_row now code msg f d1)"

definition recover_challenge ::
  "validator \<Rightarrow> (json \<Rightarrow> string) \<Rightarrow> instant \<Rightarrow> work_job \<Rightarrow> int \<times> db \<Rightarrow> (int \<times> db) result" where
  "recover_challenge model_validate py_str now f st =
     (let (n, d) = st in
      if \<not> contains_http_forbidden (job_error_message f) then Inr st
      else case later_success f d of
             Some j \<Rightarrow> Inr (n, close_challenge py_str now ''provider_challenge_superseded''
               (''Resolved by later successful job #'' @ str_of_int (job_id j) @
                ''; the earlier failure was a provider-wide Cloudflare browser challenge.'') f d)
           | None \<Rightarrow>
               bind_result (enqueue model_validate now (replacement_args f now) d) (\<lambda>(r, created, d1).
               if \<not> created then Inr (n, d1)
               else Inr (n + 1, close_challenge py_str now ''provider_challenge_requeued''
                 (''Automatically requeued as job #'' @ str_of_int (job_id r) @
                  '' after a provider-wide Cloudflare browser challenge was identified.'') f d1)))"

definition recover_challenges ::
  "validator \<Rightarrow> (json \<Rightarrow> string) \<Rightarrow> instant \<Rightarrow> nat \<Rightarrow> int list \<Rightarrow> db \<Rightarrow> (int \<times> db) result" where
  "recover_challenges model_validate py_str now limit locked d =
     fold_result (recover_challenge model_validate py_str now) (challenge_rows limit locked d) (0, d)"

definition token_rows :: "nat \<Rightarrow> int list \<Rightarrow> db \<Rightarrow> work_job list" where
  "token_rows limit locked d =
     take limit (filter (\<lambda>j. job_id j \<notin> set locked) (sort_key job_id
       (filter (\<lambda>j. job_kind_of j = CHAPTER_DOWNLOAD \<and> job_source j = ''mangafire'' \<and> job_status j = FAILED \<and>
          job_error_code j = ''http_403'') (jobs d))))"

definition token_args :: "work_job \<Rightarrow> catalog_chapter \<Rightarrow> instant \<Rightarrow> enqueue_args" where
  "token_args f c now =
     (enqueue_defaults CHAPTER_DOWNLOAD (''chapter:'' @ str_of_int (ch_id c)) (Raw (job_payload f)))
       \<lparr>eq_priority := job_priority f, eq_max_attempts := max (job_max_attempts f) 4, eq_available_at := Some now,
        eq_source := ''mangafire'', eq_series_key := str_of_int (ch_series_id c),
        eq_workflow_key := job_workflow_key f, eq_group_key := job_group_key f\<rparr>"

definition requeue_intent :: "instant \<Rightarrow> int \<Rightarrow> int \<Rightarrow> db \<Rightarrow> db" where
  "requeue_intent now ch i d =
     (case get_row int_chapter_id ch (intents d) of
        None \<Rightarrow> d
      | Some x \<Rightarrow> put_intent (x\<lparr>int_job_id := Some i, int_state := IntentQueued, int_updated_at := now\<rparr>) d)"

definition recover_token :: "validator \<Rightarrow> instant \<Rightarrow> work_job \<Rightarrow> int \<times> db \<Rightarrow> (int \<times> db) result" where
  "recover_token model_validate now f st =
     (let (n, d) = st; skipped = Inr (n, put_job (f\<lparr>job_error_code := ''mangafire_token_recovery_skipped''\<rparr>) d) in
      bind_result (int_or_zero (dict_get (job_payload f) ''chapter_release_id'')) (\<lambda>i.
      case get_row rel_id i (releases d) of
        None \<Rightarrow> skipped
      | Some r \<Rightarrow>
          (case get_row ch_id (rel_chapter_id r) (chapters d) of
             None \<Rightarrow> skipped
           | Some c \<Rightarrow>
               bind_result (enqueue model_validate now (token_args f c now) (put_release (r\<lparr>rel_downloadable_after := None\<rparr>) d))
                 (\<lambda>(j, created, d1).
                   if \<not> created then Inr (n, d1)
                   else Inr (n + 1, mark_row now ''mangafire_token_requeued''
                     (''Automatically requeued as job #'' @ str_of_int (job_id j) @
                      '' after MangaFire introduced rotating API request tokens.'') f
                     (requeue_intent now (ch_id c) (job_id j) d1))))))"

definition recover_tokens :: "validator \<Rightarrow> instant \<Rightarrow> nat \<Rightarrow> int list \<Rightarrow> db \<Rightarrow> (int \<times> db) result" where
  "recover_tokens model_validate now limit locked d =
     fold_result (recover_token model_validate now) (token_rows limit locked d) (0, d)"

subsection \<open>Probes and polls\<close>

definition probe_args :: "string \<Rightarrow> payload_arg \<Rightarrow> enqueue_args" where
  "probe_args src payload =
     (enqueue_defaults MAINTENANCE (''provider-probe:'' @ src) payload)
       \<lparr>eq_priority := 2, eq_source := src, eq_pool := ''pull:'' @ src\<rparr>"

definition probe_due :: "instant \<Rightarrow> provider_policy \<Rightarrow> bool" where
  "probe_due now p = (case pm_next_recovery_probe (pol_metadata p) of Some (IsoText t) \<Rightarrow> t \<le> now | _ \<Rightarrow> False)"

definition enqueue_probe :: "validator \<Rightarrow> instant \<Rightarrow> provider_policy \<Rightarrow> int \<times> db \<Rightarrow> (int \<times> db) result" where
  "enqueue_probe model_validate now p st =
     (if \<not> probe_due now p then Inr st
      else
        bind_result (build_payload (MaintenancePayload \<lparr>mt_version = 1, mt_action = ''provider_probe_'' @ pol_source p, mt_series_id = 0\<rparr>))
          (\<lambda>payload. bind_result (enqueue model_validate now (probe_args (pol_source p) payload) (snd st)) (\<lambda>(_, b, d1).
             Inr (if b then fst st + 1 else fst st, d1))))"

definition poll_blocked :: "instant \<Rightarrow> duration \<Rightarrow> catalog_source_state option \<Rightarrow> bool" where
  "poll_blocked now interval state =
     (case state of
        None \<Rightarrow> False
      | Some s \<Rightarrow> \<not> sst_manual_enabled s \<or>
          (case sst_cooldown_until s of None \<Rightarrow> False | Some t \<Rightarrow> now < t) \<or>
          (case sst_last_poll_at s of None \<Rightarrow> False | Some t \<Rightarrow> now < t + interval))"

definition poll_args :: "string \<Rightarrow> instant \<Rightarrow> payload_arg \<Rightarrow> enqueue_args" where
  "poll_args src now payload =
     (enqueue_defaults SOURCE_PULL (''source:'' @ src) payload)\<lparr>eq_priority := 50, eq_available_at := Some now\<rparr>"

definition enqueue_poll :: "validator \<Rightarrow> instant \<Rightarrow> string \<times> duration \<Rightarrow> int \<times> db \<Rightarrow> (int \<times> db) result" where
  "enqueue_poll model_validate now si st =
     (let (src, fallback) = si; (n, d) = st; interval = effective_poll_interval (find_policy src d) fallback in
      if poll_blocked now interval (find_source_state src d) then Inr st
      else
        bind_result (build_payload (SourcePullPayload \<lparr>sp_version = 1, sp_source = src, sp_workflow_key = []\<rparr>)) (\<lambda>payload.
        bind_result (enqueue model_validate now (poll_args src now payload) d) (\<lambda>(_, b, d1).
          Inr (if b then n + 1 else n, d1))))"

subsection \<open>Intervals of the tick\<close>

type_synonym last_runs = "(string, instant) fmap"

definition due :: "string \<Rightarrow> instant \<Rightarrow> duration \<Rightarrow> last_runs \<Rightarrow> bool" where
  "due name now interval lr = (case fmlookup lr name of None \<Rightarrow> True | Some t \<Rightarrow> t + interval \<le> now)"

text \<open>A tick in progress: the last runs, and the count with the database or the exception raised.\<close>

type_synonym tick = "last_runs \<times> (int \<times> db) result"

definition tick_step :: "(int \<times> db \<Rightarrow> (int \<times> db) result) \<Rightarrow> tick \<Rightarrow> tick" where
  "tick_step f t = (case snd t of Inl e \<Rightarrow> t | Inr s \<Rightarrow> (fst t, f s))"

definition tick_due :: "string \<Rightarrow> instant \<Rightarrow> duration \<Rightarrow> (int \<times> db \<Rightarrow> (int \<times> db) result) \<Rightarrow> tick \<Rightarrow> tick" where
  "tick_due name now interval f t =
     (case snd t of
        Inl e \<Rightarrow> t
      | Inr s \<Rightarrow> if due name now interval (fst t) then (fmupd name now (fst t), f s) else t)"

text \<open>Adding what a part counts, or keeping the count.\<close>

definition counted :: "(db \<Rightarrow> (int \<times> db) result) \<Rightarrow> int \<times> db \<Rightarrow> (int \<times> db) result" where
  "counted f s = bind_result (f (snd s)) (\<lambda>(n, d). Inr (fst s + n, d))"

definition uncounted :: "(db \<Rightarrow> ('a \<times> db) result) \<Rightarrow> int \<times> db \<Rightarrow> (int \<times> db) result" where
  "uncounted f s = bind_result (f (snd s)) (\<lambda>(_, d). Inr (fst s, d))"

subsection \<open>Seeding the policies\<close>

record policy_seed =
  seed_source :: string
  seed_jobs :: int
  seed_pages :: int
  seed_top_tier :: int
  seed_interval :: rat

text \<open>The settings that seed the policies: download concurrency of the providers and request
  intervals of the adapters.\<close>

record seed_settings =
  sd_asura_jobs :: int
  sd_mangadex_jobs :: int
  sd_mangafire_jobs :: int
  sd_kingofshojo_jobs :: int
  sd_asura_interval :: rat
  sd_mangadex_interval :: rat
  sd_mangafire_interval :: rat
  sd_kingofshojo_interval :: rat

definition policy_seeds :: "seed_settings \<Rightarrow> policy_seed list" where
  "policy_seeds s =
     [\<lparr>seed_source = ''asura'', seed_jobs = sd_asura_jobs s, seed_pages = 1, seed_top_tier = 2, seed_interval = max 2 (sd_asura_interval s)\<rparr>,
      \<lparr>seed_source = ''mangadex'', seed_jobs = sd_mangadex_jobs s, seed_pages = 4, seed_top_tier = 4, seed_interval = sd_mangadex_interval s\<rparr>,
      \<lparr>seed_source = ''mangafire'', seed_jobs = sd_mangafire_jobs s, seed_pages = 4, seed_top_tier = 4, seed_interval = sd_mangafire_interval s\<rparr>,
      \<lparr>seed_source = ''kingofshojo'', seed_jobs = sd_kingofshojo_jobs s, seed_pages = 4, seed_top_tier = 4, seed_interval = sd_kingofshojo_interval s\<rparr>]"

definition seed_policy :: "v2_settings \<Rightarrow> instant \<Rightarrow> policy_seed \<Rightarrow> db \<Rightarrow> db" where
  "seed_policy cfg now s d =
     snd (start_due_exploration now (seed_source s) (seed_top_tier s)
       (ensure_policy now (seed_source s)
         \<lparr>pd_job_limit = seed_jobs s, pd_page_limit = seed_pages s,
          pd_cooldown_seconds = source_cooldown cfg (seed_source s) div 1000000,
          pd_request_interval_seconds = seed_interval s,
          pd_poll_interval_seconds =
            (case map_of (source_intervals cfg) (seed_source s) of None \<Rightarrow> 0 | Some i \<Rightarrow> i div 1000000)\<rparr> d))"

definition telemetry_tick :: "v2_settings \<Rightarrow> seed_settings \<Rightarrow> instant \<Rightarrow> last_runs \<times> db \<Rightarrow> tick" where
  "telemetry_tick cfg sd now s =
     tick_due ''telemetry_cleanup'' now (hours 1) (\<lambda>(n, d). Inr (n, snd (cleanup_samples 7 now d)))
       (tick_step (\<lambda>(n, d). bind_result (finalize_due now d) (\<lambda>(_, d1). Inr (n, d1)))
         (fst s, Inr (0, fold (seed_policy cfg now) (policy_seeds sd) (snd s))))"

subsection \<open>The tick\<close>

text \<open>What the tick takes from outside: the free space of the disk, the rows locked by others,
  whether Kavita is configured, and the library functions \<open>sha1\<close> and \<open>str\<close>.\<close>

record tick_env =
  te_validate :: validator
  te_free_bytes :: int
  te_locked_jobs :: "int list"
  te_locked_plans :: "int list"
  te_kavita_configured :: bool
  te_sha1_hex :: "string \<Rightarrow> string"
  te_py_str :: "json \<Rightarrow> string"

definition plan_window :: int where
  "plan_window = 20"

definition repair_tick :: "validator \<Rightarrow> instant \<Rightarrow> db \<Rightarrow> ((int \<times> int) \<times> db) result" where
  "repair_tick model_validate now d =
     bind_result (reconcile_active_jobs model_validate now d) (\<lambda>(_, d1). enqueue_repairs model_validate now 25 d1)"

definition rescore_tick :: "validator \<Rightarrow> instant \<Rightarrow> db \<Rightarrow> (int \<times> db) result" where
  "rescore_tick model_validate now d = enqueue_rescores model_validate now 10 (snd (reconcile_rescores now 10 d))"

definition lease_tick :: "instant \<Rightarrow> int list \<Rightarrow> db \<Rightarrow> int \<times> db" where
  "lease_tick now locked d =
     (let (n, d1) = fail_exhausted_leases now locked d in (n, snd (cleanup_expired_permits now d1)))"

definition recovery_steps :: "tick_env \<Rightarrow> instant \<Rightarrow> tick \<Rightarrow> tick" where
  "recovery_steps env now t =
     tick_step (counted (recover_tokens (te_validate env) now 50 (te_locked_jobs env)))
       (tick_step (counted (recover_challenges (te_validate env) (te_py_str env) now 50 (te_locked_jobs env)))
         (tick_step (counted (recover_outages (te_validate env) now 25)) t))"

definition planner_steps :: "v2_settings \<Rightarrow> tick_env \<Rightarrow> instant \<Rightarrow> tick \<Rightarrow> tick" where
  "planner_steps cfg env now t0 =
     (let mv = te_validate env;
          t1 = tick_due ''download_bootstrap'' now (hours 6) (uncounted (bootstrap mv plan_window now)) t0;
          t2 = tick_due ''download_reconcile'' now (minutes 1) (uncounted (reconcile_active mv plan_window now 50 (te_locked_plans env))) t1;
          t3 = (if set_enable_library_repair cfg
                then tick_due ''library_repair'' now (minutes 10) (uncounted (repair_tick mv now)) t2 else t2);
          t4 = (if set_enable_cover_processing cfg
                then tick_due ''cover_backfill'' now (minutes 5) (counted (enqueue_covers mv (te_sha1_hex env) now 10 1)) t3 else t3)
      in tick_due ''match_rescore'' now (minutes 1) (counted (rescore_tick mv now)) t4)"

definition upkeep_steps :: "tick_env \<Rightarrow> instant \<Rightarrow> tick \<Rightarrow> tick" where
  "upkeep_steps env now t0 =
     (let t1 = tick_due ''job_retention'' now (minutes 10) (uncounted (\<lambda>d. Inr (prune now 250 (te_locked_jobs env) d))) t0;
          t2 = tick_due ''lease_cleanup'' now (minutes 10) (counted (\<lambda>d. Inr (lease_tick now (te_locked_jobs env) d))) t1
      in if te_kavita_configured env
         then tick_due ''kavita_refresh'' now (minutes 10)
                (uncounted (enqueue_kavita_pending (te_validate env) now 25 (Some (hours 6)) True)) t2
         else t2)"

definition poll_steps :: "v2_settings \<Rightarrow> tick_env \<Rightarrow> instant \<Rightarrow> tick \<Rightarrow> tick" where
  "poll_steps cfg env now t =
     tick_step (fold_result (enqueue_poll (te_validate env) now) (source_intervals cfg))
       (tick_step (\<lambda>s. fold_result (enqueue_probe (te_validate env) now) (policies (snd s)) s) t)"

definition main_transaction :: "v2_settings \<Rightarrow> tick_env \<Rightarrow> instant \<Rightarrow> tick \<Rightarrow> tick" where
  "main_transaction cfg env now t =
     poll_steps cfg env now (upkeep_steps env now (planner_steps cfg env now (recovery_steps env now
       (tick_step (\<lambda>(n, d). Inr (n, snd (storage_refresh now (te_free_bytes env) (set_min_free_bytes cfg) d))) t))))"

text \<open>Every run is finished in a transaction of its own, so those before the one that raises stay
  finished.\<close>

fun finalized_runs :: "instant \<Rightarrow> int list \<Rightarrow> db \<Rightarrow> db" where
  "finalized_runs now [] d = d"
| "finalized_runs now (i # is) d = (case finalize_run now i d of Inl e \<Rightarrow> d | Inr d1 \<Rightarrow> finalized_runs now is d1)"

text \<open>\<open>enqueue_due\<close>: what it returns or raises, the last runs and the database.\<close>

definition enqueue_due ::
  "v2_settings \<Rightarrow> seed_settings \<Rightarrow> tick_env \<Rightarrow> instant \<Rightarrow> last_runs \<times> db \<Rightarrow> int result \<times> last_runs \<times> db" where
  "enqueue_due cfg sd env now s =
     (case telemetry_tick cfg sd now s of
        (lr, Inl e) \<Rightarrow>
          (let d = fold (seed_policy cfg now) (policy_seeds sd) (snd s) in (Inl e, lr, finalized_runs now (due_runs now d) d))
      | (lr, Inr (_, d)) \<Rightarrow>
          (case main_transaction cfg env now (lr, Inr (0, d)) of
             (lr1, Inl e) \<Rightarrow> (Inl e, lr1, d)
           | (lr1, Inr (n, d1)) \<Rightarrow> (Inr n, lr1, d1)))"

end
