(* ===== verification/Scheduler_Properties.thy ===== *)
theory Scheduler_Properties
  imports Scheduler Queue_Planner_Facts Queue_Properties Provider_Health_Properties
begin

text \<open>
  What a tick of the scheduler promises: whatever is due, whatever the rows locked by others, the
  queue invariants hold after it, and a tick that raises leaves the main tables as they were.
\<close>

subsection \<open>Recoveries\<close>

lemma enqueue_keeps_finished:
  assumes "queue_inv d" "enqueue mv now a d = Inr (j, b, d')" "k \<in> set (jobs d)" "\<not> is_active k"
  shows "k \<in> set (jobs d')"
proof -
  obtain k' where "k' \<in> set (jobs d')" "job_step k k'"
    using moved_in [OF enqueue_moved [OF assms(1,2)] assms(3)] by blast
  then show ?thesis using job_step_kept assms(4) by (auto simp: kept_row_def)
qed

lemma mark_mild: "job_ok j \<Longrightarrow> job_status j = FAILED \<Longrightarrow> mild j (j\<lparr>job_error_code := c, job_error_message := m, job_updated_at := t\<rparr>)"
  "job_ok j \<Longrightarrow> job_status j = FAILED \<Longrightarrow> mild j (j\<lparr>job_error_code := c\<rparr>)"
  by (auto simp: mild_def row_change_defs)

abbreviation failed :: "work_job \<Rightarrow> bool" where
  "failed j \<equiv> job_status j = FAILED"

lemma failed_inactive: "failed j \<Longrightarrow> \<not> is_active j"
  by (simp add: is_active_def)

text \<open>The shape of a recovery: a replacement is enqueued, other tables change, the failed row is
  marked.\<close>

lemma marked_safe:
  assumes inv: "queue_inv d" and j: "j \<in> set (jobs d)" "failed j" and same: "same_queue d e"
  shows "row_safe failed t j d (mark_row now c m j e)" "row_safe failed t j d (put_job (j\<lparr>job_error_code := c\<rparr>) e)"
proof -
  have e: "queue_inv e" "j \<in> set (jobs e)" "calm t d e" "jobs e = jobs d"
    using inv j(1) queue_inv_same [OF same] calm_same_queue [OF same] same by (simp_all add: same_queue_def)
  note M = mark_mild [OF queue_inv_job_ok [OF e(1,2)] j(2)]
  show "row_safe failed t j d (mark_row now c m j e)"
    using mild_put [OF e(1,2) M(1)] calm_trans [OF e(3)] unfolding row_safe_def mark_row_def
    by (auto simp: e(4) intro!: in_put_row_other)
  show "row_safe failed t j d (put_job (j\<lparr>job_error_code := c\<rparr>) e)"
    using mild_put [OF e(1,2) M(2)] calm_trans [OF e(3)] unfolding row_safe_def
    by (auto simp: e(4) intro!: in_put_row_other)
qed

lemma row_safe_after:
  assumes inv: "queue_inv d" and enq: "enqueue mv now a d = Inr (r, b, d1)"
    and rest: "row_safe failed t j d1 d'"
  shows "row_safe failed t j d d'"
  using rest calm_trans [OF enqueue_calm [OF inv enq]] enqueue_keeps_finished [OF inv enq] failed_inactive
  unfolding row_safe_def by blast

lemma row_safe_enqueued:
  assumes inv: "queue_inv d" and enq: "enqueue mv now a d = Inr (r, b, d1)"
  shows "row_safe failed t j d d1"
  by (rule row_safe_after [OF inv enq]) (simp add: row_safe_def enqueue_inv [OF inv enq])

lemma row_safe_requeued:
  assumes inv: "queue_inv d" and j: "j \<in> set (jobs d)" "failed j" and enq: "enqueue mv now a d = Inr (r, b, d1)"
    and same: "same_queue d1 e"
  shows "row_safe failed t j d (mark_row now c m j e)"
  by (rule row_safe_after [OF inv enq] marked_safe enqueue_inv [OF inv enq] enqueue_keeps_finished [OF inv enq] j
      same failed_inactive)+

lemma row_safe_refl: "queue_inv d \<Longrightarrow> row_safe failed t j d d"
  by (simp add: row_safe_def)

lemma row_safe_before:
  assumes "same_queue d e" "row_safe failed t j e d'"
  shows "row_safe failed t j d d'"
  using assms calm_trans [OF calm_same_queue [OF assms(1)]] unfolding row_safe_def same_queue_def by auto

lemma keeps_recovery:
  assumes one: "\<And>j s1 s2. queue_inv (snd s1) \<Longrightarrow> j \<in> set (jobs (snd s1)) \<Longrightarrow> failed j \<Longrightarrow> f j s1 = Inr s2 \<Longrightarrow>
       row_safe failed now j (snd s1) (snd s2)"
    and rows: "queue_inv d \<Longrightarrow> distinct (map job_id rows) \<and> set rows \<subseteq> {j \<in> set (jobs d). failed j}"
    and run: "fold_result f rows (n, d) = Inr s'"
  shows "keeps limits now d (snd s')"
proof (rule keeps_calm)
  assume inv: "queue_inv d"
  have "queue_inv (snd s') \<and> calm now (snd (n, d)) (snd s')"
    by (rule keeps_rows [where P = failed, OF one _ _ _ _ run]) (use inv rows [OF inv] in auto)
  then show "queue_inv (snd s') \<and> calm now d (snd s')" by simp
qed

lemma selected_rows:
  assumes "queue_inv d"
  shows "distinct (map job_id (take n (filter P (sort_key job_id (filter Q (jobs d))))))"
    "set (take n (filter P (sort_key job_id (filter Q (jobs d))))) \<subseteq> {j \<in> set (jobs d). Q j}"
proof -
  have "inj_on job_id (set (jobs d)) \<and> distinct (jobs d)"
    using queue_invD(1) [OF assms] by (simp add: rows_ok_def distinct_map)
  then have "distinct (map job_id (filter P (sort_key job_id (filter Q (jobs d)))))"
    by (auto simp: distinct_map intro: inj_on_subset)
  then show "distinct (map job_id (take n (filter P (sort_key job_id (filter Q (jobs d))))))"
    unfolding take_map [symmetric] by (rule distinct_take)
  show "set (take n (filter P (sort_key job_id (filter Q (jobs d))))) \<subseteq> {j \<in> set (jobs d). Q j}"
    using set_take_subset by fastforce
qed

lemma keeps_outages:
  assumes "recover_outages mv now limit d = Inr s'"
  shows "keeps limits now d (snd s')"
proof (rule keeps_recovery [OF _ _ assms [unfolded recover_outages_def]])
  fix j and s1 s2 :: "int \<times> db"
  assume a: "queue_inv (snd s1)" "j \<in> set (jobs (snd s1))" "failed j" "recover_outage mv now j s1 = Inr s2"
  then consider "snd s2 = snd s1" | args r b where "enqueue mv now args (snd s1) = Inr (r, b, snd s2)"
    | args r b m d1 where "enqueue mv now args (snd s1) = Inr (r, b, d1)"
        "snd s2 = mark_row now ''provider_outage_requeued'' m j d1"
    unfolding recover_outage_def Let_def case_prod_beta by (auto simp: bind_result_eq_Inr split: if_splits)
  then show "row_safe failed now j (snd s1) (snd s2)"
  proof cases
    case 3
    then show ?thesis using row_safe_requeued [OF a(1-3) 3(1) same_queue_refl] by simp
  qed (use a in \<open>auto intro: row_safe_refl row_safe_enqueued\<close>)
next
  assume "queue_inv d"
  from selected_rows [OF this, of limit "\<lambda>_. True" "\<lambda>j. invalid_refresh j \<and> later_success j d = None"]
  show "distinct (map job_id (outage_rows limit d)) \<and> set (outage_rows limit d) \<subseteq> {j \<in> set (jobs d). failed j}"
    by (auto simp: outage_rows_def invalid_refresh_def)
qed

lemma close_challenge_split: "\<exists>e. same_queue d e \<and> close_challenge py now c m j d = mark_row now c m j e"
  unfolding close_challenge_def Let_def by (intro exI conjI, rule_tac [2] refl) (simp add: same_queue_def reject_observations_def)

lemma keeps_challenges:
  assumes "recover_challenges mv py now limit locked d = Inr s'"
  shows "keeps limits now d (snd s')"
proof (rule keeps_recovery [OF _ _ assms [unfolded recover_challenges_def]])
  fix j and s1 s2 :: "int \<times> db"
  assume a: "queue_inv (snd s1)" "j \<in> set (jobs (snd s1))" "failed j" "recover_challenge mv py now j s1 = Inr s2"
  consider "snd s2 = snd s1" | c m where "snd s2 = close_challenge py now c m j (snd s1)"
    | args r b where "enqueue mv now args (snd s1) = Inr (r, b, snd s2)"
    | args r b c m d1 where "enqueue mv now args (snd s1) = Inr (r, b, d1)" "snd s2 = close_challenge py now c m j d1"
    using a(4) unfolding recover_challenge_def case_prod_beta
    by (auto simp: bind_result_eq_Inr split: if_splits option.splits)
  then show "row_safe failed now j (snd s1) (snd s2)"
  proof cases
    case 2
    then show ?thesis using marked_safe(1) [OF a(1-3)] close_challenge_split by metis
  next
    case 4
    then show ?thesis using row_safe_requeued [OF a(1-3) 4(1)] close_challenge_split by metis
  qed (use a in \<open>auto intro: row_safe_refl row_safe_enqueued\<close>)
next
  assume "queue_inv d"
  then show "distinct (map job_id (challenge_rows limit locked d)) \<and> set (challenge_rows limit locked d) \<subseteq> {j \<in> set (jobs d). failed j}"
    unfolding challenge_rows_def using selected_rows(1) selected_rows(2) [of d limit] by (fastforce simp: invalid_refresh_def)
qed

lemma same_queue_requeue [simp]: "same_queue d (requeue_intent now ch i d)"
  by (simp add: requeue_intent_def split: option.split)

lemma keeps_tokens:
  assumes "recover_tokens mv now limit locked d = Inr s'"
  shows "keeps limits now d (snd s')"
proof (rule keeps_recovery [OF _ _ assms [unfolded recover_tokens_def]])
  fix j and s1 s2 :: "int \<times> db"
  assume a: "queue_inv (snd s1)" "j \<in> set (jobs (snd s1))" "failed j" "recover_token mv now j s1 = Inr s2"
  consider "snd s2 = put_job (j\<lparr>job_error_code := ''mangafire_token_recovery_skipped''\<rparr>) (snd s1)"
    | x args r b where "enqueue mv now args (put_release x (snd s1)) = Inr (r, b, snd s2)"
    | x args r b m ch d1 where "enqueue mv now args (put_release x (snd s1)) = Inr (r, b, d1)"
        "snd s2 = mark_row now ''mangafire_token_requeued'' m j (requeue_intent now ch (job_id r) d1)"
  proof -
    obtain n d where s1: "s1 = (n, d)" by (cases s1)
    obtain i where i: "int_or_zero (dict_get (job_payload j) ''chapter_release_id'') = Inr i"
      using a(4) by (auto simp: recover_token_def s1 Let_def bind_result_eq_Inr)
    note run = a(4) [unfolded recover_token_def s1 Let_def prod.case i bind_result_simps]
    show thesis
    proof (cases "get_row rel_id i (releases d)")
      case None
      then show thesis using run s1 that(1) by auto
    next
      case (Some x)
      show thesis
      proof (cases "get_row ch_id (rel_chapter_id x) (chapters d)")
        case None
        then show thesis using run s1 Some that(1) by auto
      next
        case (Some c)
        then show thesis
          using run [unfolded \<open>get_row rel_id i (releases d) = _\<close> option.case] s1 that(2,3)
          by (auto simp: bind_result_eq_Inr split: if_splits)
      qed
    qed
  qed
  then show "row_safe failed now j (snd s1) (snd s2)"
  proof cases
    case 1
    then show ?thesis using marked_safe(2) [OF a(1-3) same_queue_refl] by simp
  next
    case (2 x)
    have e: "queue_inv (put_release x (snd s1))" using a(1) queue_inv_same same_queue_put(3) by blast
    show ?thesis by (rule row_safe_before [OF same_queue_put(3) row_safe_enqueued [OF e 2]])
  next
    case (3 x)
    have e: "queue_inv (put_release x (snd s1))" "j \<in> set (jobs (put_release x (snd s1)))"
      using a(1,2) queue_inv_same [OF same_queue_put(3)] by simp_all
    show ?thesis unfolding 3(2)
      by (rule row_safe_before [OF same_queue_put(3) row_safe_requeued [OF e a(3) 3(1) same_queue_requeue]])
  qed
next
  assume "queue_inv d"
  then show "distinct (map job_id (token_rows limit locked d)) \<and> set (token_rows limit locked d) \<subseteq> {j \<in> set (jobs d). failed j}"
    unfolding token_rows_def using selected_rows(1) selected_rows(2) [of d limit] by fastforce
qed

subsection \<open>Telemetry\<close>

lemma same_queue_ensure [simp]: "same_queue d (ensure_policy now src a d)"
  by (simp add: ensure_policy_def same_queue_def put_policy_def Let_def split: option.split)

lemma same_queue_exploration [simp]: "same_queue d (snd (start_due_exploration now src tier d))"
  by (simp add: start_due_exploration_def same_queue_def add_run_def put_policy_def Let_def split: option.split)

lemma same_queue_seed [simp]: "same_queue d (seed_policy cfg now s d)"
  unfolding seed_policy_def by (rule same_queue_trans [OF same_queue_ensure same_queue_exploration])

lemma same_queue_run_policies [simp]:
  "same_queue d (put_policy p (put_run r d))" "same_queue d ((put_run r d)\<lparr>policies := ps\<rparr>)"
  "same_queue d (clear_exploration src d)"
  by (simp_all add: same_queue_def put_policy_def put_run_def clear_exploration_def split: option.split)

lemma same_queue_finish_run:
  assumes "finish_run now i l report d = Inr (p, d')"
  shows "same_queue d d'"
proof -
  obtain r where r: "find_run i d = Some r" using assms by (cases "find_run i d") (simp_all add: finish_run_def)
  obtain c where "(if 100 \<le> run_request_count r then Inr 0 else int_or_zero (dict_get report ''completed_jobs'')) = Inr c"
    using assms by (auto simp: finish_run_def r bind_result_eq_Inr simp del: if_distrib)
  note run = assms [unfolded finish_run_def r option.case this bind_result_simps Let_def]
  show ?thesis
  proof (cases "find_policy (run_source r) d")
    case None
    then show ?thesis using run [unfolded None option.case] by (simp split: if_split_asm; clarify; simp)
  next
    case (Some q)
    show ?thesis using run [unfolded Some option.case sum.inject prod.inject, THEN conjunct2] by (clarify; simp)
  qed
qed

lemma same_queue_finalize_run: "finalize_run now i d = Inr d' \<Longrightarrow> same_queue d d'"
  unfolding finalize_run_def Let_def bind_result_eq_Inr
  by (auto intro: same_queue_trans [OF same_queue_finish_run])

lemma same_queue_finalize_runs: "finalize_runs now is d = Inr d' \<Longrightarrow> same_queue d d'"
proof (induction "is" arbitrary: d)
  case (Cons i rest)
  then show ?case using same_queue_finalize_run same_queue_trans by (fastforce simp: bind_result_eq_Inr)
qed simp

lemma same_queue_finalized: "same_queue d (finalized_runs now is d)"
proof (induction "is" arbitrary: d)
  case (Cons i rest)
  then show ?case using same_queue_finalize_run same_queue_trans by (fastforce split: sum.split)
qed simp

lemma same_queue_storage [simp]: "same_queue d (snd (storage_refresh now free m d))"
  by (simp add: storage_refresh_def Let_def drop_expired_reservations_def same_queue_def)

subsection \<open>The tick\<close>

definition tick_keeps :: "pool_limits \<Rightarrow> instant \<Rightarrow> db \<Rightarrow> tick \<Rightarrow> bool" where
  "tick_keeps limits now d t = (case snd t of Inl _ \<Rightarrow> True | Inr s \<Rightarrow> keeps limits now d (snd s))"

lemma tick_keeps_step:
  assumes "tick_keeps limits now d t" "\<And>s s'. f s = Inr s' \<Longrightarrow> keeps limits now (snd s) (snd s')"
  shows "tick_keeps limits now d (tick_step f t)" "tick_keeps limits now d (tick_due name now' i f t)"
proof -
  have "keeps limits now d (snd s')" if "snd t = Inr s" "f s = Inr s'" for s s'
    using assms that keeps_trans by (fastforce simp: tick_keeps_def)
  then show "tick_keeps limits now d (tick_step f t)" "tick_keeps limits now d (tick_due name now' i f t)"
    using assms(1) by (auto simp: tick_keeps_def tick_step_def tick_due_def split: sum.splits)
qed

lemma tick_keeps_part:
  assumes "tick_keeps limits now d t" "\<And>d n d'. f d = Inr (n, d') \<Longrightarrow> keeps limits now d d'"
  shows "tick_keeps limits now d (tick_step (counted f) t)" "tick_keeps limits now d (tick_due name now' i (counted f) t)"
  by (rule tick_keeps_step [OF assms(1)]; use assms(2) in \<open>auto simp: counted_def bind_result_eq_Inr\<close>)+

lemma tick_keeps_quiet:
  assumes "tick_keeps limits now d t" "\<And>d n d'. f d = Inr (n, d') \<Longrightarrow> keeps limits now d d'"
  shows "tick_keeps limits now d (tick_due name now' i (uncounted f) t)"
  by (rule tick_keeps_step [OF assms(1)]; use assms(2) in \<open>auto simp: uncounted_def bind_result_eq_Inr\<close>)+

lemma tick_keeps_if:
  "tick_keeps limits now d t \<Longrightarrow> tick_keeps limits now d t' \<Longrightarrow> tick_keeps limits now d (if b then t else t')"
  by simp

lemma keeps_repair_tick:
  assumes "payload_codec mv" "repair_tick mv now d = Inr (n, d')"
  shows "keeps limits now d d'"
proof -
  obtain m d1 where "reconcile_active_jobs mv now d = Inr (m, d1)" "enqueue_repairs mv now 25 d1 = Inr (n, d')"
    using assms(2) by (auto simp: repair_tick_def bind_result_eq_Inr)
  then show ?thesis
    using keeps_trans [OF keeps_reconcile_repairs keeps_enqueue_repairs] assms(1) by blast
qed

lemma keeps_rescore_tick: "rescore_tick mv now d = Inr (n, d') \<Longrightarrow> keeps limits now d d'"
  unfolding rescore_tick_def using keeps_trans [OF keeps_rescores keeps_enqueue_rescores] by blast

lemma keeps_lease_tick: "Inr (lease_tick now locked d) = (Inr (n, d') :: (int \<times> db) result) \<Longrightarrow> keeps limits now d d'"
  using keeps_trans [OF keeps_fail_exhausted keeps_cleanup] by (auto simp: lease_tick_def Let_def case_prod_beta)

lemma keeps_poll: "enqueue_poll mv now si st = Inr st' \<Longrightarrow> keeps limits now (snd st) (snd st')"
  using keeps_enqueue by (auto simp: enqueue_poll_def Let_def case_prod_beta bind_result_eq_Inr split: if_splits)

lemma keeps_probe_job: "enqueue_probe mv now p st = Inr st' \<Longrightarrow> keeps limits now (snd st) (snd st')"
  using keeps_enqueue by (auto simp: enqueue_probe_def Let_def case_prod_beta bind_result_eq_Inr split: if_splits)

lemma tick_keeps_recovery:
  "tick_keeps limits now d t \<Longrightarrow> tick_keeps limits now d (recovery_steps env now t)"
  unfolding recovery_steps_def
  by (intro tick_keeps_part(1)) (use keeps_outages keeps_challenges keeps_tokens in fastforce)+

lemma tick_keeps_planners:
  assumes "payload_codec (te_validate env)" "tick_keeps limits now d t"
  shows "tick_keeps limits now d (planner_steps cfg env now t)"
  unfolding planner_steps_def Let_def
  by (intro tick_keeps_part(2) tick_keeps_quiet tick_keeps_if assms(2))
     (assumption | rule keeps_run [OF bootstrap_run] keeps_run [OF reconcile_active_run] keeps_repair_tick [OF assms(1)]
        keeps_enqueue_covers keeps_rescore_tick)+

lemma tick_keeps_upkeep:
  assumes "tick_keeps limits now d t"
  shows "tick_keeps limits now d (upkeep_steps env now t)"
proof -
  have p: "keeps limits now d1 d2" if "(Inr (prune now n l d1) :: (int \<times> db) result) = Inr (m, d2)" for d1 d2 n l m
    using keeps_prune [of limits now d1 n l] that by simp
  show ?thesis
    unfolding upkeep_steps_def Let_def
    by (intro tick_keeps_part(2) tick_keeps_quiet tick_keeps_if assms)
       (assumption | rule p keeps_lease_tick keeps_kavita_pending)+
qed

lemma tick_keeps_polls:
  "tick_keeps limits now d t \<Longrightarrow> tick_keeps limits now d (poll_steps cfg env now t)"
  unfolding poll_steps_def
  by (auto intro!: tick_keeps_step elim!: keeps_snd_loop intro: keeps_poll keeps_probe_job)

lemma main_transaction_keeps:
  assumes "payload_codec (te_validate env)"
  shows "tick_keeps limits now d (main_transaction cfg env now (lr, Inr (0, d)))"
proof -
  have "tick_keeps limits now d (lr, Inr (0, d))" by (simp add: tick_keeps_def)
  then show ?thesis
    unfolding main_transaction_def
    by (intro tick_keeps_polls tick_keeps_upkeep tick_keeps_planners [OF assms] tick_keeps_recovery tick_keeps_step(1))
       (auto intro: keeps_same)
qed

lemma telemetry_tick_same:
  assumes "telemetry_tick cfg sd now (lr, d) = (lr', Inr (n, d'))"
  shows "same_queue d d'"
proof -
  let ?d = "fold (seed_policy cfg now) (policy_seeds sd) d"
  have seeded: "same_queue d ?d" by (rule same_queue_fold) simp
  obtain m d1 where fin: "finalize_due now ?d = Inr (m, d1)" and d': "same_queue d1 d'"
    using assms unfolding telemetry_tick_def tick_due_def tick_step_def Let_def
    by (auto simp: bind_result_def cleanup_samples_def same_queue_def Let_def split: sum.splits if_splits)
  have "same_queue ?d d1" using fin same_queue_finalize_runs by (auto simp: finalize_due_def Let_def bind_result_eq_Inr)
  then show ?thesis using seeded d' same_queue_trans by blast
qed

subsection \<open>Properties\<close>

text \<open>C37. Whatever is due, whatever rows others have locked and wherever it raises: after a tick of the
  scheduler the invariants of the queue hold again, so that unique keys, permits, pool limits and
  the exclusion of library repairs survive all planners together.\<close>

theorem tick_keeps_queue:
  assumes "payload_codec (te_validate env)" "queue_ok limits (now, d)"
    "enqueue_due cfg sd env now (lr, d) = (r, lr', d')"
  shows "queue_ok limits (now, d')"
proof -
  have same: "queue_ok limits (now, e)" if "same_queue d e" for e
    using keeps_same [OF that] assms(2) by (simp add: keeps_def)
  obtain lr1 t where tel: "telemetry_tick cfg sd now (lr, d) = (lr1, t)" by (cases "telemetry_tick cfg sd now (lr, d)")
  show ?thesis
  proof (cases t)
    case (Inl e)
    have "same_queue d (fold (seed_policy cfg now) (policy_seeds sd) d)" by (rule same_queue_fold) simp
    then have "same_queue d d'"
      using assms(3) same_queue_finalized same_queue_trans by (auto simp: enqueue_due_def tel Inl Let_def)
    then show ?thesis by (rule same)
  next
    case (Inr nd)
    obtain n d1 where nd: "nd = (n, d1)" by (cases nd)
    have d1: "same_queue d d1" by (rule telemetry_tick_same [OF tel [unfolded Inr nd]])
    obtain lr2 u where main: "main_transaction cfg env now (lr1, Inr (0, d1)) = (lr2, u)"
      by (cases "main_transaction cfg env now (lr1, Inr (0, d1))")
    have "tick_keeps limits now d1 (lr2, u)" using main_transaction_keeps [OF assms(1)] main by metis
    then have "d' = d1 \<or> keeps limits now d1 d'"
      using assms(3) by (auto simp: enqueue_due_def tel Inr nd main tick_keeps_def split: sum.splits)
    then show ?thesis using same [OF d1] by (auto simp: keeps_def)
  qed
qed

definition demo_seeds :: seed_settings where
  "demo_seeds = \<lparr>sd_asura_jobs = 1, sd_mangadex_jobs = 2, sd_mangafire_jobs = 2, sd_kingofshojo_jobs = 1,
     sd_asura_interval = 2, sd_mangadex_interval = 1, sd_mangafire_interval = 1, sd_kingofshojo_interval = 1\<rparr>"

definition demo_tick :: tick_env where
  "demo_tick = \<lparr>te_validate = strict_validate, te_free_bytes = 1000, te_locked_jobs = [], te_locked_plans = [],
     te_kavita_configured = True, te_sha1_hex = id, te_py_str = (\<lambda>_. [])\<rparr>"

theorem tick_keeps_queue_witness:
  "\<exists>r lr d'. enqueue_due (default_settings ''w'') demo_seeds demo_tick (seconds 2) (fmempty, demo_leased) = (r, lr, d') \<and>
     queue_ok demo_limits (seconds 2, d')"
proof -
  obtain r lr d' where tick: "enqueue_due (default_settings ''w'') demo_seeds demo_tick (seconds 2) (fmempty, demo_leased) = (r, lr, d')"
    by (metis prod_cases3)
  have "payload_codec (te_validate demo_tick)" using strict.payload_codec_axioms by (simp add: demo_tick_def)
  moreover have "queue_ok demo_limits (seconds 2, demo_leased)"
    by (rule queue.run_inv [OF demo_run queue_init_ok]) (simp add: queue_init_def empty_db_def)
  ultimately have "queue_ok demo_limits (seconds 2, d')" using tick by (rule tick_keeps_queue)
  then show ?thesis using tick by blast
qed

subsection \<open>Windows\<close>

text \<open>The rows a tick examines for a provider outage are the oldest failed refreshes, before their
  message is read: when none of those is an outage, nothing is requeued however many outages are
  behind them, and the rows stay as they are, so that the next tick examines the same ones.\<close>

lemma outages_behind_window:
  assumes "\<forall>j \<in> set (outage_rows limit d). \<not> contains_cloudflare_origin_error (job_error_message j)"
  shows "recover_outages mv now limit d = Inr (0, d)"
proof -
  have "fold_result (recover_outage mv now) rows (0, d) = Inr (0, d)"
    if "\<forall>j \<in> set rows. \<not> contains_cloudflare_origin_error (job_error_message j)" for rows
    using that by (induction rows) (auto simp: recover_outage_def)
  then show ?thesis using assms by (simp add: recover_outages_def)
qed

end
