(* ===== verification/Artifact_Store.thy ===== *)
theory Artifact_Store
  imports Library_Repair Series_Merge
begin

text \<open>
  \<^verbatim>\<open>infrastructure/artifact_repository.py\<close>: putting a stored archive into service for a
  chapter, with the constraints of its three tables, and the names that
  \<^verbatim>\<open>infrastructure/storage.py\<close> gives to projections.  Reading and writing archives is not
  modelled: a stored blob is what the storage returns.
\<close>

subsection \<open>Names of projections\<close>

definition component_char :: "char \<Rightarrow> bool" where
  "component_char c =
     (is_digit c \<or> c \<in> set ''._-'' \<or> (let n = (of_char c :: nat) in 65 \<le> n \<and> n \<le> 90 \<or> 97 \<le> n \<and> n \<le> 122))"

text \<open>\<open>re.sub("[^...]+", "-", s)\<close>: every maximal run of other characters becomes one dash.\<close>

fun component_dashes :: "string \<Rightarrow> string" where
  "component_dashes [] = []"
| "component_dashes (c # cs) =
     (if component_char c then c # component_dashes cs
      else if (case cs of [] \<Rightarrow> True | x # _ \<Rightarrow> component_char x) then CHR ''-'' # component_dashes cs
      else component_dashes cs)"

definition strip_chars :: "string \<Rightarrow> string \<Rightarrow> string" where
  "strip_chars cs s = rev (dropWhile (\<lambda>c. c \<in> set cs) (rev (dropWhile (\<lambda>c. c \<in> set cs) s)))"

definition safe_component :: "string \<Rightarrow> string" where
  "safe_component v = str_or (take 100 (strip_chars ''-.'' (component_dashes (py_strip v)))) ''unknown''"

definition projection_path :: "string \<Rightarrow> int \<Rightarrow> string \<Rightarrow> string" where
  "projection_path key ch number =
     ''Manga/'' @ key @ ''/ch-'' @ str_of_int ch @ CHR ''-'' # safe_component number @ ''.cbz''"

subsection \<open>Rows\<close>

record stored_blob =
  sb_checksum :: string
  sb_relative_path :: string
  sb_byte_count :: int
  sb_image_count :: int

datatype activation_status = Activated | Duplicate | Conflict

record activation_result =
  ar_status :: activation_status
  ar_artifact_id :: int
  ar_projection_path :: string

text \<open>The blob table: one row per checksum, no two at one path.\<close>

definition store_blob :: "stored_blob \<Rightarrow> db \<Rightarrow> db result" where
  "store_blob b d =
     (let rows = artifact_blobs (library d) in
      if get_row blb_checksum (sb_checksum b) rows \<noteq> None then Inr d
      else if list_ex (\<lambda>x. blb_relative_path x = sb_relative_path b) rows then Inl IntegrityError
      else Inr (on_library (\<lambda>l. l\<lparr>artifact_blobs := artifact_blobs l @
             [\<lparr>blb_checksum = sb_checksum b, blb_relative_path = sb_relative_path b, blb_byte_count = sb_byte_count b\<rparr>]\<rparr>) d))"

text \<open>Foreign keys to the chapter and the release, and the partial unique index on active
  artifacts.\<close>

definition chapter_known :: "int \<Rightarrow> db \<Rightarrow> bool" where
  "chapter_known ch d = list_ex (\<lambda>c. ch_id c = ch) (chapters d)"

definition release_known :: "int option \<Rightarrow> db \<Rightarrow> bool" where
  "release_known r d = (case r of None \<Rightarrow> True | Some i \<Rightarrow> list_ex (\<lambda>x. rel_id x = i) (releases d))"

definition active_artifact :: "int \<Rightarrow> db \<Rightarrow> chapter_artifact option" where
  "active_artifact ch d = find (\<lambda>a. art_chapter_id a = ch \<and> art_state a = ArtActive) (artifacts d)"

definition put_artifact :: "chapter_artifact \<Rightarrow> db \<Rightarrow> db" where
  "put_artifact a d = d\<lparr>artifacts := put_row art_id a (artifacts d)\<rparr>"

definition add_artifact :: "chapter_artifact \<Rightarrow> db \<Rightarrow> (int \<times> db) result" where
  "add_artifact a d =
     (let i = artifact_seq (library d) in
      if \<not> chapter_known (art_chapter_id a) d \<or> \<not> release_known (art_chapter_release_id a) d \<or>
         (art_state a = ArtActive \<and> active_artifact (art_chapter_id a) d \<noteq> None)
      then Inl IntegrityError
      else Inr (i, on_library (\<lambda>l. l\<lparr>artifact_seq := i + 1\<rparr>) (d\<lparr>artifacts := artifacts d @ [a\<lparr>art_id := i\<rparr>]\<rparr>)))"

definition upsert_projection :: "int \<Rightarrow> int \<Rightarrow> string \<Rightarrow> db \<Rightarrow> db result" where
  "upsert_projection ch i path d =
     (let rows = library_projections (library d); p = \<lparr>lp_chapter_id = ch, lp_artifact_id = i, lp_relative_path = path\<rparr> in
      if list_ex (\<lambda>x. lp_chapter_id x \<noteq> ch \<and> (lp_artifact_id x = i \<or> lp_relative_path x = path)) rows then Inl IntegrityError
      else Inr (on_library (\<lambda>l. l\<lparr>library_projections :=
             (if get_row lp_chapter_id ch rows = None then rows @ [p] else put_row lp_chapter_id p rows)\<rparr>) d))"

subsection \<open>Activation\<close>

record activation =
  ac_chapter :: int
  ac_release :: "int option"
  ac_blob :: stored_blob
  ac_path :: string
  ac_provenance :: string
  ac_source :: string
  ac_quality :: int
  ac_replace :: bool

definition artifact_row :: "activation \<Rightarrow> artifact_state \<Rightarrow> chapter_artifact" where
  "artifact_row a s =
     \<lparr>art_id = 0, art_chapter_id = ac_chapter a, art_chapter_release_id = ac_release a,
      art_blob_checksum = sb_checksum (ac_blob a), art_state = s, art_provenance = ac_provenance a,
      art_source = ac_source a, art_quality_rank = ac_quality a, art_image_count = sb_image_count (ac_blob a),
      art_deactivated_at = None\<rparr>"

definition refreshed_artifact :: "activation \<Rightarrow> chapter_artifact \<Rightarrow> chapter_artifact" where
  "refreshed_artifact a x =
     x\<lparr>art_chapter_release_id := (case ac_release a of None \<Rightarrow> art_chapter_release_id x
          | Some i \<Rightarrow> if i = 0 then art_chapter_release_id x else Some i),
       art_source := str_or (ac_source a) (art_source x), art_quality_rank := max (art_quality_rank x) (ac_quality a)\<rparr>"

text \<open>A flush writes updates before insertions, so the old artifact is inactive when the new one is
  inserted.\<close>

definition activate_new :: "activation \<Rightarrow> db \<Rightarrow> (activation_result \<times> db) result" where
  "activate_new a d =
     bind_result (add_artifact (artifact_row a ArtActive) d) (\<lambda>(i, d1).
     bind_result (upsert_projection (ac_chapter a) i (ac_path a) d1) (\<lambda>d2.
       Inr (\<lparr>ar_status = Activated, ar_artifact_id = i, ar_projection_path = ac_path a\<rparr>, d2)))"

definition activate :: "instant \<Rightarrow> activation \<Rightarrow> db \<Rightarrow> (activation_result \<times> db) result" where
  "activate now a d =
     bind_result (store_blob (ac_blob a) d) (\<lambda>d0.
     case active_artifact (ac_chapter a) d0 of
       None \<Rightarrow> activate_new a d0
     | Some x \<Rightarrow>
         if art_blob_checksum x = sb_checksum (ac_blob a) then
           (let x1 = refreshed_artifact a x in
            if \<not> release_known (art_chapter_release_id x1) d0 then Inl IntegrityError
            else bind_result (upsert_projection (ac_chapter a) (art_id x) (ac_path a) (put_artifact x1 d0)) (\<lambda>d1.
                   Inr (\<lparr>ar_status = Duplicate, ar_artifact_id = art_id x, ar_projection_path = ac_path a\<rparr>, d1)))
         else if \<not> ac_replace a then
           bind_result (add_artifact (artifact_row a ArtQuarantined) d0) (\<lambda>(i, d1).
             Inr (\<lparr>ar_status = Conflict, ar_artifact_id = i, ar_projection_path = ac_path a\<rparr>, d1))
         else activate_new a (put_artifact (x\<lparr>art_state := ArtInactive, art_deactivated_at := Some now\<rparr>) d0))"

end
