(* ===== verification/Chapter_Download.thy ===== *)
theory Chapter_Download
  imports Artifact_Store Provider_Health Storage_Capacity Worker_Runtime Settings
begin

text \<open>
  \<^verbatim>\<open>application/chapter_download.py\<close>: the handler of chapter downloads.  Fetching the
  pages and writing the archive is a parameter, \<open>fetch_outcome\<close>; so is whether the archive could be
  linked into the library.  Each transaction of the handler is a definition of its own, so that
  others may run between them.
\<close>

subsection \<open>The release to download\<close>

record download_snapshot =
  dsn_release_id :: int
  dsn_chapter_id :: int
  dsn_series_id :: int
  dsn_storage_key :: string
  dsn_series_title :: string
  dsn_series_description :: string
  dsn_chapter_number :: string
  dsn_chapter_title :: string
  dsn_source :: string
  dsn_source_series_id :: string
  dsn_release_title :: string
  dsn_release_url :: string
  dsn_published_at :: "instant option"
  dsn_quality_rank :: int

definition load_snapshot :: "int \<Rightarrow> db \<Rightarrow> download_snapshot option" where
  "load_snapshot i d =
     (case get_row rel_id i (releases d) of
        None \<Rightarrow> None
      | Some r \<Rightarrow>
          (case (get_row ch_id (rel_chapter_id r) (chapters d), get_row srs_id (rel_source_series_id r) (source_series d)) of
             (Some c, Some s) \<Rightarrow>
               (case get_row ser_id (ch_series_id c) (series_rows d) of
                  None \<Rightarrow> None
                | Some e \<Rightarrow> Some \<lparr>dsn_release_id = rel_id r, dsn_chapter_id = ch_id c, dsn_series_id = ser_id e,
                    dsn_storage_key = ser_storage_key e, dsn_series_title = ser_title e,
                    dsn_series_description = ser_description e, dsn_chapter_number = ch_display_number c,
                    dsn_chapter_title = ch_title c, dsn_source = rel_source r, dsn_source_series_id = srs_source_id s,
                    dsn_release_title = rel_title r, dsn_release_url = rel_url r, dsn_published_at = rel_published_at r,
                    dsn_quality_rank = rel_quality_rank r\<rparr>)
           | _ \<Rightarrow> None))"

subsection \<open>The description in the archive\<close>

definition escape_char :: "char \<Rightarrow> string" where
  "escape_char c =
     (if c = CHR ''&'' then ''&amp;'' else if c = CHR ''<'' then ''&lt;'' else if c = CHR ''>'' then ''&gt;''
      else if c = CHR 0x22 then ''&quot;'' else if c = CHR 0x27 then ''&#x27;'' else [c])"

definition html_escape :: "string \<Rightarrow> string" where
  "html_escape s = concat (map escape_char s)"

text \<open>Year, month and day of an instant in UTC, by the proleptic Gregorian calendar of \<open>datetime\<close>.\<close>

definition civil_date :: "instant \<Rightarrow> int \<times> int \<times> int" where
  "civil_date t =
     (let z = t div 86400000000 + 719468; era = z div 146097; doe = z mod 146097;
          yoe = (doe - doe div 1460 + doe div 36524 - doe div 146096) div 365;
          doy = doe - (365 * yoe + yoe div 4 - yoe div 100); mp = (5 * doy + 2) div 153;
          month = (if mp < 10 then mp + 3 else mp - 9)
      in (yoe + era * 400 + (if month \<le> 2 then 1 else 0), month, doy - (153 * mp + 2) div 5 + 1))"

definition xml_element :: "string \<Rightarrow> string \<Rightarrow> string" where
  "xml_element tag body = CHR ''<'' # tag @ CHR ''>'' # body @ ''</'' @ tag @ ''>''"

definition comic_info :: "download_snapshot \<Rightarrow> string" where
  "comic_info s =
     (let dates = (case dsn_published_at s of
                     None \<Rightarrow> []
                   | Some t \<Rightarrow> (case civil_date t of (y, m, dd) \<Rightarrow>
                       xml_element ''Year'' (str_of_int y) @ xml_element ''Month'' (str_of_int m) @ xml_element ''Day'' (str_of_int dd)))
      in ''<?xml version='' @ [CHR 0x27] @ ''1.0'' @ [CHR 0x27] @ '' encoding='' @ [CHR 0x27] @ ''utf-8'' @ [CHR 0x27] @ ''?>'' @
         xml_element ''ComicInfo''
           (xml_element ''Series'' (html_escape (dsn_series_title s)) @
            xml_element ''Number'' (html_escape (dsn_chapter_number s)) @
            xml_element ''Title'' (html_escape (str_or (dsn_chapter_title s) (dsn_release_title s))) @
            xml_element ''Summary'' (html_escape (dsn_series_description s)) @ dates @
            xml_element ''Web'' (html_escape (dsn_release_url s)) @
            xml_element ''Tags'' (html_escape (dsn_source s)) @
            xml_element ''LanguageISO'' ''en'' @ xml_element ''Manga'' ''YesAndRightToLeft''))"

subsection \<open>Failures of the provider\<close>

text \<open>What the handler is built with: the settings, the adapters that exist, the free space of the
  disk, the largest archive, the rows locked by others and the text of an exception.\<close>

record download_env =
  de_validate :: validator
  de_describe :: "py_error \<Rightarrow> string"
  de_settings :: v2_settings
  de_adapters :: "string list"
  de_free_bytes :: int
  de_max_chapter_bytes :: int
  de_locked :: "int list"

definition download_cooldown :: "download_env \<Rightarrow> string \<Rightarrow> db \<Rightarrow> duration" where
  "download_cooldown env src d =
     (case find_policy src d of
        Some p \<Rightarrow> if 0 < pol_cooldown_seconds p then seconds (pol_cooldown_seconds p) else source_cooldown (de_settings env) src
      | None \<Rightarrow> source_cooldown (de_settings env) src)"

definition limit_policy :: "instant \<Rightarrow> provider_policy \<Rightarrow> provider_policy" where
  "limit_policy now p =
     p\<lparr>pol_metadata := (pol_metadata p)\<lparr>pm_recovery_probe_step := Some 0,
          pm_next_recovery_probe := Some (IsoText (now + minutes 1)), pm_recovery_probe_successes := Some 0\<rparr>,
       pol_clean_since := None, pol_last_limited_at := Some now,
       pol_learned_job_limit := max 1 (pol_learned_job_limit p div 2)\<rparr>"

definition record_source_failure ::
  "download_env \<Rightarrow> instant \<Rightarrow> string \<Rightarrow> string \<Rightarrow> instant option \<Rightarrow> string \<Rightarrow> db \<Rightarrow> (instant option \<times> db) result" where
  "record_source_failure env now src err cooldown_until cls d =
     (let (s, d1) = ensure_source_state now src d;
          failures = sst_consecutive_failures s + 1;
          cooldown = (if cooldown_until = None \<and> set_circuit_breaker_failures (de_settings env) \<le> failures
                      then Some (now + download_cooldown env src d1) else cooldown_until);
          d2 = put_source_state (s\<lparr>sst_consecutive_failures := failures, sst_last_error := take 4000 err,
                 sst_cooldown_until := cooldown, sst_health_status := (if cooldown = None then Degraded else Cooldown),
                 sst_updated_at := now\<rparr>) d1;
          d3 = (if cooldown = None then d2 else update_policy src (limit_policy now) d2);
          (e, d4) = ensure_endpoint now src cls d3;
          d5 = put_endpoint (e\<lparr>ep_consecutive_failures := ep_consecutive_failures e + 1, ep_last_error := take 4000 err,
                 ep_cooldown_until := cooldown, ep_updated_at := now\<rparr>) d4
      in case cooldown of
           None \<Rightarrow> Inr (None, d5)
         | Some until \<Rightarrow>
             bind_result (bypass_cooling_source (de_validate env) now src until (de_locked env) d5) (\<lambda>(_, d6).
               Inr (Some until, d6)))"

subsection \<open>Moving to another provider\<close>

definition download_attempt ::
  "download_snapshot \<Rightarrow> int \<Rightarrow> attempt_outcome \<Rightarrow> string \<Rightarrow> string \<Rightarrow> instant option \<Rightarrow> jdict \<Rightarrow> chapter_release_attempt" where
  "download_attempt s job out code msg after details =
     \<lparr>att_chapter_id = dsn_chapter_id s, att_chapter_release_id = dsn_release_id s, att_job_id = Some job,
      att_source = dsn_source s, att_outcome = out, att_error_code = code, att_error_message = msg,
      att_retry_after = after, att_details = details\<rparr>"

definition download_reroute ::
  "download_env \<Rightarrow> instant \<Rightarrow> int \<Rightarrow> download_snapshot \<Rightarrow> string \<Rightarrow> string \<Rightarrow> instant \<Rightarrow> db \<Rightarrow> (bool \<times> db) result" where
  "download_reroute env now i s code msg retry_at d =
     (case (find_job i d, get_row rel_id (dsn_release_id s) (releases d)) of
        (Some j, Some r) \<Rightarrow>
          if job_status j \<noteq> LEASED then Inr (False, d)
          else
            bind_result (validate_download (de_validate env) (job_payload j)) (\<lambda>p.
            let attempted = dsn_source s # cd_attempted_sources p;
                held = put_release (r\<lparr>rel_downloadable_after := Some retry_at\<rparr>) d
            in if cd_preferred_only p then Inr (False, held)
               else
                 (case fallback_release now (dsn_chapter_id s) (dsn_release_id s) attempted d of
                    None \<Rightarrow>
                      Inr (False, add_attempt (download_attempt s (job_id j) OutFailed code (take 4000 msg) (Some retry_at)
                               (fmap_of_list [(''fallback_available'', JBool False)]))
                             (put_job (j\<lparr>job_payload := model_dump (ChapterDownloadPayload
                                (p\<lparr>cd_attempted_sources := sort (remdups attempted)\<rparr>))\<rparr>) held))
                  | Some alt \<Rightarrow>
                      bind_result (reroute_release (de_validate env) now j r alt code msg (Some retry_at) d) (\<lambda>(_, d1).
                        Inr (True, d1))))
      | _ \<Rightarrow> Inr (False, d))"

subsection \<open>How the fetch ends\<close>

text \<open>The exceptions the handler tells apart, with \<open>exception_message\<close> of each; \<open>FetchRaised\<close> is any
  other one, \<open>FetchLeaseLost\<close> the one that \<open>ensure_lease\<close> raises while pages arrive.\<close>

datatype fetch_outcome =
    Fetched stored_blob
  | FetchRateLimited string "instant option" string
  | FetchUnavailable string "instant option"
  | FetchStatus int string string
  | FetchTransport string
  | FetchCapacity string
  | FetchInvalid string
  | FetchRaised string
  | FetchLeaseLost

text \<open>\<open>max(retry_at - utcnow(), timedelta(seconds=1))\<close>.\<close>

definition wait_until :: "instant \<Rightarrow> instant \<Rightarrow> duration" where
  "wait_until now t = max (t - now) (seconds 1)"

text \<open>An exception inside the handling of another one leaves the handler as an unexpected error; its
  transaction is rolled back, those before it are not.\<close>

definition escalate :: "download_env \<Rightarrow> 'a result \<Rightarrow> db \<Rightarrow> ('a \<Rightarrow> handler_outcome \<times> db) \<Rightarrow> handler_outcome \<times> db" where
  "escalate env r d f = (case r of Inl e \<Rightarrow> (Unexpected (de_describe env e), d) | Inr x \<Rightarrow> f x)"

text \<open>Reroute, or end with the given exception.\<close>

definition reroute_or ::
  "download_env \<Rightarrow> instant \<Rightarrow> int \<Rightarrow> download_snapshot \<Rightarrow> string \<Rightarrow> string \<Rightarrow> instant \<Rightarrow> handler_outcome \<Rightarrow> db \<Rightarrow> handler_outcome \<times> db" where
  "reroute_or env now i s code msg retry_at out d =
     escalate env (download_reroute env now i s code msg retry_at d) d (\<lambda>(moved, d1). (if moved then Rerouted else out, d1))"

definition status_retry_at :: "download_env \<Rightarrow> instant \<Rightarrow> int \<Rightarrow> string \<Rightarrow> db \<Rightarrow> instant" where
  "status_retry_at env now status src d =
     (if status = 404 then now + hours 24
      else if is_cloudflare_origin_error status then provider_cooldown_until now src d
      else now + download_cooldown env src d)"

definition status_failure ::
  "download_env \<Rightarrow> instant \<Rightarrow> int \<Rightarrow> download_snapshot \<Rightarrow> int \<Rightarrow> string \<Rightarrow> string \<Rightarrow> db \<Rightarrow> handler_outcome \<times> db" where
  "status_failure env now i s status msg cls d =
     (let code = ''http_'' @ str_of_int status;
          outage = is_cloudflare_origin_error status; transient = is_transient_provider_status status;
          retry0 = status_retry_at env now status (dsn_source s) d;
          recorded = (if status \<in> {403, 429} \<or> transient
             then record_source_failure env now (dsn_source s) msg
                    (if status \<in> {403, 429, 503} \<or> outage then Some retry0 else None) cls d
             else Inr (None, d))
      in escalate env recorded d (\<lambda>(effective, d1).
           let retry_at = (case effective of None \<Rightarrow> retry0 | Some t \<Rightarrow> t);
               deferred = Deferred (if outage then ''provider_origin_unavailable'' else code) msg (wait_until now retry_at)
           in if status \<in> {403, 404, 429} \<or> transient then reroute_or env now i s code msg retry_at deferred d1
              else if outage \<or> effective \<noteq> None then (deferred, d1)
              else (Retryable code msg (Some (retry_at - now)), d1)))"

definition download_failed ::
  "download_env \<Rightarrow> instant \<Rightarrow> int \<Rightarrow> download_snapshot \<Rightarrow> fetch_outcome \<Rightarrow> db \<Rightarrow> handler_outcome \<times> db" where
  "download_failed env now i s out d =
     (case out of
        FetchRateLimited msg after cls \<Rightarrow>
          (let retry_at = (case after of Some t \<Rightarrow> t | None \<Rightarrow> now + download_cooldown env (dsn_source s) d) in
           escalate env (record_source_failure env now (dsn_source s) msg (Some retry_at) cls d) d (\<lambda>(_, d1).
             reroute_or env now i s ''rate_limited'' msg retry_at (Deferred ''rate_limited'' msg (wait_until now retry_at)) d1))
      | FetchUnavailable msg after \<Rightarrow>
          (let retry_at = (case after of Some t \<Rightarrow> t | None \<Rightarrow> now + hours 6) in
           reroute_or env now i s ''temporarily_unavailable'' msg retry_at
             (Deferred ''temporarily_unavailable'' msg (wait_until now retry_at)) d)
      | FetchStatus status msg cls \<Rightarrow> status_failure env now i s status msg cls d
      | FetchTransport msg \<Rightarrow>
          escalate env (record_source_failure env now (dsn_source s) msg None ''cdn'' d) d (\<lambda>(effective, d1).
            let retry_at = (case effective of Some t \<Rightarrow> t | None \<Rightarrow> now + download_cooldown env (dsn_source s) d) in
            reroute_or env now i s ''source_network_error'' msg retry_at
              (Deferred ''source_network_error'' msg (wait_until now retry_at)) d1)
      | FetchCapacity msg \<Rightarrow> (Deferred ''storage_capacity'' msg (minutes 5), d)
      | FetchInvalid msg \<Rightarrow>
          reroute_or env now i s ''invalid_content'' msg (now + hours 24) (Deferred ''invalid_content'' msg (hours 24)) d
      | FetchRaised msg \<Rightarrow> (Unexpected msg, d)
      | FetchLeaseLost \<Rightarrow> (HandlerLeaseLost, d)
      | Fetched b \<Rightarrow> (HandlerDone, d))"

subsection \<open>Before and after the fetch\<close>

text \<open>The snapshot, the reservation of disk space and the first progress report: the release, or how the
  handler ends.\<close>

definition start_download ::
  "download_env \<Rightarrow> instant \<Rightarrow> job_lease \<Rightarrow> db \<Rightarrow> (handler_outcome + download_snapshot) \<times> db" where
  "start_download env now l d =
     (case lease_payload l of
        ChapterDownloadPayload p \<Rightarrow>
          (case load_snapshot (cd_chapter_release_id p) d of
             None \<Rightarrow> (Inl (Permanent ''release_missing'' ''chapter release does not exist''), d)
           | Some s \<Rightarrow>
               (let (ok, d1) = storage_reserve now (de_free_bytes env) (set_min_free_bytes (de_settings env)) (lease_id l)
                       (lease_owner l) (de_max_chapter_bytes env) (lease_expires_at l) d
                in if \<not> ok
                   then (Inl (Deferred ''storage_capacity''
                          ''download paused until the storage free-space reserve is restored'' (minutes 5)), d1)
                   else if dsn_source s \<notin> set (de_adapters env)
                   then (Inl (Retryable ''source_unavailable'' (''source '' @ dsn_source s @ '' is unavailable'') None), d1)
                   else (Inr s, snd (progress now (lease_id l) (lease_owner l) (''connecting to '' @ dsn_source s)
                          \<lparr>pd_phase = Some ''download'', pd_processed = Some 0, pd_current = None, pd_total = Some 0,
                           pd_unit = Some ''pages'', pd_bytes = None,
                           pd_dict = fmap_of_list [(''phase'', JStr ''download''), (''processed'', JInt 0), (''total'', JInt 0),
                             (''unit'', JStr ''pages'')]\<rparr> d1))))
      | _ \<Rightarrow> (Inl (Unexpected ''chapter download handler received the wrong payload''), d))"

definition is_upgrade :: "job_lease \<Rightarrow> bool" where
  "is_upgrade l = py_startswith (lease_dedupe_key l) ''upgrade:''"

definition is_fallback :: "job_lease \<Rightarrow> download_snapshot \<Rightarrow> db \<Rightarrow> bool" where
  "is_fallback l s d =
     list_ex (\<lambda>x. att_chapter_release_id x = dsn_release_id s \<and> att_job_id x = Some (lease_id l) \<and>
        att_outcome x = OutFallbackQueued) (attempts_log d)"

definition download_activation :: "job_lease \<Rightarrow> download_snapshot \<Rightarrow> stored_blob \<Rightarrow> db \<Rightarrow> activation" where
  "download_activation l s b d =
     \<lparr>ac_chapter = dsn_chapter_id s, ac_release = Some (dsn_release_id s), ac_blob = b,
      ac_path = projection_path (dsn_storage_key s) (dsn_chapter_id s) (dsn_chapter_number s),
      ac_provenance = (if is_upgrade l then ''upgrade'' else if is_fallback l s d then ''fallback'' else ''download''),
      ac_source = dsn_source s, ac_quality = dsn_quality_rank s, ac_replace = True\<rparr>"

text \<open>Foreign keys of an attempt.\<close>

definition record_attempt :: "chapter_release_attempt \<Rightarrow> db \<Rightarrow> db result" where
  "record_attempt x d =
     (if chapter_known (att_chapter_id x) d \<and> release_known (Some (att_chapter_release_id x)) d \<and>
         (case att_job_id x of None \<Rightarrow> True | Some i \<Rightarrow> find_job i d \<noteq> None)
      then Inr (add_attempt x d) else Inl IntegrityError)"

text \<open>The last transaction; \<open>linked\<close> is whether the archive could be linked to its projection.\<close>

definition store_download ::
  "download_env \<Rightarrow> instant \<Rightarrow> bool \<Rightarrow> job_lease \<Rightarrow> download_snapshot \<Rightarrow> stored_blob \<Rightarrow> db \<Rightarrow> (activation_result \<times> db) result" where
  "store_download env now linked l s b d =
     bind_result (activate now (download_activation l s b d) d) (\<lambda>(r, d1).
     if \<not> linked then Inl (RuntimeError ''FileNotFoundError'')
     else
       bind_result (enqueue_library_repair (de_validate env) now (dsn_series_id s) ''download'' 100 [] d1) (\<lambda>(_, _, d2).
       bind_result (record_attempt (download_attempt s (lease_id l)
              (if is_upgrade l then OutUpgraded else if is_fallback l s d then OutFallbackSucceeded else OutSucceeded)
              [] [] None (fmap_of_list [(''artifact_id'', JInt (ar_artifact_id r))])) d2) (\<lambda>d3.
       bind_result (reconcile (de_validate env) 20 now (dsn_series_id s) d3) (\<lambda>(_, d4). Inr (r, d4)))))"

definition finish_download ::
  "download_env \<Rightarrow> instant \<Rightarrow> bool \<Rightarrow> bool \<Rightarrow> job_lease \<Rightarrow> download_snapshot \<Rightarrow> fetch_outcome \<Rightarrow> db \<Rightarrow> handler_outcome \<times> db" where
  "finish_download env now lost linked l s out d =
     (case out of
        Fetched b \<Rightarrow>
          if lost then (HandlerLeaseLost, d)
          else escalate env (store_download env now linked l s b d) d (\<lambda>(_, d1). (HandlerDone, d1))
      | _ \<Rightarrow> download_failed env now (lease_id l) s out d)"

text \<open>The whole handler, when nothing else runs while it fetches.\<close>

definition chapter_download ::
  "download_env \<Rightarrow> instant \<Rightarrow> instant \<Rightarrow> bool \<Rightarrow> bool \<Rightarrow> (download_snapshot \<Rightarrow> fetch_outcome) \<Rightarrow> job_lease \<Rightarrow> db
   \<Rightarrow> handler_outcome \<times> db" where
  "chapter_download env started now lost linked fetch l d =
     (case start_download env started l d of
        (Inl out, d1) \<Rightarrow> (out, d1)
      | (Inr s, d1) \<Rightarrow> finish_download env now lost linked l s (fetch s) d1)"

end
