(* ===== verification/Artifact_Store_Properties.thy ===== *)
theory Artifact_Store_Properties
  imports Artifact_Store Download_Plan_Rows
begin

text \<open>
  Putting archives into service: every chapter has at most one active archive, every projection
  belongs to an archive of its chapter, and nothing is lost when an archive is replaced.
\<close>

subsection \<open>The invariant of the archive tables\<close>

definition archives_ok :: "db \<Rightarrow> bool" where
  "archives_ok d =
     (distinct (map art_id (artifacts d)) \<and> (\<forall>a \<in> set (artifacts d). art_id a < artifact_seq (library d)) \<and>
      (\<forall>a \<in> set (artifacts d). \<forall>b \<in> set (artifacts d). art_state a = ArtActive \<and> art_state b = ArtActive \<and>
         art_chapter_id a = art_chapter_id b \<longrightarrow> a = b) \<and>
      distinct (map lp_chapter_id (library_projections (library d))) \<and>
      distinct (map lp_artifact_id (library_projections (library d))) \<and>
      distinct (map lp_relative_path (library_projections (library d))) \<and>
      (\<forall>p \<in> set (library_projections (library d)). \<exists>a \<in> set (artifacts d).
         art_id a = lp_artifact_id p \<and> art_chapter_id a = lp_chapter_id p))"

lemma archives_okD:
  assumes "archives_ok d"
  shows "distinct (map art_id (artifacts d))" "a \<in> set (artifacts d) \<Longrightarrow> art_id a < artifact_seq (library d)"
    "a \<in> set (artifacts d) \<Longrightarrow> b \<in> set (artifacts d) \<Longrightarrow> art_state a = ArtActive \<Longrightarrow> art_state b = ArtActive \<Longrightarrow>
       art_chapter_id a = art_chapter_id b \<Longrightarrow> a = b"
    "p \<in> set (library_projections (library d)) \<Longrightarrow> \<exists>a \<in> set (artifacts d). art_id a = lp_artifact_id p \<and> art_chapter_id a = lp_chapter_id p"
  using assms unfolding archives_ok_def by blast+

lemma archives_ok_cong:
  "artifacts d' = artifacts d \<Longrightarrow> artifact_seq (library d') = artifact_seq (library d) \<Longrightarrow>
   library_projections (library d') = library_projections (library d) \<Longrightarrow> archives_ok d' = archives_ok d"
  by (simp add: archives_ok_def)

lemma active_artifact_SomeD:
  "active_artifact ch d = Some x \<Longrightarrow> x \<in> set (artifacts d) \<and> art_chapter_id x = ch \<and> art_state x = ArtActive"
  by (auto simp: active_artifact_def find_Some_iff)

lemma active_artifact_None:
  "active_artifact ch d = None \<longleftrightarrow> (\<forall>x \<in> set (artifacts d). art_chapter_id x = ch \<longrightarrow> art_state x \<noteq> ArtActive)"
  by (auto simp: active_artifact_def find_None_iff)

lemma active_artifactI:
  assumes "archives_ok d" "x \<in> set (artifacts d)" "art_state x = ArtActive"
  shows "active_artifact (art_chapter_id x) d = Some x"
proof (cases "active_artifact (art_chapter_id x) d")
  case None
  then show ?thesis using assms by (simp add: active_artifact_None)
next
  case (Some y)
  then show ?thesis using active_artifact_SomeD [OF Some] archives_okD(3) [OF assms(1)] assms by metis
qed

text \<open>What an operation on one chapter leaves alone.\<close>

definition other_archives :: "int \<Rightarrow> db \<Rightarrow> chapter_artifact list" where
  "other_archives ch d = filter (\<lambda>a. art_chapter_id a \<noteq> ch) (artifacts d)"

definition archive_ids :: "db \<Rightarrow> int set" where
  "archive_ids d = art_id ` set (artifacts d)"

subsection \<open>The writes\<close>

lemma store_blob_facts:
  assumes "store_blob b d = Inr d'"
  shows "artifacts d' = artifacts d" "artifact_seq (library d') = artifact_seq (library d)"
    "library_projections (library d') = library_projections (library d)" "chapters d' = chapters d" "releases d' = releases d"
    "get_row blb_checksum (sb_checksum b) (artifact_blobs (library d')) \<noteq> None"
  using assms by (auto simp: store_blob_def Let_def on_library_def get_row_append get_row_Cons split: if_splits option.splits)

lemma put_artifact_frame [simp]:
  "library (put_artifact a d) = library d" "chapters (put_artifact a d) = chapters d" "releases (put_artifact a d) = releases d"
  "artifacts (put_artifact a d) = put_row art_id a (artifacts d)"
  by (simp_all add: put_artifact_def)

lemma on_library_rows [simp]:
  "artifacts (on_library f d) = artifacts d" "library (on_library f d) = f (library d)"
  by (simp_all add: on_library_def)

lemma put_artifact_ok:
  assumes ok: "archives_ok d" and x: "x \<in> set (artifacts d)"
    and x': "art_id x' = art_id x" "art_chapter_id x' = art_chapter_id x" "art_state x' = ArtActive \<Longrightarrow> art_state x = ArtActive"
  shows "archives_ok (put_artifact x' d)" "other_archives (art_chapter_id x) (put_artifact x' d) = other_archives (art_chapter_id x) d"
    "archive_ids (put_artifact x' d) = archive_ids d"
proof -
  note D = archives_okD [OF ok]
  have row: "put_row art_id x' (artifacts d) = map (\<lambda>a. if a = x then x' else a) (artifacts d)"
    unfolding put_row_def using D(1) x x'(1) by (auto simp: distinct_map inj_on_def)
  have ids: "map art_id (put_row art_id x' (artifacts d)) = map art_id (artifacts d)"
    by (simp add: row x'(1))
  then show "archive_ids (put_artifact x' d) = archive_ids d"
    unfolding archive_ids_def by (metis list.set_map put_artifact_frame(4))
  show "other_archives (art_chapter_id x) (put_artifact x' d) = other_archives (art_chapter_id x) d"
  proof -
    have "filter (\<lambda>a. art_chapter_id a \<noteq> art_chapter_id x) (map (\<lambda>a. if a = x then x' else a) rs) =
        filter (\<lambda>a. art_chapter_id a \<noteq> art_chapter_id x) rs" for rs
      by (induction rs) (simp_all add: x'(2))
    then show ?thesis unfolding other_archives_def put_artifact_frame row .
  qed
  have origin: "\<exists>b \<in> set (artifacts d). (a = b \<and> b \<noteq> x \<or> a = x' \<and> b = x) \<and> art_id a = art_id b \<and>
      art_chapter_id a = art_chapter_id b \<and> (art_state a = ArtActive \<longrightarrow> art_state b = ArtActive)"
    if "a \<in> set (put_row art_id x' (artifacts d))" for a
    using that x x' by (auto simp: row split: if_splits)
  show "archives_ok (put_artifact x' d)"
    unfolding archives_ok_def put_artifact_frame ids
  proof (intro conjI ballI impI)
    show "distinct (map art_id (artifacts d))" by (rule D(1))
    show "art_id a < artifact_seq (library d)" if "a \<in> set (put_row art_id x' (artifacts d))" for a
      using origin [OF that] D(2) by auto
    show "a = b" if "a \<in> set (put_row art_id x' (artifacts d))" "b \<in> set (put_row art_id x' (artifacts d))"
      "art_state a = ArtActive \<and> art_state b = ArtActive \<and> art_chapter_id a = art_chapter_id b" for a b
      using origin [OF that(1)] origin [OF that(2)] that(3) D(3) by metis
    show "\<exists>a \<in> set (put_row art_id x' (artifacts d)). art_id a = lp_artifact_id p \<and> art_chapter_id a = lp_chapter_id p"
      if p: "p \<in> set (library_projections (library d))" for p
    proof -
      obtain a where "a \<in> set (artifacts d)" "art_id a = lp_artifact_id p" "art_chapter_id a = lp_chapter_id p"
        using D(4) [OF p] by blast
      then show ?thesis using x' by (intro bexI [of _ "if a = x then x' else a"]) (auto simp: row)
    qed
  qed (use ok in \<open>simp_all add: archives_ok_def\<close>)
qed

lemma add_artifact_facts:
  assumes ok: "archives_ok d" and run: "add_artifact x d = Inr (i, d')"
  shows "archives_ok d'" "i = artifact_seq (library d)" "artifacts d' = artifacts d @ [x\<lparr>art_id := i\<rparr>]"
    "library_projections (library d') = library_projections (library d)" "artifact_blobs (library d') = artifact_blobs (library d)"
    "chapters d' = chapters d" "releases d' = releases d"
proof -
  note D = archives_okD [OF ok]
  show i: "i = artifact_seq (library d)" and a: "artifacts d' = artifacts d @ [x\<lparr>art_id := i\<rparr>]"
    and p: "library_projections (library d') = library_projections (library d)"
    and "artifact_blobs (library d') = artifact_blobs (library d)" "chapters d' = chapters d" "releases d' = releases d"
    using run by (auto simp: add_artifact_def Let_def on_library_def split: if_splits)
  have seq: "artifact_seq (library d') = artifact_seq (library d) + 1"
    and free: "art_state x = ArtActive \<Longrightarrow> \<forall>y \<in> set (artifacts d). art_chapter_id y = art_chapter_id x \<longrightarrow> art_state y \<noteq> ArtActive"
    using run by (auto simp: add_artifact_def Let_def on_library_def active_artifact_None split: if_splits)
  show "archives_ok d'"
    unfolding archives_ok_def a p seq
  proof (intro conjI ballI impI)
    show "distinct (map art_id (artifacts d @ [x\<lparr>art_id := i\<rparr>]))" using D(1,2) i by fastforce
    show "art_id b < artifact_seq (library d) + 1" if "b \<in> set (artifacts d @ [x\<lparr>art_id := i\<rparr>])" for b
      using that D(2) i by fastforce
    show "b = c" if "b \<in> set (artifacts d @ [x\<lparr>art_id := i\<rparr>])" "c \<in> set (artifacts d @ [x\<lparr>art_id := i\<rparr>])"
      "art_state b = ArtActive \<and> art_state c = ArtActive \<and> art_chapter_id b = art_chapter_id c" for b c
      using that free D(3) by fastforce
    show "\<exists>b \<in> set (artifacts d @ [x\<lparr>art_id := i\<rparr>]). art_id b = lp_artifact_id q \<and> art_chapter_id b = lp_chapter_id q"
      if "q \<in> set (library_projections (library d))" for q
      using D(4) [OF that] by auto
  qed (use ok in \<open>simp_all add: archives_ok_def\<close>)
qed

lemma upsert_projection_facts:
  assumes ok: "archives_ok d" and run: "upsert_projection ch i path d = Inr d'"
    and a: "\<exists>a \<in> set (artifacts d). art_id a = i \<and> art_chapter_id a = ch"
  shows "archives_ok d'" "artifacts d' = artifacts d"
    "get_row lp_chapter_id ch (library_projections (library d')) = Some \<lparr>lp_chapter_id = ch, lp_artifact_id = i, lp_relative_path = path\<rparr>"
    "artifact_blobs (library d') = artifact_blobs (library d)" "chapters d' = chapters d" "releases d' = releases d"
proof -
  let ?rows = "library_projections (library d)" and ?p = "\<lparr>lp_chapter_id = ch, lp_artifact_id = i, lp_relative_path = path\<rparr>"
  let ?new = "if get_row lp_chapter_id ch ?rows = None then ?rows @ [?p] else put_row lp_chapter_id ?p ?rows"
  have no: "\<not> list_ex (\<lambda>x. lp_chapter_id x \<noteq> ch \<and> (lp_artifact_id x = i \<or> lp_relative_path x = path)) ?rows"
    using run by (auto simp: upsert_projection_def Let_def)
  then have free: "\<forall>x \<in> set ?rows. lp_chapter_id x \<noteq> ch \<longrightarrow> lp_artifact_id x \<noteq> i \<and> lp_relative_path x \<noteq> path"
    by (auto simp: list_ex_iff)
  have d': "d' = on_library (\<lambda>l. l\<lparr>library_projections := ?new\<rparr>) d"
    using run unfolding upsert_projection_def Let_def if_not_P [OF no] sum.inject by (rule sym)
  then show "artifacts d' = artifacts d" "artifact_blobs (library d') = artifact_blobs (library d)"
    "chapters d' = chapters d" "releases d' = releases d" by (simp_all add: on_library_def)
  have dist: "distinct (map lp_chapter_id ?rows)" "distinct (map lp_artifact_id ?rows)" "distinct (map lp_relative_path ?rows)"
    using ok by (simp_all add: archives_ok_def)
  have sub: "x \<in> set ?rows \<and> lp_chapter_id x \<noteq> ch \<or> x = ?p" if "x \<in> set ?new" for x
    using that by (auto simp: get_row_None_iff put_row_def split: if_splits)
  have chs: "distinct (map lp_chapter_id ?new)"
    using dist(1) keys_put_row [of lp_chapter_id ?p ?rows] by (auto simp: get_row_None_iff)
  have inj: "x = y" if "x \<in> set ?new" "y \<in> set ?new" "lp_artifact_id x = lp_artifact_id y \<or> lp_relative_path x = lp_relative_path y" for x y
    using sub [OF that(1)] sub [OF that(2)] that(3) free dist(2,3) unfolding distinct_map inj_on_def by fastforce
  then have inj': "inj_on lp_artifact_id (set ?new)" "inj_on lp_relative_path (set ?new)" unfolding inj_on_def by blast+
  have new: "distinct (map lp_artifact_id ?new)" "distinct (map lp_relative_path ?new)"
    using chs inj' unfolding distinct_map by blast+
  note D = archives_okD [OF ok]
  have "\<exists>b \<in> set (artifacts d). art_id b = lp_artifact_id x \<and> art_chapter_id b = lp_chapter_id x" if "x \<in> set ?new" for x
    using sub [OF that] D(4) a by auto
  then show "archives_ok d'"
    unfolding archives_ok_def d' using D(1-3) chs new by (simp add: on_library_def)
  have "get_row lp_chapter_id ch ?new = Some ?p"
    by (auto simp: get_row_append get_row_Cons intro: get_put_row_same)
  then show "get_row lp_chapter_id ch (library_projections (library d')) = Some ?p" by (simp add: d' on_library_def)
qed

subsection \<open>Activation\<close>

lemma other_archives_same: "artifacts d' = artifacts d \<Longrightarrow> other_archives ch d' = other_archives ch d"
  by (simp add: other_archives_def)

text \<open>The archive in service at a chapter.\<close>

definition in_service :: "int \<Rightarrow> string \<Rightarrow> string \<Rightarrow> int \<Rightarrow> db \<Rightarrow> bool" where
  "in_service ch checksum path i d =
     ((\<exists>x. active_artifact ch d = Some x \<and> art_id x = i \<and> art_blob_checksum x = checksum) \<and>
      get_row lp_chapter_id ch (library_projections (library d)) =
        Some \<lparr>lp_chapter_id = ch, lp_artifact_id = i, lp_relative_path = path\<rparr> \<and>
      get_row blb_checksum checksum (artifact_blobs (library d)) \<noteq> None)"

lemma in_service_cong:
  "artifacts d' = artifacts d \<Longrightarrow> library d' = library d \<Longrightarrow> in_service ch c path i d' = in_service ch c path i d"
  by (simp add: in_service_def active_artifact_def)

lemma activate_new_facts:
  assumes ok: "archives_ok d" and run: "activate_new a d = Inr (r, d')"
    and blob: "get_row blb_checksum (sb_checksum (ac_blob a)) (artifact_blobs (library d)) \<noteq> None"
  shows "archives_ok d'" "in_service (ac_chapter a) (sb_checksum (ac_blob a)) (ac_path a) (ar_artifact_id r) d'"
    "other_archives (ac_chapter a) d' = other_archives (ac_chapter a) d" "archive_ids d \<subseteq> archive_ids d'"
    "ar_status r = Activated" "chapters d' = chapters d" "releases d' = releases d"
proof -
  obtain i d1 where add: "add_artifact (artifact_row a ArtActive) d = Inr (i, d1)"
    and up: "upsert_projection (ac_chapter a) i (ac_path a) d1 = Inr d'"
    and r: "ar_artifact_id r = i" "ar_status r = Activated"
    using run by (auto simp: activate_new_def bind_result_eq_Inr)
  let ?x = "(artifact_row a ArtActive)\<lparr>art_id := i\<rparr>"
  note A = add_artifact_facts [OF ok add]
  have x: "?x \<in> set (artifacts d1)" "art_id ?x = i" "art_chapter_id ?x = ac_chapter a" "art_state ?x = ArtActive"
    "art_blob_checksum ?x = sb_checksum (ac_blob a)"
    by (simp_all add: A(3) artifact_row_def)
  note U = upsert_projection_facts [OF A(1) up]
  have a: "\<exists>b \<in> set (artifacts d1). art_id b = i \<and> art_chapter_id b = ac_chapter a" using x by blast
  note U = U [OF a]
  show ok': "archives_ok d'" by (rule U(1))
  have "active_artifact (ac_chapter a) d' = Some ?x"
    using active_artifactI [OF ok', of ?x] x by (simp add: U(2))
  then show "in_service (ac_chapter a) (sb_checksum (ac_blob a)) (ac_path a) (ar_artifact_id r) d'"
    unfolding in_service_def r(1) using x(2,5) U(3,4) A(5) blob by simp
  show "other_archives (ac_chapter a) d' = other_archives (ac_chapter a) d"
    by (simp add: other_archives_def U(2) A(3) artifact_row_def)
  show "archive_ids d \<subseteq> archive_ids d'" by (auto simp: archive_ids_def U(2) A(3))
  show "ar_status r = Activated" by (rule r(2))
  show "chapters d' = chapters d" "releases d' = releases d" using U(5,6) A(6,7) by simp_all
qed

lemma activate_facts:
  assumes ok: "archives_ok d" and run: "activate now a d = Inr (r, d')"
  shows "archives_ok d' \<and> other_archives (ac_chapter a) d' = other_archives (ac_chapter a) d \<and>
    archive_ids d \<subseteq> archive_ids d' \<and> chapters d' = chapters d \<and> releases d' = releases d \<and>
    (if ar_status r = Conflict then \<not> ac_replace a \<and> active_artifact (ac_chapter a) d \<noteq> None \<and>
         active_artifact (ac_chapter a) d' = active_artifact (ac_chapter a) d \<and>
         library_projections (library d') = library_projections (library d)
     else in_service (ac_chapter a) (sb_checksum (ac_blob a)) (ac_path a) (ar_artifact_id r) d')"
proof -
  let ?ch = "ac_chapter a"
  obtain d0 where blob: "store_blob (ac_blob a) d = Inr d0"
    using run by (auto simp: activate_def bind_result_eq_Inr)
  note B = store_blob_facts [OF blob]
  have ok0: "archives_ok d0" using ok archives_ok_cong [OF B(1-3)] by simp
  have act: "active_artifact ?ch d0 = active_artifact ?ch d" by (simp add: active_artifact_def B(1))
  have base: "other_archives ?ch d0 = other_archives ?ch d" "archive_ids d0 = archive_ids d"
    by (simp_all add: other_archives_def archive_ids_def B(1))
  note run' = run [unfolded activate_def blob bind_result_simps act]
  show ?thesis
  proof (cases "active_artifact ?ch d")
    case None
    then have "activate_new a d0 = Inr (r, d')" using run' by simp
    from activate_new_facts [OF ok0 this B(6)] show ?thesis using base B(4,5) by simp
  next
    case (Some x)
    note X = active_artifact_SomeD [OF Some]
    have x0: "x \<in> set (artifacts d0)" "art_chapter_id x = ?ch" using X by (simp_all add: B(1))
    consider (dup) "art_blob_checksum x = sb_checksum (ac_blob a)"
      | (keep) "art_blob_checksum x \<noteq> sb_checksum (ac_blob a)" "\<not> ac_replace a"
      | (new) "art_blob_checksum x \<noteq> sb_checksum (ac_blob a)" "ac_replace a" by blast
    then show ?thesis
    proof cases
      case dup
      let ?x = "refreshed_artifact a x"
      have R: "art_id ?x = art_id x" "art_chapter_id ?x = art_chapter_id x" "art_state ?x = art_state x"
        "art_blob_checksum ?x = art_blob_checksum x"
        by (simp_all add: refreshed_artifact_def)
      obtain d1 where up: "upsert_projection ?ch (art_id x) (ac_path a) (put_artifact ?x d0) = Inr d1"
        and r: "r = \<lparr>ar_status = Duplicate, ar_artifact_id = art_id x, ar_projection_path = ac_path a\<rparr>" "d' = d1"
        using run' Some dup by (auto simp: Let_def bind_result_eq_Inr split: if_splits)
      have "art_state ?x = ArtActive \<Longrightarrow> art_state x = ArtActive" by (simp only: R(3))
      note P = put_artifact_ok [OF ok0 x0(1) R(1,2) this]
      have in1: "?x \<in> set (artifacts (put_artifact ?x d0))" by (simp only: put_artifact_frame) (rule in_put_rowI [OF x0(1) R(1) [symmetric]])
      have "\<exists>b \<in> set (artifacts (put_artifact ?x d0)). art_id b = art_id x \<and> art_chapter_id b = ?ch"
        using in1 R(1,2) x0(2) by (intro bexI [OF _ in1]) simp
      note U = upsert_projection_facts [OF P(1) up this]
      have "active_artifact ?ch d1 = Some ?x"
        using active_artifactI [OF U(1), of ?x] in1 R X by (simp add: U(2))
      then have "in_service ?ch (sb_checksum (ac_blob a)) (ac_path a) (ar_artifact_id r) d'"
        unfolding in_service_def r using U(3,4) B(6) R dup by simp
      then show ?thesis
        using U(1,5,6) P(2,3) base B(4,5) x0(2) by (simp add: r other_archives_def archive_ids_def U(2))
    next
      case keep
      obtain i d1 where add: "add_artifact (artifact_row a ArtQuarantined) d0 = Inr (i, d1)"
        and r: "r = \<lparr>ar_status = Conflict, ar_artifact_id = i, ar_projection_path = ac_path a\<rparr>" "d' = d1"
        using run' Some keep by (auto simp: bind_result_eq_Inr)
      note A = add_artifact_facts [OF ok0 add]
      have "active_artifact ?ch d1 = Some x"
        using active_artifactI [OF A(1), of x] x0 X by (simp add: A(3))
      then show ?thesis
        using A keep Some base B by (auto simp: r other_archives_def archive_ids_def artifact_row_def)
    next
      case new
      let ?x = "x\<lparr>art_state := ArtInactive, art_deactivated_at := Some now\<rparr>"
      have "activate_new a (put_artifact ?x d0) = Inr (r, d')" using run' Some new by simp
      note N = activate_new_facts [OF put_artifact_ok(1) [OF ok0 x0(1)] this]
      have "archives_ok (put_artifact ?x d0)" by (rule put_artifact_ok(1) [OF ok0 x0(1)]) simp_all
      note N = activate_new_facts [OF this \<open>activate_new a (put_artifact ?x d0) = Inr (r, d')\<close>]
      have P: "other_archives ?ch (put_artifact ?x d0) = other_archives ?ch d0" "archive_ids (put_artifact ?x d0) = archive_ids d0"
        using put_artifact_ok(2,3) [OF ok0 x0(1), of ?x] x0(2) by simp_all
      show ?thesis using N B(6) base P B(4,5) by simp
    qed
  qed
qed

end
