(* ===== verification/Download_Run_Demo.thy ===== *)
theory Download_Run_Demo
  imports Download_Demo Settings
begin

text \<open>
  A run of the queue on the small catalogue: the series is tracked and a worker claims one of its
  downloads.
\<close>

definition demo_settings :: v2_settings where
  "demo_settings = default_settings ''worker-1''"

definition demo_download_claim :: claim_args where
  "demo_download_claim = \<lparr>ca_owner = ''worker-1'', ca_lease_for = lease_for demo_settings,
     ca_kinds = Some [CHAPTER_DOWNLOAD], ca_pool_limits = pool_limits demo_settings, ca_window = 2, ca_pools = None\<rparr>"

definition demo_downloading :: db where
  "demo_downloading = (case claim strict_validate 2000 demo_download_claim [] demo_tracked of
     Inr (_, d) \<Rightarrow> d | Inl _ \<Rightarrow> demo_tracked)"

lemma demo_download_claimed:
  "case claim strict_validate 2000 demo_download_claim [] demo_tracked of
     Inr (Some l, d) \<Rightarrow> lease_source l = ''mangadex'' | _ \<Rightarrow> False"
  by code_simp

lemma demo_track_result: "\<exists>p. track strict_validate 20 1000 1 demo_catalog = Inr (p, demo_tracked)"
proof -
  have "\<not> isl (track strict_validate 20 1000 1 demo_catalog)" by code_simp
  then show ?thesis unfolding demo_tracked_def by (auto split: sum.splits)
qed

lemma demo_download_run:
  "(queue_step strict_validate (pool_limits demo_settings))\<^sup>*\<^sup>* (0, empty_db) (1000, demo_tracked)"
  "(queue_step strict_validate (pool_limits demo_settings))\<^sup>*\<^sup>* (0, empty_db) (2000, demo_downloading)"
proof -
  let ?step = "queue_step strict_validate (pool_limits demo_settings)"
  have "?step (0, empty_db) (1000, demo_catalog)"
    by (rule queue_step.Other) (simp_all add: demo_catalog_def empty_db_def)
  moreover obtain p where "track strict_validate 20 1000 1 demo_catalog = Inr (p, demo_tracked)"
    using demo_track_result by blast
  then have "?step\<^sup>*\<^sup>* (1000, demo_catalog) (1000, demo_tracked)"
    using track_run unfolding queue_run_def by blast
  ultimately show 1: "?step\<^sup>*\<^sup>* (0, empty_db) (1000, demo_tracked)" by (rule converse_rtranclp_into_rtranclp)
  obtain r where "claim strict_validate 2000 demo_download_claim [] demo_tracked = Inr (r, demo_downloading)"
    using demo_download_claimed unfolding demo_downloading_def by (auto split: sum.splits)
  then have "?step (1000, demo_tracked) (2000, demo_downloading)"
    by (intro queue_step.Claim [where a = demo_download_claim]) (simp_all add: demo_download_claim_def)
  with 1 show "?step\<^sup>*\<^sup>* (0, empty_db) (2000, demo_downloading)" by (rule rtranclp.rtrancl_into_rtrancl)
qed

lemma empty_db_init: "queue_init (0, empty_db)"
  by (simp add: queue_init_def empty_db_def)

end
