(* ===== verification/Chapter_Download_Properties.thy ===== *)
theory Chapter_Download_Properties
  imports Chapter_Download Artifact_Store_Properties Series_Merge_Properties Provider_Health_Properties Download_Plan_Properties
    Download_Run_Demo
begin

text \<open>
  What a chapter download promises: a finished download is in service and its intent is settled; a
  failed one is tried again later, by this provider or another; and the queue invariants hold after
  each of its transactions.
\<close>

subsection \<open>Frames\<close>

definition same_shelves :: "db \<Rightarrow> db \<Rightarrow> bool" where
  "same_shelves d d' = (artifacts d' = artifacts d \<and> library d' = library d)"

lemma same_shelves_refl [simp]: "same_shelves d d"
  by (simp add: same_shelves_def)

lemma same_shelves_trans: "same_shelves d e \<Longrightarrow> same_shelves e f \<Longrightarrow> same_shelves d f"
  by (simp add: same_shelves_def)

lemma same_shelves_put [simp]:
  "same_shelves d (put_intent i d)" "same_shelves d (put_plan p d)" "same_shelves d (add_attempt a d)"
  "same_shelves d (add_intent now plan pids c d)"
  by (simp_all add: same_shelves_def put_intent_def put_plan_def add_attempt_def add_intent_def split_beta Let_def)

lemma same_shelves_fold: "(\<And>x e. same_shelves e (f x e)) \<Longrightarrow> same_shelves d (fold f xs d)"
  by (induction xs arbitrary: d) (auto intro: same_shelves_trans simp: same_shelves_def)

lemma same_shelves_catalog: "same_catalog d d' \<Longrightarrow> same_shelves d d'"
  by (simp add: same_catalog_def same_shelves_def)

lemma same_shelves_enqueue_intent:
  assumes "enqueue_intent mv w now s i st = Inr st'"
  shows "same_shelves (snd st) (snd st')"
proof -
  obtain n d n' d' where st: "st = (n, d)" "st' = (n', d')" by (cases st; cases st') blast
  have "same_shelves d d'"
    using assms [unfolded st]
  proof (cases rule: enqueue_intent_cases)
    case (given job d1)
    then show ?thesis using same_shelves_trans [OF same_shelves_catalog same_shelves_put(1)] by simp
  qed simp_all
  then show ?thesis by (simp add: st)
qed

lemma same_shelves_reconcile:
  assumes "reconcile mv w now s d = Inr (po, d')"
  shows "same_shelves d d'"
proof (cases "\<exists>plan. find_plan s d = Some plan \<and> plan_status_of plan = PlanActive")
  case True
  then obtain plan where p: "find_plan s d = Some plan" "plan_status_of plan = PlanActive" by blast
  obtain plan1 rows n d2 where r: "enqueue_ready mv w now s rows (put_intents rows (sync_chapters now plan d)) = Inr (n, d2)"
    "d' = put_plan plan1 d2"
    using reconcile_InrD [OF assms p] by metis
  have 1: "same_shelves d (sync_chapters now plan d)"
    unfolding sync_chapters_def Let_def by (rule same_shelves_fold) simp
  have 2: "same_shelves (sync_chapters now plan d) (put_intents rows (sync_chapters now plan d))"
    unfolding put_intents_def by (rule same_shelves_fold) simp
  have "same_shelves (snd (n0, e)) (snd (n, d2))"
    if "fold_result (enqueue_intent mv w now s) xs (n0, e) = Inr (n, d2)" for xs n0 e
    by (rule fold_result_rel [where R = "\<lambda>s s'. same_shelves (snd s) (snd s')", OF that])
       (auto simp: same_shelves_def dest: same_shelves_enqueue_intent [unfolded same_shelves_def])
  then have 3: "same_shelves (put_intents rows (sync_chapters now plan d)) d2"
    using r(1) by (simp add: enqueue_ready_def)
  show ?thesis unfolding r(2)
    using same_shelves_trans [OF same_shelves_trans [OF same_shelves_trans [OF 1 2] 3] same_shelves_put(2)] .
next
  case False
  then show ?thesis using reconcile_idle [OF assms] by (simp add: same_shelves_def)
qed

subsection \<open>The parts of the last transaction\<close>

lemma store_downloadE:
  assumes "store_download env now linked l s b d = Inr (r, d')"
  obtains d1 j c d2 x po where "activate now (download_activation l s b d) d = Inr (r, d1)" "linked"
    "enqueue_library_repair (de_validate env) now (dsn_series_id s) ''download'' 100 [] d1 = Inr (j, c, d2)"
    "reconcile (de_validate env) 20 now (dsn_series_id s) (add_attempt x d2) = Inr (po, d')"
proof -
  obtain r1 d1 where 1: "activate now (download_activation l s b d) d = Inr (r1, d1)"
    using assms by (auto simp: store_download_def bind_result_eq_Inr)
  note run = assms [unfolded store_download_def 1 bind_result_simps prod.case]
  have linked: linked using run by (cases linked) simp_all
  obtain j c d2 where 2: "enqueue_library_repair (de_validate env) now (dsn_series_id s) ''download'' 100 [] d1 = Inr (j, c, d2)"
    using run linked by (auto simp: bind_result_eq_Inr)
  obtain x where "bind_result (reconcile (de_validate env) 20 now (dsn_series_id s) (add_attempt x d2)) (\<lambda>(_, d4). Inr (r1, d4)) = Inr (r, d')"
    using run linked by (auto simp: 2 record_attempt_def split: if_splits)
  then obtain po where "reconcile (de_validate env) 20 now (dsn_series_id s) (add_attempt x d2) = Inr (po, d')" "r1 = r"
    by (auto simp: bind_result_eq_Inr)
  then show thesis using that 1 2 linked by simp
qed

definition same_desk :: "db \<Rightarrow> db \<Rightarrow> bool" where
  "same_desk d d' = (same_queue d d' \<and> intents d' = intents d \<and> intent_seq d' = intent_seq d \<and> plans d' = plans d \<and> chapters d' = chapters d)"

lemma same_desk_trans: "same_desk d e \<Longrightarrow> same_desk e f \<Longrightarrow> same_desk d f"
  by (auto simp: same_desk_def intro: same_queue_trans)

lemma same_desk_basic [simp]:
  "same_desk d d" "same_desk d (on_library f d)" "same_desk d (put_artifact a d)" "same_desk d (d\<lparr>artifacts := xs\<rparr>)"
  by (simp_all add: same_desk_def same_queue_def on_library_def put_artifact_def)

lemma same_desk_store: "store_blob b d = Inr d' \<Longrightarrow> same_desk d d'"
  by (auto simp: store_blob_def Let_def split: if_splits)

lemma same_desk_upsert: "upsert_projection ch i path d = Inr d' \<Longrightarrow> same_desk d d'"
  by (auto simp: upsert_projection_def Let_def split: if_splits)

lemma same_desk_add: "add_artifact a d = Inr (i, d') \<Longrightarrow> same_desk d d'"
  using same_desk_trans [OF same_desk_basic(4) same_desk_basic(2)] by (auto simp: add_artifact_def Let_def split: if_splits)

lemma same_desk_new: "activate_new a d = Inr (r, d') \<Longrightarrow> same_desk d d'"
  using same_desk_trans [OF same_desk_add same_desk_upsert] by (auto simp: activate_new_def bind_result_eq_Inr)

lemma same_desk_activate:
  assumes "activate now a d = Inr (r, d')"
  shows "same_desk d d'"
proof -
  obtain d0 where blob: "store_blob (ac_blob a) d = Inr d0" using assms by (auto simp: activate_def bind_result_eq_Inr)
  note run = assms [unfolded activate_def blob bind_result_simps]
  have "same_desk d0 d'"
  proof (cases "active_artifact (ac_chapter a) d0")
    case None
    then show ?thesis using run same_desk_new by simp
  next
    case (Some x)
    then consider y where "upsert_projection (ac_chapter a) (art_id x) (ac_path a) (put_artifact y d0) = Inr d'"
      | y i where "add_artifact y d0 = Inr (i, d')" | y where "activate_new a (put_artifact y d0) = Inr (r, d')"
      using run by (auto simp: Let_def bind_result_eq_Inr split: if_splits)
    then show ?thesis
      using same_desk_trans [OF same_desk_basic(3)] same_desk_upsert same_desk_add same_desk_new by cases blast+
  qed
  then show ?thesis using same_desk_trans [OF same_desk_store [OF blob]] by blast
qed

subsection \<open>A finished download\<close>

lemma series_intent_satisfied:
  assumes rec: "reconcile mv w now series d = Inr (po, d')" and plan: "find_plan series d = Some plan" "plan_status_of plan = PlanActive"
    and ok: "intents_ok d" and c: "c \<in> set (chapters d)" "ch_series_id c = series" and art: "has_active_artifact (ch_id c) d"
  shows "\<exists>i \<in> set (series_intents series d'). int_chapter_id i = ch_id c \<and> int_state i = IntentSatisfied"
proof -
  let ?d1 = "sync_chapters now plan d"
  from reconcile_spec [OF rec plan ok] obtain e where
    e: "series_intents series e = map (settle_step now ?d1 plan) (series_intents series ?d1)"
      "list_all2 ready_step (series_intents series e) (series_intents series d')"
    by metis
  have sid: "plan_series_id plan = series" using plan(1) by (auto dest: get_row_SomeD)
  obtain k where k: "k \<in> set (series_intents series ?d1)" "int_chapter_id k = ch_id c"
    using sync_covers [OF ok c(1)] c(2) sid by metis
  have "same_shelves d ?d1" unfolding sync_chapters_def Let_def by (rule same_shelves_fold) simp
  then have "has_active_artifact (int_chapter_id k) ?d1" using art k(2) by (simp add: same_shelves_def has_active_artifact_def)
  then have "int_state (settle_step now ?d1 plan k) = IntentSatisfied"
    by (simp add: settle_step_def settle_intent_def release_backfill_def)
  moreover have "settle_step now ?d1 plan k \<in> set (series_intents series e)" using k(1) by (simp add: e(1))
  ultimately obtain i where "i \<in> set (series_intents series d')" "ready_step (settle_step now ?d1 plan k) i"
    "int_state (settle_step now ?d1 plan k) = IntentSatisfied"
    using list_all2_in1 [OF e(2)] by blast
  moreover from this have "i = settle_step now ?d1 plan k" by (simp add: ready_step_def)
  ultimately show ?thesis using k(2) by (intro bexI [of _ i]) simp_all
qed

text \<open>C38. Storing a download puts its archive into service at its chapter, on disk under the path of the
  projection, when the series has an active plan and the chapter belongs to it: the archives of all other
  chapters stay as they are, no archive is lost (one that served the chapter before is kept, no longer in
  service), and the intent of the chapter is satisfied in the same transaction.\<close>

theorem download_in_service:
  assumes "archives_ok d" "store_download env now linked l s b d = Inr (r, d')"
    "intents_ok d" "find_plan (dsn_series_id s) d = Some plan" "plan_status_of plan = PlanActive"
    "c \<in> set (chapters d)" "ch_id c = dsn_chapter_id s" "ch_series_id c = dsn_series_id s"
  shows "archives_ok d' \<and>
    in_service (dsn_chapter_id s) (sb_checksum b)
      (projection_path (dsn_storage_key s) (dsn_chapter_id s) (dsn_chapter_number s)) (ar_artifact_id r) d' \<and>
    other_archives (dsn_chapter_id s) d' = other_archives (dsn_chapter_id s) d \<and> archive_ids d \<subseteq> archive_ids d' \<and>
    (\<exists>i \<in> set (series_intents (dsn_series_id s) d'). int_chapter_id i = dsn_chapter_id s \<and> int_state i = IntentSatisfied)"
proof -
  obtain d1 j cr d2 x po where act: "activate now (download_activation l s b d) d = Inr (r, d1)"
    and rep: "enqueue_library_repair (de_validate env) now (dsn_series_id s) ''download'' 100 [] d1 = Inr (j, cr, d2)"
    and rec: "reconcile (de_validate env) 20 now (dsn_series_id s) (add_attempt x d2) = Inr (po, d')"
    using store_downloadE [OF assms(2)] by metis
  let ?d3 = "add_attempt x d2" and ?a = "download_activation l s b d"
  note A = activate_facts [OF assms(1) act]
  have a: "ac_chapter ?a = dsn_chapter_id s" "ac_blob ?a = b" "ac_replace ?a"
    "ac_path ?a = projection_path (dsn_storage_key s) (dsn_chapter_id s) (dsn_chapter_number s)"
    by (simp_all add: download_activation_def)
  have C: "same_catalog d1 ?d3"
    using repair_same_catalog [OF rep] by (simp add: same_catalog_def add_attempt_def)
  have S: "same_shelves d1 d'"
    using same_shelves_trans [OF same_shelves_catalog [OF C] same_shelves_reconcile [OF rec]] .
  then have rows: "artifacts d' = artifacts d1" "library d' = library d1" by (simp_all add: same_shelves_def)
  have here: "in_service (dsn_chapter_id s) (sb_checksum b) (ac_path ?a) (ar_artifact_id r) d1"
    using A a by (simp split: if_splits)
  have D: "same_desk d d1" by (rule same_desk_activate [OF act])
  have "has_active_artifact (ch_id c) ?d3"
    using here C assms(7) unfolding in_service_def has_active_artifact_def
    by (auto simp: same_catalog_def list_ex_iff dest: active_artifact_SomeD)
  moreover have "find_plan (dsn_series_id s) ?d3 = Some plan" "intents_ok ?d3" "c \<in> set (chapters ?d3)"
    using C D assms(3,4,6) by (simp_all add: same_catalog_def same_desk_def intents_ok_def)
  ultimately have "\<exists>i \<in> set (series_intents (dsn_series_id s) d'). int_chapter_id i = ch_id c \<and> int_state i = IntentSatisfied"
    using series_intent_satisfied [OF rec _ assms(5) _ _ assms(8)] by blast
  then show ?thesis
    using A a here rows archives_ok_cong [OF rows(1)] in_service_cong [OF rows] assms(7)
    by (simp add: other_archives_def archive_ids_def)
qed

subsection \<open>A failed download\<close>

lemma escalate_cases:
  assumes "escalate env x d f = (out, d')"
  obtains (raised) e where "x = Inl e" "out = Unexpected (de_describe env e)" "d' = d"
  | (ok) y where "x = Inr y" "f y = (out, d')"
  using assms by (cases x) (auto simp: escalate_def)

definition tries_again :: "handler_outcome \<Rightarrow> bool" where
  "tries_again out = (case out of Deferred _ _ w \<Rightarrow> seconds 1 \<le> w | Retryable _ _ w \<Rightarrow> (case w of None \<Rightarrow> True | Some t \<Rightarrow> 0 < t)
     | Rerouted \<Rightarrow> True | Unexpected _ \<Rightarrow> True | _ \<Rightarrow> False)"

lemma reroute_or_tries: "reroute_or env now i s code msg t out d = (out', d') \<Longrightarrow> tries_again out \<Longrightarrow> tries_again out'"
  unfolding reroute_or_def by (erule escalate_cases) (auto simp: tries_again_def split: if_splits prod.splits)

lemma waits [simp]: "tries_again (Deferred c m (wait_until now t))"
  by (simp add: tries_again_def wait_until_def)

lemma download_cooldown_positive: "settings_ok (de_settings env) \<Longrightarrow> 0 < download_cooldown env src d"
  by (auto simp: download_cooldown_def source_cooldown_def settings_ok_def between_def split: option.split)

lemma status_failure_tries:
  assumes "settings_ok (de_settings env)" "status_failure env now i s status msg cls d = (out, d')"
  shows "tries_again out"
proof -
  let ?outage = "is_cloudflare_origin_error status" and ?transient = "is_transient_provider_status status"
  let ?retry0 = "status_retry_at env now status (dsn_source s) d"
  from assms(2) show ?thesis
    unfolding status_failure_def Let_def
  proof (cases rule: escalate_cases)
    case (ok effective)
    obtain t d1 where e: "effective = (t, d1)" by (cases effective)
    show ?thesis
    proof (cases "status \<in> {403, 404, 429} \<or> ?transient \<or> ?outage \<or> t \<noteq> None")
      case True
      then show ?thesis using ok(2) reroute_or_tries [OF _ waits] unfolding e prod.case by (auto split: if_splits)
    next
      case False
      then have "out = Retryable (''http_'' @ str_of_int status) msg (Some (?retry0 - now))" using ok(2) by (simp add: e)
      moreover have "?retry0 - now = download_cooldown env (dsn_source s) d" using False by (simp add: status_retry_at_def)
      ultimately show ?thesis using download_cooldown_positive [OF assms(1)] by (simp add: tries_again_def)
    qed
  qed (simp add: tries_again_def)
qed

text \<open>How the handler ends when the pages could not be fetched.\<close>

lemma failure_tries:
  assumes "settings_ok (de_settings env)" "out \<noteq> FetchLeaseLost" "\<nexists>b. out = Fetched b"
  shows "tries_again (fst (download_failed env now i s out d))"
proof -
  obtain res d' where run: "download_failed env now i s out d = (res, d')" by (cases "download_failed env now i s out d")
  have wait: "tries_again res"
    if "escalate env x d f = (res, d')" "\<And>y. f y = (res, d') \<Longrightarrow> tries_again res" for x :: "'a result" and f
    using that(1) by (rule escalate_cases) (use that(2) in \<open>auto simp: tries_again_def\<close>)
  have "tries_again res"
  proof (cases out)
    case (FetchRateLimited msg after cls)
    show ?thesis using run unfolding FetchRateLimited download_failed_def fetch_outcome.case Let_def
      by (rule wait) (auto dest: reroute_or_tries [OF _ waits] split: prod.splits)
  next
    case (FetchUnavailable msg after)
    then show ?thesis using run reroute_or_tries [OF _ waits] by (auto simp: download_failed_def Let_def)
  next
    case (FetchStatus status msg cls)
    then show ?thesis using run status_failure_tries [OF assms(1)] by (simp add: download_failed_def)
  next
    case (FetchTransport msg)
    show ?thesis using run unfolding FetchTransport download_failed_def fetch_outcome.case Let_def
      by (rule wait) (auto dest: reroute_or_tries [OF _ waits] split: prod.splits)
  next
    case (FetchInvalid msg)
    have "tries_again (Deferred ''invalid_content'' msg (hours 24))" by (simp add: tries_again_def)
    then show ?thesis using run reroute_or_tries by (auto simp: download_failed_def FetchInvalid)
  qed (use run assms(2,3) in \<open>auto simp: download_failed_def tries_again_def\<close>)
  then show ?thesis by (simp add: run)
qed

text \<open>A job that was moved to another provider waits there.\<close>

definition waits_in :: "int \<Rightarrow> db \<Rightarrow> bool" where
  "waits_in i d = (\<exists>k. find_job i d = Some k \<and> job_status k = RETRY_WAIT)"

lemma waits_in_cong: "jobs d' = jobs d \<Longrightarrow> waits_in i d' = waits_in i d"
  by (simp add: waits_in_def)

lemma reroute_waits: "Queue_Lifecycle.reroute mv now i ow p src av m dt d = Inr (True, d') \<Longrightarrow> waits_in i d'"
  by (auto simp: Queue_Lifecycle.reroute_def bind_result_eq_Inr hand_back_simps waits_in_def split: option.splits dest!: owned_found)

lemma download_reroute_waits:
  assumes "download_reroute env now i s code msg t d = Inr (True, d')"
  shows "waits_in i d'"
proof -
  obtain j r alt k where j: "find_job i d = Some j"
    and m: "reroute_release (de_validate env) now j r alt code msg (Some t) d = Inr (k, d')"
    using assms unfolding download_reroute_def Let_def
    by (auto simp: bind_result_eq_Inr simp del: model_dump.simps split: if_splits option.splits)
  from reroute_release_InrD [OF m] obtain a1 a2 p m dt f where
    1: "Queue_Lifecycle.reroute (de_validate env) now (job_id j) (job_lease_owner j) p (rel_source alt) now m dt
       (add_attempt a1 (put_release (r\<lparr>rel_downloadable_after := Some t\<rparr>) d)) = Inr (True, f)"
    and 2: "d' = add_attempt a2 (queue_intent_job now (rel_chapter_id r) (job_id j) f)" by metis
  have "same_queue f d'" unfolding 2 using same_queue_trans same_queue_put same_queue_intent_job by blast
  then have "jobs d' = jobs f" by (simp add: same_queue_def)
  moreover have "job_id j = i" using j by (auto dest: find_job_in)
  ultimately show ?thesis using reroute_waits [OF 1] waits_in_cong by metis
qed

lemma reroute_or_waits: "reroute_or env now i s code msg t out d = (Rerouted, d') \<Longrightarrow> out \<noteq> Rerouted \<Longrightarrow> waits_in i d'"
  unfolding reroute_or_def by (erule escalate_cases) (auto dest: download_reroute_waits split: if_splits prod.splits)

lemma status_failure_waits:
  assumes "status_failure env now i s status msg cls d = (Rerouted, d')"
  shows "waits_in i d'"
  using assms unfolding status_failure_def Let_def
proof (cases rule: escalate_cases)
  case (ok effective)
  then show ?thesis by (cases effective) (auto dest: reroute_or_waits split: if_splits)
qed simp

lemma failure_waits:
  assumes "download_failed env now i s out d = (Rerouted, d')"
  shows "waits_in i d'"
proof (cases out)
  case (FetchRateLimited msg after cls)
  then show ?thesis using assms unfolding FetchRateLimited download_failed_def fetch_outcome.case Let_def
    by (elim escalate_cases) (auto dest: reroute_or_waits split: prod.splits)
next
  case (FetchTransport msg)
  then show ?thesis using assms unfolding FetchTransport download_failed_def fetch_outcome.case Let_def
    by (elim escalate_cases) (auto dest: reroute_or_waits split: prod.splits)
next
  case (FetchStatus status msg cls)
  then show ?thesis using assms status_failure_waits by (simp add: download_failed_def)
qed (use assms in \<open>auto simp: download_failed_def Let_def dest: reroute_or_waits\<close>)

lemma conclude_waits:
  assumes "tries_again res" "res \<noteq> Rerouted" "held_job t (lease_id l) (lease_owner l) d = Some j"
    "job_attempts j < job_max_attempts j" "conclude ws jitter t lost l res d = (r, d')"
  shows "r = Some RetryScheduled \<and> waits_in (lease_id l) d'"
proof -
  have ret: "run_retry ws jitter t l c m w d = (x, e) \<Longrightarrow> x = RetryScheduled \<and> waits_in (lease_id l) e" for c m w x e
    using assms(3,4) owned_found [OF held_owned [OF assms(3)]]
    by (auto simp: run_retry_def retry_def hand_back_simps waits_in_def)
  have dfr: "defer_job t (lease_id l) (lease_owner l) av c m d = (ok, e) \<Longrightarrow> ok \<and> waits_in (lease_id l) e" for av c m ok e
    using held_owned [OF assms(3)] owned_found [OF held_owned [OF assms(3)]]
    by (auto simp: defer_job_def hand_back_simps waits_in_def)
  show ?thesis
    using assms(1,2,5)
    by (cases res) (auto simp: tries_again_def conclude_def dest: ret dfr split: prod.splits)
qed

text \<open>C39. A failed fetch is tried again: whatever goes wrong while the pages are fetched, except a lost lease,
  the handler neither reports success nor fails the job for good, and a wait it asks for is positive (at least a
  second when it defers the job).  When the worker then concludes the run, still holding its lease and with an
  attempt of the job left, or after the handler has moved the job to another provider, the run counts as a
  scheduled retry and the job waits for it.\<close>

theorem failed_download_tries_again:
  assumes "settings_ok (de_settings env)" "out \<noteq> FetchLeaseLost" "\<nexists>b. out = Fetched b"
    "download_failed env now (lease_id l) s out d = (res, d1)"
    "res \<noteq> Rerouted \<Longrightarrow> held_job t (lease_id l) (lease_owner l) d1 = Some j \<and> job_attempts j < job_max_attempts j"
    "conclude ws jitter t lost l res d1 = (r, d2)"
  shows "tries_again res \<and> r = Some RetryScheduled \<and>
    (\<exists>k. find_job (lease_id l) d2 = Some k \<and> job_status k = RETRY_WAIT)"
proof -
  have tries: "tries_again res" using failure_tries [OF assms(1-3), of now "lease_id l" s d] assms(4) by simp
  show ?thesis
  proof (cases "res = Rerouted")
    case True
    then show ?thesis using failure_waits assms(4,6) tries by (auto simp: conclude_def waits_in_def)
  next
    case False
    then show ?thesis using conclude_waits [OF tries False _ _ assms(6)] assms(5) tries by (auto simp: waits_in_def)
  qed
qed

text \<open>A network error ends the cooldown of a provider that another download has just been refused by,
  as long as it is not yet the failure that opens the circuit: the provider is asked again at once.\<close>

theorem network_error_ends_cooldown:
  assumes "find_source_state src d = Some st" "sst_manual_enabled st"
    "sst_cooldown_until st = Some t" "now < t" "sst_consecutive_failures st + 1 < set_circuit_breaker_failures (de_settings env)"
  shows "provider_blocked now d src \<and>
    (\<exists>d'. record_source_failure env now src err None ''cdn'' d = Inr (None, d') \<and> \<not> provider_blocked now d' src)"
proof -
  have st: "st \<in> set (source_states d)" "sst_source st = src" using assms(1) by (auto dest: get_row_SomeD)
  let ?st = "st\<lparr>sst_consecutive_failures := sst_consecutive_failures st + 1, sst_last_error := take 4000 err,
    sst_cooldown_until := None, sst_health_status := Degraded, sst_updated_at := now\<rparr>"
  let ?d = "put_source_state ?st d"
  let ?e = "ensure_endpoint now src ''cdn'' ?d"
  let ?d' = "put_endpoint ((fst ?e)\<lparr>ep_consecutive_failures := ep_consecutive_failures (fst ?e) + 1,
    ep_last_error := take 4000 err, ep_cooldown_until := None, ep_updated_at := now\<rparr>) (snd ?e)"
  have run: "record_source_failure env now src err None ''cdn'' d = Inr (None, ?d')"
    using assms(1,5) by (simp add: record_source_failure_def ensure_source_state_def case_prod_beta Let_def)
  have rows: "source_states ?d' = source_states ?d"
    by (simp add: put_endpoint_def ensure_endpoint_def Let_def split: option.split)
  have "sst_manual_enabled x \<and> sst_cooldown_until x = None" if "x \<in> set (source_states ?d)" "sst_source x = src" for x
    using that st assms(2) by (auto simp: put_source_state_def put_row_def split: if_splits)
  then have "\<not> provider_blocked now ?d' src" unfolding provider_blocked_def list_ex_iff rows by fastforce
  moreover have "provider_blocked now d src" using st assms(3,4) by (auto simp: provider_blocked_def list_ex_iff)
  ultimately show ?thesis using run by blast
qed

subsection \<open>The queue\<close>

lemma keeps_source_failure:
  assumes "record_source_failure env now src err c cls d = Inr (t, d')"
  shows "keeps limits now d d'"
proof -
  let ?st = "ensure_source_state now src d"
  let ?c = "if c = None \<and> set_circuit_breaker_failures (de_settings env) \<le> sst_consecutive_failures (fst ?st) + 1
    then Some (now + download_cooldown env src (snd ?st)) else c"
  obtain x y where "let d2 = put_source_state x (snd ?st); d3 = (if ?c = None then d2 else update_policy src (limit_policy now) d2);
      d5 = put_endpoint y (snd (ensure_endpoint now src cls d3))
    in (case ?c of None \<Rightarrow> Inr (None, d5)
        | Some until \<Rightarrow> bind_result (bypass_cooling_source (de_validate env) now src until (de_locked env) d5) (\<lambda>(_, d6). Inr (Some until, d6)))
       = Inr (t, d')"
    using assms unfolding record_source_failure_def Let_def case_prod_beta by blast
  moreover have "same_queue d (put_endpoint y (snd (ensure_endpoint now src cls
      (if b then e else update_policy src (limit_policy now) e))))" if "same_queue d e" for e b
    using that same_queue_trans [OF _ same_queue_health(2)] same_queue_trans [OF _ same_queue_health(5)]
      same_queue_trans [OF that same_queue_update_policy] by auto
  from this [OF same_queue_trans [OF same_queue_health(4) same_queue_health(1)]]
  have "same_queue d (put_endpoint y (snd (ensure_endpoint now src cls
      (if b then put_source_state x (snd ?st) else update_policy src (limit_policy now) (put_source_state x (snd ?st))))))" for b .
  note same = this
  let ?d5 = "\<lambda>b. put_endpoint y (snd (ensure_endpoint now src cls
      (if b then put_source_state x (snd ?st) else update_policy src (limit_policy now) (put_source_state x (snd ?st)))))"
  consider "d' = ?d5 True"
    | until n where "bypass_cooling_source (de_validate env) now src until (de_locked env) (?d5 False) = Inr (n, d')"
    using calculation unfolding Let_def
    by (cases "?c = None") (auto simp: bind_result_eq_Inr simp del: option.case_eq_if split: option.splits)
  then show ?thesis
  proof cases
    case 1
    then show ?thesis using keeps_same [OF same [of True]] by simp
  next
    case 2
    then show ?thesis using keeps_trans [OF keeps_same [OF same [of False]] keeps_bypass [OF 2]] by blast
  qed
qed

lemma keeps_download_reroute:
  assumes "download_reroute env now i s code msg t d = Inr (b, d')"
  shows "keeps limits now d d'"
proof (cases "find_job i d")
  case None
  then show ?thesis using assms by (simp add: download_reroute_def)
next
  case (Some j)
  show ?thesis
  proof (cases "get_row rel_id (dsn_release_id s) (releases d)")
    case None
    then show ?thesis using assms Some by (simp add: download_reroute_def)
  next
    case rel: (Some r)
    let ?held = "put_release (r\<lparr>rel_downloadable_after := Some t\<rparr>) d"
    consider "d' = d" | "d' = ?held"
      | p a where "d' = add_attempt a (put_job (j\<lparr>job_payload := p\<rparr>) ?held)"
      | alt k where "reroute_release (de_validate env) now j r alt code msg (Some t) d = Inr (k, d')"
      using assms unfolding download_reroute_def Some rel Let_def
      by (auto simp: bind_result_eq_Inr simp del: model_dump.simps split: if_splits option.splits)
    then show ?thesis
    proof cases
      case (3 p a)
      have "keeps limits now ?held (put_job (j\<lparr>job_payload := p\<rparr>) ?held)"
      proof (rule keeps_calm)
        assume inv: "queue_inv ?held"
        have j: "j \<in> set (jobs ?held)" using Some by (auto dest: find_job_in)
        have "edited j (j\<lparr>job_payload := p\<rparr>)" using edited_refl [OF queue_inv_job_ok [OF inv j]] by (simp add: edited_def)
        then show "queue_inv (put_job (j\<lparr>job_payload := p\<rparr>) ?held) \<and> calm now ?held (put_job (j\<lparr>job_payload := p\<rparr>) ?held)"
          by (rule edit_put_inv [OF inv j]) simp
      qed
      then show ?thesis unfolding 3
        using keeps_trans [OF keeps_trans [OF keeps_same [OF same_queue_put(3)]] keeps_same [OF same_queue_put(4)]] by blast
    qed (auto intro: keeps_same keeps_run [OF reroute_release_run])
  qed
qed

lemma keeps_reroute_or: "keeps limits now e d \<Longrightarrow> keeps limits now e (snd (reroute_or env now i s code msg t out d))"
  using keeps_trans keeps_download_reroute by (auto simp: reroute_or_def escalate_def split: sum.split)

lemma keeps_escalate:
  assumes "\<And>y. x = Inr y \<Longrightarrow> keeps limits now d (snd (f y))"
  shows "keeps limits now d (snd (escalate env x d f))"
  using assms by (simp add: escalate_def split: sum.split)

lemma keeps_failed: "keeps limits now d (snd (download_failed env now i s out d))"
proof (cases out)
  case (FetchStatus status msg cls)
  let ?rec = "if status \<in> {403, 429} \<or> is_transient_provider_status status
     then record_source_failure env now (dsn_source s) msg
            (if status \<in> {403, 429, 503} \<or> is_cloudflare_origin_error status
             then Some (status_retry_at env now status (dsn_source s) d) else None) cls d
     else Inr (None, d)"
  have "keeps limits now d (snd y)" if "?rec = Inr y" for y
    using that keeps_source_failure by (cases y) (auto split: if_splits)
  then show ?thesis
    unfolding download_failed_def FetchStatus fetch_outcome.case status_failure_def Let_def
    by (intro keeps_escalate) (auto simp: case_prod_beta intro!: keeps_reroute_or)
qed (auto simp: download_failed_def Let_def intro!: keeps_escalate keeps_reroute_or dest: keeps_source_failure)

lemma keeps_store:
  assumes "payload_codec (de_validate env)" "store_download env now linked l s b d = Inr (r, d')"
  shows "keeps limits now d d'"
proof -
  obtain d1 j c d2 x po where act: "activate now (download_activation l s b d) d = Inr (r, d1)"
    and rep: "enqueue_library_repair (de_validate env) now (dsn_series_id s) ''download'' 100 [] d1 = Inr (j, c, d2)"
    and rec: "reconcile (de_validate env) 20 now (dsn_series_id s) (add_attempt x d2) = Inr (po, d')"
    using store_downloadE [OF assms(2)] by metis
  have "keeps limits now d d1" using same_desk_activate [OF act] by (simp add: same_desk_def keeps_same)
  moreover have "keeps limits now d1 d2" by (rule keeps_enqueue_repair [OF assms(1) rep])
  moreover have "keeps limits now d2 (add_attempt x d2)" by (simp add: keeps_same)
  moreover have "keeps limits now (add_attempt x d2) d'" by (rule keeps_run [OF reconcile_run [OF rec]])
  ultimately show ?thesis using keeps_trans by blast
qed

lemma keeps_start: "keeps limits now d (snd (start_download env now l d))"
proof -
  have res: "keeps limits now d (snd (storage_reserve now f m i ow rq ex d))" for f m i ow rq ex
    by (intro keeps_same) (simp add: storage_reserve_def Let_def drop_expired_reservations_def same_queue_def split: option.split)
  have prog: "keeps limits now e (snd (progress now i ow m p e))" for i ow m p e
    by (rule keeps_calm) (simp add: progress_inv progress_calm)
  show ?thesis
    by (auto simp: start_download_def Let_def case_prod_beta intro!: res prog keeps_trans [OF res prog]
        split: job_payload.split option.split)
qed

lemma keeps_finish:
  assumes "payload_codec (de_validate env)"
  shows "keeps limits now d (snd (finish_download env now lost linked l s out d))"
proof (cases out)
  case (Fetched b)
  have "keeps limits now d (snd (case y of (_, d1) \<Rightarrow> (HandlerDone, d1)))"
    if "store_download env now linked l s b d = Inr y" for y :: "activation_result \<times> db"
    using keeps_store [OF assms, of now linked l s b d] that by (cases y) simp
  then show ?thesis by (simp add: finish_download_def Fetched keeps_escalate)
qed (simp_all add: finish_download_def keeps_failed)

text \<open>C40. Whatever the fetch yields and however long it takes, the queue invariants hold after the handler
  of a chapter download.\<close>

theorem download_keeps_queue:
  assumes "payload_codec (de_validate env)" "queue_ok limits (started, d)" "started \<le> now"
    "chapter_download env started now lost linked fetch l d = (out, d')"
  shows "queue_ok limits (now, d')"
proof -
  obtain x d1 where start: "start_download env started l d = (x, d1)" by (cases "start_download env started l d")
  have "queue_ok limits (started, d1)" using keeps_start [of limits started d env l] assms(2) by (simp add: keeps_def start)
  then have 1: "queue_ok limits (now, d1)" using lease_inv_time [OF _ _ assms(3)] by (simp add: queue_ok_def)
  have "keeps limits now d1 (snd (finish_download env now lost linked l s o' d1))" for s o'
    by (rule keeps_finish [OF assms(1)])
  then have fin: "queue_ok limits (now, snd (finish_download env now lost linked l s o' d1))" for s o'
    using 1 by (simp add: keeps_def)
  have "d' = snd (chapter_download env started now lost linked fetch l d)" using assms(4) by simp
  then show ?thesis using 1 fin by (simp add: chapter_download_def start split: sum.split)
qed

subsection \<open>A handler that outlived its lease\<close>

text \<open>The reroute of a failed download works on the lease the row has now: it does not ask whether that is
  the lease the handler was started with.  A handler whose lease expired, and whose job was
  claimed again, ends the lease of the worker that holds it.\<close>

lemma reroute_takes_any_lease:
  assumes "download_reroute env now i s code msg t d = Inr (True, d')"
  obtains j r alt k where "find_job i d = Some j" "job_status j = LEASED"
    "get_row rel_id (dsn_release_id s) (releases d) = Some r"
    "reroute_release (de_validate env) now j r alt code msg (Some t) d = Inr (k, d')"
  using assms unfolding download_reroute_def
  by (auto simp: bind_result_eq_Inr Let_def simp del: model_dump.simps split: if_splits option.splits)

subsection \<open>A download of the small catalogue\<close>

definition demo_env :: download_env where
  "demo_env = \<lparr>de_validate = strict_validate, de_describe = (\<lambda>_. ''error''), de_settings = demo_settings,
     de_adapters = [''mangadex'', ''mangafire''], de_free_bytes = 10 ^ 15, de_max_chapter_bytes = 10 ^ 9, de_locked = []\<rparr>"

definition demo_source_series :: catalog_source_series where
  "demo_source_series = \<lparr>srs_id = 1, srs_series_id = 1, srs_source = ''mangadex'', srs_source_id = ''m1'', srs_title = ''Demo'',
     srs_url = [], srs_description = [], srs_cover_url = [], srs_popularity = 0, srs_metadata = fmempty,
     srs_observation_version = [], srs_normalized_source_id = ''m1'', srs_last_checked_at = 0, srs_normalized_title = ''demo'',
     srs_revision_override = [], srs_detail_fetched_at = None, srs_observation_seen_at = None\<rparr>"

definition demo_serving :: db where
  "demo_serving = demo_downloading\<lparr>source_series := [demo_source_series]\<rparr>"

definition demo_chapter_lease :: job_lease where
  "demo_chapter_lease = \<lparr>lease_id = 1, lease_kind = CHAPTER_DOWNLOAD, lease_dedupe_key = ''chapter:1'',
     lease_payload = ChapterDownloadPayload \<lparr>cd_version = 1, cd_chapter_release_id = 1, cd_attempted_sources = [], cd_preferred_only = False\<rparr>,
     lease_priority = 0, lease_attempt = 1, lease_max_attempts = 3, lease_owner = ''worker-1'',
     lease_expires_at = 2000 + lease_for demo_settings, lease_source = ''mangadex'', lease_series_key = ''1'',
     lease_pool = ''chapter''\<rparr>"

definition demo_snapshot :: download_snapshot where
  "demo_snapshot = \<lparr>dsn_release_id = 1, dsn_chapter_id = 1, dsn_series_id = 1, dsn_storage_key = ''k1'',
     dsn_series_title = ''Demo'', dsn_series_description = [], dsn_chapter_number = ''1'', dsn_chapter_title = [],
     dsn_source = ''mangadex'', dsn_source_series_id = ''m1'', dsn_release_title = [], dsn_release_url = [],
     dsn_published_at = None, dsn_quality_rank = 0\<rparr>"

definition demo_blob :: stored_blob where
  "demo_blob = \<lparr>sb_checksum = ''c0'', sb_relative_path = ''blobs/c0'', sb_byte_count = 100, sb_image_count = 10\<rparr>"

definition demo_stored :: db where
  "demo_stored = (case store_download demo_env 3000 True demo_chapter_lease demo_snapshot demo_blob demo_serving of
     Inr (_, d) \<Rightarrow> d | Inl _ \<Rightarrow> demo_serving)"

lemma demo_archives: "archives_ok demo_serving"
proof -
  have "artifacts demo_serving = [] \<and> library_projections (library demo_serving) = []" by code_simp
  then show ?thesis by (simp add: archives_ok_def)
qed

lemma demo_serving_ids: "ids_below_seq demo_serving"
  by code_simp

lemma demo_serving_plan:
  "case find_plan 1 demo_serving of Some p \<Rightarrow> plan_status_of p = PlanActive | None \<Rightarrow> False"
  by code_simp

lemma demo_serving_chapter: "demo_chapter 1 \<in> set (chapters demo_serving)"
  by code_simp

lemma demo_store:
  "case store_download demo_env 3000 True demo_chapter_lease demo_snapshot demo_blob demo_serving of
     Inr (r, _) \<Rightarrow> ar_artifact_id r = 1 | Inl _ \<Rightarrow> False"
  by code_simp

theorem download_in_service_witness:
  "in_service 1 ''c0'' (projection_path ''k1'' 1 ''1'') 1 demo_stored"
proof -
  obtain r d' where run: "store_download demo_env 3000 True demo_chapter_lease demo_snapshot demo_blob demo_serving = Inr (r, d')"
    and r: "ar_artifact_id r = 1" using demo_store by (auto split: sum.splits)
  have d': "d' = demo_stored" by (simp add: demo_stored_def run)
  have ok: "intents_ok demo_serving" using demo_serving_ids by (simp add: ids_below_seq_def intents_ok_def list_all_iff)
  obtain p where "find_plan 1 demo_serving = Some p" "plan_status_of p = PlanActive"
    using demo_serving_plan by (auto split: option.splits)
  then show ?thesis
    using download_in_service [OF demo_archives run ok _ _ demo_serving_chapter] r
    by (simp add: demo_snapshot_def demo_blob_def demo_chapter_def d')
qed

definition demo_retry_settings :: worker_settings where
  "demo_retry_settings = \<lparr>ws_lease_for = seconds 60, ws_heartbeat_interval = seconds 30, ws_poll_interval = seconds 1,
     ws_retry_base = seconds 30, ws_retry_cap = seconds 3600, ws_pool_limits = [], ws_window = 2\<rparr>"

definition demo_gone :: "handler_outcome \<times> db" where
  "demo_gone = download_failed demo_env 3000 1 demo_snapshot (FetchStatus 410 ''gone'' ''cdn'') demo_serving"

lemma demo_gone_held:
  "fst demo_gone \<noteq> Rerouted \<and> lease_id demo_chapter_lease = 1 \<and>
   (case held_job 3000 1 (lease_owner demo_chapter_lease) (snd demo_gone) of
      Some j \<Rightarrow> job_attempts j < job_max_attempts j | None \<Rightarrow> False)"
  by code_simp

theorem failed_download_tries_again_witness:
  "\<exists>k. find_job 1 (snd (conclude demo_retry_settings 1 3000 False demo_chapter_lease (fst demo_gone) (snd demo_gone))) = Some k \<and>
     job_status k = RETRY_WAIT"
proof -
  obtain j where j: "held_job 3000 1 (lease_owner demo_chapter_lease) (snd demo_gone) = Some j" "job_attempts j < job_max_attempts j"
    and l: "lease_id demo_chapter_lease = 1" using demo_gone_held by (auto split: option.splits)
  have run: "download_failed demo_env 3000 (lease_id demo_chapter_lease) demo_snapshot (FetchStatus 410 ''gone'' ''cdn'') demo_serving =
      (fst demo_gone, snd demo_gone)" by (simp add: demo_gone_def l)
  have ok: "settings_ok (de_settings demo_env)" by (simp add: demo_env_def demo_settings_def default_settings_ok)
  from failed_download_tries_again [OF ok _ _ run _ prod.collapse [symmetric], of 3000 j demo_retry_settings 1 False] j l
  show ?thesis by simp
qed

definition demo_cooling :: db where
  "demo_cooling = demo_serving\<lparr>source_states := [(new_source_state 0 ''mangadex'')\<lparr>sst_cooldown_until := Some 9000\<rparr>]\<rparr>"

theorem network_error_ends_cooldown_witness:
  "\<exists>d'. provider_blocked 3000 demo_cooling ''mangadex'' \<and>
     record_source_failure demo_env 3000 ''mangadex'' ''reset'' None ''cdn'' demo_cooling = Inr (None, d') \<and>
     \<not> provider_blocked 3000 d' ''mangadex''"
proof -
  let ?st = "(new_source_state 0 ''mangadex'')\<lparr>sst_cooldown_until := Some 9000\<rparr>"
  have "find_source_state ''mangadex'' demo_cooling = Some ?st"
    by (simp add: demo_cooling_def new_source_state_def get_row_Cons)
  then show ?thesis
    using network_error_ends_cooldown [of "''mangadex''" demo_cooling ?st 9000 3000 demo_env "''reset''"]
    by (auto simp: new_source_state_def demo_env_def demo_settings_def default_settings_def)
qed

definition demo_reclaimed :: db where
  "demo_reclaimed = demo_serving\<lparr>jobs := map (\<lambda>j. if job_id j = 1 then j\<lparr>job_lease_owner := ''worker-2''\<rparr> else j) (jobs demo_serving)\<rparr>"

lemma stale_handler_drops_lease:
  "case download_failed demo_env 3000 1 demo_snapshot (FetchInvalid ''bad page'') demo_reclaimed of
     (out, d) \<Rightarrow> out = Rerouted \<and>
       map (\<lambda>j. (job_status j, job_lease_owner j)) (filter (\<lambda>j. job_id j = 1) (jobs demo_reclaimed)) = [(LEASED, ''worker-2'')] \<and>
       map (\<lambda>j. (job_status j, job_lease_owner j)) (filter (\<lambda>j. job_id j = 1) (jobs d)) = [(RETRY_WAIT, [])]"
  by code_simp

lemma demo_download_outcome:
  "fst (chapter_download demo_env 2500 3000 False True (\<lambda>_. Fetched demo_blob) demo_chapter_lease demo_serving) = HandlerDone"
  by code_simp

theorem download_keeps_queue_witness:
  "\<exists>d'. chapter_download demo_env 2500 3000 False True (\<lambda>_. Fetched demo_blob) demo_chapter_lease demo_serving = (HandlerDone, d') \<and>
     queue_ok (pool_limits demo_settings) (3000, d')"
proof -
  obtain d' where run: "chapter_download demo_env 2500 3000 False True (\<lambda>_. Fetched demo_blob) demo_chapter_lease demo_serving = (HandlerDone, d')"
    using demo_download_outcome by (metis prod.collapse)
  have "queue_step strict_validate (pool_limits demo_settings) (2000, demo_downloading) (2500, demo_serving)"
    by (rule queue_step.Other) (simp_all add: demo_serving_def)
  with demo_download_run(2) have "(queue_step strict_validate (pool_limits demo_settings))\<^sup>*\<^sup>* (0, empty_db) (2500, demo_serving)"
    by (rule rtranclp.rtrancl_into_rtrancl)
  from queue.run_inv [OF this queue_init_ok [OF empty_db_init]]
  have "queue_ok (pool_limits demo_settings) (2500, demo_serving)" .
  moreover have "payload_codec (de_validate demo_env)" using strict.payload_codec_axioms by (simp add: demo_env_def)
  ultimately have "queue_ok (pool_limits demo_settings) (3000, d')"
    using download_keeps_queue [OF _ _ _ run] by simp
  then show ?thesis using run by blast
qed

end
