(* ===== verification/Title_Text.thy ===== *)
theory Title_Text
  imports Catalog_Domain
begin

text \<open>
  \<open>normalize_title\<close> of \<^verbatim>\<open>domain/catalog.py\<close> (and the same function in
  \<^verbatim>\<open>app/domain.py\<close>) on characters below 256.
\<close>

text \<open>The ASCII characters of the compatibility decomposition of a character.\<close>

definition ascii_of :: "char \<Rightarrow> string" where
  "ascii_of c =
     (let n = (of_char c :: nat) in
      if n < 128 then [c]
      else if n \<in> {160, 168, 175, 180, 184} then '' ''
      else if n = 170 \<or> 224 \<le> n \<and> n \<le> 229 then ''a''
      else if n = 178 then ''2'' else if n = 179 then ''3'' else if n = 185 then ''1''
      else if n = 186 \<or> 242 \<le> n \<and> n \<le> 246 then ''o''
      else if n = 188 then ''14'' else if n = 189 then ''12'' else if n = 190 then ''34''
      else if 192 \<le> n \<and> n \<le> 197 then ''A'' else if n = 199 then ''C''
      else if 200 \<le> n \<and> n \<le> 203 then ''E'' else if 204 \<le> n \<and> n \<le> 207 then ''I''
      else if n = 209 then ''N'' else if 210 \<le> n \<and> n \<le> 214 then ''O''
      else if 217 \<le> n \<and> n \<le> 220 then ''U'' else if n = 221 then ''Y''
      else if n = 231 then ''c'' else if 232 \<le> n \<and> n \<le> 235 then ''e''
      else if 236 \<le> n \<and> n \<le> 239 then ''i'' else if n = 241 then ''n''
      else if 249 \<le> n \<and> n \<le> 252 then ''u'' else if n = 253 \<or> n = 255 then ''y''
      else [])"

text \<open>\<open>re.sub\<close> of a bracket, what follows it, and the first closing bracket.\<close>

function strip_brackets :: "string \<Rightarrow> string" where
  "strip_brackets [] = []"
| "strip_brackets (c # s) =
     (if c = CHR ''('' \<and> CHR '')'' \<in> set s then CHR '' '' # strip_brackets (tl (dropWhile (\<lambda>x. x \<noteq> CHR '')'') s))
      else if c = CHR ''['' \<and> CHR '']'' \<in> set s then CHR '' '' # strip_brackets (tl (dropWhile (\<lambda>x. x \<noteq> CHR '']'') s))
      else c # strip_brackets s)"
  by pat_completeness auto

termination
proof (relation "measure length")
  have "length (tl (dropWhile P s)) < length (c # s)" for P and c :: char and s
    using length_dropWhile_le [of P s] by simp
  then show "(tl (dropWhile (\<lambda>x. x \<noteq> CHR '')'') s), c # s) \<in> measure length"
    "(tl (dropWhile (\<lambda>x. x \<noteq> CHR '']'') s), c # s) \<in> measure length" for c s
    by simp_all
qed simp_all

definition STOP_WORDS :: "string list" where
  "STOP_WORDS = [''the'', ''a'', ''an'', ''manga'', ''manhwa'', ''manhua'', ''webtoon'', ''official'']"

definition alnum :: "char \<Rightarrow> bool" where
  "alnum c = (is_digit c \<or> (let n = (of_char c :: nat) in 97 \<le> n \<and> n \<le> 122))"

text \<open>A run of word characters between two boundaries.\<close>

definition keep_word :: "string \<Rightarrow> string" where
  "keep_word w = (if w \<in> set STOP_WORDS then '' '' else w)"

fun drop_stop_words :: "string \<Rightarrow> string \<Rightarrow> string" where
  "drop_stop_words w [] = keep_word w"
| "drop_stop_words w (c # s) =
     (if alnum c \<or> c = CHR ''_'' then drop_stop_words (w @ [c]) s else keep_word w @ c # drop_stop_words [] s)"

definition normalize_title :: "string \<Rightarrow> string" where
  "normalize_title title =
     join_words (py_split (map (\<lambda>c. if alnum c then c else CHR '' '')
       (drop_stop_words [] (strip_brackets (py_lower (concat (map ascii_of title)))))))"

end
