(* ===== verification/Matching_Score.thy ===== *)
theory Matching_Score
  imports Queue_Planners Title_Text
begin

text \<open>
  \<^verbatim>\<open>application/matching_score.py\<close>: how alike two canonical series are, as a number
  and as the evidence shown for it.  Floats are exact rationals.  Two things are parameters: the
  similarity ratio of \<open>difflib\<close> and what OpenCV finds when it matches two cover
  signatures.
\<close>

subsection \<open>Comparing covers\<close>

text \<open>What the image libraries report of two signatures: whether their key points can be read, the smallest
  distance of two hashes, the number of good matches and of those that fit one homography.\<close>

record cover_geometry =
  cg_readable :: bool
  cg_hash_distance :: int
  cg_good :: int
  cg_inliers :: int

text \<open>The entries of the evidence that the score reads, and all of it.\<close>

record cover_evidence =
  cev_compared :: bool
  cev_match :: bool
  cev_state :: string
  cev_distance :: int
  cev_ratio :: rat
  cev_fields :: jdict

definition round6 :: "rat \<Rightarrow> rat" where
  "round6 x =
     (let y = x * 1000000; f = \<lfloor>y\<rfloor>; r = y - of_int f
      in of_int (if r < 1 / 2 \<or> r = 1 / 2 \<and> even f then f else f + 1) / 1000000)"

definition unreadable_covers :: "int \<Rightarrow> cover_evidence" where
  "unreadable_covers dist =
     \<lparr>cev_compared = False, cev_match = False, cev_state = ''invalid'', cev_distance = dist, cev_ratio = 0,
      cev_fields = fmap_of_list [(''cover_compared'', JBool False), (''cover_signature_invalid'', JBool True),
        (''cover_hash_distance'', JInt dist), (''cover_match'', JBool False), (''cover_evidence_state'', JStr ''invalid'')]\<rparr>"

definition compare_signatures ::
  "(cover_signature \<Rightarrow> cover_signature \<Rightarrow> cover_geometry) \<Rightarrow> cover_signature \<Rightarrow> cover_signature \<Rightarrow> cover_evidence" where
  "compare_signatures geometry l r =
     (let g = geometry l r; dist = cg_hash_distance g; inliers = cg_inliers g
      in if \<not> cg_readable g then unreadable_covers dist
         else
           (let ratio = of_int inliers / of_int (max (cg_good g) 1);
                covers_match = (inliers \<ge> 12 \<and> ratio \<ge> 65 / 100 \<and> dist \<le> 18 \<or> inliers \<ge> 4 \<and> ratio \<ge> 6 / 10 \<and> dist \<le> 4);
                likely = (\<not> covers_match \<and> (inliers \<ge> 8 \<and> ratio \<ge> 1 / 2 \<and> dist \<le> 22 \<or> inliers \<ge> 4 \<and> ratio \<ge> 1 / 2 \<and> dist \<le> 10));
                state = (if covers_match then ''match'' else if likely then ''likely''
                         else if dist \<ge> 28 \<and> inliers < 4 then ''different'' else ''inconclusive'')
            in \<lparr>cev_compared = True, cev_match = covers_match, cev_state = state, cev_distance = dist, cev_ratio = round6 ratio,
                cev_fields = fmap_of_list [(''cover_compared'', JBool True), (''cover_hash_distance'', JInt dist),
                  (''cover_ratio_matches'', JInt (cg_good g)), (''cover_inliers'', JInt inliers),
                  (''cover_inlier_ratio'', JFloat (round6 ratio)), (''cover_match'', JBool covers_match),
                  (''cover_evidence_state'', JStr state)]\<rparr>))"

definition cover_similarity :: "cover_evidence \<Rightarrow> rat" where
  "cover_similarity e =
     (if \<not> cev_compared e then 0
      else
        (let raw = max (max 0 (1 - of_int (cev_distance e) / 32)) (cev_ratio e)
         in if cev_state e = ''match'' \<or> cev_match e then max raw (98 / 100)
            else if cev_state e = ''likely'' then min (max raw (7 / 10)) (89 / 100)
            else if cev_state e = ''different'' then min raw (15 / 100)
            else min raw (6 / 10)))"

text \<open>The best pair so far; a pair replaces it when it is better or when nothing was compared yet.\<close>

definition no_covers :: "rat \<times> cover_evidence" where
  "no_covers = (0, \<lparr>cev_compared = False, cev_match = False, cev_state = ''unavailable'', cev_distance = 64, cev_ratio = 0,
     cev_fields = fmap_of_list [(''cover_compared'', JBool False), (''cover_match'', JBool False),
       (''cover_evidence_state'', JStr ''unavailable'')]\<rparr>)"

definition better_cover ::
  "(cover_signature \<Rightarrow> cover_signature \<Rightarrow> cover_geometry) \<Rightarrow> (int \<Rightarrow> cover_signature option) \<Rightarrow> int \<times> int
   \<Rightarrow> rat \<times> cover_evidence \<Rightarrow> rat \<times> cover_evidence" where
  "better_cover geometry signature p best =
     (case (signature (fst p), signature (snd p)) of
        (Some l, Some r) \<Rightarrow>
          (let e = compare_signatures geometry l r; c = cover_similarity e
           in if fst best < c \<or> \<not> cev_compared (snd best)
              then (c, e\<lparr>cev_fields := fmupd ''cover_right_source_series_id'' (JInt (snd p))
                         (fmupd ''cover_left_source_series_id'' (JInt (fst p)) (cev_fields e))\<rparr>)
              else best)
      | _ \<Rightarrow> best)"

definition best_cover ::
  "(cover_signature \<Rightarrow> cover_signature \<Rightarrow> cover_geometry) \<Rightarrow> (int \<Rightarrow> cover_signature option) \<Rightarrow> int list \<Rightarrow> int list
   \<Rightarrow> rat \<times> cover_evidence" where
  "best_cover geometry signature ls rs = fold (better_cover geometry signature) (List.product ls rs) no_covers"

subsection \<open>Comparing titles and descriptions\<close>

record score_env =
  se_ratio :: "string \<Rightarrow> string \<Rightarrow> rat"
  se_geometry :: "cover_signature \<Rightarrow> cover_signature \<Rightarrow> cover_geometry"

definition matching_title_similarity :: "score_env \<Rightarrow> string \<Rightarrow> string \<Rightarrow> rat" where
  "matching_title_similarity env l r =
     (let a = normalize_title l; b = normalize_title r
      in if a = [] \<or> b = [] then 0
         else if a = b then 1
         else
           (let xs = remdups (py_split a); ys = remdups (py_split b); common = filter (\<lambda>w. w \<in> set ys) xs;
                s = 6 / 10 * (of_nat (length common) / of_nat (length (remdups (xs @ ys)))) + 4 / 10 * se_ratio env a b
            in if length common < 2 then min s (45 / 100) else s))"

text \<open>Case folding of the characters below 256.\<close>

definition py_casefold :: "string \<Rightarrow> string" where
  "py_casefold s = concat (map (\<lambda>c. if c = CHR 0xDF then ''ss'' else [lower_char c]) s)"

definition text_similarity :: "score_env \<Rightarrow> string \<Rightarrow> string \<Rightarrow> rat" where
  "text_similarity env l r =
     (let a = join_words (py_split (py_casefold l)); b = join_words (py_split (py_casefold r))
      in if a = [] \<or> b = [] then 0 else se_ratio env a b)"

text \<open>\<open>max(..., default=0.0)\<close> of the similarities of all pairs of titles.\<close>

definition best_title :: "score_env \<Rightarrow> string list \<Rightarrow> string list \<Rightarrow> rat" where
  "best_title env ls rs =
     (case map (\<lambda>(l, r). matching_title_similarity env l r) (List.product ls rs) of
        [] \<Rightarrow> 0 | x # xs \<Rightarrow> fold max xs x)"

definition GENERIC_ALIASES :: "string list" where
  "GENERIC_ALIASES = [''asura scans home'', ''home'', ''manga list'']"

definition titles_in :: "int list \<Rightarrow> db \<Rightarrow> int \<Rightarrow> string list" where
  "titles_in ids d i =
     (if i \<in> set ids
      then map ser_title (filter (\<lambda>s. ser_id s = i) (series_rows d)) @
           map ali_display_value (filter (\<lambda>a. ali_series_id a = i \<and>
             py_casefold (py_strip (ali_display_value a)) \<notin> set GENERIC_ALIASES) (series_aliases (library d)))
      else [])"

definition description_in :: "int list \<Rightarrow> db \<Rightarrow> int \<Rightarrow> string" where
  "description_in ids d i =
     (if i \<in> set ids then (case get_row ser_id i (series_rows d) of None \<Rightarrow> [] | Some s \<Rightarrow> ser_description s) else [])"

definition external_in :: "int list \<Rightarrow> db \<Rightarrow> int \<Rightarrow> string list" where
  "external_in ids d i =
     (if i \<in> set ids
      then map (\<lambda>x. ext_provider x @ CHR '':'' # ext_value x)
             (filter (\<lambda>x. ext_series_id x = i) (external_identifiers (library d)))
      else [])"

definition shared_external :: "int list \<Rightarrow> db \<Rightarrow> int \<Rightarrow> int \<Rightarrow> string list" where
  "shared_external ids d l r = sort (remdups (filter (\<lambda>x. x \<in> set (external_in ids d r)) (external_in ids d l)))"

subsection \<open>Comparing chapters\<close>

definition numbers_in :: "int list \<Rightarrow> db \<Rightarrow> int \<Rightarrow> string list" where
  "numbers_in ids d i =
     (if i \<in> set ids then remdups (map ch_canonical_number (filter (\<lambda>c. ch_series_id c = i) (chapters d))) else [])"

definition overlap_ratio :: "string list \<Rightarrow> string list \<Rightarrow> rat" where
  "overlap_ratio xs ys =
     (let union = remdups (xs @ ys)
      in if union = [] then 0 else of_nat (length (filter (\<lambda>x. x \<in> set ys) xs)) / of_nat (length union))"

text \<open>\<open>format(value.normalize(), "f")\<close> of a column with six decimals.\<close>

definition decimal_text :: "rat \<Rightarrow> string" where
  "decimal_text x =
     (if x < 0 then CHR ''-'' # format_f (normalize_dec (nat \<lfloor>- x * 1000000\<rfloor>, - 6))
      else format_f (normalize_dec (nat \<lfloor>x * 1000000\<rfloor>, - 6)))"

definition latest_chapter_values :: "rat option \<Rightarrow> rat option \<Rightarrow> rat \<times> jdict" where
  "latest_chapter_values left right =
     (case (left, right) of
        (Some l, Some r) \<Rightarrow>
          (let delta = \<bar>l - r\<bar>;
               similarity = (if delta \<le> 2 then 1 else if delta \<le> 6 then 1 - (delta - 2) / 4 else 0)
           in (round6 similarity,
               fmap_of_list [(''latest_chapter_compared'', JBool True), (''latest_chapter_left'', JStr (decimal_text l)),
                 (''latest_chapter_right'', JStr (decimal_text r)), (''latest_chapter_delta'', JStr (decimal_text delta)),
                 (''latest_chapter_similarity'', JFloat (round6 similarity)), (''latest_chapter_match'', JBool (delta \<le> 2))]))
      | _ \<Rightarrow> (0, fmap_of_list [(''latest_chapter_compared'', JBool False), (''latest_chapter_similarity'', JFloat 0)]))"

text \<open>The newest number of a series, once as the first row of a sorted query and once as the maximum
  collected in one pass over all rows.\<close>

definition newest_by_query :: "int list \<Rightarrow> db \<Rightarrow> int \<Rightarrow> rat option" where
  "newest_by_query ids d i =
     (if i \<in> set ids
      then (case rev (sort (List.map_filter ch_sort_number (filter (\<lambda>c. ch_series_id c = i) (chapters d)))) of
              [] \<Rightarrow> None | x # _ \<Rightarrow> Some x)
      else None)"

definition newest_step :: "catalog_chapter \<Rightarrow> (int \<Rightarrow> rat option) \<Rightarrow> int \<Rightarrow> rat option" where
  "newest_step c m =
     (case ch_sort_number c of
        None \<Rightarrow> m
      | Some x \<Rightarrow> m(ch_series_id c \<mapsto> (case m (ch_series_id c) of None \<Rightarrow> x | Some y \<Rightarrow> max y x)))"

definition newest_in_pass :: "int list \<Rightarrow> db \<Rightarrow> int \<Rightarrow> rat option" where
  "newest_in_pass ids d = fold newest_step (filter (\<lambda>c. ch_series_id c \<in> set ids) (chapters d)) Map.empty"

subsection \<open>The score\<close>

definition combined_score :: "rat \<Rightarrow> rat \<Rightarrow> rat \<Rightarrow> rat \<Rightarrow> rat \<Rightarrow> bool \<Rightarrow> rat" where
  "combined_score title cover description overlap latest covers_match =
     (let score = 20 / 100 * title + 55 / 100 * cover + 8 / 100 * description + 5 / 100 * overlap + 12 / 100 * latest;
          floor86 = max score (86 / 100)
      in if \<not> covers_match then score
         else if latest = 1 \<or> max title description \<ge> 75 / 100 then max floor86 (90 / 100)
         else floor86)"

record pair_evidence =
  pe_score :: rat
  pe_fields :: jdict

definition pair_result :: "string list \<Rightarrow> rat \<Rightarrow> rat \<Rightarrow> rat \<Rightarrow> rat \<Rightarrow> rat \<times> jdict \<Rightarrow> cover_evidence \<Rightarrow> pair_evidence" where
  "pair_result shared title cover description overlap latest ev =
     (let s = combined_score title cover description overlap (fst latest) (cev_match ev);
          score = (if shared \<noteq> [] then 99 / 100 else round6 (min s (98 / 100)));
          fields = fmadd (fmadd (fmap_of_list [(''score'', JFloat score), (''scorer_version'', JStr SCORER_VERSION),
              (''title'', JFloat (round6 title)), (''title_match'', JBool (title \<ge> 75 / 100)), (''cover'', JFloat (round6 cover)),
              (''description'', JFloat (round6 description)), (''chapter_overlap'', JFloat (round6 overlap))])
              (snd latest)) (cev_fields ev)
      in \<lparr>pe_score = score,
          pe_fields = (if shared \<noteq> [] then fmupd ''shared_external_id'' (JList (map JStr shared)) fields else fields)\<rparr>)"

definition identities_in :: "int list \<Rightarrow> db \<Rightarrow> int \<Rightarrow> int list" where
  "identities_in ids d i =
     (if i \<in> set ids then map srs_id (filter (\<lambda>s. srs_series_id s = i) (source_series d)) else [])"

definition signature_of :: "db \<Rightarrow> int \<Rightarrow> cover_signature option" where
  "signature_of d i = get_row csg_source_series_id i (cover_signatures (library d))"

text \<open>One pair, with its own queries.\<close>

definition cover_score :: "score_env \<Rightarrow> db \<Rightarrow> int \<Rightarrow> int \<Rightarrow> rat \<times> cover_evidence" where
  "cover_score env d l r =
     (let (c, e) = best_cover (se_geometry env) (signature_of d) (identities_in [l, r] d l) (identities_in [l, r] d r)
      in (min c 1, e))"

definition score_series_pair :: "score_env \<Rightarrow> db \<Rightarrow> int \<Rightarrow> int \<Rightarrow> pair_evidence" where
  "score_series_pair env d l r =
     (let ids = [l, r]; (cover, ev) = cover_score env d l r
      in pair_result (shared_external ids d l r) (best_title env (titles_in ids d l) (titles_in ids d r)) cover
           (text_similarity env (description_in ids d l) (description_in ids d r))
           (overlap_ratio (numbers_in ids d l) (numbers_in ids d r))
           (latest_chapter_values (newest_by_query ids d l) (newest_by_query ids d r)) ev)"

text \<open>Many pairs, from rows loaded once for all series involved.\<close>

definition loaded_signatures :: "int list \<Rightarrow> db \<Rightarrow> int \<Rightarrow> cover_signature option" where
  "loaded_signatures ids d =
     map_of (map (\<lambda>g. (csg_source_series_id g, g))
       (filter (\<lambda>g. \<exists>s \<in> set (source_series d). srs_id s = csg_source_series_id g \<and> srs_series_id s \<in> set ids)
          (cover_signatures (library d))))"

definition score_pair :: "score_env \<Rightarrow> int list \<Rightarrow> db \<Rightarrow> int \<Rightarrow> int \<Rightarrow> pair_evidence" where
  "score_pair env ids d l r =
     (let (cover, ev) = best_cover (se_geometry env) (loaded_signatures ids d) (identities_in ids d l) (identities_in ids d r)
      in pair_result (shared_external ids d l r) (best_title env (titles_in ids d l) (titles_in ids d r)) cover
           (text_similarity env (description_in ids d l) (description_in ids d r))
           (overlap_ratio (numbers_in ids d l) (numbers_in ids d r))
           (latest_chapter_values (newest_in_pass ids d l) (newest_in_pass ids d r)) ev)"

text \<open>\<open>max\<close> keeps the first of equal scores.\<close>

definition best_selected :: "(int \<Rightarrow> pair_evidence) \<Rightarrow> int \<Rightarrow> int list \<Rightarrow> int" where
  "best_selected score s ss = fold (\<lambda>x best. if pe_score (score best) < pe_score (score x) then x else best) ss s"

definition score_candidate_set :: "score_env \<Rightarrow> db \<Rightarrow> int list \<Rightarrow> int list \<Rightarrow> int \<Rightarrow> pair_evidence option" where
  "score_candidate_set env d selected candidates c =
     (case selected of
        [] \<Rightarrow> None
      | s # ss \<Rightarrow>
          if c \<notin> set candidates then None
          else
            (let ids = sort (remdups (selected @ candidates));
                 m = best_selected (\<lambda>x. score_pair env ids d x c) s ss;
                 best = score_pair env ids d m c
             in Some (best\<lparr>pe_fields := fmupd ''matched_selected_id'' (JInt m) (pe_fields best)\<rparr>)))"

subsection \<open>Rescoring the pending decisions of a series\<close>

definition identity_ids :: "int \<Rightarrow> db \<Rightarrow> int list" where
  "identity_ids s d = map srs_id (filter (\<lambda>x. srs_series_id x = s) (source_series d))"

definition pending_for :: "int \<Rightarrow> db \<Rightarrow> catalog_match_decision \<Rightarrow> bool" where
  "pending_for s d x = (dec_decision x = DecPending \<and> (dec_left x \<in> set (identity_ids s d) \<or> dec_right x \<in> set (identity_ids s d)))"

definition rescored :: "string \<Rightarrow> string \<Rightarrow> pair_evidence \<Rightarrow> catalog_match_decision \<Rightarrow> catalog_match_decision" where
  "rescored lt rt e x =
     x\<lparr>dec_confidence := pe_score e,
       dec_evidence := fmupd ''policy'' (JStr ''manual_review_required'')
         (fmupd ''title_or_alias'' (JList [JStr lt, JStr rt]) (pe_fields e)),
       dec_scorer_version := SCORER_VERSION, dec_features := pe_fields e\<rparr>"

definition candidate_series :: "int \<Rightarrow> db \<Rightarrow> int list" where
  "candidate_series s d =
     sort (remdups (filter (\<lambda>c. c \<noteq> s) (List.map_filter (\<lambda>i. map_option srs_series_id (get_row srs_id i (source_series d)))
        (concat (map (\<lambda>x. [dec_left x, dec_right x]) (filter (pending_for s d) (decisions d)))))))"

definition rescore_decision :: "score_env \<Rightarrow> db \<Rightarrow> int \<Rightarrow> catalog_match_decision \<Rightarrow> catalog_match_decision option" where
  "rescore_decision env d s x =
     (case (get_row srs_id (dec_left x) (source_series d), get_row srs_id (dec_right x) (source_series d)) of
        (Some l, Some r) \<Rightarrow>
          if srs_series_id l = srs_series_id r then None
          else map_option (\<lambda>e. rescored (srs_title l) (srs_title r) e x)
                 (score_candidate_set env d [s] (candidate_series s d)
                    (if srs_series_id l = s then srs_series_id r else srs_series_id l))
      | _ \<Rightarrow> None)"

definition rescore_pending :: "score_env \<Rightarrow> int \<Rightarrow> db \<Rightarrow> int \<times> db" where
  "rescore_pending env s d =
     (if identity_ids s d = [] then (0, d)
      else
        (int (length (filter (\<lambda>x. pending_for s d x \<and> rescore_decision env d s x \<noteq> None) (decisions d))),
         d\<lparr>decisions := map (\<lambda>x. if pending_for s d x
             then (case rescore_decision env d s x of None \<Rightarrow> x | Some y \<Rightarrow> y) else x) (decisions d)\<rparr>))"

end
