(* ===== verification/Matching_Score_Properties.thy ===== *)
theory Matching_Score_Properties
  imports Matching_Score
begin

text \<open>
  The two scorers agree, a score stays within its bounds, and rescoring the pending decisions of a
  series replaces evidence and nothing else.
\<close>

subsection \<open>Rounding\<close>

lemma round6_le: "x * 1000000 \<le> of_int n \<Longrightarrow> round6 x \<le> of_int n / 1000000"
proof -
  assume le: "x * 1000000 \<le> of_int n"
  let ?f = "\<lfloor>x * 1000000\<rfloor>"
  have f: "?f \<le> n" using le by (simp add: floor_le_iff)
  show ?thesis
  proof (cases "?f = n")
    case True
    then have "x * 1000000 = of_int n" using le by linarith
    then have "round6 x = of_int n / 1000000" by (simp add: round6_def Let_def)
    then show ?thesis by simp
  next
    case False
    then have "?f + 1 \<le> n" using f by simp
    then have "of_int (?f + 1) \<le> (of_int n :: rat)" by (simp only: of_int_le_iff)
    then show ?thesis by (simp add: round6_def Let_def divide_right_mono)
  qed
qed

lemma round6_ge: "of_int n \<le> x * 1000000 \<Longrightarrow> of_int n / 1000000 \<le> round6 x"
proof -
  assume "of_int n \<le> x * 1000000"
  then have "n \<le> \<lfloor>x * 1000000\<rfloor>" by (simp add: le_floor_iff)
  then have "of_int n \<le> (of_int \<lfloor>x * 1000000\<rfloor> :: rat)" by (simp only: of_int_le_iff)
  then show ?thesis by (simp add: round6_def Let_def divide_right_mono)
qed

lemma round6_unit: "0 \<le> x \<Longrightarrow> x \<le> 1 \<Longrightarrow> 0 \<le> round6 x \<and> round6 x \<le> 1"
  using round6_le [of x 1000000] round6_ge [of 0 x] by simp

subsection \<open>Covers\<close>

text \<open>What OpenCV promises: a distance is a number of bits, and the key points that fit a homography are
  among the good matches.\<close>

definition geometry_ok :: "(cover_signature \<Rightarrow> cover_signature \<Rightarrow> cover_geometry) \<Rightarrow> bool" where
  "geometry_ok geometry =
     (\<forall>l r. 0 \<le> cg_hash_distance (geometry l r) \<and> 0 \<le> cg_inliers (geometry l r) \<and>
        cg_inliers (geometry l r) \<le> cg_good (geometry l r))"

lemma cover_similarity_unit:
  assumes "geometry_ok geometry"
  shows "0 \<le> cover_similarity (compare_signatures geometry l r) \<and> cover_similarity (compare_signatures geometry l r) \<le> 1"
proof -
  let ?g = "geometry l r" and ?e = "compare_signatures geometry l r"
  have g: "0 \<le> cg_hash_distance ?g" "0 \<le> cg_inliers ?g" "cg_inliers ?g \<le> cg_good ?g"
    using assms by (simp_all add: geometry_ok_def)
  let ?ratio = "of_int (cg_inliers ?g) / of_int (max (cg_good ?g) 1) :: rat"
  have "0 \<le> ?ratio" using g(2) by simp
  moreover have "(of_int (cg_inliers ?g) :: rat) \<le> of_int (max (cg_good ?g) 1)" using g(3) by (simp only: of_int_le_iff)
  then have "?ratio \<le> 1" by (simp add: divide_le_eq_1 max_def split: if_splits)
  ultimately have r: "0 \<le> cev_ratio ?e" "cev_ratio ?e \<le> 1"
    using round6_unit by (simp_all add: compare_signatures_def unreadable_covers_def Let_def)
  have "0 \<le> cev_distance ?e" using g(1) by (simp add: compare_signatures_def unreadable_covers_def Let_def)
  then have "(1::rat) - of_int (cev_distance ?e) / 32 \<le> 1" by simp
  then show ?thesis using r unfolding cover_similarity_def Let_def by (auto simp: min_def max_def)
qed

lemma best_cover_unit:
  assumes "geometry_ok geometry"
  shows "0 \<le> fst (best_cover geometry signature ls rs) \<and> fst (best_cover geometry signature ls rs) \<le> 1"
proof -
  have "0 \<le> fst (fold (better_cover geometry signature) ps best) \<and> fst (fold (better_cover geometry signature) ps best) \<le> 1"
    if "0 \<le> fst best \<and> fst best \<le> 1" for ps best
    using that
  proof (induction ps arbitrary: best)
    case (Cons p ps)
    have "0 \<le> fst (better_cover geometry signature p best) \<and> fst (better_cover geometry signature p best) \<le> 1"
      using Cons.prems cover_similarity_unit [OF assms] by (simp add: better_cover_def Let_def split: option.split)
    then show ?case using Cons.IH by simp
  qed simp
  then show ?thesis by (simp add: best_cover_def no_covers_def)
qed

lemma best_cover_cong:
  assumes "\<And>i. i \<in> set ls \<union> set rs \<Longrightarrow> f i = g i"
  shows "best_cover geometry f ls rs = best_cover geometry g ls rs"
proof -
  have "better_cover geometry f p best = better_cover geometry g p best" if "p \<in> set (List.product ls rs)" for p best
  proof -
    have "f (fst p) = g (fst p)" "f (snd p) = g (snd p)" using that by (auto intro: assms)
    then show ?thesis by (simp add: better_cover_def)
  qed
  then show ?thesis unfolding best_cover_def by (intro fold_cong) auto
qed

text \<open>Without a comparison there is no match.\<close>

lemma best_cover_state:
  "\<not> cev_compared (snd (best_cover geometry signature ls rs)) \<Longrightarrow>
     fst (best_cover geometry signature ls rs) = 0 \<and> \<not> cev_match (snd (best_cover geometry signature ls rs))"
proof -
  let ?inv = "\<lambda>b. \<not> cev_compared (snd b) \<longrightarrow> fst b = 0 \<and> \<not> cev_match (snd b)"
  have "?inv (fold (better_cover geometry signature) ps b)" if "?inv b" for ps b
    using that
  proof (induction ps arbitrary: b)
    case (Cons p ps)
    have "?inv (better_cover geometry signature p b)"
      using Cons.prems
      by (auto simp: better_cover_def cover_similarity_def compare_signatures_def unreadable_covers_def Let_def split: option.split)
    then show ?case using Cons.IH by simp
  qed simp
  moreover have "?inv no_covers" by (simp add: no_covers_def)
  ultimately show "\<not> cev_compared (snd (best_cover geometry signature ls rs)) \<Longrightarrow>
     fst (best_cover geometry signature ls rs) = 0 \<and> \<not> cev_match (snd (best_cover geometry signature ls rs))"
    unfolding best_cover_def by blast
qed

subsection \<open>One pass and one query\<close>

lemma fold_newest:
  "fold newest_step cs m i =
     fold (\<lambda>x best. Some (case best of None \<Rightarrow> x | Some y \<Rightarrow> max y x))
       (List.map_filter ch_sort_number (filter (\<lambda>c. ch_series_id c = i) cs)) (m i)"
  by (induction cs arbitrary: m) (simp_all add: newest_step_def List.map_filter_simps split: option.split)

lemma fold_max_option:
  "fold (\<lambda>x best. Some (case best of None \<Rightarrow> x | Some y \<Rightarrow> max y x)) xs (Some (a :: rat)) = Some (Max (insert a (set xs)))"
proof (induction xs arbitrary: a)
  case (Cons x xs)
  have "Max (insert (max a x) (set xs)) = Max (insert a (insert x (set xs)))"
    by (cases "xs = []") (simp_all add: Max.insert_not_elem max.assoc [symmetric] Max_insert)
  then show ?case using Cons.IH [of "max a x"] by simp
qed simp

lemma last_sorted:
  assumes "(xs :: rat list) \<noteq> []"
  shows "(case rev (sort xs) of [] \<Rightarrow> None | x # _ \<Rightarrow> Some x) = Some (Max (set xs))"
proof -
  have "sort xs \<noteq> []" using assms set_sort [of "\<lambda>x. x" xs] by (cases "sort xs") auto
  then obtain ys y where s: "sort xs = ys @ [y]" by (cases "sort xs" rule: rev_cases) auto
  have sorted: "sorted (ys @ [y])" using sorted_sort [of xs] by (simp only: s)
  have mem: "set xs = insert y (set ys)" using set_sort [of "\<lambda>x. x" xs] by (simp add: s)
  have "Max (set xs) = y" by (rule Max_eqI) (use sorted mem in \<open>auto simp: sorted_append\<close>)
  then show ?thesis by (simp add: s)
qed

lemma newest_agree: "i \<in> set ids \<Longrightarrow> newest_in_pass ids d i = newest_by_query ids d i"
proof -
  assume i: "i \<in> set ids"
  let ?cs = "filter (\<lambda>c. ch_series_id c = i) (chapters d)"
  have "filter (\<lambda>c. ch_series_id c = i) (filter (\<lambda>c. ch_series_id c \<in> set ids) (chapters d)) = ?cs"
    using i by (auto simp: filter_filter intro: filter_cong)
  then have pass: "newest_in_pass ids d i =
      fold (\<lambda>x best. Some (case best of None \<Rightarrow> x | Some y \<Rightarrow> max y x)) (List.map_filter ch_sort_number ?cs) None"
    by (simp add: newest_in_pass_def fold_newest)
  show ?thesis
  proof (cases "List.map_filter ch_sort_number ?cs")
    case Nil
    then show ?thesis using i by (simp add: pass newest_by_query_def)
  next
    case (Cons x xs)
    have "newest_in_pass ids d i = Some (Max (set (x # xs)))" by (simp add: pass Cons fold_max_option)
    then show ?thesis using i last_sorted [of "x # xs"] by (simp add: newest_by_query_def Cons del: sort_key_simps)
  qed
qed

lemma find_filter: "(\<And>x. P x \<Longrightarrow> Q x) \<Longrightarrow> find P (filter Q xs) = find P xs"
  by (induction xs) auto

lemma map_of_find: "map_of (map (\<lambda>g. (f g, g)) xs) k = find (\<lambda>g. f g = k) xs"
  by (induction xs) auto

lemma signatures_agree:
  assumes "k \<in> set (identities_in ids d i)"
  shows "loaded_signatures ids d k = signature_of d k"
proof -
  obtain s where "s \<in> set (source_series d)" "srs_id s = k" "srs_series_id s \<in> set ids"
    using assms by (auto simp: identities_in_def split: if_splits)
  then show ?thesis
    unfolding loaded_signatures_def signature_of_def get_row_def map_of_find by (intro find_filter) auto
qed

subsection \<open>The two scorers\<close>

lemma pass_equals_queries:
  assumes "geometry_ok (se_geometry env)" "l \<in> set ids" "r \<in> set ids"
  shows "score_pair env ids d l r = score_series_pair env d l r"
proof -
  let ?two = "[l, r]"
  have ids: "identities_in ids d x = identities_in ?two d x" "titles_in ids d x = titles_in ?two d x"
    "description_in ids d x = description_in ?two d x" "numbers_in ids d x = numbers_in ?two d x"
    "external_in ids d x = external_in ?two d x" "newest_in_pass ids d x = newest_by_query ?two d x"
    if "x \<in> {l, r}" for x
    using that assms(2,3) newest_agree [of x ids d]
    by (auto simp: identities_in_def titles_in_def description_in_def numbers_in_def external_in_def newest_by_query_def)
  have "best_cover (se_geometry env) (loaded_signatures ids d) (identities_in ids d l) (identities_in ids d r) =
      best_cover (se_geometry env) (signature_of d) (identities_in ?two d l) (identities_in ?two d r)" (is "_ = ?best")
    using ids(1) [of l] ids(1) [of r] signatures_agree [of _ ids d l] signatures_agree [of _ ids d r]
    by (auto intro!: best_cover_cong)
  moreover have "cover_score env d l r = ?best"
    using best_cover_unit [OF assms(1), of "signature_of d" "identities_in ?two d l" "identities_in ?two d r"]
    by (simp add: cover_score_def case_prod_beta min_def prod_eq_iff)
  moreover have "shared_external ids d l r = shared_external ?two d l r"
    by (simp add: shared_external_def ids)
  ultimately show ?thesis by (simp add: score_pair_def score_series_pair_def Let_def ids)
qed

text \<open>C24. The scorer that loads all rows once gives every pair the score and the evidence that the scorer of
  single pairs gives it with queries of its own, whatever other series it loads.\<close>

theorem pair_scores_agree:
  assumes "geometry_ok (se_geometry env)" "l \<in> set ids" "r \<in> set ids"
  shows "score_pair env ids d l r = score_series_pair env d l r"
  using assms by (rule pass_equals_queries)

subsection \<open>Bounds\<close>

text \<open>What \<open>difflib\<close> promises: a ratio lies between 0 and 1.\<close>

definition ratio_ok :: "(string \<Rightarrow> string \<Rightarrow> rat) \<Rightarrow> bool" where
  "ratio_ok f = (\<forall>a b. 0 \<le> f a b \<and> f a b \<le> 1)"

definition in_unit :: "rat \<Rightarrow> bool" where
  "in_unit x = (0 \<le> x \<and> x \<le> 1)"

lemma shared_ratio:
  assumes "distinct xs"
  shows "in_unit (of_nat (length (filter (\<lambda>x. x \<in> set ys) xs)) / of_nat (length (remdups (xs @ ys))))"
proof -
  have "length (filter (\<lambda>x. x \<in> set ys) xs) \<le> length xs" by simp
  also have "\<dots> = card (set xs)" using assms by (simp add: distinct_card)
  also have "\<dots> \<le> card (set (xs @ ys))" by (intro card_mono) auto
  also have "\<dots> = length (remdups (xs @ ys))" by (simp add: length_remdups_card_conv)
  finally have "(of_nat (length (filter (\<lambda>x. x \<in> set ys) xs)) :: rat) \<le> of_nat (length (remdups (xs @ ys)))"
    by (simp only: of_nat_le_iff)
  then show ?thesis unfolding in_unit_def by (cases "remdups (xs @ ys) = []") (simp_all add: divide_le_eq_1)
qed

lemma title_unit: "ratio_ok (se_ratio env) \<Longrightarrow> in_unit (matching_title_similarity env l r)"
proof -
  assume ok: "ratio_ok (se_ratio env)"
  let ?a = "normalize_title l" and ?b = "normalize_title r"
  let ?xs = "remdups (py_split ?a)" and ?ys = "remdups (py_split ?b)"
  let ?t = "of_nat (length (filter (\<lambda>w. w \<in> set ?ys) ?xs)) / of_nat (length (remdups (?xs @ ?ys))) :: rat"
  have "0 \<le> ?t" "?t \<le> 1" using shared_ratio [of ?xs ?ys] by (simp_all only: in_unit_def distinct_remdups)
  moreover have "0 \<le> se_ratio env ?a ?b" "se_ratio env ?a ?b \<le> 1" using ok by (simp_all add: ratio_ok_def)
  ultimately have "in_unit (6 / 10 * ?t + 4 / 10 * se_ratio env ?a ?b)" unfolding in_unit_def by (intro conjI; linarith)
  then show ?thesis
    unfolding matching_title_similarity_def Let_def in_unit_def by (auto simp: min_def simp del: remdups_append2)
qed

lemma fold_max_unit: "in_unit x \<Longrightarrow> (\<And>y. y \<in> set xs \<Longrightarrow> in_unit y) \<Longrightarrow> in_unit (fold max xs x)"
  by (induction xs arbitrary: x) (auto simp: max_def)

lemma best_title_unit:
  assumes "ratio_ok (se_ratio env)"
  shows "in_unit (best_title env ls rs)"
proof -
  let ?xs = "map (\<lambda>(l, r). matching_title_similarity env l r) (List.product ls rs)"
  have all: "in_unit y" if "y \<in> set ?xs" for y using that title_unit [OF assms] by auto
  show ?thesis
  proof (cases ?xs)
    case Nil
    then show ?thesis by (simp add: best_title_def in_unit_def)
  next
    case (Cons x xs)
    have "in_unit (fold max xs x)" using all unfolding Cons by (intro fold_max_unit) auto
    then show ?thesis unfolding best_title_def Cons by simp
  qed
qed

lemma text_unit: "ratio_ok (se_ratio env) \<Longrightarrow> in_unit (text_similarity env l r)"
  by (simp add: text_similarity_def Let_def in_unit_def ratio_ok_def)

lemma overlap_unit: "distinct xs \<Longrightarrow> in_unit (overlap_ratio xs ys)"
  using shared_ratio [of xs ys] by (simp add: overlap_ratio_def Let_def in_unit_def del: remdups_eq_nil_right_iff)

lemma latest_unit: "in_unit (fst (latest_chapter_values a b))"
  using round6_unit by (auto simp: latest_chapter_values_def in_unit_def Let_def split: option.split)

lemma combined_unit:
  assumes "in_unit t" "in_unit c" "in_unit x" "in_unit v" "in_unit a"
  shows "0 \<le> combined_score t c x v a m"
    "m \<Longrightarrow> 86 / 100 \<le> combined_score t c x v a m"
    "\<not> m \<Longrightarrow> c = 0 \<Longrightarrow> combined_score t c x v a m \<le> 45 / 100"
  using assms unfolding combined_score_def Let_def in_unit_def by (auto simp: max_def)

text \<open>C25. A score lies between 0 and 0.99.  A shared external identifier alone decides it (0.99); without
  one it is at most 0.98, at least 0.86 when the covers match, and at most 0.45 when no covers could be
  compared, whatever the titles and chapters say.\<close>

theorem score_bounded:
  assumes "ratio_ok (se_ratio env)" "geometry_ok (se_geometry env)"
  shows "0 \<le> pe_score (score_series_pair env d l r) \<and> pe_score (score_series_pair env d l r) \<le> 99 / 100 \<and>
    (shared_external [l, r] d l r \<noteq> [] \<longrightarrow> pe_score (score_series_pair env d l r) = 99 / 100) \<and>
    (shared_external [l, r] d l r = [] \<longrightarrow> pe_score (score_series_pair env d l r) \<le> 98 / 100 \<and>
       (cev_match (snd (cover_score env d l r)) \<longrightarrow> 86 / 100 \<le> pe_score (score_series_pair env d l r)) \<and>
       (\<not> cev_compared (snd (cover_score env d l r)) \<longrightarrow> pe_score (score_series_pair env d l r) \<le> 45 / 100))"
proof -
  let ?ids = "[l, r]" and ?cov = "cover_score env d l r"
  let ?t = "best_title env (titles_in ?ids d l) (titles_in ?ids d r)"
    and ?x = "text_similarity env (description_in ?ids d l) (description_in ?ids d r)"
    and ?v = "overlap_ratio (numbers_in ?ids d l) (numbers_in ?ids d r)"
    and ?a = "fst (latest_chapter_values (newest_by_query ?ids d l) (newest_by_query ?ids d r))"
  let ?s = "combined_score ?t (fst ?cov) ?x ?v ?a (cev_match (snd ?cov))"
  let ?best = "best_cover (se_geometry env) (signature_of d) (identities_in ?ids d l) (identities_in ?ids d r)"
  have cov: "fst ?cov = fst ?best" "snd ?cov = snd ?best"
    using best_cover_unit [OF assms(2), of "signature_of d" "identities_in ?ids d l" "identities_in ?ids d r"]
    by (simp_all add: cover_score_def case_prod_beta min_def)
  have units: "in_unit ?t" "in_unit (fst ?cov)" "in_unit ?x" "in_unit ?v" "in_unit ?a"
    using best_title_unit [OF assms(1)] text_unit [OF assms(1)] latest_unit best_cover_unit [OF assms(2)]
    by (simp_all add: cov in_unit_def overlap_unit [unfolded in_unit_def] numbers_in_def)
  note combined = combined_unit [OF units, of "cev_match (snd ?cov)"]
  have score: "pe_score (score_series_pair env d l r) =
      (if shared_external ?ids d l r \<noteq> [] then 99 / 100 else round6 (min ?s (98 / 100)))"
    by (simp add: score_series_pair_def pair_result_def case_prod_beta Let_def)
  have "0 \<le> round6 (min ?s (98 / 100))" using round6_ge [of 0 "min ?s (98 / 100)"] combined(1) by simp
  moreover have "round6 (min ?s (98 / 100)) \<le> 98 / 100" using round6_le [of "min ?s (98 / 100)" 980000] by simp
  moreover have "86 / 100 \<le> round6 (min ?s (98 / 100))" if "cev_match (snd ?cov)"
    using round6_ge [of 860000 "min ?s (98 / 100)"] combined(2) [OF that] by simp
  moreover have "round6 (min ?s (98 / 100)) \<le> 45 / 100" if "\<not> cev_compared (snd ?cov)"
  proof -
    have "fst ?cov = 0" "\<not> cev_match (snd ?cov)" using best_cover_state that by (simp_all add: cov)
    then show ?thesis using round6_le [of "min ?s (98 / 100)" 450000] combined(3) by simp
  qed
  ultimately show ?thesis unfolding score by (auto intro: order_trans)
qed

subsection \<open>Rescoring\<close>

text \<open>The part of a decision that rescoring must not touch.\<close>

definition verdict :: "catalog_match_decision \<Rightarrow> int \<times> int \<times> int \<times> match_decision \<times> string \<times> instant option" where
  "verdict x = (dec_id x, dec_left x, dec_right x, dec_decision x, dec_decided_by x, dec_decided_at x)"

definition rescored_row :: "score_env \<Rightarrow> int \<Rightarrow> db \<Rightarrow> catalog_match_decision \<Rightarrow> catalog_match_decision" where
  "rescored_row env s d x =
     (if pending_for s d x then (case rescore_decision env d s x of None \<Rightarrow> x | Some y \<Rightarrow> y) else x)"

lemma rescore_decision_SomeD:
  "rescore_decision env d s x = Some y \<Longrightarrow> \<exists>lt rt e. y = rescored lt rt e x"
  by (auto simp: rescore_decision_def split: option.splits if_splits)

lemma verdict_rescored: "verdict (rescored_row env s d x) = verdict x"
  by (auto simp: rescored_row_def verdict_def rescored_def split: option.split dest!: rescore_decision_SomeD)

lemma rescore_pending_rows:
  "identity_ids s d \<noteq> [] \<Longrightarrow> snd (rescore_pending env s d) = d\<lparr>decisions := map (rescored_row env s d) (decisions d)\<rparr>"
  by (simp add: rescore_pending_def rescored_row_def [abs_def] cong: map_cong)

text \<open>The score reads the catalogue and no decision.\<close>

lemma score_frame: "score_pair env ids (d\<lparr>decisions := xs\<rparr>) l r = score_pair env ids d l r"
  by (simp add: score_pair_def loaded_signatures_def identities_in_def titles_in_def description_in_def numbers_in_def
      external_in_def shared_external_def newest_in_pass_def)

lemma candidate_set_frame:
  "score_candidate_set env (d\<lparr>decisions := xs\<rparr>) selected cs c = score_candidate_set env d selected cs c"
  by (simp add: score_candidate_set_def score_frame split: list.split)

lemma pending_rescored:
  "pending_for s (d\<lparr>decisions := xs\<rparr>) (rescored_row env t e x) = pending_for s d x"
  using verdict_rescored [of env t e x] by (simp add: pending_for_def identity_ids_def verdict_def)

lemma candidate_series_rescored:
  "candidate_series s (d\<lparr>decisions := map (rescored_row env t e) (decisions d)\<rparr>) = candidate_series s d"
proof -
  have "map (\<lambda>x. [dec_left x, dec_right x]) (filter (pending_for s (d\<lparr>decisions := ys\<rparr>)) (map (rescored_row env t e) xs)) =
      map (\<lambda>x. [dec_left x, dec_right x]) (filter (pending_for s d) xs)" for xs ys
    using verdict_rescored [of env t e] by (induction xs) (simp_all add: pending_rescored verdict_def)
  then show ?thesis by (simp add: candidate_series_def)
qed

lemma rescore_decision_rescored:
  "rescore_decision env (d\<lparr>decisions := map (rescored_row env t e) (decisions d)\<rparr>) s (rescored_row env s d x) =
     rescore_decision env d s x" if "pending_for s d x"
proof -
  have ids: "dec_left (rescored_row env s d x) = dec_left x" "dec_right (rescored_row env s d x) = dec_right x"
    using verdict_rescored [of env s d x] by (simp_all add: verdict_def)
  have again: "rescored lt rt ev (rescored_row env s d x) = rescored lt rt ev x" for lt rt ev
    using that by (auto simp: rescored_row_def rescored_def split: option.split dest!: rescore_decision_SomeD)
  show ?thesis
    unfolding rescore_decision_def ids candidate_series_rescored candidate_set_frame again by simp
qed

text \<open>Rescoring the pending decisions of a series replaces their evidence and nothing else: no decision
  is made, withdrawn or moved, one that is not pending stays as it is, and a second run changes nothing.\<close>

theorem rescoring_replaces_evidence:
  "\<exists>xs. snd (rescore_pending env s d) = d\<lparr>decisions := xs\<rparr> \<and> map verdict xs = map verdict (decisions d) \<and>
     filter (\<lambda>x. dec_decision x \<noteq> DecPending) xs = filter (\<lambda>x. dec_decision x \<noteq> DecPending) (decisions d) \<and>
     rescore_pending env s (d\<lparr>decisions := xs\<rparr>) = rescore_pending env s d"
proof (cases "identity_ids s d = []")
  case True
  then have "snd (rescore_pending env s d) = d\<lparr>decisions := decisions d\<rparr>" by (simp add: rescore_pending_def)
  then show ?thesis by (intro exI [of _ "decisions d"]) simp
next
  case False
  let ?f = "rescored_row env s d"
  let ?d = "d\<lparr>decisions := map ?f (decisions d)\<rparr>"
  have verdicts: "map verdict (map ?f (decisions d)) = map verdict (decisions d)"
    by (simp add: verdict_rescored)
  have settled: "filter (\<lambda>x. dec_decision x \<noteq> DecPending) (map ?f xs) = filter (\<lambda>x. dec_decision x \<noteq> DecPending) xs" for xs
    using verdict_rescored [of env s d]
    by (induction xs) (auto simp: verdict_def rescored_row_def pending_for_def)
  have twice: "rescored_row env s ?d (?f x) = ?f x" for x
  proof (cases "pending_for s d x")
    case pending: True
    show ?thesis
      using pending rescore_decision_rescored [OF pending] unfolding rescored_row_def [of env s ?d] pending_rescored
      by (auto simp: rescored_row_def split: option.split)
  next
    case settled: False
    then have same: "?f x = x" by (simp add: rescored_row_def)
    have "pending_for s ?d (?f x) = pending_for s d x" by (rule pending_rescored)
    then have "\<not> pending_for s ?d x" using settled by (simp add: same)
    then have "rescored_row env s ?d x = x" unfolding rescored_row_def [of env s ?d] by (rule if_not_P)
    then show ?thesis by (simp only: same)
  qed
  have "length (filter (\<lambda>x. pending_for s ?d x \<and> rescore_decision env ?d s x \<noteq> None) (map ?f xs)) =
      length (filter (\<lambda>x. pending_for s d x \<and> rescore_decision env d s x \<noteq> None) xs)" for xs
    by (induction xs) (auto simp: pending_rescored rescore_decision_rescored)
  moreover have "identity_ids s ?d \<noteq> []" using False by (simp add: identity_ids_def)
  moreover have "snd (rescore_pending env s ?d) = ?d"
    using rescore_pending_rows [OF calculation(2)] by (simp add: twice)
  ultimately have "rescore_pending env s ?d = rescore_pending env s d"
    using False rescore_pending_rows [OF False, of env] by (auto simp: prod_eq_iff rescore_pending_def)
  then show ?thesis using rescore_pending_rows [OF False] verdicts settled by blast
qed

subsection \<open>What stays stale\<close>

lemma pair_result_version:
  assumes "fmlookup (snd latest) ''scorer_version'' = None" "fmlookup (cev_fields ev) ''scorer_version'' = None"
  shows "dict_get (pe_fields (pair_result shared t c x v latest ev)) ''scorer_version'' = JStr SCORER_VERSION"
  using assms by (simp add: pair_result_def Let_def dict_get_def fmdom'_notI fmlookup_dom_iff)

lemma best_cover_no_version:
  "fmlookup (cev_fields (snd (best_cover geometry signature ls rs))) ''scorer_version'' = None"
proof -
  let ?inv = "\<lambda>b. fmlookup (cev_fields (snd b)) ''scorer_version'' = None"
  have "?inv (fold (better_cover geometry signature) ps b)" if "?inv b" for ps and b :: "rat \<times> cover_evidence"
    using that
  proof (induction ps arbitrary: b)
    case (Cons p ps)
    have "?inv (better_cover geometry signature p b)"
      using Cons.prems by (auto simp: better_cover_def compare_signatures_def unreadable_covers_def Let_def split: option.split)
    then show ?case using Cons.IH by simp
  qed simp
  moreover have "?inv no_covers" by (simp add: no_covers_def)
  ultimately show ?thesis by (simp add: best_cover_def)
qed

lemma score_pair_version: "dict_get (pe_fields (score_pair env ids d l r)) ''scorer_version'' = JStr SCORER_VERSION"
  using best_cover_no_version
  by (auto simp: score_pair_def case_prod_beta Let_def latest_chapter_values_def intro!: pair_result_version split: option.split)

lemma rescored_is_current: "rescore_decision env d s x = Some y \<Longrightarrow> \<not> needs_rescore y"
  using score_pair_version
  by (auto simp: rescore_decision_def rescored_def needs_rescore_def score_candidate_set_def Let_def
      split: option.splits if_splits list.splits)

definition joins_series :: "db \<Rightarrow> catalog_match_decision \<Rightarrow> int \<Rightarrow> int \<Rightarrow> bool" where
  "joins_series d x a b =
     (\<exists>l r. get_row srs_id (dec_left x) (source_series d) = Some l \<and>
        get_row srs_id (dec_right x) (source_series d) = Some r \<and> srs_series_id l = a \<and> srs_series_id r = b)"

lemma candidate_score:
  assumes "geometry_ok (se_geometry env)" "c \<in> set cs"
  shows "\<exists>e. score_candidate_set env d [s] cs c = Some e \<and> pe_score e = pe_score (score_series_pair env d s c) \<and>
    pe_fields e = fmupd ''matched_selected_id'' (JInt s) (pe_fields (score_series_pair env d s c))"
proof -
  have "score_pair env (sort (remdups ([s] @ cs))) d s c = score_series_pair env d s c"
    using assms(2) by (intro pass_equals_queries [OF assms(1)]) simp_all
  then show ?thesis using assms(2) by (simp add: score_candidate_set_def best_selected_def Let_def)
qed

lemma rescored_across:
  assumes g: "geometry_ok (se_geometry env)" and x: "x \<in> set (decisions d)" "needs_rescore x" and "joins_series d x a b"
    and ab: "a \<noteq> b" and sc: "s = a \<and> c = b \<or> s = b \<and> c = a"
  shows "\<exists>y \<in> set (decisions (snd (rescore_pending env s d))). verdict y = verdict x \<and> \<not> needs_rescore y \<and>
    dec_scorer_version y = SCORER_VERSION \<and> dec_confidence y = pe_score (score_series_pair env d s c) \<and>
    dec_features y = fmupd ''matched_selected_id'' (JInt s) (pe_fields (score_series_pair env d s c))"
proof -
  obtain l r where lr: "get_row srs_id (dec_left x) (source_series d) = Some l"
    "get_row srs_id (dec_right x) (source_series d) = Some r" "srs_series_id l = a" "srs_series_id r = b"
    using assms(4) unfolding joins_series_def by blast
  have mem: "l \<in> set (source_series d)" "srs_id l = dec_left x" "r \<in> set (source_series d)" "srs_id r = dec_right x"
    using get_row_SomeD [OF lr(1)] get_row_SomeD [OF lr(2)] by simp_all
  have "dec_left x \<in> set (identity_ids a d)" "dec_right x \<in> set (identity_ids b d)"
    using mem lr(3,4) by (auto simp: identity_ids_def image_iff intro: bexI [of _ l] bexI [of _ r])
  then have pending: "pending_for s d x" using x(2) sc by (auto simp: pending_for_def needs_rescore_def)
  then have some: "identity_ids s d \<noteq> []" by (auto simp: pending_for_def)
  have other: "(if srs_series_id l = s then srs_series_id r else srs_series_id l) = c" using lr(3,4) sc ab by auto
  have "c \<in> set (candidate_series s d)"
    using x(1) pending lr sc ab unfolding candidate_series_def
    by (auto simp: List.map_filter_def image_iff intro!: bexI [of _ x])
  from candidate_score [OF g this] obtain e where e: "score_candidate_set env d [s] (candidate_series s d) c = Some e"
    "pe_score e = pe_score (score_series_pair env d s c)"
    "pe_fields e = fmupd ''matched_selected_id'' (JInt s) (pe_fields (score_series_pair env d s c))"
    by blast
  have y: "rescore_decision env d s x = Some (rescored (srs_title l) (srs_title r) e x)" (is "_ = Some ?y")
    unfolding rescore_decision_def lr(1,2) prod.case option.case other e(1) using ab lr(3,4) by simp
  have row: "rescored_row env s d x = ?y" using pending y by (simp add: rescored_row_def)
  then have "verdict ?y = verdict x" using verdict_rescored [of env s d x] by simp
  moreover have "?y \<in> set (decisions (snd (rescore_pending env s d)))"
    using x(1) row by (simp add: rescore_pending_rows [OF some] image_iff) (metis)
  ultimately show ?thesis using rescored_is_current [OF y] e(2,3) by (intro bexI [of _ ?y]) (simp_all add: rescored_def)
qed

text \<open>C26. A pending decision between two series that asks for rescoring is current after either of them is
  rescored: it has the present version of the scorer, and its confidence and features are the score and the
  evidence of that pair of series.  One whose two identities have come to belong to one series is left as it is
  by every rescoring, so it asks for another one for ever.\<close>

theorem rescoring_settles_across:
  assumes "geometry_ok (se_geometry env)" "x \<in> set (decisions d)" "needs_rescore x" "joins_series d x a b"
  shows "(a \<noteq> b \<longrightarrow> (s = a \<and> c = b \<or> s = b \<and> c = a) \<longrightarrow>
      (\<exists>y \<in> set (decisions (snd (rescore_pending env s d))). verdict y = verdict x \<and> \<not> needs_rescore y \<and>
       dec_scorer_version y = SCORER_VERSION \<and> dec_confidence y = pe_score (score_series_pair env d s c) \<and>
       dec_features y = fmupd ''matched_selected_id'' (JInt s) (pe_fields (score_series_pair env d s c)))) \<and>
    (a = b \<longrightarrow> x \<in> set (decisions (fold (\<lambda>s d. snd (rescore_pending env s d)) ss d)))"
proof (rule conjI; intro impI)
  assume "a \<noteq> b" "s = a \<and> c = b \<or> s = b \<and> c = a"
  with rescored_across [OF assms] show "\<exists>y \<in> set (decisions (snd (rescore_pending env s d))). verdict y = verdict x \<and>
      \<not> needs_rescore y \<and> dec_scorer_version y = SCORER_VERSION \<and> dec_confidence y = pe_score (score_series_pair env d s c) \<and>
      dec_features y = fmupd ''matched_selected_id'' (JInt s) (pe_fields (score_series_pair env d s c))" by blast
next
  assume ab: "a = b"
  have one: "x \<in> set (decisions (snd (rescore_pending env s d))) \<and> joins_series (snd (rescore_pending env s d)) x a b"
    if "x \<in> set (decisions d)" "joins_series d x a b" for s d
  proof (cases "identity_ids s d = []")
    case True
    then show ?thesis using that by (simp add: rescore_pending_def)
  next
    case False
    have "rescore_decision env d s x = None" using that(2) ab by (auto simp: rescore_decision_def joins_series_def)
    then have "rescored_row env s d x = x" by (simp add: rescored_row_def)
    then show ?thesis using that by (force simp: rescore_pending_rows [OF False] joins_series_def)
  qed
  show "x \<in> set (decisions (fold (\<lambda>s d. snd (rescore_pending env s d)) ss d))"
    using assms(2,4) by (induction ss arbitrary: d) (use one in auto)
qed

subsection \<open>A small catalogue\<close>

definition demo_ratio :: score_env where
  "demo_ratio = \<lparr>se_ratio = (\<lambda>_ _. 1 / 2),
     se_geometry = (\<lambda>_ _. \<lparr>cg_readable = True, cg_hash_distance = 3, cg_good = 20, cg_inliers = 15\<rparr>)\<rparr>"

lemma demo_ratio_ok: "ratio_ok (se_ratio demo_ratio)" "geometry_ok (se_geometry demo_ratio)"
  by (simp_all add: demo_ratio_def ratio_ok_def geometry_ok_def)

definition demo_listing :: "int \<Rightarrow> int \<Rightarrow> string \<Rightarrow> string \<Rightarrow> catalog_source_series" where
  "demo_listing i s src name =
     \<lparr>srs_id = i, srs_series_id = s, srs_source = src, srs_source_id = str_of_int i, srs_title = name, srs_url = [],
      srs_description = [], srs_cover_url = [], srs_popularity = 0, srs_metadata = fmempty, srs_observation_version = [],
      srs_normalized_source_id = str_of_int i, srs_last_checked_at = 0, srs_normalized_title = normalize_title name,
      srs_revision_override = [], srs_detail_fetched_at = None, srs_observation_seen_at = None\<rparr>"

definition demo_undecided :: "int \<Rightarrow> int \<Rightarrow> int \<Rightarrow> catalog_match_decision" where
  "demo_undecided i l r =
     \<lparr>dec_id = i, dec_left = l, dec_right = r, dec_decision = DecPending, dec_confidence = 0, dec_evidence = fmempty,
      dec_scorer_version = [], dec_features = fmempty, dec_decided_by = [], dec_decided_at = None\<rparr>"

definition demo_chapters :: "int \<Rightarrow> int \<Rightarrow> catalog_chapter" where
  "demo_chapters s n =
     \<lparr>ch_id = 100 * s + n, ch_series_id = s, ch_canonical_number = str_of_int n, ch_display_number = str_of_int n,
      ch_title = [], ch_sort_number = Some (of_int n), ch_created_at = 0, ch_updated_at = 0\<rparr>"

text \<open>Identities 1 and 3 belong to series 1, identity 2 to series 2.\<close>

definition demo_matches :: db where
  "demo_matches = empty_db\<lparr>
     series_rows := [new_catalog_series 1 ''k1'' ''Blue Tower'', new_catalog_series 2 ''k2'' ''The Blue Tower!''],
     source_series := [demo_listing 1 1 ''mangadex'' ''Blue Tower'', demo_listing 2 2 ''mangafire'' ''The Blue Tower!'',
       demo_listing 3 1 ''asura'' ''Blue Tower''],
     chapters := map (demo_chapters 1) [1, 2, 3] @ map (demo_chapters 2) [2, 3, 4],
     decisions := [demo_undecided 1 1 2, demo_undecided 2 1 3],
     library := empty_library\<lparr>cover_signatures := map (\<lambda>i. \<lparr>csg_source_series_id = i, csg_algorithm_version = ''v'',
       csg_hash_band_0 = ''0''\<rparr>) [1, 2]\<rparr>\<rparr>"

theorem pair_scores_agree_witness: "score_pair demo_ratio [1, 2, 7] demo_matches 1 2 = score_series_pair demo_ratio demo_matches 1 2"
  by (rule pair_scores_agree [OF demo_ratio_ok(2)]) simp_all

lemma demo_covers_match:
  "shared_external [1, 2] demo_matches 1 2 = [] \<and> cev_match (snd (cover_score demo_ratio demo_matches 1 2))"
  by code_simp

theorem score_bounded_witness: "86 / 100 \<le> pe_score (score_series_pair demo_ratio demo_matches 1 2)"
  using score_bounded [OF demo_ratio_ok, of demo_matches 1 2] demo_covers_match by blast

lemma demo_decisions:
  "needs_rescore (demo_undecided 2 1 3) \<and> demo_undecided 2 1 3 \<in> set (decisions demo_matches)"
  "needs_rescore (demo_undecided 1 1 2) \<and> demo_undecided 1 1 2 \<in> set (decisions demo_matches)"
  by (simp_all add: needs_rescore_def demo_undecided_def demo_matches_def)

lemma demo_joins: "joins_series demo_matches (demo_undecided 2 1 3) 1 1" "joins_series demo_matches (demo_undecided 1 1 2) 1 2"
  unfolding joins_series_def
  by (simp_all add: demo_matches_def demo_undecided_def demo_listing_def get_row_Cons)

theorem rescoring_settles_across_witness:
  "demo_undecided 2 1 3 \<in> set (decisions (fold (\<lambda>s d. snd (rescore_pending demo_ratio s d)) [1, 2, 1] demo_matches)) \<and>
     needs_rescore (demo_undecided 2 1 3) \<and>
   (\<exists>y \<in> set (decisions (snd (rescore_pending demo_ratio 2 demo_matches))). \<not> needs_rescore y \<and>
     dec_confidence y = pe_score (score_series_pair demo_ratio demo_matches 2 1))"
  using rescoring_settles_across [OF demo_ratio_ok(2) _ _ demo_joins(1)]
    rescoring_settles_across [OF demo_ratio_ok(2) _ _ demo_joins(2), of 2 1] demo_decisions by fastforce

end
