(* ===== verification/Provider_Duplicates.thy ===== *)
theory Provider_Duplicates
  imports Matching_Score Series_Merge
begin

text \<open>
  \<^verbatim>\<open>application/provider_duplicates.py\<close>: which identities of one provider are the same
  manga.  Pairs worth comparing are collected with three indexes, compared, gathered into cliques,
  and the canonical series of the cliques are joined with a union-find.  The hashes stored with a
  cover signature (\<open>feature_json["hashes"]\<close>) are a parameter of the model.
\<close>

definition MINIMUM_STRONG_CHAPTERS :: nat where "MINIMUM_STRONG_CHAPTERS = 5"

definition MAXIMUM_EQUIVALENT_COVER_HASH_DISTANCE :: int where "MAXIMUM_EQUIVALENT_COVER_HASH_DISTANCE = 8"

definition MINIMUM_SHARED_TITLE_TOKENS :: nat where "MINIMUM_SHARED_TITLE_TOKENS = 2"

definition TITLE_TOKEN_STOP_WORDS :: "string list" where
  "TITLE_TOKEN_STOP_WORDS = [''a'', ''an'', ''and'', ''of'', ''the'', ''to'']"

definition title_tokens :: "string \<Rightarrow> string list" where
  "title_tokens v =
     remdups (filter (\<lambda>w. 1 < length w \<and> w \<notin> set TITLE_TOKEN_STOP_WORDS) (py_split (normalize_title v)))"

definition round4 :: "rat \<Rightarrow> rat" where
  "round4 x =
     (let y = x * 10000; f = \<lfloor>y\<rfloor>; r = y - of_int f
      in of_int (if r < 1 / 2 \<or> r = 1 / 2 \<and> even f then f else f + 1) / 10000)"

subsection \<open>The distance of two covers\<close>

text \<open>\<open>int(text, 16)\<close>.\<close>

definition hex_groups :: "string \<Rightarrow> bool" where
  "hex_groups s =
     (s \<noteq> [] \<and> hd s \<noteq> CHR ''_'' \<and> last s \<noteq> CHR ''_'' \<and> list_all (\<lambda>c. c = CHR ''_'' \<or> hex_digit c) s \<and>
      list_all (\<lambda>(a, b). \<not> (a = CHR ''_'' \<and> b = CHR ''_'')) (zip s (tl s)))"

definition parse_hex :: "string \<Rightarrow> int option" where
  "parse_hex text =
     (let (neg, body) = split_sign (py_strip text);
          prefixed = (py_startswith body ''0x'' \<or> py_startswith body ''0X'');
          rest = (if prefixed then drop 2 body else body);
          ds = (if prefixed \<and> rest \<noteq> [] \<and> hd rest = CHR ''_'' then tl rest else rest);
          n = fold (\<lambda>c n. 16 * n + int (hex_value c)) (filter (\<lambda>c. c \<noteq> CHR ''_'') ds) 0
      in if hex_groups ds then Some (if neg then - n else n) else None)"

fun bit_count :: "nat \<Rightarrow> nat" where
  "bit_count n = (if n = 0 then 0 else n mod 2 + bit_count (n div 2))"

declare bit_count.simps [simp del]

definition hamming_distance :: "string \<Rightarrow> string \<Rightarrow> int" where
  "hamming_distance l r =
     (case (parse_hex l, parse_hex r) of
        (Some a, Some b) \<Rightarrow> int (bit_count (nat \<bar>xor a b\<bar>))
      | _ \<Rightarrow> 64)"

definition signature_distance :: "(cover_signature \<Rightarrow> string list) \<Rightarrow> cover_signature option \<Rightarrow> cover_signature option \<Rightarrow> int" where
  "signature_distance hashes l r =
     (let texts = \<lambda>g. (case g of None \<Rightarrow> [] | Some g \<Rightarrow> hashes g)
      in case map (\<lambda>(a, b). hamming_distance a b) (List.product (texts l) (texts r)) of
           [] \<Rightarrow> 64 | x # xs \<Rightarrow> fold min xs x)"

subsection \<open>Evidence for one pair\<close>

record duplicate_evidence =
  dup_equivalent :: bool
  dup_ratio :: rat
  dup_overlap :: nat
  dup_fields :: jdict

definition conflicting_external :: "(string \<times> string) list \<Rightarrow> (string \<times> string) list \<Rightarrow> string list" where
  "conflicting_external ls rs =
     sort (remdups (filter (\<lambda>p. map_of rs p \<noteq> None \<and> map_of ls p \<noteq> map_of rs p) (map fst ls)))"

definition known_title :: "catalog_source_series \<Rightarrow> string" where
  "known_title s = str_or (normalize_title (srs_title s)) (srs_normalized_title s)"

definition strong_overlap :: "string list \<Rightarrow> string list \<Rightarrow> bool" where
  "strong_overlap ls rs =
     (let minimum = min (length ls) (length rs); overlap = length (filter (\<lambda>x. x \<in> set rs) ls)
      in MINIMUM_STRONG_CHAPTERS \<le> minimum \<and> 9 * minimum \<le> 10 * overlap)"

definition duplicate_identity_evidence ::
  "catalog_source_series \<Rightarrow> catalog_source_series \<Rightarrow> string list \<Rightarrow> string list \<Rightarrow> (string \<times> string) list
   \<Rightarrow> (string \<times> string) list \<Rightarrow> int \<Rightarrow> duplicate_evidence result" where
  "duplicate_identity_evidence l r lch rch lext rext dist =
     bind_result (provider_identities_equivalent l r) (\<lambda>identity.
     let overlap = length (filter (\<lambda>x. x \<in> set rch) lch); minimum = min (length lch) (length rch);
         ratio = (if minimum = 0 then 0 else of_nat overlap / of_nat minimum);
         conflicts = conflicting_external lext rext;
         agrees = (known_title l \<noteq> [] \<and> known_title l = known_title r);
         tokens = sort (filter (\<lambda>w. w \<in> set (title_tokens (srs_title r))) (title_tokens (srs_title l)));
         tokens_agree = (MINIMUM_SHARED_TITLE_TOKENS \<le> length tokens);
         strong = strong_overlap lch rch;
         cover = (dist \<le> MAXIMUM_EQUIVALENT_COVER_HASH_DISTANCE);
         equivalent = (identity \<or> agrees \<and> strong \<and> conflicts = [] \<or> cover \<and> tokens_agree \<and> strong \<and> conflicts = [])
     in Inr \<lparr>dup_equivalent = equivalent, dup_ratio = round4 ratio, dup_overlap = overlap,
          dup_fields = fmap_of_list [(''equivalent'', JBool equivalent), (''identity_equivalent'', JBool identity),
            (''title_agrees'', JBool agrees), (''shared_title_tokens'', JList (map JStr tokens)),
            (''title_tokens_agree'', JBool tokens_agree), (''chapter_overlap'', JInt (int overlap)),
            (''compared_chapters'', JInt (int minimum)), (''chapter_overlap_ratio'', JFloat (round4 ratio)),
            (''strong_chapter_overlap'', JBool strong), (''cover_hash_distance'', JInt dist),
            (''strong_cover_similarity'', JBool cover), (''conflicting_external_ids'', JList (map JStr conflicts))]\<rparr>)"

subsection \<open>Pairs worth comparing\<close>

text \<open>\<open>buckets.setdefault(key, []).append(x)\<close>, and the pairs within a bucket.\<close>

fun append_bucket :: "'k \<Rightarrow> 'a \<Rightarrow> ('k \<times> 'a list) list \<Rightarrow> ('k \<times> 'a list) list" where
  "append_bucket k x [] = [(k, [x])]"
| "append_bucket k x ((l, xs) # bs) = (if l = k then (l, xs @ [x]) # bs else (l, xs) # append_bucket k x bs)"

definition bucket_pairs :: "('a \<Rightarrow> 'k list) \<Rightarrow> 'a list \<Rightarrow> ('a \<times> 'a) list" where
  "bucket_pairs keys rows =
     concat (map (\<lambda>(_, xs). pairs xs) (fold (\<lambda>x bs. fold (\<lambda>k. append_bucket k x) (keys x) bs) rows []))"

definition ordered_pair :: "int \<times> int \<Rightarrow> int \<times> int" where
  "ordered_pair p = (min (fst p) (snd p), max (fst p) (snd p))"

definition title_keys :: "catalog_source_series \<Rightarrow> (string \<times> string) list" where
  "title_keys s = (if known_title s = [] then [] else [(srs_source s, known_title s)])"

definition identity_keys :: "catalog_source_series \<Rightarrow> ((string \<times> string \<times> string) list) result" where
  "identity_keys s =
     bind_result (canonical_source_url (srs_url s)) (\<lambda>url.
       let i = normalized_source_id (srs_source_id s)
       in Inr ((if i = [] then [] else [(srs_source s, ''source_id'', i)]) @ (if url = [] then [] else [(srs_source s, ''url'', url)])))"

definition token_keys :: "catalog_source_series \<Rightarrow> (string \<times> string \<times> string) list" where
  "token_keys s = map (\<lambda>(a, b). (srs_source s, a, b)) (pairs (sort (title_tokens (srs_title s))))"

definition covers_apart :: "(cover_signature \<Rightarrow> string list) \<Rightarrow> db \<Rightarrow> int \<Rightarrow> int \<Rightarrow> int" where
  "covers_apart hashes d l r = signature_distance hashes (signature_of d l) (signature_of d r)"

definition candidate_pairs ::
  "(cover_signature \<Rightarrow> string list) \<Rightarrow> db \<Rightarrow> catalog_source_series list \<Rightarrow> ((int \<times> int) list) result" where
  "candidate_pairs hashes d rows =
     (let ids = \<lambda>(l, r). ordered_pair (srs_id l, srs_id r);
          titles = map ids (bucket_pairs title_keys rows)
      in bind_result (fold_result (\<lambda>s _. bind_result (identity_keys s) (\<lambda>_. Inr ())) rows ()) (\<lambda>_.
         let identities = map ids (bucket_pairs (\<lambda>s. case identity_keys s of Inl _ \<Rightarrow> [] | Inr ks \<Rightarrow> ks) rows);
             tokens = filter (\<lambda>(l, r). l \<noteq> r \<and> covers_apart hashes d l r \<le> MAXIMUM_EQUIVALENT_COVER_HASH_DISTANCE)
                        (map ids (bucket_pairs token_keys rows))
         in Inr (sort (remdups (titles @ identities @ tokens)))))"

subsection \<open>Cliques\<close>

definition numbered_chapters :: "int \<Rightarrow> db \<Rightarrow> string list" where
  "numbered_chapters sid d =
     remdups (concat (map (\<lambda>r. map ch_canonical_number
         (filter (\<lambda>c. ch_id c = rel_chapter_id r \<and> ch_sort_number c \<noteq> None) (chapters d)))
       (filter (\<lambda>r. rel_source_series_id r = sid) (releases d))))"

definition external_pairs :: "int \<Rightarrow> db \<Rightarrow> (string \<times> string) list" where
  "external_pairs sid d =
     map (\<lambda>x. (ext_provider x, ext_value x)) (filter (\<lambda>x. ext_source_series_id x = sid) (external_identifiers (library d)))"

definition identity_evidence ::
  "(cover_signature \<Rightarrow> string list) \<Rightarrow> db \<Rightarrow> catalog_source_series \<Rightarrow> catalog_source_series \<Rightarrow> duplicate_evidence result" where
  "identity_evidence hashes d l r =
     duplicate_identity_evidence l r (numbered_chapters (srs_id l) d) (numbered_chapters (srs_id r) d)
       (external_pairs (srs_id l) d) (external_pairs (srs_id r) d) (covers_apart hashes d (srs_id l) (srs_id r))"

definition compare_pair ::
  "(cover_signature \<Rightarrow> string list) \<Rightarrow> db \<Rightarrow> catalog_source_series list \<Rightarrow> int \<times> int
   \<Rightarrow> ((int \<times> int) \<times> duplicate_evidence) list \<Rightarrow> (((int \<times> int) \<times> duplicate_evidence) list) result" where
  "compare_pair hashes d rows p found =
     (case (get_row srs_id (fst p) rows, get_row srs_id (snd p) rows) of
        (Some l, Some r) \<Rightarrow>
          if srs_source l \<noteq> srs_source r then Inr found
          else bind_result (identity_evidence hashes d l r) (\<lambda>e. Inr (if dup_equivalent e then found @ [(p, e)] else found))
      | _ \<Rightarrow> Inl (KeyError ''identity''))"

definition gathered_evidence ::
  "(cover_signature \<Rightarrow> string list) \<Rightarrow> db \<Rightarrow> catalog_source_series list
   \<Rightarrow> (((int \<times> int) \<times> duplicate_evidence) list) result" where
  "gathered_evidence hashes d rows =
     bind_result (candidate_pairs hashes d rows) (\<lambda>ps. fold_result (compare_pair hashes d rows) ps [])"

text \<open>A row joins the first group all of whose members it is equivalent to.\<close>

definition equivalent_in :: "((int \<times> int) \<times> duplicate_evidence) list \<Rightarrow> int \<Rightarrow> int \<Rightarrow> bool" where
  "equivalent_in found l r = (map_of found (ordered_pair (l, r)) \<noteq> None)"

fun join_group ::
  "((int \<times> int) \<times> duplicate_evidence) list \<Rightarrow> catalog_source_series \<Rightarrow> catalog_source_series list list
   \<Rightarrow> catalog_source_series list list" where
  "join_group found x [] = [[x]]"
| "join_group found x (g # gs) =
     (if list_all (\<lambda>m. equivalent_in found (srs_id x) (srs_id m)) g then (g @ [x]) # gs else g # join_group found x gs)"

record duplicate_group =
  dg_source :: string
  dg_normalized_title :: string
  dg_identity_ids :: "int list"
  dg_series_ids :: "int list"
  dg_pairs :: "((int \<times> int) \<times> duplicate_evidence option) list"

definition group_record :: "((int \<times> int) \<times> duplicate_evidence) list \<Rightarrow> string \<Rightarrow> catalog_source_series list \<Rightarrow> duplicate_group" where
  "group_record found src g =
     \<lparr>dg_source = src, dg_normalized_title = known_title (hd g), dg_identity_ids = map srs_id g,
      dg_series_ids = sort (remdups (map srs_series_id g)),
      dg_pairs = map (\<lambda>p. (p, map_of found p)) (pairs (sort (map srs_id g)))\<rparr>"

definition source_groups ::
  "((int \<times> int) \<times> duplicate_evidence) list \<Rightarrow> catalog_source_series list \<Rightarrow> string \<Rightarrow> duplicate_group list" where
  "source_groups found rows src =
     map (group_record found src)
       (filter (\<lambda>g. 2 \<le> length g) (fold (join_group found) (filter (\<lambda>x. srs_source x = src) rows) []))"

definition duplicate_rows :: "int list option \<Rightarrow> string list \<Rightarrow> db \<Rightarrow> catalog_source_series list" where
  "duplicate_rows series excluded d =
     sort_key srs_id (filter (\<lambda>x. (case series of None \<Rightarrow> True | Some ids \<Rightarrow> srs_series_id x \<in> set ids) \<and>
        srs_source x \<notin> set excluded) (source_series d))"

definition provider_duplicate_groups ::
  "(cover_signature \<Rightarrow> string list) \<Rightarrow> int list option \<Rightarrow> string list \<Rightarrow> db \<Rightarrow> (duplicate_group list) result" where
  "provider_duplicate_groups hashes series excluded d =
     (let rows = duplicate_rows series excluded d
      in if rows = [] then Inr []
         else bind_result (gathered_evidence hashes d rows) (\<lambda>found.
           Inr (concat (map (source_groups found rows) (sort (remdups (map srs_source rows)))))))"

subsection \<open>Union-find\<close>

text \<open>\<open>find\<close> with path halving; the parents are a function, the identity outside the given series.\<close>

partial_function (option) find_root :: "(int \<Rightarrow> int) \<Rightarrow> int \<Rightarrow> (int \<times> (int \<Rightarrow> int)) option" where
  "find_root p v = (if p v = v then Some (v, p) else find_root (p(v := p (p v))) (p (p v)))"

definition union_roots :: "int \<times> int \<Rightarrow> (int \<Rightarrow> int) \<Rightarrow> (int \<Rightarrow> int) option" where
  "union_roots lr p =
     (case find_root p (fst lr) of
        None \<Rightarrow> None
      | Some (a, p1) \<Rightarrow>
          (case find_root p1 (snd lr) of
             None \<Rightarrow> None
           | Some (b, p2) \<Rightarrow> Some (if a = b then p2 else p2(max a b := min a b))))"

fun union_all :: "(int \<times> int) list \<Rightarrow> (int \<Rightarrow> int) \<Rightarrow> (int \<Rightarrow> int) option" where
  "union_all [] p = Some p"
| "union_all (x # xs) p = (case union_roots x p of None \<Rightarrow> None | Some q \<Rightarrow> union_all xs q)"

fun collect_clusters :: "int list \<Rightarrow> (int \<Rightarrow> int) \<Rightarrow> (int \<times> int list) list \<Rightarrow> ((int \<times> int list) list) option" where
  "collect_clusters [] p cs = Some cs"
| "collect_clusters (s # ss) p cs =
     (case find_root p s of None \<Rightarrow> None | Some (r, q) \<Rightarrow> collect_clusters ss q (append_bucket r s cs))"

definition cluster_series :: "int list \<Rightarrow> (int \<times> int) list \<Rightarrow> ((int \<times> int list) list) option" where
  "cluster_series ids links =
     (case union_all links id of
        None \<Rightarrow> None
      | Some p \<Rightarrow>
          map_option (\<lambda>cs. concat (map (\<lambda>(_, xs). map (\<lambda>s. (s, sort xs)) xs) cs)) (collect_clusters ids p []))"

definition group_links :: "duplicate_group list \<Rightarrow> (int \<times> int) list" where
  "group_links gs = concat (map (\<lambda>g. pairs (dg_series_ids g)) gs)"

definition equivalent_series_clusters ::
  "(cover_signature \<Rightarrow> string list) \<Rightarrow> int list \<Rightarrow> db \<Rightarrow> (((int \<times> int list) list) option) result" where
  "equivalent_series_clusters hashes ids d =
     bind_result (provider_duplicate_groups hashes (Some ids) [] d) (\<lambda>gs. Inr (cluster_series ids (group_links gs)))"

end
