(* ===== verification/Provider_Duplicates_Properties.thy ===== *)
theory Provider_Duplicates_Properties
  imports Provider_Duplicates "HOL-Library.Multiset"
begin

text \<open>
  The union-find of \<open>equivalent_series_clusters\<close> ends and computes connected components, and the
  indexes that propose pairs miss no equivalent pair.
\<close>

subsection \<open>Parents that decrease\<close>

text \<open>\<open>root p v r\<close>: following the parents from \<open>v\<close> ends at \<open>r\<close>.\<close>

inductive root :: "(int \<Rightarrow> int) \<Rightarrow> int \<Rightarrow> int \<Rightarrow> bool" for p where
  Root: "p v = v \<Longrightarrow> root p v v"
| Up: "p v \<noteq> v \<Longrightarrow> root p (p v) r \<Longrightarrow> root p v r"

lemma root_of_fixed: "p v = v \<Longrightarrow> root p v r \<longleftrightarrow> r = v"
  by (auto intro: root.Root elim: root.cases)

lemma root_above: "p v \<noteq> v \<Longrightarrow> root p v r \<longleftrightarrow> root p (p v) r"
  by (auto intro: root.Up elim: root.cases)

lemma root_fixed: "root p v r \<Longrightarrow> p r = r"
  by (induction rule: root.induct) simp_all

lemma root_unique: "root p v r \<Longrightarrow> root p v s \<Longrightarrow> r = s"
  by (induction arbitrary: s rule: root.induct) (simp_all add: root_of_fixed root_above)

definition forest :: "int set \<Rightarrow> (int \<Rightarrow> int) \<Rightarrow> bool" where
  "forest S p = (finite S \<and> (\<forall>v \<in> S. p v \<in> S \<and> p v \<le> v))"

lemma forest_below:
  assumes "forest S p" "w \<in> S" "w < (v :: int)"
  shows "card {u \<in> S. u < w} < card {u \<in> S. u < v}"
proof (rule psubset_card_mono)
  show "finite {u \<in> S. u < v}" using assms(1) by (simp add: forest_def)
  have "w \<in> {u \<in> S. u < v} - {u \<in> S. u < w}" using assms(2,3) by simp
  moreover have "{u \<in> S. u < w} \<subseteq> {u \<in> S. u < v}" using assms(3) by auto
  ultimately show "{u \<in> S. u < w} \<subset> {u \<in> S. u < v}" by blast
qed

lemma forest_root:
  assumes "forest S p" "v \<in> S"
  shows "\<exists>r \<in> S. r \<le> v \<and> root p v r"
  using assms(2)
proof (induction "card {u \<in> S. u < v}" arbitrary: v rule: less_induct)
  case less
  show ?case
  proof (cases "p v = v")
    case True
    then show ?thesis using less.prems root.Root by blast
  next
    case False
    then have pv: "p v \<in> S" "p v < v" using assms(1) less.prems by (auto simp: forest_def order_less_le)
    obtain r where "r \<in> S" "r \<le> p v" "root p (p v) r" using less.hyps [OF forest_below [OF assms(1) pv] pv(1)] by blast
    then show ?thesis using root.Up [of p v r, OF False] pv(2) by (intro bexI [of _ r]) auto
  qed
qed

lemma forest_halve: "forest S p \<Longrightarrow> v \<in> S \<Longrightarrow> forest S (p(v := p (p v)))"
  unfolding forest_def by (metis fun_upd_apply order_trans)

text \<open>Halving a path moves no root.\<close>

lemma halve_root:
  assumes "forest S p" "v \<in> S" "p v \<noteq> v" "x \<in> S"
  shows "root (p(v := p (p v))) x r \<longleftrightarrow> root p x r"
proof -
  define q where "q = p(v := p (p v))"
  have q: "q v = p (p v)" "\<And>u. u \<noteq> v \<Longrightarrow> q u = p u" by (simp_all add: q_def)
  have down: "p v \<in> S" "p v < v" "p (p v) \<le> p v" using assms by (auto simp: forest_def order_less_le)
  have to: "root q x r" if "root p x r" for x r
    using that
  proof (induction rule: root.induct)
    case (Root u)
    then have "u \<noteq> v" using assms(3) by auto
    then show ?case using Root q by (intro root.Root) simp
  next
    case (Up u r)
    show ?case
    proof (cases "u = v")
      case False
      then show ?thesis using Up q(2) root_above [of q u r] by simp
    next
      case True
      have "root q (p (p v)) r"
      proof (cases "p (p v) = p v")
        case same: True
        then show ?thesis using Up.IH True by simp
      next
        case False
        then show ?thesis using Up.IH True down(2) q(2) root_above [of q "p v" r] by simp
      qed
      moreover have "q v \<noteq> v" using down q(1) by simp
      ultimately show ?thesis using q(1) True root_above [of q v r] by simp
    qed
  qed
  obtain s where s: "root p x s" using forest_root [OF assms(1,4)] by blast
  show ?thesis using to [OF s] s root_unique [of q x] root_unique [of p x] unfolding q_def by blast
qed

lemma find_root_ends:
  assumes "forest S p" "v \<in> S"
  shows "\<exists>r q. find_root p v = Some (r, q) \<and> r \<in> S \<and> root p v r \<and> forest S q \<and> (\<forall>x \<in> S. \<forall>s. root q x s \<longleftrightarrow> root p x s)"
  using assms
proof (induction "card {u \<in> S. u < v}" arbitrary: p v rule: less_induct)
  case less
  show ?case
  proof (cases "p v = v")
    case True
    then show ?thesis using less.prems by (intro exI [of _ v] exI [of _ p]) (simp add: find_root.simps [of p v] root.Root)
  next
    case False
    let ?q = "p(v := p (p v))"
    have step: "p u \<in> S" "p u \<le> u" if "u \<in> S" for u using less.prems(1) that by (auto simp: forest_def)
    have down: "p v \<in> S" "p v < v" "p (p v) \<in> S" "p (p v) \<le> p v"
      using step [OF less.prems(2)] step(1,2) [of "p v"] False by (simp_all add: order_less_le)
    have "p (p v) < v" using down(2,4) by linarith
    note smaller = forest_below [OF less.prems(1) down(3) this]
    obtain r q where IH: "find_root ?q (p (p v)) = Some (r, q)" "r \<in> S" "root ?q (p (p v)) r" "forest S q"
      "\<forall>x \<in> S. \<forall>s. root q x s \<longleftrightarrow> root ?q x s"
      using less.hyps [OF smaller forest_halve [OF less.prems] down(3)] by blast
    note same = halve_root [OF less.prems False]
    have "root ?q v r" using IH(3) \<open>p (p v) < v\<close> root_above [of ?q v r] by simp
    then have "root p v r" using same [OF less.prems(2)] by simp
    moreover have "find_root p v = Some (r, q)" using IH(1) False by (subst find_root.simps) simp
    ultimately show ?thesis using IH(2,4,5) same by blast
  qed
qed

subsection \<open>The partition\<close>

definition together :: "int set \<Rightarrow> (int \<Rightarrow> int) \<Rightarrow> (int \<times> int) set" where
  "together S p = {(x, y). x \<in> S \<and> y \<in> S \<and> (\<exists>r. root p x r \<and> root p y r)}"

lemma together_equiv: "forest S p \<Longrightarrow> equiv S (together S p)"
  by (rule equivI) (auto simp: together_def refl_on_def sym_def trans_def dest: forest_root root_unique)

lemma together_cong: "\<forall>x \<in> S. \<forall>s. root q x s \<longleftrightarrow> root p x s \<Longrightarrow> together S q = together S p"
  by (auto simp: together_def)

lemma link_root:
  assumes "p a = a" "p b = b" "b < a" "root p x r"
  shows "root (p(a := b)) x (if r = a then b else r)"
proof -
  define q where "q = p(a := b)"
  have q: "q a = b" "\<And>u. u \<noteq> a \<Longrightarrow> q u = p u" by (simp_all add: q_def)
  have b: "root q b b" using assms(2,3) q(2) by (intro root.Root) simp
  have "root q x (if r = a then b else r)"
    using assms(4)
  proof (induction rule: root.induct)
    case (Root v)
    show ?case
    proof (cases "v = a")
      case True
      then show ?thesis using b q(1) assms(3) root_above [of q a b] by simp
    next
      case False
      then show ?thesis using Root q(2) by (simp add: root.Root)
    qed
  next
    case (Up v r)
    then have "v \<noteq> a" using assms(1) by auto
    then show ?case using Up q(2) root_above [of q v] by simp
  qed
  then show ?thesis by (simp add: q_def)
qed

lemma link_together:
  assumes "forest S p" "a \<in> S" "b \<in> S" "p a = a" "p b = b" "b < a"
  shows "forest S (p(a := b))"
    "together S (p(a := b)) = {(x, y). x \<in> S \<and> y \<in> S \<and> ((x, y) \<in> together S p \<or>
       (\<exists>r \<in> {a, b}. root p x r) \<and> (\<exists>r \<in> {a, b}. root p y r))}"
proof -
  show forest: "forest S (p(a := b))" using assms by (auto simp: forest_def)
  have new: "root (p(a := b)) x (if r = a then b else r)" if "root p x r" for x r
    by (rule link_root [OF assms(4-6) that])
  have mem: "(x, y) \<in> together S (p(a := b)) \<longleftrightarrow> (x, y) \<in> together S p \<or>
      (\<exists>r \<in> {a, b}. root p x r) \<and> (\<exists>r \<in> {a, b}. root p y r)" if xy: "x \<in> S" "y \<in> S" for x y
  proof -
    obtain r s where rs: "root p x r" "root p y s"
      using forest_root [OF assms(1) xy(1)] forest_root [OF assms(1) xy(2)] by blast
    have only: "root p x t \<longleftrightarrow> t = r" "root p y t \<longleftrightarrow> t = s" for t using rs root_unique by blast+
    have "root (p(a := b)) x t \<longleftrightarrow> t = (if r = a then b else r)" "root (p(a := b)) y t \<longleftrightarrow> t = (if s = a then b else s)" for t
      using new [OF rs(1)] new [OF rs(2)] root_unique by blast+
    then show ?thesis using xy unfolding together_def by (auto simp: only)
  qed
  have sub: "x \<in> S \<and> y \<in> S" if "(x, y) \<in> together S q" for x y q using that by (simp add: together_def)
  show "together S (p(a := b)) = {(x, y). x \<in> S \<and> y \<in> S \<and> ((x, y) \<in> together S p \<or>
       (\<exists>r \<in> {a, b}. root p x r) \<and> (\<exists>r \<in> {a, b}. root p y r))}"
  proof (rule set_eqI)
    fix z :: "int \<times> int"
    obtain x y where z: "z = (x, y)" by (cases z)
    show "z \<in> together S (p(a := b)) \<longleftrightarrow> z \<in> {(x, y). x \<in> S \<and> y \<in> S \<and> ((x, y) \<in> together S p \<or>
       (\<exists>r \<in> {a, b}. root p x r) \<and> (\<exists>r \<in> {a, b}. root p y r))}"
      using mem [of x y] sub [of x y "p(a := b)"] unfolding z mem_Collect_eq prod.case by blast
  qed
qed

text \<open>The classes of \<open>l\<close> and \<open>r\<close> made one.\<close>

definition merge_classes :: "(int \<times> int) set \<Rightarrow> int \<Rightarrow> int \<Rightarrow> (int \<times> int) set" where
  "merge_classes E l r = E \<union> {(x, y). ((x, l) \<in> E \<or> (x, r) \<in> E) \<and> ((y, l) \<in> E \<or> (y, r) \<in> E)}"

lemma union_roots_ok:
  assumes "forest S p" "l \<in> S" "r \<in> S"
  shows "\<exists>q. union_roots (l, r) p = Some q \<and> forest S q \<and> together S q = merge_classes (together S p) l r"
proof -
  obtain a p1 where a: "find_root p l = Some (a, p1)" "a \<in> S" "root p l a" "forest S p1"
    "\<forall>x \<in> S. \<forall>s. root p1 x s \<longleftrightarrow> root p x s" using find_root_ends [OF assms(1,2)] by blast
  obtain b p2 where b: "find_root p1 r = Some (b, p2)" "b \<in> S" "root p1 r b" "forest S p2"
    "\<forall>x \<in> S. \<forall>s. root p2 x s \<longleftrightarrow> root p1 x s" using find_root_ends [OF a(4) assms(3)] by blast
  have same: "\<forall>x \<in> S. \<forall>s. root p2 x s \<longleftrightarrow> root p x s" using a(5) b(5) by blast
  then have T: "together S p2 = together S p" by (rule together_cong)
  have rb: "root p r b" using b(3) a(5) assms(3) by blast
  have to_l: "(x, l) \<in> together S p \<longleftrightarrow> x \<in> S \<and> root p x a" and to_r: "(x, r) \<in> together S p \<longleftrightarrow> x \<in> S \<and> root p x b" for x
    using a(3) rb assms(2,3) root_unique unfolding together_def by blast+
  show ?thesis
  proof (cases "a = b")
    case True
    have "merge_classes (together S p) l r = together S p"
      unfolding merge_classes_def to_l to_r using True by (auto simp: together_def)
    then show ?thesis using a(1) b(1,4) T True by (simp add: union_roots_def)
  next
    case False
    have fixed: "p2 (max a b) = max a b" "p2 (min a b) = min a b"
      using root_fixed [of p2 l a] root_fixed [of p2 r b] same a(3) rb assms(2,3) by (auto simp: max_def min_def)
    have in_S: "max a b \<in> S" "min a b \<in> S" using a(2) b(2) by (auto simp: max_def min_def)
    have "min a b < max a b" using False by (simp add: min_def max_def)
    note link = link_together [OF b(4) in_S fixed this]
    have "{max a b, min a b} = {a, b}" by (auto simp: max_def min_def)
    then have "together S (p2(max a b := min a b)) = merge_classes (together S p) l r"
      unfolding link(2) T merge_classes_def to_l to_r using same by (auto simp: together_def)
    then show ?thesis using a(1) b(1) link(1) False by (simp add: union_roots_def)
  qed
qed

lemma trancl_absorb: "A \<subseteq> B\<^sup>+ \<Longrightarrow> B \<subseteq> A\<^sup>+ \<Longrightarrow> A\<^sup>+ = (B\<^sup>+ :: ('a \<times> 'a) set)"
  using trancl_mono_subset [of A "B\<^sup>+"] trancl_mono_subset [of B "A\<^sup>+"] trancl_id [OF trans_trancl] by blast

lemma merge_path:
  assumes "sym E" "E \<subseteq> B\<^sup>+" "(l, r) \<in> B\<^sup>+" "(r, l) \<in> B\<^sup>+"
  shows "merge_classes E l r \<subseteq> B\<^sup>+"
proof (rule subrelI)
  fix x y
  assume "(x, y) \<in> merge_classes E l r"
  then consider "(x, y) \<in> E" | s t where "s \<in> {l, r}" "t \<in> {l, r}" "(x, s) \<in> E" "(t, y) \<in> E"
    using assms(1) by (auto simp: merge_classes_def sym_def)
  then show "(x, y) \<in> B\<^sup>+"
  proof cases
    case 2
    have "s = t \<or> (s, t) \<in> B\<^sup>+" using 2(1,2) assms(3,4) by blast
    moreover have "(x, s) \<in> B\<^sup>+" "(t, y) \<in> B\<^sup>+" using 2(3,4) assms(2) by blast+
    ultimately show ?thesis by (auto intro: trancl_trans)
  qed (use assms(2) in blast)
qed

lemma union_all_ok:
  assumes "forest S p" "set ls \<subseteq> S \<times> S"
  shows "\<exists>q. union_all ls p = Some q \<and> forest S q \<and> together S q = (together S p \<union> set ls \<union> (set ls)\<inverse>)\<^sup>+"
  using assms
proof (induction ls arbitrary: p)
  case Nil
  have "trans (together S p)" using together_equiv [OF Nil.prems(1)] by (simp add: equiv_def)
  then show ?case using Nil.prems by (simp add: trancl_id)
next
  case (Cons x ls)
  obtain l r where x: "x = (l, r)" "l \<in> S" "r \<in> S" using Cons.prems(2) by (cases x) auto
  let ?E = "together S p" and ?L = "set ls \<union> (set ls)\<inverse>"
  obtain p1 where p1: "union_roots (l, r) p = Some p1" "forest S p1" "together S p1 = merge_classes ?E l r"
    using union_roots_ok [OF Cons.prems(1) x(2,3)] by blast
  obtain q where q: "union_all ls p1 = Some q" "forest S q" "together S q = (together S p1 \<union> set ls \<union> (set ls)\<inverse>)\<^sup>+"
    using Cons.IH [OF p1(2)] Cons.prems(2) by auto
  let ?B = "?E \<union> set (x # ls) \<union> (set (x # ls))\<inverse>"
  have E: "sym ?E" "(l, l) \<in> ?E" "(r, r) \<in> ?E"
    using together_equiv [OF Cons.prems(1)] x(2,3) by (auto simp: equiv_def dest: refl_onD)
  have "merge_classes ?E l r \<subseteq> ?B\<^sup>+" by (rule merge_path [OF E(1)]) (auto simp: x(1))
  then have "together S p1 \<union> set ls \<union> (set ls)\<inverse> \<subseteq> ?B\<^sup>+" unfolding p1(3) by auto
  moreover have "(l, r) \<in> merge_classes ?E l r" "(r, l) \<in> merge_classes ?E l r" "?E \<subseteq> merge_classes ?E l r"
    using E by (auto simp: merge_classes_def)
  then have "?B \<subseteq> (together S p1 \<union> set ls \<union> (set ls)\<inverse>)\<^sup>+" unfolding p1(3) x(1) by auto
  ultimately have "together S q = ?B\<^sup>+" unfolding q(3) by (rule trancl_absorb)
  then show ?case using p1(1) q(1,2) by (simp add: x(1))
qed

subsection \<open>Buckets\<close>

lemma map_of_add_bucket:
  "map_of (append_bucket k x cs) l =
     (if l = k then Some ((case map_of cs k of None \<Rightarrow> [] | Some xs \<Rightarrow> xs) @ [x]) else map_of cs l)"
  by (induction k x cs rule: append_bucket.induct) auto

lemma append_bucket_keys: "distinct (map fst cs) \<Longrightarrow> distinct (map fst (append_bucket k x cs)) \<and>
    set (map fst (append_bucket k x cs)) = insert k (set (map fst cs))"
  by (induction k x cs rule: append_bucket.induct) auto

lemma fold_buckets_keys: "distinct (map fst cs) \<Longrightarrow> distinct (map fst (fold (\<lambda>x. append_bucket (f x) (g x)) ys cs))"
  by (induction ys arbitrary: cs) (simp_all add: append_bucket_keys)

lemma fold_buckets:
  "map_of (fold (\<lambda>x. append_bucket (f x) (g x)) ys cs) k =
     (case map_of cs k of
        None \<Rightarrow> if filter (\<lambda>x. f x = k) ys = [] then None else Some (map g (filter (\<lambda>x. f x = k) ys))
      | Some xs \<Rightarrow> Some (xs @ map g (filter (\<lambda>x. f x = k) ys)))"
  by (induction ys arbitrary: cs) (auto simp: map_of_add_bucket split: option.split)

lemma pairs_complete: "l \<in> set xs \<Longrightarrow> r \<in> set xs \<Longrightarrow> l \<noteq> r \<Longrightarrow> (l, r) \<in> set (pairs xs) \<or> (r, l) \<in> set (pairs xs)"
  by (induction xs) auto

lemma bucket_pairs_flat:
  "bucket_pairs keys rows = concat (map (\<lambda>(_, xs). pairs xs)
     (fold (\<lambda>kx. append_bucket (fst kx) (snd kx)) (concat (map (\<lambda>x. map (\<lambda>k. (k, x)) (keys x)) rows)) []))"
proof -
  have "fold (\<lambda>x bs. fold (\<lambda>k. append_bucket k x) (keys x) bs) rows bs =
      fold (\<lambda>kx. append_bucket (fst kx) (snd kx)) (concat (map (\<lambda>x. map (\<lambda>k. (k, x)) (keys x)) rows)) bs" for bs
    by (induction rows arbitrary: bs) (simp_all add: fold_map comp_def)
  then show ?thesis by (simp add: bucket_pairs_def)
qed

lemma bucket_pairs_complete:
  assumes "l \<in> set rows" "r \<in> set rows" "l \<noteq> r" "k \<in> set (keys l)" "k \<in> set (keys r)"
  shows "(l, r) \<in> set (bucket_pairs keys rows) \<or> (r, l) \<in> set (bucket_pairs keys rows)"
proof -
  let ?flat = "concat (map (\<lambda>x. map (\<lambda>k. (k, x)) (keys x)) rows)"
  let ?xs = "map snd (filter (\<lambda>kx. fst kx = k) ?flat)"
  have in_xs: "x \<in> set ?xs" if "x \<in> set rows" "k \<in> set (keys x)" for x using that by force
  then have "filter (\<lambda>kx. fst kx = k) ?flat \<noteq> []" using assms(1,4) by (metis list.map(1) empty_iff list.set(1))
  then have "map_of (fold (\<lambda>kx. append_bucket (fst kx) (snd kx)) ?flat []) k = Some ?xs"
    by (subst fold_buckets) simp
  then have "(k, ?xs) \<in> set (fold (\<lambda>kx. append_bucket (fst kx) (snd kx)) ?flat [])" by (rule map_of_SomeD)
  moreover have "(l, r) \<in> set (pairs ?xs) \<or> (r, l) \<in> set (pairs ?xs)"
    by (rule pairs_complete) (use in_xs assms in auto)
  ultimately show ?thesis unfolding bucket_pairs_flat by force
qed

subsection \<open>Clusters\<close>

definition rep :: "(int \<Rightarrow> int) \<Rightarrow> int \<Rightarrow> int" where
  "rep p v = (THE r. root p v r)"

lemma rep_root: "root p v r \<Longrightarrow> rep p v = r"
  unfolding rep_def using root_unique by blast

lemma collect_clusters_ok:
  assumes "forest S p" "set ss \<subseteq> S"
  shows "collect_clusters ss p cs = Some (fold (\<lambda>s. append_bucket (rep p s) s) ss cs)"
  using assms
proof (induction ss arbitrary: p cs)
  case (Cons s ss)
  obtain r q where q: "find_root p s = Some (r, q)" "root p s r" "forest S q" "\<forall>x \<in> S. \<forall>t. root q x t \<longleftrightarrow> root p x t"
    using find_root_ends [OF Cons.prems(1), of s] Cons.prems(2) by auto
  have "rep q x = rep p x" if "x \<in> S" for x using q(4) that by (simp add: rep_def)
  then have "fold (\<lambda>s. append_bucket (rep q s) s) ss bs = fold (\<lambda>s. append_bucket (rep p s) s) ss bs" for bs
    using Cons.prems(2) by (intro fold_cong) auto
  then show ?case using Cons.IH [OF q(3)] Cons.prems(2) by (simp add: q(1) rep_root [OF q(2)])
qed simp

lemma forest_id: "finite S \<Longrightarrow> forest S id"
  by (simp add: forest_def)

lemma together_id: "together S id = Id_on S"
  by (auto simp: together_def root_of_fixed)

text \<open>The series connected by links.\<close>

definition connected :: "(int \<times> int) list \<Rightarrow> (int \<times> int) set" where
  "connected links = (set links \<union> (set links)\<inverse>)\<^sup>*"

lemma connected_trancl:
  assumes "x \<in> S"
  shows "(x, y) \<in> (Id_on S \<union> L)\<^sup>+ \<Longrightarrow> (x, y) \<in> L\<^sup>*" and "L \<subseteq> S \<times> S \<Longrightarrow> (x, y) \<in> L\<^sup>* \<Longrightarrow> (x, y) \<in> (Id_on S \<union> L)\<^sup>+"
proof -
  have "(Id_on S \<union> L)\<^sup>+ \<subseteq> (Id \<union> L)\<^sup>*" by (auto dest: trancl_into_rtrancl rtrancl_mono [of "Id_on S \<union> L" "Id \<union> L", THEN subsetD, rotated])
  then show "(x, y) \<in> (Id_on S \<union> L)\<^sup>+ \<Longrightarrow> (x, y) \<in> L\<^sup>*" by (auto simp: Un_commute)
  assume "(x, y) \<in> L\<^sup>*"
  then have "x = y \<or> (x, y) \<in> L\<^sup>+" by (auto dest: rtranclD)
  then show "(x, y) \<in> (Id_on S \<union> L)\<^sup>+" using assms by (auto intro: trancl_mono)
qed

lemma cluster_components:
  assumes "set links \<subseteq> set ids \<times> set ids"
  shows "\<exists>cs. cluster_series ids links = Some cs \<and>
    (\<forall>s c. (s, c) \<in> set cs \<longleftrightarrow> s \<in> set ids \<and> c = sort (filter (\<lambda>x. (s, x) \<in> connected links) ids))"
proof -
  let ?S = "set ids"
  obtain p where p: "union_all links id = Some p" "forest ?S p"
    "together ?S p = (Id_on ?S \<union> set links \<union> (set links)\<inverse>)\<^sup>+"
    using union_all_ok [OF forest_id assms] by (auto simp: together_id)
  let ?cs = "fold (\<lambda>s. append_bucket (rep p s) s) ids []"
  have cs: "collect_clusters ids p [] = Some ?cs" by (rule collect_clusters_ok [OF p(2)]) simp
  have same: "rep p x = rep p s \<longleftrightarrow> (s, x) \<in> connected links" if sx: "s \<in> ?S" "x \<in> ?S" for s x
  proof -
    obtain a b where "root p s a" "root p x b"
      using forest_root [OF p(2) sx(1)] forest_root [OF p(2) sx(2)] by blast
    then have "rep p s = a" "rep p x = b" "\<And>t. root p s t \<longleftrightarrow> t = a" "\<And>t. root p x t \<longleftrightarrow> t = b"
      using root_unique rep_root by blast+
    then have "rep p x = rep p s \<longleftrightarrow> (s, x) \<in> together ?S p" using sx by (auto simp: together_def)
    also have "\<dots> \<longleftrightarrow> (s, x) \<in> connected links"
      unfolding p(3) connected_def Un_assoc
      by (rule iffI [OF connected_trancl(1) connected_trancl(2)]) (use sx(1) assms in auto)
    finally show ?thesis .
  qed
  have distinct: "distinct (map fst ?cs)" using fold_buckets_keys [of "[]" "rep p" "\<lambda>s. s" ids] by simp
  have bucket: "(k, xs) \<in> set ?cs \<longleftrightarrow> xs \<noteq> [] \<and> xs = filter (\<lambda>x. rep p x = k) ids" for k xs
    using map_of_eq_Some_iff [OF distinct, of k xs] fold_buckets [of "rep p" "\<lambda>s. s" ids "[]" k]
    by (auto split: if_splits)
  have "(s, c) \<in> set (concat (map (\<lambda>(_, xs). map (\<lambda>s. (s, sort xs)) xs) ?cs)) \<longleftrightarrow>
      s \<in> ?S \<and> c = sort (filter (\<lambda>x. rep p x = rep p s) ids)" for s c
  proof -
    have "(s, c) \<in> set (concat (map (\<lambda>(_, xs). map (\<lambda>s. (s, sort xs)) xs) ?cs)) \<longleftrightarrow>
        (\<exists>k xs. (k, xs) \<in> set ?cs \<and> s \<in> set xs \<and> c = sort xs)" by fastforce
    also have "\<dots> \<longleftrightarrow> (\<exists>k. s \<in> ?S \<and> rep p s = k \<and> c = sort (filter (\<lambda>x. rep p x = k) ids))"
      unfolding bucket by (auto simp: filter_empty_conv)
    finally show ?thesis by auto
  qed
  moreover have "filter (\<lambda>x. rep p x = rep p s) ids = filter (\<lambda>x. (s, x) \<in> connected links) ids" if "s \<in> ?S" for s
    using same [OF that] by (intro filter_cong) auto
  ultimately have "(s, c) \<in> set (concat (map (\<lambda>(_, xs). map (\<lambda>s. (s, sort xs)) xs) ?cs)) \<longleftrightarrow>
      s \<in> ?S \<and> c = sort (filter (\<lambda>x. (s, x) \<in> connected links) ids)" for s c
    by (metis (no_types, lifting))
  then show ?thesis by (simp add: cluster_series_def p(1) cs)
qed

subsection \<open>The indexes miss nothing\<close>

lemma pairs_sorted: "sorted xs \<Longrightarrow> a \<in> set xs \<Longrightarrow> b \<in> set xs \<Longrightarrow> a < b \<Longrightarrow> (a, b) \<in> set (pairs xs)"
  by (induction xs) force+

lemma ordered_pair_less: "l < r \<Longrightarrow> ordered_pair (l, r) = (l, r) \<and> ordered_pair (r, l) = (l, r)"
  by (simp add: ordered_pair_def)

lemma bucket_ids:
  assumes "l \<in> set rows" "r \<in> set rows" "srs_id l < srs_id r" "k \<in> set (keys l)" "k \<in> set (keys r)"
  shows "(srs_id l, srs_id r) \<in> set (map (\<lambda>(l, r). ordered_pair (srs_id l, srs_id r)) (bucket_pairs keys rows))"
proof -
  have "l \<noteq> r" using assms(3) by auto
  from bucket_pairs_complete [of l rows r k keys, OF assms(1,2) this assms(4,5)] show ?thesis
    using ordered_pair_less [OF assms(3)] by force
qed

lemma identity_keys_ok:
  assumes "fold_result (\<lambda>s _. bind_result (identity_keys s) (\<lambda>_. Inr ())) rows () = Inr u" "s \<in> set rows"
  shows "\<exists>ks. identity_keys s = Inr ks"
  using assms by (induction rows) (auto simp: bind_result_eq_Inr)

lemma same_identity_key:
  assumes "provider_identities_equivalent l r = Inr True" "identity_keys l = Inr kl" "identity_keys r = Inr kr"
  shows "\<exists>k. k \<in> set kl \<and> k \<in> set kr"
proof -
  have src: "srs_source l = srs_source r" using assms(1) by (auto simp: provider_identities_equivalent_def split: if_splits)
  obtain ul ur where u: "canonical_source_url (srs_url l) = Inr ul" "canonical_source_url (srs_url r) = Inr ur"
    using assms(2,3) by (auto simp: identity_keys_def bind_result_eq_Inr)
  let ?l = "normalized_source_id (srs_source_id l)" and ?r = "normalized_source_id (srs_source_id r)"
  have kl: "kl = (if ?l = [] then [] else [(srs_source l, ''source_id'', ?l)]) @ (if ul = [] then [] else [(srs_source l, ''url'', ul)])"
    and kr: "kr = (if ?r = [] then [] else [(srs_source r, ''source_id'', ?r)]) @ (if ur = [] then [] else [(srs_source r, ''url'', ur)])"
    using assms(2,3) by (simp_all add: identity_keys_def u Let_def)
  consider "?l \<noteq> []" "?l = ?r" | "ul \<noteq> []" "ul = ur"
    using assms(1) src by (auto simp: provider_identities_equivalent_def Let_def u split: if_splits)
  then show ?thesis
  proof cases
    case 1
    then show ?thesis by (intro exI [of _ "(srs_source l, ''source_id'', ?l)"]) (simp add: kl kr src)
  next
    case 2
    then show ?thesis by (intro exI [of _ "(srs_source l, ''url'', ul)"]) (simp add: kl kr src)
  qed
qed

lemma shared_tokens:
  assumes "2 \<le> length (sort (filter (\<lambda>w. w \<in> set (title_tokens b)) (title_tokens a)))"
  shows "\<exists>v w. v < w \<and> {v, w} \<subseteq> set (title_tokens a) \<and> {v, w} \<subseteq> set (title_tokens b)"
proof -
  let ?xs = "filter (\<lambda>w. w \<in> set (title_tokens b)) (title_tokens a)"
  have "distinct ?xs" by (simp add: title_tokens_def)
  from distinct_card [OF this] have "2 \<le> card (set ?xs)" using assms by (simp del: set_filter)
  then obtain v w where "v \<in> set ?xs" "w \<in> set ?xs" "v \<noteq> w"
    by (metis card_le_Suc0_iff_eq List.finite_set not_less_eq_eq numeral_2_eq_2)
  then have "v < w \<or> w < v" "{v, w} \<subseteq> set (title_tokens a)" "{v, w} \<subseteq> set (title_tokens b)" by auto
  then show ?thesis by (metis insert_commute)
qed

lemma candidate_pairs_complete:
  assumes "candidate_pairs hashes d rows = Inr ps" "l \<in> set rows" "r \<in> set rows" "srs_id l < srs_id r"
    "srs_source l = srs_source r" "identity_evidence hashes d l r = Inr e" "dup_equivalent e"
  shows "(srs_id l, srs_id r) \<in> set ps"
proof -
  let ?ids = "\<lambda>(l, r). ordered_pair (srs_id l, srs_id r)"
  obtain u where u: "fold_result (\<lambda>s _. bind_result (identity_keys s) (\<lambda>_. Inr ())) rows () = Inr u"
    using assms(1) by (auto simp: candidate_pairs_def Let_def bind_result_eq_Inr)
  obtain identity where identity: "provider_identities_equivalent l r = Inr identity"
    using assms(6) by (auto simp: identity_evidence_def duplicate_identity_evidence_def bind_result_eq_Inr)
  obtain kl kr where keys: "identity_keys l = Inr kl" "identity_keys r = Inr kr"
    using identity_keys_ok [OF u] assms(2,3) by blast
  let ?tokens = "filter (\<lambda>w. w \<in> set (title_tokens (srs_title r))) (title_tokens (srs_title l))"
  consider "identity" | "known_title l \<noteq> []" "known_title l = known_title r"
    | "covers_apart hashes d (srs_id l) (srs_id r) \<le> MAXIMUM_EQUIVALENT_COVER_HASH_DISTANCE" "2 \<le> length (sort ?tokens)"
    using assms(6,7)
    by (auto simp: identity_evidence_def duplicate_identity_evidence_def identity Let_def MINIMUM_SHARED_TITLE_TOKENS_def)
  then show ?thesis
  proof cases
    case 1
    obtain k where "k \<in> set kl" "k \<in> set kr" using same_identity_key [OF _ keys] identity 1 by auto
    then have "(srs_id l, srs_id r) \<in> set (map ?ids (bucket_pairs (\<lambda>s. case identity_keys s of Inl _ \<Rightarrow> [] | Inr ks \<Rightarrow> ks) rows))"
      by (intro bucket_ids [OF assms(2-4)]) (simp_all add: keys)
    then show ?thesis using assms(1) by (auto simp: candidate_pairs_def Let_def u)
  next
    case 2
    have "(srs_id l, srs_id r) \<in> set (map ?ids (bucket_pairs title_keys rows))"
      by (rule bucket_ids [OF assms(2-4), where k = "(srs_source l, known_title l)"])
         (use 2 assms(5) in \<open>simp_all add: title_keys_def\<close>)
    then show ?thesis using assms(1) by (auto simp: candidate_pairs_def Let_def u)
  next
    case 3
    obtain v w where vw: "v < w" "{v, w} \<subseteq> set (title_tokens (srs_title l))" "{v, w} \<subseteq> set (title_tokens (srs_title r))"
      using shared_tokens [OF 3(2)] by blast
    have "(v, w) \<in> set (pairs (sort (title_tokens (srs_title l))))" "(v, w) \<in> set (pairs (sort (title_tokens (srs_title r))))"
      using vw by (auto intro: pairs_sorted)
    then have "(srs_id l, srs_id r) \<in> set (map ?ids (bucket_pairs token_keys rows))"
      by (intro bucket_ids [OF assms(2-4), where k = "(srs_source l, v, w)"]) (use assms(5) in \<open>force simp: token_keys_def\<close>)+
    then show ?thesis using assms(1,4) 3(1) by (auto simp: candidate_pairs_def Let_def u)
  qed
qed

lemma compare_pairs:
  assumes "fold_result (compare_pair hashes d rows) ps found0 = Inr found" "distinct ps" "distinct (map srs_id rows)"
    "\<forall>p \<in> set ps. map_of found0 p = None" "l \<in> set rows" "r \<in> set rows" "srs_source l = srs_source r"
  shows "map_of found (srs_id l, srs_id r) =
    (if (srs_id l, srs_id r) \<in> set ps
     then (case identity_evidence hashes d l r of Inl _ \<Rightarrow> None | Inr e \<Rightarrow> if dup_equivalent e then Some e else None)
     else map_of found0 (srs_id l, srs_id r))"
  using assms(1,2,4)
proof (induction ps arbitrary: found0)
  case (Cons p ps)
  let ?lr = "(srs_id l, srs_id r)"
  obtain found1 where one: "compare_pair hashes d rows p found0 = Inr found1"
    and rest: "fold_result (compare_pair hashes d rows) ps found1 = Inr found"
    using Cons.prems(1) by (auto simp: bind_result_eq_Inr)
  have grown: "found1 = found0 \<or> (\<exists>e. found1 = found0 @ [(p, e)])"
    using one by (auto simp: compare_pair_def bind_result_eq_Inr split: option.splits if_splits)
  then have fresh: "\<forall>q \<in> set ps. map_of found1 q = None"
    using Cons.prems(2,3) by (auto simp: map_add_def split: option.split)
  have rows: "get_row srs_id (srs_id l) rows = Some l" "get_row srs_id (srs_id r) rows = Some r"
    using assms(3,5,6) by (simp_all add: get_row_distinct)
  have here: "map_of found1 ?lr =
      (case identity_evidence hashes d l r of Inl _ \<Rightarrow> None | Inr e \<Rightarrow> if dup_equivalent e then Some e else None)" if "p = ?lr"
    using one Cons.prems(3) that
    by (auto simp: compare_pair_def rows assms(7) bind_result_eq_Inr map_add_def split: if_splits option.splits)
  have there: "map_of found1 ?lr = map_of found0 ?lr" if "p \<noteq> ?lr"
    using grown that by (auto simp: map_add_def split: option.split)
  show ?case
    using Cons.IH [OF rest _ fresh] Cons.prems(2) here there by (cases "p = ?lr") auto
qed simp

text \<open>C23. The indexes over titles, identities and title words lose nothing: for two identities of one provider the
  evidence kept is what comparing every pair would have kept.\<close>

theorem indexes_miss_nothing:
  assumes "gathered_evidence hashes d rows = Inr found" "distinct (map srs_id rows)" "l \<in> set rows" "r \<in> set rows"
    "srs_source l = srs_source r" "srs_id l < srs_id r"
  shows "map_of found (srs_id l, srs_id r) =
    (case identity_evidence hashes d l r of Inl _ \<Rightarrow> None | Inr e \<Rightarrow> if dup_equivalent e then Some e else None)"
proof -
  obtain ps where ps: "candidate_pairs hashes d rows = Inr ps"
    and run: "fold_result (compare_pair hashes d rows) ps [] = Inr found"
    using assms(1) by (auto simp: gathered_evidence_def bind_result_eq_Inr)
  have "distinct ps" using ps by (auto simp: candidate_pairs_def Let_def bind_result_eq_Inr)
  note compared = compare_pairs [OF run this assms(2) _ assms(3-5)]
  show ?thesis
  proof (cases "identity_evidence hashes d l r")
    case (Inr e)
    then show ?thesis
      using compared candidate_pairs_complete [OF ps assms(3,4,6,5) Inr] by (cases "dup_equivalent e") auto
  qed (use compared in auto)
qed

subsection \<open>Groups\<close>

definition clique :: "((int \<times> int) \<times> duplicate_evidence) list \<Rightarrow> catalog_source_series list \<Rightarrow> bool" where
  "clique found g = (\<forall>p \<in> set (pairs g). equivalent_in found (srs_id (fst p)) (srs_id (snd p)))"

lemma equivalent_in_sym: "equivalent_in found l r = equivalent_in found r l"
  by (simp add: equivalent_in_def ordered_pair_def min.commute max.commute)

lemma pairs_append: "set (pairs (xs @ [x])) = set (pairs xs) \<union> (\<lambda>y. (y, x)) ` set xs"
  by (induction xs) auto

lemma join_group_ok:
  "\<forall>g \<in> set gs. clique found g \<Longrightarrow> (\<forall>g \<in> set (join_group found x gs). clique found g) \<and>
     mset (concat (join_group found x gs)) = add_mset x (mset (concat gs))"
proof (induction gs)
  case (Cons g gs)
  show ?case
  proof (cases "list_all (\<lambda>m. equivalent_in found (srs_id x) (srs_id m)) g")
    case True
    then have "clique found (g @ [x])"
      using Cons.prems equivalent_in_sym by (auto simp: clique_def pairs_append list_all_iff)
    then show ?thesis using True Cons.prems by simp
  qed (use Cons in auto)
qed (simp add: clique_def)

lemma join_groups_ok:
  assumes "\<forall>g \<in> set gs. clique found g"
  shows "(\<forall>g \<in> set (fold (join_group found) xs gs). clique found g) \<and>
     mset (concat (fold (join_group found) xs gs)) = mset xs + mset (concat gs)"
  using assms
proof (induction xs arbitrary: gs)
  case (Cons x xs)
  note joined = join_group_ok [OF Cons.prems, of x]
  show ?case using Cons.IH [OF conjunct1 [OF joined]] conjunct2 [OF joined] by simp
qed simp

lemma pairs_less: "sorted xs \<Longrightarrow> distinct (xs :: int list) \<Longrightarrow> (a, b) \<in> set (pairs xs) \<Longrightarrow> a < b \<and> a \<in> set xs \<and> b \<in> set xs"
  by (induction xs) (auto simp: order_less_le)

lemma pairs_map: "pairs (map f xs) = map (\<lambda>(a, b). (f a, f b)) (pairs xs)"
  by (induction xs) simp_all

lemma clique_ids:
  assumes "clique found c" "distinct (map srs_id c)" "(a, b) \<in> set (pairs (sort (map srs_id c)))"
  shows "map_of found (a, b) \<noteq> None"
proof -
  have ab: "a < b" "a \<in> set (map srs_id c)" "b \<in> set (map srs_id c)"
    using pairs_less [OF _ _ assms(3)] assms(2) by simp_all
  then have "(a, b) \<in> set (pairs (map srs_id c)) \<or> (b, a) \<in> set (pairs (map srs_id c))" by (intro pairs_complete) simp_all
  then have "equivalent_in found a b \<or> equivalent_in found b a" using assms(1) by (auto simp: clique_def pairs_map)
  then show ?thesis using ordered_pair_less [OF ab(1)] by (simp add: equivalent_in_def)
qed

lemma found_equivalent:
  assumes "fold_result (compare_pair hashes d rows) ps found0 = Inr found" "\<forall>x \<in> set found0. dup_equivalent (snd x)"
  shows "\<forall>x \<in> set found. dup_equivalent (snd x)"
  using assms
proof (induction ps arbitrary: found0)
  case (Cons q ps)
  obtain found' where one: "compare_pair hashes d rows q found0 = Inr found'"
    and rest: "fold_result (compare_pair hashes d rows) ps found' = Inr found"
    using Cons.prems(1) by (auto simp: bind_result_eq_Inr)
  have "\<forall>x \<in> set found'. dup_equivalent (snd x)"
    using one Cons.prems(2) by (auto simp: compare_pair_def bind_result_eq_Inr split: option.splits if_splits)
  with rest show ?case by (rule Cons.IH)
qed simp

lemma group_members:
  assumes "c \<in> set (fold (join_group found) xs [])" "distinct (map srs_id xs)"
  shows "clique found c" "distinct (map srs_id c)"
proof -
  let ?gs = "fold (join_group found) xs []"
  have ok: "\<forall>g \<in> set ?gs. clique found g" "mset (concat ?gs) = mset xs" using join_groups_ok [of "[]" found xs] by simp_all
  show "clique found c" using ok(1) assms(1) by blast
  have "mset (map srs_id (concat ?gs)) = mset (map srs_id xs)" using ok(2) by (simp only: mset_map)
  then have distinct: "distinct (map srs_id (concat ?gs))" using assms(2) mset_eq_imp_distinct_iff by blast
  obtain us vs where "?gs = us @ c # vs" using split_list [OF assms(1)] by blast
  then show "distinct (map srs_id c)" using distinct by simp
qed

text \<open>C22. Every group has at least two identities, and any two of them have been found equivalent: the
  evidence the group quotes for each of its pairs exists and says so.\<close>

theorem groups_are_cliques:
  assumes "provider_duplicate_groups hashes series excluded d = Inr gs" "g \<in> set gs" "distinct (map srs_id (source_series d))"
  shows "2 \<le> length (dg_identity_ids g) \<and>
    list_all (\<lambda>(_, e). case e of None \<Rightarrow> False | Some e \<Rightarrow> dup_equivalent e) (dg_pairs g)"
proof -
  let ?rows = "duplicate_rows series excluded d"
  obtain found where found: "gathered_evidence hashes d ?rows = Inr found"
    and gs: "gs = concat (map (source_groups found ?rows) (sort (remdups (map srs_source ?rows))))"
    using assms(1,2) by (auto simp: provider_duplicate_groups_def Let_def bind_result_eq_Inr split: if_splits)
  obtain src c where c: "c \<in> set (fold (join_group found) (filter (\<lambda>x. srs_source x = src) ?rows) [])" "2 \<le> length c"
    and g: "g = group_record found src c" using assms(2) by (auto simp: gs source_groups_def)
  have "distinct (map srs_id ?rows)"
    using assms(3) by (simp add: duplicate_rows_def distinct_map inj_on_def)
  then have "distinct (map srs_id (filter (\<lambda>x. srs_source x = src) ?rows))" by (simp add: distinct_map inj_on_def)
  note members = group_members [OF c(1) this]
  obtain ps where "fold_result (compare_pair hashes d ?rows) ps [] = Inr found"
    using found by (auto simp: gathered_evidence_def bind_result_eq_Inr)
  then have "\<forall>x \<in> set found. dup_equivalent (snd x)" by (rule found_equivalent) simp
  then have evidence: "dup_equivalent e" if "map_of found p = Some e" for p e using map_of_SomeD [OF that] by auto
  have "case map_of found p of None \<Rightarrow> False | Some e \<Rightarrow> dup_equivalent e" if "p \<in> set (pairs (sort (map srs_id c)))" for p
    using clique_ids [OF members, of "fst p" "snd p"] evidence [of p] that by (auto split: option.split)
  then show ?thesis using c(2) by (simp add: g group_record_def list_all_iff)
qed

subsection \<open>Clusters of duplicate groups\<close>

lemma pairs_in: "(a, b) \<in> set (pairs xs) \<Longrightarrow> a \<in> set xs \<and> b \<in> set xs"
  by (induction xs) auto

lemma group_links_in:
  assumes "provider_duplicate_groups hashes (Some ids) excluded d = Inr gs"
  shows "set (group_links gs) \<subseteq> set ids \<times> set ids"
proof -
  let ?rows = "duplicate_rows (Some ids) excluded d"
  have "set (dg_series_ids g) \<subseteq> set ids" if g: "g \<in> set gs" for g
  proof -
    obtain found src c where c: "c \<in> set (fold (join_group found) (filter (\<lambda>x. srs_source x = src) ?rows) [])"
      and g: "g = group_record found src c"
      using assms g by (auto simp: provider_duplicate_groups_def Let_def bind_result_eq_Inr source_groups_def split: if_splits)
    have "set c \<subseteq> set_mset (mset (concat (fold (join_group found) (filter (\<lambda>x. srs_source x = src) ?rows) [])))" using c by auto
    also have "\<dots> \<subseteq> set ?rows" using join_groups_ok [of "[]" found "filter (\<lambda>x. srs_source x = src) ?rows"] by auto
    finally show ?thesis by (auto simp: g group_record_def duplicate_rows_def)
  qed
  then show ?thesis by (auto simp: group_links_def dest!: pairs_in)
qed

text \<open>C21. The union-find behind the clusters of equivalent series always ends, and the cluster it gives a series is
  the sorted list of exactly those of the given series that can be reached from it through groups.\<close>

theorem clusters_are_components:
  assumes "provider_duplicate_groups hashes (Some ids) [] d = Inr gs"
  shows "\<exists>cs. equivalent_series_clusters hashes ids d = Inr (Some cs) \<and>
    (\<forall>s c. (s, c) \<in> set cs \<longleftrightarrow> s \<in> set ids \<and> c = sort (filter (\<lambda>x. (s, x) \<in> connected (group_links gs)) ids))"
  using cluster_components [OF group_links_in [OF assms]] by (simp add: equivalent_series_clusters_def assms)

subsection \<open>A small catalogue\<close>

definition demo_twin :: "int \<Rightarrow> string \<Rightarrow> string \<Rightarrow> catalog_source_series" where
  "demo_twin i key name =
     \<lparr>srs_id = i, srs_series_id = i, srs_source = ''mangadex'', srs_source_id = key, srs_title = name, srs_url = [],
      srs_description = [], srs_cover_url = [], srs_popularity = 0, srs_metadata = fmempty, srs_observation_version = [],
      srs_normalized_source_id = key, srs_last_checked_at = 0, srs_normalized_title = normalize_title name,
      srs_revision_override = [], srs_detail_fetched_at = None, srs_observation_seen_at = None\<rparr>"

definition demo_identities :: "catalog_source_series list" where
  "demo_identities = [demo_twin 1 ''blue-tower'' ''Blue Tower'', demo_twin 2 ''Blue_Tower'' ''The Blue Tower'',
     demo_twin 3 ''red-sea'' ''Red Sea'']"

definition demo_duplicates :: db where
  "demo_duplicates = empty_db\<lparr>source_series := demo_identities\<rparr>"

lemma demo_groups_found:
  "case provider_duplicate_groups (\<lambda>_. []) (Some [1, 2, 3]) [] demo_duplicates of
     Inr gs \<Rightarrow> map dg_identity_ids gs = [[1, 2]] \<and> group_links gs = [(1, 2)] | Inl _ \<Rightarrow> False"
  by code_simp

lemma demo_identities_distinct: "distinct (map srs_id (source_series demo_duplicates))"
  by (simp add: demo_duplicates_def demo_identities_def demo_twin_def)

theorem groups_are_cliques_witness:
  "\<exists>g :: duplicate_group. dg_identity_ids g = [1, 2] \<and>
     list_all (\<lambda>(_, e). case e of None \<Rightarrow> False | Some e \<Rightarrow> dup_equivalent e) (dg_pairs g)"
proof -
  obtain gs where run: "provider_duplicate_groups (\<lambda>_. []) (Some [1, 2, 3]) [] demo_duplicates = Inr gs"
    and ids: "map dg_identity_ids gs = [[1, 2]]"
    using demo_groups_found by (auto split: sum.splits)
  obtain g where g: "g \<in> set gs" "dg_identity_ids g = [1, 2]" using ids by (cases gs) auto
  then show ?thesis using groups_are_cliques [OF run g(1) demo_identities_distinct] by blast
qed

theorem clusters_are_components_witness:
  "\<exists>cs. equivalent_series_clusters (\<lambda>_. []) [1, 2, 3] demo_duplicates = Inr (Some cs) \<and> (3, [3]) \<in> set cs"
proof -
  obtain gs where run: "provider_duplicate_groups (\<lambda>_. []) (Some [1, 2, 3]) [] demo_duplicates = Inr gs"
    and links: "group_links gs = [(1, 2)]"
    using demo_groups_found by (auto split: sum.splits)
  obtain cs where cs: "equivalent_series_clusters (\<lambda>_. []) [1, 2, 3] demo_duplicates = Inr (Some cs)"
    "\<And>s c. (s, c) \<in> set cs \<longleftrightarrow> s \<in> set [1, 2, 3] \<and> c = sort (filter (\<lambda>x. (s, x) \<in> connected (group_links gs)) [1, 2, 3])"
    using clusters_are_components [OF run] by blast
  have "(3, x) \<in> connected (group_links gs) \<longleftrightarrow> x = 3" for x
  proof
    assume "(3, x) \<in> connected (group_links gs)"
    then show "x = 3" unfolding connected_def links by (rule converse_rtranclE) auto
  qed (simp add: connected_def)
  then have "sort (filter (\<lambda>x. (3, x) \<in> connected (group_links gs)) [1, 2, 3]) = [3]" by simp
  then show ?thesis using cs(1) cs(2) [of 3 "[3]"] by simp
qed

lemma demo_pair_found:
  "case gathered_evidence (\<lambda>_. []) demo_duplicates demo_identities of Inr found \<Rightarrow> map fst found = [(1, 2)] | Inl _ \<Rightarrow> False"
  by code_simp

lemma demo_pair_equivalent:
  "case identity_evidence (\<lambda>_. []) demo_duplicates (demo_twin 1 ''blue-tower'' ''Blue Tower'')
       (demo_twin 2 ''Blue_Tower'' ''The Blue Tower'') of Inr e \<Rightarrow> dup_equivalent e | Inl _ \<Rightarrow> False"
  by code_simp

theorem indexes_miss_nothing_witness:
  "case gathered_evidence (\<lambda>_. []) demo_duplicates demo_identities of Inr found \<Rightarrow> map_of found (1, 2) \<noteq> None | Inl _ \<Rightarrow> False"
proof -
  obtain found where run: "gathered_evidence (\<lambda>_. []) demo_duplicates demo_identities = Inr found"
    using demo_pair_found by (auto split: sum.splits)
  have sel: "srs_id (demo_twin i k n) = i" "srs_source (demo_twin i k n) = ''mangadex''" for i k n
    by (simp_all add: demo_twin_def)
  let ?l = "demo_twin 1 ''blue-tower'' ''Blue Tower''" and ?r = "demo_twin 2 ''Blue_Tower'' ''The Blue Tower''"
  obtain e where e: "identity_evidence (\<lambda>_. []) demo_duplicates ?l ?r = Inr e" "dup_equivalent e"
    using demo_pair_equivalent by (auto split: sum.splits)
  have "distinct (map srs_id demo_identities)" "?l \<in> set demo_identities" "?r \<in> set demo_identities"
    by (simp_all add: demo_identities_def sel)
  from indexes_miss_nothing [OF run this] have "map_of found (1, 2) = Some e" by (simp add: sel e)
  then show ?thesis by (simp add: run)
qed

end
