(* ===== verification/Catalog_Ingest.thy ===== *)
theory Catalog_Ingest
  imports Provider_Duplicates Catalog_Domain
begin

text \<open>
  \<^verbatim>\<open>infrastructure/catalog_repository.py\<close>: writing what a provider shows of a manga
  into the catalogue, on PostgreSQL.  Rows that are added wait for the next flush, which queries in
  between do not see; \<open>ingest\<close> keeps them apart until the code flushes.  A query for one row without an
  order takes the first row of the table.  \<open>Numeric(20, 6)\<close> columns hold rationals; a label
  that reads \<open>nan\<close> is outside the model and raises here.
\<close>

subsection \<open>What an adapter delivers\<close>

record series_item =
  it_source :: string
  it_source_id :: string
  it_title :: string
  it_url :: string
  it_aliases :: "string list"
  it_description :: string
  it_cover_url :: string
  it_genres :: "string list"
  it_popularity :: rat
  it_external_ids :: "(string \<times> string) list"
  it_metadata :: jdict

record chapter_item =
  ci_source :: string
  ci_number :: string
  ci_title :: string
  ci_url :: string
  ci_published_at :: "instant option"
  ci_metadata :: jdict

text \<open>What the repository calls: the scorer, \<open>str\<close> of a JSON value, and the storage key of the series
  with a given id (a random one).\<close>

record ingest_env =
  ie_score :: score_env
  ie_py_str :: "json \<Rightarrow> string"
  ie_storage_key :: "int \<Rightarrow> string"

text \<open>\<open>str(metadata.get(key) or "")\<close>.\<close>

definition meta_text :: "ingest_env \<Rightarrow> jdict \<Rightarrow> string \<Rightarrow> string" where
  "meta_text env m k = (let v = dict_get m k in if truthy v then ie_py_str env v else [])"

definition recent_numbers :: "ingest_env \<Rightarrow> jdict \<Rightarrow> string list option" where
  "recent_numbers env m =
     (case dict_get m ''recent_chapters'' of
        JList rows \<Rightarrow> Some (List.map_filter (\<lambda>r. case r of
            JObj o' \<Rightarrow> if truthy (dict_get o' ''number'') then Some (ie_py_str env (dict_get o' ''number'')) else None
          | _ \<Rightarrow> None) rows)
      | _ \<Rightarrow> None)"

definition observation_version :: "ingest_env \<Rightarrow> series_item \<Rightarrow> string result" where
  "observation_version env item =
     listing_observation_version (meta_text env (it_metadata item) ''latest_chapter'') (recent_numbers env (it_metadata item))"

subsection \<open>Identities\<close>

definition strip_slashes :: "string \<Rightarrow> string" where
  "strip_slashes s = rev (dropWhile (\<lambda>c. c = CHR ''/'') (rev (dropWhile (\<lambda>c. c = CHR ''/'') s)))"

fun contains :: "string \<Rightarrow> string \<Rightarrow> bool" where
  "contains pat [] = (pat = [])"
| "contains pat (c # s) = (py_startswith (c # s) pat \<or> contains pat s)"

text \<open>\<open>urlparse(value).path\<close>: without the parameters of the last segment.\<close>

definition urlparse_path :: "string \<Rightarrow> string result" where
  "urlparse_path value =
     bind_result (urlsplit value) (\<lambda>(_, path).
       let last = after_last (CHR ''/'') path; front = take (length path - length last) path
       in Inr (front @ before (CHR '';'') last))"

definition split_asura_source_id :: "string \<Rightarrow> (string \<times> string) result" where
  "split_asura_source_id value =
     bind_result (if contains ''://'' value then urlparse_path value else Inr value) (\<lambda>path.
       let s = strip_slashes path; n = length s - 9; middle = drop 7 (take n s)
       in Inr (if 17 \<le> length s \<and> py_startswith s ''comics/'' \<and> CHR 0x0A \<notin> set middle \<and>
                  s ! n = CHR ''-'' \<and> list_all hex_digit (drop (n + 1) s)
               then (take n s, py_lower (drop (n + 1) s)) else (s, [])))"

definition normalized_identity :: "series_item \<Rightarrow> string result" where
  "normalized_identity item =
     (if it_source item = ''asura'' then bind_result (split_asura_source_id (it_source_id item)) (\<lambda>(stable, _). Inr stable)
      else Inr (py_strip (it_source_id item)))"

definition known_identity :: "string \<Rightarrow> series_item \<Rightarrow> db \<Rightarrow> catalog_source_series option" where
  "known_identity norm item d =
     find (\<lambda>s. srs_source s = it_source item \<and> (srs_normalized_source_id s = norm \<or> srs_source_id s = it_source_id item))
       (source_series d)"

definition known_alternate :: "series_item \<Rightarrow> db \<Rightarrow> alternate_listing option" where
  "known_alternate item d =
     find (\<lambda>a. alt_source a = it_source item \<and> alt_source_id a = it_source_id item) (alternates (library d))"

definition incoming_row :: "string \<Rightarrow> series_item \<Rightarrow> catalog_source_series" where
  "incoming_row norm item =
     \<lparr>srs_id = 0, srs_series_id = 0, srs_source = it_source item, srs_source_id = it_source_id item,
      srs_title = it_title item, srs_url = it_url item, srs_description = [], srs_cover_url = [], srs_popularity = 0,
      srs_metadata = fmempty, srs_observation_version = [], srs_normalized_source_id = norm, srs_last_checked_at = 0,
      srs_normalized_title = normalize_title (it_title item), srs_revision_override = [], srs_detail_fetched_at = None,
      srs_observation_seen_at = None\<rparr>"

definition incoming_chapters :: "chapter_item list \<Rightarrow> string list" where
  "incoming_chapters items =
     remdups (map (\<lambda>c. canonical_chapter_number (ci_number c)) (filter (\<lambda>c. chapter_sort_number (ci_number c) \<noteq> None) items))"

definition match_evidence ::
  "series_item \<Rightarrow> chapter_item list \<Rightarrow> catalog_source_series \<Rightarrow> db \<Rightarrow> catalog_source_series
   \<Rightarrow> (catalog_source_series \<times> duplicate_evidence) list \<Rightarrow> ((catalog_source_series \<times> duplicate_evidence) list) result" where
  "match_evidence item items incoming d candidate found =
     bind_result (duplicate_identity_evidence candidate incoming (numbered_chapters (srs_id candidate) d) (incoming_chapters items)
         (external_pairs (srs_id candidate) d) (it_external_ids item) 64)
       (\<lambda>e. Inr (if dup_equivalent e then found @ [(candidate, e)] else found))"

definition equivalent_provider_identity ::
  "series_item \<Rightarrow> chapter_item list \<Rightarrow> db \<Rightarrow> ((catalog_source_series \<times> duplicate_evidence) option) result" where
  "equivalent_provider_identity item items d =
     (let title = normalize_title (it_title item);
          candidates = sort_key srs_id (filter (\<lambda>s. srs_source s = it_source item \<and> srs_normalized_title s = title) (source_series d))
      in if title = [] \<or> incoming_chapters items = [] \<or> candidates = [] then Inr None
         else bind_result (normalized_identity item) (\<lambda>norm.
              bind_result (fold_result (match_evidence item items (incoming_row norm item) d) candidates []) (\<lambda>found.
                Inr (max_by (\<lambda>(s, e). (dup_ratio e, dup_overlap e, - srs_id s)) found))))"

subsection \<open>Columns and constraints\<close>

definition fits :: "nat \<Rightarrow> string \<Rightarrow> bool" where
  "fits n s = (length s \<le> n)"

text \<open>\<open>Numeric(20, 6)\<close>: rounded half away from zero, refused from \<open>10 ^ 14\<close> on.\<close>

definition round_column :: "rat \<Rightarrow> rat" where
  "round_column x = (if 0 \<le> x then of_int \<lfloor>x * 1000000 + 1 / 2\<rfloor> / 1000000 else of_int \<lceil>x * 1000000 - 1 / 2\<rceil> / 1000000)"

definition sort_column :: "decimal option \<Rightarrow> (rat option) result" where
  "sort_column v =
     (case v of
        None \<Rightarrow> Inr None
      | Some (DFinite x) \<Rightarrow> if \<bar>round_column x\<bar> < 100000000000000 then Inr (Some (round_column x)) else Inl DataError
      | _ \<Rightarrow> Inl DataError)"

definition flush_if :: "bool \<Rightarrow> bool \<Rightarrow> 'a \<Rightarrow> 'a result" where
  "flush_if data_ok integrity_ok x = (if \<not> data_ok then Inl DataError else if \<not> integrity_ok then Inl IntegrityError else Inr x)"

definition add_series :: "catalog_series \<Rightarrow> db \<Rightarrow> (int \<times> db) result" where
  "add_series s d =
     (let i = series_seq (library d) in
      flush_if (fits 500 (ser_title s) \<and> fits 500 (ser_normalized_title s))
        (\<not> list_ex (\<lambda>x. ser_storage_key x = ser_storage_key s) (series_rows d))
        (i, on_library (\<lambda>l. l\<lparr>series_seq := i + 1\<rparr>) (d\<lparr>series_rows := series_rows d @ [s\<lparr>ser_id := i\<rparr>]\<rparr>)))"

definition identity_fits :: "catalog_source_series \<Rightarrow> bool" where
  "identity_fits s =
     (fits 50 (srs_source s) \<and> fits 500 (srs_source_id s) \<and> fits 500 (srs_normalized_source_id s) \<and>
      fits 20 (srs_revision_override s) \<and> fits 500 (srs_title s) \<and> fits 500 (srs_normalized_title s) \<and>
      fits 100 (srs_observation_version s))"

definition identity_unique :: "catalog_source_series \<Rightarrow> db \<Rightarrow> bool" where
  "identity_unique s d =
     (\<not> list_ex (\<lambda>x. srs_id x \<noteq> srs_id s \<and> srs_source x = srs_source s \<and>
        (srs_source_id x = srs_source_id s \<or> srs_series_id x = srs_series_id s)) (source_series d))"

definition add_identity :: "catalog_source_series \<Rightarrow> db \<Rightarrow> (int \<times> db) result" where
  "add_identity s d =
     (let i = source_series_seq (library d); s1 = s\<lparr>srs_id := i\<rparr> in
      flush_if (identity_fits s1) (identity_unique s1 d)
        (i, on_library (\<lambda>l. l\<lparr>source_series_seq := i + 1\<rparr>) (d\<lparr>source_series := source_series d @ [s1]\<rparr>)))"

definition put_identity :: "catalog_source_series \<Rightarrow> db \<Rightarrow> db result" where
  "put_identity s d =
     flush_if (identity_fits s) (identity_unique s d) (d\<lparr>source_series := put_row srs_id s (source_series d)\<rparr>)"

definition add_alternate :: "alternate_listing \<Rightarrow> db \<Rightarrow> (alternate_listing \<times> db) result" where
  "add_alternate a d =
     (let i = alternate_seq (library d); a1 = a\<lparr>alt_id := i\<rparr> in
      flush_if (fits 50 (alt_source a) \<and> fits 500 (alt_source_id a) \<and> fits 500 (alt_title a))
        (\<not> list_ex (\<lambda>x. alt_source x = alt_source a \<and> alt_source_id x = alt_source_id a) (alternates (library d)))
        (a1, on_library (\<lambda>l. l\<lparr>alternate_seq := i + 1, alternates := alternates l @ [a1]\<rparr>) d))"

subsection \<open>A new identity\<close>

definition identifier_series :: "string \<times> string \<Rightarrow> db \<Rightarrow> int option" where
  "identifier_series pv d =
     map_option ext_series_id (find (\<lambda>x. ext_provider x = fst pv \<and> ext_value x = snd pv) (external_identifiers (library d)))"

definition free_of_source :: "string \<Rightarrow> db \<Rightarrow> int \<Rightarrow> bool" where
  "free_of_source src d i = (\<not> list_ex (\<lambda>s. srs_series_id s = i \<and> srs_source s = src) (source_series d))"

definition matching_series :: "series_item \<Rightarrow> db \<Rightarrow> int option" where
  "matching_series item d =
     (case List.map_filter (\<lambda>pv. case identifier_series pv d of
             None \<Rightarrow> None | Some i \<Rightarrow> if free_of_source (it_source item) d i then Some i else None) (it_external_ids item) of
        [] \<Rightarrow> None | i # _ \<Rightarrow> if get_row ser_id i (series_rows d) = None then None else Some i)"

definition match_candidates :: "catalog_source_series \<Rightarrow> series_item \<Rightarrow> db \<Rightarrow> catalog_source_series list" where
  "match_candidates s item d =
     (let names = filter (\<lambda>n. n \<noteq> []) (map normalize_title (it_title item # it_aliases item))
      in sort_key srs_id (filter (\<lambda>x. srs_id x \<noteq> srs_id s \<and> srs_source x \<noteq> srs_source s \<and> srs_normalized_title x \<in> set names)
           (source_series d)))"

definition candidate_decision ::
  "ingest_env \<Rightarrow> catalog_source_series \<Rightarrow> series_item \<Rightarrow> db \<Rightarrow> catalog_source_series \<Rightarrow> catalog_match_decision option" where
  "candidate_decision env s item d c =
     (let l = min (srs_id c) (srs_id s); r = max (srs_id c) (srs_id s);
          names = sort (remdups (filter (\<lambda>n. n \<noteq> []) (map normalize_title (it_title item # it_aliases item))))
      in if list_ex (\<lambda>x. dec_left x = l \<and> dec_right x = r) (decisions d) then None
         else map_option (\<lambda>e. \<lparr>dec_id = 0, dec_left = l, dec_right = r, dec_decision = DecPending, dec_confidence = pe_score e,
               dec_evidence = fmupd ''policy'' (JStr ''manual_review_required_without_shared_external_id'')
                 (fmupd ''title_or_alias'' (JList (map JStr names)) (pe_fields e)),
               dec_scorer_version = SCORER_VERSION, dec_features = pe_fields e, dec_decided_by = [], dec_decided_at = None\<rparr>)
             (score_candidate_set (ie_score env) d [srs_series_id s]
                (sort (remdups (map srs_series_id (match_candidates s item d)))) (srs_series_id c)))"

definition record_match_candidates :: "ingest_env \<Rightarrow> catalog_source_series \<Rightarrow> series_item \<Rightarrow> db \<Rightarrow> catalog_match_decision list" where
  "record_match_candidates env s item d =
     List.map_filter (candidate_decision env s item d) (match_candidates s item d)"

definition add_decision :: "catalog_match_decision \<Rightarrow> db \<Rightarrow> db" where
  "add_decision x d =
     (let i = decision_seq (library d)
      in on_library (\<lambda>l. l\<lparr>decision_seq := i + 1\<rparr>) (d\<lparr>decisions := decisions d @ [x\<lparr>dec_id := i\<rparr>]\<rparr>))"

subsection \<open>Names\<close>

text \<open>Deletions take effect at once.\<close>

definition stale_alias :: "int \<Rightarrow> string list \<Rightarrow> series_alias \<Rightarrow> bool" where
  "stale_alias sid wanted a =
     (ali_source_series_id a = Some sid \<and>
      (ali_normalized_value a \<notin> set wanted \<or> py_lower (ali_display_value a) \<in> set GENERIC_ALIASES))"

text \<open>The aliases to insert: the first spelling of every name the series does not have.\<close>

fun new_aliases :: "int \<Rightarrow> int \<Rightarrow> string list \<Rightarrow> series_alias list \<Rightarrow> string list \<Rightarrow> series_alias list" where
  "new_aliases s sid seen rows [] = []"
| "new_aliases s sid seen rows (v # vs) =
     (let n = normalize_title v in
      if n = [] \<or> n \<in> set seen then new_aliases s sid seen rows vs
      else if list_ex (\<lambda>a. ali_series_id a = s \<and> ali_normalized_value a = n) rows then new_aliases s sid (n # seen) rows vs
      else \<lparr>ali_id = 0, ali_series_id = s, ali_source_series_id = Some sid, ali_display_value = v, ali_normalized_value = n\<rparr>
             # new_aliases s sid (n # seen) rows vs)"

definition sync_aliases :: "int \<Rightarrow> int \<Rightarrow> string list \<Rightarrow> db \<Rightarrow> series_alias list \<times> db" where
  "sync_aliases s sid values d =
     (let d1 = on_library (\<lambda>l. l\<lparr>series_aliases :=
                 filter (\<lambda>a. \<not> stale_alias sid (filter (\<lambda>n. n \<noteq> []) (map normalize_title values)) a) (series_aliases l)\<rparr>) d
      in (new_aliases s sid [] (series_aliases (library d1)) values, d1))"

definition add_alias :: "series_alias \<Rightarrow> db \<Rightarrow> db result" where
  "add_alias a d =
     (let i = alias_seq (library d) in
      flush_if (fits 500 (ali_display_value a) \<and> fits 500 (ali_normalized_value a))
        (\<not> list_ex (\<lambda>x. ali_series_id x = ali_series_id a \<and> ali_normalized_value x = ali_normalized_value a)
            (series_aliases (library d)))
        (on_library (\<lambda>l. l\<lparr>alias_seq := i + 1, series_aliases := series_aliases l @ [a\<lparr>ali_id := i\<rparr>]\<rparr>) d))"

text \<open>External identifiers: an identity keeps one value per provider, a value belongs to one identity.\<close>

definition sync_external ::
  "int \<Rightarrow> int \<Rightarrow> string \<times> string \<Rightarrow> external_identifier list \<times> db \<Rightarrow> (external_identifier list \<times> db) result" where
  "sync_external s sid pv st =
     (case st of (new, d) \<Rightarrow>
        let provider = fst pv; value = snd pv; rows = external_identifiers (library d);
            own = find (\<lambda>x. ext_source_series_id x = sid \<and> ext_provider x = provider) rows;
            taken = find (\<lambda>x. ext_provider x = provider \<and> ext_value x = value) rows
        in if provider = [] \<or> value = [] then Inr (new, d)
           else case own of
                  Some x \<Rightarrow>
                    if taken = None \<or> map_option ext_id taken = Some (ext_id x)
                    then flush_if (fits 200 value) True
                           (new, on_library (\<lambda>l. l\<lparr>external_identifiers := put_row ext_id (x\<lparr>ext_value := value\<rparr>) rows\<rparr>) d)
                    else Inr (new, d)
                | None \<Rightarrow>
                    Inr (if taken = None
                         then new @ [\<lparr>ext_id = 0, ext_series_id = s, ext_source_series_id = sid, ext_provider = provider, ext_value = value\<rparr>]
                         else new, d))"

definition add_external :: "external_identifier \<Rightarrow> db \<Rightarrow> db result" where
  "add_external x d =
     (let i = external_seq (library d) in
      flush_if (fits 50 (ext_provider x) \<and> fits 200 (ext_value x))
        (\<not> list_ex (\<lambda>y. ext_provider y = ext_provider x \<and>
            (ext_value y = ext_value x \<or> ext_source_series_id y = ext_source_series_id x)) (external_identifiers (library d)))
        (on_library (\<lambda>l. l\<lparr>external_seq := i + 1, external_identifiers := external_identifiers l @ [x\<lparr>ext_id := i\<rparr>]\<rparr>) d))"

subsection \<open>Chapters and releases\<close>

text \<open>\<open>by_number[canonical] = item\<close>: the last item of a number, at the place of its first.\<close>

fun dict_put :: "'k \<Rightarrow> 'v \<Rightarrow> ('k \<times> 'v) list \<Rightarrow> ('k \<times> 'v) list" where
  "dict_put k v [] = [(k, v)]"
| "dict_put k v ((l, w) # al) = (if l = k then (k, v) # al else (l, w) # dict_put k v al)"

definition by_number :: "chapter_item list \<Rightarrow> (string \<times> chapter_item) list" where
  "by_number items =
     fold (\<lambda>c al. let n = canonical_chapter_number (ci_number c) in if n = [] then al else dict_put n c al) items []"

definition find_chapter :: "int \<Rightarrow> string \<Rightarrow> db \<Rightarrow> catalog_chapter option" where
  "find_chapter s n d = find (\<lambda>c. ch_series_id c = s \<and> ch_canonical_number c = n) (chapters d)"

definition upsert_chapter :: "instant \<Rightarrow> int \<Rightarrow> string \<times> chapter_item \<Rightarrow> db \<Rightarrow> db result" where
  "upsert_chapter now s e d =
     (let n = fst e; c = snd e in
      case find_chapter s n d of
        None \<Rightarrow>
          bind_result (sort_column (chapter_sort_number (ci_number c))) (\<lambda>sort.
            let i = chapter_seq (library d) in
            flush_if (fits 100 n \<and> fits 100 (ci_number c) \<and> fits 500 (ci_title c)) True
              (on_library (\<lambda>l. l\<lparr>chapter_seq := i + 1\<rparr>) (d\<lparr>chapters := chapters d @
                 [\<lparr>ch_id = i, ch_series_id = s, ch_canonical_number = n, ch_display_number = ci_number c, ch_title = ci_title c,
                   ch_sort_number = sort, ch_created_at = now, ch_updated_at = now\<rparr>]\<rparr>)))
      | Some x \<Rightarrow>
          if ch_title x = [] \<and> ci_title c \<noteq> []
          then flush_if (fits 500 (ci_title c)) True
                 (d\<lparr>chapters := put_row ch_id (x\<lparr>ch_title := ci_title c, ch_updated_at := now\<rparr>) (chapters d)\<rparr>)
          else Inr d)"

definition int32 :: "int \<Rightarrow> bool" where
  "int32 n = (- (2 ^ 31) \<le> n \<and> n < 2 ^ 31)"

definition find_release :: "int \<Rightarrow> string \<Rightarrow> db \<Rightarrow> catalog_chapter_release option" where
  "find_release sid n d = find (\<lambda>r. rel_source_series_id r = sid \<and> rel_source_release_id r = n) (releases d)"

definition upsert_release :: "instant \<Rightarrow> int \<Rightarrow> int \<Rightarrow> string \<times> chapter_item \<Rightarrow> db \<Rightarrow> db result" where
  "upsert_release now s sid e d =
     (let n = fst e; c = snd e; quality = chapter_quality_rank (ci_metadata c);
          ok = (fits 500 n \<and> fits 50 (ci_source c) \<and> fits 500 (ci_title c) \<and> int32 quality) in
      case find_release sid n d of
        None \<Rightarrow>
          (case find_chapter s n d of
             None \<Rightarrow> Inl (KeyError n)
           | Some x \<Rightarrow>
               (let i = release_seq (library d) in
                flush_if ok True
                  (on_library (\<lambda>l. l\<lparr>release_seq := i + 1\<rparr>) (d\<lparr>releases := releases d @
                    [\<lparr>rel_id = i, rel_chapter_id = ch_id x, rel_source_series_id = sid, rel_source = ci_source c,
                      rel_source_release_id = n, rel_published_at = ci_published_at c, rel_first_seen_at = now,
                      rel_downloadable_after = None, rel_quality_rank = quality, rel_title = ci_title c, rel_url = ci_url c\<rparr>]\<rparr>))))
      | Some r \<Rightarrow>
          flush_if (fits 500 (ci_title c) \<and> int32 quality) True
            (put_release (r\<lparr>rel_title := ci_title c, rel_url := ci_url c, rel_published_at := ci_published_at c,
               rel_quality_rank := quality\<rparr>) d))"

definition upsert_chapters :: "instant \<Rightarrow> int \<Rightarrow> int \<Rightarrow> chapter_item list \<Rightarrow> db \<Rightarrow> db result" where
  "upsert_chapters now s sid items d =
     (let rows = by_number items in
      bind_result (fold_result (upsert_chapter now s) rows d) (\<lambda>d1. fold_result (upsert_release now s sid) rows d1))"

text \<open>The newest release: by number when any chapter has one, otherwise by date of publication.\<close>

definition chapter_releases :: "int \<Rightarrow> db \<Rightarrow> (catalog_chapter \<times> catalog_chapter_release) list" where
  "chapter_releases s d =
     concat (map (\<lambda>c. map (Pair c) (filter (\<lambda>r. rel_chapter_id r = ch_id c) (releases d)))
       (filter (\<lambda>c. ch_series_id c = s) (chapters d)))"

definition newest_numbered :: "int \<Rightarrow> db \<Rightarrow> (catalog_chapter \<times> catalog_chapter_release) option" where
  "newest_numbered s d =
     max_by (\<lambda>(c, r). (the (ch_sort_number c), rel_id r)) (filter (\<lambda>(c, r). ch_sort_number c \<noteq> None) (chapter_releases s d))"

definition newest_published :: "int \<Rightarrow> db \<Rightarrow> (catalog_chapter \<times> catalog_chapter_release) option" where
  "newest_published s d =
     max_by (\<lambda>(c, r). (case rel_published_at r of None \<Rightarrow> (0, 0) | Some t \<Rightarrow> (1 :: int, t), rel_id r)) (chapter_releases s d)"

definition recompute_latest :: "int \<Rightarrow> db \<Rightarrow> db" where
  "recompute_latest s d =
     (case get_row ser_id s (series_rows d) of
        None \<Rightarrow> d
      | Some x \<Rightarrow>
          (case (case newest_numbered s d of Some p \<Rightarrow> Some p | None \<Rightarrow> newest_published s d) of
             None \<Rightarrow> d
           | Some (c, r) \<Rightarrow>
               d\<lparr>series_rows := put_row ser_id (x\<lparr>ser_latest_release_number := ch_display_number c, ser_latest_release_source := rel_source r,
                   ser_latest_release_at := Some (case rel_published_at r of Some t \<Rightarrow> t | None \<Rightarrow> rel_first_seen_at r),
                   ser_integrity_state := IntegrityHealthy\<rparr>) (series_rows d)\<rparr>))"

subsection \<open>Ingestion\<close>

definition override_text :: "ingest_env \<Rightarrow> series_item \<Rightarrow> string" where
  "override_text env item =
     (if it_source item = ''asura'' then meta_text env (it_metadata item) ''asura_revision_override'' else [])"

definition create_identity ::
  "ingest_env \<Rightarrow> instant \<Rightarrow> string \<Rightarrow> series_item \<Rightarrow> db
   \<Rightarrow> (catalog_source_series \<times> catalog_match_decision list \<times> db) result" where
  "create_identity env now norm item d =
     bind_result (case matching_series item d of
                    Some i \<Rightarrow> Inr (i, d)
                  | None \<Rightarrow> add_series ((new_catalog_series 0 (ie_storage_key env (series_seq (library d))) (it_title item))
                      \<lparr>ser_normalized_title := normalize_title (it_title item), ser_description := it_description item,
                       ser_cover_url := it_cover_url item, ser_updated_at := now\<rparr>) d) (\<lambda>(i, d1).
     let row = (incoming_row norm item)\<lparr>srs_series_id := i, srs_revision_override := override_text env item, srs_last_checked_at := now\<rparr>
     in bind_result (add_identity row d1) (\<lambda>(sid, d2).
          Inr (row\<lparr>srs_id := sid\<rparr>, record_match_candidates env (row\<lparr>srs_id := sid\<rparr>) item d2, d2)))"

text \<open>The identity an item belongs to, the alternate listing it came by, and the decisions to add.\<close>

definition resolve_identity ::
  "ingest_env \<Rightarrow> instant \<Rightarrow> string \<Rightarrow> series_item \<Rightarrow> chapter_item list \<Rightarrow> db
   \<Rightarrow> (catalog_source_series \<times> alternate_listing option \<times> catalog_match_decision list \<times> db) result" where
  "resolve_identity env now norm item items d =
     (case known_identity norm item d of
        Some s \<Rightarrow> Inr (s, None, [], d)
      | None \<Rightarrow>
          (let alt = known_alternate item d in
           case (case alt of None \<Rightarrow> None | Some a \<Rightarrow> get_row srs_id (alt_primary_source_series_id a) (source_series d)) of
             Some s \<Rightarrow> Inr (s, alt, [], d)
           | None \<Rightarrow>
               bind_result (equivalent_provider_identity item items d) (\<lambda>equivalent.
                 case equivalent of
                   Some (s, e) \<Rightarrow>
                     bind_result (add_alternate \<lparr>alt_id = 0, alt_primary_source_series_id = srs_id s, alt_source = it_source item,
                          alt_source_id = it_source_id item, alt_title = it_title item, alt_url = it_url item,
                          alt_evidence = dup_fields e\<rparr> d) (\<lambda>(a, d1). Inr (s, Some a, [], d1))
                 | None \<Rightarrow> bind_result (create_identity env now norm item d) (\<lambda>(s, ds, d1). Inr (s, alt, ds, d1)))))"

definition refreshed_identity ::
  "ingest_env \<Rightarrow> instant \<Rightarrow> string \<Rightarrow> series_item \<Rightarrow> bool \<Rightarrow> string \<Rightarrow> catalog_source_series \<Rightarrow> catalog_source_series" where
  "refreshed_identity env now norm item primary version s =
     (let s1 = (if primary
                then s\<lparr>srs_title := it_title item, srs_source_id := (if it_source item = ''asura'' then norm else it_source_id item),
                       srs_normalized_source_id := norm, srs_normalized_title := normalize_title (it_title item), srs_url := it_url item\<rparr>
                else s);
          s2 = (if it_source item = ''asura'' then s1\<lparr>srs_revision_override := override_text env item\<rparr> else s1)
      in s2\<lparr>srs_description := it_description item, srs_cover_url := it_cover_url item, srs_popularity := it_popularity item,
            srs_metadata := it_metadata item, srs_last_checked_at := now, srs_detail_fetched_at := Some now,
            srs_observation_version := version, srs_observation_seen_at := Some now\<rparr>)"

definition refreshed_series :: "instant \<Rightarrow> series_item \<Rightarrow> catalog_series \<Rightarrow> catalog_series" where
  "refreshed_series now item x =
     x\<lparr>ser_description := str_or (ser_description x) (it_description item),
       ser_cover_url := str_or (ser_cover_url x) (it_cover_url item), ser_updated_at := now\<rparr>"

definition refresh_alternate :: "series_item \<Rightarrow> alternate_listing option \<Rightarrow> db \<Rightarrow> db result" where
  "refresh_alternate item alt d =
     (case alt of
        None \<Rightarrow> Inr d
      | Some a \<Rightarrow> flush_if (fits 500 (it_title item)) True
          (on_library (\<lambda>l. l\<lparr>alternates := put_row alt_id (a\<lparr>alt_title := it_title item, alt_url := it_url item\<rparr>) (alternates l)\<rparr>) d))"

definition flush_added ::
  "catalog_match_decision list \<Rightarrow> series_alias list \<Rightarrow> external_identifier list \<Rightarrow> db \<Rightarrow> db result" where
  "flush_added ds als exts d =
     bind_result (fold_result add_alias als (fold add_decision ds d)) (\<lambda>d1. fold_result add_external exts d1)"

text \<open>What is written about the listing itself, before its chapters: the rows still to be added, and the rest.\<close>

definition ingest_listing ::
  "ingest_env \<Rightarrow> instant \<Rightarrow> series_item \<Rightarrow> chapter_item list \<Rightarrow> db
   \<Rightarrow> (int \<times> int \<times> catalog_match_decision list \<times> series_alias list \<times> external_identifier list \<times> db) result" where
  "ingest_listing env now item items d =
     bind_result (normalized_identity item) (\<lambda>norm.
     bind_result (resolve_identity env now norm item items d) (\<lambda>(s, alt, ds, d1).
     case get_row ser_id (srs_series_id s) (series_rows d1) of
       None \<Rightarrow> Inl (RuntimeError (''canonical series '' @ str_of_int (srs_series_id s) @ '' is missing''))
     | Some x \<Rightarrow>
         bind_result (observation_version env item) (\<lambda>version.
         bind_result (put_identity (refreshed_identity env now norm item (alt = None) version s) d1) (\<lambda>d2.
         bind_result (refresh_alternate item alt d2) (\<lambda>d3.
         let d4 = d3\<lparr>series_rows := put_row ser_id (refreshed_series now item x) (series_rows d3)\<rparr>;
             (als, d5) = sync_aliases (srs_series_id s) (srs_id s) (it_aliases item) d4
         in bind_result (fold_result (sync_external (srs_series_id s) (srs_id s)) (it_external_ids item) ([], d5)) (\<lambda>(exts, d6).
              Inr (srs_series_id s, srs_id s, ds, als, exts, d6)))))))"

definition ingest :: "ingest_env \<Rightarrow> instant \<Rightarrow> series_item \<Rightarrow> chapter_item list \<Rightarrow> db \<Rightarrow> (int \<times> db) result" where
  "ingest env now item items d =
     bind_result (ingest_listing env now item items d) (\<lambda>(s, sid, ds, als, exts, d1).
     if by_number items = []
     then bind_result (flush_added ds als exts (snd (rescore_pending (ie_score env) s (recompute_latest s d1)))) (\<lambda>d2. Inr (sid, d2))
     else
       bind_result (flush_added ds als exts d1) (\<lambda>d2.
       bind_result (upsert_chapters now s sid items d2) (\<lambda>d3.
         Inr (sid, snd (rescore_pending (ie_score env) s (recompute_latest s d3))))))"

end

