(* ===== verification/Catalog_Ingest_Properties.thy ===== *)
theory Catalog_Ingest_Properties
  imports Catalog_Ingest Download_Plan_Facts Catalog_Domain_Properties Download_Demo
begin

text \<open>
  Ingesting a listing: every chapter it shows is in the catalogue with a release of this provider,
  what was there stays, the unique constraints hold, showing the same listing again changes nothing,
  and the newest release is the one with the greatest number.
\<close>

subsection \<open>Tables\<close>

definition chapters_ok :: "db \<Rightarrow> bool" where
  "chapters_ok d =
     (distinct (map ch_id (chapters d)) \<and> (\<forall>c \<in> set (chapters d). ch_id c < chapter_seq (library d)) \<and>
      distinct (map (\<lambda>c. (ch_series_id c, ch_canonical_number c)) (chapters d)))"

definition releases_ok :: "db \<Rightarrow> bool" where
  "releases_ok d =
     (distinct (map rel_id (releases d)) \<and> (\<forall>r \<in> set (releases d). rel_id r < release_seq (library d)) \<and>
      distinct (map (\<lambda>r. (rel_source_series_id r, rel_source_release_id r)) (releases d)))"

lemma chapters_ok_cong:
  assumes "map ch_id (chapters d') = map ch_id (chapters d)" "chapter_seq (library d') = chapter_seq (library d)"
    "map (\<lambda>c. (ch_series_id c, ch_canonical_number c)) (chapters d') = map (\<lambda>c. (ch_series_id c, ch_canonical_number c)) (chapters d)"
  shows "chapters_ok d' = chapters_ok d"
proof -
  have "(\<forall>c \<in> set (chapters e). ch_id c < m) = (\<forall>i \<in> set (map ch_id (chapters e)). i < m)" for e m by simp
  note as_map = this
  show ?thesis unfolding chapters_ok_def by (simp only: as_map assms)
qed

lemma releases_ok_cong:
  assumes "map rel_id (releases d') = map rel_id (releases d)" "release_seq (library d') = release_seq (library d)"
    "map (\<lambda>r. (rel_source_series_id r, rel_source_release_id r)) (releases d') =
     map (\<lambda>r. (rel_source_series_id r, rel_source_release_id r)) (releases d)"
  shows "releases_ok d' = releases_ok d"
proof -
  have "(\<forall>r \<in> set (releases e). rel_id r < m) = (\<forall>i \<in> set (map rel_id (releases e)). i < m)" for e m by simp
  note as_map = this
  show ?thesis unfolding releases_ok_def by (simp only: as_map assms)
qed

lemma flush_if_Inr [simp]: "flush_if a b x = Inr y \<longleftrightarrow> a \<and> b \<and> y = x"
  by (auto simp: flush_if_def)

lemma put_row_self: "distinct (map key rs) \<Longrightarrow> r \<in> set rs \<Longrightarrow> put_row key r rs = rs"
  by (auto simp: put_row_def distinct_map inj_on_def intro!: map_idI)

lemma find_put_row:
  assumes "distinct (map key rs)" "r \<in> set rs" "key r' = key r" "P r' = P r"
  shows "find P (put_row key r' rs) = map_option (\<lambda>z. if key z = key r then r' else z) (find P rs)"
proof -
  have "P (if key z = key r then r' else z) = P z" if "z \<in> set rs" for z
  proof (cases "key z = key r")
    case True
    then have "z = r" using that assms(1,2) by (auto simp: distinct_map dest: inj_onD)
    then show ?thesis using assms(4) by simp
  qed simp
  then have "find P (map (\<lambda>z. if key z = key r then r' else z) xs) = map_option (\<lambda>z. if key z = key r then r' else z) (find P xs)"
    if "set xs \<subseteq> set rs" for xs
    using that by (induction xs) auto
  then show ?thesis by (simp add: put_row_def assms(3))
qed

lemma find_append: "find P (xs @ ys) = (case find P xs of None \<Rightarrow> find P ys | Some x \<Rightarrow> Some x)"
  by (induction xs) auto

lemma map_put_row:
  assumes "distinct (map key rs)" "r \<in> set rs" "key r' = key r" "f r' = f r"
  shows "map f (put_row key r' rs) = map f rs"
proof -
  have "z = r" if "z \<in> set rs" "key z = key r" for z
    using that assms(1,2) by (auto simp: distinct_map dest: inj_onD)
  then show ?thesis using assms(3,4) by (auto simp: put_row_def intro!: map_cong)
qed

subsection \<open>One chapter\<close>

text \<open>What never changes of a chapter, and a title once it has one.\<close>

definition same_chapter :: "catalog_chapter \<Rightarrow> catalog_chapter \<Rightarrow> bool" where
  "same_chapter x y =
     (ch_id y = ch_id x \<and> ch_series_id y = ch_series_id x \<and> ch_canonical_number y = ch_canonical_number x \<and>
      ch_display_number y = ch_display_number x \<and> ch_sort_number y = ch_sort_number x \<and>
      (ch_title x \<noteq> [] \<longrightarrow> ch_title y = ch_title x))"

definition keeps_chapters :: "db \<Rightarrow> db \<Rightarrow> bool" where
  "keeps_chapters d d' = (\<forall>s n x. find_chapter s n d = Some x \<longrightarrow> (\<exists>y. find_chapter s n d' = Some y \<and> same_chapter x y))"

lemma keeps_chapters_refl [simp]: "keeps_chapters d d"
  by (auto simp: keeps_chapters_def same_chapter_def)

lemma same_chapter_trans: "same_chapter x y \<Longrightarrow> same_chapter y z \<Longrightarrow> same_chapter x z"
  by (simp add: same_chapter_def)

lemma keeps_chapters_trans:
  assumes "keeps_chapters d e" "keeps_chapters e f"
  shows "keeps_chapters d f"
  unfolding keeps_chapters_def
proof (intro allI impI)
  fix s n x
  assume "find_chapter s n d = Some x"
  then obtain y where y: "find_chapter s n e = Some y" "same_chapter x y" using assms(1) unfolding keeps_chapters_def by blast
  then obtain z where "find_chapter s n f = Some z" "same_chapter y z" using assms(2) unfolding keeps_chapters_def by blast
  then show "\<exists>z. find_chapter s n f = Some z \<and> same_chapter x z" using same_chapter_trans [OF y(2)] by blast
qed

lemma find_chapter_SomeD:
  "find_chapter s n d = Some x \<Longrightarrow> x \<in> set (chapters d) \<and> ch_series_id x = s \<and> ch_canonical_number x = n"
  by (auto simp: find_chapter_def find_Some_iff)

lemma find_chapter_None: "find_chapter s n d = None \<longleftrightarrow> (\<forall>c \<in> set (chapters d). \<not> (ch_series_id c = s \<and> ch_canonical_number c = n))"
  by (auto simp: find_chapter_def find_None_iff)

text \<open>A chapter is inserted, gets its title, or is left alone.\<close>

lemma upsert_chapter_cases:
  assumes "upsert_chapter now s (n, c) d = Inr d'"
  obtains (Insert) sort i where "find_chapter s n d = None" "i = chapter_seq (library d)"
    "d' = on_library (\<lambda>l. l\<lparr>chapter_seq := i + 1\<rparr>) (d\<lparr>chapters := chapters d @
       [\<lparr>ch_id = i, ch_series_id = s, ch_canonical_number = n, ch_display_number = ci_number c, ch_title = ci_title c,
         ch_sort_number = sort, ch_created_at = now, ch_updated_at = now\<rparr>]\<rparr>)"
    "sort_column (chapter_sort_number (ci_number c)) = Inr sort"
  | (Name) x where "find_chapter s n d = Some x" "ch_title x = []" "ci_title c \<noteq> []"
    "d' = d\<lparr>chapters := put_row ch_id (x\<lparr>ch_title := ci_title c, ch_updated_at := now\<rparr>) (chapters d)\<rparr>"
  | (Keep) x where "find_chapter s n d = Some x" "ch_title x \<noteq> [] \<or> ci_title c = []" "d' = d"
  using assms by (auto simp: upsert_chapter_def bind_result_eq_Inr Let_def split: option.splits if_splits)

lemma upsert_chapter_ok:
  assumes "upsert_chapter now s (n, c) d = Inr d'" "chapters_ok d"
  shows "chapters_ok d' \<and> keeps_chapters d d' \<and> releases d' = releases d \<and> release_seq (library d') = release_seq (library d) \<and>
    (\<exists>x. find_chapter s n d' = Some x \<and> (ch_title x \<noteq> [] \<or> ci_title c = []))"
  using assms(1)
proof (cases rule: upsert_chapter_cases)
  case (Insert sort i)
  have ids: "\<forall>x \<in> set (chapters d). ch_id x < i" using assms(2) by (simp add: chapters_ok_def Insert(2))
  have "chapters_ok d'"
    using assms(2) Insert(1) ids unfolding find_chapter_None
    by (auto simp: chapters_ok_def Insert(2,3) on_library_def)
  moreover have "keeps_chapters d d'"
    by (auto simp: keeps_chapters_def find_chapter_def Insert(3) on_library_def same_chapter_def find_append)
  ultimately show ?thesis using Insert(1) by (simp add: Insert(3) on_library_def find_chapter_def find_append)
next
  case (Name x)
  let ?x = "x\<lparr>ch_title := ci_title c, ch_updated_at := now\<rparr>"
  have x: "x \<in> set (chapters d)" "distinct (map ch_id (chapters d))"
    using find_chapter_SomeD [OF Name(1)] assms(2) by (auto simp: chapters_ok_def)
  note maps = map_put_row [OF x(2,1), of ?x]
  have find: "find_chapter s' n' d' = map_option (\<lambda>z. if ch_id z = ch_id x then ?x else z) (find_chapter s' n' d)" for s' n'
    unfolding find_chapter_def by (simp add: Name(4)) (rule find_put_row [OF x(2,1)], simp_all)
  have same: "z = x" if "find_chapter s' n' d = Some z" "ch_id z = ch_id x" for s' n' z
    using that x find_chapter_SomeD [OF that(1)] by (auto simp: distinct_map dest: inj_onD)
  have "chapters_ok d' = chapters_ok d" by (rule chapters_ok_cong) (simp_all add: Name(4) maps)
  then have "chapters_ok d'" using assms(2) by simp
  moreover have "keeps_chapters d d'"
    unfolding keeps_chapters_def find using same Name(2) by (auto simp: same_chapter_def)
  ultimately show ?thesis using Name(1,3) by (simp add: find) (simp add: Name(4))
next
  case (Keep x)
  then show ?thesis using assms(2) by simp
qed

subsection \<open>One release\<close>

definition keeps_releases :: "db \<Rightarrow> db \<Rightarrow> bool" where
  "keeps_releases d d' =
     (\<forall>sid n x. find_release sid n d = Some x \<longrightarrow>
        (\<exists>y. find_release sid n d' = Some y \<and> rel_id y = rel_id x \<and> rel_chapter_id y = rel_chapter_id x \<and>
             rel_first_seen_at y = rel_first_seen_at x \<and> rel_downloadable_after y = rel_downloadable_after x))"

text \<open>What a listing says of a release.\<close>

definition shows_item :: "chapter_item \<Rightarrow> catalog_chapter_release \<Rightarrow> bool" where
  "shows_item c r =
     (rel_title r = ci_title c \<and> rel_url r = ci_url c \<and> rel_published_at r = ci_published_at c \<and>
      rel_quality_rank r = chapter_quality_rank (ci_metadata c))"

definition item_fits :: "chapter_item \<Rightarrow> bool" where
  "item_fits c = (fits 500 (ci_title c) \<and> int32 (chapter_quality_rank (ci_metadata c)))"

lemma find_release_SomeD:
  "find_release sid n d = Some x \<Longrightarrow> x \<in> set (releases d) \<and> rel_source_series_id x = sid \<and> rel_source_release_id x = n"
  by (auto simp: find_release_def find_Some_iff)

lemma find_release_None:
  "find_release sid n d = None \<longleftrightarrow> (\<forall>r \<in> set (releases d). \<not> (rel_source_series_id r = sid \<and> rel_source_release_id r = n))"
  by (auto simp: find_release_def find_None_iff)

lemma upsert_release_cases:
  assumes "upsert_release now s sid (n, c) d = Inr d'"
  obtains (Insert) x i where "find_release sid n d = None" "find_chapter s n d = Some x" "i = release_seq (library d)" "item_fits c"
    "d' = on_library (\<lambda>l. l\<lparr>release_seq := i + 1\<rparr>) (d\<lparr>releases := releases d @
       [\<lparr>rel_id = i, rel_chapter_id = ch_id x, rel_source_series_id = sid, rel_source = ci_source c,
         rel_source_release_id = n, rel_published_at = ci_published_at c, rel_first_seen_at = now,
         rel_downloadable_after = None, rel_quality_rank = chapter_quality_rank (ci_metadata c), rel_title = ci_title c,
         rel_url = ci_url c\<rparr>]\<rparr>)"
  | (Update) r where "find_release sid n d = Some r" "item_fits c"
    "d' = put_release (r\<lparr>rel_title := ci_title c, rel_url := ci_url c, rel_published_at := ci_published_at c,
       rel_quality_rank := chapter_quality_rank (ci_metadata c)\<rparr>) d"
  using assms by (auto simp: upsert_release_def item_fits_def Let_def split: option.splits)

lemma upsert_release_ok:
  assumes "upsert_release now s sid (n, c) d = Inr d'" "releases_ok d"
  shows "releases_ok d' \<and> keeps_releases d d' \<and> chapters d' = chapters d \<and> chapter_seq (library d') = chapter_seq (library d) \<and>
    item_fits c \<and> (\<exists>r. find_release sid n d' = Some r \<and> shows_item c r \<and>
       (find_release sid n d = None \<longrightarrow> (\<exists>x. find_chapter s n d = Some x \<and> rel_chapter_id r = ch_id x))) \<and>
    (\<forall>m. m \<noteq> n \<longrightarrow> find_release sid m d' = find_release sid m d)"
  using assms(1)
proof (cases rule: upsert_release_cases)
  case (Insert x i)
  have "\<forall>x \<in> set (releases d). rel_id x < i" using assms(2) by (simp add: releases_ok_def Insert(3))
  then have "releases_ok d'"
    using assms(2) Insert(1) unfolding find_release_None
    by (auto simp: releases_ok_def Insert(3,5) on_library_def)
  moreover have "keeps_releases d d'"
    by (auto simp: keeps_releases_def find_release_def Insert(5) on_library_def find_append)
  ultimately show ?thesis
    using Insert(1,2,4) by (simp add: Insert(5) on_library_def find_release_def find_append shows_item_def split: option.split)
next
  case (Update r)
  let ?r = "r\<lparr>rel_title := ci_title c, rel_url := ci_url c, rel_published_at := ci_published_at c,
    rel_quality_rank := chapter_quality_rank (ci_metadata c)\<rparr>"
  have r: "r \<in> set (releases d)" "distinct (map rel_id (releases d))"
    using find_release_SomeD [OF Update(1)] assms(2) by (auto simp: releases_ok_def)
  note maps = map_put_row [OF r(2,1), of ?r]
  have find: "find_release sid' n' d' = map_option (\<lambda>z. if rel_id z = rel_id r then ?r else z) (find_release sid' n' d)" for sid' n'
    unfolding find_release_def by (simp add: Update(3) put_release_def) (rule find_put_row [OF r(2,1)], simp_all)
  have same: "z = r" if "find_release sid' n' d = Some z" "rel_id z = rel_id r" for sid' n' z
    using that r find_release_SomeD [OF that(1)] by (auto simp: distinct_map dest: inj_onD)
  have "releases_ok d' = releases_ok d" by (rule releases_ok_cong) (simp_all add: Update(3) put_release_def maps)
  moreover have "keeps_releases d d'" unfolding keeps_releases_def find using same by auto
  moreover have "find_release sid m d' = find_release sid m d" if "m \<noteq> n" for m
  proof (cases "find_release sid m d")
    case (Some z)
    have "rel_id z \<noteq> rel_id r" using same [OF Some] find_release_SomeD [OF Some] find_release_SomeD [OF Update(1)] that by auto
    then show ?thesis by (simp add: find Some)
  qed (simp add: find)
  ultimately show ?thesis
    using assms(2) Update(1,2) find [of sid n] by (simp add: shows_item_def) (simp add: Update(3) put_release_def)
qed

subsection \<open>All items\<close>

lemma upsert_chapter_other:
  assumes "upsert_chapter now s (n, c) d = Inr d'" "m \<noteq> n" "find_chapter s m d = None"
  shows "find_chapter s m d' = None"
  using assms(1)
proof (cases rule: upsert_chapter_cases)
  case (Insert sort i)
  then show ?thesis using assms(2,3) by (simp add: find_chapter_def find_append on_library_def)
next
  case (Name x)
  have "ch_series_id x = s \<and> ch_canonical_number x = n" using find_chapter_SomeD [OF Name(1)] by simp
  then show ?thesis using assms(2,3) unfolding find_chapter_None Name(4) by (auto dest: in_put_rowD)
next
  case (Keep x)
  then show ?thesis using assms(3) by simp
qed

lemma upsert_chapter_fold:
  assumes "fold_result (upsert_chapter now s) rows d = Inr d'" "chapters_ok d"
  shows "chapters_ok d' \<and> keeps_chapters d d' \<and> releases d' = releases d \<and> release_seq (library d') = release_seq (library d) \<and>
    (\<forall>(n, c) \<in> set rows. \<exists>x. find_chapter s n d' = Some x \<and> (ch_title x \<noteq> [] \<or> ci_title c = []))"
  using assms
proof (induction rows arbitrary: d)
  case (Cons e rows)
  obtain n c where e: "e = (n, c)" by (cases e)
  obtain d1 where d1: "upsert_chapter now s (n, c) d = Inr d1" "fold_result (upsert_chapter now s) rows d1 = Inr d'"
    using Cons.prems(1) by (auto simp: e bind_result_eq_Inr)
  note step = upsert_chapter_ok [OF d1(1) Cons.prems(2)]
  have rest: "chapters_ok d' \<and> keeps_chapters d1 d' \<and> releases d' = releases d1 \<and> release_seq (library d') = release_seq (library d1) \<and>
    (\<forall>(n, c) \<in> set rows. \<exists>x. find_chapter s n d' = Some x \<and> (ch_title x \<noteq> [] \<or> ci_title c = []))"
    by (rule Cons.IH [OF d1(2)]) (use step in blast)
  obtain x where x: "find_chapter s n d1 = Some x" "ch_title x \<noteq> [] \<or> ci_title c = []" using step by blast
  then obtain y where y: "find_chapter s n d' = Some y" "same_chapter x y" using rest unfolding keeps_chapters_def by blast
  have "ch_title y \<noteq> [] \<or> ci_title c = []" using x(2) y(2) by (auto simp: same_chapter_def)
  then show ?case using rest step y(1) keeps_chapters_trans [of d d1 d'] by (auto simp: e)
qed simp

lemma keeps_releases_refl [simp]: "keeps_releases d d"
  by (simp add: keeps_releases_def)

lemma keeps_releases_trans: "keeps_releases d e \<Longrightarrow> keeps_releases e f \<Longrightarrow> keeps_releases d f"
  unfolding keeps_releases_def by metis

lemma upsert_release_fold:
  assumes "fold_result (upsert_release now s sid) rows d = Inr d'" "releases_ok d" "distinct (map fst rows)"
  shows "releases_ok d' \<and> keeps_releases d d' \<and> chapters d' = chapters d \<and> chapter_seq (library d') = chapter_seq (library d) \<and>
    (\<forall>(n, c) \<in> set rows. item_fits c \<and> (\<exists>r. find_release sid n d' = Some r \<and> shows_item c r \<and>
       (find_release sid n d = None \<longrightarrow> (\<exists>x. find_chapter s n d = Some x \<and> rel_chapter_id r = ch_id x)))) \<and>
    (\<forall>m. m \<notin> fst ` set rows \<longrightarrow> find_release sid m d' = find_release sid m d)"
  using assms
proof (induction rows arbitrary: d)
  case (Cons e rows)
  obtain n c where e: "e = (n, c)" by (cases e)
  obtain d1 where d1: "upsert_release now s sid (n, c) d = Inr d1" "fold_result (upsert_release now s sid) rows d1 = Inr d'"
    using Cons.prems(1) by (auto simp: e bind_result_eq_Inr)
  note step = upsert_release_ok [OF d1(1) Cons.prems(2)]
  have fresh: "n \<notin> fst ` set rows" "distinct (map fst rows)" using Cons.prems(3) by (auto simp: e)
  have rest: "releases_ok d' \<and> keeps_releases d1 d' \<and> chapters d' = chapters d1 \<and> chapter_seq (library d') = chapter_seq (library d1) \<and>
    (\<forall>(n, c) \<in> set rows. item_fits c \<and> (\<exists>r. find_release sid n d' = Some r \<and> shows_item c r \<and>
       (find_release sid n d1 = None \<longrightarrow> (\<exists>x. find_chapter s n d1 = Some x \<and> rel_chapter_id r = ch_id x)))) \<and>
    (\<forall>m. m \<notin> fst ` set rows \<longrightarrow> find_release sid m d' = find_release sid m d1)"
    by (rule Cons.IH [OF d1(2) _ fresh(2)]) (use step in blast)
  have same_find: "find_chapter s m d1 = find_chapter s m d" for m using step by (simp add: find_chapter_def)
  have elsewhere: "find_release sid m d1 = find_release sid m d" if "m \<noteq> n" for m using step that by blast
  have other: "find_release sid m d1 = find_release sid m d" if "(m, b) \<in> set rows" for m b
    by (rule elsewhere) (use fresh(1) that in \<open>auto simp: image_iff\<close>)
  have "find_release sid n d' = find_release sid n d1" using rest fresh(1) by simp
  moreover have "\<exists>r. find_release sid n d1 = Some r \<and> shows_item c r \<and>
       (find_release sid n d = None \<longrightarrow> (\<exists>x. find_chapter s n d = Some x \<and> rel_chapter_id r = ch_id x))" "item_fits c"
    using step by blast+
  moreover have "keeps_releases d d'" by (rule keeps_releases_trans [of d d1 d']) (use rest step in blast)+
  moreover have "item_fits k \<and> (\<exists>r. find_release sid m d' = Some r \<and> shows_item k r \<and>
       (find_release sid m d = None \<longrightarrow> (\<exists>x. find_chapter s m d = Some x \<and> rel_chapter_id r = ch_id x)))"
    if "(m, k) \<in> set rows" for m k
  proof -
    have "item_fits k \<and> (\<exists>r. find_release sid m d' = Some r \<and> shows_item k r \<and>
       (find_release sid m d1 = None \<longrightarrow> (\<exists>x. find_chapter s m d1 = Some x \<and> rel_chapter_id r = ch_id x)))"
      using rest that by blast
    then show ?thesis unfolding other [OF that] same_find .
  qed
  moreover have "find_release sid m d' = find_release sid m d" if "m \<notin> fst ` set (e # rows)" for m
    using rest elsewhere that by (simp add: e)
  ultimately show ?case using rest step by (simp add: e) blast
qed simp

lemma keys_dict_put: "fst ` set (dict_put k v al) = {k} \<union> fst ` set al"
  by (induction k v al rule: dict_put.induct) auto

lemma distinct_dict_put: "distinct (map fst al) \<Longrightarrow> distinct (map fst (dict_put k v al))"
proof (induction k v al rule: dict_put.induct)
  case (2 k v l w al)
  have "l \<notin> fst ` set (dict_put k v al)" if "l \<noteq> k" using 2(2) that by (simp add: keys_dict_put)
  then show ?case using 2 by auto
qed simp

lemma map_of_dict_put: "map_of (dict_put k v al) = (map_of al)(k \<mapsto> v)"
  by (induction k v al rule: dict_put.induct) (auto simp: fun_upd_twist)

text \<open>The last item of a listing with a number.\<close>

definition last_item :: "string \<Rightarrow> chapter_item list \<Rightarrow> chapter_item option" where
  "last_item n items = (if n = [] then None else find (\<lambda>c. canonical_chapter_number (ci_number c) = n) (rev items))"

lemma by_number_facts: "distinct (map fst (by_number items)) \<and> map_of (by_number items) n = last_item n items"
proof (induction items rule: rev_induct)
  case (snoc c items)
  then show ?case
    by (auto simp: by_number_def last_item_def Let_def distinct_dict_put map_of_dict_put split: if_splits)
qed (simp add: by_number_def last_item_def)

lemma last_item_in: "last_item n items = Some c \<Longrightarrow> (n, c) \<in> set (by_number items)"
  using by_number_facts [of items n] by (simp add: map_of_SomeD)

lemma upsert_chapters_split:
  assumes "upsert_chapters now s sid items d = Inr d'"
  obtains d1 where "fold_result (upsert_chapter now s) (by_number items) d = Inr d1"
    "fold_result (upsert_release now s sid) (by_number items) d1 = Inr d'"
  using assms by (auto simp: upsert_chapters_def Let_def bind_result_eq_Inr)

lemma upsert_chapters_ok:
  assumes "upsert_chapters now s sid items d = Inr d'" "chapters_ok d" "releases_ok d"
  shows "chapters_ok d' \<and> releases_ok d' \<and> keeps_chapters d d' \<and> keeps_releases d d' \<and>
    (\<forall>n c. last_item n items = Some c \<longrightarrow>
       (\<exists>x r. find_chapter s n d' = Some x \<and> find_release sid n d' = Some r \<and> shows_item c r \<and>
          (ch_title x \<noteq> [] \<or> ci_title c = []) \<and> (find_release sid n d = None \<longrightarrow> rel_chapter_id r = ch_id x)))"
  using assms(1)
proof (cases rule: upsert_chapters_split)
  case (1 d1)
  note chapters = upsert_chapter_fold [OF 1(1) assms(2)]
  have ok1: "releases_ok d1" using chapters assms(3) by (simp add: releases_ok_def)
  note released = upsert_release_fold [OF 1(2) ok1 conjunct1 [OF by_number_facts]]
  have fc: "find_chapter s' n d' = find_chapter s' n d1" for s' n using released by (simp add: find_chapter_def)
  have fr: "find_release sid' n d1 = find_release sid' n d" for sid' n using chapters by (simp add: find_release_def)
  have "\<exists>x r. find_chapter s n d' = Some x \<and> find_release sid n d' = Some r \<and> shows_item c r \<and>
          (ch_title x \<noteq> [] \<or> ci_title c = []) \<and> (find_release sid n d = None \<longrightarrow> rel_chapter_id r = ch_id x)"
    if "last_item n items = Some c" for n c
    using chapters released last_item_in [OF that] unfolding fc fr by fastforce
  moreover have "chapters_ok d' \<and> keeps_chapters d d'"
    using chapters released unfolding keeps_chapters_def fc by (simp add: chapters_ok_def)
  moreover have "releases_ok d' \<and> keeps_releases d d'"
    using released unfolding keeps_releases_def fr by blast
  ultimately show ?thesis by blast
qed

subsection \<open>The rest of an ingestion\<close>

text \<open>Nothing else touches chapters and releases.\<close>

definition shelf_kept :: "db \<Rightarrow> db \<Rightarrow> bool" where
  "shelf_kept d e =
     (chapters e = chapters d \<and> releases e = releases d \<and> chapter_seq (library e) = chapter_seq (library d) \<and>
      release_seq (library e) = release_seq (library d))"

lemma shelf_kept_refl [simp]: "shelf_kept d d"
  by (simp add: shelf_kept_def)

lemma shelf_kept_trans: "shelf_kept d e \<Longrightarrow> shelf_kept e f \<Longrightarrow> shelf_kept d f"
  by (simp add: shelf_kept_def)

lemma shelf_kept_ok: "shelf_kept d e \<Longrightarrow> chapters_ok e = chapters_ok d \<and> releases_ok e = releases_ok d"
  by (simp add: shelf_kept_def chapters_ok_def releases_ok_def)

lemma shelf_kept_find:
  "shelf_kept d e \<Longrightarrow> find_chapter s n e = find_chapter s n d \<and> find_release sid n e = find_release sid n d"
  by (simp add: shelf_kept_def find_chapter_def find_release_def)

lemma fold_result_keeps:
  assumes "fold_result f xs d = Inr d'" "\<And>x e e'. f x e = Inr e' \<Longrightarrow> R e e'" "\<And>e. R e e"
    "\<And>a b c. R a b \<Longrightarrow> R b c \<Longrightarrow> R a c"
  shows "R d d'"
  using assms(1)
proof (induction xs arbitrary: d)
  case (Cons x xs)
  then obtain e where "f x d = Inr e" "fold_result f xs e = Inr d'" by (auto simp: bind_result_eq_Inr)
  then show ?case using Cons.IH assms(2,4) by blast
qed (use assms(3) in simp)

text \<open>Rows an insertion keeps: identities too.\<close>

definition same_identities :: "db \<Rightarrow> db \<Rightarrow> bool" where
  "same_identities d e = (shelf_kept d e \<and> source_series e = source_series d)"

lemma same_identities_refl [simp]: "same_identities d d"
  by (simp add: same_identities_def)

lemma same_identities_trans: "same_identities d e \<Longrightarrow> same_identities e f \<Longrightarrow> same_identities d f"
  unfolding same_identities_def using shelf_kept_trans [of d e f] by simp

lemma add_decision_keeps: "same_identities d (add_decision x d)"
  by (simp add: add_decision_def Let_def same_identities_def shelf_kept_def on_library_def)

lemma add_decisions_keep: "same_identities d (fold add_decision xs d)"
proof (induction xs arbitrary: d)
  case (Cons x xs)
  then show ?case using same_identities_trans [OF add_decision_keeps [of d x]] by simp
qed simp

lemma add_alias_keeps: "add_alias a d = Inr d' \<Longrightarrow> same_identities d d'"
  by (auto simp: add_alias_def Let_def same_identities_def shelf_kept_def on_library_def)

lemma add_external_keeps: "add_external a d = Inr d' \<Longrightarrow> same_identities d d'"
  by (auto simp: add_external_def Let_def same_identities_def shelf_kept_def on_library_def)

lemma flush_added_keeps:
  assumes "flush_added ds als exts d = Inr d'"
  shows "same_identities d d'"
proof -
  obtain e where e: "fold_result add_alias als (fold add_decision ds d) = Inr e" "fold_result add_external exts e = Inr d'"
    using assms by (auto simp: flush_added_def bind_result_eq_Inr)
  have "same_identities (fold add_decision ds d) e"
    by (rule fold_result_keeps [OF e(1) add_alias_keeps same_identities_refl same_identities_trans])
  moreover have "same_identities e d'"
    by (rule fold_result_keeps [OF e(2) add_external_keeps same_identities_refl same_identities_trans])
  ultimately show ?thesis using add_decisions_keep same_identities_trans by blast
qed

lemma sync_external_keeps:
  assumes "sync_external s sid pv st = Inr st'"
  shows "same_identities (snd st) (snd st')"
  using assms
  by (auto simp: sync_external_def Let_def same_identities_def shelf_kept_def on_library_def split: prod.splits option.splits if_splits)

lemma sync_externals_keep:
  assumes "fold_result (sync_external s sid) pvs st = Inr st'"
  shows "same_identities (snd st) (snd st')"
  by (rule fold_result_keeps [OF assms sync_external_keeps]) (auto intro: same_identities_trans)

lemma sync_aliases_keeps: "same_identities d (snd (sync_aliases s sid vs d))"
  by (auto simp: sync_aliases_def Let_def same_identities_def shelf_kept_def on_library_def)

lemma refresh_alternate_keeps: "refresh_alternate item alt d = Inr d' \<Longrightarrow> same_identities d d'"
  by (auto simp: refresh_alternate_def same_identities_def shelf_kept_def on_library_def split: option.splits)

lemma latest_and_scores_keep: "same_identities d (snd (rescore_pending env s (recompute_latest t d)))"
  by (auto simp: rescore_pending_def recompute_latest_def same_identities_def shelf_kept_def split: option.splits prod.splits)

lemma matched_rows:
  assumes "fold_result (match_evidence item items row d) cs found = Inr found'"
  shows "fst ` set found' \<subseteq> fst ` set found \<union> set cs"
  using assms
proof (induction cs arbitrary: found)
  case (Cons c cs)
  obtain mid where mid: "match_evidence item items row d c found = Inr mid" "fold_result (match_evidence item items row d) cs mid = Inr found'"
    using Cons.prems by (auto simp: bind_result_eq_Inr)
  have "fst ` set mid \<subseteq> fst ` set found \<union> {c}"
    using mid(1) by (auto simp: match_evidence_def bind_result_eq_Inr split: if_splits)
  then show ?case using Cons.IH [OF mid(2)] by force
qed simp

lemma equivalent_is_known:
  assumes "equivalent_provider_identity item items d = Inr (Some (t, e))"
  shows "t \<in> set (source_series d)"
proof -
  let ?C = "sort_key srs_id (filter (\<lambda>s. srs_source s = it_source item \<and> srs_normalized_title s = normalize_title (it_title item)) (source_series d))"
  obtain norm found where f: "fold_result (match_evidence item items (incoming_row norm item) d) ?C [] = Inr found"
    "max_by (\<lambda>(s, e). (dup_ratio e, dup_overlap e, - srs_id s)) found = Some (t, e)"
    using assms by (auto simp: equivalent_provider_identity_def Let_def bind_result_eq_Inr split: if_splits)
  have "(t, e) \<in> set found" using max_by_Some [OF f(2)] by simp
  then have "t \<in> fst ` set found" by (auto intro: rev_image_eqI)
  then show ?thesis using matched_rows [OF f(1)] by auto
qed

lemma add_series_keeps: "add_series x d = Inr (i, d') \<Longrightarrow> same_identities d d'"
  by (auto simp: add_series_def Let_def same_identities_def shelf_kept_def on_library_def)

lemma create_identity_keeps:
  assumes "create_identity env now norm item d = Inr (s, ds, d')"
  shows "shelf_kept d d' \<and> srs_id s \<in> srs_id ` set (source_series d')"
proof -
  obtain i d1 row sid where 1: "same_identities d d1" "add_identity row d1 = Inr (sid, d')" "srs_id s = sid"
    using assms by (force simp: create_identity_def Let_def bind_result_eq_Inr dest: add_series_keeps split: option.splits)
  show ?thesis using 1 by (auto simp: add_identity_def Let_def same_identities_def shelf_kept_def on_library_def)
qed

lemma resolve_identity_keeps:
  assumes "resolve_identity env now norm item items d = Inr (s, alt, ds, d')"
  shows "shelf_kept d d' \<and> srs_id s \<in> srs_id ` set (source_series d')"
proof -
  have known: "s \<in> set (source_series d)" if "known_identity norm item d = Some s"
    using that by (auto simp: known_identity_def find_Some_iff)
  have row: "s \<in> set (source_series d)" if "get_row srs_id i (source_series d) = Some s" for i
    using get_row_SomeD [OF that] by simp
  have alternate: "same_identities d e" if "add_alternate a d = Inr (b, e)" for a b e
    using that by (auto simp: add_alternate_def Let_def same_identities_def shelf_kept_def on_library_def)
  consider "s \<in> set (source_series d)" "same_identities d d'" | "create_identity env now norm item d = Inr (s, ds, d')"
    using assms known row alternate equivalent_is_known
    by (auto simp: resolve_identity_def Let_def bind_result_eq_Inr split: option.splits)
  then show ?thesis by cases (auto simp: same_identities_def dest: create_identity_keeps)
qed

lemma put_identity_keeps: "put_identity s d = Inr d' \<Longrightarrow> shelf_kept d d' \<and> source_series d' = put_row srs_id s (source_series d)"
  by (auto simp: put_identity_def shelf_kept_def)

lemma get_put_row: "i \<in> key ` set rs \<Longrightarrow> key r = i \<Longrightarrow> get_row key i (put_row key r rs) = Some r"
  by (induction rs) (auto simp: put_row_def get_row_Cons)

lemma ingest_listing_keeps:
  assumes "ingest_listing env now item items d = Inr (s, sid, ds, als, exts, d')"
  shows "shelf_kept d d' \<and> (\<exists>x. get_row srs_id sid (source_series d') = Some x \<and> srs_series_id x = s)"
proof -
  obtain norm t alt x version d1 d2 d3 d5 where
    d1: "resolve_identity env now norm item items d = Inr (t, alt, ds, d1)" and
    d2: "put_identity (refreshed_identity env now norm item (alt = None) version t) d1 = Inr d2" and
    d3: "refresh_alternate item alt d2 = Inr d3" and
    d5: "snd (sync_aliases s sid (it_aliases item) (d3\<lparr>series_rows := put_row ser_id (refreshed_series now item x) (series_rows d3)\<rparr>)) = d5" and
    d6: "fold_result (sync_external s sid) (it_external_ids item) ([], d5) = Inr (exts, d')" and
    ids: "s = srs_series_id t" "sid = srs_id t"
    using assms by (auto simp: ingest_listing_def Let_def bind_result_eq_Inr case_prod_unfold split: option.split_asm)
  let ?t = "refreshed_identity env now norm item (alt = None) version t"
  have t: "srs_id ?t = sid" "srs_series_id ?t = s" by (simp_all add: refreshed_identity_def Let_def ids)
  note first = resolve_identity_keeps [OF d1]
  note second = put_identity_keeps [OF d2]
  have third: "same_identities d2 d3" by (rule refresh_alternate_keeps [OF d3])
  have fourth: "same_identities d3 d5"
    using sync_aliases_keeps [of "d3\<lparr>series_rows := put_row ser_id (refreshed_series now item x) (series_rows d3)\<rparr>"]
    by (simp add: same_identities_def shelf_kept_def flip: d5)
  have fifth: "same_identities d5 d'" using sync_externals_keep [OF d6] by simp
  have "shelf_kept d d'"
    using first second third fourth fifth by (simp add: same_identities_def shelf_kept_def)
  moreover have "source_series d' = put_row srs_id ?t (source_series d1)"
    using second third fourth fifth by (simp add: same_identities_def)
  ultimately show ?thesis using get_put_row [of sid srs_id "source_series d1" ?t] first t by (simp add: ids)
qed

lemma ingest_split:
  assumes "ingest env now item items d = Inr (sid, d')"
  obtains s t e where "shelf_kept d e" "get_row srs_id sid (source_series e) = Some t" "srs_series_id t = s"
    "by_number items = []" "same_identities e d'"
  | s t e f where "shelf_kept d e" "get_row srs_id sid (source_series e) = Some t" "srs_series_id t = s"
    "upsert_chapters now s sid items e = Inr f" "same_identities f d'"
proof -
  obtain s i ds als exts d1 where l0: "ingest_listing env now item items d = Inr (s, i, ds, als, exts, d1)"
    and l: "(if by_number items = []
     then bind_result (flush_added ds als exts (snd (rescore_pending (ie_score env) s (recompute_latest s d1)))) (\<lambda>d2. Inr (i, d2))
     else bind_result (flush_added ds als exts d1) (\<lambda>d2. bind_result (upsert_chapters now s i items d2) (\<lambda>d3.
            Inr (i, snd (rescore_pending (ie_score env) s (recompute_latest s d3)))))) = Inr (sid, d')"
    using assms by (auto simp: ingest_def bind_result_eq_Inr)
  have i: "i = sid" using l by (auto simp: bind_result_eq_Inr split: if_splits)
  obtain t where t: "shelf_kept d d1" "get_row srs_id sid (source_series d1) = Some t" "srs_series_id t = s"
    using ingest_listing_keeps [OF l0] i by blast
  show ?thesis
  proof (cases "by_number items = []")
    case True
    let ?e = "snd (rescore_pending (ie_score env) s (recompute_latest s d1))"
    have "flush_added ds als exts ?e = Inr d'" using l True by (auto simp: bind_result_eq_Inr)
    then have "same_identities d1 d'" using flush_added_keeps latest_and_scores_keep same_identities_trans by blast
    then show ?thesis using that(1) t True by blast
  next
    case False
    then obtain d2 d3 where 2: "flush_added ds als exts d1 = Inr d2" "upsert_chapters now s sid items d2 = Inr d3"
      "d' = snd (rescore_pending (ie_score env) s (recompute_latest s d3))"
      using l i by (auto simp: bind_result_eq_Inr)
    have keep: "same_identities d1 d2" "same_identities d3 d'"
      using flush_added_keeps [OF 2(1)] latest_and_scores_keep by (simp_all add: 2(3))
    have "shelf_kept d d2" "get_row srs_id sid (source_series d2) = Some t"
      using keep(1) t shelf_kept_trans by (auto simp: same_identities_def)
    then show ?thesis using that(2) t(3) 2(2) keep(2) by blast
  qed
qed

lemma upsert_chapter_identities: "upsert_chapter now s p d = Inr d' \<Longrightarrow> source_series d' = source_series d"
  by (cases p) (auto simp: upsert_chapter_def Let_def bind_result_eq_Inr on_library_def split: option.splits if_splits)

lemma upsert_release_identities: "upsert_release now s sid p d = Inr d' \<Longrightarrow> source_series d' = source_series d"
  by (cases p) (auto simp: upsert_release_def Let_def on_library_def put_release_def split: option.splits)

lemma upsert_chapters_identities:
  assumes "upsert_chapters now s sid items d = Inr d'"
  shows "source_series d' = source_series d"
  using assms
proof (cases rule: upsert_chapters_split)
  case (1 d1)
  have "source_series d = source_series d1"
    by (rule fold_result_keeps [OF 1(1)]) (simp_all add: upsert_chapter_identities)
  moreover have "source_series d1 = source_series d'"
    by (rule fold_result_keeps [OF 1(2)]) (simp_all add: upsert_release_identities)
  ultimately show ?thesis by simp
qed

lemma ingest_facts:
  assumes "ingest env now item items d = Inr (sid, d')" "chapters_ok d" "releases_ok d"
  shows "chapters_ok d' \<and> releases_ok d' \<and> keeps_chapters d d' \<and> keeps_releases d d' \<and>
    (\<exists>t. get_row srs_id sid (source_series d') = Some t \<and>
       (\<forall>n c. last_item n items = Some c \<longrightarrow>
         (\<exists>x r. find_chapter (srs_series_id t) n d' = Some x \<and> find_release sid n d' = Some r \<and> shows_item c r \<and>
            (ch_title x \<noteq> [] \<or> ci_title c = []) \<and> (find_release sid n d = None \<longrightarrow> rel_chapter_id r = ch_id x))))"
  using assms(1)
proof (cases rule: ingest_split)
  case (1 s t e)
  have shelf: "shelf_kept d d'" using 1(1,5) shelf_kept_trans by (auto simp: same_identities_def)
  have "last_item n items = None" for n using by_number_facts [of items n] 1(4) by simp
  then show ?thesis
    using 1(2,5) assms(2,3) shelf_kept_ok [OF shelf] shelf_kept_find [OF shelf]
    by (auto simp: same_identities_def keeps_chapters_def keeps_releases_def same_chapter_def)
next
  case (2 s t e f)
  have ok: "chapters_ok e" "releases_ok e" using shelf_kept_ok [OF 2(1)] assms(2,3) by simp_all
  have last: "shelf_kept f d'" "source_series d' = source_series e"
    using 2(5) upsert_chapters_identities [OF 2(4)] by (simp_all add: same_identities_def)
  note f = upsert_chapters_ok [OF 2(4) ok]
  have "chapters_ok d' \<and> releases_ok d'" using f shelf_kept_ok [OF last(1)] by simp
  moreover have "keeps_chapters d d' \<and> keeps_releases d d'"
    using f by (simp add: keeps_chapters_def keeps_releases_def shelf_kept_find [OF last(1)] shelf_kept_find [OF 2(1)])
  moreover have "get_row srs_id sid (source_series d') = Some t" using 2(2) last(2) by simp
  moreover have "\<forall>n c. last_item n items = Some c \<longrightarrow>
         (\<exists>x r. find_chapter (srs_series_id t) n d' = Some x \<and> find_release sid n d' = Some r \<and> shows_item c r \<and>
            (ch_title x \<noteq> [] \<or> ci_title c = []) \<and> (find_release sid n d = None \<longrightarrow> rel_chapter_id r = ch_id x))"
    using f by (simp add: shelf_kept_find [OF last(1)] shelf_kept_find [OF 2(1)] 2(3))
  ultimately show ?thesis by blast
qed

text \<open>C17. Ingesting a listing stores what it shows: every label that has a canonical number, the last of the labels
  with that number, is a chapter of the identity's series and a release of the identity with the title, address, date and
  quality shown; a release that is new belongs to that chapter, and the chapter has a title when the item does.\<close>

theorem listing_is_stored:
  assumes "ingest env now item items d = Inr (sid, d')" "chapters_ok d" "releases_ok d" "last_item n items = Some c"
  shows "\<exists>t x r. get_row srs_id sid (source_series d') = Some t \<and> find_chapter (srs_series_id t) n d' = Some x \<and>
    find_release sid n d' = Some r \<and> shows_item c r \<and> (ch_title x \<noteq> [] \<or> ci_title c = []) \<and>
    (find_release sid n d = None \<longrightarrow> rel_chapter_id r = ch_id x)"
  using ingest_facts [OF assms(1-3)] assms(4) by blast

text \<open>C18. An ingestion loses nothing: the unique constraints on chapters and releases hold afterwards, every chapter
  keeps its number, its series and a title it has, and every release its chapter, the time it was first seen and the
  time from which it may be downloaded.\<close>

theorem ingest_keeps_catalogue:
  assumes "ingest env now item items d = Inr (sid, d')" "chapters_ok d" "releases_ok d"
  shows "chapters_ok d' \<and> releases_ok d' \<and> keeps_chapters d d' \<and> keeps_releases d d'"
  using ingest_facts [OF assms] by blast

subsection \<open>The same listing again\<close>

lemma fold_result_fixed: "(\<And>x. x \<in> set xs \<Longrightarrow> f x d = Inr d) \<Longrightarrow> fold_result f xs d = Inr d"
  by (induction xs) simp_all

lemma upsert_chapter_again:
  "find_chapter s n d = Some x \<Longrightarrow> ch_title x \<noteq> [] \<or> ci_title c = [] \<Longrightarrow> upsert_chapter now s (n, c) d = Inr d"
  by (auto simp: upsert_chapter_def)

lemma upsert_release_again:
  assumes "find_release sid n d = Some r" "shows_item c r" "item_fits c" "releases_ok d"
  shows "upsert_release now s sid (n, c) d = Inr d"
proof -
  have "r\<lparr>rel_title := ci_title c, rel_url := ci_url c, rel_published_at := ci_published_at c,
      rel_quality_rank := chapter_quality_rank (ci_metadata c)\<rparr> = r"
    using assms(2) by (cases r) (simp add: shows_item_def)
  moreover have "put_row rel_id r (releases d) = releases d"
    by (rule put_row_self) (use assms(1,4) find_release_SomeD in \<open>auto simp: releases_ok_def\<close>)
  ultimately show ?thesis using assms(1,3) by (simp add: upsert_release_def Let_def item_fits_def put_release_def)
qed

text \<open>C19. Showing the same chapters again, at any later time, changes nothing: no chapter and no release is added or
  written a second time.\<close>

theorem relisting_changes_nothing:
  assumes "upsert_chapters now s sid items d = Inr d'" "chapters_ok d" "releases_ok d"
  shows "upsert_chapters later s sid items d' = Inr d'"
  using assms(1)
proof (cases rule: upsert_chapters_split)
  case (1 d1)
  note chapters = upsert_chapter_fold [OF 1(1) assms(2)]
  have ok1: "releases_ok d1" using chapters assms(3) by (simp add: releases_ok_def)
  note released = upsert_release_fold [OF 1(2) ok1 conjunct1 [OF by_number_facts]]
  have "fold_result (upsert_chapter later s) (by_number items) d' = Inr d'"
  proof (rule fold_result_fixed)
    fix p assume p: "p \<in> set (by_number items)"
    obtain n c where e: "p = (n, c)" by (cases p)
    obtain x where x: "find_chapter s n d1 = Some x" "ch_title x \<noteq> [] \<or> ci_title c = []" using chapters p e by blast
    then have "find_chapter s n d' = Some x" using released by (simp add: find_chapter_def)
    then show "upsert_chapter later s p d' = Inr d'" unfolding e by (rule upsert_chapter_again) (rule x(2))
  qed
  moreover have "fold_result (upsert_release later s sid) (by_number items) d' = Inr d'"
  proof (rule fold_result_fixed)
    fix p assume p: "p \<in> set (by_number items)"
    obtain n c where e: "p = (n, c)" by (cases p)
    obtain r where "item_fits c" "find_release sid n d' = Some r" "shows_item c r" using released p e by blast
    then show "upsert_release later s sid p d' = Inr d'" using released by (simp add: e upsert_release_again)
  qed
  ultimately show ?thesis by (simp add: upsert_chapters_def Let_def)
qed

subsection \<open>A number the column cannot hold\<close>

lemma round_column_large: "100000000000000 \<le> v \<Longrightarrow> 100000000000000 \<le> round_column v"
proof -
  assume v: "100000000000000 \<le> v"
  have "(100000000000000000000 :: int) \<le> \<lfloor>v * 1000000 + 1 / 2\<rfloor>" using v by (simp add: le_floor_iff)
  then have "(100000000000000000000 :: rat) \<le> of_int \<lfloor>v * 1000000 + 1 / 2\<rfloor>" by (metis of_int_le_iff of_int_numeral)
  then show ?thesis using v by (simp add: round_column_def)
qed

lemma sort_column_large:
  assumes "find_number (ci_number c) = Some m" "short_number m" "100000000000000 \<le> dec_value (dec_of m)"
  shows "sort_column (chapter_sort_number (ci_number c)) = Inl DataError"
proof -
  obtain k e where m: "dec_of m = (k, e)" by (cases "dec_of m")
  have "chapter_sort_number (ci_number c) = Some (DFinite (dec_value (dec_of m)))"
    using assms(1,2) parse_format normalize_value [of k e]
    by (simp add: chapter_sort_number_def canonical_chapter_number_def m short_number_def)
  moreover have "100000000000000 \<le> round_column (dec_value (dec_of m))" by (rule round_column_large [OF assms(3)])
  ultimately show ?thesis by (simp add: sort_column_def)
qed

lemma blocked_fold:
  assumes "(n, c) \<in> set rows" "distinct (map fst rows)" "find_chapter s n d = None"
    "sort_column (chapter_sort_number (ci_number c)) = Inl e"
  shows "fold_result (upsert_chapter now s) rows d \<noteq> Inr d'"
  using assms(1-3)
proof (induction rows arbitrary: d)
  case (Cons p rows)
  show ?case
  proof (cases "p = (n, c)")
    case True
    then show ?thesis using Cons.prems(3) assms(4) by (simp add: upsert_chapter_def)
  next
    case False
    obtain m b where p: "p = (m, b)" by (cases p)
    have "m \<noteq> n" using Cons.prems(1,2) False by (force simp: p)
    then show ?thesis
      using Cons.IH Cons.prems False upsert_chapter_other [of now s m b d]
      by (auto simp: p bind_result_eq_Inr)
  qed
qed simp

text \<open>C20. One label with a number from \<open>10 ^ 14\<close> on, of a chapter the catalogue does not have, blocks the whole
  listing of the manga: the column for sort numbers cannot hold it, the flush raises, and nothing is stored, on this and
  every later ingestion that shows the label.\<close>

theorem huge_number_blocks_listing:
  assumes "last_item n items = Some c" "find_number (ci_number c) = Some m" "short_number m"
    "100000000000000 \<le> dec_value (dec_of m)" "n \<notin> set (map ch_canonical_number (chapters d))"
  shows "\<exists>e. ingest env now item items d = Inl e"
proof (rule ccontr)
  assume "\<not> (\<exists>e. ingest env now item items d = Inl e)"
  then obtain sid d' where "ingest env now item items d = Inr (sid, d')"
    by (cases "ingest env now item items d") auto
  then show False
  proof (cases rule: ingest_split)
    case 1
    then show ?thesis using last_item_in [OF assms(1)] by simp
  next
    case (2 s t e f)
    have "find_chapter s n e = None" using 2(1) assms(5) by (auto simp: find_chapter_None shelf_kept_def)
    note block = blocked_fold [OF last_item_in [OF assms(1)] conjunct1 [OF by_number_facts] this sort_column_large [OF assms(2-4)]]
    show ?thesis using 2(4) by (cases rule: upsert_chapters_split) (use block in blast)
  qed
qed

subsection \<open>The newest release\<close>

text \<open>The newest release a series shows is the one of its chapter with the greatest number, and of the releases of
  that chapter the one added last; the series counts as healthy from then on.\<close>

theorem newest_release_is_greatest:
  assumes "get_row ser_id s (series_rows d) = Some x" "(c, r) \<in> set (chapter_releases s d)" "ch_sort_number c = Some v"
  shows "\<exists>y c' r' v'. get_row ser_id s (series_rows (recompute_latest s d)) = Some y \<and> (c', r') \<in> set (chapter_releases s d) \<and>
    ch_sort_number c' = Some v' \<and> (v, rel_id r) \<le> (v', rel_id r') \<and> ser_latest_release_number y = ch_display_number c' \<and>
    ser_latest_release_source y = rel_source r' \<and> ser_integrity_state y = IntegrityHealthy"
proof -
  have r: "(c, r) \<in> set (filter (\<lambda>(c, r). ch_sort_number c \<noteq> None) (chapter_releases s d))" using assms(2,3) by simp
  then have "newest_numbered s d \<noteq> None" unfolding newest_numbered_def max_by_None using length_pos_if_in_set [OF r] by simp
  then obtain c' r' where p: "newest_numbered s d = Some (c', r')" by auto
  have best: "(c', r') \<in> set (chapter_releases s d)" "ch_sort_number c' \<noteq> None"
    "(the (ch_sort_number c), rel_id r) \<le> (the (ch_sort_number c'), rel_id r')"
    using max_by_Some [OF p [unfolded newest_numbered_def]] r by fastforce+
  then obtain v' where v': "ch_sort_number c' = Some v'" by auto
  have id: "ser_id x = s" "s \<in> ser_id ` set (series_rows d)" using get_row_SomeD [OF assms(1)] by auto
  let ?y = "x\<lparr>ser_latest_release_number := ch_display_number c', ser_latest_release_source := rel_source r',
    ser_latest_release_at := Some (case rel_published_at r' of Some t \<Rightarrow> t | None \<Rightarrow> rel_first_seen_at r'),
    ser_integrity_state := IntegrityHealthy\<rparr>"
  have "get_row ser_id s (series_rows (recompute_latest s d)) = Some ?y"
    using id(1) by (simp add: recompute_latest_def assms(1) p get_put_row [OF id(2)])
  then show ?thesis
    by (intro exI [of _ ?y] exI [of _ c'] exI [of _ r'] exI [of _ v'] conjI) (use best assms(3) v' in simp_all)
qed

subsection \<open>A first listing\<close>

definition demo_source_env :: ingest_env where
  "demo_source_env =
     \<lparr>ie_score = \<lparr>se_ratio = (\<lambda>_ _. 1 / 2),
        se_geometry = (\<lambda>_ _. \<lparr>cg_readable = True, cg_hash_distance = 3, cg_good = 20, cg_inliers = 15\<rparr>)\<rparr>,
      ie_py_str = (\<lambda>_. []), ie_storage_key = str_of_int\<rparr>"

definition demo_item :: series_item where
  "demo_item = \<lparr>it_source = ''mangadex'', it_source_id = ''blue-tower'', it_title = ''Blue Tower'', it_url = [],
     it_aliases = [''Tower''], it_description = [], it_cover_url = [], it_genres = [], it_popularity = 0,
     it_external_ids = [(''mal'', ''7'')], it_metadata = fmempty\<rparr>"

definition demo_label :: "string \<Rightarrow> string \<Rightarrow> chapter_item" where
  "demo_label n t = \<lparr>ci_source = ''mangadex'', ci_number = n, ci_title = t, ci_url = ''u'', ci_published_at = None,
     ci_metadata = fmempty\<rparr>"

lemma demo_tables_ok: "chapters_ok empty_db" "releases_ok empty_db"
  by (simp_all add: chapters_ok_def releases_ok_def empty_db_def)

lemma demo_listing_runs:
  "case ingest demo_source_env 7 demo_item [demo_label ''2'' [], demo_label ''2.0'' ''End''] empty_db of
     Inl e \<Rightarrow> False | Inr (sid, d) \<Rightarrow> sid = 1"
  by code_simp

lemma demo_last_label:
  "last_item ''2'' [demo_label ''2'' [], demo_label ''2.0'' ''End''] = Some (demo_label ''2.0'' ''End'')"
  by code_simp

theorem listing_is_stored_witness:
  "\<exists>d t x r. ingest demo_source_env 7 demo_item [demo_label ''2'' [], demo_label ''2.0'' ''End''] empty_db = Inr (1, d) \<and>
     get_row srs_id 1 (source_series d) = Some t \<and> find_chapter (srs_series_id t) ''2'' d = Some x \<and>
     find_release 1 ''2'' d = Some r \<and> rel_title r = ''End'' \<and> rel_chapter_id r = ch_id x"
proof -
  obtain d where run: "ingest demo_source_env 7 demo_item [demo_label ''2'' [], demo_label ''2.0'' ''End''] empty_db = Inr (1, d)"
    using demo_listing_runs by (auto split: sum.splits)
  have "find_release 1 ''2'' empty_db = None" by (simp add: find_release_def empty_db_def)
  then show ?thesis
    using listing_is_stored [OF run demo_tables_ok demo_last_label] run by (fastforce simp: shows_item_def demo_label_def)
qed

theorem ingest_keeps_catalogue_witness:
  "\<exists>d. ingest demo_source_env 7 demo_item [demo_label ''2'' [], demo_label ''2.0'' ''End''] empty_db = Inr (1, d) \<and>
     chapters_ok d \<and> releases_ok d"
proof -
  obtain d where run: "ingest demo_source_env 7 demo_item [demo_label ''2'' [], demo_label ''2.0'' ''End''] empty_db = Inr (1, d)"
    using demo_listing_runs by (auto split: sum.splits)
  then show ?thesis using ingest_keeps_catalogue [OF run demo_tables_ok] by blast
qed

lemma demo_chapters_listed:
  "case upsert_chapters 7 1 1 [demo_label ''2'' [], demo_label ''2.0'' ''End''] empty_db of
     Inl e \<Rightarrow> False | Inr d \<Rightarrow> length (releases d) = 1"
  by code_simp

theorem relisting_changes_nothing_witness:
  "\<exists>d. upsert_chapters 9 1 1 [demo_label ''2'' [], demo_label ''2.0'' ''End''] d = Inr d \<and> length (releases d) = 1"
proof -
  obtain d where "upsert_chapters 7 1 1 [demo_label ''2'' [], demo_label ''2.0'' ''End''] empty_db = Inr d" "length (releases d) = 1"
    using demo_chapters_listed by (auto split: sum.splits)
  then show ?thesis using relisting_changes_nothing [OF _ demo_tables_ok] by blast
qed

lemma canonical_not_empty: "find_number v = Some m \<Longrightarrow> canonical_chapter_number v \<noteq> []"
proof
  assume v: "find_number v = Some m" "canonical_chapter_number v = []"
  obtain c e where ce: "normalize_dec (dec_of m) = (c, e)" by (cases "normalize_dec (dec_of m)")
  obtain k where "find_number (format_f (c, e)) = Some k" using find_format by blast
  then show False using v ce by (simp add: canonical_chapter_number_def find_number_def)
qed

theorem huge_number_blocks_listing_witness:
  "\<exists>e. ingest demo_source_env 7 demo_item [demo_label ''1'' [], demo_label ''100000000000000'' []] empty_db = Inl e"
proof -
  let ?c = "demo_label ''100000000000000'' []" and ?m = "(''100000000000000'', []) :: string \<times> string"
  have number: "find_number (ci_number ?c) = Some ?m" by code_simp
  have short: "short_number ?m" "100000000000000 \<le> dec_value (dec_of ?m)"
    by (simp_all add: short_number_def dec_of_def dec_value_def scale10_def nat_of_digits_def digit_val_def context_digits_def)
  let ?n = "canonical_chapter_number (ci_number ?c)"
  have "last_item ?n [demo_label ''1'' [], ?c] = Some ?c"
    using canonical_not_empty [OF number] by (simp add: last_item_def)
  then show ?thesis
    by (rule huge_number_blocks_listing [OF _ number short]) (simp add: empty_db_def)
qed

theorem newest_release_is_greatest_witness:
  "\<exists>y c r v. get_row ser_id 1 (series_rows (recompute_latest 1 demo_catalog)) = Some y \<and> (c, r) \<in> set (chapter_releases 1 demo_catalog) \<and>
     ch_sort_number c = Some v \<and> (5, 10) \<le> (v, rel_id r) \<and> ser_latest_release_number y = ch_display_number c"
proof -
  have "get_row ser_id 1 (series_rows demo_catalog) = Some ((new_catalog_series 1 ''k1'' ''Demo'')\<lparr>ser_status := Reading\<rparr>)"
    by (simp add: demo_catalog_def get_row_Cons new_catalog_series_def)
  moreover have "(demo_chapter 5, demo_release 10 5 ''mangafire'') \<in> set (chapter_releases 1 demo_catalog)"
    by (simp add: demo_catalog_def chapter_releases_def demo_chapter_def demo_release_def)
  moreover have "ch_sort_number (demo_chapter 5) = Some 5" "rel_id (demo_release 10 5 ''mangafire'') = 10"
    by (simp_all add: demo_chapter_def demo_release_def)
  ultimately show ?thesis using newest_release_is_greatest [of 1 demo_catalog] by metis
qed

end
