(* ===== verification/Spec2Isabelle.thy ===== *)
theory Spec2Isabelle
  imports Queue_Properties Queue_Stranding Provider_Pacing_Facts Storage_Capacity Worker_Properties
    Download_Plan_Properties Download_Retrack Provider_Health_Properties Catalog_Domain_Properties
    Match_Operation_Properties Queue_Planner_Properties Scheduler_Properties Chapter_Download_Properties
    Matching_Score_Properties Provider_Duplicates_Properties Catalog_Ingest_Properties
begin

text \<open>
  Verification of the manga manager (\<^verbatim>\<open>src/manga_manager\<close>): a service that follows
  manga on several providers, keeps one catalogue of them, and downloads the chapters a reader tracks.  The program
  is a set of Python processes (web, workers, one of which leads the scheduler) that share a PostgreSQL database;
  every effect that matters is a transaction on its tables.

  \<^bold>\<open>Shape of the model.\<close>  \<open>Db_Model\<close> has a record per table of
  \<^verbatim>\<open>infrastructure/db_models.py\<close> and one record \<open>db\<close> of all tables (lists in the
  order of insertion) and sequences.  An operation of the code is a definition of the same name from the tables to
  the tables, or to \<open>py_error + _\<close> where the code can raise; an optional row is an \<open>option\<close>, a loop over
  rows a \<open>fold\<close> or \<open>fold_result\<close>, which stops at the first error.  Time is an
  \<open>instant\<close>, microseconds since the epoch, given to each operation: one reading of the clock per transaction.
  \<open>Prelude\<close> holds results, rows by key (\<open>get_row\<close>, \<open>put_row\<close>) and sorting by a key;
  \<open>Py_Text\<close> the string and number functions of Python that the program uses.

  \<^bold>\<open>The queue\<close> (\<^verbatim>\<open>domain/jobs.py\<close>,
  \<^verbatim>\<open>infrastructure/job_queue.py\<close>).  \<open>Job_Domain\<close> and \<open>Payload_Codec\<close>: kinds,
  states and payloads with their validation.  \<open>Queue_Enqueue\<close>, \<open>Queue_Core\<close>, \<open>Queue_Claim\<close>,
  \<open>Queue_Lifecycle\<close>, \<open>Queue_Edits\<close>: every method of \<open>JobQueue\<close>.  \<open>Machine\<close> has the locale of a state machine with
  an invariant; \<open>Queue_Machine\<close> makes the operations an inductive step relation \<open>queue_step\<close> with the passing
  of time and interprets the locale on it (qualifier \<open>queue\<close>), as the theories of telemetry, provider health,
  retention and match operations do for theirs.  \<open>Queue_Interface\<close> is the contract of the operations that end a
  worker's hold on a job, \<open>Payload_Codec\<close> that of the validator.  \<open>Queue_Invariants\<close>, \<open>Queue_Preservation\<close>, \<open>Queue_Leases\<close> and \<open>Queue_Keeping\<close> prove the
  invariants: unique active jobs, exclusion per series, pool bounds, accounts of workload cycles, fencing of leases.
  \<open>Queue_Properties\<close>, \<open>Queue_Op_Properties\<close> and \<open>Queue_Stranding\<close> state them for reachable states and
  for single operations.  \<open>Job_Retention\<close> is the pruning of finished jobs
  (\<^verbatim>\<open>application/job_retention.py\<close>), \<open>Storage_Capacity\<close> the reservation of disk space.

  \<^bold>\<open>Workers and the scheduler.\<close>  \<open>Worker_Registry\<close>, \<open>Worker_Runtime\<close>, \<open>Worker_Properties\<close>:
  \<^verbatim>\<open>worker/runtime.py\<close>, \<^verbatim>\<open>worker/service.py\<close>.  \<open>Scheduler\<close> is one tick of
  \<^verbatim>\<open>worker/scheduler.py\<close>, \<open>Queue_Planners\<close> the bounded planners it calls.  \<open>Settings\<close> derives the
  pools from \<^verbatim>\<open>settings.py\<close>.  \<open>Queue_Demo\<close>, \<open>Download_Demo\<close> and
  \<open>Download_Run_Demo\<close> are the small histories on which properties are evaluated.

  \<^bold>\<open>Providers.\<close>  \<open>Provider_Pacing\<close> (request slots of ordinary requests and recovery
  probes), \<open>Provider_Telemetry\<close> (learned
  policies, the bounded sample buffer), \<open>Provider_Health\<close> (cooldowns, probes, polling cadence).

  \<^bold>\<open>Downloads.\<close>  \<open>Download_Plans\<close>, \<open>Download_Routing\<close>, \<open>Download_Plan_Rows\<close>:
  \<^verbatim>\<open>application/download_plans.py\<close> on the tables of plans, intents and releases;
  \<open>Chapter_Download\<close>: the handler of \<^verbatim>\<open>application/chapter_download.py\<close> as its separate
  transactions, with every outcome of the fetch; \<open>Artifact_Store\<close>: putting an archive into service;
  \<open>Library_Repair\<close>: requesting and merging repairs.  Their \<open>_Facts\<close> and \<open>_Properties\<close> theories show that
  plans complete exactly when they should, that the rolling window holds, and that these components move the queue
  by its own steps only (\<open>queue_run\<close>), so its invariants carry over.

  \<^bold>\<open>The catalogue.\<close>  \<open>Catalog_Domain\<close> and \<open>Title_Text\<close>: chapter numbers and titles.
  \<open>Identity_Matching\<close>, \<open>Matching_Score\<close>, \<open>Provider_Duplicates\<close>: when two identities or two series are
  the same manga (\<^verbatim>\<open>domain/matching.py\<close>, \<^verbatim>\<open>application/matching_score.py\<close>,
  \<^verbatim>\<open>application/provider_duplicates.py\<close>).  \<open>Catalog_Ingest\<close>: writing a listing into
  the catalogue (\<^verbatim>\<open>infrastructure/catalog_repository.py\<close>).  \<open>Series_Merge\<close> and
  \<open>Match_Operations\<close>: merging series and the operations that do it with reservations
  (\<^verbatim>\<open>web/app.py\<close>, \<^verbatim>\<open>application/match_operations.py\<close>).  The lemmas relate the
  optimised routines to direct ones (the candidate indexes, shared queries, the union-find), and show what a listing
  and a merge store and keep.

  This theory joins them: the settings bound what runs at once, and the download coordinator keeps the invariants of
  the queue in every reachable state.

  \<^bold>\<open>Bounds.\<close>  The scan of \<open>claim\<close> has the fuel 50 because the code itself tries
  \<open>range(50)\<close> candidates; the waiting loop for request slots and the draining of the sample buffer have fuel
  that the theorems show to be enough; \<open>find_root\<close> of the union-find is a partial function that is shown to end.
  All other recursion is structural or over lists.

  \<^bold>\<open>What is idealised.\<close>  Every transaction is one step that runs alone.  Advisory locks, row locks and
  unique indexes enforce this where the code takes them (claims, enqueues, request slots, match operations); for the
  counters and the status of a workload cycle, which ending a job and coalescing read and write without a lock, it
  is an assumption, and \<open>settle_races_enqueue\<close> in \<open>Queue_Properties\<close> shows what a race does.
  Rows that other transactions hold under \<open>SKIP LOCKED\<close> are an argument \<open>locked\<close>.  Sessions run with
  \<open>autoflush=False\<close>: rows added are invisible to queries until the flush, which the definitions keep apart.
  Floats are exact rationals, strings have characters below 256, integers are unbounded as in Python with the limits
  of the columns where they can raise.  Parameters, with their documented behaviour as named hypotheses: the pydantic
  validator, the ratio of difflib, what OpenCV finds in two covers and the hashes stored for them, the outcome of
  fetching a chapter, storage keys, the free space of the disk, the text of a JSON value.

  \<^bold>\<open>Not modelled.\<close>  Parsing of provider pages and HTTP (\<^verbatim>\<open>src/app\<close>), reading and writing
  archives, images and Kavita, the web API, metrics and the command line, migrations, import and export of state and
  one-off repairs, and asyncio itself.
\<close>

section \<open>Properties across components\<close>

subsection \<open>Settings and the queue\<close>

lemma length_filter_mono:
  "(\<And>x. x \<in> set xs \<Longrightarrow> P x \<Longrightarrow> Q x) \<Longrightarrow> length (filter P xs) \<le> length (filter Q xs)"
  by (induction xs) auto

lemma running_kind_bound:
  assumes "queue_inv d" "lease_inv limits t d" "map_of limits pool = Some l" "\<not> adaptive_pool pool" "0 \<le> l"
    and "\<And>j. P j \<Longrightarrow> pool \<in> set (permit_pools j)"
  shows "int (length (filter (\<lambda>j. P j \<and> live_lease t j) (jobs d))) \<le> l"
proof -
  have "length (filter (\<lambda>j. P j \<and> live_lease t j) (jobs d)) \<le> length (running_in t pool d)"
    unfolding running_in_def using assms(6) by (intro length_filter_mono) auto
  then show ?thesis using running_bounded [OF assms(1-4)] assms(5) by linarith
qed

text \<open>C4. With the limits of valid settings, whatever the workers, the scheduler and the
  coordinator did before, no more chapters are downloaded at once than
  \<open>global_chapter_concurrency\<close>, no more network jobs run than \<open>network_worker_concurrency\<close>, and
  maintenance runs alone.\<close>

theorem settings_bound_running:
  assumes "settings_ok cfg" "queue_init s" "(queue_step mv (pool_limits cfg))\<^sup>*\<^sup>* s (t, d)"
  shows "int (length (filter (\<lambda>j. job_kind_of j = CHAPTER_DOWNLOAD \<and> live_lease t j) (jobs d)))
           \<le> set_global_chapter_concurrency cfg \<and>
    int (length (filter (\<lambda>j. is_network_job j \<and> live_lease t j) (jobs d))) \<le> set_network_worker_concurrency cfg \<and>
    int (length (filter (\<lambda>j. job_pool j = ''maintenance'' \<and> live_lease t j) (jobs d))) \<le> 1"
proof (intro conjI)
  note R = reachable_ok [OF assms(2,3)]
  note K = running_kind_bound [OF R]
  show "int (length (filter (\<lambda>j. job_kind_of j = CHAPTER_DOWNLOAD \<and> live_lease t j) (jobs d)))
      \<le> set_global_chapter_concurrency cfg"
    by (rule K [of "''chapter_global''"]) (use assms(1) in
        \<open>simp_all add: pool_limits_def adaptive_pool_def py_startswith_def settings_ok_def between_def permit_pools_def\<close>)
  show "int (length (filter (\<lambda>j. is_network_job j \<and> live_lease t j) (jobs d))) \<le> set_network_worker_concurrency cfg"
    by (rule K [of "''network_global''"]) (use assms(1) in
        \<open>simp_all add: pool_limits_def adaptive_pool_def py_startswith_def settings_ok_def between_def permit_pools_def\<close>)
  show "int (length (filter (\<lambda>j. job_pool j = ''maintenance'' \<and> live_lease t j) (jobs d))) \<le> 1"
    by (rule K [of "''maintenance''"]) (use assms(1) in
        \<open>simp_all add: pool_limits_def adaptive_pool_def py_startswith_def settings_ok_def between_def permit_pools_def\<close>)
qed

theorem settings_bound_running_witness:
  "int (length (filter (\<lambda>j. job_kind_of j = CHAPTER_DOWNLOAD \<and> live_lease 2000 j) (jobs demo_downloading))) \<le> 20"
  using settings_bound_running [OF _ empty_db_init demo_download_run(2)] default_settings_ok
  by (simp add: demo_settings_def default_settings_def)

subsection \<open>The download coordinator and the queue\<close>

text \<open>The coordinator keeps the guarantees of the queue: from any reachable state, tracking,
  untracking, the sweep over active plans, the bootstrap and the rerouting of a failed chapter lead
  to states in which all queue invariants hold (unique active jobs, series exclusion, pool bounds,
  cycle accounts).\<close>

theorem coordinator_keeps_queue:
  assumes "queue_init s" "(queue_step mv limits)\<^sup>*\<^sup>* s (now, d)"
  shows "(track mv window now series d = Inr (po, d1) \<longrightarrow> queue_ok limits (now, d1)) \<and>
    queue_ok limits (now, untrack now series d) \<and>
    (reconcile_active mv window now limit locked d = Inr (n, d2) \<longrightarrow> queue_ok limits (now, d2)) \<and>
    (bootstrap mv window now d = Inr (m, d3) \<longrightarrow> queue_ok limits (now, d3)) \<and>
    (reroute_release mv now job r alt code msg after d = Inr (j, d4) \<longrightarrow> queue_ok limits (now, d4))"
proof -
  have "queue_ok limits (now, e)" if "queue_run mv limits now d e" for e
    using queue.reachable_inv [OF assms(1) rtranclp_trans [OF assms(2)]] that unfolding queue_run_def .
  then show ?thesis
    by (simp add: untrack_run) (blast intro: track_run reconcile_active_run bootstrap_run reroute_release_run)
qed

theorem coordinator_keeps_queue_witness:
  "queue_ok (pool_limits demo_settings) (2000, untrack 2000 1 demo_downloading)"
  using coordinator_keeps_queue [OF empty_db_init demo_download_run(2), of 20 1] by blast

end
